(* ===== verification/Cdc_Prelude.thy ===== *)
theory Cdc_Prelude
  imports
    Main
    "HOL-Library.Char_ord"
    "HOL-Library.List_Lexorder"
    "HOL-Library.Product_Lexorder"
    "HOL-Library.Word"
begin

text \<open>
  Shared vocabulary of the development.

  \<^item> Machine integers: Rust's \<open>u64\<close>, \<open>u32\<close>, \<open>u16\<close> and \<open>u8\<close> are words of that width.
  \<^item> Errors: a Rust \<open>Result<T, E>\<close> is \<open>'e + 'a\<close> with \<open>Inl\<close> the error. Where the code can
    also panic (\<open>expect\<close>, indexing, checked arithmetic) the error is a \<open>fault\<close>, so a theorem
    can say that no panic happens.
  \<^item> Effects: a method taking \<open>&mut self\<close> of a trait object is an operation
    \<open>'w \<Rightarrow> ('e + 'a) \<times> 'w\<close> on the state behind the trait, sequenced by \<open>bind_op\<close>.
  \<^item> Ordered collections: Rust's \<open>BTreeSet\<close> is a strictly sorted list and \<open>BTreeMap\<close> an
    association list with strictly sorted keys, so iteration order is the list order.
  \<^item> Strings are byte lists (\<open>string\<close>); the order on strings and on lists of strings is the
    lexicographic one of \<open>List_Lexorder\<close> and \<open>Char_ord\<close>, which is Rust's \<open>Ord\<close>.
\<close>

section \<open>Integers, results and effects\<close>

type_synonym u64 = "64 word"
type_synonym u32 = "32 word"
type_synonym u16 = "16 word"
type_synonym u8 = "8 word"

datatype 'e fault = Fail 'e | Panic string

type_synonym ('e, 'a) res = "'e fault + 'a"
type_synonym ('w, 'e, 'a) op = "'w \<Rightarrow> ('e + 'a) \<times> 'w"

named_theorems op_simps \<open>unfolding rules for the sequencing of results and operations\<close>

definition bind_res :: "'e + 'a \<Rightarrow> ('a \<Rightarrow> 'e + 'b) \<Rightarrow> 'e + 'b" where
  "bind_res r f = (case r of Inl e \<Rightarrow> Inl e | Inr a \<Rightarrow> f a)"

definition map_err :: "('e \<Rightarrow> 'f) \<Rightarrow> 'e + 'a \<Rightarrow> 'f + 'a" where
  "map_err g r = (case r of Inl e \<Rightarrow> Inl (g e) | Inr a \<Rightarrow> Inr a)"

definition ok_or :: "'e \<Rightarrow> 'a option \<Rightarrow> 'e + 'a" where
  "ok_or e x = (case x of None \<Rightarrow> Inl e | Some a \<Rightarrow> Inr a)"

fun collect_res :: "('a \<Rightarrow> 'e + 'b) \<Rightarrow> 'a list \<Rightarrow> 'e + 'b list" where
  "collect_res f [] = Inr []"
| "collect_res f (x # xs) =
     (case f x of Inl e \<Rightarrow> Inl e
      | Inr y \<Rightarrow> (case collect_res f xs of Inl e \<Rightarrow> Inl e | Inr ys \<Rightarrow> Inr (y # ys)))"

definition ret_op :: "'a \<Rightarrow> ('w, 'e, 'a) op" where
  "ret_op a w = (Inr a, w)"

definition fail_op :: "'e \<Rightarrow> ('w, 'e, 'a) op" where
  "fail_op e w = (Inl e, w)"

definition bind_op :: "('w, 'e, 'a) op \<Rightarrow> ('a \<Rightarrow> ('w, 'e, 'b) op) \<Rightarrow> ('w, 'e, 'b) op" where
  "bind_op m f w = (case m w of (Inl e, w') \<Rightarrow> (Inl e, w') | (Inr a, w') \<Rightarrow> f a w')"

definition map_err_op :: "('e \<Rightarrow> 'f) \<Rightarrow> ('w, 'e, 'a) op \<Rightarrow> ('w, 'f, 'a) op" where
  "map_err_op g m w = (case m w of (r, w') \<Rightarrow> (map_err g r, w'))"

definition lift_op :: "'e + 'a \<Rightarrow> ('w, 'e, 'a) op" where
  "lift_op r w = (r, w)"

section \<open>Ordered sets and maps\<close>

definition bts_insert :: "'a::linorder \<Rightarrow> 'a list \<Rightarrow> 'a list" where
  "bts_insert x xs = insort_insert x xs"

definition bts_remove :: "'a \<Rightarrow> 'a list \<Rightarrow> 'a list" where
  "bts_remove x xs = filter (\<lambda>y. y \<noteq> x) xs"

definition bts_collect :: "'a::linorder list \<Rightarrow> 'a list" where
  "bts_collect xs = fold bts_insert xs []"

fun btm_insert :: "'k::linorder \<Rightarrow> 'v \<Rightarrow> ('k \<times> 'v) list \<Rightarrow> ('k \<times> 'v) list" where
  "btm_insert k v [] = [(k, v)]"
| "btm_insert k v ((k', v') # m) =
     (if k < k' then (k, v) # (k', v') # m
      else if k = k' then (k, v) # m
      else (k', v') # btm_insert k v m)"

definition btm_remove :: "'k \<Rightarrow> ('k \<times> 'v) list \<Rightarrow> ('k \<times> 'v) list" where
  "btm_remove k m = filter (\<lambda>e. fst e \<noteq> k) m"

definition btm_collect :: "('k::linorder \<times> 'v) list \<Rightarrow> ('k \<times> 'v) list" where
  "btm_collect es = fold (\<lambda>(k, v). btm_insert k v) es []"

abbreviation bts_wf :: "'a::linorder list \<Rightarrow> bool" where
  "bts_wf xs \<equiv> sorted_wrt (<) xs"

definition btm_wf :: "('k::linorder \<times> 'v) list \<Rightarrow> bool" where
  "btm_wf m = sorted_wrt (<) (map fst m)"

section \<open>Strings\<close>

fun join_str :: "string \<Rightarrow> string list \<Rightarrow> string" where
  "join_str sep [] = []"
| "join_str sep [x] = x"
| "join_str sep (x # y # xs) = x @ sep @ join_str sep (y # xs)"

section \<open>Results and operations: lemmas\<close>

lemma bind_res_simps [simp]:
  "bind_res (Inl e) f = Inl e"
  "bind_res (Inr a) f = f a"
  by (simp_all add: bind_res_def)

lemma bind_res_eq_Inr [simp]: "bind_res r f = Inr b \<longleftrightarrow> (\<exists>a. r = Inr a \<and> f a = Inr b)"
  by (auto simp: bind_res_def split: sum.splits)

lemma bind_res_eq_Inl:
  "bind_res r f = Inl e \<longleftrightarrow> r = Inl e \<or> (\<exists>a. r = Inr a \<and> f a = Inl e)"
  by (auto simp: bind_res_def split: sum.splits)

lemma map_err_simps [simp]:
  "map_err g (Inl e) = Inl (g e)"
  "map_err g (Inr a) = Inr a"
  by (simp_all add: map_err_def)

lemma map_err_eq_Inr [simp]: "map_err g r = Inr a \<longleftrightarrow> r = Inr a"
  by (auto simp: map_err_def split: sum.splits)

lemma ok_or_simps [simp]:
  "ok_or e None = Inl e"
  "ok_or e (Some a) = Inr a"
  by (simp_all add: ok_or_def)

lemma ok_or_eq_Inr [simp]: "ok_or e x = Inr a \<longleftrightarrow> x = Some a"
  by (auto simp: ok_or_def split: option.splits)

lemma collect_res_Inr_iff:
  "collect_res f xs = Inr ys \<longleftrightarrow> list_all2 (\<lambda>x y. f x = Inr y) xs ys"
proof (induction xs arbitrary: ys)
  case Nil
  then show ?case by auto
next
  case (Cons x xs)
  show ?case
    by (cases ys) (auto simp: Cons.IH [symmetric] split: sum.splits)
qed

lemma collect_res_length: "collect_res f xs = Inr ys \<Longrightarrow> length ys = length xs"
  by (simp add: collect_res_Inr_iff list_all2_lengthD)

lemma collect_res_total:
  "(\<And>x. x \<in> set xs \<Longrightarrow> \<exists>y. f x = Inr y) \<Longrightarrow> \<exists>ys. collect_res f xs = Inr ys"
  by (induction xs) (fastforce split: sum.splits)+

lemma collect_res_Inl_D: "collect_res f xs = Inl e \<Longrightarrow> \<exists>x \<in> set xs. f x = Inl e"
  by (induction xs) (auto split: sum.splits)

lemma op_rules [op_simps]:
  "bind_op (ret_op a) f = f a"
  "bind_op (fail_op e) f = fail_op e"
  "bind_op m ret_op = m"
  by (auto simp: fun_eq_iff bind_op_def ret_op_def fail_op_def split: prod.splits sum.splits)

lemma bind_op_eq_Inr:
  "bind_op m f w = (Inr b, w'') \<longleftrightarrow> (\<exists>a w'. m w = (Inr a, w') \<and> f a w' = (Inr b, w''))"
  by (auto simp: bind_op_def split: prod.splits sum.splits)

lemma bind_op_eq_Inl:
  "bind_op m f w = (Inl e, w'') \<longleftrightarrow>
     m w = (Inl e, w'') \<or> (\<exists>a w'. m w = (Inr a, w') \<and> f a w' = (Inl e, w''))"
  by (auto simp: bind_op_def split: prod.splits sum.splits)

lemma map_err_op_eq_Inr [simp]: "map_err_op g m w = (Inr a, w') \<longleftrightarrow> m w = (Inr a, w')"
  by (auto simp: map_err_op_def split: prod.splits)

lemma map_err_op_eq_Inl:
  "map_err_op g m w = (Inl e, w') \<longleftrightarrow> (\<exists>d. m w = (Inl d, w') \<and> e = g d)"
  by (auto simp: map_err_op_def map_err_def split: prod.splits sum.splits)

section \<open>Ordered sets and maps: lemmas\<close>

lemma bts_wf_iff: "bts_wf xs \<longleftrightarrow> sorted xs \<and> distinct xs"
  by (rule strict_sorted_iff)

lemma bts_wf_distinct: "bts_wf xs \<Longrightarrow> distinct xs"
  unfolding bts_wf_iff by blast

lemma set_bts_insert [simp]: "set (bts_insert x xs) = insert x (set xs)"
  by (simp add: bts_insert_def set_insort_insert)

lemma bts_wf_insert [simp, intro]: "bts_wf xs \<Longrightarrow> bts_wf (bts_insert x xs)"
  by (simp add: bts_insert_def strict_sorted_iff sorted_insort_insert distinct_insort_insert)

lemma length_bts_insert:
  "length (bts_insert x xs) = (if x \<in> set xs then length xs else Suc (length xs))"
  by (auto simp: bts_insert_def insort_insert_key_def)

lemma set_bts_remove [simp]: "set (bts_remove x xs) = set xs - {x}"
  by (auto simp: bts_remove_def)

lemma bts_wf_remove [simp, intro]: "bts_wf xs \<Longrightarrow> bts_wf (bts_remove x xs)"
  by (simp add: bts_remove_def sorted_wrt_filter)

lemma set_fold_bts_insert: "set (fold bts_insert xs acc) = set xs \<union> set acc"
  by (induction xs arbitrary: acc) auto

lemma bts_wf_fold_insert: "bts_wf acc \<Longrightarrow> bts_wf (fold bts_insert xs acc)"
  by (induction xs arbitrary: acc) auto

lemma set_bts_collect [simp]: "set (bts_collect xs) = set xs"
  by (simp add: bts_collect_def set_fold_bts_insert)

lemma bts_wf_collect [simp, intro]: "bts_wf (bts_collect xs)"
  by (simp add: bts_collect_def bts_wf_fold_insert)

lemma bts_wf_unique: "bts_wf xs \<Longrightarrow> bts_wf ys \<Longrightarrow> set xs = set ys \<Longrightarrow> xs = ys"
  by (simp add: strict_sorted_equal)

lemma map_of_btm_insert [simp]: "map_of (btm_insert k v m) = (map_of m)(k \<mapsto> v)"
  by (induction k v m rule: btm_insert.induct) (auto simp: fun_eq_iff)

lemma keys_btm_insert [simp]: "set (map fst (btm_insert k v m)) = insert k (set (map fst m))"
  by (induction k v m rule: btm_insert.induct) auto

lemma btm_wf_Nil [simp]: "btm_wf []"
  by (simp add: btm_wf_def)

lemma btm_wf_insert [simp, intro]: "btm_wf m \<Longrightarrow> btm_wf (btm_insert k v m)"
proof (induction k v m rule: btm_insert.induct)
  case (1 k v)
  then show ?case by (simp add: btm_wf_def)
next
  case (2 k v k' v' m)
  have keys: "fst ` set (btm_insert k v m) = insert k (fst ` set m)"
    using keys_btm_insert [of k v m] by simp
  from 2 show ?case
    by (auto simp: btm_wf_def keys)
qed

lemma btm_wf_distinct: "btm_wf m \<Longrightarrow> distinct (map fst m)"
  by (simp add: btm_wf_def strict_sorted_iff)

lemma map_of_btm_remove [simp]: "map_of (btm_remove k m) = (map_of m)(k := None)"
  by (induction m) (auto simp: btm_remove_def fun_eq_iff)

lemma keys_btm_remove [simp]: "fst ` set (btm_remove k m) = fst ` set m - {k}"
  by (auto simp: btm_remove_def)

lemma btm_wf_remove [simp, intro]: "btm_wf m \<Longrightarrow> btm_wf (btm_remove k m)"
  by (induction m) (auto simp: btm_wf_def btm_remove_def)

lemma btm_wf_fold: "btm_wf acc \<Longrightarrow> btm_wf (fold (\<lambda>(k, v). btm_insert k v) es acc)"
  by (induction es arbitrary: acc) auto

lemma map_of_btm_collect: "map_of (btm_collect es) k = map_of (rev es) k"
proof -
  have "map_of (fold (\<lambda>(k, v). btm_insert k v) es acc) = map_of acc ++ map_of (rev es)" for acc
    by (induction es arbitrary: acc) (auto simp: fun_eq_iff map_add_def split: option.splits)
  then show ?thesis by (simp add: btm_collect_def)
qed

lemma btm_wf_collect [simp]: "btm_wf (btm_collect es)"
  by (simp add: btm_collect_def btm_wf_fold)

lemma btm_insert_keys_cong:
  "k \<in> set (map fst m) \<Longrightarrow> btm_wf m \<Longrightarrow> map fst (btm_insert k v m) = map fst m"
proof (induction k v m rule: btm_insert.induct)
  case (2 k v k' v' m)
  then show ?case by (auto simp: btm_wf_def)
qed simp

lemma map_of_Some_key: "map_of m k = Some v \<Longrightarrow> k \<in> set (map fst m)"
  by (metis domI dom_map_of_conv_image_fst list.set_map)

lemma key_map_of_Some: "k \<in> set (map fst m) \<Longrightarrow> \<exists>v. map_of m k = Some v"
  by (metis domD dom_map_of_conv_image_fst list.set_map)

lemmas btree_simps = map_of_btm_insert map_of_btm_remove set_bts_insert set_bts_remove
  set_bts_collect

end
