(* ===== verification/Inventory_Model.thy ===== *)
theory Inventory_Model
  imports Cdc_Prelude
begin

text \<open>
  The schema inventory shared by planning, locking and schema validation
  (\<open>src/src/inventory/model.rs\<close>): tables with their columns, indexes and foreign keys, and the
  stored programs of a schema. Field names carry the record's initials, because record fields
  are global names here.
\<close>

record generated_column =
  gc_expression :: string
  gc_generation_kind :: string

record column_inventory =
  ci_name :: string
  ci_ordinal_position :: u32
  ci_column_type :: string
  ci_data_type :: string
  ci_is_nullable :: bool
  ci_character_set :: "string option"
  ci_collation :: "string option"
  ci_default_value :: "string option"
  ci_extra :: string
  ci_comment :: string
  ci_generated :: "generated_column option"

record table_inventory =
  ti_name :: string
  ti_table_type :: string
  ti_engine :: "string option"
  ti_collation :: "string option"
  ti_primary_key :: "string list"
  ti_columns :: "column_inventory list"

record index_column_inventory =
  ic_name :: string
  ic_sequence :: u32
  ic_prefix_length :: "u32 option"
  ic_collation :: "string option"
  ic_order :: string

record index_inventory =
  ii_table :: string
  ii_name :: string
  ii_unique :: bool
  ii_index_type :: string
  ii_visible :: bool
  ii_comment :: "string option"
  ii_columns :: "index_column_inventory list"

record foreign_key_inventory =
  fk_table :: string
  fk_name :: string
  fk_columns :: "string list"
  fk_referenced_schema :: string
  fk_referenced_table :: string
  fk_referenced_columns :: "string list"

record view_inventory =
  vi_name :: string
  vi_definition :: string

record trigger_inventory =
  tr_name :: string
  tr_table :: string
  tr_timing :: string
  tr_event :: string
  tr_statement :: string

record routine_inventory =
  ri_name :: string
  ri_routine_type :: string
  ri_definition :: "string option"

record event_inventory =
  ev_name :: string
  ev_status :: string
  ev_definition :: string

record schema_inventory =
  si_schema :: string
  si_tables :: "table_inventory list"
  si_indexes :: "index_inventory list"
  si_foreign_keys :: "foreign_key_inventory list"
  si_views :: "view_inventory list"
  si_triggers :: "trigger_inventory list"
  si_routines :: "routine_inventory list"
  si_events :: "event_inventory list"

end
