(* ===== verification/Dependency_Order.thy ===== *)
theory Dependency_Order
  imports Inventory_Model
begin

text \<open>
  Scheduling of selected tables along their foreign keys
  (\<open>src/src/sync/dependency_order.rs\<close>): the successor map, the dependency counts and the batch
  loop, with every \<open>expect\<close>, index and unchecked subtraction of the source as a \<open>Panic\<close>.
  The loop is a \<^theory_text>\<open>partial_function (option)\<close>: \<open>None\<close> is a loop that never ends, and
  \<open>schedule_loop_total\<close> shows that it ends for every parallelism the planner lets through.
\<close>

section \<open>The planner\<close>

datatype direction = ParentFirst | ChildFirst

datatype dependency_order_error =
    ZeroParallelism
  | DuplicateTable string
  | SelfDependency string
  | Cycle

type_synonym successor_map = "(string \<times> string list) list"
type_synonym count_map = "(string \<times> nat) list"

fun insert_selected :: "string list \<Rightarrow> successor_map \<Rightarrow> (dependency_order_error, successor_map) res" where
  "insert_selected [] succs = Inr succs"
| "insert_selected (table # rest) succs =
     (if map_of succs table \<noteq> None then Inl (Fail (DuplicateTable table))
      else insert_selected rest (btm_insert table [] succs))"

fun add_dependencies ::
  "successor_map \<Rightarrow> foreign_key_inventory list \<Rightarrow> string \<Rightarrow> direction
     \<Rightarrow> (dependency_order_error, successor_map) res" where
  "add_dependencies succs [] schema dir = Inr succs"
| "add_dependencies succs (key # keys) schema dir =
     (if fk_referenced_schema key \<noteq> schema then add_dependencies succs keys schema dir
      else
        let child = fk_table key; parent = fk_referenced_table key in
        if map_of succs child = None \<or> map_of succs parent = None
        then add_dependencies succs keys schema dir
        else if child = parent then Inl (Fail (SelfDependency child))
        else
          let (before, after) =
            (case dir of ParentFirst \<Rightarrow> (parent, child) | ChildFirst \<Rightarrow> (child, parent)) in
          case map_of succs before of
            None \<Rightarrow> Inl (Panic ''selected table'')
          | Some as \<Rightarrow>
              add_dependencies (btm_insert before (bts_insert after as) succs) keys schema dir)"

fun count_edges :: "string list \<Rightarrow> count_map \<Rightarrow> (dependency_order_error, count_map) res" where
  "count_edges [] counts = Inr counts"
| "count_edges (after # rest) counts =
     (case map_of counts after of
        None \<Rightarrow> Inl (Panic ''selected successor'')
      | Some n \<Rightarrow> count_edges rest (btm_insert after (Suc n) counts))"

definition count_dependencies :: "successor_map \<Rightarrow> (dependency_order_error, count_map) res" where
  "count_dependencies succs =
     count_edges (concat (map snd succs)) (map (\<lambda>(table, _). (table, 0)) succs)"

fun release_successors ::
  "string list \<Rightarrow> count_map \<Rightarrow> string list \<Rightarrow> (dependency_order_error, count_map \<times> string list) res"
where
  "release_successors [] counts ready = Inr (counts, ready)"
| "release_successors (after # rest) counts ready =
     (case map_of counts after of
        None \<Rightarrow> Inl (Panic ''selected successor'')
      | Some 0 \<Rightarrow> Inl (Panic ''attempt to subtract with overflow'')
      | Some (Suc n) \<Rightarrow>
          release_successors rest (btm_insert after n counts)
            (if n = 0 then bts_insert after ready else ready))"

fun release_batch ::
  "successor_map \<Rightarrow> string list \<Rightarrow> count_map \<Rightarrow> string list
     \<Rightarrow> (dependency_order_error, count_map \<times> string list) res"
where
  "release_batch succs [] counts ready = Inr (counts, ready)"
| "release_batch succs (table # rest) counts ready =
     (case map_of succs table of
        None \<Rightarrow> Inl (Panic ''no entry found for key'')
      | Some as \<Rightarrow>
          bind_res (release_successors as counts ready)
            (\<lambda>(counts', ready'). release_batch succs rest counts' ready'))"

partial_function (option) schedule_loop ::
  "successor_map \<Rightarrow> nat \<Rightarrow> count_map \<Rightarrow> string list \<Rightarrow> string list list \<Rightarrow> nat
     \<Rightarrow> (dependency_order_error, string list list \<times> nat) res option"
where
  "schedule_loop succs max_parallelism counts ready batches scheduled =
     (if ready = [] then Some (Inr (batches, scheduled))
      else
        let batch = take max_parallelism ready;
            ready1 = fold bts_remove batch ready in
        case release_batch succs batch counts ready1 of
          Inl e \<Rightarrow> Some (Inl e)
        | Inr (counts', ready') \<Rightarrow>
            schedule_loop succs max_parallelism counts' ready' (batches @ [batch])
              (scheduled + length batch))"

declare schedule_loop.simps [code]

definition schedule_batches ::
  "successor_map \<Rightarrow> nat \<Rightarrow> (dependency_order_error, string list list) res option"
where
  "schedule_batches succs max_parallelism =
     (case count_dependencies succs of
        Inl e \<Rightarrow> Some (Inl e)
      | Inr counts \<Rightarrow>
          let ready = map fst (filter (\<lambda>(_, n). n = 0) counts) in
          case schedule_loop succs max_parallelism counts ready [] 0 of
            None \<Rightarrow> None
          | Some (Inl e) \<Rightarrow> Some (Inl e)
          | Some (Inr (batches, scheduled)) \<Rightarrow>
              Some (if scheduled \<noteq> length succs then Inl (Fail Cycle) else Inr batches))"

definition plan_dependency_batches ::
  "string list \<Rightarrow> foreign_key_inventory list \<Rightarrow> string \<Rightarrow> direction \<Rightarrow> nat
     \<Rightarrow> (dependency_order_error, string list list) res option"
where
  "plan_dependency_batches selected foreign_keys schema dir max_parallelism =
     (if max_parallelism = 0 then Some (Inl (Fail ZeroParallelism))
      else
        case bind_res (insert_selected selected [])
               (\<lambda>succs. add_dependencies succs foreign_keys schema dir) of
          Inl e \<Rightarrow> Some (Inl e)
        | Inr succs \<Rightarrow> schedule_batches succs max_parallelism)"

section \<open>Specification\<close>

text \<open>
  The dependency relation the foreign keys of one schema induce on the selected tables: an edge
  goes from the table that has to be scheduled first.
\<close>

definition dep_edges ::
  "string list \<Rightarrow> foreign_key_inventory list \<Rightarrow> string \<Rightarrow> direction \<Rightarrow> (string \<times> string) set"
where
  "dep_edges selected foreign_keys schema dir =
     {(a, b). \<exists>key \<in> set foreign_keys.
        fk_referenced_schema key = schema \<and>
        fk_table key \<in> set selected \<and> fk_referenced_table key \<in> set selected \<and>
        (a, b) = (case dir of ParentFirst \<Rightarrow> (fk_referenced_table key, fk_table key)
                            | ChildFirst \<Rightarrow> (fk_table key, fk_referenced_table key))}"

definition succ_edges :: "successor_map \<Rightarrow> (string \<times> string) set" where
  "succ_edges succs = {(a, b). \<exists>as. map_of succs a = Some as \<and> b \<in> set as}"

definition ordered_batches :: "(string \<times> string) set \<Rightarrow> string list list \<Rightarrow> bool" where
  "ordered_batches E batches =
     (\<forall>i < length batches. \<forall>b \<in> set (batches ! i). \<forall>a. (a, b) \<in> E \<longrightarrow>
        (\<exists>j < i. a \<in> set (batches ! j)))"

definition succ_wf :: "successor_map \<Rightarrow> bool" where
  "succ_wf succs = (btm_wf succs \<and>
     (\<forall>a as. map_of succs a = Some as \<longrightarrow> bts_wf as \<and> set as \<subseteq> set (map fst succs)))"

text \<open>How many unscheduled predecessors a table has, the quantity \<open>counts\<close> tracks.\<close>

definition open_preds :: "(string \<times> string) set \<Rightarrow> string set \<Rightarrow> string \<Rightarrow> nat" where
  "open_preds E scheduled_set v = card {u. (u, v) \<in> E \<and> u \<notin> scheduled_set}"

section \<open>The successor map\<close>

lemma insert_selected_Inr:
  assumes "insert_selected sel succs = Inr succs'"
  shows "distinct sel \<and> (\<forall>t \<in> set sel. map_of succs t = None) \<and>
    map_of succs' = (\<lambda>t. if t \<in> set sel then Some [] else map_of succs t) \<and>
    set (map fst succs') = set sel \<union> set (map fst succs)"
  using assms
proof (induction sel arbitrary: succs)
  case Nil
  then show ?case by simp
next
  case (Cons t sel)
  then have none: "map_of succs t = None"
    and IH: "insert_selected sel (btm_insert t [] succs) = Inr succs'"
    by (auto split: if_splits)
  have keys: "fst ` set (btm_insert t [] succs) = insert t (fst ` set succs)"
    using keys_btm_insert [of t "[]" succs] by simp
  from Cons.IH [OF IH] none show ?case
    by (auto simp: fun_eq_iff keys split: if_splits)
qed

lemma insert_selected_wf:
  "insert_selected sel succs = Inr succs' \<Longrightarrow> btm_wf succs \<Longrightarrow> btm_wf succs'"
  by (induction sel arbitrary: succs) (auto split: if_splits)

lemma insert_selected_Inl:
  "insert_selected sel succs = Inl e \<Longrightarrow>
     \<exists>t \<in> set sel. e = Fail (DuplicateTable t) \<and> (\<not> distinct sel \<or> map_of succs t \<noteq> None)"
proof (induction sel arbitrary: succs)
  case (Cons t sel)
  show ?case
  proof (cases "map_of succs t")
    case None
    with Cons.prems have "insert_selected sel (btm_insert t [] succs) = Inl e" by simp
    from Cons.IH [OF this] show ?thesis by (auto split: if_splits)
  next
    case (Some as)
    with Cons.prems show ?thesis by auto
  qed
qed simp

lemma insert_selected_empty:
  assumes "distinct sel"
  obtains succs where "insert_selected sel [] = Inr succs" "btm_wf succs"
    "map_of succs = (\<lambda>t. if t \<in> set sel then Some [] else None)"
    "set (map fst succs) = set sel"
proof (cases "insert_selected sel []")
  case (Inl e)
  from insert_selected_Inl [OF Inl] assms show ?thesis by auto
next
  case (Inr succs)
  have "map_of succs = (\<lambda>t. if t \<in> set sel then Some [] else None)"
    using insert_selected_Inr [OF Inr] by (simp add: fun_eq_iff)
  with insert_selected_Inr [OF Inr] insert_selected_wf [OF Inr] Inr that show ?thesis by simp
qed

lemma dep_edges_subset: "dep_edges sel keys schema dir \<subseteq> set sel \<times> set sel"
  by (cases dir) (auto simp: dep_edges_def)

lemma dep_edges_Nil [simp]: "dep_edges sel [] schema dir = {}"
  by (simp add: dep_edges_def)

lemma dep_edges_Cons:
  "dep_edges sel (key # keys) schema dir =
     (if fk_referenced_schema key = schema \<and> fk_table key \<in> set sel
         \<and> fk_referenced_table key \<in> set sel
      then {case dir of ParentFirst \<Rightarrow> (fk_referenced_table key, fk_table key)
                      | ChildFirst \<Rightarrow> (fk_table key, fk_referenced_table key)}
      else {}) \<union> dep_edges sel keys schema dir"
  by (auto simp: dep_edges_def split: direction.splits)

lemma dep_edges_set_cong: "set sel = set sel' \<Longrightarrow> dep_edges sel = dep_edges sel'"
  by (simp add: dep_edges_def fun_eq_iff)

lemma succ_edges_insert:
  "map_of succs a = Some as \<Longrightarrow>
     succ_edges (btm_insert a (bts_insert b as) succs) = insert (a, b) (succ_edges succs)"
  by (auto simp: succ_edges_def split: if_splits)

lemma succ_edges_subset:
  "succ_wf succs \<Longrightarrow> succ_edges succs \<subseteq> set (map fst succs) \<times> set (map fst succs)"
  using map_of_Some_key by (fastforce simp: succ_edges_def succ_wf_def)

lemma succ_wf_insert:
  assumes "succ_wf succs" "map_of succs a = Some as" "b \<in> set (map fst succs)"
  shows "succ_wf (btm_insert a (bts_insert b as) succs)"
    and "map fst (btm_insert a (bts_insert b as) succs) = map fst succs"
proof -
  from assms(2) have "a \<in> set (map fst succs)" by (rule map_of_Some_key)
  with assms(1) show keys: "map fst (btm_insert a (bts_insert b as) succs) = map fst succs"
    by (intro btm_insert_keys_cong) (simp_all add: succ_wf_def)
  show "succ_wf (btm_insert a (bts_insert b as) succs)"
    unfolding succ_wf_def keys using assms by (auto simp: succ_wf_def split: if_splits)
qed

lemma succ_wfD:
  "succ_wf succs \<Longrightarrow> map_of succs a = Some as \<Longrightarrow> distinct as \<and> set as \<subseteq> set (map fst succs)"
  unfolding succ_wf_def using bts_wf_distinct by blast

lemma succ_wf_btm: "succ_wf succs \<Longrightarrow> btm_wf succs"
  by (simp add: succ_wf_def)

lemma map_of_None_key: "map_of m k = None \<longleftrightarrow> k \<notin> set (map fst m)"
  by (simp add: map_of_eq_None_iff)

lemma add_dependencies_Inr:
  assumes "add_dependencies succs keys schema dir = Inr succs'" and "succ_wf succs"
  shows "succ_wf succs' \<and> map fst succs' = map fst succs \<and>
    succ_edges succs' = succ_edges succs \<union> dep_edges (map fst succs) keys schema dir \<and>
    (\<forall>t. (t, t) \<notin> dep_edges (map fst succs) keys schema dir)"
  using assms
proof (induction succs keys schema dir rule: add_dependencies.induct)
  case (1 succs schema dir)
  then show ?case by simp
next
  case (2 succs key keys schema dir)
  let ?c = "fk_table key" and ?p = "fk_referenced_table key"
  show ?case
  proof (cases "fk_referenced_schema key = schema \<and> map_of succs ?c \<noteq> None \<and> map_of succs ?p \<noteq> None")
    case False
    then have "add_dependencies succs keys schema dir = Inr succs'"
      using "2.prems"(1) by (auto simp: Let_def split: if_splits)
    moreover from False have "dep_edges (map fst succs) (key # keys) schema dir =
        dep_edges (map fst succs) keys schema dir"
      by (auto simp: dep_edges_Cons map_of_None_key)
    ultimately show ?thesis using "2.IH"(1) "2.IH"(2) "2.prems"(2) False
      by (cases "fk_referenced_schema key = schema") auto
  next
    case True
    obtain a b where ab: "(case dir of ParentFirst \<Rightarrow> (?p, ?c) | ChildFirst \<Rightarrow> (?c, ?p)) = (a, b)"
      by (cases dir) auto
    from True obtain as where as: "map_of succs a = Some as" using ab by (cases dir) auto
    from True ab have b: "b \<in> set (map fst succs)" and a: "a \<in> set (map fst succs)"
      using map_of_Some_key by (cases dir; force)+
    from True "2.prems"(1) have neq: "?c \<noteq> ?p" by (auto simp: Let_def split: if_splits)
    with ab have ab_neq: "a \<noteq> b" by (cases dir) auto
    let ?s = "btm_insert a (bts_insert b as) succs"
    from True neq ab as have eq: "add_dependencies ?s keys schema dir = Inr succs'"
      using "2.prems"(1) by (auto simp: Let_def split: if_splits)
    note wf = succ_wf_insert [OF "2.prems"(2) as b]
    have "succ_wf succs' \<and> map fst succs' = map fst ?s \<and>
      succ_edges succs' = succ_edges ?s \<union> dep_edges (map fst ?s) keys schema dir \<and>
      (\<forall>t. (t, t) \<notin> dep_edges (map fst ?s) keys schema dir)"
      using "2.IH"(3) [OF _ refl refl _ neq ab [symmetric] refl as eq wf(1)] True ab by auto
    moreover have "dep_edges (map fst succs) (key # keys) schema dir =
        insert (a, b) (dep_edges (map fst succs) keys schema dir)"
      using True ab a b by (cases dir) (auto simp: dep_edges_Cons)
    ultimately show ?thesis
      using succ_edges_insert [OF as] wf(2) ab_neq by auto
  qed
qed

lemma add_dependencies_Inl:
  assumes "add_dependencies succs keys schema dir = Inl e" and "succ_wf succs"
  shows "\<exists>t. e = Fail (SelfDependency t) \<and> (t, t) \<in> dep_edges (map fst succs) keys schema dir"
  using assms
proof (induction succs keys schema dir rule: add_dependencies.induct)
  case (1 succs schema dir)
  then show ?case by simp
next
  case (2 succs key keys schema dir)
  let ?c = "fk_table key" and ?p = "fk_referenced_table key"
  show ?case
  proof (cases "fk_referenced_schema key = schema \<and> map_of succs ?c \<noteq> None \<and> map_of succs ?p \<noteq> None")
    case False
    then have "add_dependencies succs keys schema dir = Inl e"
      using "2.prems"(1) by (auto simp: Let_def split: if_splits)
    then show ?thesis using "2.IH"(1) "2.IH"(2) "2.prems"(2) False
      by (cases "fk_referenced_schema key = schema") (auto simp: dep_edges_Cons)
  next
    case True
    then have cp: "?c \<in> set (map fst succs)" "?p \<in> set (map fst succs)"
      by (auto dest: map_of_Some_key)
    show ?thesis
    proof (cases "?c = ?p")
      case eq: True
      with True cp "2.prems"(1) show ?thesis
        by (cases dir) (auto simp: dep_edges_Cons)
    next
      case neq: False
      obtain a b where ab: "(case dir of ParentFirst \<Rightarrow> (?p, ?c) | ChildFirst \<Rightarrow> (?c, ?p)) = (a, b)"
        by (cases dir) auto
      from True obtain as where as: "map_of succs a = Some as" using ab by (cases dir) auto
      from ab cp have b: "b \<in> set (map fst succs)" by (cases dir) auto
      let ?s = "btm_insert a (bts_insert b as) succs"
      from True neq ab as have eq: "add_dependencies ?s keys schema dir = Inl e"
        using "2.prems"(1) by (auto simp: Let_def split: if_splits)
      note wf = succ_wf_insert [OF "2.prems"(2) as b]
      have "\<exists>t. e = Fail (SelfDependency t) \<and> (t, t) \<in> dep_edges (map fst ?s) keys schema dir"
        using "2.IH"(3) [OF _ refl refl _ neq ab [symmetric] refl as eq wf(1)] True ab by auto
      then show ?thesis using wf(2) by (auto simp: dep_edges_Cons)
    qed
  qed
qed

section \<open>Dependency counts\<close>

lemma count_edges_spec:
  assumes "set es \<subseteq> set (map fst counts)" "btm_wf counts"
  shows "\<exists>counts'. count_edges es counts = Inr counts' \<and> map fst counts' = map fst counts \<and>
    map_of counts' = (\<lambda>v. map_option (\<lambda>n. n + count_list es v) (map_of counts v))"
  using assms
proof (induction es arbitrary: counts)
  case Nil
  then show ?case by (simp add: option.map_ident)
next
  case (Cons e es)
  then obtain n where n: "map_of counts e = Some n"
    using key_map_of_Some [of e counts] by auto
  have keys: "map fst (btm_insert e (Suc n) counts) = map fst counts"
    using Cons.prems by (intro btm_insert_keys_cong) auto
  have sub: "set es \<subseteq> set (map fst (btm_insert e (Suc n) counts))"
    unfolding keys using Cons.prems(1) by simp
  have wf: "btm_wf (btm_insert e (Suc n) counts)"
    using Cons.prems(2) by simp
  from Cons.IH [OF sub wf] obtain c where
    c: "count_edges es (btm_insert e (Suc n) counts) = Inr c" "map fst c = map fst counts"
    "map_of c = (\<lambda>v. map_option (\<lambda>m. m + count_list es v) (((map_of counts)(e \<mapsto> Suc n)) v))"
    unfolding keys by auto
  have "map_of c = (\<lambda>v. map_option (\<lambda>m. m + count_list (e # es) v) (map_of counts v))"
    using c(3) n by (auto simp: fun_eq_iff)
  with c n show ?case by simp
qed

lemma count_list_distinct: "distinct xs \<Longrightarrow> count_list xs v = (if v \<in> set xs then 1 else 0)"
  by (induction xs) auto

lemma count_list_concat_distinct:
  "distinct xs \<Longrightarrow> (\<And>x. x \<in> set xs \<Longrightarrow> distinct (f x)) \<Longrightarrow>
     count_list (concat (map f xs)) v = card {u \<in> set xs. v \<in> set (f u)}"
proof (induction xs)
  case Nil
  then show ?case by simp
next
  case (Cons x xs)
  then have IH: "count_list (concat (map f xs)) v = card {u \<in> set xs. v \<in> set (f u)}" by simp
  have one: "count_list (f x) v = (if v \<in> set (f x) then 1 else 0)"
    using Cons.prems(2) [of x] by (simp add: count_list_distinct)
  have split: "{u \<in> set (x # xs). v \<in> set (f u)} =
      (if v \<in> set (f x) then insert x {u \<in> set xs. v \<in> set (f u)} else {u \<in> set xs. v \<in> set (f u)})"
    by auto
  show ?case using Cons.prems(1) IH one unfolding split by simp
qed

definition succs_of :: "successor_map \<Rightarrow> string \<Rightarrow> string list" where
  "succs_of succs t = (case map_of succs t of None \<Rightarrow> [] | Some as \<Rightarrow> as)"

lemma succ_edges_iff: "(u, v) \<in> succ_edges succs \<longleftrightarrow> v \<in> set (succs_of succs u)"
  by (cases "map_of succs u") (simp_all add: succ_edges_def succs_of_def)

lemma distinct_succs_of: "succ_wf succs \<Longrightarrow> distinct (succs_of succs t)"
  using succ_wfD [of succs t] by (cases "map_of succs t") (simp_all add: succs_of_def)

lemma map_snd_succs: "btm_wf succs \<Longrightarrow> map snd succs = map (succs_of succs) (map fst succs)"
  by (auto simp: succs_of_def btm_wf_distinct map_of_is_SomeI)

lemma finite_succ_edges: "succ_wf succs \<Longrightarrow> finite (succ_edges succs)"
  by (rule finite_subset [OF succ_edges_subset]) auto

lemma finite_preds: "succ_wf succs \<Longrightarrow> finite {u. (u, v) \<in> succ_edges succs \<and> P u}"
  by (rule finite_subset [of _ "fst ` succ_edges succs"]) (force simp: finite_succ_edges)+

lemma count_dependencies_spec:
  assumes "succ_wf succs"
  shows "\<exists>counts. count_dependencies succs = Inr counts \<and> map fst counts = map fst succs \<and>
    (\<forall>v \<in> set (map fst succs). map_of counts v = Some (open_preds (succ_edges succs) {} v))"
proof -
  let ?zero = "map (\<lambda>(table, _). (table, 0::nat)) succs"
  have keys: "map fst ?zero = map fst succs" by (simp add: comp_def case_prod_unfold)
  have zero: "map_of ?zero v = (if v \<in> set (map fst succs) then Some 0 else None)" for v
    by (induction succs) auto
  have wf: "btm_wf ?zero" using assms unfolding btm_wf_def keys by (simp add: succ_wf_def btm_wf_def)
  have es: "concat (map snd succs) = concat (map (succs_of succs) (map fst succs))"
    using map_snd_succs [OF succ_wf_btm [OF assms]] by (rule arg_cong)
  have sub: "set (concat (map snd succs)) \<subseteq> set (map fst ?zero)"
    unfolding keys es using succ_edges_subset [OF assms] by (auto simp: succ_edges_iff [symmetric])
  have cnt: "count_list (concat (map snd succs)) v = open_preds (succ_edges succs) {} v" for v
  proof -
    have "count_list (concat (map snd succs)) v =
        card {u \<in> set (map fst succs). v \<in> set (succs_of succs u)}"
      unfolding es using assms
      by (intro count_list_concat_distinct) (simp_all add: distinct_succs_of btm_wf_distinct succ_wf_def)
    also have "{u \<in> set (map fst succs). v \<in> set (succs_of succs u)} =
        {u. (u, v) \<in> succ_edges succs \<and> u \<notin> {}}"
      using succ_edges_subset [OF assms] by (auto simp: succ_edges_iff [symmetric])
    finally show ?thesis by (simp add: open_preds_def)
  qed
  from count_edges_spec [OF sub wf] keys zero cnt show ?thesis
    by (auto simp: count_dependencies_def)
qed

section \<open>One batch\<close>

lemma release_successors_spec:
  assumes "btm_wf counts" "bts_wf ready"
    and "\<And>v. v \<in> set as \<Longrightarrow> \<exists>n. map_of counts v = Some n \<and> count_list as v \<le> n"
  shows "\<exists>counts' ready'. release_successors as counts ready = Inr (counts', ready') \<and>
    map fst counts' = map fst counts \<and>
    map_of counts' = (\<lambda>v. map_option (\<lambda>n. n - count_list as v) (map_of counts v)) \<and>
    bts_wf ready' \<and> set ready' = set ready \<union> {v \<in> set as. map_of counts' v = Some 0}"
  using assms
proof (induction as arbitrary: counts ready)
  case Nil
  then show ?case by (simp add: option.map_ident)
next
  case (Cons a as)
  from Cons.prems(3) [of a] obtain m where m: "map_of counts a = Some m" "Suc (count_list as a) \<le> m"
    by auto
  then obtain n where n: "map_of counts a = Some (Suc n)" "count_list as a \<le> n"
    by (cases m) simp_all
  let ?c = "btm_insert a n counts" and ?r = "if n = 0 then bts_insert a ready else ready"
  have keys: "map fst ?c = map fst counts"
    using Cons.prems(1) map_of_Some_key [OF n(1)] by (intro btm_insert_keys_cong) auto
  have "\<exists>m. map_of ?c v = Some m \<and> count_list as v \<le> m" if "v \<in> set as" for v
    using Cons.prems(3) [of v] that n by (cases "v = a") auto
  moreover have "btm_wf ?c" "bts_wf ?r" using Cons.prems by auto
  ultimately obtain c r where cr: "release_successors as ?c ?r = Inr (c, r)" "map fst c = map fst counts"
    "map_of c = (\<lambda>v. map_option (\<lambda>m. m - count_list as v) (map_of ?c v))"
    "bts_wf r" "set r = set ?r \<union> {v \<in> set as. map_of c v = Some 0}"
    using Cons.IH [of ?c ?r] unfolding keys by blast
  have c: "map_of c = (\<lambda>v. map_option (\<lambda>m. m - count_list (a # as) v) (map_of counts v))"
    using cr(3) n by (auto simp: fun_eq_iff)
  have ca: "map_of c a = Some (n - count_list as a)" using n by (simp add: c)
  have "set r = set ready \<union> {v \<in> set (a # as). map_of c v = Some 0}"
  proof (cases "a \<in> set as")
    case True
    then have "count_list as a \<noteq> 0" by (simp add: count_list_0_iff)
    with n have "n \<noteq> 0" by simp
    with True cr(5) show ?thesis by (simp add: insert_absorb)
  next
    case False
    then have "map_of c a = Some n" using ca by (simp add: count_list_0_iff)
    then have "{v \<in> set (a # as). map_of c v = Some 0} =
        (if n = 0 then {a} else {}) \<union> {v \<in> set as. map_of c v = Some 0}"
      by auto
    with cr(5) show ?thesis by simp
  qed
  with cr c n show ?case by simp
qed

lemma release_batch_concat:
  "set batch \<subseteq> set (map fst succs) \<Longrightarrow>
     release_batch succs batch counts ready =
     release_successors (concat (map (succs_of succs) batch)) counts ready"
proof (induction batch arbitrary: counts ready)
  case (Cons t batch)
  then obtain as where as: "map_of succs t = Some as"
    using key_map_of_Some [of t succs] by auto
  have app: "release_successors (xs @ ys) c r =
      bind_res (release_successors xs c r) (\<lambda>(c', r'). release_successors ys c' r')" for xs ys c r
    by (induction xs arbitrary: c r) (auto split: option.splits nat.splits)
  from as have "succs_of succs t = as" by (simp add: succs_of_def)
  with as Cons show ?case by (auto simp: app bind_res_def split: sum.splits)
qed simp

lemma set_fold_bts_remove: "set (fold bts_remove xs ys) = set ys - set xs"
  by (induction xs arbitrary: ys) auto

lemma bts_wf_fold_remove: "bts_wf ys \<Longrightarrow> bts_wf (fold bts_remove xs ys)"
  by (induction xs arbitrary: ys) auto

section \<open>The batch loop\<close>

definition sched_inv ::
  "successor_map \<Rightarrow> nat \<Rightarrow> count_map \<Rightarrow> string list \<Rightarrow> string list list \<Rightarrow> nat \<Rightarrow> bool"
where
  "sched_inv succs par counts ready batches scheduled \<longleftrightarrow>
     map fst counts = map fst succs \<and> bts_wf ready \<and>
     distinct (concat batches) \<and> set (concat batches) \<subseteq> set (map fst succs) \<and>
     set ready \<subseteq> set (map fst succs) - set (concat batches) \<and>
     (\<forall>v \<in> set (map fst succs).
        map_of counts v = Some (open_preds (succ_edges succs) (set (concat batches)) v) \<and>
        (v \<in> set (concat batches) \<union> set ready \<longleftrightarrow>
           open_preds (succ_edges succs) (set (concat batches)) v = 0)) \<and>
     ordered_batches (succ_edges succs) batches \<and>
     (\<forall>b \<in> set batches. b \<noteq> [] \<and> length b \<le> par) \<and>
     scheduled = length (concat batches)"

lemma open_preds_step:
  assumes "succ_wf succs" "distinct batch" "set batch \<inter> D = {}" "set batch \<subseteq> set (map fst succs)"
  shows "open_preds (succ_edges succs) D v =
    open_preds (succ_edges succs) (D \<union> set batch) v + count_list (concat (map (succs_of succs) batch)) v"
proof -
  have "count_list (concat (map (succs_of succs) batch)) v =
      card {u \<in> set batch. v \<in> set (succs_of succs u)}"
    using assms by (intro count_list_concat_distinct) (simp_all add: distinct_succs_of)
  moreover have "{u. (u, v) \<in> succ_edges succs \<and> u \<notin> D} =
      {u. (u, v) \<in> succ_edges succs \<and> u \<notin> D \<union> set batch} \<union> {u \<in> set batch. v \<in> set (succs_of succs u)}"
    using assms(3) by (auto simp: succ_edges_iff)
  moreover have "{u. (u, v) \<in> succ_edges succs \<and> u \<notin> D \<union> set batch} \<inter>
      {u \<in> set batch. v \<in> set (succs_of succs u)} = {}" by auto
  ultimately show ?thesis
    using finite_preds [OF assms(1)] by (simp add: open_preds_def card_Un_disjoint)
qed

lemma open_preds_zero:
  "succ_wf succs \<Longrightarrow> open_preds (succ_edges succs) D v = 0 \<longleftrightarrow> (\<forall>u. (u, v) \<in> succ_edges succs \<longrightarrow> u \<in> D)"
  using finite_preds [of succs v "\<lambda>u. u \<notin> D"] by (auto simp: open_preds_def)

lemma ordered_batches_snoc:
  assumes "ordered_batches E batches"
    and "\<And>a b. b \<in> set batch \<Longrightarrow> (a, b) \<in> E \<Longrightarrow> a \<in> set (concat batches)"
  shows "ordered_batches E (batches @ [batch])"
proof -
  have "\<exists>j < length batches. a \<in> set (batches ! j)" if "b \<in> set batch" "(a, b) \<in> E" for a b
    using assms(2) [OF that] in_set_conv_nth [of _ batches] by fastforce
  then show ?thesis using assms(1) unfolding ordered_batches_def
    by (simp add: nth_append less_Suc_eq) (metis less_trans)
qed

lemma sched_inv_step:
  assumes inv: "sched_inv succs par counts ready batches scheduled" and wf: "succ_wf succs"
    and "ready \<noteq> []" "0 < par"
  defines "batch \<equiv> take par ready"
  shows "\<exists>counts' ready'. release_batch succs batch counts (fold bts_remove batch ready) = Inr (counts', ready')
    \<and> sched_inv succs par counts' ready' (batches @ [batch]) (scheduled + length batch)"
proof -
  let ?E = "succ_edges succs" and ?V = "set (map fst succs)" and ?D = "set (concat batches)"
  let ?as = "concat (map (succs_of succs) batch)" and ?D' = "set (concat batches) \<union> set batch"
  let ?ready1 = "fold bts_remove batch ready"
  note I = inv [unfolded sched_inv_def]
  have batch: "batch \<noteq> []" "length batch \<le> par" "distinct batch" "set batch \<subseteq> set ready"
    using assms(3,4) I by (auto simp: batch_def bts_wf_distinct dest: in_set_takeD)
  have disj: "set batch \<inter> ?D = {}" and sub: "set batch \<subseteq> ?V" using batch(4) I by blast+
  have opn: "open_preds ?E ?D v = open_preds ?E ?D' v + count_list ?as v" for v
    using open_preds_step [OF wf batch(3) disj sub] .
  have as_V: "set ?as \<subseteq> ?V"
    using succ_edges_subset [OF wf] by (auto simp: succ_edges_iff [symmetric])
  have counts: "map_of counts v = Some (open_preds ?E ?D v)" if "v \<in> ?V" for v using I that by blast
  have wfc: "btm_wf counts" using I wf by (simp add: btm_wf_def succ_wf_def)
  have wfr: "bts_wf ?ready1" using I by (simp add: bts_wf_fold_remove)
  have le: "\<exists>n. map_of counts v = Some n \<and> count_list ?as v \<le> n" if "v \<in> set ?as" for v
  proof -
    from as_V that have "v \<in> ?V" by blast
    from counts [OF this] opn [of v] show ?thesis by simp
  qed
  obtain c r where cr: "release_batch succs batch counts ?ready1 = Inr (c, r)" "map fst c = map fst counts"
    "map_of c = (\<lambda>v. map_option (\<lambda>n. n - count_list ?as v) (map_of counts v))" "bts_wf r"
    "set r = set ?ready1 \<union> {v \<in> set ?as. map_of c v = Some 0}"
    using release_successors_spec [OF wfc wfr le] release_batch_concat [OF sub] by auto
  have c: "map_of c v = Some (open_preds ?E ?D' v)" if "v \<in> ?V" for v
    using cr(3) counts [OF that] opn [of v] by simp
  have as_open: "open_preds ?E ?D v \<noteq> 0 \<longleftrightarrow> v \<in> set ?as \<or> open_preds ?E ?D' v \<noteq> 0" for v
    using opn [of v] by (auto simp: count_list_0_iff)
  have r: "set r = (set ready - set batch) \<union> {v \<in> set ?as. open_preds ?E ?D' v = 0}"
  proof -
    have "map_of c v = Some 0 \<longleftrightarrow> open_preds ?E ?D' v = 0" if "v \<in> set ?as" for v
      using c [OF subsetD [OF as_V that]] by simp
    then have "{v \<in> set ?as. map_of c v = Some 0} = {v \<in> set ?as. open_preds ?E ?D' v = 0}"
      by (rule Collect_cong [OF conj_cong [OF refl]])
    then show ?thesis using cr(5) by (simp only: set_fold_bts_remove)
  qed
  have zero: "v \<in> ?D \<union> set ready \<longleftrightarrow> open_preds ?E ?D v = 0" if "v \<in> ?V" for v using I that by blast
  have zero': "v \<in> ?D' \<union> set r \<longleftrightarrow> open_preds ?E ?D' v = 0" if "v \<in> ?V" for v
  proof -
    have "v \<in> ?D' \<union> set r \<longleftrightarrow> v \<in> ?D \<union> set ready \<or> v \<in> set ?as \<and> open_preds ?E ?D' v = 0"
      using batch(4) unfolding r by blast
    with zero [OF that] as_open [of v] show ?thesis by blast
  qed
  have r_sub: "set r \<subseteq> ?V - ?D'"
  proof
    fix v assume "v \<in> set r"
    then consider "v \<in> set ready" "v \<notin> set batch" | "v \<in> set ?as" unfolding r by blast
    then show "v \<in> ?V - ?D'"
    proof cases
      case 1
      with I show ?thesis by blast
    next
      case 2
      with as_V have "v \<in> ?V" by blast
      with 2 zero [of v] as_open [of v] batch(4) show ?thesis by blast
    qed
  qed
  have ord: "ordered_batches ?E (batches @ [batch])"
  proof (rule ordered_batches_snoc)
    show "a \<in> ?D" if "b \<in> set batch" "(a, b) \<in> ?E" for a b
      using zero [of b] that batch(4) sub open_preds_zero [OF wf] by blast
  qed (use I in blast)
  have D': "set (concat (batches @ [batch])) = ?D'" by simp
  have "distinct (concat (batches @ [batch]))" "length (concat (batches @ [batch])) = scheduled + length batch"
    "\<forall>b \<in> set (batches @ [batch]). b \<noteq> [] \<and> length b \<le> par"
    using I batch disj by auto
  moreover have "?D' \<subseteq> ?V" using I sub by blast
  ultimately have "sched_inv succs par c r (batches @ [batch]) (scheduled + length batch)"
    unfolding sched_inv_def D' using cr(2,4) I r_sub ord c zero' by simp
  with cr(1) show ?thesis by blast
qed

lemma schedule_loop_total:
  assumes "sched_inv succs par counts ready batches scheduled" "succ_wf succs" "0 < par"
  shows "\<exists>counts' batches' n. schedule_loop succs par counts ready batches scheduled = Some (Inr (batches', n))
    \<and> sched_inv succs par counts' [] batches' n"
  using assms(1)
proof (induction "card (set (map fst succs) - set (concat batches))"
    arbitrary: counts ready batches scheduled rule: less_induct)
  case less
  show ?case
  proof (cases "ready = []")
    case True
    with less.prems show ?thesis by (subst schedule_loop.simps) auto
  next
    case False
    let ?batch = "take par ready"
    obtain c r where step: "release_batch succs ?batch counts (fold bts_remove ?batch ready) = Inr (c, r)"
      and inv: "sched_inv succs par c r (batches @ [?batch]) (scheduled + length ?batch)"
      using sched_inv_step [OF less.prems assms(2) False assms(3)] by blast
    have "hd ready \<in> set ?batch" "hd ready \<in> set (map fst succs) - set (concat batches)"
      using False assms(3) less.prems by (cases ready; cases par; auto simp: sched_inv_def)+
    then have "card (set (map fst succs) - set (concat (batches @ [?batch]))) <
        card (set (map fst succs) - set (concat batches))"
      by (intro psubset_card_mono) auto
    from less.hyps [OF this inv] step False show ?thesis
      by (subst schedule_loop.simps) (simp add: Let_def)
  qed
qed

lemma sched_inv_init:
  assumes "succ_wf succs" "count_dependencies succs = Inr counts"
  shows "sched_inv succs par counts (map fst (filter (\<lambda>(_, n). n = 0) counts)) [] 0"
proof -
  have keys: "map fst counts = map fst succs"
    and cnt: "\<And>v. v \<in> set (map fst succs) \<Longrightarrow> map_of counts v = Some (open_preds (succ_edges succs) {} v)"
    using count_dependencies_spec [OF assms(1)] assms(2) by auto
  have wfc: "btm_wf counts" using assms(1) keys by (simp add: succ_wf_def btm_wf_def)
  then have "bts_wf (map fst (filter (\<lambda>(_, n). n = 0) counts))"
    unfolding btm_wf_def by (induction counts) auto
  moreover have mem: "v \<in> set (map fst (filter (\<lambda>(_, n). n = 0) counts)) \<longleftrightarrow> map_of counts v = Some 0" for v
    using btm_wf_distinct [OF wfc] by force
  moreover have "v \<in> set (map fst succs)" if "map_of counts v = Some n" for v n
    using map_of_Some_key [OF that] keys by simp
  ultimately show ?thesis
    using cnt keys by (auto simp: sched_inv_def ordered_batches_def mem simp del: set_map)
qed

lemma ordered_batches_acyclic:
  assumes "ordered_batches E batches" "\<And>a b. (a, b) \<in> E \<Longrightarrow> b \<in> set (concat batches)"
  shows "acyclic E"
proof -
  define rank where "rank v = (LEAST i. i < length batches \<and> v \<in> set (batches ! i))" for v
  have "rank a < rank b" if ab: "(a, b) \<in> E" for a b
  proof -
    from assms(2) [OF ab] obtain i where "i < length batches \<and> b \<in> set (batches ! i)"
      using in_set_conv_nth [of _ batches] by fastforce
    then have b: "rank b < length batches \<and> b \<in> set (batches ! rank b)"
      unfolding rank_def by (rule LeastI)
    with assms(1) ab obtain j where j: "j < rank b" "a \<in> set (batches ! j)"
      unfolding ordered_batches_def by blast
    with b have "rank a \<le> j" unfolding rank_def [of a] by (intro Least_le) auto
    with j(1) show ?thesis by simp
  qed
  then have "E \<subseteq> measure rank" by auto
  then show ?thesis using wf_acyclic [OF wf_measure] acyclic_subset by blast
qed

lemma stuck_cyclic:
  assumes "sched_inv succs par counts [] batches n" "succ_wf succs" "n \<noteq> length succs"
  shows "\<not> acyclic (succ_edges succs)"
proof
  let ?V = "set (map fst succs)" and ?D = "set (concat batches)"
  assume "acyclic (succ_edges succs)"
  then have wfE: "wf (succ_edges succs)"
    using finite_succ_edges [OF assms(2)] finite_acyclic_wf by blast
  have "card ?D = n" using assms(1) by (simp add: sched_inv_def distinct_card del: set_concat)
  moreover have "card ?V = length succs"
    using btm_wf_distinct [OF succ_wf_btm [OF assms(2)]] distinct_card by fastforce
  ultimately have "?V - ?D \<noteq> {}" using assms(1,3) by (auto simp: sched_inv_def)
  then obtain v where v: "v \<in> ?V - ?D" "\<And>u. (u, v) \<in> succ_edges succs \<Longrightarrow> u \<notin> ?V - ?D"
    using wfE unfolding wf_eq_minimal by (metis ex_in_conv)
  from v(1) assms(1) have "open_preds (succ_edges succs) ?D v \<noteq> 0"
    unfolding sched_inv_def by auto
  then obtain u where "(u, v) \<in> succ_edges succs" "u \<notin> ?D"
    unfolding open_preds_zero [OF assms(2)] by blast
  with v(2) succ_edges_subset [OF assms(2)] show False by blast
qed

lemma complete_batches:
  assumes "sched_inv succs par counts [] batches n" "succ_wf succs" "n = length succs"
  shows "set (concat batches) = set (map fst succs)"
proof -
  have "card (set (concat batches)) = length succs"
    using assms(1,3) by (simp add: sched_inv_def distinct_card del: set_concat)
  moreover have "card (set (map fst succs)) = length succs"
    using btm_wf_distinct [OF succ_wf_btm [OF assms(2)]] distinct_card by fastforce
  ultimately show ?thesis
    using assms(1) unfolding sched_inv_def by (metis List.finite_set card_subset_eq)
qed

lemma schedule_batches_spec:
  assumes wf: "succ_wf succs" and par: "0 < par"
  shows "\<exists>r. schedule_batches succs par = Some r \<and>
    (acyclic (succ_edges succs) \<longrightarrow> (\<exists>batches. r = Inr batches)) \<and>
    (\<not> acyclic (succ_edges succs) \<longrightarrow> r = Inl (Fail Cycle)) \<and>
    (\<forall>batches. r = Inr batches \<longrightarrow> distinct (concat batches) \<and>
       set (concat batches) = set (map fst succs) \<and> ordered_batches (succ_edges succs) batches \<and>
       (\<forall>b \<in> set batches. b \<noteq> [] \<and> length b \<le> par))"
proof -
  obtain counts where counts: "count_dependencies succs = Inr counts"
    using count_dependencies_spec [OF wf] by blast
  obtain c batches n where loop:
    "schedule_loop succs par counts (map fst (filter (\<lambda>(_, n). n = 0) counts)) [] 0 = Some (Inr (batches, n))"
    and inv: "sched_inv succs par c [] batches n"
    using schedule_loop_total [OF sched_inv_init [OF wf counts] wf par] by blast
  have r: "schedule_batches succs par = Some (if n \<noteq> length succs then Inl (Fail Cycle) else Inr batches)"
    using counts loop by (simp add: schedule_batches_def Let_def)
  show ?thesis
  proof (cases "n = length succs")
    case False
    with r stuck_cyclic [OF inv wf] show ?thesis by auto
  next
    case True
    note V = complete_batches [OF inv wf True]
    have "acyclic (succ_edges succs)"
      using ordered_batches_acyclic [of "succ_edges succs" batches] inv V succ_edges_subset [OF wf]
      unfolding sched_inv_def by blast
    with True V inv r show ?thesis by (auto simp: sched_inv_def)
  qed
qed

section \<open>The plan\<close>

lemma plan_cases:
  assumes "0 < par" "distinct selected"
  obtains (self) t where "(t, t) \<in> dep_edges selected foreign_keys schema dir"
      "plan_dependency_batches selected foreign_keys schema dir par = Some (Inl (Fail (SelfDependency t)))"
    | (scheduled) succs where "succ_wf succs" "set (map fst succs) = set selected"
      "succ_edges succs = dep_edges selected foreign_keys schema dir"
      "\<And>t. (t, t) \<notin> dep_edges selected foreign_keys schema dir"
      "plan_dependency_batches selected foreign_keys schema dir par = schedule_batches succs par"
proof -
  obtain s0 where s0: "insert_selected selected [] = Inr s0" "btm_wf s0"
    "map_of s0 = (\<lambda>t. if t \<in> set selected then Some [] else None)" "set (map fst s0) = set selected"
    using insert_selected_empty [OF assms(2)] .
  then have wf0: "succ_wf s0" and e0: "succ_edges s0 = {}"
    by (auto simp: succ_wf_def succ_edges_def split: if_splits)
  have dep: "dep_edges (map fst s0) = dep_edges selected" by (rule dep_edges_set_cong [OF s0(4)])
  show ?thesis
  proof (cases "add_dependencies s0 foreign_keys schema dir")
    case (Inl e)
    from add_dependencies_Inl [OF Inl wf0] Inl s0(1) assms(1) self show ?thesis
      unfolding dep by (auto simp: plan_dependency_batches_def)
  next
    case (Inr succs)
    from add_dependencies_Inr [OF Inr wf0] Inr s0(1,4) e0 assms(1) scheduled [of succs] show ?thesis
      unfolding dep by (simp add: plan_dependency_batches_def)
  qed
qed

lemma plan_duplicate:
  assumes "0 < par" "\<not> distinct selected"
  shows "\<exists>t. plan_dependency_batches selected foreign_keys schema dir par = Some (Inl (Fail (DuplicateTable t)))"
proof (cases "insert_selected selected []")
  case (Inl e)
  from insert_selected_Inl [OF Inl] Inl assms show ?thesis by (auto simp: plan_dependency_batches_def)
next
  case (Inr succs)
  from insert_selected_Inr [OF Inr] assms show ?thesis by simp
qed

lemma self_edge_cyclic: "(t, t) \<in> E \<Longrightarrow> \<not> acyclic E"
  by (auto simp: acyclic_def)

lemma plan_verdict:
  "\<exists>r. plan_dependency_batches selected foreign_keys schema dir par = Some r \<and>
     (\<forall>m. r \<noteq> Inl (Panic m)) \<and>
     ((\<exists>batches. r = Inr batches) \<longleftrightarrow>
        0 < par \<and> distinct selected \<and> acyclic (dep_edges selected foreign_keys schema dir))"
proof (cases "0 < par \<and> distinct selected")
  case False
  then show ?thesis using plan_duplicate [of par selected foreign_keys schema dir]
    by (cases "par = 0") (auto simp: plan_dependency_batches_def)
next
  case True
  then have par: "0 < par" and dist: "distinct selected" by auto
  from par dist show ?thesis
  proof (cases rule: plan_cases [of par selected foreign_keys schema dir])
    case (self t)
    with self_edge_cyclic [OF self(1)] show ?thesis by auto
  next
    case (scheduled succs)
    from schedule_batches_spec [OF scheduled(1) par] scheduled True show ?thesis
      by (cases "acyclic (succ_edges succs)") auto
  qed
qed


lemma plan_sound:
  assumes "plan_dependency_batches selected foreign_keys schema dir par = Some (Inr batches)"
  shows "distinct (concat batches) \<and> set (concat batches) = set selected \<and>
    ordered_batches (dep_edges selected foreign_keys schema dir) batches \<and>
    (\<forall>b \<in> set batches. b \<noteq> [] \<and> length b \<le> par)"
proof -
  have par: "0 < par" and dist: "distinct selected"
    using plan_verdict [of selected foreign_keys schema dir par] assms by auto
  from par dist show ?thesis
  proof (cases rule: plan_cases [of par selected foreign_keys schema dir])
    case (self t)
    with assms show ?thesis by simp
  next
    case (scheduled succs)
    with schedule_batches_spec [OF scheduled(1) par] assms show ?thesis by auto
  qed
qed

text \<open>C7. A plan schedules every selected table exactly once, in non-empty batches no larger
  than the parallelism, and puts every table a batch depends on in a strictly earlier batch:
  parents before children (\<open>ParentFirst\<close>) or children before parents (\<open>ChildFirst\<close>).\<close>

theorem plan_dependency_batches_sound:
  assumes "plan_dependency_batches selected foreign_keys schema dir par = Some (Inr batches)"
  shows "distinct (concat batches) \<and> set (concat batches) = set selected \<and>
    ordered_batches (dep_edges selected foreign_keys schema dir) batches \<and>
    (\<forall>b \<in> set batches. b \<noteq> [] \<and> length b \<le> par)"
  by (rule plan_sound [OF assms])

definition example_fk :: "string \<Rightarrow> string \<Rightarrow> foreign_key_inventory" where
  "example_fk child parent =
     \<lparr>fk_table = child, fk_name = child @ ''_'' @ parent @ ''_fk'', fk_columns = [''parent_id''],
      fk_referenced_schema = ''catalog'', fk_referenced_table = parent,
      fk_referenced_columns = [''id'']\<rparr>"

theorem plan_dependency_batches_sound_witness:
  "plan_dependency_batches [''c'', ''b'', ''a''] [example_fk ''b'' ''a'', example_fk ''c'' ''b'']
     ''catalog'' ParentFirst 8 = Some (Inr [[''a''], [''b''], [''c'']]) \<and>
   ordered_batches (dep_edges [''c'', ''b'', ''a''] [example_fk ''b'' ''a'', example_fk ''c'' ''b'']
     ''catalog'' ParentFirst) [[''a''], [''b''], [''c'']]"
proof -
  have run: "plan_dependency_batches [''c'', ''b'', ''a''] [example_fk ''b'' ''a'', example_fk ''c'' ''b'']
     ''catalog'' ParentFirst 8 = Some (Inr [[''a''], [''b''], [''c'']])"
    by code_simp
  show ?thesis using run plan_dependency_batches_sound [OF run] by simp
qed

lemma dep_edges_converse:
  "dep_edges selected foreign_keys schema ChildFirst =
     (dep_edges selected foreign_keys schema ParentFirst)\<inverse>"
  by (auto simp: dep_edges_def)

text \<open>The insert order and the delete order of a sync run stand or fall together: the
  planner accepts a selection parent-first exactly when it accepts it child-first.\<close>

theorem plan_directions_agree:
  "(\<exists>batches. plan_dependency_batches selected foreign_keys schema ParentFirst par = Some (Inr batches)) \<longleftrightarrow>
   (\<exists>batches. plan_dependency_batches selected foreign_keys schema ChildFirst par = Some (Inr batches))"
  using plan_verdict [of selected foreign_keys schema ParentFirst par]
    plan_verdict [of selected foreign_keys schema ChildFirst par]
  by (auto simp: dep_edges_converse acyclic_converse)

end
