(* ===== verification/Component_Locks.thy ===== *)
theory Component_Locks
  imports Inventory_Model
begin

text \<open>
  Lock planning along foreign keys (\<open>src/src/sync/component_locks.rs\<close>): the part of the
  undirected foreign-key graph reachable from a table through selected tables, and the
  \<open>LOCK TABLES\<close> statement over it. The work list of \<open>selected_fk_component\<close> is a stack; its top
  is the head of the list here (the source pops the end of a vector).
\<close>

section \<open>The component search\<close>

datatype component_error =
    TableNotSelected string
  | EmptyComponent
  | DuplicateLockTable string

type_synonym neighbor_map = "(string \<times> string list) list"

definition add_neighbor :: "string \<Rightarrow> string \<Rightarrow> neighbor_map \<Rightarrow> neighbor_map" where
  "add_neighbor a b m = btm_insert a (bts_insert b (case map_of m a of None \<Rightarrow> [] | Some bs \<Rightarrow> bs)) m"

fun fk_neighbors :: "string \<Rightarrow> foreign_key_inventory list \<Rightarrow> neighbor_map \<Rightarrow> neighbor_map" where
  "fk_neighbors schema [] neighbors = neighbors"
| "fk_neighbors schema (key # keys) neighbors =
     (if fk_referenced_schema key \<noteq> schema then fk_neighbors schema keys neighbors
      else fk_neighbors schema keys
        (add_neighbor (fk_referenced_table key) (fk_table key)
          (add_neighbor (fk_table key) (fk_referenced_table key) neighbors)))"

definition build_fk_neighbors :: "schema_inventory \<Rightarrow> neighbor_map" where
  "build_fk_neighbors inventory = fk_neighbors (si_schema inventory) (si_foreign_keys inventory) []"

function component_loop ::
  "string list \<Rightarrow> neighbor_map \<Rightarrow> string list \<Rightarrow> string list \<Rightarrow> string list"
where
  "component_loop selected neighbors [] visited = visited"
| "component_loop selected neighbors (current # pending) visited =
     (if current \<notin> set selected then component_loop selected neighbors pending visited
      else if current \<in> set visited then component_loop selected neighbors pending visited
      else component_loop selected neighbors
        ((case map_of neighbors current of None \<Rightarrow> [] | Some adjacent \<Rightarrow> rev adjacent) @ pending)
        (bts_insert current visited))"
  by pat_completeness auto
termination
  by (relation "inv_image (finite_psubset <*lex*> less_than)
        (\<lambda>(selected, neighbors, pending, visited). (set selected - set visited, length pending))")
     auto

definition selected_fk_component ::
  "schema_inventory \<Rightarrow> string list \<Rightarrow> string \<Rightarrow> component_error + string list"
where
  "selected_fk_component inventory selected table =
     (let selected = bts_collect selected in
      if table \<notin> set selected then Inl (TableNotSelected table)
      else Inr (component_loop selected (build_fk_neighbors inventory) [table] []))"

fun check_duplicate_locks :: "string list \<Rightarrow> string list \<Rightarrow> component_error + unit" where
  "check_duplicate_locks [] seen = Inr ()"
| "check_duplicate_locks (table # tables) seen =
     (if table \<in> set seen then Inl (DuplicateLockTable table)
      else check_duplicate_locks tables (bts_insert table seen))"

definition build_component_lock_sql ::
  "string \<Rightarrow> string list \<Rightarrow> (string \<Rightarrow> string) \<Rightarrow> component_error + string"
where
  "build_component_lock_sql database component quote_ident =
     (if component = [] then Inl EmptyComponent
      else bind_res (check_duplicate_locks component [])
        (\<lambda>_. let locks = map (\<lambda>table. quote_ident database @ ''.'' @ quote_ident table @ '' WRITE'') component
             in Inr (''LOCK TABLES '' @ join_str '', '' locks)))"

section \<open>Specification: connectivity through selected tables\<close>

definition fk_adjacent :: "schema_inventory \<Rightarrow> string \<Rightarrow> string \<Rightarrow> bool" where
  "fk_adjacent inventory a b =
     (\<exists>key \<in> set (si_foreign_keys inventory).
        fk_referenced_schema key = si_schema inventory \<and>
        (a = fk_table key \<and> b = fk_referenced_table key \<or> a = fk_referenced_table key \<and> b = fk_table key))"

definition selected_link :: "schema_inventory \<Rightarrow> string list \<Rightarrow> (string \<times> string) set" where
  "selected_link inventory selected =
     {(a, b). a \<in> set selected \<and> b \<in> set selected \<and> fk_adjacent inventory a b}"

definition neighbors_of :: "neighbor_map \<Rightarrow> string \<Rightarrow> string set" where
  "neighbors_of neighbors a = (case map_of neighbors a of None \<Rightarrow> {} | Some bs \<Rightarrow> set bs)"

section \<open>Correctness of the search\<close>

lemma neighbors_of_add:
  "neighbors_of (add_neighbor a b m) c = (if c = a then insert b (neighbors_of m a) else neighbors_of m c)"
  by (auto simp: neighbors_of_def add_neighbor_def split: option.splits)

lemma neighbors_of_fk_neighbors:
  "b \<in> neighbors_of (fk_neighbors schema keys m) a \<longleftrightarrow>
     b \<in> neighbors_of m a \<or>
     (\<exists>key \<in> set keys. fk_referenced_schema key = schema \<and>
        (a = fk_table key \<and> b = fk_referenced_table key \<or> a = fk_referenced_table key \<and> b = fk_table key))"
  by (induction schema keys m rule: fk_neighbors.induct) (auto simp: neighbors_of_add)

lemma neighbors_of_build:
  "b \<in> neighbors_of (build_fk_neighbors inventory) a \<longleftrightarrow> fk_adjacent inventory a b"
  by (simp add: build_fk_neighbors_def neighbors_of_fk_neighbors fk_adjacent_def)
     (simp add: neighbors_of_def)

lemma set_case_rev: "set (case x of None \<Rightarrow> [] | Some bs \<Rightarrow> rev bs) = (case x of None \<Rightarrow> {} | Some bs \<Rightarrow> set bs)"
  by (cases x) auto

lemma component_loop_wf: "bts_wf visited \<Longrightarrow> bts_wf (component_loop selected neighbors pending visited)"
  by (induction selected neighbors pending visited rule: component_loop.induct) auto

lemma component_loop_sound:
  assumes "set visited \<subseteq> R" "set pending \<inter> set selected \<subseteq> R"
    and "\<And>a b. a \<in> R \<Longrightarrow> b \<in> neighbors_of neighbors a \<Longrightarrow> b \<in> set selected \<Longrightarrow> b \<in> R"
  shows "set (component_loop selected neighbors pending visited) \<subseteq> R"
  using assms
proof (induction selected neighbors pending visited rule: component_loop.induct)
  case (1 selected neighbors visited)
  then show ?case by simp
next
  case (2 selected neighbors current pending visited)
  show ?case
  proof (cases "current \<in> set selected \<and> current \<notin> set visited")
    case True
    let ?p = "(case map_of neighbors current of None \<Rightarrow> [] | Some adjacent \<Rightarrow> rev adjacent) @ pending"
    from True "2.prems"(2) have "current \<in> R" by auto
    then have "set ?p \<inter> set selected \<subseteq> R" "set (bts_insert current visited) \<subseteq> R"
      using "2.prems" by (auto simp: set_case_rev neighbors_of_def)
    with True "2.IH"(3) "2.prems"(3) show ?thesis by simp
  next
    case False
    with 2 show ?thesis by auto
  qed
qed

lemma component_loop_complete:
  assumes "\<And>a b. a \<in> set visited \<Longrightarrow> b \<in> neighbors_of neighbors a \<Longrightarrow> b \<in> set selected \<Longrightarrow>
             b \<in> set visited \<union> set pending"
  defines "res \<equiv> component_loop selected neighbors pending visited"
  shows "set visited \<union> (set pending \<inter> set selected) \<subseteq> set res \<and>
    (\<forall>a \<in> set res. \<forall>b \<in> neighbors_of neighbors a. b \<in> set selected \<longrightarrow> b \<in> set res)"
  using assms(1) unfolding res_def
proof (induction selected neighbors pending visited rule: component_loop.induct)
  case (1 selected neighbors visited)
  then show ?case by auto
next
  case (2 selected neighbors current pending visited)
  show ?case
  proof (cases "current \<in> set selected \<and> current \<notin> set visited")
    case True
    let ?p = "(case map_of neighbors current of None \<Rightarrow> [] | Some adjacent \<Rightarrow> rev adjacent) @ pending"
    let ?v = "bts_insert current visited"
    have "b \<in> set ?v \<union> set ?p" if "a \<in> set ?v" "b \<in> neighbors_of neighbors a" "b \<in> set selected" for a b
      using "2.prems" [of a b] that by (auto simp: set_case_rev neighbors_of_def split: option.splits)
    with True "2.IH"(3) show ?thesis by auto
  next
    case False
    with "2.IH"(1,2) "2.prems" show ?thesis by fastforce
  qed
qed

lemma selected_link_sym: "sym (selected_link inventory selected)"
  by (auto simp: selected_link_def fk_adjacent_def sym_def)

lemma component_exact:
  assumes "selected_fk_component inventory selected table = Inr component"
  shows "table \<in> set selected \<and> bts_wf component \<and>
    set component = {t. (table, t) \<in> (selected_link inventory selected)\<^sup>*}"
proof -
  let ?nb = "build_fk_neighbors inventory" and ?sel = "bts_collect selected"
  let ?R = "{t. (table, t) \<in> (selected_link inventory selected)\<^sup>*}"
  have table: "table \<in> set selected" and eq: "component = component_loop ?sel ?nb [table] []"
    using assms by (auto simp: selected_fk_component_def Let_def split: if_splits)
  have in_sel: "t \<in> set selected" if "(table, t) \<in> (selected_link inventory selected)\<^sup>*" for t
    using that table by (induction rule: rtrancl_induct) (auto simp: selected_link_def)
  have sub: "set component \<subseteq> ?R"
    unfolding eq
  proof (rule component_loop_sound)
    show "b \<in> ?R" if "a \<in> ?R" "b \<in> neighbors_of ?nb a" "b \<in> set ?sel" for a b
      using that in_sel [of a] rtrancl_into_rtrancl [of table a]
      by (auto simp: neighbors_of_build selected_link_def)
  qed auto
  note closed = component_loop_complete [of "[]" ?nb ?sel "[table]", folded eq]
  have "t \<in> set component" if "(table, t) \<in> (selected_link inventory selected)\<^sup>*" for t
    using that
  proof (induction rule: rtrancl_induct)
    case base
    with closed table show ?case by auto
  next
    case (step a b)
    with closed show ?case by (auto simp: selected_link_def neighbors_of_build)
  qed
  with sub table component_loop_wf [of "[]" ?sel ?nb "[table]"] show ?thesis by (auto simp: eq)
qed

text \<open>C9. The tables locked together with a table are exactly the selected tables connected to
  it by foreign keys of the schema (in either direction) through selected tables, listed once
  each in name order; the search ends on every graph, cycles and self references included.\<close>

theorem selected_fk_component_exact:
  assumes "selected_fk_component inventory selected table = Inr component"
  shows "sorted component \<and> distinct component \<and>
    set component = {t. (table, t) \<in> (selected_link inventory selected)\<^sup>*}"
  using component_exact [OF assms] by (simp add: strict_sorted_iff)

definition example_inventory :: "(string \<times> string) list \<Rightarrow> schema_inventory" where
  "example_inventory edges =
     \<lparr>si_schema = ''catalog'', si_tables = [], si_indexes = [],
      si_foreign_keys = map (\<lambda>(child, parent).
        \<lparr>fk_table = child, fk_name = child, fk_columns = [''parent_id''],
         fk_referenced_schema = ''catalog'', fk_referenced_table = parent,
         fk_referenced_columns = [''id'']\<rparr>) edges,
      si_views = [], si_triggers = [], si_routines = [], si_events = []\<rparr>"

theorem selected_fk_component_exact_witness:
  "selected_fk_component (example_inventory [(''a'', ''b''), (''b'', ''a''), (''b'', ''x''), (''c'', ''b'')])
     [''c'', ''b'', ''a''] ''a'' = Inr [''a'', ''b'', ''c''] \<and>
   set [''a'', ''b'', ''c''] =
     {t. (''a'', t) \<in> (selected_link
        (example_inventory [(''a'', ''b''), (''b'', ''a''), (''b'', ''x''), (''c'', ''b'')])
        [''c'', ''b'', ''a''])\<^sup>*}"
proof -
  have run: "selected_fk_component (example_inventory [(''a'', ''b''), (''b'', ''a''), (''b'', ''x''), (''c'', ''b'')])
     [''c'', ''b'', ''a''] ''a'' = Inr [''a'', ''b'', ''c'']"
    by code_simp
  show ?thesis using run selected_fk_component_exact [OF run] by blast
qed



lemma check_duplicate_locks_Inr:
  "check_duplicate_locks tables seen = Inr () \<longleftrightarrow> distinct tables \<and> set tables \<inter> set seen = {}"
  by (induction tables seen rule: check_duplicate_locks.induct) auto

lemma build_component_lock_sql_Inr:
  "build_component_lock_sql database component q = Inr sql \<longleftrightarrow>
     component \<noteq> [] \<and> distinct component \<and>
     sql = ''LOCK TABLES '' @ join_str '', '' (map (\<lambda>t. q database @ ''.'' @ q t @ '' WRITE'') component)"
  by (auto simp: build_component_lock_sql_def check_duplicate_locks_Inr Let_def)

text \<open>A planned component always yields one lock statement (it is never empty and has no
  duplicate), and that statement lists each of its tables with a \<open>WRITE\<close> lock.\<close>

theorem component_lock_sql_total:
  assumes "selected_fk_component inventory selected table = Inr component"
  shows "build_component_lock_sql database component q =
    Inr (''LOCK TABLES '' @ join_str '', '' (map (\<lambda>t. q database @ ''.'' @ q t @ '' WRITE'') component))"
proof -
  have "table \<in> set component" "distinct component"
    using component_exact [OF assms] by (auto simp: bts_wf_distinct)
  then show ?thesis by (auto simp: build_component_lock_sql_Inr)
qed

end
