(* ===== verification/Sync_Model.thy ===== *)
theory Sync_Model
  imports Cdc_Prelude
begin

text \<open>
  The data of table synchronisation (\<open>src/src/sync/model.rs\<close>, \<open>src/src/database_row.rs\<close>,
  \<open>src/src/primary_key_ordering.rs\<close>): rows, tables, requests, progress and the traits a chunk
  run is written against. The three traits \<open>SyncChunkSource\<close>, \<open>SyncChunkTargetSession\<close> and
  \<open>SyncChunkProgressStore\<close> are one record of operations over the state behind them.
\<close>

section \<open>Rows and tables\<close>

type_synonym row_key = "string list"
type_synonym row_values = "(string \<times> string option) list"

record database_row =
  dr_primary_key :: row_key
  dr_values :: row_values

datatype primary_key_ordering = Native | EnumOrder "string list"

record sync_table =
  st_name :: string
  st_primary_key :: "string list"
  st_primary_key_ordering :: "primary_key_ordering list"
  st_columns :: "string list"
  st_bit_columns :: "string list"
  st_enum_columns :: "(string \<times> string list) list"
  st_mediumblob_columns :: "string list"

datatype sync_mutation_phase = AllPhases | InsertMissing | UpdateDivergent | DeleteExtras

definition phase_includes :: "sync_mutation_phase \<Rightarrow> sync_mutation_phase \<Rightarrow> bool" where
  "phase_includes phase operation = (phase = AllPhases \<or> phase = operation)"

record sync_chunk_config =
  cc_run_id :: string
  cc_target_database :: string
  cc_table :: sync_table
  cc_chunk_size :: nat

record sync_chunk_read_request =
  rq_start_after :: "row_key option"
  rq_end_at :: "row_key option"
  rq_limit :: nat

record sync_chunk_page =
  pg_rows :: "database_row list"
  pg_has_more :: bool

section \<open>Mutation failures and unique owners\<close>

record sync_mutation_failure =
  mf_mysql_code :: "u16 option"
  mf_message :: string
  mf_failed_batch :: "database_row list"
  mf_remaining_rows :: "database_row list"

definition retry_rows :: "sync_mutation_failure \<Rightarrow> database_row list" where
  "retry_rows failure = mf_failed_batch failure @ mf_remaining_rows failure"

record sync_unique_index =
  ux_name :: string
  ux_columns :: "string list"

datatype unique_value_error =
    UniqueColumnAbsent string string
  | UniqueColumnNull string string

definition unique_index_values ::
  "sync_unique_index \<Rightarrow> database_row \<Rightarrow> string \<Rightarrow> unique_value_error + string list"
where
  "unique_index_values index row label =
     collect_res (\<lambda>column.
       case map_of (dr_values row) column of
         None \<Rightarrow> Inl (UniqueColumnAbsent label column)
       | Some None \<Rightarrow> Inl (UniqueColumnNull label column)
       | Some (Some v) \<Rightarrow> Inr v) (ux_columns index)"

record sync_unique_owner_conflict =
  uc_index :: sync_unique_index
  uc_intended :: database_row
  uc_owner :: database_row

datatype sync_unique_owner_action = UpdateOwner database_row | DeleteOwner

definition owner_action_as_str :: "sync_unique_owner_action \<Rightarrow> string" where
  "owner_action_as_str action = (case action of UpdateOwner _ \<Rightarrow> ''update'' | DeleteOwner \<Rightarrow> ''delete'')"

section \<open>Progress\<close>

record sync_chunk_progress =
  cp_run_id :: string
  cp_table :: string
  cp_last_primary_key :: "row_key option"
  cp_complete :: bool
  cp_chunks :: u64
  cp_rows_scanned :: u64
  cp_inserts :: u64
  cp_updates :: u64
  cp_deletes :: u64

datatype sync_stage = PrerequisiteSchema | RowsStage | FinalConstraints

datatype sync_parse_error = InvalidStage string | InvalidStatus string

definition stage_as_str :: "sync_stage \<Rightarrow> string" where
  "stage_as_str stage = (case stage of
      PrerequisiteSchema \<Rightarrow> ''prerequisite_schema''
    | RowsStage \<Rightarrow> ''rows''
    | FinalConstraints \<Rightarrow> ''final_constraints'')"

definition parse_stage :: "string \<Rightarrow> sync_parse_error + sync_stage" where
  "parse_stage value =
     (if value = ''prerequisite_schema'' then Inr PrerequisiteSchema
      else if value = ''rows'' then Inr RowsStage
      else if value = ''final_constraints'' then Inr FinalConstraints
      else Inl (InvalidStage value))"

datatype sync_progress_status = Running | Complete | ErrorStatus

definition status_as_str :: "sync_progress_status \<Rightarrow> string" where
  "status_as_str status = (case status of
      Running \<Rightarrow> ''running'' | Complete \<Rightarrow> ''complete'' | ErrorStatus \<Rightarrow> ''error'')"

definition parse_status :: "string \<Rightarrow> sync_parse_error + sync_progress_status" where
  "parse_status value =
     (if value = ''running'' then Inr Running
      else if value = ''complete'' then Inr Complete
      else if value = ''error'' then Inr ErrorStatus
      else Inl (InvalidStatus value))"

record sync_progress_row =
  pr_run_id :: string
  pr_stage :: sync_stage
  pr_table_name :: string
  pr_last_primary_key :: "row_key option"
  pr_chunks :: u64
  pr_rows_scanned :: u64
  pr_inserts :: u64
  pr_updates :: u64
  pr_deletes :: u64
  pr_status :: sync_progress_status
  pr_last_error :: "string option"
  pr_created_at :: string
  pr_updated_at :: string
  pr_completed_at :: "string option"

section \<open>The traits of a chunk run\<close>

record 'w sync_env =
  source_read_rows :: "sync_chunk_read_request \<Rightarrow> ('w, string, sync_chunk_page) op"
  source_read_row_by_primary_key :: "row_key \<Rightarrow> ('w, string, database_row option) op"
  set_autocommit :: "bool \<Rightarrow> ('w, string, unit) op"
  lock_table_write :: "string \<Rightarrow> string \<Rightarrow> ('w, string, unit) op"
  target_read_rows :: "sync_chunk_read_request \<Rightarrow> ('w, string, sync_chunk_page) op"
  delete_rows :: "row_key list \<Rightarrow> ('w, string, unit) op"
  update_rows :: "database_row list \<Rightarrow> ('w, sync_mutation_failure, unit) op"
  insert_rows :: "database_row list \<Rightarrow> ('w, sync_mutation_failure, unit) op"
  inspect_unique_owner_conflicts ::
    "sync_mutation_failure \<Rightarrow> ('w, string, sync_unique_owner_conflict list) op"
  reconcile_unique_owner ::
    "sync_unique_owner_conflict \<Rightarrow> sync_unique_owner_action \<Rightarrow> ('w, string, unit) op"
  verify_rows :: "database_row list \<Rightarrow> ('w, string, unit) op"
  commit :: "('w, string, unit) op"
  rollback :: "('w, string, unit) op"
  unlock_tables :: "('w, string, unit) op"
  progress_load :: "string \<Rightarrow> string \<Rightarrow> ('w, string, sync_chunk_progress option) op"
  progress_save :: "sync_chunk_progress \<Rightarrow> ('w, string, unit) op"

section \<open>Lemmas\<close>

lemma parse_stage_as_str [simp]: "parse_stage (stage_as_str stage) = Inr stage"
  by (cases stage) (simp_all add: parse_stage_def stage_as_str_def)

lemma parse_status_as_str [simp]: "parse_status (status_as_str status) = Inr status"
  by (cases status) (simp_all add: parse_status_def status_as_str_def)

lemma parse_stage_Inr: "parse_stage value = Inr stage \<Longrightarrow> value = stage_as_str stage"
  by (auto simp: parse_stage_def stage_as_str_def split: if_splits)

lemma parse_status_Inr: "parse_status value = Inr status \<Longrightarrow> value = status_as_str status"
  by (auto simp: parse_status_def status_as_str_def split: if_splits)

lemma phase_includes_refl [simp]: "phase_includes phase phase" "phase_includes AllPhases operation"
  by (simp_all add: phase_includes_def)

end
