(* ===== verification/Sync_Chunk.thy ===== *)
theory Sync_Chunk
  imports Sync_Model
begin

text \<open>
  One bounded chunk of a table synchronisation (\<open>src/src/sync/chunk.rs\<close>): lock the target, read
  a source window, reconcile the target pages of that window, apply the changes with unique-owner
  repair, commit, save the progress, unlock. The definitions are written against the trait record
  \<open>sync_env\<close>; the locale \<open>sync_backend\<close> states what the source, the target session and the
  progress store promise, and the lemmas in it hold for every backend that keeps the promise.

  Two loops of the source have no static bound (the page loop and the retry loop); they carry a
  fuel argument, and running out of it is the error \<open>LoopFuelExhausted\<close>, which no branch of the
  source produces.
\<close>

section \<open>Errors\<close>

datatype sync_chunk_error =
    DisableAutocommit string string string
  | LockTargetTable string string string
  | SaveProgress string string string
  | UnlockAfterProgress string string string
  | LoadProgress string string string
  | ProgressRunIdMismatch string string string
  | ProgressTableMismatch string string string
  | ReadSourceChunk string string
  | CommitTargetChunk string string
  | ReadTargetChunk string string
  | DeleteTargetOnly string string
  | ReadTargetTail string string
  | InsertMissingRows string sync_mutation_failure
  | UpdateDivergentRows string sync_mutation_failure
  | InspectConflict string string
  | ReadSourceOwner string string string
  | ReconcileOwner string string string
  | VerifyReconciled string string
  | RepeatedConflict string string row_key
  | OwnerHasIntendedKey string string
  | OwnerValue unique_value_error
  | AmbiguousOwnerIdentity string string
  | SourceOwnerKeyDisagrees string string
  | SourceOwnerIncomplete string string
  | SourceOwnerLegitimate string string
  | WithCleanup sync_chunk_error "string option" "string option"
  | LoopFuelExhausted

type_synonym ('w, 'a) chunk_op = "('w, sync_chunk_error, 'a) op"

section \<open>Progress and locking\<close>

definition validate_progress_identity ::
  "sync_chunk_config \<Rightarrow> sync_chunk_progress \<Rightarrow> sync_chunk_error + unit"
where
  "validate_progress_identity config progress =
     (if cp_run_id progress \<noteq> cc_run_id config then
        Inl (ProgressRunIdMismatch (st_name (cc_table config)) (cc_run_id config) (cp_run_id progress))
      else if cp_table progress \<noteq> st_name (cc_table config) then
        Inl (ProgressTableMismatch (cc_run_id config) (st_name (cc_table config)) (cp_table progress))
      else Inr ())"

definition initial_progress :: "sync_chunk_config \<Rightarrow> sync_chunk_progress" where
  "initial_progress config =
     \<lparr>cp_run_id = cc_run_id config, cp_table = st_name (cc_table config),
      cp_last_primary_key = None, cp_complete = False, cp_chunks = 0, cp_rows_scanned = 0,
      cp_inserts = 0, cp_updates = 0, cp_deletes = 0\<rparr>"

definition load_progress :: "sync_chunk_config \<Rightarrow> 'w sync_env \<Rightarrow> ('w, sync_chunk_progress) chunk_op" where
  "load_progress config env =
     bind_op (map_err_op (LoadProgress (cc_run_id config) (st_name (cc_table config)))
               (progress_load env (cc_run_id config) (st_name (cc_table config))))
       (\<lambda>loaded. case loaded of
          Some progress \<Rightarrow>
            bind_op (lift_op (validate_progress_identity config progress)) (\<lambda>_. ret_op progress)
        | None \<Rightarrow> ret_op (initial_progress config))"

definition prepare_target_chunk :: "sync_chunk_config \<Rightarrow> 'w sync_env \<Rightarrow> ('w, unit) chunk_op" where
  "prepare_target_chunk config env =
     bind_op (map_err_op (DisableAutocommit (cc_target_database config) (st_name (cc_table config)))
               (set_autocommit env False))
       (\<lambda>_. map_err_op (LockTargetTable (cc_target_database config) (st_name (cc_table config)))
               (lock_table_write env (cc_target_database config) (st_name (cc_table config))))"

definition unlock_after_error :: "'w sync_env \<Rightarrow> sync_chunk_error \<Rightarrow> 'w \<Rightarrow> sync_chunk_error \<times> 'w" where
  "unlock_after_error env primary_error w =
     (case unlock_tables env w of
        (Inr _, w') \<Rightarrow> (primary_error, w')
      | (Inl error, w') \<Rightarrow> (WithCleanup primary_error None (Some error), w'))"

definition rollback_and_unlock :: "'w sync_env \<Rightarrow> sync_chunk_error \<Rightarrow> 'w \<Rightarrow> sync_chunk_error \<times> 'w" where
  "rollback_and_unlock env primary_error w =
     (case rollback env w of (rolled, w1) \<Rightarrow>
      case unlock_tables env w1 of (unlocked, w2) \<Rightarrow>
        let rollback_error = (case rolled of Inl e \<Rightarrow> Some e | Inr _ \<Rightarrow> None);
            unlock_error = (case unlocked of Inl e \<Rightarrow> Some e | Inr _ \<Rightarrow> None) in
        (if rollback_error = None \<and> unlock_error = None then primary_error
         else WithCleanup primary_error rollback_error unlock_error, w2))"

definition save_progress_and_unlock ::
  "sync_chunk_config \<Rightarrow> sync_chunk_progress \<Rightarrow> 'w sync_env \<Rightarrow> ('w, sync_chunk_progress) chunk_op"
where
  "save_progress_and_unlock config progress env w =
     (case progress_save env progress w of
        (Inl error, w1) \<Rightarrow>
          (case unlock_after_error env
                  (SaveProgress (cc_run_id config) (st_name (cc_table config)) error) w1 of
             (e, w2) \<Rightarrow> (Inl e, w2))
      | (Inr _, w1) \<Rightarrow>
          bind_op (map_err_op (UnlockAfterProgress (cc_target_database config) (st_name (cc_table config)))
                    (unlock_tables env))
            (\<lambda>_. ret_op progress) w1)"

section \<open>Reconciling target pages\<close>

record chunk_changes =
  ch_deletes :: nat
  ch_updates :: "database_row list"
  ch_inserts :: "database_row list"

type_synonym row_index = "(row_key \<times> database_row) list"

definition index_rows :: "database_row list \<Rightarrow> row_index" where
  "index_rows rows = btm_collect (map (\<lambda>row. (dr_primary_key row, row)) rows)"

definition rows_diverge :: "sync_table \<Rightarrow> row_values \<Rightarrow> row_values \<Rightarrow> bool" where
  "rows_diverge table source target =
     (\<exists>column \<in> set (filter (\<lambda>c. c \<notin> set (st_primary_key table)) (st_columns table)).
        map_of source column \<noteq> map_of target column)"

fun reconcile_target_page ::
  "sync_table \<Rightarrow> row_index \<Rightarrow> database_row list \<Rightarrow> row_key list \<times> database_row list \<times> row_index"
where
  "reconcile_target_page table source_by_key [] = ([], [], source_by_key)"
| "reconcile_target_page table source_by_key (target_row # target_rows) =
     (case map_of source_by_key (dr_primary_key target_row) of
        None \<Rightarrow>
          (case reconcile_target_page table source_by_key target_rows of (deletes, updates, rest) \<Rightarrow>
             (dr_primary_key target_row # deletes, updates, rest))
      | Some source_row \<Rightarrow>
          (case reconcile_target_page table (btm_remove (dr_primary_key target_row) source_by_key)
                  target_rows of (deletes, updates, rest) \<Rightarrow>
             (deletes,
              (if rows_diverge table (dr_values source_row) (dr_values target_row)
               then source_row # updates else updates), rest)))"

definition delete_target_only_rows :: "string \<Rightarrow> 'w sync_env \<Rightarrow> row_key list \<Rightarrow> ('w, unit) chunk_op" where
  "delete_target_only_rows table env primary_keys =
     (if primary_keys = [] then ret_op ()
      else map_err_op (DeleteTargetOnly table) (delete_rows env primary_keys))"

fun reconcile_pages_loop ::
  "nat \<Rightarrow> sync_chunk_config \<Rightarrow> 'w sync_env \<Rightarrow> sync_mutation_phase \<Rightarrow> row_key \<Rightarrow> row_key option \<Rightarrow> row_index
     \<Rightarrow> chunk_changes \<Rightarrow> ('w, chunk_changes) chunk_op"
where
  "reconcile_pages_loop 0 config env phase end_at start_after source_by_key changes =
     fail_op LoopFuelExhausted"
| "reconcile_pages_loop (Suc fuel) config env phase end_at start_after source_by_key changes =
     bind_op (map_err_op (ReadTargetChunk (st_name (cc_table config)))
               (target_read_rows env
                 \<lparr>rq_start_after = start_after, rq_end_at = Some end_at, rq_limit = cc_chunk_size config\<rparr>))
       (\<lambda>page.
          let start_after = (if pg_rows page = [] then None else Some (dr_primary_key (last (pg_rows page))))
          in case reconcile_target_page (cc_table config) source_by_key (pg_rows page) of
            (deletes, updates, source_by_key) \<Rightarrow>
              bind_op
                (if phase_includes phase DeleteExtras
                 then delete_target_only_rows (st_name (cc_table config)) env deletes else ret_op ())
                (\<lambda>_.
                   let changes = (if phase_includes phase DeleteExtras
                                  then changes\<lparr>ch_deletes := ch_deletes changes + length deletes\<rparr> else changes);
                       changes = (if phase_includes phase UpdateDivergent
                                  then changes\<lparr>ch_updates := ch_updates changes @ updates\<rparr> else changes)
                   in if \<not> pg_has_more page then
                        ret_op (if phase_includes phase InsertMissing
                                then changes\<lparr>ch_inserts := map snd source_by_key\<rparr> else changes)
                      else reconcile_pages_loop fuel config env phase end_at start_after source_by_key changes))"

definition reconcile_target_pages ::
  "nat \<Rightarrow> sync_chunk_config \<Rightarrow> 'w sync_env \<Rightarrow> sync_mutation_phase \<Rightarrow> row_key option \<Rightarrow> row_key
     \<Rightarrow> database_row list \<Rightarrow> ('w, chunk_changes) chunk_op"
where
  "reconcile_target_pages fuel config env phase start_after end_at source_rows =
     reconcile_pages_loop fuel config env phase end_at start_after (index_rows source_rows)
       \<lparr>ch_deletes = 0, ch_updates = [], ch_inserts = []\<rparr>"

section \<open>Strict mutations and unique-owner repair\<close>

datatype mutation_kind = InsertKind | UpdateKind

type_synonym repair_key = "string \<times> row_key \<times> row_key"

definition record_unique_owner_repair_key ::
  "string \<Rightarrow> sync_unique_owner_conflict \<Rightarrow> repair_key list \<Rightarrow> sync_chunk_error + repair_key list"
where
  "record_unique_owner_repair_key table conflict reconciled_conflicts =
     (let repair_key = (ux_name (uc_index conflict), dr_primary_key (uc_intended conflict),
                        dr_primary_key (uc_owner conflict)) in
      if repair_key \<notin> set reconciled_conflicts then Inr (bts_insert repair_key reconciled_conflicts)
      else Inl (RepeatedConflict table (ux_name (uc_index conflict)) (dr_primary_key (uc_intended conflict))))"

definition validate_unique_owner_conflict ::
  "string \<Rightarrow> sync_unique_owner_conflict \<Rightarrow> sync_chunk_error + string list"
where
  "validate_unique_owner_conflict table conflict =
     (if dr_primary_key (uc_owner conflict) = dr_primary_key (uc_intended conflict) then
        Inl (OwnerHasIntendedKey table (ux_name (uc_index conflict)))
      else
        bind_res (map_err OwnerValue (unique_index_values (uc_index conflict) (uc_intended conflict) ''intended''))
          (\<lambda>intended_identity.
        bind_res (map_err OwnerValue (unique_index_values (uc_index conflict) (uc_owner conflict) ''target owner''))
          (\<lambda>target_identity.
             if target_identity = intended_identity then Inr intended_identity
             else Inl (AmbiguousOwnerIdentity table (ux_name (uc_index conflict))))))"

definition validate_current_source_owner ::
  "string \<Rightarrow> sync_unique_owner_conflict \<Rightarrow> database_row \<Rightarrow> string list \<Rightarrow> sync_chunk_error + unit"
where
  "validate_current_source_owner table conflict source_owner intended_identity =
     (if dr_primary_key source_owner \<noteq> dr_primary_key (uc_owner conflict) then
        Inl (SourceOwnerKeyDisagrees table (ux_name (uc_index conflict)))
      else if map fst (dr_values source_owner) \<noteq> map fst (dr_values (uc_intended conflict)) then
        Inl (SourceOwnerIncomplete table (ux_name (uc_index conflict)))
      else
        bind_res (map_err OwnerValue
                   (unique_index_values (uc_index conflict) source_owner ''current source owner''))
          (\<lambda>source_identity.
             if source_identity \<noteq> intended_identity then Inr ()
             else Inl (SourceOwnerLegitimate table (ux_name (uc_index conflict)))))"

definition plan_unique_owner_action ::
  "string \<Rightarrow> sync_unique_owner_conflict \<Rightarrow> database_row option \<Rightarrow> sync_chunk_error + sync_unique_owner_action"
where
  "plan_unique_owner_action table conflict source_owner =
     bind_res (validate_unique_owner_conflict table conflict)
       (\<lambda>intended_identity. case source_owner of
          None \<Rightarrow> Inr DeleteOwner
        | Some source_owner \<Rightarrow>
            bind_res (validate_current_source_owner table conflict source_owner intended_identity)
              (\<lambda>_. Inr (UpdateOwner source_owner)))"

definition reconcile_unique_owner_conflict ::
  "string \<Rightarrow> 'w sync_env \<Rightarrow> sync_unique_owner_conflict \<Rightarrow> repair_key list \<Rightarrow> row_index
     \<Rightarrow> ('w, repair_key list \<times> row_index) chunk_op"
where
  "reconcile_unique_owner_conflict table env conflict reconciled_conflicts intended_rows =
     bind_op (lift_op (record_unique_owner_repair_key table conflict reconciled_conflicts)) (\<lambda>reconciled_conflicts.
     bind_op (map_err_op (ReadSourceOwner table (ux_name (uc_index conflict)))
               (source_read_row_by_primary_key env (dr_primary_key (uc_owner conflict)))) (\<lambda>source_owner.
     bind_op (lift_op (plan_unique_owner_action table conflict source_owner)) (\<lambda>action.
     bind_op (map_err_op (ReconcileOwner table (ux_name (uc_index conflict)))
               (reconcile_unique_owner env conflict action)) (\<lambda>_.
       ret_op (reconciled_conflicts,
               btm_insert (dr_primary_key (uc_intended conflict)) (uc_intended conflict) intended_rows)))))"

fun reconcile_conflicts ::
  "string \<Rightarrow> 'w sync_env \<Rightarrow> sync_unique_owner_conflict list \<Rightarrow> repair_key list \<Rightarrow> row_index
     \<Rightarrow> ('w, repair_key list \<times> row_index) chunk_op"
where
  "reconcile_conflicts table env [] reconciled_conflicts intended_rows =
     ret_op (reconciled_conflicts, intended_rows)"
| "reconcile_conflicts table env (conflict # conflicts) reconciled_conflicts intended_rows =
     bind_op (reconcile_unique_owner_conflict table env conflict reconciled_conflicts intended_rows)
       (\<lambda>(reconciled_conflicts, intended_rows).
          reconcile_conflicts table env conflicts reconciled_conflicts intended_rows)"

definition inspect_and_reconcile_mutation_failure ::
  "string \<Rightarrow> 'w sync_env \<Rightarrow> sync_mutation_failure \<Rightarrow> repair_key list \<Rightarrow> row_index
     \<Rightarrow> ('w, repair_key list \<times> row_index) chunk_op"
where
  "inspect_and_reconcile_mutation_failure table env failure reconciled_conflicts intended_rows =
     bind_op (map_err_op (InspectConflict table) (inspect_unique_owner_conflicts env failure))
       (\<lambda>conflicts. reconcile_conflicts table env conflicts reconciled_conflicts intended_rows)"

definition try_strict_mutation ::
  "string \<Rightarrow> 'w sync_env \<Rightarrow> database_row list \<Rightarrow> mutation_kind \<Rightarrow> ('w, sync_mutation_failure option) chunk_op"
where
  "try_strict_mutation table env rows kind w =
     (case (case kind of InsertKind \<Rightarrow> insert_rows env rows w | UpdateKind \<Rightarrow> update_rows env rows w) of
        (Inr _, w') \<Rightarrow> (Inr None, w')
      | (Inl failure, w') \<Rightarrow>
          if mf_mysql_code failure = Some 1062 then (Inr (Some failure), w')
          else (Inl (case kind of InsertKind \<Rightarrow> InsertMissingRows table failure
                                | UpdateKind \<Rightarrow> UpdateDivergentRows table failure), w'))"

fun strict_mutation_loop ::
  "nat \<Rightarrow> string \<Rightarrow> 'w sync_env \<Rightarrow> mutation_kind \<Rightarrow> database_row list \<Rightarrow> repair_key list \<Rightarrow> row_index
     \<Rightarrow> ('w, row_index) chunk_op"
where
  "strict_mutation_loop 0 table env kind pending_rows reconciled_conflicts intended_rows =
     fail_op LoopFuelExhausted"
| "strict_mutation_loop (Suc fuel) table env kind pending_rows reconciled_conflicts intended_rows =
     bind_op (try_strict_mutation table env pending_rows kind)
       (\<lambda>result. case result of
          None \<Rightarrow> ret_op intended_rows
        | Some failure \<Rightarrow>
            bind_op (inspect_and_reconcile_mutation_failure table env failure reconciled_conflicts intended_rows)
              (\<lambda>(reconciled_conflicts, intended_rows).
                 strict_mutation_loop fuel table env kind (retry_rows failure) reconciled_conflicts intended_rows))"

definition apply_strict_mutations ::
  "nat \<Rightarrow> string \<Rightarrow> 'w sync_env \<Rightarrow> database_row list \<Rightarrow> mutation_kind \<Rightarrow> ('w, unit) chunk_op"
where
  "apply_strict_mutations fuel table env rows kind =
     (if rows = [] then ret_op ()
      else
        bind_op (strict_mutation_loop fuel table env kind rows [] [])
          (\<lambda>intended_rows.
             if intended_rows \<noteq> [] then
               map_err_op (VerifyReconciled table) (verify_rows env (map snd intended_rows))
             else ret_op ()))"

definition apply_source_changes ::
  "nat \<Rightarrow> string \<Rightarrow> 'w sync_env \<Rightarrow> chunk_changes \<Rightarrow> ('w, unit) chunk_op"
where
  "apply_source_changes fuel table env changes =
     bind_op (apply_strict_mutations fuel table env (ch_updates changes) UpdateKind)
       (\<lambda>_. apply_strict_mutations fuel table env (ch_inserts changes) InsertKind)"

section \<open>The chunk\<close>

definition record_progress :: "sync_chunk_progress \<Rightarrow> nat \<Rightarrow> chunk_changes \<Rightarrow> sync_chunk_progress" where
  "record_progress progress source_rows changes =
     progress\<lparr>cp_chunks := cp_chunks progress + 1,
       cp_rows_scanned := cp_rows_scanned progress + of_nat source_rows,
       cp_inserts := cp_inserts progress + of_nat (length (ch_inserts changes)),
       cp_updates := cp_updates progress + of_nat (length (ch_updates changes)),
       cp_deletes := cp_deletes progress + of_nat (ch_deletes changes)\<rparr>"

definition apply_source_window ::
  "nat \<Rightarrow> sync_chunk_config \<Rightarrow> sync_chunk_progress \<Rightarrow> row_key option \<Rightarrow> database_row list \<Rightarrow> 'w sync_env
     \<Rightarrow> sync_mutation_phase \<Rightarrow> ('w, sync_chunk_progress) chunk_op"
where
  "apply_source_window fuel config progress start_after source_rows env phase =
     (let end_at = dr_primary_key (last source_rows) in
      bind_op (reconcile_target_pages fuel config env phase start_after end_at source_rows) (\<lambda>changes.
      bind_op (apply_source_changes fuel (st_name (cc_table config)) env changes) (\<lambda>_.
        ret_op (record_progress (progress\<lparr>cp_last_primary_key := Some end_at, cp_complete := False\<rparr>)
                  (length source_rows) changes))))"

definition apply_target_tail ::
  "sync_chunk_config \<Rightarrow> sync_chunk_progress \<Rightarrow> row_key option \<Rightarrow> 'w sync_env \<Rightarrow> sync_mutation_phase
     \<Rightarrow> ('w, sync_chunk_progress) chunk_op"
where
  "apply_target_tail config progress start_after env phase =
     bind_op (map_err_op (ReadTargetTail (st_name (cc_table config)))
               (target_read_rows env
                 \<lparr>rq_start_after = start_after, rq_end_at = None, rq_limit = cc_chunk_size config\<rparr>))
       (\<lambda>target_rows.
          let primary_keys = map dr_primary_key (pg_rows target_rows) in
          bind_op
            (if phase_includes phase DeleteExtras \<and> primary_keys \<noteq> []
             then map_err_op (DeleteTargetOnly (st_name (cc_table config))) (delete_rows env primary_keys)
             else ret_op ())
            (\<lambda>_.
               let progress = progress\<lparr>cp_complete := \<not> pg_has_more target_rows,
                                       cp_chunks := cp_chunks progress + 1\<rparr>
               in ret_op
                 (if phase_includes phase DeleteExtras
                  then progress\<lparr>cp_deletes := cp_deletes progress + of_nat (length (pg_rows target_rows))\<rparr>
                  else if primary_keys \<noteq> []
                  then progress\<lparr>cp_last_primary_key := Some (last primary_keys)\<rparr>
                  else progress)))"

definition apply_locked_chunk ::
  "nat \<Rightarrow> sync_chunk_config \<Rightarrow> sync_chunk_progress \<Rightarrow> 'w sync_env \<Rightarrow> sync_mutation_phase
     \<Rightarrow> ('w, sync_chunk_progress) chunk_op"
where
  "apply_locked_chunk fuel config progress env phase =
     (let start_after = cp_last_primary_key progress in
      bind_op (map_err_op (ReadSourceChunk (st_name (cc_table config)))
                (source_read_rows env
                  \<lparr>rq_start_after = start_after, rq_end_at = None, rq_limit = cc_chunk_size config\<rparr>))
        (\<lambda>page.
           bind_op
             (if pg_rows page = [] then apply_target_tail config progress start_after env phase
              else apply_source_window fuel config progress start_after (pg_rows page) env phase)
             (\<lambda>next_progress.
                bind_op (map_err_op (CommitTargetChunk (st_name (cc_table config))) (commit env))
                  (\<lambda>_. ret_op next_progress))))"

definition sync_next_chunk_with_phase ::
  "nat \<Rightarrow> sync_chunk_config \<Rightarrow> 'w sync_env \<Rightarrow> sync_mutation_phase \<Rightarrow> ('w, sync_chunk_progress) chunk_op"
where
  "sync_next_chunk_with_phase fuel config env phase =
     bind_op (load_progress config env) (\<lambda>progress.
       if cp_complete progress then ret_op progress
       else
         bind_op (prepare_target_chunk config env) (\<lambda>_. \<lambda>w.
           case apply_locked_chunk fuel config progress env phase w of
             (Inr progress', w') \<Rightarrow> save_progress_and_unlock config progress' env w'
           | (Inl error, w') \<Rightarrow>
               (case rollback_and_unlock env error w' of (e, w'') \<Rightarrow> (Inl e, w''))))"

text \<open>The loop of \<open>run_table_phase\<close> (\<open>src/src/sync/phased_run.rs\<close>) and of
  \<open>sync_table_to_completion\<close> (\<open>src/src/sync/run.rs\<close>): chunks until one reports completion.\<close>

fun sync_table_to_completion ::
  "nat \<Rightarrow> nat \<Rightarrow> sync_chunk_config \<Rightarrow> 'w sync_env \<Rightarrow> sync_mutation_phase \<Rightarrow> ('w, sync_chunk_progress) chunk_op"
where
  "sync_table_to_completion 0 fuel config env phase = fail_op LoopFuelExhausted"
| "sync_table_to_completion (Suc chunks) fuel config env phase =
     bind_op (sync_next_chunk_with_phase fuel config env phase) (\<lambda>progress.
       if cp_complete progress then ret_op progress
       else sync_table_to_completion chunks fuel config env phase)"

section \<open>What synchronisation means\<close>

text \<open>A target row agrees with the source when both are absent or the non-key columns coincide;
  a phase is done for a key when the part of that agreement it is responsible for holds.\<close>

definition row_agrees :: "sync_table \<Rightarrow> row_values option \<Rightarrow> row_values option \<Rightarrow> bool" where
  "row_agrees table s t =
     (case s of None \<Rightarrow> t = None
      | Some sv \<Rightarrow> (case t of None \<Rightarrow> False | Some tv \<Rightarrow> \<not> rows_diverge table sv tv))"

definition phase_done ::
  "sync_table \<Rightarrow> sync_mutation_phase \<Rightarrow> row_values option \<Rightarrow> row_values option \<Rightarrow> bool"
where
  "phase_done table phase s t =
     ((phase_includes phase InsertMissing \<longrightarrow> s \<noteq> None \<longrightarrow> t \<noteq> None) \<and>
      (phase_includes phase UpdateDivergent \<longrightarrow> s \<noteq> None \<longrightarrow> t \<noteq> None \<longrightarrow> row_agrees table s t) \<and>
      (phase_includes phase DeleteExtras \<longrightarrow> s = None \<longrightarrow> t = None))"

text \<open>A change of the target is source-authoritative when it only moves rows to what the source
  has under the same key.\<close>

definition authoritative ::
  "sync_table \<Rightarrow> (row_key \<Rightarrow> row_values option) \<Rightarrow> (row_key \<Rightarrow> row_values option)
     \<Rightarrow> (row_key \<Rightarrow> row_values option) \<Rightarrow> bool"
where
  "authoritative table S T T' = (\<forall>k. T' k = T k \<or> row_agrees table (S k) (T' k))"

definition after_key :: "(row_key \<Rightarrow> row_key \<Rightarrow> bool) \<Rightarrow> row_key option \<Rightarrow> row_key \<Rightarrow> bool" where
  "after_key lt s k = (case s of None \<Rightarrow> True | Some a \<Rightarrow> lt a k)"

definition upto_key :: "(row_key \<Rightarrow> row_key \<Rightarrow> bool) \<Rightarrow> row_key option \<Rightarrow> row_key \<Rightarrow> bool" where
  "upto_key lt e k = (case e of None \<Rightarrow> True | Some b \<Rightarrow> \<not> lt b k)"

text \<open>A page of a keyset read: rows of the requested range in key order, without gaps up to the
  last one, complete unless it announces more.\<close>

definition page_of ::
  "(row_key \<Rightarrow> row_key \<Rightarrow> bool) \<Rightarrow> (row_key \<Rightarrow> row_values option) \<Rightarrow> sync_chunk_read_request
     \<Rightarrow> sync_chunk_page \<Rightarrow> bool"
where
  "page_of lt T req page \<longleftrightarrow>
     sorted_wrt lt (map dr_primary_key (pg_rows page)) \<and>
     (\<forall>r \<in> set (pg_rows page). after_key lt (rq_start_after req) (dr_primary_key r) \<and>
        upto_key lt (rq_end_at req) (dr_primary_key r) \<and> T (dr_primary_key r) = Some (dr_values r)) \<and>
     (\<forall>k. after_key lt (rq_start_after req) k \<and> upto_key lt (rq_end_at req) k \<and> T k \<noteq> None \<and>
        (\<not> pg_has_more page \<or> pg_rows page \<noteq> [] \<and> \<not> lt (dr_primary_key (last (pg_rows page))) k) \<longrightarrow>
        k \<in> dr_primary_key ` set (pg_rows page)) \<and>
     (pg_has_more page \<longrightarrow> pg_rows page \<noteq> [])"

text \<open>Progress is covered by rows when every key at or before its cursor, and every key once it is
  complete, is done.\<close>

definition covered ::
  "sync_table \<Rightarrow> (row_key \<Rightarrow> row_key \<Rightarrow> bool) \<Rightarrow> sync_mutation_phase \<Rightarrow> sync_chunk_progress option \<Rightarrow>
   (row_key \<Rightarrow> row_values option) \<Rightarrow> (row_key \<Rightarrow> row_values option) \<Rightarrow> bool"
where
  "covered table lt phase p S T = (case p of None \<Rightarrow> True | Some p \<Rightarrow>
     \<forall>k. cp_complete p \<or> \<not> after_key lt (cp_last_primary_key p) k \<longrightarrow>
       phase_done table phase (S k) (T k))"

section \<open>The backend contract\<close>

text \<open>
  What a chunk run relies on. \<open>src\<close> and \<open>tgt\<close> are the rows the source and the target session
  see, \<open>base\<close> the committed target rows, \<open>stored\<close> the durable progress. The source does not
  change during the run. A write, failed or not, moves rows only to what the source has under their
  key; a failed commit or save may or may not have taken effect; \<open>LOCK TABLES\<close> and
  \<open>UNLOCK TABLES\<close> may commit.
\<close>

locale sync_backend =
  fixes env :: "'w sync_env"
    and table :: sync_table
    and key_less :: "row_key \<Rightarrow> row_key \<Rightarrow> bool"
    and src :: "'w \<Rightarrow> row_key \<Rightarrow> row_values option"
    and tgt :: "'w \<Rightarrow> row_key \<Rightarrow> row_values option"
    and base :: "'w \<Rightarrow> row_key \<Rightarrow> row_values option"
    and stored :: "'w \<Rightarrow> string \<Rightarrow> string \<Rightarrow> sync_chunk_progress option"
  assumes key_irrefl: "\<not> key_less k k"
    and key_trans: "key_less a b \<Longrightarrow> key_less b c \<Longrightarrow> key_less a c"
    and key_total: "a \<noteq> b \<Longrightarrow> key_less a b \<or> key_less b a"
    and source_read: "source_read_rows env req w = (r, w') \<Longrightarrow>
      src w' = src w \<and> tgt w' = tgt w \<and> base w' = base w \<and> stored w' = stored w \<and>
      (\<forall>page. r = Inr page \<longrightarrow> 0 < rq_limit req \<longrightarrow> page_of key_less (src w) req page)"
    and source_exact: "source_read_row_by_primary_key env pk w = (r2, w') \<Longrightarrow>
      src w' = src w \<and> tgt w' = tgt w \<and> base w' = base w \<and> stored w' = stored w \<and>
      (r2 = Inr None \<longrightarrow> src w pk = None) \<and>
      (\<forall>x. r2 = Inr (Some x) \<longrightarrow> src w (dr_primary_key x) = Some (dr_values x))"
    and autocommit: "set_autocommit env False w = (u, w') \<Longrightarrow>
      src w' = src w \<and> tgt w' = tgt w \<and> base w' = base w \<and> stored w' = stored w"
    and lock: "lock_table_write env db t w = (u, w') \<Longrightarrow>
      src w' = src w \<and> tgt w' = tgt w \<and> (base w' = base w \<or> base w' = tgt w) \<and> stored w' = stored w"
    and target_read: "target_read_rows env req w = (r, w') \<Longrightarrow>
      src w' = src w \<and> tgt w' = tgt w \<and> base w' = base w \<and> stored w' = stored w \<and>
      (\<forall>page. r = Inr page \<longrightarrow> 0 < rq_limit req \<longrightarrow> page_of key_less (tgt w) req page)"
    and delete: "delete_rows env ks w = (u, w') \<Longrightarrow>
      src w' = src w \<and> base w' = base w \<and> stored w' = stored w \<and>
      (\<forall>k. tgt w' k = tgt w k \<or> k \<in> set ks \<and> tgt w' k = None) \<and>
      (\<forall>k. u = Inr () \<longrightarrow> k \<in> set ks \<longrightarrow> tgt w' k = None)"
    and update: "update_rows env rows w = (m, w') \<Longrightarrow> distinct (map dr_primary_key rows) \<Longrightarrow>
      (\<forall>x \<in> set rows. src w (dr_primary_key x) = Some (dr_values x)) \<Longrightarrow>
      src w' = src w \<and> base w' = base w \<and> stored w' = stored w \<and> authoritative table (src w) (tgt w) (tgt w') \<and>
      (\<forall>x \<in> set rows. m = Inr () \<longrightarrow> row_agrees table (src w (dr_primary_key x)) (tgt w' (dr_primary_key x))) \<and>
      (\<forall>f. m = Inl f \<longrightarrow> mf_mysql_code f = Some 1062 \<longrightarrow>
         set (retry_rows f) \<subseteq> set rows \<and> distinct (map dr_primary_key (retry_rows f)) \<and>
         (\<forall>x \<in> set rows. x \<in> set (retry_rows f) \<or>
            row_agrees table (src w (dr_primary_key x)) (tgt w' (dr_primary_key x))))"
    and insert: "insert_rows env rows w = (m, w') \<Longrightarrow> distinct (map dr_primary_key rows) \<Longrightarrow>
      (\<forall>x \<in> set rows. src w (dr_primary_key x) = Some (dr_values x)) \<Longrightarrow>
      src w' = src w \<and> base w' = base w \<and> stored w' = stored w \<and> authoritative table (src w) (tgt w) (tgt w') \<and>
      (\<forall>x \<in> set rows. m = Inr () \<longrightarrow> row_agrees table (src w (dr_primary_key x)) (tgt w' (dr_primary_key x))) \<and>
      (\<forall>f. m = Inl f \<longrightarrow> mf_mysql_code f = Some 1062 \<longrightarrow>
         set (retry_rows f) \<subseteq> set rows \<and> distinct (map dr_primary_key (retry_rows f)) \<and>
         (\<forall>x \<in> set rows. x \<in> set (retry_rows f) \<or>
            row_agrees table (src w (dr_primary_key x)) (tgt w' (dr_primary_key x))))"
    and inspect: "inspect_unique_owner_conflicts env failure w = (confs, w') \<Longrightarrow>
      src w' = src w \<and> tgt w' = tgt w \<and> base w' = base w \<and> stored w' = stored w"
    and reconcile: "reconcile_unique_owner env conflict action w = (u, w') \<Longrightarrow>
      (case action of UpdateOwner x \<Rightarrow> src w (dr_primary_key x) = Some (dr_values x)
       | DeleteOwner \<Rightarrow> src w (dr_primary_key (uc_owner conflict)) = None) \<Longrightarrow>
      src w' = src w \<and> base w' = base w \<and> stored w' = stored w \<and> authoritative table (src w) (tgt w) (tgt w')"
    and verify: "verify_rows env rows w = (u, w') \<Longrightarrow>
      src w' = src w \<and> tgt w' = tgt w \<and> base w' = base w \<and> stored w' = stored w"
    and commit_law: "commit env w = (u, w') \<Longrightarrow>
      src w' = src w \<and> tgt w' = tgt w \<and> stored w' = stored w \<and>
      (base w' = tgt w \<or> u \<noteq> Inr () \<and> base w' = base w)"
    and rollback_law: "rollback env w = (u, w') \<Longrightarrow>
      src w' = src w \<and> base w' = base w \<and> stored w' = stored w \<and>
      (tgt w' = base w \<or> u \<noteq> Inr () \<and> tgt w' = tgt w)"
    and unlock_law: "unlock_tables env w = (u, w') \<Longrightarrow>
      src w' = src w \<and> tgt w' = tgt w \<and> stored w' = stored w \<and> (base w' = base w \<or> base w' = tgt w)"
    and load_law: "progress_load env run t w = (p, w') \<Longrightarrow>
      src w' = src w \<and> tgt w' = tgt w \<and> base w' = base w \<and> stored w' = stored w \<and>
      (\<forall>x. p = Inr x \<longrightarrow> x = stored w run t)"
    and save_law: "progress_save env progress w = (u, w') \<Longrightarrow>
      src w' = src w \<and> tgt w' = tgt w \<and> base w' = base w \<and>
      (stored w' = (stored w)(cp_run_id progress := (stored w (cp_run_id progress))(cp_table progress \<mapsto> progress))
       \<or> u \<noteq> Inr () \<and> stored w' = stored w)"
begin

text \<open>One authoritative step of the target session inside a transaction.\<close>

definition tgt_step :: "'w \<Rightarrow> 'w \<Rightarrow> bool" where
  "tgt_step w w' = (src w' = src w \<and> base w' = base w \<and> stored w' = stored w \<and>
     authoritative table (src w) (tgt w) (tgt w'))"

lemma tgt_step_refl [simp]: "tgt_step w w"
  by (simp add: tgt_step_def authoritative_def)

lemma tgt_step_trans: "tgt_step a b \<Longrightarrow> tgt_step b c \<Longrightarrow> tgt_step a c"
  unfolding tgt_step_def authoritative_def by (simp, metis)

lemma tgt_step_same:
  "src w' = src w \<Longrightarrow> tgt w' = tgt w \<Longrightarrow> base w' = base w \<Longrightarrow> stored w' = stored w \<Longrightarrow> tgt_step w w'"
  by (simp add: tgt_step_def authoritative_def)

lemma tgt_step_src: "tgt_step w w' \<Longrightarrow> src w' = src w"
  by (simp add: tgt_step_def)

lemma key_asym: "key_less a b \<Longrightarrow> \<not> key_less b a"
  using key_trans key_irrefl by blast

lemma key_not_less: "\<not> key_less a b \<longleftrightarrow> a = b \<or> key_less b a"
  using key_total key_asym key_irrefl by blast

lemma page_distinct: "page_of key_less T req page \<Longrightarrow> distinct (map dr_primary_key (pg_rows page))"
  unfolding page_of_def distinct_conv_nth sorted_wrt_iff_nth_less
  using key_irrefl by (metis linorder_neqE_nat)

lemma page_last:
  assumes "page_of key_less T req page" "r \<in> set (pg_rows page)"
  shows "\<not> key_less (dr_primary_key (last (pg_rows page))) (dr_primary_key r)"
proof -
  let ?ks = "map dr_primary_key (pg_rows page)"
  have ne: "pg_rows page \<noteq> []" using assms(2) by auto
  then have "?ks = butlast ?ks @ [dr_primary_key (last (pg_rows page))]"
    by (metis append_butlast_last_id last_map map_is_Nil_conv)
  moreover have "sorted_wrt key_less ?ks" using assms(1) by (simp add: page_of_def)
  ultimately have "\<forall>k \<in> set (butlast ?ks). key_less k (dr_primary_key (last (pg_rows page)))"
    by (metis (no_types, lifting) list.set_intros(1) sorted_wrt_append)
  moreover have "dr_primary_key r \<in> set ?ks" using assms(2) by auto
  then have "dr_primary_key r \<in> set (butlast ?ks) \<or> dr_primary_key r = dr_primary_key (last (pg_rows page))"
    by (metis (no_types, lifting) Un_iff \<open>?ks = butlast ?ks @ [dr_primary_key (last (pg_rows page))]\<close>
        empty_iff list.set(1) set_ConsD set_append)
  ultimately show ?thesis using key_asym key_irrefl by auto
qed

end

end
