(* ===== verification/Sql_Text.thy ===== *)
theory Sql_Text
  imports Cdc_Prelude
begin

text \<open>
  SQL text: identifier and literal quoting of \<open>src/src/mysql_support.rs\<close>, decimal numbers and the
  statement type of \<open>src/src/target.rs\<close>. The lexical rules of the server (\<open>lex_ident\<close>,
  \<open>lex_literal\<close>) are stated as readers, and the quoting functions are shown to be read back.
\<close>

section \<open>Searching text\<close>

text \<open>\<open>str::find\<close>, \<open>str::ends_with\<close> and \<open>str::replace\<close> (for a non-empty pattern).\<close>

fun find_text :: "string \<Rightarrow> string \<Rightarrow> nat option" where
  "find_text pat [] = (if pat = [] then Some 0 else None)"
| "find_text pat (c # s) =
     (if take (length pat) (c # s) = pat then Some 0 else map_option Suc (find_text pat s))"

definition text_ends_with :: "string \<Rightarrow> string \<Rightarrow> bool" where
  "text_ends_with s suffix = (length suffix \<le> length s \<and> drop (length s - length suffix) s = suffix)"

function replace_text :: "string \<Rightarrow> string \<Rightarrow> string \<Rightarrow> string" where
  "replace_text p r t =
     (if p = [] then t
      else case find_text p t of
        None \<Rightarrow> t
      | Some i \<Rightarrow> take i t @ r @ replace_text p r (drop (i + length p) t))"
  by pat_completeness auto

lemma find_text_within:
  "find_text p t = Some i \<Longrightarrow> i + length p \<le> length t \<and> take (length p) (drop i t) = p"
proof (induction p t arbitrary: i rule: find_text.induct)
  case (1 p)
  then show ?case by (simp split: if_splits)
next
  case (2 p c t)
  show ?case
  proof (cases "take (length p) (c # t) = p")
    case True
    then have "length p \<le> length (c # t)"
      by (metis length_take min.cobounded1)
    with True 2(2) show ?thesis by simp
  next
    case False
    with 2(2) obtain j where "find_text p t = Some j" "i = Suc j" by auto
    with 2(1) [OF False] show ?thesis by simp
  qed
qed

termination replace_text
proof (relation "measure (length \<circ> snd \<circ> snd)")
  fix p r t :: string and i :: nat
  assume "p \<noteq> []" "find_text p t = Some i"
  with find_text_within [of p t i] show "((p, r, drop (i + length p) t), p, r, t) \<in> measure (length \<circ> snd \<circ> snd)"
    by (cases p) auto
qed simp

declare replace_text.simps [simp del]

section \<open>Quoting\<close>

definition backtick :: char where "backtick = CHR 0x60"
definition apostrophe :: char where "apostrophe = CHR 0x27"
definition backslash :: char where "backslash = CHR 0x5C"

definition replace_char :: "char \<Rightarrow> string \<Rightarrow> string \<Rightarrow> string" where
  "replace_char c by_str s = concat (map (\<lambda>x. if x = c then by_str else [x]) s)"

definition quote_ident :: "string \<Rightarrow> string" where
  "quote_ident identifier =
     [backtick] @ replace_char backtick [backtick, backtick] identifier @ [backtick]"

definition quote_sql_literal :: "string \<Rightarrow> string" where
  "quote_sql_literal value =
     [apostrophe] @ replace_char apostrophe [apostrophe, apostrophe]
       (replace_char backslash [backslash, backslash] value) @ [apostrophe]"

fun split_char :: "char \<Rightarrow> string \<Rightarrow> string list" where
  "split_char c [] = [[]]"
| "split_char c (x # xs) =
     (if x = c then [] # split_char c xs
      else (case split_char c xs of [] \<Rightarrow> [[x]] | y # ys \<Rightarrow> (x # y) # ys))"

definition quote_identifier_path :: "string \<Rightarrow> string" where
  "quote_identifier_path identifier = join_str ''.'' (map quote_ident (split_char (CHR ''.'') identifier))"

definition qualified_table_parts :: "string \<Rightarrow> string \<Rightarrow> string \<times> string" where
  "qualified_table_parts default_schema table_path =
     (case split_char (CHR ''.'') table_path of
        [schema, table] \<Rightarrow> (schema, table)
      | [table] \<Rightarrow> (default_schema, table)
      | _ \<Rightarrow> (default_schema, table_path))"

section \<open>Decimal numbers\<close>

definition digit_char :: "nat \<Rightarrow> char" where
  "digit_char d = char_of (48 + d)"

fun nat_str :: "nat \<Rightarrow> string" where
  "nat_str n = (if n < 10 then [digit_char n] else nat_str (n div 10) @ [digit_char (n mod 10)])"

declare nat_str.simps [simp del]

definition is_digit :: "char \<Rightarrow> bool" where
  "is_digit c = (48 \<le> (of_char c :: int) \<and> (of_char c :: int) \<le> 57)"

definition digit_value :: "char \<Rightarrow> int" where
  "digit_value c = of_char c - 48"

definition digits_value :: "string \<Rightarrow> int" where
  "digits_value s = foldl (\<lambda>n c. n * 10 + digit_value c) 0 s"

text \<open>\<open>str::parse::<u64>\<close>: an optional plus sign, at least one digit, no overflow.\<close>

definition parse_u64 :: "string \<Rightarrow> u64 option" where
  "parse_u64 s =
     (let d = (case s of c # rest \<Rightarrow> if c = CHR ''+'' then rest else s | [] \<Rightarrow> []) in
      if d = [] \<or> \<not> list_all is_digit d then None
      else if digits_value d < 2 ^ 64 then Some (of_int (digits_value d)) else None)"

section \<open>Statements\<close>

text \<open>
  The parameter values of the driver (\<open>mysql::Value\<close>). A signed integer is its 64-bit pattern, a
  floating-point number its IEEE bit pattern; a date is year, month, day, hour, minute, second,
  microseconds, and a time is sign, days, hours, minutes, seconds, microseconds.
\<close>

datatype sql_value =
    SqlNull
  | SqlBytes string
  | SqlInt u64
  | SqlUInt u64
  | SqlFloat u32
  | SqlDouble u64
  | SqlDate u16 u8 u8 u8 u8 u8 u32
  | SqlTime bool u32 u8 u8 u8 u32

record sql_statement =
  ss_sql :: string
  ss_params :: "sql_value list"

section \<open>How the server reads quoted text\<close>

text \<open>A back-quoted identifier: two back-quotes stand for one.\<close>

fun lex_ident_body :: "string \<Rightarrow> (string \<times> string) option" where
  "lex_ident_body [] = None"
| "lex_ident_body [c] = (if c = backtick then Some ([], []) else None)"
| "lex_ident_body (c # d # rest) =
     (if c \<noteq> backtick then map_option (\<lambda>(body, r). (c # body, r)) (lex_ident_body (d # rest))
      else if d = backtick then map_option (\<lambda>(body, r). (backtick # body, r)) (lex_ident_body rest)
      else Some ([], d # rest))"

fun lex_ident :: "string \<Rightarrow> (string \<times> string) option" where
  "lex_ident [] = None"
| "lex_ident (c # rest) = (if c = backtick then lex_ident_body rest else None)"

text \<open>A string literal: two apostrophes stand for one, and a backslash before a backslash or an
  apostrophe stands for that character (other escapes never occur in quoted text).\<close>

fun lex_literal_body :: "string \<Rightarrow> (string \<times> string) option" where
  "lex_literal_body [] = None"
| "lex_literal_body [c] = (if c = apostrophe then Some ([], []) else None)"
| "lex_literal_body (c # d # rest) =
     (if c = backslash then
        (if d = backslash \<or> d = apostrophe
         then map_option (\<lambda>(body, r). (d # body, r)) (lex_literal_body rest) else None)
      else if c \<noteq> apostrophe then map_option (\<lambda>(body, r). (c # body, r)) (lex_literal_body (d # rest))
      else if d = apostrophe then map_option (\<lambda>(body, r). (apostrophe # body, r)) (lex_literal_body rest)
      else Some ([], d # rest))"

fun lex_literal :: "string \<Rightarrow> (string \<times> string) option" where
  "lex_literal [] = None"
| "lex_literal (c # rest) = (if c = apostrophe then lex_literal_body rest else None)"

section \<open>Lemmas\<close>

lemma sql_chars_distinct [simp]:
  "backtick \<noteq> apostrophe" "apostrophe \<noteq> backtick" "backslash \<noteq> apostrophe" "apostrophe \<noteq> backslash"
  "backtick \<noteq> backslash" "backslash \<noteq> backtick"
  by (simp_all add: backtick_def apostrophe_def backslash_def)

lemma replace_char_simps [simp]:
  "replace_char c b [] = []"
  "replace_char c b (x # xs) = (if x = c then b else [x]) @ replace_char c b xs"
  by (simp_all add: replace_char_def)

lemma lex_ident_body_cons:
  assumes "c \<noteq> backtick" "ys \<noteq> []"
  shows "lex_ident_body (c # ys) = map_option (\<lambda>(body, r). (c # body, r)) (lex_ident_body ys)"
  using assms by (cases ys) simp_all

lemma lex_ident_body_quoted:
  assumes "rest = [] \<or> hd rest \<noteq> backtick"
  shows "lex_ident_body (replace_char backtick [backtick, backtick] s @ [backtick] @ rest) = Some (s, rest)"
proof (induction s)
  case Nil
  then show ?case using assms by (cases rest) simp_all
next
  case (Cons x s)
  then show ?case by (simp add: lex_ident_body_cons)
qed

lemma lex_literal_body_cons:
  assumes "c \<noteq> apostrophe" "c \<noteq> backslash" "ys \<noteq> []"
  shows "lex_literal_body (c # ys) = map_option (\<lambda>(body, r). (c # body, r)) (lex_literal_body ys)"
  using assms by (cases ys) simp_all

lemma lex_literal_body_quoted:
  assumes "rest = [] \<or> hd rest \<noteq> apostrophe"
  shows "lex_literal_body (replace_char apostrophe [apostrophe, apostrophe]
       (replace_char backslash [backslash, backslash] s) @ [apostrophe] @ rest) = Some (s, rest)"
proof (induction s)
  case Nil
  then show ?case using assms by (cases rest) simp_all
next
  case (Cons x s)
  then show ?case by (simp add: lex_literal_body_cons)
qed

lemma lex_ident_quote:
  "rest = [] \<or> hd rest \<noteq> backtick \<Longrightarrow> lex_ident (quote_ident s @ rest) = Some (s, rest)"
  using lex_ident_body_quoted [of rest s] by (simp add: quote_ident_def)

lemma lex_literal_quote:
  "rest = [] \<or> hd rest \<noteq> apostrophe \<Longrightarrow> lex_literal (quote_sql_literal s @ rest) = Some (s, rest)"
  using lex_literal_body_quoted [of rest s] by (simp add: quote_sql_literal_def)

lemma of_char_int: "(of_char (char_of (n :: nat)) :: int) = int (n mod 256)"
proof -
  have "(of_char (char_of n) :: int) = int (of_char (char_of n) :: nat)" by (rule of_nat_of_char [symmetric])
  also have "(of_char (char_of n) :: nat) = n mod 256" by (rule of_char_of)
  finally show ?thesis .
qed

lemma digit_char_digit: "n < 10 \<Longrightarrow> is_digit (digit_char n)"
  by (simp add: is_digit_def digit_char_def of_char_int)

lemma digit_value_char [simp]: "n < 10 \<Longrightarrow> digit_value (digit_char n) = int n"
  by (simp add: digit_value_def digit_char_def of_char_int)

lemma nat_str_digits: "list_all is_digit (nat_str n) \<and> nat_str n \<noteq> []"
proof (induction n rule: nat_str.induct)
  case (1 n)
  show ?case
    by (subst (1 2) nat_str.simps) (use 1 in \<open>auto simp: digit_char_digit\<close>)
qed

lemma digits_value_append [simp]: "digits_value (s @ [c]) = digits_value s * 10 + digit_value c"
  by (simp add: digits_value_def)

lemma digits_value_nat_str [simp]: "digits_value (nat_str n) = int n"
proof (induction n rule: nat_str.induct)
  case (1 n)
  show ?case
  proof (cases "n < 10")
    case True
    then show ?thesis by (subst nat_str.simps) (simp add: digits_value_def)
  next
    case False
    have "int (n div 10) * 10 + int (n mod 10) = int n"
      by (metis div_mult_mod_eq of_nat_add of_nat_mult of_nat_numeral)
    then show ?thesis using False by (subst nat_str.simps) (simp add: 1)
  qed
qed

lemma is_digit_not_plus: "is_digit c \<Longrightarrow> c \<noteq> CHR ''+''"
  by (auto simp: is_digit_def)

lemma parse_u64_nat_str:
  assumes "n < 2 ^ 64"
  shows "parse_u64 (nat_str n) = Some (of_nat n)"
proof -
  obtain c cs where c: "nat_str n = c # cs" using nat_str_digits [of n] by (cases "nat_str n") auto
  then have "is_digit c" "list_all is_digit cs" using nat_str_digits [of n] by simp_all
  moreover from this have "c \<noteq> CHR ''+''" by (simp add: is_digit_not_plus)
  moreover have "digits_value (c # cs) = int n" using digits_value_nat_str [of n] c by simp
  ultimately show ?thesis using assms unfolding c parse_u64_def Let_def by simp
qed

end
