(* ===== verification/Sync_Sql.thy ===== *)
theory Sync_Sql
  imports Sync_Model Sql_Text
begin

text \<open>
  The statement builders of table synchronisation (\<open>src/src/sync/sql.rs\<close>): keyset reads, exact
  reads, strict inserts, updates and deletes, and the conversion of row values to statement
  parameters. Indexing past the end of a slice and \<open>expect\<close> are \<open>Panic\<close>.
\<close>

section \<open>Errors\<close>

datatype sync_sql_error =
    RelationShape string
  | RelationColumnAbsent string string
  | RelationColumnDuplicate string string
  | RelationLimitZero string
  | RelationCursorWidth string string nat nat
  | ExactKeyWidth string nat nat
  | UniqueIndexNoColumns string string
  | RequiredColumnAbsent string string
  | RequiredColumnNull string string
  | KeyWidth string string nat nat
  | EnumUndeclaredLabel string string string
  | BitInvalid string string string
  | EnumInvalidIndex string string string
  | EnumIndexOutside string string u64
  | BlobInvalidHex string string string

type_synonym 'a sql_res = "(sync_sql_error, 'a) res"

definition index_at :: "'a list \<Rightarrow> nat \<Rightarrow> 'a sql_res" where
  "index_at xs i = (if i < length xs then Inr (xs ! i) else Inl (Panic ''index out of bounds''))"

section \<open>Values to parameters\<close>

definition string_param :: "string \<Rightarrow> sql_value" where
  "string_param value = SqlBytes value"

definition decode_hex_digit :: "char \<Rightarrow> unit + u8" where
  "decode_hex_digit c =
     (let v = (of_char c :: int) in
      if 48 \<le> v \<and> v \<le> 57 then Inr (of_int (v - 48))
      else if 97 \<le> v \<and> v \<le> 102 then Inr (of_int (v - 97 + 10))
      else if 65 \<le> v \<and> v \<le> 70 then Inr (of_int (v - 65 + 10))
      else Inl ())"

unbundle bit_operations_syntax

definition decode_hex_byte :: "char \<times> char \<Rightarrow> unit + u8" where
  "decode_hex_byte p = (case p of (high, low) \<Rightarrow>
     bind_res (decode_hex_digit high) (\<lambda>high.
     bind_res (decode_hex_digit low) (\<lambda>low. Inr (push_bit 4 high OR low))))"

fun as_chunks2 :: "string \<Rightarrow> (char \<times> char) list" where
  "as_chunks2 (a # b # rest) = (a, b) # as_chunks2 rest"
| "as_chunks2 _ = []"

definition hex_bytes_parameter_value :: "sync_table \<Rightarrow> string \<Rightarrow> string \<Rightarrow> sql_value sql_res" where
  "hex_bytes_parameter_value table column value =
     (if length value mod 2 \<noteq> 0 then Inl (Fail (BlobInvalidHex column (st_name table) value))
      else
        bind_res (map_err (\<lambda>_. Fail (BlobInvalidHex column (st_name table) value))
                   (collect_res decode_hex_byte (as_chunks2 value)))
          (\<lambda>bytes. Inr (SqlBytes (map (\<lambda>b. char_of (uint b)) bytes))))"

definition enum_ordinal_parameter_value :: "sync_table \<Rightarrow> string \<Rightarrow> string \<Rightarrow> sql_value sql_res" where
  "enum_ordinal_parameter_value table column value =
     bind_res (ok_or (Panic ''ENUM metadata exists for an ENUM column'')
                (map_of (st_enum_columns table) column)) (\<lambda>labels.
     bind_res (ok_or (Fail (EnumInvalidIndex column (st_name table) value)) (parse_u64 value)) (\<lambda>ordinal.
       if ordinal > of_nat (length labels) then Inl (Fail (EnumIndexOutside column (st_name table) ordinal))
       else Inr (SqlUInt ordinal)))"

definition parameter_value :: "sync_table \<Rightarrow> string \<Rightarrow> string \<Rightarrow> sql_value sql_res" where
  "parameter_value table column value =
     (if map_of (st_enum_columns table) column \<noteq> None then enum_ordinal_parameter_value table column value
      else if column \<in> set (st_bit_columns table) then
        bind_res (ok_or (Fail (BitInvalid column (st_name table) value)) (parse_u64 value)) (\<lambda>v. Inr (SqlUInt v))
      else if column \<in> set (st_mediumblob_columns table) then hex_bytes_parameter_value table column value
      else Inr (string_param value))"

definition primary_key_parameter_value :: "sync_table \<Rightarrow> string \<Rightarrow> string \<Rightarrow> sql_value sql_res" where
  "primary_key_parameter_value table column value =
     (case map_of (st_enum_columns table) column of
        None \<Rightarrow> parameter_value table column value
      | Some labels \<Rightarrow>
          if value \<notin> set labels then Inl (Fail (EnumUndeclaredLabel column (st_name table) value))
          else Inr (string_param value))"

definition primary_key_params :: "sync_table \<Rightarrow> row_key \<Rightarrow> string \<Rightarrow> sql_value list sql_res" where
  "primary_key_params table primary_key label =
     (if length primary_key \<noteq> length (st_primary_key table) then
        Inl (Fail (KeyWidth label (st_name table) (length (st_primary_key table)) (length primary_key)))
      else collect_res (\<lambda>(column, value). primary_key_parameter_value table column value)
             (zip (st_primary_key table) primary_key))"

definition ordered_values :: "sync_table \<Rightarrow> database_row \<Rightarrow> string list \<Rightarrow> sql_value list sql_res" where
  "ordered_values table row columns =
     collect_res (\<lambda>column. case map_of (dr_values row) column of
         Some (Some value) \<Rightarrow> parameter_value table column value
       | _ \<Rightarrow> Inr SqlNull) columns"

definition required_non_null_values ::
  "sync_table \<Rightarrow> database_row \<Rightarrow> string list \<Rightarrow> string \<Rightarrow> sql_value list sql_res"
where
  "required_non_null_values table row columns label =
     collect_res (\<lambda>column. case map_of (dr_values row) column of
         None \<Rightarrow> Inl (Fail (RequiredColumnAbsent label column))
       | Some None \<Rightarrow> Inl (Fail (RequiredColumnNull label column))
       | Some (Some value) \<Rightarrow> parameter_value table column value) columns"

section \<open>Text fragments\<close>

definition quote_ident_list :: "string list \<Rightarrow> string" where
  "quote_ident_list columns = join_str '', '' (map quote_ident columns)"

definition non_primary_columns :: "sync_table \<Rightarrow> string list" where
  "non_primary_columns table = filter (\<lambda>c. c \<notin> set (st_primary_key table)) (st_columns table)"

definition primary_key_predicates :: "string list \<Rightarrow> string list" where
  "primary_key_predicates primary_key = map (\<lambda>column. quote_ident column @ '' = ?'') primary_key"

definition row_placeholders :: "nat \<Rightarrow> nat \<Rightarrow> string" where
  "row_placeholders column_count row_count =
     join_str '', '' (replicate row_count (''('' @ join_str '', '' (replicate column_count ''?'') @ '')''))"

definition enum_field_expression :: "string \<Rightarrow> string list \<Rightarrow> string" where
  "enum_field_expression value labels =
     ''FIELD('' @ value @ '', '' @ join_str '', '' (map quote_sql_literal labels) @ '')''"

definition primary_key_bound_expression :: "string \<Rightarrow> primary_key_ordering \<Rightarrow> string" where
  "primary_key_bound_expression value orders = (case orders of
      Native \<Rightarrow> quote_sql_literal value
    | EnumOrder labels \<Rightarrow> enum_field_expression (quote_sql_literal value) labels)"

definition primary_key_order_expression :: "string \<Rightarrow> primary_key_ordering \<Rightarrow> string" where
  "primary_key_order_expression column orders = (case orders of
      Native \<Rightarrow> quote_ident column
    | EnumOrder labels \<Rightarrow> enum_field_expression (quote_ident column) labels)"

definition primary_key_order_by :: "string list \<Rightarrow> primary_key_ordering list \<Rightarrow> string" where
  "primary_key_order_by columns orders =
     join_str '', '' (map (\<lambda>(column, orders). primary_key_order_expression column orders)
                        (zip columns orders))"

definition sync_select_columns :: "sync_table \<Rightarrow> string" where
  "sync_select_columns table =
     join_str '', '' (map (\<lambda>column.
       if map_of (st_enum_columns table) column \<noteq> None \<or> column \<in> set (st_bit_columns table)
       then ''CAST('' @ quote_ident column @ '' AS UNSIGNED) AS '' @ quote_ident column
       else if column \<in> set (st_mediumblob_columns table)
       then ''HEX('' @ quote_ident column @ '') AS '' @ quote_ident column
       else quote_ident column) (st_columns table))"

section \<open>Keyset bounds\<close>

definition primary_key_bound_branch ::
  "string list \<Rightarrow> primary_key_ordering list \<Rightarrow> string list \<Rightarrow> nat \<Rightarrow> string \<Rightarrow> string sql_res"
where
  "primary_key_bound_branch columns orders values index operator =
     bind_res (collect_res (\<lambda>equal_index.
         bind_res (index_at columns equal_index) (\<lambda>column.
         bind_res (index_at values equal_index) (\<lambda>value.
           Inr (quote_ident column @ '' = '' @ quote_sql_literal value)))) [0..<index]) (\<lambda>equals.
     bind_res (index_at columns index) (\<lambda>column.
     bind_res (index_at orders index) (\<lambda>order.
     bind_res (index_at values index) (\<lambda>value.
       Inr (''('' @ join_str '' AND ''
         (equals @ [primary_key_order_expression column order @ '' '' @ operator @ '' '' @
                    primary_key_bound_expression value order]) @ '')'')))))"

definition primary_key_bound_predicate ::
  "string list \<Rightarrow> primary_key_ordering list \<Rightarrow> string list \<Rightarrow> string \<Rightarrow> string sql_res"
where
  "primary_key_bound_predicate columns orders values operator =
     bind_res (collect_res (\<lambda>index. primary_key_bound_branch columns orders values index operator)
                [0..<length columns]) (\<lambda>branches.
       Inr (if length branches < 2 then join_str '' OR '' branches
            else ''('' @ join_str '' OR '' branches @ '')''))"

definition sync_bound_predicates :: "sync_table \<Rightarrow> sync_chunk_read_request \<Rightarrow> string list sql_res" where
  "sync_bound_predicates table request =
     bind_res (case rq_start_after request of
         None \<Rightarrow> Inr []
       | Some start_after \<Rightarrow>
           bind_res (primary_key_bound_predicate (st_primary_key table) (st_primary_key_ordering table)
                       start_after ''>'') (\<lambda>p. Inr [p])) (\<lambda>lower.
     bind_res (case rq_end_at request of
         None \<Rightarrow> Inr []
       | Some end_at \<Rightarrow>
           bind_res (primary_key_bound_predicate (st_primary_key table) (st_primary_key_ordering table)
                       end_at ''>'') (\<lambda>p. Inr [''NOT '' @ p])) (\<lambda>upper.
       Inr (lower @ upper)))"

section \<open>Read statements\<close>

definition build_sync_select_sql :: "sync_table \<Rightarrow> sync_chunk_read_request \<Rightarrow> string sql_res" where
  "build_sync_select_sql table request =
     bind_res (sync_bound_predicates table request) (\<lambda>predicates.
       let bounds = (if predicates = [] then '''' else '' WHERE '' @ join_str '' AND '' predicates) in
       Inr (''SELECT '' @ sync_select_columns table @ '' FROM '' @ quote_ident (st_name table) @ bounds @
            '' ORDER BY '' @ primary_key_order_by (st_primary_key table) (st_primary_key_ordering table) @
            '' LIMIT '' @ nat_str (rq_limit request)))"

fun check_relation_columns :: "sync_table \<Rightarrow> string list \<Rightarrow> string list \<Rightarrow> unit sql_res" where
  "check_relation_columns table seen [] = Inr ()"
| "check_relation_columns table seen (column # columns) =
     (if column \<notin> set (st_columns table) then Inl (Fail (RelationColumnAbsent column (st_name table)))
      else if column \<in> set seen then Inl (Fail (RelationColumnDuplicate column (st_name table)))
      else check_relation_columns table (bts_insert column seen) columns)"

definition check_cursor_width :: "sync_table \<Rightarrow> string \<Rightarrow> row_key option \<Rightarrow> unit sql_res" where
  "check_cursor_width table label cursor = (case cursor of
      None \<Rightarrow> Inr ()
    | Some c \<Rightarrow>
        if length c \<noteq> length (st_primary_key table) then
          Inl (Fail (RelationCursorWidth label (st_name table) (length (st_primary_key table)) (length c)))
        else Inr ())"

definition validate_related_rows_request ::
  "sync_table \<Rightarrow> string list \<Rightarrow> string option list \<Rightarrow> sync_chunk_read_request \<Rightarrow> unit sql_res"
where
  "validate_related_rows_request table columns values request =
     (if columns = [] \<or> length columns \<noteq> length values then Inl (Fail (RelationShape (st_name table)))
      else
        bind_res (check_relation_columns table [] columns) (\<lambda>_.
          if rq_limit request = 0 then Inl (Fail (RelationLimitZero (st_name table)))
          else
            bind_res (check_cursor_width table ''start_after'' (rq_start_after request)) (\<lambda>_.
              check_cursor_width table ''end_at'' (rq_end_at request))))"

definition build_related_rows_select_statement ::
  "sync_table \<Rightarrow> string list \<Rightarrow> string option list \<Rightarrow> sync_chunk_read_request \<Rightarrow> sql_statement sql_res"
where
  "build_related_rows_select_statement table columns values request =
     bind_res (validate_related_rows_request table columns values request) (\<lambda>_.
     bind_res (collect_res (\<lambda>(column, value). case value of
         Some v \<Rightarrow> parameter_value table column v | None \<Rightarrow> Inr SqlNull) (zip columns values)) (\<lambda>params.
     bind_res (sync_bound_predicates table request) (\<lambda>bounds.
       let predicates = map (\<lambda>column. quote_ident column @ '' <=> ?'') columns @ bounds in
       Inr \<lparr>ss_sql = ''SELECT '' @ sync_select_columns table @ '' FROM '' @ quote_ident (st_name table) @
              '' WHERE '' @ join_str '' AND '' predicates @ '' ORDER BY '' @
              primary_key_order_by (st_primary_key table) (st_primary_key_ordering table) @
              '' LIMIT '' @ nat_str (rq_limit request),
            ss_params = params\<rparr>)))"

definition build_exact_primary_key_select_statement ::
  "sync_table \<Rightarrow> row_key \<Rightarrow> sql_statement sql_res"
where
  "build_exact_primary_key_select_statement table primary_key =
     (if length primary_key \<noteq> length (st_primary_key table) then
        Inl (Fail (ExactKeyWidth (st_name table) (length (st_primary_key table)) (length primary_key)))
      else
        bind_res (primary_key_params table primary_key ''exact primary key'') (\<lambda>params.
          Inr \<lparr>ss_sql = ''SELECT '' @ sync_select_columns table @ '' FROM '' @ quote_ident (st_name table) @
                 '' WHERE '' @ join_str '' AND '' (primary_key_predicates (st_primary_key table)) @ '' LIMIT 2'',
               ss_params = params\<rparr>))"

definition build_unique_index_columns_statement :: "string \<Rightarrow> string \<Rightarrow> sql_statement" where
  "build_unique_index_columns_statement database table =
     \<lparr>ss_sql = ''SELECT INDEX_NAME,COLUMN_NAME,SEQ_IN_INDEX,SUB_PART FROM information_schema.STATISTICS WHERE TABLE_SCHEMA = ? AND TABLE_NAME = ? AND NON_UNIQUE = 0 ORDER BY INDEX_NAME,SEQ_IN_INDEX'',
      ss_params = [string_param database, string_param table]\<rparr>"

definition build_unique_owner_select_statement ::
  "sync_table \<Rightarrow> sync_unique_index \<Rightarrow> database_row \<Rightarrow> sql_statement sql_res"
where
  "build_unique_owner_select_statement table index intended =
     (if ux_columns index = [] then Inl (Fail (UniqueIndexNoColumns (ux_name index) (st_name table)))
      else
        bind_res (required_non_null_values table intended (ux_columns index) ''unique index'') (\<lambda>params.
          Inr \<lparr>ss_sql = ''SELECT '' @ sync_select_columns table @ '' FROM '' @ quote_ident (st_name table) @
                 '' WHERE '' @ join_str '' AND '' (map (\<lambda>column. quote_ident column @ '' <=> ?'') (ux_columns index)) @
                 '' LIMIT 2'',
               ss_params = params\<rparr>))"

definition build_lock_table_write_sql :: "string \<Rightarrow> string \<Rightarrow> string" where
  "build_lock_table_write_sql database table =
     ''LOCK TABLES '' @ quote_ident database @ ''.'' @ quote_ident table @ '' WRITE''"

section \<open>Strict mutations\<close>

definition build_strict_insert_statement :: "sync_table \<Rightarrow> database_row list \<Rightarrow> sql_statement sql_res" where
  "build_strict_insert_statement table rows =
     bind_res (collect_res (\<lambda>row. ordered_values table row (st_columns table)) rows) (\<lambda>params.
       Inr \<lparr>ss_sql = ''INSERT INTO '' @ quote_ident (st_name table) @ '' ('' @ quote_ident_list (st_columns table) @
              '') VALUES '' @ row_placeholders (length (st_columns table)) (length rows),
            ss_params = concat params\<rparr>)"

definition strict_case_assignment :: "sync_table \<Rightarrow> string \<Rightarrow> nat \<Rightarrow> string" where
  "strict_case_assignment table column row_count =
     (let predicate = join_str '' AND '' (primary_key_predicates (st_primary_key table));
          cases = join_str '' '' (replicate row_count (''WHEN '' @ predicate @ '' THEN ?'')) in
      quote_ident column @ '' = CASE '' @ cases @ '' ELSE '' @ quote_ident column @ '' END'')"

definition primary_key_row_filter :: "string list \<Rightarrow> nat \<Rightarrow> string" where
  "primary_key_row_filter primary_key row_count =
     (if length primary_key = 1 then
        quote_ident (primary_key ! 0) @ '' IN ('' @ join_str '', '' (replicate row_count ''?'') @ '')''
      else ''('' @ quote_ident_list primary_key @ '') IN ('' @ row_placeholders (length primary_key) row_count @ '')'')"

definition ordered_update_params ::
  "sync_table \<Rightarrow> string list \<Rightarrow> database_row list \<Rightarrow> sql_value list sql_res"
where
  "ordered_update_params table changed_columns rows =
     bind_res (collect_res (\<lambda>(column, row).
         bind_res (primary_key_params table (dr_primary_key row) ''update primary key'') (\<lambda>key.
         bind_res (ordered_values table row [column]) (\<lambda>value. Inr (key @ value))))
       (List.product changed_columns rows)) (\<lambda>assigned.
     bind_res (collect_res (\<lambda>row. primary_key_params table (dr_primary_key row) ''update filter primary key'') rows)
       (\<lambda>filters. Inr (concat assigned @ concat filters)))"

definition build_strict_update_rows_statement :: "sync_table \<Rightarrow> database_row list \<Rightarrow> sql_statement sql_res" where
  "build_strict_update_rows_statement table rows =
     (let changed_columns = non_primary_columns table;
          assignments = join_str '', '' (map (\<lambda>column. strict_case_assignment table column (length rows)) changed_columns);
          row_filter = primary_key_row_filter (st_primary_key table) (length rows);
          order_by = quote_ident_list (st_primary_key table) in
      bind_res (ordered_update_params table changed_columns rows) (\<lambda>params.
        Inr \<lparr>ss_sql = ''UPDATE '' @ quote_ident (st_name table) @ '' SET '' @ assignments @ '' WHERE '' @ row_filter @
               '' ORDER BY '' @ order_by,
             ss_params = params\<rparr>))"

definition build_strict_delete_rows_statement :: "sync_table \<Rightarrow> row_key list \<Rightarrow> sql_statement sql_res" where
  "build_strict_delete_rows_statement table primary_keys =
     bind_res (collect_res (\<lambda>primary_key. primary_key_params table primary_key ''delete primary key'') primary_keys)
       (\<lambda>params.
          Inr \<lparr>ss_sql = ''DELETE FROM '' @ quote_ident (st_name table) @ '' WHERE '' @
                 primary_key_row_filter (st_primary_key table) (length primary_keys),
               ss_params = concat params\<rparr>)"

section \<open>Batch capacities\<close>

text \<open>\<open>src/src/sync/mysql.rs\<close>: how many rows a statement may carry. Table shapes are far below
  \<open>usize::MAX\<close>, so the saturating operations are written out with that bound.\<close>

definition usize_max :: nat where "usize_max = 2 ^ 64 - 1"

definition sat_add :: "nat \<Rightarrow> nat \<Rightarrow> nat" where "sat_add a b = min usize_max (a + b)"
definition sat_mul :: "nat \<Rightarrow> nat \<Rightarrow> nat" where "sat_mul a b = min usize_max (a * b)"

definition bounded_mutation_capacity :: "nat \<Rightarrow> nat" where
  "bounded_mutation_capacity placeholders_per_row =
     min 128 (max 1 (65535 div max placeholders_per_row 1))"

definition strict_insert_batch_capacity :: "sync_table \<Rightarrow> nat" where
  "strict_insert_batch_capacity table = bounded_mutation_capacity (length (st_columns table))"

definition strict_update_batch_capacity :: "sync_table \<Rightarrow> nat" where
  "strict_update_batch_capacity table =
     (let changed_column_count = length (st_columns table) - length (st_primary_key table);
          placeholders_per_row = sat_add (sat_mul changed_column_count
            (sat_add (length (st_primary_key table)) 1)) (length (st_primary_key table)) in
      bounded_mutation_capacity placeholders_per_row)"

definition strict_delete_batch_capacity :: "sync_table \<Rightarrow> nat" where
  "strict_delete_batch_capacity table = bounded_mutation_capacity (length (st_primary_key table))"


section \<open>Counting placeholders\<close>

abbreviation question_mark :: char where "question_mark \<equiv> CHR ''?''"

definition placeholders :: "string \<Rightarrow> nat" where
  "placeholders s = count_list s question_mark"

definition names_plain :: "sync_table \<Rightarrow> bool" where
  "names_plain table = (question_mark \<notin> set (st_name table) \<and>
     (\<forall>c \<in> set (st_columns table) \<union> set (st_primary_key table). question_mark \<notin> set c))"

lemma placeholders_append [simp]: "placeholders (a @ b) = placeholders a + placeholders b"
  by (simp add: placeholders_def)

lemma placeholders_Nil [simp]: "placeholders [] = 0"
  by (simp add: placeholders_def)

lemma placeholders_Cons [simp]: "placeholders (c # s) = (if c = question_mark then 1 else 0) + placeholders s"
  by (simp add: placeholders_def)

lemma placeholders_replace:
  "question_mark \<notin> set s \<Longrightarrow> placeholders b = 0 \<Longrightarrow> placeholders (replace_char c b s) = 0"
  by (induction s) auto

lemma placeholders_quote [simp]: "question_mark \<notin> set s \<Longrightarrow> placeholders (quote_ident s) = 0"
proof -
  assume s: "question_mark \<notin> set s"
  have "placeholders [backtick] = 0" "placeholders [backtick, backtick] = 0"
    by (simp_all add: backtick_def)
  then show ?thesis unfolding quote_ident_def placeholders_append using placeholders_replace [OF s] by simp
qed

lemma placeholders_join: "placeholders sep = 0 \<Longrightarrow> placeholders (join_str sep xs) = sum_list (map placeholders xs)"
  by (induction sep xs rule: join_str.induct) simp_all

lemma sum_placeholders_0: "(\<And>x. x \<in> set xs \<Longrightarrow> placeholders (f x) = 0) \<Longrightarrow> sum_list (map (\<lambda>x. placeholders (f x)) xs) = 0"
  by (induction xs) simp_all

lemma sum_placeholders_const:
  "(\<And>x. x \<in> set xs \<Longrightarrow> placeholders (f x) = n) \<Longrightarrow> sum_list (map (\<lambda>x. placeholders (f x)) xs) = n * length xs"
  by (induction xs) simp_all

lemma placeholders_ident_list:
  "(\<And>c. c \<in> set cs \<Longrightarrow> question_mark \<notin> set c) \<Longrightarrow> placeholders (quote_ident_list cs) = 0"
  by (simp add: quote_ident_list_def placeholders_join sum_placeholders_0 comp_def)

lemma placeholders_rows [simp]: "placeholders (row_placeholders m n) = n * m"
  by (simp add: row_placeholders_def placeholders_join sum_list_replicate)

lemma placeholders_filter:
  "(\<And>c. c \<in> set pk \<Longrightarrow> question_mark \<notin> set c) \<Longrightarrow> placeholders (primary_key_row_filter pk n) = n * length pk"
  by (auto simp: primary_key_row_filter_def placeholders_join sum_list_replicate placeholders_ident_list length_Suc_conv)

lemma placeholders_predicates:
  "(\<And>c. c \<in> set pk \<Longrightarrow> question_mark \<notin> set c) \<Longrightarrow>
   placeholders (join_str '' AND '' (primary_key_predicates pk)) = length pk"
  by (induction pk) (simp_all add: primary_key_predicates_def placeholders_join)

lemma placeholders_case:
  assumes "names_plain table" "question_mark \<notin> set column"
  shows "placeholders (strict_case_assignment table column n) = n * (length (st_primary_key table) + 1)"
proof -
  have "placeholders (join_str '' AND '' (primary_key_predicates (st_primary_key table))) = length (st_primary_key table)"
    using assms(1) by (intro placeholders_predicates) (auto simp: names_plain_def)
  then have "sum_list (map placeholders (primary_key_predicates (st_primary_key table))) = length (st_primary_key table)"
    by (simp add: placeholders_join)
  then show ?thesis
    using assms(2) by (simp add: strict_case_assignment_def Let_def placeholders_join sum_list_replicate)
qed

lemma collect_concat_length:
  "collect_res f xs = Inr ys \<Longrightarrow> (\<And>x y. x \<in> set xs \<Longrightarrow> f x = Inr y \<Longrightarrow> length y = n) \<Longrightarrow>
   length (concat ys) = length xs * n"
proof (induction xs arbitrary: ys)
  case (Cons x xs)
  obtain y zs where z: "f x = Inr y" "collect_res f xs = Inr zs" "ys = y # zs"
    using Cons.prems(1) by (auto split: sum.splits)
  have "length (concat zs) = length xs * n" 
    by (rule Cons.IH [OF z(2)]) (use Cons.prems(2) in auto)
  moreover have "length y = n" using Cons.prems(2) [of x y] z(1) by simp
  ultimately show ?case using z(3) by simp
qed simp

lemma ordered_values_length: "ordered_values table row cs = Inr vs \<Longrightarrow> length vs = length cs"
  unfolding ordered_values_def by (rule collect_res_length)

lemma key_params_length: "primary_key_params table pk label = Inr vs \<Longrightarrow> length vs = length (st_primary_key table)"
  by (auto simp: primary_key_params_def dest: collect_res_length split: if_splits)

lemma insert_statement_shape:
  assumes "names_plain table" "build_strict_insert_statement table rows = Inr st"
  shows "placeholders (ss_sql st) = length (ss_params st) \<and>
     length (ss_params st) = length rows * length (st_columns table)"
proof -
  obtain ps where ps: "collect_res (\<lambda>row. ordered_values table row (st_columns table)) rows = Inr ps"
    "ss_params st = concat ps"
    "ss_sql st = ''INSERT INTO '' @ quote_ident (st_name table) @ '' ('' @ quote_ident_list (st_columns table) @
              '') VALUES '' @ row_placeholders (length (st_columns table)) (length rows)"
    using assms(2) by (auto simp: build_strict_insert_statement_def)
  have "length (concat ps) = length rows * length (st_columns table)"
    using ps(1) by (rule collect_concat_length) (rule ordered_values_length)
  moreover have "placeholders (ss_sql st) = length rows * length (st_columns table)"
    using assms(1) unfolding ps(3) by (simp add: names_plain_def placeholders_ident_list)
  ultimately show ?thesis using ps(2) by simp
qed

lemma delete_statement_shape:
  assumes "names_plain table" "build_strict_delete_rows_statement table keys = Inr st"
  shows "placeholders (ss_sql st) = length (ss_params st) \<and>
     length (ss_params st) = length keys * length (st_primary_key table)"
proof -
  obtain ps where ps: "collect_res (\<lambda>k. primary_key_params table k ''delete primary key'') keys = Inr ps"
    "ss_params st = concat ps"
    "ss_sql st = ''DELETE FROM '' @ quote_ident (st_name table) @ '' WHERE '' @
                 primary_key_row_filter (st_primary_key table) (length keys)"
    using assms(2) by (auto simp: build_strict_delete_rows_statement_def)
  have "length (concat ps) = length keys * length (st_primary_key table)"
    using ps(1) by (rule collect_concat_length) (rule key_params_length)
  moreover have "placeholders (ss_sql st) = length keys * length (st_primary_key table)"
    using assms(1) unfolding ps(3) by (simp add: names_plain_def placeholders_filter)
  ultimately show ?thesis using ps(2) by simp
qed

lemma update_params_length:
  assumes "ordered_update_params table cols rows = Inr ps"
  shows "length ps = length rows * (length cols * (length (st_primary_key table) + 1) + length (st_primary_key table))"
proof -
  let ?f = "\<lambda>(column, row).
         bind_res (primary_key_params table (dr_primary_key row) ''update primary key'') (\<lambda>key.
         bind_res (ordered_values table row [column]) (\<lambda>value. Inr (key @ value)))"
  obtain as fs where a: "collect_res ?f (List.product cols rows) = Inr as"
    and f: "collect_res (\<lambda>row. primary_key_params table (dr_primary_key row) ''update filter primary key'') rows = Inr fs"
    and ps: "ps = concat as @ concat fs"
    using assms by (auto simp: ordered_update_params_def)
  have "length (concat as) = length (List.product cols rows) * (length (st_primary_key table) + 1)"
    using a by (rule collect_concat_length) (auto dest!: key_params_length ordered_values_length)
  moreover have "length (concat fs) = length rows * length (st_primary_key table)"
    using f by (rule collect_concat_length) (rule key_params_length)
  ultimately show ?thesis unfolding ps by (simp add: length_product algebra_simps)
qed

lemma update_statement_shape:
  assumes "names_plain table" "build_strict_update_rows_statement table rows = Inr st"
  shows "placeholders (ss_sql st) = length (ss_params st) \<and>
     length (ss_params st) = length rows *
       (length (non_primary_columns table) * (length (st_primary_key table) + 1) + length (st_primary_key table))"
proof -
  let ?cols = "non_primary_columns table" and ?pk = "st_primary_key table"
  have params: "ordered_update_params table ?cols rows = Inr (ss_params st)"
    and sql: "ss_sql st = ''UPDATE '' @ quote_ident (st_name table) @ '' SET '' @
        join_str '', '' (map (\<lambda>column. strict_case_assignment table column (length rows)) ?cols) @ '' WHERE '' @
        primary_key_row_filter ?pk (length rows) @ '' ORDER BY '' @ quote_ident_list ?pk"
    using assms(2) by (auto simp: build_strict_update_rows_statement_def Let_def)
  have plain: "\<And>c. c \<in> set ?cols \<Longrightarrow> question_mark \<notin> set c" "\<And>c. c \<in> set ?pk \<Longrightarrow> question_mark \<notin> set c"
    "question_mark \<notin> set (st_name table)"
    using assms(1) by (auto simp: names_plain_def non_primary_columns_def)
  have "placeholders (join_str '', '' (map (\<lambda>column. strict_case_assignment table column (length rows)) ?cols))
      = length rows * (length ?pk + 1) * length ?cols"
    unfolding placeholders_join [of "'', ''", simplified] map_map comp_def
    by (rule sum_placeholders_const) (rule placeholders_case [OF assms(1) plain(1)])
  then have "placeholders (ss_sql st) = length rows * (length ?pk + 1) * length ?cols + length rows * length ?pk"
    using plain unfolding sql by (simp add: placeholders_filter placeholders_ident_list)
  then show ?thesis using update_params_length [OF params] by (simp add: algebra_simps)
qed

lemma capacity_code [code]:
  "bounded_mutation_capacity p = nat (min 128 (max 1 (65535 div max (int p) 1)))"
proof -
  have "int (65535 div max p 1) = 65535 div max (int p) 1" by (simp add: zdiv_int of_nat_max)
  then have "int (min 128 (max 1 (65535 div max p 1))) = min 128 (max 1 (65535 div max (int p) 1))"
    by (simp add: of_nat_min of_nat_max)
  then show ?thesis unfolding bounded_mutation_capacity_def by (metis nat_int)
qed

lemma sat_add_code [code]:
  "sat_add a b = (if int a + int b \<le> 2 ^ 64 - 1 then a + b else usize_max)"
  by (auto simp: sat_add_def usize_max_def min_def)

lemma sat_mul_code [code]:
  "sat_mul a b = (if int a * int b \<le> 2 ^ 64 - 1 then a * b else usize_max)"
proof -
  have "int a * int b \<le> 2 ^ 64 - 1 \<longleftrightarrow> a * b \<le> usize_max"
    unfolding usize_max_def by (simp flip: of_nat_mult)
  then show ?thesis by (simp add: sat_mul_def min_def)
qed

lemma capacity_fits:
  "n \<le> bounded_mutation_capacity p \<Longrightarrow> n * p \<le> 65535 \<or> n \<le> 1"
proof -
  assume n: "n \<le> bounded_mutation_capacity p"
  show ?thesis
  proof (cases "1 \<le> 65535 div max p 1")
    case True
    then have "n \<le> 65535 div max p 1" using n by (simp add: bounded_mutation_capacity_def)
    then have "n * max p 1 \<le> 65535" by (meson div_times_less_eq_dividend le_trans mult_le_mono1)
    moreover have "n * p \<le> n * max p 1" by simp
    ultimately show ?thesis by linarith
  next
    case False
    then show ?thesis using n by (simp add: bounded_mutation_capacity_def)
  qed
qed

lemma capacity_positive: "1 \<le> bounded_mutation_capacity p \<and> bounded_mutation_capacity p \<le> 128"
  by (simp add: bounded_mutation_capacity_def)

lemma non_primary_count:
  assumes "distinct (st_columns table)" "distinct (st_primary_key table)" "set (st_primary_key table) \<subseteq> set (st_columns table)"
  shows "length (non_primary_columns table) = length (st_columns table) - length (st_primary_key table)"
proof -
  have "set (non_primary_columns table) = set (st_columns table) - set (st_primary_key table)"
    by (auto simp: non_primary_columns_def)
  moreover have "distinct (non_primary_columns table)" using assms(1) by (simp add: non_primary_columns_def)
  ultimately show ?thesis
    using assms by (metis card_Diff_subset distinct_card finite_set)
qed


section \<open>Hexadecimal values\<close>

text \<open>\<open>HEX(column)\<close> of the server: two upper-case digits a byte.\<close>

definition hex_digit :: "nat \<Rightarrow> char" where
  "hex_digit d = char_of (if d < 10 then 48 + d else 55 + d)"

definition server_hex :: "string \<Rightarrow> string" where
  "server_hex bytes = concat (map (\<lambda>c. [hex_digit (of_char c div 16), hex_digit (of_char c mod 16)]) bytes)"

lemma decode_hex_digit_hex: "d < 16 \<Longrightarrow> decode_hex_digit (hex_digit d) = Inr (of_nat d)"
  by (auto simp: decode_hex_digit_def hex_digit_def Let_def of_char_int)

lemma hex_byte_value:
  assumes "n < 256"
  shows "uint (push_bit 4 (of_nat (n div 16) :: u8) OR of_nat (n mod 16)) = int n"
proof -
  have "push_bit 4 (of_nat (n div 16) :: u8) OR of_nat (n mod 16) = of_nat (push_bit 4 (n div 16) OR (n mod 16))"
    by (simp add: of_nat_push_bit of_nat_or_eq)
  moreover have "push_bit 4 (drop_bit 4 n) OR take_bit 4 n = n"
    by (rule bit_eqI) (auto simp: bit_simps)
  then have "push_bit 4 (n div 16) OR (n mod 16) = n"
    by (simp add: drop_bit_eq_div take_bit_eq_mod)
  ultimately show ?thesis using assms by (simp add: uint_nat unat_of_nat)
qed

lemma decode_hex_byte_hex:
  "decode_hex_byte (hex_digit (of_char c div 16), hex_digit (of_char c mod 16)) =
     Inr (push_bit 4 (of_nat (of_char c div 16)) OR of_nat (of_char c mod 16))"
proof -
  have "(of_char c :: nat) < 256" by (rule nat_of_char_less_256)
  then have "(of_char c :: nat) div 16 < 16" "(of_char c :: nat) mod 16 < 16"
    by (simp_all add: div_less_iff_less_mult)
  then show ?thesis by (simp add: decode_hex_byte_def decode_hex_digit_hex)
qed

lemma collect_server_hex:
  "collect_res decode_hex_byte (as_chunks2 (server_hex bytes)) =
     Inr (map (\<lambda>c. push_bit 4 (of_nat (of_char c div 16)) OR of_nat (of_char c mod 16)) bytes)"
proof (induction bytes)
  case (Cons c bytes)
  have "server_hex (c # bytes) = hex_digit (of_char c div 16) # hex_digit (of_char c mod 16) # server_hex bytes"
    by (simp add: server_hex_def)
  then show ?case using Cons by (simp add: decode_hex_byte_hex)
qed (simp add: server_hex_def)

lemma server_hex_even: "length (server_hex bytes) mod 2 = 0"
  by (induction bytes) (simp_all add: server_hex_def)

lemma hex_bytes_server_hex: "hex_bytes_parameter_value table column (server_hex bytes) = Inr (SqlBytes bytes)"
proof -
  have "char_of (uint (push_bit 4 (of_nat (of_char c div 16) :: u8) OR of_nat (of_char c mod 16))) = c" for c :: char
    by (subst hex_byte_value) (simp_all add: nat_of_char_less_256)
  then show ?thesis
    by (simp add: hex_bytes_parameter_value_def server_hex_even collect_server_hex comp_def)
qed

section \<open>No panic\<close>

lemma index_at_ok [simp]: "i < length xs \<Longrightarrow> index_at xs i = Inr (xs ! i)"
  by (simp add: index_at_def)

lemma collect_res_all:
  "(\<And>x. x \<in> set xs \<Longrightarrow> f x = Inr (g x)) \<Longrightarrow> collect_res f xs = Inr (map g xs)"
  by (induction xs) simp_all

definition branch_text :: "string list \<Rightarrow> primary_key_ordering list \<Rightarrow> string list \<Rightarrow> string \<Rightarrow> nat \<Rightarrow> string" where
  "branch_text columns orders values operator i =
     ''('' @ join_str '' AND '' (map (\<lambda>j. quote_ident (columns ! j) @ '' = '' @ quote_sql_literal (values ! j)) [0..<i] @
       [primary_key_order_expression (columns ! i) (orders ! i) @ '' '' @ operator @ '' '' @
        primary_key_bound_expression (values ! i) (orders ! i)]) @ '')''"

lemma bound_branch_text:
  assumes "length orders = length columns" "length values = length columns" "i < length columns"
  shows "primary_key_bound_branch columns orders values i operator = Inr (branch_text columns orders values operator i)"
proof -
  have "collect_res (\<lambda>j. bind_res (index_at columns j) (\<lambda>column. bind_res (index_at values j) (\<lambda>value.
      Inr (quote_ident column @ '' = '' @ quote_sql_literal value)))) [0..<i] =
    Inr (map (\<lambda>j. quote_ident (columns ! j) @ '' = '' @ quote_sql_literal (values ! j)) [0..<i])"
    by (rule collect_res_all) (use assms in simp)
  then show ?thesis using assms by (simp add: primary_key_bound_branch_def branch_text_def)
qed

lemma bound_predicate_total:
  assumes "length orders = length columns" "length values = length columns"
  shows "\<exists>p. primary_key_bound_predicate columns orders values operator = Inr p"
proof -
  have "collect_res (\<lambda>i. primary_key_bound_branch columns orders values i operator) [0..<length columns] =
    Inr (map (branch_text columns orders values operator) [0..<length columns])"
    by (rule collect_res_all) (use bound_branch_text [OF assms] in simp)
  then show ?thesis by (simp add: primary_key_bound_predicate_def)
qed

lemma bound_predicates_total:
  assumes "length (st_primary_key_ordering table) = length (st_primary_key table)"
    and "\<forall>c. rq_start_after request = Some c \<longrightarrow> length c = length (st_primary_key table)"
    and "\<forall>c. rq_end_at request = Some c \<longrightarrow> length c = length (st_primary_key table)"
  shows "\<exists>ps. sync_bound_predicates table request = Inr ps"
proof -
  have one: "\<exists>p. primary_key_bound_predicate (st_primary_key table) (st_primary_key_ordering table) c ''>'' = Inr p"
    if "rq_start_after request = Some c \<or> rq_end_at request = Some c" for c
    using bound_predicate_total [OF assms(1)] assms(2,3) that by blast
  obtain lo where lo: "(case rq_start_after request of None \<Rightarrow> Inr []
       | Some c \<Rightarrow> bind_res (primary_key_bound_predicate (st_primary_key table) (st_primary_key_ordering table)
                       c ''>'') (\<lambda>p. Inr [p])) = Inr lo"
    using one by (cases "rq_start_after request") fastforce+
  obtain hi where hi: "(case rq_end_at request of None \<Rightarrow> Inr []
       | Some c \<Rightarrow> bind_res (primary_key_bound_predicate (st_primary_key table) (st_primary_key_ordering table)
                       c ''>'') (\<lambda>p. Inr [''NOT '' @ p])) = Inr hi"
    using one by (cases "rq_end_at request") fastforce+
  show ?thesis unfolding sync_bound_predicates_def lo hi by simp
qed


section \<open>Properties\<close>

text \<open>C15. A batch within its capacity makes a statement the server can prepare: the number of
  question marks of the text is the number of parameters, and it is at most 65535 unless a single
  row already exceeds that. Stated for inserts, updates and deletes of a table whose names contain
  no question mark.\<close>

theorem strict_statements_fit:
  assumes "names_plain table" "distinct (st_columns table)" "distinct (st_primary_key table)"
    "set (st_primary_key table) \<subseteq> set (st_columns table)"
    "length (st_columns table) < 2 ^ 16"
  shows "(\<forall>st. build_strict_insert_statement table rows = Inr st \<and> length rows \<le> strict_insert_batch_capacity table \<longrightarrow>
       placeholders (ss_sql st) = length (ss_params st) \<and> (length (ss_params st) \<le> 65535 \<or> length rows \<le> 1)) \<and>
     (\<forall>st. build_strict_update_rows_statement table rows = Inr st \<and> length rows \<le> strict_update_batch_capacity table \<longrightarrow>
       placeholders (ss_sql st) = length (ss_params st) \<and> (length (ss_params st) \<le> 65535 \<or> length rows \<le> 1)) \<and>
     (\<forall>st. build_strict_delete_rows_statement table keys = Inr st \<and> length keys \<le> strict_delete_batch_capacity table \<longrightarrow>
       placeholders (ss_sql st) = length (ss_params st) \<and> (length (ss_params st) \<le> 65535 \<or> length keys \<le> 1))"
proof (intro conjI allI impI)
  let ?n = "length (st_columns table)" and ?k = "length (st_primary_key table)"
  have k: "?k \<le> ?n" using assms by (metis card_mono distinct_card finite_set)
  have small: "(?n - ?k) * (?k + 1) + ?k < 2 ^ 40"
  proof -
    have "(?n - ?k) * (?k + 1) \<le> 2 ^ 16 * 2 ^ 16" using assms(5) k by (intro mult_le_mono) simp_all
    then show ?thesis using assms(5) k by simp
  qed
  then have cap: "strict_update_batch_capacity table = bounded_mutation_capacity ((?n - ?k) * (?k + 1) + ?k)"
    using assms(5) k by (simp add: strict_update_batch_capacity_def sat_add_def sat_mul_def usize_max_def Let_def)
  fix st
  { assume "build_strict_insert_statement table rows = Inr st \<and> length rows \<le> strict_insert_batch_capacity table"
    then show "placeholders (ss_sql st) = length (ss_params st)" "length (ss_params st) \<le> 65535 \<or> length rows \<le> 1"
      using insert_statement_shape [OF assms(1), of rows st] capacity_fits [of "length rows" ?n]
      by (simp_all add: strict_insert_batch_capacity_def) }
  { assume "build_strict_update_rows_statement table rows = Inr st \<and> length rows \<le> strict_update_batch_capacity table"
    then show "placeholders (ss_sql st) = length (ss_params st)" "length (ss_params st) \<le> 65535 \<or> length rows \<le> 1"
      using update_statement_shape [OF assms(1), of rows st] capacity_fits [of "length rows" "(?n - ?k) * (?k + 1) + ?k"]
        non_primary_count [OF assms(2,3,4)] cap by simp_all }
  { assume "build_strict_delete_rows_statement table keys = Inr st \<and> length keys \<le> strict_delete_batch_capacity table"
    then show "placeholders (ss_sql st) = length (ss_params st)" "length (ss_params st) \<le> 65535 \<or> length keys \<le> 1"
      using delete_statement_shape [OF assms(1), of keys st] capacity_fits [of "length keys" ?k]
      by (simp_all add: strict_delete_batch_capacity_def) }
qed

definition example_table :: sync_table where
  "example_table =
     \<lparr>st_name = ''orders'', st_primary_key = [''id'', ''kind''], st_primary_key_ordering = [Native, EnumOrder [''a'', ''b'']],
      st_columns = [''id'', ''kind'', ''flag'', ''data'', ''note''], st_bit_columns = [''flag''],
      st_enum_columns = [(''kind'', [''a'', ''b''])], st_mediumblob_columns = [''data'']\<rparr>"

definition example_row :: database_row where
  "example_row = \<lparr>dr_primary_key = [''7'', ''b''],
     dr_values = [(''data'', Some ''0aFF''), (''flag'', Some ''1''), (''id'', Some ''7''), (''kind'', Some ''2''), (''note'', None)]\<rparr>"

definition example_update :: sql_statement where
  "example_update = (case build_strict_update_rows_statement example_table [example_row] of
     Inr st \<Rightarrow> st | Inl _ \<Rightarrow> \<lparr>ss_sql = [], ss_params = []\<rparr>)"

theorem strict_statements_fit_witness:
  "build_strict_update_rows_statement example_table [example_row] = Inr example_update \<and>
   placeholders (ss_sql example_update) = length (ss_params example_update) \<and> length (ss_params example_update) = 11"
proof -
  have built: "build_strict_update_rows_statement example_table [example_row] = Inr example_update"
    by code_simp
  have cap: "length [example_row] \<le> strict_update_batch_capacity example_table"
    by (simp add: strict_update_batch_capacity_def bounded_mutation_capacity_def Let_def)
  have wf: "names_plain example_table" "distinct (st_columns example_table)" "distinct (st_primary_key example_table)"
    "set (st_primary_key example_table) \<subseteq> set (st_columns example_table)"
    "length (st_columns example_table) < 2 ^ 16"
    by (simp_all add: example_table_def names_plain_def)
  have "length (ss_params example_update) = 11" by code_simp
  then show ?thesis
    using strict_statements_fit [OF wf, of "[example_row]" "[]"] built cap by blast
qed

text \<open>C16. Quoting is safe: whatever the name or value contains, the server reads the quoted text
  back as exactly that name or value and continues after it.\<close>

theorem quoting_reads_back:
  assumes "rest = [] \<or> hd rest \<noteq> backtick \<and> hd rest \<noteq> apostrophe"
  shows "lex_ident (quote_ident s @ rest) = Some (s, rest) \<and>
     lex_literal (quote_sql_literal s @ rest) = Some (s, rest)"
  using assms lex_ident_quote lex_literal_quote by blast

theorem quoting_reads_back_witness:
  "lex_ident (quote_ident [backtick, CHR ''x'', apostrophe] @ '' = 1'') = Some ([backtick, CHR ''x'', apostrophe], '' = 1'')"
  using quoting_reads_back [of "'' = 1''" "[backtick, CHR ''x'', apostrophe]"]
  by (simp add: backtick_def apostrophe_def)

text \<open>A \<open>MEDIUMBLOB\<close> value survives the trip through \<open>HEX()\<close>: the parameter built from what
  the server returned is the original bytes.\<close>

theorem blob_parameter_roundtrip:
  assumes "column \<in> set (st_mediumblob_columns table)" "column \<notin> set (st_bit_columns table)"
    "map_of (st_enum_columns table) column = None"
  shows "parameter_value table column (server_hex bytes) = Inr (SqlBytes bytes)"
  using assms by (simp add: parameter_value_def hex_bytes_server_hex)

text \<open>Building a keyset read never panics when the table has one ordering per key column and
  the cursors have the width of the key.\<close>

theorem select_sql_total:
  assumes "length (st_primary_key_ordering table) = length (st_primary_key table)"
    and "\<forall>c. rq_start_after request = Some c \<longrightarrow> length c = length (st_primary_key table)"
    and "\<forall>c. rq_end_at request = Some c \<longrightarrow> length c = length (st_primary_key table)"
  shows "\<exists>sql. build_sync_select_sql table request = Inr sql"
  using bound_predicates_total [OF assms] unfolding build_sync_select_sql_def by (auto simp: Let_def)

end
