(* ===== verification/Sync_Adapter.thy ===== *)
theory Sync_Adapter
  imports Sync_Chunk Sync_Sql Component_Locks
begin

text \<open>
  The MySQL side of a chunk run (\<open>src/src/sync/mysql.rs\<close>, \<open>src/src/sync/mysql/query.rs\<close>,
  \<open>src/src/sync/mysql/unique_owner.rs\<close>): decoding of result rows, byte-bounded pages, batched
  strict mutations with matched-row checks, unique-owner inspection and repair, and the progress
  rows. The \<open>mysql\<close> crate and the server behind it are the record \<open>mysql_server\<close>; each of its
  operations takes the statement that is sent and, beside it, the data the statement was built
  from. The foreign-key repairs of \<open>src/src/sync/mysql/fk_transition.rs\<close> are the optional record
  \<open>transition_ops\<close>. A panic inside a statement builder is reported as an error of the call.
\<close>

section \<open>Errors\<close>

datatype adapter_error =
    BuildError "sync_sql_error fault"
  | ServerError string string
  | FieldCount nat nat
  | KeyNotSelected string
  | KeyNull string
  | EnumKeyInvalid string string string
  | EnumKeyZero string string
  | EnumKeyOutside string string nat
  | ExactRowMany string nat string
  | MatchedRows string u64 nat
  | LockIdentity string string string string
  | DuplicateWithoutIndex string
  | DuplicateIndexAbsent string string
  | DuplicateIndexAmbiguous string string "string list"
  | DuplicateIndexPrimary string
  | IndexMetadataAbsent string string
  | IndexNonContiguous string string
  | IndexPrefixed string string
  | IndexExpression string string
  | IndexWithoutColumns string string
  | OwnerIntendedKey string string
  | OwnerIdentityDisagrees string string
  | OwnerIdentityValue unique_value_error
  | OwnerEvidenceAmbiguous string string
  | OwnerEvidenceAbsent string string
  | NotADuplicate string
  | VerificationFailed string
  | IdentityStillOwned string string
  | MutationFailed sync_mutation_failure
  | ComponentLock component_error
  | ProgressStage sync_stage
  | ProgressInError string string "string option"

section \<open>Result rows\<close>

type_synonym cells = "string option list"

definition required_primary_key_value ::
  "sync_table \<Rightarrow> string \<Rightarrow> row_values \<Rightarrow> adapter_error + string"
where
  "required_primary_key_value table column values =
     bind_res (ok_or (KeyNotSelected column) (map_of values column)) (\<lambda>value.
     bind_res (ok_or (KeyNull column) value) (\<lambda>value.
       case map_of (st_enum_columns table) column of
         None \<Rightarrow> Inr value
       | Some labels \<Rightarrow>
           bind_res (ok_or (EnumKeyInvalid column (st_name table) value) (parse_u64 value)) (\<lambda>ordinal.
             if ordinal = 0 then Inl (EnumKeyZero column (st_name table))
             else if unat ordinal - 1 < length labels then Inr (labels ! (unat ordinal - 1))
             else Inl (EnumKeyOutside column (st_name table) (unat ordinal)))))"

definition decode_sync_row :: "sync_table \<Rightarrow> cells \<Rightarrow> adapter_error + database_row" where
  "decode_sync_row table cells =
     (if length cells \<noteq> length (st_columns table) then
        Inl (FieldCount (length cells) (length (st_columns table)))
      else
        let values = btm_collect (zip (st_columns table) cells) in
        bind_res (collect_res (\<lambda>column. required_primary_key_value table column values) (st_primary_key table))
          (\<lambda>primary_key. Inr \<lparr>dr_primary_key = primary_key, dr_values = values\<rparr>))"

definition decode_sync_rows :: "sync_table \<Rightarrow> cells list \<Rightarrow> adapter_error + database_row list" where
  "decode_sync_rows table rows = collect_res (decode_sync_row table) rows"

definition decode_optional_exact_row ::
  "sync_table \<Rightarrow> cells list \<Rightarrow> string \<Rightarrow> adapter_error + database_row option"
where
  "decode_optional_exact_row table rows endpoint =
     bind_res (decode_sync_rows table rows) (\<lambda>decoded. case decoded of
         [] \<Rightarrow> Inr None
       | [row] \<Rightarrow> Inr (Some row)
       | _ \<Rightarrow> Inl (ExactRowMany endpoint (length decoded) (st_name table)))"

section \<open>Byte-bounded pages\<close>

text \<open>Byte counts are \<open>usize\<close> values with saturating addition.\<close>

definition usize_add :: "int \<Rightarrow> int \<Rightarrow> int" where
  "usize_add a b = min (2 ^ 64 - 1) (a + b)"

definition projected_row_payload_bytes :: "database_row \<Rightarrow> int" where
  "projected_row_payload_bytes row =
     foldl (\<lambda>total v. usize_add total (int (length v))) 0 (List.map_filter snd (dr_values row))"

record row_collector =
  rc_rows :: "database_row list"
  rc_retained_bytes :: int
  rc_row_limit :: nat
  rc_byte_budget :: int

definition collector_new :: "nat \<Rightarrow> int \<Rightarrow> row_collector" where
  "collector_new row_limit byte_budget =
     \<lparr>rc_rows = [], rc_retained_bytes = 0, rc_row_limit = row_limit, rc_byte_budget = byte_budget\<rparr>"

definition can_retain :: "row_collector \<Rightarrow> database_row \<Rightarrow> bool" where
  "can_retain c row =
     (if length (rc_rows c) = rc_row_limit c then False
      else rc_rows c = [] \<or>
        usize_add (rc_retained_bytes c) (projected_row_payload_bytes row) \<le> rc_byte_budget c)"

definition retain :: "row_collector \<Rightarrow> database_row \<Rightarrow> row_collector" where
  "retain c row =
     c\<lparr>rc_retained_bytes := usize_add (rc_retained_bytes c) (projected_row_payload_bytes row),
       rc_rows := rc_rows c @ [row]\<rparr>"

definition finish :: "row_collector \<Rightarrow> bool \<Rightarrow> sync_chunk_page" where
  "finish c has_more =
     \<lparr>pg_rows = rc_rows c, pg_has_more = has_more \<or> length (rc_rows c) = rc_row_limit c\<rparr>"

definition max_sync_page_payload_bytes :: int where
  "max_sync_page_payload_bytes = 64 * 1024 * 1024"

fun drain_unretained_rows :: "string \<Rightarrow> (string + cells) list \<Rightarrow> adapter_error + unit" where
  "drain_unretained_rows endpoint [] = Inr ()"
| "drain_unretained_rows endpoint (Inl error # rows) = Inl (ServerError endpoint error)"
| "drain_unretained_rows endpoint (Inr row # rows) = drain_unretained_rows endpoint rows"

fun collect_page ::
  "string \<Rightarrow> sync_table \<Rightarrow> row_collector \<Rightarrow> (string + cells) list \<Rightarrow> adapter_error + sync_chunk_page"
where
  "collect_page endpoint table c [] = Inr (finish c False)"
| "collect_page endpoint table c (Inl error # rows) = Inl (ServerError endpoint error)"
| "collect_page endpoint table c (Inr row # rows) =
     (case decode_sync_row table row of
        Inl e \<Rightarrow> Inl e
      | Inr decoded \<Rightarrow>
          if \<not> can_retain c decoded then
            bind_res (drain_unretained_rows endpoint rows) (\<lambda>_. Inr (finish c True))
          else collect_page endpoint table (retain c decoded) rows)"

section \<open>The server\<close>

record unique_index_column =
  uic_index :: string
  uic_column :: "string option"
  uic_sequence :: u64
  uic_prefix_length :: "u64 option"

type_synonym exec_error = "u16 option \<times> string"

record 'w mysql_server =
  my_source_query :: "string \<Rightarrow> sync_chunk_read_request \<Rightarrow> ('w, string, (string + cells) list option) op"
  my_source_exact :: "sql_statement \<Rightarrow> row_key \<Rightarrow> ('w, string, cells list) op"
  my_target_query :: "string \<Rightarrow> sync_chunk_read_request \<Rightarrow> ('w, string, (string + cells) list option) op"
  my_target_exact :: "sql_statement \<Rightarrow> row_key \<Rightarrow> ('w, string, cells list) op"
  my_target_owner :: "sql_statement \<Rightarrow> sync_unique_index \<Rightarrow> database_row \<Rightarrow> ('w, string, cells list) op"
  my_unique_columns :: "sql_statement \<Rightarrow> ('w, string, unique_index_column list) op"
  my_insert :: "sql_statement \<Rightarrow> database_row list \<Rightarrow> ('w, exec_error, u64) op"
  my_update :: "sql_statement \<Rightarrow> database_row list \<Rightarrow> ('w, exec_error, u64) op"
  my_delete :: "sql_statement \<Rightarrow> row_key list \<Rightarrow> ('w, string, u64) op"
  my_control :: "string \<Rightarrow> ('w, string, unit) op"
  my_load_stage :: "string \<Rightarrow> sync_stage \<Rightarrow> string \<Rightarrow> ('w, string, sync_progress_row option) op"
  my_save_stage :: "sync_progress_row \<Rightarrow> ('w, string, unit) op"

record reconciliation_event =
  re_table :: string
  re_index :: string
  re_action :: string
  re_intended_primary_key :: row_key
  re_owner_primary_key :: row_key

record 'w session =
  se_server :: 'w
  se_pending :: "reconciliation_event list"
  se_log :: "reconciliation_event list"

record 'w transition_ops =
  tr_component :: "string list"
  tr_replace_owners :: "sync_mutation_failure \<Rightarrow> 'w session \<Rightarrow> ((string + bool) \<times> sync_mutation_failure) \<times> 'w session"
  tr_repair_prerequisites :: "database_row list \<Rightarrow> ('w session, string, unit) op"
  tr_repair_restricted :: "sync_mutation_failure \<Rightarrow> ('w session, string, unit) op"

record 'w target_session =
  ts_database :: string
  ts_table :: sync_table
  ts_transitions :: "'w transition_ops option"

type_synonym ('w, 'a) adapter_op = "('w session, adapter_error, 'a) op"

definition on_server :: "('w, 'e, 'a) op \<Rightarrow> ('w session, 'e, 'a) op" where
  "on_server m s = (case m (se_server s) of (r, w) \<Rightarrow> (r, s\<lparr>se_server := w\<rparr>))"

section \<open>Reads\<close>

definition query_sync_page_rows ::
  "(string \<Rightarrow> sync_chunk_read_request \<Rightarrow> ('w, string, (string + cells) list option) op) \<Rightarrow> sync_table
     \<Rightarrow> sync_chunk_read_request \<Rightarrow> string \<Rightarrow> ('w, sync_chunk_page) adapter_op"
where
  "query_sync_page_rows run_query table request endpoint =
     bind_op (lift_op (map_err BuildError (build_sync_select_sql table request))) (\<lambda>sql.
     bind_op (map_err_op (ServerError endpoint) (on_server (run_query sql request))) (\<lambda>result. case result of
         None \<Rightarrow> ret_op \<lparr>pg_rows = [], pg_has_more = False\<rparr>
       | Some rows \<Rightarrow>
           lift_op (collect_page endpoint table (collector_new (rq_limit request) max_sync_page_payload_bytes) rows)))"

definition source_read_row ::
  "'w mysql_server \<Rightarrow> sync_table \<Rightarrow> row_key \<Rightarrow> ('w, database_row option) adapter_op"
where
  "source_read_row srv table primary_key =
     bind_op (lift_op (map_err BuildError (build_exact_primary_key_select_statement table primary_key))) (\<lambda>statement.
     bind_op (map_err_op (ServerError ''source exact-row'') (on_server (my_source_exact srv statement primary_key)))
       (\<lambda>rows. lift_op (decode_optional_exact_row table rows ''source'')))"

definition query_exact_row ::
  "'w mysql_server \<Rightarrow> sync_table \<Rightarrow> row_key \<Rightarrow> ('w, database_row option) adapter_op"
where
  "query_exact_row srv table primary_key =
     bind_op (lift_op (map_err BuildError (build_exact_primary_key_select_statement table primary_key))) (\<lambda>statement.
     bind_op (map_err_op (ServerError ''target exact-row'') (on_server (my_target_exact srv statement primary_key)))
       (\<lambda>rows. lift_op (decode_optional_exact_row table rows ''target'')))"

definition query_unique_owner ::
  "'w mysql_server \<Rightarrow> sync_table \<Rightarrow> sync_unique_index \<Rightarrow> database_row \<Rightarrow> ('w, database_row option) adapter_op"
where
  "query_unique_owner srv table index intended =
     bind_op (lift_op (map_err BuildError (build_unique_owner_select_statement table index intended))) (\<lambda>statement.
     bind_op (map_err_op (ServerError ''target unique-owner'') (on_server (my_target_owner srv statement index intended)))
       (\<lambda>rows. lift_op (decode_optional_exact_row table rows ''target unique-owner'')))"

section \<open>Mutations\<close>

function chunks_of :: "nat \<Rightarrow> 'a list \<Rightarrow> 'a list list" where
  "chunks_of n xs = (if n = 0 \<or> xs = [] then [] else take n xs # chunks_of n (drop n xs))"
  by pat_completeness auto
termination by (relation "measure (\<lambda>(n, xs). length xs)") auto

declare chunks_of.simps [simp del]

lemma concat_chunks_of: "0 < n \<Longrightarrow> concat (chunks_of n xs) = xs"
proof (induction n xs rule: chunks_of.induct)
  case (1 n xs)
  then show ?case by (subst chunks_of.simps) simp
qed

definition require_matched_rows :: "sync_table \<Rightarrow> u64 \<Rightarrow> nat \<Rightarrow> adapter_error + unit" where
  "require_matched_rows table matched expected =
     (if matched = of_nat expected then Inr () else Inl (MatchedRows (st_name table) matched expected))"

definition build_sync_mutation_failure ::
  "database_row list \<Rightarrow> nat \<Rightarrow> nat \<Rightarrow> u16 option \<Rightarrow> string \<Rightarrow> (unit, sync_mutation_failure) res"
where
  "build_sync_mutation_failure rows failed_batch_start failed_batch_len mysql_code message =
     (let failed_batch_end = failed_batch_start + failed_batch_len in
      if failed_batch_end \<le> length rows then
        Inr \<lparr>mf_mysql_code = mysql_code, mf_message = message,
             mf_failed_batch = take failed_batch_len (drop failed_batch_start rows),
             mf_remaining_rows = drop failed_batch_end rows\<rparr>
      else Inl (Panic ''failed insert batch is in bounds''))"

definition mutation_error ::
  "(unit, sync_mutation_failure) res \<Rightarrow> sync_mutation_failure"
where
  "mutation_error built = (case built of
      Inr failure \<Rightarrow> failure
    | Inl _ \<Rightarrow> \<lparr>mf_mysql_code = None, mf_message = ''failed insert batch is in bounds'',
                mf_failed_batch = [], mf_remaining_rows = []\<rparr>)"

type_synonym 'w exec_rows = "sql_statement \<Rightarrow> database_row list \<Rightarrow> ('w, exec_error, u64) op"

definition exec_matched ::
  "(adapter_error \<Rightarrow> string) \<Rightarrow> sync_table \<Rightarrow> 'w exec_rows \<Rightarrow> sql_statement \<Rightarrow> database_row list
     \<Rightarrow> ('w session, exec_error, unit) op"
where
  "exec_matched render table exec statement rows =
     bind_op (map_err_op (\<lambda>(code, message). (code, ''target mysql statement failed: '' @ message))
               (on_server (exec statement rows)))
       (\<lambda>matched. lift_op (map_err (\<lambda>e. (None, render e)) (require_matched_rows table matched (length rows))))"

definition execute_mutation_batch ::
  "(adapter_error \<Rightarrow> string) \<Rightarrow> 'w target_session \<Rightarrow> 'w exec_rows \<Rightarrow> sql_statement \<Rightarrow> database_row list
     \<Rightarrow> bool \<Rightarrow> ('w session, exec_error, unit) op"
where
  "execute_mutation_batch render ts exec statement rows repair_fk_prerequisites w =
     (case on_server (exec statement rows) w of
        (Inr matched, w1) \<Rightarrow>
          lift_op (map_err (\<lambda>e. (None, render e)) (require_matched_rows (ts_table ts) matched (length rows))) w1
      | (Inl (code, message), w1) \<Rightarrow>
          if \<not> repair_fk_prerequisites \<or> code \<notin> {Some 1216, Some 1452} then
            (Inl (code, ''target mysql statement failed: '' @ message), w1)
          else
            bind_op (map_err_op (\<lambda>m. (code, m))
                      (case ts_transitions ts of
                         None \<Rightarrow> fail_op ''FK transitions not configured''
                       | Some tr \<Rightarrow> tr_repair_prerequisites tr rows))
              (\<lambda>_. exec_matched render (ts_table ts) exec statement rows) w1)"

fun execute_mutation_batches_loop ::
  "(adapter_error \<Rightarrow> string) \<Rightarrow> 'w target_session \<Rightarrow> 'w exec_rows
     \<Rightarrow> (sync_table \<Rightarrow> database_row list \<Rightarrow> sql_statement sql_res) \<Rightarrow> bool \<Rightarrow> database_row list \<Rightarrow> nat \<Rightarrow> nat
     \<Rightarrow> database_row list list \<Rightarrow> ('w session, sync_mutation_failure, unit) op"
where
  "execute_mutation_batches_loop render ts exec build repair rows capacity batch_index [] = ret_op ()"
| "execute_mutation_batches_loop render ts exec build repair rows capacity batch_index (batch # batches) =
     (let start = batch_index * capacity in
      bind_op (map_err_op (\<lambda>e. mutation_error
                 (build_sync_mutation_failure rows start (length batch) None (render (BuildError e))))
               (lift_op (build (ts_table ts) batch))) (\<lambda>statement.
      bind_op (map_err_op (\<lambda>(code, message). mutation_error
                 (build_sync_mutation_failure rows start (length batch) code message))
               (execute_mutation_batch render ts exec statement batch repair)) (\<lambda>_.
        execute_mutation_batches_loop render ts exec build repair rows capacity (batch_index + 1) batches)))"

definition execute_mutation_batches ::
  "(adapter_error \<Rightarrow> string) \<Rightarrow> 'w target_session \<Rightarrow> 'w exec_rows
     \<Rightarrow> (sync_table \<Rightarrow> database_row list \<Rightarrow> sql_statement sql_res) \<Rightarrow> bool \<Rightarrow> nat \<Rightarrow> database_row list
     \<Rightarrow> ('w session, sync_mutation_failure, unit) op"
where
  "execute_mutation_batches render ts exec build repair capacity rows =
     execute_mutation_batches_loop render ts exec build repair rows capacity 0 (chunks_of capacity rows)"

text \<open>The retry loop ends when a pass reports no replaceable owner; the fuel bounds the number of
  passes, and running out of it is a failure without a server code.\<close>

fun execute_mutations_with_owner_replacement ::
  "nat \<Rightarrow> (adapter_error \<Rightarrow> string) \<Rightarrow> 'w target_session \<Rightarrow> 'w exec_rows
     \<Rightarrow> (sync_table \<Rightarrow> database_row list \<Rightarrow> sql_statement sql_res) \<Rightarrow> bool \<Rightarrow> nat \<Rightarrow> database_row list
     \<Rightarrow> ('w session, sync_mutation_failure, unit) op"
where
  "execute_mutations_with_owner_replacement 0 render ts exec build repair capacity pending =
     fail_op \<lparr>mf_mysql_code = None, mf_message = ''fuel'', mf_failed_batch = [], mf_remaining_rows = pending\<rparr>"
| "execute_mutations_with_owner_replacement (Suc fuel) render ts exec build repair capacity pending = (\<lambda>w.
     case execute_mutation_batches render ts exec build repair capacity pending w of
       (Inr _, w1) \<Rightarrow> (Inr (), w1)
     | (Inl failure, w1) \<Rightarrow>
         (case ts_transitions ts of
            None \<Rightarrow> (Inl failure, w1)
          | Some tr \<Rightarrow>
              if mf_mysql_code failure \<noteq> Some 1062 then (Inl failure, w1)
              else (case tr_replace_owners tr failure w1 of
                  ((Inr True, failure'), w2) \<Rightarrow>
                    execute_mutations_with_owner_replacement fuel render ts exec build repair capacity
                      (retry_rows failure') w2
                | ((Inr False, failure'), w2) \<Rightarrow> (Inl failure', w2)
                | ((Inl message, failure'), w2) \<Rightarrow>
                    (Inl (failure'\<lparr>mf_mysql_code := None, mf_message := message\<rparr>), w2))))"

definition repair_restricted_updates ::
  "'w target_session \<Rightarrow> sync_mutation_failure \<Rightarrow> ('w session, sync_mutation_failure, unit) op"
where
  "repair_restricted_updates ts failure = (case ts_transitions ts of
      None \<Rightarrow> fail_op failure
    | Some tr \<Rightarrow>
        if mf_mysql_code failure \<notin> {Some 1217, Some 1451} then fail_op failure
        else map_err_op (\<lambda>message. failure\<lparr>mf_message := message\<rparr>) (tr_repair_restricted tr failure))"

definition target_update_rows ::
  "nat \<Rightarrow> (adapter_error \<Rightarrow> string) \<Rightarrow> 'w mysql_server \<Rightarrow> 'w target_session \<Rightarrow> database_row list
     \<Rightarrow> ('w session, sync_mutation_failure, unit) op"
where
  "target_update_rows fuel render srv ts rows w =
     (case execute_mutations_with_owner_replacement fuel render ts (my_update srv)
             build_strict_update_rows_statement False (strict_update_batch_capacity (ts_table ts)) rows w of
        (Inr _, w1) \<Rightarrow> (Inr (), w1)
      | (Inl failure, w1) \<Rightarrow> repair_restricted_updates ts failure w1)"

definition target_insert_rows ::
  "nat \<Rightarrow> (adapter_error \<Rightarrow> string) \<Rightarrow> 'w mysql_server \<Rightarrow> 'w target_session \<Rightarrow> database_row list
     \<Rightarrow> ('w session, sync_mutation_failure, unit) op"
where
  "target_insert_rows fuel render srv ts rows =
     execute_mutations_with_owner_replacement fuel render ts (my_insert srv)
       build_strict_insert_statement (ts_transitions ts \<noteq> None) (strict_insert_batch_capacity (ts_table ts)) rows"

definition build_strict_delete_batches :: "sync_table \<Rightarrow> row_key list \<Rightarrow> sql_statement list sql_res" where
  "build_strict_delete_batches table primary_keys =
     collect_res (build_strict_delete_rows_statement table) (chunks_of (strict_delete_batch_capacity table) primary_keys)"

fun execute_delete_batches ::
  "'w mysql_server \<Rightarrow> sync_table \<Rightarrow> (sql_statement \<times> row_key list) list \<Rightarrow> ('w, unit) adapter_op"
where
  "execute_delete_batches srv table [] = ret_op ()"
| "execute_delete_batches srv table ((statement, keys) # batches) =
     bind_op (map_err_op (ServerError ''target mysql statement failed'') (on_server (my_delete srv statement keys)))
       (\<lambda>matched. bind_op (lift_op (require_matched_rows table matched (length keys)))
          (\<lambda>_. execute_delete_batches srv table batches))"

definition target_delete_rows :: "'w mysql_server \<Rightarrow> sync_table \<Rightarrow> row_key list \<Rightarrow> ('w, unit) adapter_op" where
  "target_delete_rows srv table primary_keys =
     bind_op (lift_op (map_err BuildError (build_strict_delete_batches table primary_keys)))
       (\<lambda>batches. execute_delete_batches srv table
          (zip batches (chunks_of (strict_delete_batch_capacity table) primary_keys)))"

section \<open>Unique owners\<close>

definition duplicate_index_from_error :: "string \<Rightarrow> string option" where
  "duplicate_index_from_error error_text =
     (let marker = '' for key '' @ [apostrophe] in
      case find_text marker error_text of
        None \<Rightarrow> None
      | Some at \<Rightarrow>
          (let remainder = drop (at + length marker) error_text in
           case find_text [apostrophe] remainder of
             None \<Rightarrow> None
           | Some len \<Rightarrow> (let key = take len remainder in if key \<noteq> [] then Some key else None)))"

definition resolve_sync_unique_index_name ::
  "string \<Rightarrow> string \<Rightarrow> (string \<times> unique_index_column list) list \<Rightarrow> adapter_error + string"
where
  "resolve_sync_unique_index_name table error_index indexes =
     (if map_of indexes error_index \<noteq> None then Inr error_index
      else
        let matches = filter (\<lambda>index. text_ends_with error_index (''.'' @ index)) (map fst indexes) in
        case matches of
          [index] \<Rightarrow> Inr index
        | [] \<Rightarrow> Inl (DuplicateIndexAbsent error_index table)
        | _ \<Rightarrow> Inl (DuplicateIndexAmbiguous error_index table matches))"

definition resolve_full_unique_index_column ::
  "string \<Rightarrow> string \<Rightarrow> nat \<Rightarrow> unique_index_column \<Rightarrow> adapter_error + string"
where
  "resolve_full_unique_index_column table index position column =
     (if uic_sequence column \<noteq> of_nat (position + 1) then Inl (IndexNonContiguous index table)
      else if uic_prefix_length column \<noteq> None then Inl (IndexPrefixed index table)
      else ok_or (IndexExpression index table) (uic_column column))"

definition resolve_sync_unique_index ::
  "string \<Rightarrow> string \<Rightarrow> unique_index_column list \<Rightarrow> adapter_error + sync_unique_index"
where
  "resolve_sync_unique_index table error rows =
     bind_res (ok_or (DuplicateWithoutIndex table) (duplicate_index_from_error error)) (\<lambda>error_index.
       let indexes = fold (\<lambda>row m. btm_insert (uic_index row)
             ((case map_of m (uic_index row) of Some columns \<Rightarrow> columns | None \<Rightarrow> []) @ [row]) m) rows [] in
       bind_res (resolve_sync_unique_index_name table error_index indexes) (\<lambda>index_name.
         if index_name = ''PRIMARY'' then Inl (DuplicateIndexPrimary table)
         else
           bind_res (ok_or (IndexMetadataAbsent index_name table) (map_of indexes index_name)) (\<lambda>columns.
             let columns = sort_key uic_sequence columns in
             bind_res (collect_res (\<lambda>(position, column).
                 resolve_full_unique_index_column table index_name position column) (enumerate 0 columns)) (\<lambda>columns.
               if columns = [] then Inl (IndexWithoutColumns index_name table)
               else Inr \<lparr>ux_name = index_name, ux_columns = columns\<rparr>))))"

definition load_unique_index :: "'w mysql_server \<Rightarrow> 'w target_session \<Rightarrow> string \<Rightarrow> ('w, sync_unique_index) adapter_op" where
  "load_unique_index srv ts error =
     bind_op (map_err_op (ServerError ''query target unique indexes'')
               (on_server (my_unique_columns srv
                 (build_unique_index_columns_statement (ts_database ts) (st_name (ts_table ts))))))
       (\<lambda>rows. lift_op (resolve_sync_unique_index (st_name (ts_table ts)) error rows))"

definition validate_unique_owner ::
  "string \<Rightarrow> sync_unique_index \<Rightarrow> database_row \<Rightarrow> database_row \<Rightarrow> adapter_error + unit"
where
  "validate_unique_owner table index intended owner =
     (if dr_primary_key owner = dr_primary_key intended then Inl (OwnerIntendedKey (ux_name index) table)
      else
        bind_res (map_err OwnerIdentityValue (unique_index_values index intended ''intended'')) (\<lambda>intended_identity.
        bind_res (map_err OwnerIdentityValue (unique_index_values index owner ''target owner'')) (\<lambda>owner_identity.
          if owner_identity \<noteq> intended_identity then Inl (OwnerIdentityDisagrees (ux_name index) table)
          else Inr ())))"

fun collect_owner_conflicts ::
  "'w mysql_server \<Rightarrow> sync_table \<Rightarrow> sync_unique_index \<Rightarrow> row_key list \<Rightarrow> sync_unique_owner_conflict list
     \<Rightarrow> database_row list \<Rightarrow> ('w, sync_unique_owner_conflict list) adapter_op"
where
  "collect_owner_conflicts srv table index owner_primary_keys conflicts [] = ret_op conflicts"
| "collect_owner_conflicts srv table index owner_primary_keys conflicts (intended # batch) =
     bind_op (query_unique_owner srv table index intended) (\<lambda>found. case found of
         None \<Rightarrow> collect_owner_conflicts srv table index owner_primary_keys conflicts batch
       | Some owner \<Rightarrow>
           if dr_primary_key owner = dr_primary_key intended then
             collect_owner_conflicts srv table index owner_primary_keys conflicts batch
           else
             bind_op (lift_op (validate_unique_owner (st_name table) index intended owner)) (\<lambda>_.
               if dr_primary_key owner \<in> set owner_primary_keys then
                 fail_op (OwnerEvidenceAmbiguous (st_name table) (ux_name index))
               else collect_owner_conflicts srv table index (bts_insert (dr_primary_key owner) owner_primary_keys)
                      (conflicts @ [\<lparr>uc_index = index, uc_intended = intended, uc_owner = owner\<rparr>]) batch))"

definition target_inspect_conflicts ::
  "'w mysql_server \<Rightarrow> 'w target_session \<Rightarrow> sync_mutation_failure \<Rightarrow> ('w, sync_unique_owner_conflict list) adapter_op"
where
  "target_inspect_conflicts srv ts failure =
     (if mf_mysql_code failure \<noteq> Some 1062 then fail_op (NotADuplicate (mf_message failure))
      else
        bind_op (load_unique_index srv ts (mf_message failure)) (\<lambda>index.
        bind_op (collect_owner_conflicts srv (ts_table ts) index [] [] (mf_failed_batch failure)) (\<lambda>conflicts.
          if conflicts = [] then fail_op (OwnerEvidenceAbsent (st_name (ts_table ts)) (ux_name index))
          else ret_op conflicts)))"

definition verify_exact_row :: "database_row option \<Rightarrow> database_row option \<Rightarrow> string \<Rightarrow> adapter_error + unit" where
  "verify_exact_row actual expected label =
     (if actual = expected then Inr () else Inl (VerificationFailed label))"

definition verify_unique_identity_unowned ::
  "'w mysql_server \<Rightarrow> 'w target_session \<Rightarrow> sync_unique_owner_conflict \<Rightarrow> ('w, unit) adapter_op"
where
  "verify_unique_identity_unowned srv ts conflict =
     bind_op (query_unique_owner srv (ts_table ts) (uc_index conflict) (uc_intended conflict)) (\<lambda>owner.
       if owner = None then ret_op ()
       else fail_op (IdentityStillOwned (ux_name (uc_index conflict)) (st_name (ts_table ts))))"

definition unique_owner_reconciliation_event ::
  "string \<Rightarrow> sync_unique_owner_conflict \<Rightarrow> sync_unique_owner_action \<Rightarrow> reconciliation_event"
where
  "unique_owner_reconciliation_event table conflict action =
     \<lparr>re_table = table, re_index = ux_name (uc_index conflict), re_action = owner_action_as_str action,
      re_intended_primary_key = dr_primary_key (uc_intended conflict),
      re_owner_primary_key = dr_primary_key (uc_owner conflict)\<rparr>"

definition push_event :: "reconciliation_event \<Rightarrow> ('w session, 'e, unit) op" where
  "push_event event s = (Inr (), s\<lparr>se_pending := se_pending s @ [event]\<rparr>)"

definition target_reconcile_owner ::
  "nat \<Rightarrow> (adapter_error \<Rightarrow> string) \<Rightarrow> 'w mysql_server \<Rightarrow> 'w target_session \<Rightarrow> sync_unique_owner_conflict
     \<Rightarrow> sync_unique_owner_action \<Rightarrow> ('w, unit) adapter_op"
where
  "target_reconcile_owner fuel render srv ts conflict action =
     bind_op
       (case action of
          UpdateOwner row \<Rightarrow>
            bind_op (map_err_op MutationFailed (target_update_rows fuel render srv ts [row])) (\<lambda>_.
            bind_op (query_exact_row srv (ts_table ts) (dr_primary_key (uc_owner conflict))) (\<lambda>actual.
              lift_op (verify_exact_row actual (Some row) ''updated unique owner'')))
        | DeleteOwner \<Rightarrow>
            bind_op (target_delete_rows srv (ts_table ts) [dr_primary_key (uc_owner conflict)]) (\<lambda>_.
            bind_op (query_exact_row srv (ts_table ts) (dr_primary_key (uc_owner conflict))) (\<lambda>actual.
              lift_op (verify_exact_row actual None ''deleted unique owner''))))
       (\<lambda>_. bind_op (verify_unique_identity_unowned srv ts conflict) (\<lambda>_.
          push_event (unique_owner_reconciliation_event (st_name (ts_table ts)) conflict action)))"

fun target_verify_rows :: "'w mysql_server \<Rightarrow> 'w target_session \<Rightarrow> database_row list \<Rightarrow> ('w, unit) adapter_op" where
  "target_verify_rows srv ts [] = ret_op ()"
| "target_verify_rows srv ts (expected # rows) =
     bind_op (query_exact_row srv (ts_table ts) (dr_primary_key expected)) (\<lambda>actual.
     bind_op (lift_op (verify_exact_row actual (Some expected) ''mutated intended row'')) (\<lambda>_.
       target_verify_rows srv ts rows))"

section \<open>Session control\<close>

definition validate_sync_target_lock_identity ::
  "string \<Rightarrow> string \<Rightarrow> string \<Rightarrow> string \<Rightarrow> adapter_error + unit"
where
  "validate_sync_target_lock_identity expected_database expected_table database table =
     (if database = expected_database \<and> table = expected_table then Inr ()
      else Inl (LockIdentity expected_database expected_table database table))"

definition execute_control :: "'w mysql_server \<Rightarrow> string \<Rightarrow> ('w, unit) adapter_op" where
  "execute_control srv sql = map_err_op (ServerError sql) (on_server (my_control srv sql))"

definition target_set_autocommit :: "'w mysql_server \<Rightarrow> bool \<Rightarrow> ('w, unit) adapter_op" where
  "target_set_autocommit srv enabled =
     execute_control srv (''SET autocommit='' @ nat_str (if enabled then 1 else 0))"

definition target_lock_table_write ::
  "'w mysql_server \<Rightarrow> 'w target_session \<Rightarrow> string \<Rightarrow> string \<Rightarrow> ('w, unit) adapter_op"
where
  "target_lock_table_write srv ts database table =
     bind_op (lift_op (validate_sync_target_lock_identity (ts_database ts) (st_name (ts_table ts)) database table)) (\<lambda>_.
     bind_op (case ts_transitions ts of
         Some context \<Rightarrow>
           lift_op (map_err ComponentLock (build_component_lock_sql (ts_database ts) (tr_component context) quote_ident))
       | None \<Rightarrow> ret_op (build_lock_table_write_sql (ts_database ts) (st_name (ts_table ts)))) (\<lambda>sql.
       execute_control srv sql))"

definition target_commit :: "'w mysql_server \<Rightarrow> ('w, unit) adapter_op" where
  "target_commit srv s =
     (case execute_control srv ''COMMIT'' s of
        (Inl error, s1) \<Rightarrow> (Inl error, s1\<lparr>se_pending := []\<rparr>)
      | (Inr _, s1) \<Rightarrow> (Inr (), s1\<lparr>se_log := se_log s1 @ se_pending s1, se_pending := []\<rparr>))"

definition target_rollback :: "'w mysql_server \<Rightarrow> ('w, unit) adapter_op" where
  "target_rollback srv s = execute_control srv ''ROLLBACK'' (s\<lparr>se_pending := []\<rparr>)"

definition target_unlock_tables :: "'w mysql_server \<Rightarrow> ('w, unit) adapter_op" where
  "target_unlock_tables srv = execute_control srv ''UNLOCK TABLES''"

section \<open>Progress rows\<close>

definition sync_progress_row_from_chunk :: "sync_chunk_progress \<Rightarrow> sync_progress_row" where
  "sync_progress_row_from_chunk progress =
     \<lparr>pr_run_id = cp_run_id progress, pr_stage = RowsStage, pr_table_name = cp_table progress,
      pr_last_primary_key = cp_last_primary_key progress, pr_chunks = cp_chunks progress,
      pr_rows_scanned = cp_rows_scanned progress, pr_inserts = cp_inserts progress,
      pr_updates = cp_updates progress, pr_deletes = cp_deletes progress,
      pr_status = (if cp_complete progress then Complete else Running), pr_last_error = None,
      pr_created_at = [], pr_updated_at = [], pr_completed_at = None\<rparr>"

definition sync_chunk_progress_from_row :: "sync_progress_row \<Rightarrow> adapter_error + sync_chunk_progress" where
  "sync_chunk_progress_from_row progress =
     (if pr_stage progress \<noteq> RowsStage then Inl (ProgressStage (pr_stage progress))
      else
        bind_res (case pr_status progress of
            Running \<Rightarrow> Inr False
          | Complete \<Rightarrow> Inr True
          | ErrorStatus \<Rightarrow> Inl (ProgressInError (pr_run_id progress) (pr_table_name progress) (pr_last_error progress)))
          (\<lambda>complete.
             Inr \<lparr>cp_run_id = pr_run_id progress, cp_table = pr_table_name progress,
                  cp_last_primary_key = pr_last_primary_key progress, cp_complete = complete,
                  cp_chunks = pr_chunks progress, cp_rows_scanned = pr_rows_scanned progress,
                  cp_inserts = pr_inserts progress, cp_updates = pr_updates progress,
                  cp_deletes = pr_deletes progress\<rparr>))"

definition progress_store_load ::
  "'w mysql_server \<Rightarrow> string \<Rightarrow> string \<Rightarrow> ('w, sync_chunk_progress option) adapter_op"
where
  "progress_store_load srv run_id table =
     bind_op (map_err_op (ServerError ''read sync progress row'') (on_server (my_load_stage srv run_id RowsStage table)))
       (\<lambda>row. case row of
          None \<Rightarrow> ret_op None
        | Some row \<Rightarrow> bind_op (lift_op (sync_chunk_progress_from_row row)) (\<lambda>p. ret_op (Some p)))"

definition progress_store_save :: "'w mysql_server \<Rightarrow> sync_chunk_progress \<Rightarrow> ('w, unit) adapter_op" where
  "progress_store_save srv progress =
     map_err_op (ServerError ''sync progress mysql statement'')
       (on_server (my_save_stage srv (sync_progress_row_from_chunk progress)))"


section \<open>The traits on the server\<close>

text \<open>The trait implementations of \<open>MySqlSyncSource\<close>, \<open>MySqlSyncTargetSession\<close> and
  \<open>MySqlSyncProgressStore\<close> as one environment; \<open>render\<close> is the formatting of error values.\<close>

definition mysql_env ::
  "nat \<Rightarrow> (adapter_error \<Rightarrow> string) \<Rightarrow> 'w mysql_server \<Rightarrow> 'w target_session \<Rightarrow> 'w session sync_env"
where
  "mysql_env fuel render srv ts =
     \<lparr>source_read_rows = (\<lambda>request. map_err_op render
        (query_sync_page_rows (my_source_query srv) (ts_table ts) request ''source'')),
      source_read_row_by_primary_key = (\<lambda>key. map_err_op render (source_read_row srv (ts_table ts) key)),
      set_autocommit = (\<lambda>enabled. map_err_op render (target_set_autocommit srv enabled)),
      lock_table_write = (\<lambda>database table. map_err_op render (target_lock_table_write srv ts database table)),
      target_read_rows = (\<lambda>request. map_err_op render
        (query_sync_page_rows (my_target_query srv) (ts_table ts) request ''target'')),
      delete_rows = (\<lambda>keys. map_err_op render (target_delete_rows srv (ts_table ts) keys)),
      update_rows = target_update_rows fuel render srv ts,
      insert_rows = target_insert_rows fuel render srv ts,
      inspect_unique_owner_conflicts = (\<lambda>failure. map_err_op render (target_inspect_conflicts srv ts failure)),
      reconcile_unique_owner = (\<lambda>conflict action. map_err_op render
        (target_reconcile_owner fuel render srv ts conflict action)),
      verify_rows = (\<lambda>rows. map_err_op render (target_verify_rows srv ts rows)),
      commit = map_err_op render (target_commit srv),
      rollback = map_err_op render (target_rollback srv),
      unlock_tables = map_err_op render (target_unlock_tables srv),
      progress_load = (\<lambda>run_id table. map_err_op render (progress_store_load srv run_id table)),
      progress_save = (\<lambda>progress. map_err_op render (progress_store_save srv progress))\<rparr>"

end
