(* ===== verification/Sync_Chunk_Correct.thy ===== *)
theory Sync_Chunk_Correct
  imports Sync_Chunk
begin

text \<open>
  Correctness of a chunk over any backend that keeps the contract \<open>sync_backend\<close>: every target
  write is source-authoritative, the durable cursor never runs ahead of the committed rows on any
  outcome, and completion means the phase is done for every key.
\<close>

section \<open>One target page\<close>

lemma reconcile_target_page_eq:
  assumes "distinct (map dr_primary_key rows)"
  shows "\<exists>rest. reconcile_target_page table idx rows =
     (map dr_primary_key (filter (\<lambda>t. map_of idx (dr_primary_key t) = None) rows),
      map (\<lambda>t. the (map_of idx (dr_primary_key t)))
        (filter (\<lambda>t. case map_of idx (dr_primary_key t) of None \<Rightarrow> False
                     | Some s \<Rightarrow> rows_diverge table (dr_values s) (dr_values t)) rows), rest) \<and>
     map_of rest = (\<lambda>k. if k \<in> dr_primary_key ` set rows then None else map_of idx k) \<and>
     (btm_wf idx \<longrightarrow> btm_wf rest)"
  using assms
proof (induction rows arbitrary: idx)
  case (Cons t rows)
  have other: "\<And>x. x \<in> set rows \<Longrightarrow> dr_primary_key x \<noteq> dr_primary_key t"
    using Cons.prems by (auto simp: image_iff)
  show ?case
  proof (cases "map_of idx (dr_primary_key t)")
    case None
    then show ?thesis
      using Cons.IH [of idx] Cons.prems by (fastforce simp: fun_eq_iff)
  next
    case (Some s)
    let ?idx = "btm_remove (dr_primary_key t) idx"
    have same: "\<And>x. x \<in> set rows \<Longrightarrow> map_of ?idx (dr_primary_key x) = map_of idx (dr_primary_key x)"
      using other by simp
    obtain rest where rest: "reconcile_target_page table ?idx rows =
       (map dr_primary_key (filter (\<lambda>t. map_of ?idx (dr_primary_key t) = None) rows),
        map (\<lambda>t. the (map_of ?idx (dr_primary_key t)))
        (filter (\<lambda>t. case map_of ?idx (dr_primary_key t) of None \<Rightarrow> False
                     | Some s \<Rightarrow> rows_diverge table (dr_values s) (dr_values t)) rows), rest)"
      "map_of rest = (\<lambda>k. if k \<in> dr_primary_key ` set rows then None else map_of ?idx k)"
      "btm_wf ?idx \<longrightarrow> btm_wf rest"
      using Cons.IH [of ?idx] Cons.prems by fastforce
    have "filter (\<lambda>t. map_of ?idx (dr_primary_key t) = None) rows =
          filter (\<lambda>t. map_of idx (dr_primary_key t) = None) rows"
      and "filter (\<lambda>t. case map_of ?idx (dr_primary_key t) of None \<Rightarrow> False
                     | Some s \<Rightarrow> rows_diverge table (dr_values s) (dr_values t)) rows =
           filter (\<lambda>t. case map_of idx (dr_primary_key t) of None \<Rightarrow> False
                     | Some s \<Rightarrow> rows_diverge table (dr_values s) (dr_values t)) rows"
      by (intro filter_cong refl, simp only: same)+
    moreover have "map (\<lambda>t. the (map_of ?idx (dr_primary_key t))) (filter P rows) =
        map (\<lambda>t. the (map_of idx (dr_primary_key t))) (filter P rows)" for P
      by (intro map_cong refl) (simp add: other)
    ultimately show ?thesis
      using rest Some by (auto simp: fun_eq_iff)
  qed
qed simp

lemma map_of_fold_btm:
  "distinct (map f rows) \<Longrightarrow>
   map_of (fold (\<lambda>(k, v). btm_insert k v) (map (\<lambda>row. (f row, row)) rows) acc) k =
     (if k \<in> f ` set rows then map_of (map (\<lambda>row. (f row, row)) rows) k else map_of acc k)"
  by (induction rows arbitrary: acc) (auto simp: image_iff)

lemma map_of_index_rows:
  assumes "distinct (map dr_primary_key rows)"
  shows "map_of (index_rows rows) k = map_of (map (\<lambda>row. (dr_primary_key row, row)) rows) k"
proof -
  have "k \<notin> dr_primary_key ` set rows \<Longrightarrow> map_of (map (\<lambda>row. (dr_primary_key row, row)) rows) k = None"
    by (auto simp: map_of_eq_None_iff)
  then show ?thesis
    unfolding index_rows_def btm_collect_def map_of_fold_btm [OF assms] by (auto simp del: image_iff)
qed

lemma btm_wf_index_rows [simp]: "btm_wf (index_rows rows)"
  by (simp add: index_rows_def btm_collect_def btm_wf_fold)

lemma index_rows_Some:
  assumes "distinct (map dr_primary_key rows)"
  shows "map_of (index_rows rows) k = Some r \<longleftrightarrow> r \<in> set rows \<and> dr_primary_key r = k"
proof -
  have "distinct (map fst (map (\<lambda>row. (dr_primary_key row, row)) rows))"
    using assms by (simp add: comp_def)
  then show ?thesis
    unfolding map_of_index_rows [OF assms] by (auto simp: map_of_eq_Some_iff)
qed

section \<open>Agreement and phases\<close>

lemma row_agrees_refl [simp]: "row_agrees table s s"
  by (simp add: row_agrees_def rows_diverge_def split: option.splits)

lemma phase_done_agrees: "row_agrees table s t \<Longrightarrow> phase_done table phase s t"
  by (auto simp: phase_done_def row_agrees_def split: option.splits)

lemma phase_done_mono:
  "authoritative table S T T' \<Longrightarrow> phase_done table phase (S k) (T k) \<Longrightarrow> phase_done table phase (S k) (T' k)"
  unfolding authoritative_def by (metis phase_done_agrees)

lemma row_agrees_mono:
  "authoritative table S T T' \<Longrightarrow> row_agrees table (S k) (T k) \<Longrightarrow> row_agrees table (S k) (T' k)"
  unfolding authoritative_def by metis

lemma phase_done_all: "phase_done table AllPhases s t \<longleftrightarrow> row_agrees table s t"
  by (auto simp: phase_done_def phase_includes_def row_agrees_def split: option.splits)

lemma phase_done_Insert: "phase_done table InsertMissing s t \<longleftrightarrow> (s \<noteq> None \<longrightarrow> t \<noteq> None)"
  and phase_done_Update:
    "phase_done table UpdateDivergent s t \<longleftrightarrow> (s \<noteq> None \<longrightarrow> t \<noteq> None \<longrightarrow> row_agrees table s t)"
  and phase_done_Delete: "phase_done table DeleteExtras s t \<longleftrightarrow> (s = None \<longrightarrow> t = None)"
  by (simp_all add: phase_done_def phase_includes_def)

lemma phases_compose:
  assumes "phase_done table InsertMissing s t" "phase_done table UpdateDivergent s t"
    "phase_done table DeleteExtras s t"
  shows "row_agrees table s t"
proof (cases "s = None")
  case True
  then have "t = None" using assms(3) by (simp add: phase_done_Delete)
  then show ?thesis using True by simp
next
  case False
  then show ?thesis using assms(1,2) by (auto simp: phase_done_Insert phase_done_Update)
qed


section \<open>Reconciling the pages of a window\<close>

context sync_backend
begin

definition in_window :: "row_key option \<Rightarrow> row_key option \<Rightarrow> row_key \<Rightarrow> bool" where
  "in_window s e k = (after_key key_less s k \<and> upto_key key_less e k)"

definition from_source :: "'w \<Rightarrow> database_row list \<Rightarrow> bool" where
  "from_source w rows = (distinct (map dr_primary_key rows) \<and>
     (\<forall>r \<in> set rows. src w (dr_primary_key r) = Some (dr_values r)))"

text \<open>The loop invariant: \<open>sa\<close> is how far the target has been read, \<open>idx\<close> what is left of the
  source window, \<open>upd\<close> the divergent rows found.\<close>

definition pages_inv ::
  "'w \<Rightarrow> sync_mutation_phase \<Rightarrow> row_key option \<Rightarrow> row_key \<Rightarrow> row_key option \<Rightarrow> row_index \<Rightarrow> database_row list \<Rightarrow> bool"
where
  "pages_inv w phase s e sa idx upd \<longleftrightarrow>
     btm_wf idx \<and> from_source w upd \<and>
     (\<forall>k. after_key key_less sa k \<longrightarrow> after_key key_less s k) \<and>
     (\<forall>k r. map_of idx k = Some r \<longrightarrow> dr_primary_key r = k \<and> src w k = Some (dr_values r)) \<and>
     (\<forall>k. in_window sa (Some e) k \<longrightarrow> src w k \<noteq> None \<longrightarrow> map_of idx k \<noteq> None) \<and>
     (\<forall>r \<in> set upd. \<not> after_key key_less sa (dr_primary_key r)) \<and>
     (\<forall>k. in_window s (Some e) k \<longrightarrow> \<not> after_key key_less sa k \<longrightarrow>
        phase_done table phase (src w k) (tgt w k) \<or>
        phase_includes phase UpdateDivergent \<and> k \<in> dr_primary_key ` set upd \<or>
        phase_includes phase InsertMissing \<and> map_of idx k \<noteq> None)"

lemma delete_only_step:
  assumes "delete_target_only_rows t env ks w = (u, w')" "\<forall>k \<in> set ks. src w k = None"
  shows "tgt_step w w'" "\<forall>k. u = Inr () \<longrightarrow> k \<in> set ks \<longrightarrow> tgt w' k = None"
    "\<forall>k. k \<notin> set ks \<longrightarrow> tgt w' k = tgt w k" "\<forall>k. tgt w' k = tgt w k \<or> tgt w' k = None"
proof -
  have "tgt_step w w' \<and> (\<forall>k. u = Inr () \<longrightarrow> k \<in> set ks \<longrightarrow> tgt w' k = None) \<and>
      (\<forall>k. k \<notin> set ks \<longrightarrow> tgt w' k = tgt w k) \<and> (\<forall>k. tgt w' k = tgt w k \<or> tgt w' k = None)"
  proof (cases "ks = []")
    case True
    then show ?thesis using assms(1) by (simp add: delete_target_only_rows_def ret_op_def)
  next
    case False
    obtain u' where d: "delete_rows env ks w = (u', w')" and u: "u = map_err (DeleteTargetOnly t) u'"
      using assms(1) False by (auto simp: delete_target_only_rows_def map_err_op_def split: prod.splits)
    have ok: "u = Inr () \<Longrightarrow> u' = Inr ()" using u by simp
    have step: "\<forall>k. tgt w' k = tgt w k \<or> k \<in> set ks \<and> tgt w' k = None"
      using delete [OF d] by blast
    then have "authoritative table (src w) (tgt w) (tgt w')"
      unfolding authoritative_def using assms(2) by (metis row_agrees_refl)
    then have "tgt_step w w'" using delete [OF d] unfolding tgt_step_def by blast
    moreover have "\<forall>k. u = Inr () \<longrightarrow> k \<in> set ks \<longrightarrow> tgt w' k = None"
      using delete [OF d] ok by blast
    ultimately show ?thesis using step by metis
  qed
  then show "tgt_step w w'" "\<forall>k. u = Inr () \<longrightarrow> k \<in> set ks \<longrightarrow> tgt w' k = None"
    "\<forall>k. k \<notin> set ks \<longrightarrow> tgt w' k = tgt w k" "\<forall>k. tgt w' k = tgt w k \<or> tgt w' k = None" by simp_all
qed

text \<open>A page read through to a key: what the reconciliation of its rows leaves for every key it
  covers.\<close>

lemma page_covered:
  assumes page: "page_of key_less T \<lparr>rq_start_after = sa, rq_end_at = Some e, rq_limit = n\<rparr> page"
    and rec: "reconcile_target_page table idx (pg_rows page) = (deletes, updates, rest)"
    and idx: "\<forall>k r. map_of idx k = Some r \<longrightarrow> dr_primary_key r = k \<and> S k = Some (dr_values r)"
    and cover: "\<forall>k. in_window sa (Some e) k \<longrightarrow> S k \<noteq> None \<longrightarrow> map_of idx k \<noteq> None"
    and k: "in_window sa (Some e) k"
    and through: "\<not> pg_has_more page \<or> pg_rows page \<noteq> [] \<and> \<not> key_less (dr_primary_key (last (pg_rows page))) k"
    and T': "\<forall>k. T' k = T k \<or> T' k = None"
    and keep: "\<forall>k. k \<notin> set deletes \<or> \<not> phase_includes phase DeleteExtras \<longrightarrow> T' k = T k"
    and gone: "phase_includes phase DeleteExtras \<longrightarrow> (\<forall>k \<in> set deletes. T' k = None)"
  shows "phase_done table phase (S k) (T' k) \<or>
     phase_includes phase UpdateDivergent \<and> k \<in> dr_primary_key ` set updates \<or>
     phase_includes phase InsertMissing \<and> map_of rest k \<noteq> None"
proof -
  have deletes: "deletes = map dr_primary_key (filter (\<lambda>t. map_of idx (dr_primary_key t) = None) (pg_rows page))"
    and updates: "updates = map (\<lambda>t. the (map_of idx (dr_primary_key t)))
        (filter (\<lambda>t. case map_of idx (dr_primary_key t) of None \<Rightarrow> False
                     | Some s \<Rightarrow> rows_diverge table (dr_values s) (dr_values t)) (pg_rows page))"
    and rest: "map_of rest = (\<lambda>k. if k \<in> dr_primary_key ` set (pg_rows page) then None else map_of idx k)"
    using reconcile_target_page_eq [OF page_distinct [OF page], of table idx] rec by auto
  have present: "T k \<noteq> None \<longleftrightarrow> k \<in> dr_primary_key ` set (pg_rows page)"
    using page k through unfolding page_of_def in_window_def by fastforce
  show ?thesis
  proof (cases "S k")
    case None
    then have "map_of idx k = None" using idx by (metis not_None_eq option.distinct(1))
    then have "phase_includes phase DeleteExtras \<Longrightarrow> T' k = None"
      using present keep gone T' unfolding deletes by (cases "T k = None") (force, force)
    then show ?thesis using None by (simp add: phase_done_def)
  next
    case (Some v)
    then obtain r where r: "map_of idx k = Some r" "dr_primary_key r = k" "dr_values r = v"
      using cover k idx by (metis not_None_eq option.inject option.distinct(1))
    have "k \<notin> set deletes" using r(1) by (auto simp: deletes)
    then have T'k: "T' k = T k" using keep by blast
    show ?thesis
    proof (cases "T k")
      case None
      then have "map_of rest k \<noteq> None" using rest present r(1) by simp
      moreover have "\<not> phase_includes phase InsertMissing \<Longrightarrow> phase_done table phase (S k) (T' k)"
        using T'k None Some by (simp add: phase_done_def)
      ultimately show ?thesis by blast
    next
      case (Some tv)
      then obtain t where t: "t \<in> set (pg_rows page)" "dr_primary_key t = k" using present by auto
      then have tv: "dr_values t = tv" using page Some unfolding page_of_def by fastforce
      show ?thesis
      proof (cases "rows_diverge table v tv")
        case True
        have "r \<in> set updates" unfolding updates using t r tv True by (force simp: image_iff)
        then have "k \<in> dr_primary_key ` set updates" using r(2) by blast
        moreover have "\<not> phase_includes phase UpdateDivergent \<Longrightarrow> phase_done table phase (S k) (T' k)"
          using T'k Some \<open>S k = _\<close> by (simp add: phase_done_def)
        ultimately show ?thesis by blast
      next
        case False
        then have "row_agrees table (S k) (T' k)" using T'k Some \<open>S k = _\<close> by (simp add: row_agrees_def)
        then show ?thesis by (simp add: phase_done_agrees)
      qed
    qed
  qed
qed

text \<open>What the loop hands to the mutations.\<close>

definition pages_post ::
  "'w \<Rightarrow> sync_mutation_phase \<Rightarrow> row_key option \<Rightarrow> row_key \<Rightarrow> chunk_changes \<Rightarrow> bool"
where
  "pages_post w phase s e ch \<longleftrightarrow>
     from_source w (ch_updates ch) \<and> from_source w (ch_inserts ch) \<and>
     (\<forall>k. in_window s (Some e) k \<longrightarrow>
        phase_done table phase (src w k) (tgt w k) \<or>
        k \<in> dr_primary_key ` (set (ch_updates ch) \<union> set (ch_inserts ch)))"

lemma from_source_index:
  assumes "btm_wf idx"
    and idx: "\<forall>k r. map_of idx k = Some r \<longrightarrow> dr_primary_key r = k \<and> src w k = Some (dr_values r)"
  shows "from_source w (map snd idx)"
    and "k \<in> dr_primary_key ` set (map snd idx) \<longleftrightarrow> map_of idx k \<noteq> None"
proof -
  have d: "distinct (map fst idx)" using assms(1) by (rule btm_wf_distinct)
  have key: "\<forall>e \<in> set idx. dr_primary_key (snd e) = fst e \<and> src w (fst e) = Some (dr_values (snd e))"
    using idx d by (metis map_of_eq_Some_iff prod.collapse)
  then have m: "map dr_primary_key (map snd idx) = map fst idx" by simp
  show "from_source w (map snd idx)" unfolding from_source_def m using d key by simp
  have "k \<in> dr_primary_key ` set (map snd idx) \<longleftrightarrow> k \<in> set (map fst idx)"
    unfolding m [symmetric] by (simp add: image_image)
  also have "\<dots> \<longleftrightarrow> map_of idx k \<noteq> None" by (simp add: map_of_eq_None_iff)
  finally show "k \<in> dr_primary_key ` set (map snd idx) \<longleftrightarrow> map_of idx k \<noteq> None" .
qed

lemma page_updates_source:
  assumes page: "page_of key_less T \<lparr>rq_start_after = sa, rq_end_at = Some e, rq_limit = n\<rparr> page"
    and rec: "reconcile_target_page table idx (pg_rows page) = (deletes, updates, rest)"
    and idx: "\<forall>k r. map_of idx k = Some r \<longrightarrow> dr_primary_key r = k \<and> src w k = Some (dr_values r)"
    and cover: "\<forall>k. in_window sa (Some e) k \<longrightarrow> src w k \<noteq> None \<longrightarrow> map_of idx k \<noteq> None"
  shows "from_source w updates"
    and "dr_primary_key ` set updates \<subseteq> dr_primary_key ` set (pg_rows page)"
    and "\<forall>k \<in> set deletes. src w k = None"
    and "set deletes \<subseteq> dr_primary_key ` set (pg_rows page)"
    and "map_of rest = (\<lambda>k. if k \<in> dr_primary_key ` set (pg_rows page) then None else map_of idx k)"
    and "btm_wf idx \<Longrightarrow> btm_wf rest"
proof -
  let ?P = "\<lambda>t. case map_of idx (dr_primary_key t) of None \<Rightarrow> False
                     | Some s \<Rightarrow> rows_diverge table (dr_values s) (dr_values t)"
  have deletes: "deletes = map dr_primary_key (filter (\<lambda>t. map_of idx (dr_primary_key t) = None) (pg_rows page))"
    and updates: "updates = map (\<lambda>t. the (map_of idx (dr_primary_key t))) (filter ?P (pg_rows page))"
    and rest: "map_of rest = (\<lambda>k. if k \<in> dr_primary_key ` set (pg_rows page) then None else map_of idx k)"
      "btm_wf idx \<Longrightarrow> btm_wf rest"
    using reconcile_target_page_eq [OF page_distinct [OF page], of table idx] rec by auto
  have "map dr_primary_key updates = map dr_primary_key (filter ?P (pg_rows page))"
    unfolding updates using idx by (auto split: option.splits)
  moreover have "distinct (map dr_primary_key (filter ?P (pg_rows page)))"
    using page_distinct [OF page] by (simp add: distinct_map_filter)
  ultimately have "distinct (map dr_primary_key updates)" by simp
  moreover have "\<forall>r \<in> set updates. src w (dr_primary_key r) = Some (dr_values r)"
    unfolding updates using idx by (auto split: option.splits)
  ultimately show "from_source w updates" unfolding from_source_def by blast
  show "dr_primary_key ` set updates \<subseteq> dr_primary_key ` set (pg_rows page)"
    unfolding updates using idx by (auto split: option.splits)
  show "\<forall>k \<in> set deletes. src w k = None"
    using page cover unfolding deletes page_of_def in_window_def by fastforce
  show "set deletes \<subseteq> dr_primary_key ` set (pg_rows page)"
    unfolding deletes by auto
qed (use rec reconcile_target_page_eq [OF page_distinct [OF page], of table idx] in auto)

lemma from_source_append:
  "from_source w xs \<Longrightarrow> from_source w ys \<Longrightarrow>
   dr_primary_key ` set xs \<inter> dr_primary_key ` set ys = {} \<Longrightarrow> from_source w (xs @ ys)"
  unfolding from_source_def by auto

lemma from_source_step: "tgt_step w w' \<Longrightarrow> from_source w' rows = from_source w rows"
  by (simp add: from_source_def tgt_step_def)

text \<open>One iteration of the loop keeps the invariant, or ends with what the mutations need.\<close>

lemma pages_step:
  assumes inv: "pages_inv w phase s e sa idx upd"
    and page: "page_of key_less (tgt w) \<lparr>rq_start_after = sa, rq_end_at = Some e, rq_limit = n\<rparr> page"
    and rec: "reconcile_target_page table idx (pg_rows page) = (deletes, updates, rest)"
    and step: "tgt_step w w'"
    and T': "\<forall>k. tgt w' k = tgt w k \<or> tgt w' k = None"
    and keep: "\<forall>k. k \<notin> set deletes \<or> \<not> phase_includes phase DeleteExtras \<longrightarrow> tgt w' k = tgt w k"
    and gone: "phase_includes phase DeleteExtras \<longrightarrow> (\<forall>k \<in> set deletes. tgt w' k = None)"
  defines "upd' \<equiv> if phase_includes phase UpdateDivergent then upd @ updates else upd"
  shows "from_source w' upd'" "btm_wf rest"
    "\<forall>k r. map_of rest k = Some r \<longrightarrow> dr_primary_key r = k \<and> src w' k = Some (dr_values r)"
    "\<forall>k. in_window s (Some e) k \<longrightarrow>
       \<not> after_key key_less sa k \<or> \<not> pg_has_more page \<or>
       pg_rows page \<noteq> [] \<and> \<not> key_less (dr_primary_key (last (pg_rows page))) k \<longrightarrow>
        phase_done table phase (src w' k) (tgt w' k) \<or>
        phase_includes phase UpdateDivergent \<and> k \<in> dr_primary_key ` set upd' \<or>
        phase_includes phase InsertMissing \<and> map_of rest k \<noteq> None"
    "pg_rows page \<noteq> [] \<Longrightarrow> pages_inv w' phase s e (Some (dr_primary_key (last (pg_rows page)))) rest upd'"
proof -
  note I = inv [unfolded pages_inv_def]
  have idx: "\<forall>k r. map_of idx k = Some r \<longrightarrow> dr_primary_key r = k \<and> src w k = Some (dr_values r)"
    and cover: "\<forall>k. in_window sa (Some e) k \<longrightarrow> src w k \<noteq> None \<longrightarrow> map_of idx k \<noteq> None"
    and upd_le: "\<forall>r \<in> set upd. \<not> after_key key_less sa (dr_primary_key r)"
    and fs: "from_source w upd" and wf: "btm_wf idx"
    and sa: "\<forall>k. after_key key_less sa k \<longrightarrow> after_key key_less s k"
    using I by - (elim conjE, assumption)+
  note P = page_updates_source [OF page rec idx cover]
  have srcw: "src w' = src w" using step by (rule tgt_step_src)
  have keys: "\<And>r. r \<in> set (pg_rows page) \<Longrightarrow> in_window sa (Some e) (dr_primary_key r)"
    using page unfolding page_of_def in_window_def by simp
  have "dr_primary_key ` set upd \<inter> dr_primary_key ` set updates = {}"
  proof (rule ccontr)
    assume "dr_primary_key ` set upd \<inter> dr_primary_key ` set updates \<noteq> {}"
    then obtain u where u: "u \<in> set upd" "dr_primary_key u \<in> dr_primary_key ` set updates" by auto
    then obtain t where "t \<in> set (pg_rows page)" "dr_primary_key u = dr_primary_key t"
      using P(2) by (meson imageE subsetD)
    moreover have "\<not> after_key key_less sa (dr_primary_key u)" using upd_le u(1) by blast
    ultimately show False using keys [of t] by (simp add: in_window_def)
  qed
  then have "from_source w upd'" using fs P(1) by (simp add: upd'_def from_source_append)
  then show fs': "from_source w' upd'" using from_source_step [OF step] by simp
  show wf': "btm_wf rest" using P(6) wf .
  show idx': "\<forall>k r. map_of rest k = Some r \<longrightarrow> dr_primary_key r = k \<and> src w' k = Some (dr_values r)"
    using P(5) idx srcw by simp
  have old: "phase_done table phase (src w' k) (tgt w' k) \<or>
        phase_includes phase UpdateDivergent \<and> k \<in> dr_primary_key ` set upd' \<or>
        phase_includes phase InsertMissing \<and> map_of rest k \<noteq> None"
    if k: "in_window s (Some e) k" "\<not> after_key key_less sa k" for k
  proof -
    have "k \<notin> dr_primary_key ` set (pg_rows page)" using k(2) keys by (auto simp: in_window_def)
    then have "map_of rest k = map_of idx k" using P(5) by simp
    moreover have "phase_done table phase (src w k) (tgt w k) \<Longrightarrow> phase_done table phase (src w' k) (tgt w' k)"
      using step phase_done_mono unfolding tgt_step_def by metis
    moreover have "phase_includes phase UpdateDivergent \<Longrightarrow> set upd \<subseteq> set upd'" by (simp add: upd'_def)
    moreover have "phase_done table phase (src w k) (tgt w k) \<or>
        phase_includes phase UpdateDivergent \<and> k \<in> dr_primary_key ` set upd \<or>
        phase_includes phase InsertMissing \<and> map_of idx k \<noteq> None"
      using I k by simp
    ultimately show ?thesis by auto
  qed
  have new: "phase_done table phase (src w' k) (tgt w' k) \<or>
        phase_includes phase UpdateDivergent \<and> k \<in> dr_primary_key ` set upd' \<or>
        phase_includes phase InsertMissing \<and> map_of rest k \<noteq> None"
    if k: "in_window sa (Some e) k"
      "\<not> pg_has_more page \<or> pg_rows page \<noteq> [] \<and> \<not> key_less (dr_primary_key (last (pg_rows page))) k" for k
    using page_covered [OF page rec idx cover k T' keep gone] unfolding srcw upd'_def by auto
  show all: "\<forall>k. in_window s (Some e) k \<longrightarrow>
       \<not> after_key key_less sa k \<or> \<not> pg_has_more page \<or>
       pg_rows page \<noteq> [] \<and> \<not> key_less (dr_primary_key (last (pg_rows page))) k \<longrightarrow>
        phase_done table phase (src w' k) (tgt w' k) \<or>
        phase_includes phase UpdateDivergent \<and> k \<in> dr_primary_key ` set upd' \<or>
        phase_includes phase InsertMissing \<and> map_of rest k \<noteq> None"
    using old new unfolding in_window_def by blast
  assume ne: "pg_rows page \<noteq> []"
  let ?l = "dr_primary_key (last (pg_rows page))"
  have l: "in_window sa (Some e) ?l" using ne keys by simp
  then have up: "\<And>k. key_less ?l k \<Longrightarrow> after_key key_less sa k"
    unfolding in_window_def after_key_def using key_trans by (auto split: option.splits)
  have "\<forall>k. in_window (Some ?l) (Some e) k \<longrightarrow> src w' k \<noteq> None \<longrightarrow> map_of rest k \<noteq> None"
  proof (intro allI impI)
    fix k assume k: "in_window (Some ?l) (Some e) k" "src w' k \<noteq> None"
    have less: "key_less ?l k" using k(1) by (simp add: in_window_def after_key_def)
    then have "k \<notin> dr_primary_key ` set (pg_rows page)"
      using page_last [OF page] by blast
    moreover have "map_of idx k \<noteq> None"
      using cover k up [OF less] srcw unfolding in_window_def by simp
    ultimately show "map_of rest k \<noteq> None" using P(5) by simp
  qed
  moreover have "\<forall>r \<in> set upd'. \<not> after_key key_less (Some ?l) (dr_primary_key r)"
  proof
    fix r assume "r \<in> set upd'"
    then have "r \<in> set upd \<or> dr_primary_key r \<in> dr_primary_key ` set (pg_rows page)"
      using P(2) unfolding upd'_def by (auto split: if_splits)
    then show "\<not> after_key key_less (Some ?l) (dr_primary_key r)"
      using upd_le up page_last [OF page] by (auto simp: after_key_def)
  qed
  moreover have "\<forall>k. after_key key_less (Some ?l) k \<longrightarrow> after_key key_less s k"
    using up sa by (simp add: after_key_def)
  ultimately show "pages_inv w' phase s e (Some ?l) rest upd'"
    unfolding pages_inv_def using fs' wf' idx' all ne by (simp add: after_key_def)
qed

lemma pages_loop_correct:
  assumes "reconcile_pages_loop fuel config env phase e sa idx ch w = (r, w')"
    and "pages_inv w phase s e sa idx (ch_updates ch)" "ch_inserts ch = []"
    and "cc_table config = table" "0 < cc_chunk_size config"
  shows "tgt_step w w' \<and> (\<forall>ch'. r = Inr ch' \<longrightarrow> pages_post w' phase s e ch')"
  using assms
proof (induction fuel arbitrary: sa idx ch w)
  case 0
  then show ?case by (auto simp: fail_op_def)
next
  case (Suc fuel)
  let ?req = "\<lparr>rq_start_after = sa, rq_end_at = Some e, rq_limit = cc_chunk_size config\<rparr>"
  obtain pr w1 where rd: "target_read_rows env ?req w = (pr, w1)" by fastforce
  have same: "src w1 = src w" "tgt w1 = tgt w" "base w1 = base w" "stored w1 = stored w"
    using target_read [OF rd] by blast+
  then have st1: "tgt_step w w1" by (rule tgt_step_same)
  show ?case
  proof (cases pr)
    case (Inl x)
    then show ?thesis using Suc.prems(1) rd st1
      by (auto simp: bind_op_def map_err_op_def)
  next
    case (Inr page)
    have page: "page_of key_less (tgt w1) ?req page"
      using target_read [OF rd] Inr Suc.prems(5) same by simp
    have inv: "pages_inv w1 phase s e sa idx (ch_updates ch)"
      using Suc.prems(2) same unfolding pages_inv_def from_source_def by simp
    obtain deletes updates rest where
      rec: "reconcile_target_page table idx (pg_rows page) = (deletes, updates, rest)"
      by (cases "reconcile_target_page table idx (pg_rows page)") auto
    note I = inv [unfolded pages_inv_def]
    have absent: "\<forall>k \<in> set deletes. src w1 k = None"
      using page_updates_source(3) [OF page rec] I by blast
    obtain u w2 where del: "(if phase_includes phase DeleteExtras
          then delete_target_only_rows (st_name (cc_table config)) env deletes else ret_op ()) w1 = (u, w2)"
      by fastforce
    have step: "tgt_step w1 w2" and T': "\<forall>k. tgt w2 k = tgt w1 k \<or> tgt w2 k = None"
      and keep: "\<forall>k. k \<notin> set deletes \<or> \<not> phase_includes phase DeleteExtras \<longrightarrow> tgt w2 k = tgt w1 k"
      and gone: "u = Inr () \<Longrightarrow> phase_includes phase DeleteExtras \<longrightarrow> (\<forall>k \<in> set deletes. tgt w2 k = None)"
      using del delete_only_step [OF _ absent, of "st_name (cc_table config)" u w2]
      by (simp_all add: ret_op_def split: if_splits)
    let ?upd = "if phase_includes phase UpdateDivergent then ch_updates ch @ updates else ch_updates ch"
    let ?ch1 = "if phase_includes phase DeleteExtras
                then ch\<lparr>ch_deletes := ch_deletes ch + length deletes\<rparr> else ch"
    let ?ch2 = "if phase_includes phase UpdateDivergent
                then ?ch1\<lparr>ch_updates := ch_updates ?ch1 @ updates\<rparr> else ?ch1"
    have ch2: "ch_updates ?ch2 = ?upd" "ch_inserts ?ch2 = []" using Suc.prems(3) by simp_all
    show ?thesis
    proof (cases u)
      case Inl1: (Inl x)
      then show ?thesis using Suc.prems(1,4) rd Inr rec del tgt_step_trans [OF st1 step]
        by (auto simp: bind_op_def map_err_op_def Let_def)
    next
      case Inr1: (Inr y)
      have uok: "u = Inr ()" using Inr1 by simp
      note S = pages_step [OF inv page rec step T' keep gone [OF uok]]
      have st2: "tgt_step w w2" using st1 step by (rule tgt_step_trans)
      show ?thesis
      proof (cases "pg_has_more page")
        case False
        let ?fin = "if phase_includes phase InsertMissing then ?ch2\<lparr>ch_inserts := map snd rest\<rparr> else ?ch2"
        have res: "r = Inr ?fin" "w' = w2"
          using Suc.prems(1,4) rd Inr rec del uok False
          by (simp_all add: bind_op_def map_err_op_def Let_def ret_op_def split del: if_split)
        have fin: "ch_updates ?fin = ?upd"
          "ch_inserts ?fin = (if phase_includes phase InsertMissing then map snd rest else [])"
          using ch2 by simp_all
        have keys: "k \<in> dr_primary_key ` set (map snd rest) \<longleftrightarrow> map_of rest k \<noteq> None" for k
          by (rule from_source_index(2) [OF S(2) S(3)])
        have cov: "phase_done table phase (src w2 k) (tgt w2 k) \<or>
            phase_includes phase UpdateDivergent \<and> k \<in> dr_primary_key ` set ?upd \<or>
            phase_includes phase InsertMissing \<and> map_of rest k \<noteq> None"
          if "in_window s (Some e) k" for k
          using S(4) that False by blast
        have "pages_post w2 phase s e ?fin"
          unfolding pages_post_def fin
        proof (intro conjI allI impI)
          show "from_source w2 ?upd" by (rule S(1))
          show "from_source w2 (if phase_includes phase InsertMissing then map snd rest else [])"
            using from_source_index(1) [OF S(2) S(3)] by (cases "phase_includes phase InsertMissing") (simp_all add: from_source_def)
          fix k assume "in_window s (Some e) k"
          from cov [OF this] show "phase_done table phase (src w2 k) (tgt w2 k) \<or>
            k \<in> dr_primary_key ` (set ?upd \<union>
              set (if phase_includes phase InsertMissing then map snd rest else []))"
            using keys [of k] unfolding image_Un by fastforce
        qed
        then show ?thesis using res st2 by blast
      next
        case True
        then have ne: "pg_rows page \<noteq> []" using page by (simp add: page_of_def)
        have "reconcile_pages_loop fuel config env phase e (Some (dr_primary_key (last (pg_rows page)))) rest ?ch2 w2
              = (r, w')"
          using Suc.prems(1,4) rd Inr rec del uok True ne
          by (simp add: bind_op_def map_err_op_def Let_def split del: if_split)
        then have "tgt_step w2 w' \<and> (\<forall>ch'. r = Inr ch' \<longrightarrow> pages_post w' phase s e ch')"
          using S(5) [OF ne] Suc.prems(4,5) ch2 by (intro Suc.IH) simp_all
        then show ?thesis using st2 tgt_step_trans by blast
      qed
    qed
  qed
qed

text \<open>Strict mutations: whatever happens the target moves only towards the source, and a
  success leaves every row as in the source.\<close>

lemma try_strict_correct:
  assumes "try_strict_mutation t env rows kind w = (r, w')" "from_source w rows"
  shows "tgt_step w w'"
    and "r = Inr None \<Longrightarrow> \<forall>x \<in> set rows. row_agrees table (src w (dr_primary_key x)) (tgt w' (dr_primary_key x))"
    and "r = Inr (Some f) \<Longrightarrow> from_source w (retry_rows f) \<and> set (retry_rows f) \<subseteq> set rows \<and>
       (\<forall>x \<in> set rows. x \<in> set (retry_rows f) \<or>
          row_agrees table (src w (dr_primary_key x)) (tgt w' (dr_primary_key x)))"
proof -
  obtain m where m: "(case kind of InsertKind \<Rightarrow> insert_rows env rows w | UpdateKind \<Rightarrow> update_rows env rows w) = (m, w')"
    using assms(1) unfolding try_strict_mutation_def by (auto split: prod.splits sum.splits if_splits)
  have d: "distinct (map dr_primary_key rows)" using assms(2) by (simp add: from_source_def)
  have S: "\<forall>x \<in> set rows. src w (dr_primary_key x) = Some (dr_values x)"
    using assms(2) by (simp add: from_source_def)
  have law: "src w' = src w \<and> base w' = base w \<and> stored w' = stored w \<and> authoritative table (src w) (tgt w) (tgt w') \<and>
      (\<forall>x \<in> set rows. m = Inr () \<longrightarrow> row_agrees table (src w (dr_primary_key x)) (tgt w' (dr_primary_key x))) \<and>
      (\<forall>f. m = Inl f \<longrightarrow> mf_mysql_code f = Some 1062 \<longrightarrow>
         set (retry_rows f) \<subseteq> set rows \<and> distinct (map dr_primary_key (retry_rows f)) \<and>
         (\<forall>x \<in> set rows. x \<in> set (retry_rows f) \<or>
            row_agrees table (src w (dr_primary_key x)) (tgt w' (dr_primary_key x))))"
    using m insert [OF _ d S] update [OF _ d S] by (cases kind) simp_all
  show "tgt_step w w'" unfolding tgt_step_def using law by blast
  have r: "r = (case m of Inr _ \<Rightarrow> Inr None | Inl f \<Rightarrow> if mf_mysql_code f = Some 1062 then Inr (Some f)
             else Inl (case kind of InsertKind \<Rightarrow> InsertMissingRows t f | UpdateKind \<Rightarrow> UpdateDivergentRows t f))"
    using assms(1) m unfolding try_strict_mutation_def by (auto split: sum.splits if_splits)
  show "\<forall>x \<in> set rows. row_agrees table (src w (dr_primary_key x)) (tgt w' (dr_primary_key x))"
    if "r = Inr None"
  proof -
    have "m = Inr ()" using that r by (auto split: sum.splits if_splits)
    then show ?thesis using law by blast
  qed
  show "from_source w (retry_rows f) \<and> set (retry_rows f) \<subseteq> set rows \<and>
       (\<forall>x \<in> set rows. x \<in> set (retry_rows f) \<or>
          row_agrees table (src w (dr_primary_key x)) (tgt w' (dr_primary_key x)))"
    if "r = Inr (Some f)"
  proof -
    have "m = Inl f" "mf_mysql_code f = Some 1062" using that r by (auto split: sum.splits if_splits)
    then have f: "set (retry_rows f) \<subseteq> set rows" "distinct (map dr_primary_key (retry_rows f))"
      "\<forall>x \<in> set rows. x \<in> set (retry_rows f) \<or>
         row_agrees table (src w (dr_primary_key x)) (tgt w' (dr_primary_key x))"
      using law by blast+
    then show ?thesis using assms(2) unfolding from_source_def by blast
  qed
qed

lemma plan_owner_key:
  "plan_unique_owner_action t conflict owner = Inr action \<Longrightarrow>
   (case action of UpdateOwner x \<Rightarrow> owner = Some x \<and> dr_primary_key x = dr_primary_key (uc_owner conflict)
    | DeleteOwner \<Rightarrow> owner = None)"
  by (cases owner)
    (auto simp: plan_unique_owner_action_def validate_current_source_owner_def split: if_splits)

lemma reconcile_owner_step:
  assumes "reconcile_unique_owner_conflict t env conflict rk idx w = (r, w')"
  shows "tgt_step w w'"
proof -
  obtain so w1 where rd: "source_read_row_by_primary_key env (dr_primary_key (uc_owner conflict)) w = (so, w1)"
    by fastforce
  have same: "src w1 = src w" "tgt w1 = tgt w" "base w1 = base w" "stored w1 = stored w"
    using source_exact [OF rd] by blast+
  then have st: "tgt_step w w1" by (rule tgt_step_same)
  have step: "tgt_step w1 w2"
    if act: "plan_unique_owner_action t conflict owner = Inr action" and so: "so = Inr owner"
      and run: "reconcile_unique_owner env conflict action w1 = (u, w2)" for owner action u w2
  proof -
    have "case action of UpdateOwner x \<Rightarrow> src w1 (dr_primary_key x) = Some (dr_values x)
       | DeleteOwner \<Rightarrow> src w1 (dr_primary_key (uc_owner conflict)) = None"
      using plan_owner_key [OF act] source_exact [OF rd] so same by (cases action) simp_all
    then show ?thesis using reconcile [OF run] unfolding tgt_step_def by blast
  qed
  show ?thesis
    using assms rd st step tgt_step_trans [OF st]
    unfolding reconcile_unique_owner_conflict_def
    by (fastforce simp: bind_op_def map_err_op_def lift_op_def map_err_def ret_op_def
          split: sum.splits prod.splits)
qed

lemma reconcile_conflicts_step:
  "reconcile_conflicts t env conflicts rk idx w = (r, w') \<Longrightarrow> tgt_step w w'"
proof (induction conflicts arbitrary: rk idx w)
  case (Cons c cs)
  obtain q w1 where one: "reconcile_unique_owner_conflict t env c rk idx w = (q, w1)" by fastforce
  show ?case
  proof (cases q)
    case (Inr a)
    obtain rk' idx' where a: "a = (rk', idx')" by fastforce
    have "reconcile_conflicts t env cs rk' idx' w1 = (r, w')"
      using Cons.prems one Inr a by (simp add: bind_op_def)
    then show ?thesis using Cons.IH reconcile_owner_step [OF one] tgt_step_trans by blast
  qed (use Cons.prems one reconcile_owner_step [OF one] in \<open>simp add: bind_op_def\<close>)
qed (simp add: ret_op_def)

lemma inspect_step:
  assumes "inspect_and_reconcile_mutation_failure t env f rk idx w = (r, w')"
  shows "tgt_step w w'"
proof -
  obtain q w1 where one: "inspect_unique_owner_conflicts env f w = (q, w1)" by fastforce
  have st: "tgt_step w w1" using inspect [OF one] by (intro tgt_step_same) simp_all
  show ?thesis
    using assms one st reconcile_conflicts_step tgt_step_trans [OF st]
    unfolding inspect_and_reconcile_mutation_failure_def
    by (cases q) (auto simp: bind_op_def map_err_op_def)
qed

lemma strict_loop_correct:
  assumes "strict_mutation_loop fuel t env kind rows rk idx w = (r, w')" "from_source w rows"
  shows "tgt_step w w' \<and> (\<forall>x. r = Inr x \<longrightarrow>
     (\<forall>x \<in> set rows. row_agrees table (src w (dr_primary_key x)) (tgt w' (dr_primary_key x))))"
  using assms
proof (induction fuel arbitrary: rows rk idx w)
  case 0
  then show ?case by (auto simp: fail_op_def)
next
  case (Suc fuel)
  obtain q w1 where tr: "try_strict_mutation t env rows kind w = (q, w1)" by fastforce
  note T = try_strict_correct [OF tr Suc.prems(2)]
  consider (err) er where "q = Inl er" | (ok) "q = Inr None" | (dup) f where "q = Inr (Some f)"
    by (metis sum.exhaust option.exhaust)
  then show ?case
  proof cases
    case err
    then show ?thesis using Suc.prems(1) tr T(1) by (auto simp: bind_op_def)
  next
    case ok
    then show ?thesis using Suc.prems(1) tr T(1,2) by (auto simp: bind_op_def ret_op_def)
  next
    case dup
    obtain p w2 where ins: "inspect_and_reconcile_mutation_failure t env f rk idx w1 = (p, w2)" by fastforce
    have st: "tgt_step w w2" using inspect_step [OF ins] T(1) tgt_step_trans by blast
    show ?thesis
    proof (cases p)
      case (Inl er)
      then show ?thesis using Suc.prems(1) tr dup ins st by (auto simp: bind_op_def)
    next
      case (Inr a)
      obtain rk' idx' where a: "a = (rk', idx')" by fastforce
      have loop: "strict_mutation_loop fuel t env kind (retry_rows f) rk' idx' w2 = (r, w')"
        using Suc.prems(1) tr dup ins Inr a by (simp add: bind_op_def)
      have "from_source w2 (retry_rows f)" using T(3) [OF dup] from_source_step [OF st] by simp
      note IH = Suc.IH [OF loop this]
      have "tgt_step w1 w'" using IH inspect_step [OF ins] tgt_step_trans by blast
      then have mono: "row_agrees table (src w k) (tgt w1 k) \<Longrightarrow> row_agrees table (src w k) (tgt w' k)" for k
        using row_agrees_mono T(1) unfolding tgt_step_def by metis
      have "src w2 = src w" using st by (rule tgt_step_src)
      then show ?thesis using IH st tgt_step_trans T(3) [OF dup] mono by metis
    qed
  qed
qed

lemma apply_strict_correct:
  assumes "apply_strict_mutations fuel t env rows kind w = (r, w')" "from_source w rows"
  shows "tgt_step w w' \<and> (r = Inr () \<longrightarrow>
     (\<forall>x \<in> set rows. row_agrees table (src w (dr_primary_key x)) (tgt w' (dr_primary_key x))))"
proof (cases "rows = []")
  case True
  then show ?thesis using assms(1) by (simp add: apply_strict_mutations_def ret_op_def)
next
  case False
  obtain q w1 where loop: "strict_mutation_loop fuel t env kind rows [] [] w = (q, w1)" by fastforce
  note L = strict_loop_correct [OF loop assms(2)]
  show ?thesis
  proof (cases q)
    case (Inl er)
    then show ?thesis using assms(1) False loop L by (auto simp: apply_strict_mutations_def bind_op_def)
  next
    case (Inr idx)
    obtain v w2 where ver: "verify_rows env (map snd idx) w1 = (v, w2)" by fastforce
    have "tgt w' = tgt w1" "tgt_step w1 w'"
      using assms(1) False loop Inr ver verify [OF ver] tgt_step_same [of w2 w1]
      by (auto simp: apply_strict_mutations_def bind_op_def map_err_op_def ret_op_def split: if_splits)
    then show ?thesis using L Inr tgt_step_trans by auto
  qed
qed

text \<open>A window of source rows, and the tail of the target beyond the last source row.\<close>

lemma source_changes_correct:
  assumes "apply_source_changes fuel t env ch w = (r, w')"
    and "from_source w (ch_updates ch)" "from_source w (ch_inserts ch)"
  shows "tgt_step w w' \<and> (r = Inr () \<longrightarrow>
     (\<forall>x \<in> set (ch_updates ch) \<union> set (ch_inserts ch).
        row_agrees table (src w (dr_primary_key x)) (tgt w' (dr_primary_key x))))"
proof -
  obtain q w1 where upd: "apply_strict_mutations fuel t env (ch_updates ch) UpdateKind w = (q, w1)" by fastforce
  note U = apply_strict_correct [OF upd assms(2)]
  show ?thesis
  proof (cases q)
    case (Inl er)
    then show ?thesis using assms(1) upd U by (auto simp: apply_source_changes_def bind_op_def)
  next
    case (Inr v)
    then have ins: "apply_strict_mutations fuel t env (ch_inserts ch) InsertKind w1 = (r, w')"
      using assms(1) upd by (simp add: apply_source_changes_def bind_op_def)
    have src1: "src w1 = src w" using U tgt_step_src by blast
    have "from_source w1 (ch_inserts ch)" using assms(3) U from_source_step by blast
    note V = apply_strict_correct [OF ins this, unfolded src1]
    have "row_agrees table (src w k) (tgt w1 k) \<Longrightarrow> row_agrees table (src w k) (tgt w' k)" for k
      using V row_agrees_mono src1 unfolding tgt_step_def by metis
    then show ?thesis using U V Inr tgt_step_trans by auto
  qed
qed

lemma index_pages_inv:
  assumes page: "page_of key_less (src w) \<lparr>rq_start_after = s, rq_end_at = None, rq_limit = n\<rparr> page"
    and ne: "pg_rows page \<noteq> []"
  shows "pages_inv w phase s (dr_primary_key (last (pg_rows page))) s (index_rows (pg_rows page)) []"
proof -
  have d: "distinct (map dr_primary_key (pg_rows page))" by (rule page_distinct [OF page])
  have rows: "\<forall>r \<in> set (pg_rows page). src w (dr_primary_key r) = Some (dr_values r)"
    using page by (simp add: page_of_def)
  have "\<forall>k. in_window s (Some (dr_primary_key (last (pg_rows page)))) k \<longrightarrow> src w k \<noteq> None \<longrightarrow>
      k \<in> dr_primary_key ` set (pg_rows page)"
    using page ne unfolding page_of_def in_window_def by (simp add: upto_key_def)
  then have "\<forall>k. in_window s (Some (dr_primary_key (last (pg_rows page)))) k \<longrightarrow> src w k \<noteq> None \<longrightarrow>
      map_of (index_rows (pg_rows page)) k \<noteq> None"
    using index_rows_Some [OF d] by (metis imageE option.distinct(1))
  then show ?thesis
    unfolding pages_inv_def using index_rows_Some [OF d] rows
    by (simp add: from_source_def in_window_def)
qed

lemma source_window_correct:
  assumes run: "apply_source_window fuel config progress s (pg_rows page) env phase w = (r, w')"
    and page: "page_of key_less (src w) \<lparr>rq_start_after = s, rq_end_at = None, rq_limit = n\<rparr> page"
    and ne: "pg_rows page \<noteq> []" and cfg: "cc_table config = table" "0 < cc_chunk_size config"
  shows "tgt_step w w' \<and> (\<forall>p. r = Inr p \<longrightarrow>
     cp_run_id p = cp_run_id progress \<and> cp_table p = cp_table progress \<and> \<not> cp_complete p \<and>
     cp_last_primary_key p = Some (dr_primary_key (last (pg_rows page))) \<and>
     (\<forall>k. in_window s (cp_last_primary_key p) k \<longrightarrow> phase_done table phase (src w k) (tgt w' k)))"
proof -
  let ?e = "dr_primary_key (last (pg_rows page))"
  obtain q w1 where pages: "reconcile_target_pages fuel config env phase s ?e (pg_rows page) w = (q, w1)"
    by fastforce
  have P: "tgt_step w w1 \<and> (\<forall>ch. q = Inr ch \<longrightarrow> pages_post w1 phase s ?e ch)"
    using pages unfolding reconcile_target_pages_def
    by (rule pages_loop_correct) (use index_pages_inv [OF page ne] cfg in simp_all)
  show ?thesis
  proof (cases q)
    case (Inl er)
    then show ?thesis using run pages P by (auto simp: apply_source_window_def bind_op_def Let_def)
  next
    case (Inr ch)
    then have post: "from_source w1 (ch_updates ch)" "from_source w1 (ch_inserts ch)"
      "\<And>k. in_window s (Some ?e) k \<Longrightarrow> phase_done table phase (src w1 k) (tgt w1 k) \<or>
        k \<in> dr_primary_key ` (set (ch_updates ch) \<union> set (ch_inserts ch))"
      using P unfolding pages_post_def by blast+
    obtain v w2 where chg: "apply_source_changes fuel (st_name (cc_table config)) env ch w1 = (v, w2)"
      by fastforce
    note C = source_changes_correct [OF chg post(1,2)]
    have w2: "w' = w2" using run pages Inr chg
      by (cases v) (auto simp: apply_source_window_def bind_op_def Let_def ret_op_def)
    have step: "tgt_step w w'" using P C tgt_step_trans w2 by blast
    have src1: "src w1 = src w" using P tgt_step_src by blast
    have done_k: "phase_done table phase (src w k) (tgt w' k)"
      if "v = Inr ()" "in_window s (Some ?e) k" for k
      using post(3) [OF that(2)]
    proof
      assume "phase_done table phase (src w1 k) (tgt w1 k)"
      then show ?thesis using C phase_done_mono src1 w2 unfolding tgt_step_def by metis
    next
      assume "k \<in> dr_primary_key ` (set (ch_updates ch) \<union> set (ch_inserts ch))"
      then have "row_agrees table (src w1 k) (tgt w2 k)" using C that(1) by blast
      then show ?thesis using src1 w2 phase_done_agrees by simp
    qed
    show ?thesis
    proof (cases v)
      case Inl1: (Inl er)
      then show ?thesis using run pages Inr chg step by (auto simp: apply_source_window_def bind_op_def Let_def)
    next
      case Inr1: (Inr y)
      then have "r = Inr (record_progress (progress\<lparr>cp_last_primary_key := Some ?e, cp_complete := False\<rparr>)
                  (length (pg_rows page)) ch)"
        using run pages Inr chg by (auto simp: apply_source_window_def bind_op_def Let_def ret_op_def)
      then show ?thesis using step done_k Inr1 by (simp add: record_progress_def)
    qed
  qed
qed

lemma target_tail_correct:
  assumes run: "apply_target_tail config progress s env phase w = (r, w')"
    and absent: "\<forall>k. after_key key_less s k \<longrightarrow> src w k = None"
    and cfg: "0 < cc_chunk_size config" and incomplete: "\<not> cp_complete progress"
    and s: "s = cp_last_primary_key progress"
  shows "tgt_step w w' \<and> (\<forall>p. r = Inr p \<longrightarrow>
     cp_run_id p = cp_run_id progress \<and> cp_table p = cp_table progress \<and>
     (\<forall>k. after_key key_less s k \<longrightarrow>
        cp_complete p \<or> \<not> after_key key_less (cp_last_primary_key p) k \<longrightarrow>
        phase_done table phase (src w k) (tgt w' k)))"
proof -
  let ?req = "\<lparr>rq_start_after = s, rq_end_at = None, rq_limit = cc_chunk_size config\<rparr>"
  obtain q w1 where rd: "target_read_rows env ?req w = (q, w1)" by fastforce
  have same: "src w1 = src w" "tgt w1 = tgt w" "base w1 = base w" "stored w1 = stored w"
    using target_read [OF rd] by blast+
  then have st: "tgt_step w w1" by (rule tgt_step_same)
  show ?thesis
  proof (cases q)
    case (Inl er)
    then show ?thesis using run rd st by (auto simp: apply_target_tail_def bind_op_def map_err_op_def)
  next
    case (Inr page)
    have page: "page_of key_less (tgt w) ?req page" using target_read [OF rd] Inr cfg by simp
    let ?ks = "map dr_primary_key (pg_rows page)"
    have ks: "\<forall>k \<in> set ?ks. src w1 k = None" using page absent same by (simp add: page_of_def)
    have all: "tgt w k = None" if "after_key key_less s k" "k \<notin> set ?ks" "\<not> pg_has_more page" for k
      using page that unfolding page_of_def by (auto simp: upto_key_def)
    obtain u w2 where del: "delete_target_only_rows (st_name (cc_table config)) env ?ks w1 = (u, w2)" by fastforce
    note D = delete_only_step [OF del ks]
    show ?thesis
    proof (cases "phase_includes phase DeleteExtras")
      case True
      then have "bind_op (delete_target_only_rows (st_name (cc_table config)) env ?ks) (\<lambda>_. ret_op
          (progress\<lparr>cp_complete := \<not> pg_has_more page, cp_chunks := cp_chunks progress + 1,
             cp_deletes := cp_deletes progress + of_nat (length (pg_rows page))\<rparr>)) w1 = (r, w')"
        using run rd Inr
        by (cases "pg_rows page = []")
          (simp_all add: apply_target_tail_def bind_op_def map_err_op_def Let_def delete_target_only_rows_def)
      then have res: "w' = w2 \<and> (\<forall>p. r = Inr p \<longrightarrow> u = Inr () \<and>
          p = progress\<lparr>cp_complete := \<not> pg_has_more page, cp_chunks := cp_chunks progress + 1,
             cp_deletes := cp_deletes progress + of_nat (length (pg_rows page))\<rparr>)"
        using del by (cases u) (auto simp: bind_op_def ret_op_def)
      then have w2: "w' = w2" by blast
      have gone: "tgt w' k = None" if "u = Inr ()" "after_key key_less s k" "\<not> pg_has_more page" for k
      proof (cases "k \<in> set ?ks")
        case True
        show ?thesis using D(2) [rule_format, OF that(1) True] w2 by simp
      next
        case False
        have "tgt w2 k = tgt w1 k" using D(3) [rule_format, OF False] .
        then show ?thesis using all [OF that(2) False that(3)] same(2) w2 by simp
      qed
      have ret: "u = Inr () \<and> cp_run_id p = cp_run_id progress \<and>
          cp_table p = cp_table progress \<and> cp_complete p = (\<not> pg_has_more page) \<and> cp_last_primary_key p = s"
        if "r = Inr p" for p
      proof -
        have "u = Inr ()" and p: "p = progress\<lparr>cp_complete := \<not> pg_has_more page,
            cp_chunks := cp_chunks progress + 1,
            cp_deletes := cp_deletes progress + of_nat (length (pg_rows page))\<rparr>"
          using res that by blast+
        then show ?thesis by (simp add: s)
      qed
      have "phase_done table phase (src w k) (tgt w' k)"
        if "r = Inr p" "after_key key_less s k" "cp_complete p \<or> \<not> after_key key_less (cp_last_primary_key p) k" for p k
        using gone [of k] ret [OF that(1)] that absent by (auto simp: phase_done_def)
      then show ?thesis using tgt_step_trans [OF st D(1)] w2 ret by blast
    next
      case False
      then have "w' = w1" "\<forall>p. r = Inr p \<longrightarrow> cp_run_id p = cp_run_id progress \<and> cp_table p = cp_table progress"
        using run rd Inr
        by (auto simp: apply_target_tail_def bind_op_def map_err_op_def ret_op_def Let_def)
      moreover have "phase_done table phase (src w k) (tgt w' k)" if "after_key key_less s k" for k
        using absent [rule_format, OF that] False by (simp add: phase_done_def)
      ultimately show ?thesis using st by blast
    qed
  qed
qed

text \<open>The durable invariant of a table: the stored progress is covered by the committed rows.\<close>

definition durable :: "sync_mutation_phase \<Rightarrow> string \<Rightarrow> string \<Rightarrow> 'w \<Rightarrow> bool" where
  "durable phase run t w = covered table key_less phase (stored w run t) (src w) (base w)"

lemma covered_mono: "authoritative table S T T' \<Longrightarrow> covered table key_less phase p S T \<Longrightarrow> covered table key_less phase p S T'"
  by (auto simp: covered_def phase_done_mono split: option.splits)

lemma authoritative_refl [simp]: "authoritative table S T T"
  by (simp add: authoritative_def)

lemma authoritative_trans:
  "authoritative table S A B \<Longrightarrow> authoritative table S B C \<Longrightarrow> authoritative table S A C"
  unfolding authoritative_def by metis

lemma locked_chunk_correct:
  assumes run: "apply_locked_chunk fuel config progress env phase w = (r, w')"
    and cfg: "cc_table config = table" "0 < cc_chunk_size config"
    and incomplete: "\<not> cp_complete progress"
    and cov: "covered table key_less phase (Some progress) (src w) (tgt w)"
  shows "src w' = src w \<and> stored w' = stored w \<and> authoritative table (src w) (tgt w) (tgt w') \<and>
     (base w' = base w \<or> base w' = tgt w') \<and>
     (\<forall>p. r = Inr p \<longrightarrow> base w' = tgt w' \<and> cp_run_id p = cp_run_id progress \<and>
        cp_table p = cp_table progress \<and> covered table key_less phase (Some p) (src w) (tgt w'))"
proof -
  let ?s = "cp_last_primary_key progress"
  let ?req = "\<lparr>rq_start_after = ?s, rq_end_at = None, rq_limit = cc_chunk_size config\<rparr>"
  obtain q w1 where rd: "source_read_rows env ?req w = (q, w1)" by fastforce
  have same: "src w1 = src w" "tgt w1 = tgt w" "base w1 = base w" "stored w1 = stored w"
    using source_read [OF rd] by blast+
  have before: "phase_done table phase (src w k) (tgt w k)" if "\<not> after_key key_less ?s k" for k
    using cov that by (simp add: covered_def)
  show ?thesis
  proof (cases q)
    case (Inl er)
    then show ?thesis using run rd same by (auto simp: apply_locked_chunk_def bind_op_def map_err_op_def Let_def)
  next
    case (Inr page)
    have page: "page_of key_less (src w1) ?req page" using source_read [OF rd] Inr cfg same by simp
    obtain v w2 where work: "(if pg_rows page = [] then apply_target_tail config progress ?s env phase
        else apply_source_window fuel config progress ?s (pg_rows page) env phase) w1 = (v, w2)" by fastforce
    have W: "tgt_step w1 w2 \<and> (\<forall>p. v = Inr p \<longrightarrow> cp_run_id p = cp_run_id progress \<and>
        cp_table p = cp_table progress \<and>
        (\<forall>k. after_key key_less ?s k \<longrightarrow> cp_complete p \<or> \<not> after_key key_less (cp_last_primary_key p) k \<longrightarrow>
          phase_done table phase (src w1 k) (tgt w2 k)))"
    proof (cases "pg_rows page = []")
      case True
      then have absent: "\<forall>k. after_key key_less ?s k \<longrightarrow> src w1 k = None"
        using page unfolding page_of_def by (auto simp: upto_key_def)
      have "apply_target_tail config progress ?s env phase w1 = (v, w2)" using work True by simp
      from target_tail_correct [OF this absent cfg(2) incomplete refl] show ?thesis .
    next
      case False
      then have "apply_source_window fuel config progress ?s (pg_rows page) env phase w1 = (v, w2)"
        using work by simp
      note S = source_window_correct [OF this page False cfg]
      have "phase_done table phase (src w1 k) (tgt w2 k)"
        if "v = Inr p" "after_key key_less ?s k"
          "cp_complete p \<or> \<not> after_key key_less (cp_last_primary_key p) k" for p k
      proof -
        let ?e = "dr_primary_key (last (pg_rows page))"
        have "cp_last_primary_key p = Some ?e" "\<not> cp_complete p" using S that(1) by blast+
        then have "in_window ?s (cp_last_primary_key p) k"
          using that(2,3) by (simp add: in_window_def after_key_def [of _ "Some _"] upto_key_def)
        then show ?thesis using S that(1) by blast
      qed
      then show ?thesis using S by blast
    qed
    then have auth: "authoritative table (src w) (tgt w) (tgt w2)" and keep: "src w2 = src w"
      "base w2 = base w" "stored w2 = stored w"
      using same by (simp_all add: tgt_step_def)
    have covp: "covered table key_less phase (Some p) (src w) (tgt w2)" if "v = Inr p" for p
      unfolding covered_def option.case
    proof (intro allI impI)
      fix k assume k: "cp_complete p \<or> \<not> after_key key_less (cp_last_primary_key p) k"
      show "phase_done table phase (src w k) (tgt w2 k)"
      proof (cases "after_key key_less ?s k")
        case True
        then have "phase_done table phase (src w1 k) (tgt w2 k)" using W that k by blast
        then show ?thesis using same(1) by simp
      next
        case False
        then show ?thesis using before auth phase_done_mono by blast
      qed
    qed
    show ?thesis
    proof (cases v)
      case Inl1: (Inl er)
      then show ?thesis using run rd Inr work auth keep
        by (auto simp: apply_locked_chunk_def bind_op_def map_err_op_def Let_def)
    next
      case Inr1: (Inr p)
      obtain c w3 where com: "commit env w2 = (c, w3)" by fastforce
      have "w' = w3 \<and> (\<forall>p'. r = Inr p' \<longrightarrow> c = Inr () \<and> p' = p)"
        using run rd Inr work Inr1 com
        by (cases c) (auto simp: apply_locked_chunk_def bind_op_def map_err_op_def ret_op_def Let_def)
      moreover have "src w3 = src w" "tgt w3 = tgt w2" "stored w3 = stored w"
        "base w3 = tgt w3 \<or> c \<noteq> Inr () \<and> base w3 = base w"
        using commit_law [OF com] keep by metis+
      moreover have "cp_run_id p = cp_run_id progress \<and> cp_table p = cp_table progress"
        using W Inr1 by blast
      ultimately show ?thesis using auth covp [OF Inr1] by metis
    qed
  qed
qed

text \<open>Cleanup: whatever rollback and unlock do, the committed rows only move to rows that were
  already authoritative.\<close>

lemma rollback_unlock_base:
  assumes "rollback_and_unlock env er w = (er', w')"
  shows "src w' = src w \<and> stored w' = stored w \<and> (base w' = base w \<or> base w' = tgt w)"
proof -
  obtain a w1 where rb: "rollback env w = (a, w1)" by fastforce
  obtain b w2 where ul: "unlock_tables env w1 = (b, w2)" by fastforce
  have "w' = w2" using assms rb ul by (simp add: rollback_and_unlock_def Let_def)
  moreover have "src w1 = src w" "base w1 = base w" "stored w1 = stored w" "tgt w1 = base w \<or> tgt w1 = tgt w"
    using rollback_law [OF rb] by blast+
  moreover have "src w2 = src w1" "stored w2 = stored w1" "base w2 = base w1 \<or> base w2 = tgt w1"
    using unlock_law [OF ul] by blast+
  ultimately show ?thesis by metis
qed

lemma save_unlock_correct:
  assumes "save_progress_and_unlock config p env w = (r, w')"
  shows "src w' = src w \<and> tgt w' = tgt w \<and> (base w' = base w \<or> base w' = tgt w) \<and>
     (stored w' = (stored w)(cp_run_id p := (stored w (cp_run_id p))(cp_table p \<mapsto> p)) \<or> stored w' = stored w) \<and>
     (\<forall>q. r = Inr q \<longrightarrow> q = p \<and> stored w' (cp_run_id p) (cp_table p) = Some p)"
proof -
  obtain a w1 where sv: "progress_save env p w = (a, w1)" by fastforce
  obtain b w2 where ul: "unlock_tables env w1 = (b, w2)" by fastforce
  have "w' = w2 \<and> (\<forall>q. r = Inr q \<longrightarrow> q = p \<and> a = Inr ())"
    using assms sv ul
    by (cases a; cases b) (auto simp: save_progress_and_unlock_def unlock_after_error_def bind_op_def
        map_err_op_def ret_op_def)
  moreover have "src w1 = src w" "tgt w1 = tgt w" "base w1 = base w"
    "stored w1 = (stored w)(cp_run_id p := (stored w (cp_run_id p))(cp_table p \<mapsto> p)) \<or>
     a \<noteq> Inr () \<and> stored w1 = stored w"
    using save_law [OF sv] by blast+
  moreover have "src w2 = src w1" "tgt w2 = tgt w1" "stored w2 = stored w1" "base w2 = base w1 \<or> base w2 = tgt w1"
    using unlock_law [OF ul] by blast+
  moreover have "((stored w)(cp_run_id p := (stored w (cp_run_id p))(cp_table p \<mapsto> p))) (cp_run_id p) (cp_table p) = Some p"
    by simp
  ultimately show ?thesis by metis
qed

text \<open>The main lemma: on every outcome of a chunk the durable invariant holds, and a successful
  one reports the progress that is stored.\<close>

lemma sync_next_chunk_correct:
  assumes run: "sync_next_chunk_with_phase fuel config env phase w = (r, w')"
    and cfg: "cc_table config = table" "0 < cc_chunk_size config"
    and clean: "tgt w = base w"
    and dur: "durable phase (cc_run_id config) (st_name table) w"
  shows "src w' = src w \<and> authoritative table (src w) (base w) (base w') \<and>
     durable phase (cc_run_id config) (st_name table) w' \<and>
     (\<forall>p. r = Inr p \<longrightarrow> tgt w' = base w' \<and> stored w' (cc_run_id config) (st_name table) = Some p)"
proof -
  let ?R = "cc_run_id config" and ?T = "st_name table"
  obtain ld w0 where load: "progress_load env ?R ?T w = (ld, w0)" by fastforce
  have same0: "src w0 = src w" "tgt w0 = tgt w" "base w0 = base w" "stored w0 = stored w"
    "\<forall>x. ld = Inr x \<longrightarrow> x = stored w ?R ?T"
    using load_law [OF load] by blast+
  obtain q w1 where lp: "load_progress config env w = (q, w1)" by fastforce
  have w1: "w1 = w0" using lp load cfg(1)
    by (auto simp: load_progress_def bind_op_def map_err_op_def lift_op_def ret_op_def
        split: sum.splits option.splits)
  have q: "(stored w ?R ?T = Some p \<or> p = initial_progress config) \<and> cp_run_id p = ?R \<and> cp_table p = ?T"
    if "q = Inr p" for p
    using lp load cfg(1) same0(5) that
    by (auto simp: load_progress_def bind_op_def map_err_op_def lift_op_def ret_op_def
        validate_progress_identity_def initial_progress_def split: sum.splits option.splits if_splits)
  have dur0: "durable phase ?R ?T w0" using dur same0 by (simp add: durable_def)
  have base_case: "src w0 = src w \<and> authoritative table (src w) (base w) (base w0) \<and> durable phase ?R ?T w0"
    using dur0 same0 by simp
  show ?thesis
  proof (cases q)
    case (Inl er)
    then show ?thesis using run lp w1 base_case by (auto simp: sync_next_chunk_with_phase_def bind_op_def)
  next
    case (Inr p)
    note p = q [OF Inr]
    show ?thesis
    proof (cases "cp_complete p")
      case True
      then have st: "stored w ?R ?T = Some p" using p by (auto simp: initial_progress_def)
      have "r = Inr p" "w' = w0" using run lp w1 Inr True
        by (auto simp: sync_next_chunk_with_phase_def bind_op_def ret_op_def)
      then show ?thesis using base_case st same0 clean by simp
    next
      case False
      obtain z w2 where prep: "prepare_target_chunk config env w0 = (z, w2)" by fastforce
      have same2: "src w2 = src w" "tgt w2 = tgt w" "base w2 = base w" "stored w2 = stored w"
      proof -
        obtain a w3 where ac: "set_autocommit env False w0 = (a, w3)" by fastforce
        obtain b w4 where lk: "lock_table_write env (cc_target_database config) (st_name (cc_table config)) w3 = (b, w4)"
          by fastforce
        have "w2 = w3 \<or> w2 = w4" using prep ac lk
          by (cases a) (auto simp: prepare_target_chunk_def bind_op_def map_err_op_def)
        then show "src w2 = src w" "tgt w2 = tgt w" "base w2 = base w" "stored w2 = stored w"
          using autocommit [OF ac] lock [OF lk] same0 clean by metis+
      qed
      have dur2: "durable phase ?R ?T w2" using dur same2 by (simp add: durable_def)
      show ?thesis
      proof (cases z)
        case Inl2: (Inl er)
        then show ?thesis using run lp w1 Inr False prep dur2 same2
          by (auto simp: sync_next_chunk_with_phase_def bind_op_def)
      next
        case Inr2: (Inr y)
        obtain v w3 where lc: "apply_locked_chunk fuel config p env phase w2 = (v, w3)" by fastforce
        have cov: "covered table key_less phase (Some p) (src w2) (tgt w2)"
        proof -
          have "covered table key_less phase (Some (initial_progress config)) (src w2) (tgt w2)"
            by (simp add: covered_def initial_progress_def after_key_def)
          moreover have "stored w ?R ?T = Some p \<Longrightarrow> covered table key_less phase (Some p) (src w2) (tgt w2)"
            using dur clean same2 by (simp add: durable_def)
          ultimately show ?thesis using p by blast
        qed
        note L = locked_chunk_correct [OF lc cfg False cov, unfolded same2 clean]
        have run3: "(r, w') = (case v of Inr p' \<Rightarrow> save_progress_and_unlock config p' env w3
           | Inl er \<Rightarrow> (case rollback_and_unlock env er w3 of (e, w'') \<Rightarrow> (Inl e, w'')))"
          using run lp w1 Inr False prep Inr2 lc
          by (auto simp: sync_next_chunk_with_phase_def bind_op_def split: sum.splits)
        have covst: "covered table key_less phase (stored w ?R ?T) (src w) (base w)" using dur by (simp add: durable_def)
        show ?thesis
        proof (cases v)
          case Inl3: (Inl er)
          obtain er' w4 where rb: "rollback_and_unlock env er w3 = (er', w4)" by fastforce
          have "w' = w4" "\<forall>p. r \<noteq> Inr p" using run3 Inl3 rb by simp_all
          moreover have "src w4 = src w" "stored w4 = stored w" "authoritative table (src w) (base w) (base w4)"
            using rollback_unlock_base [OF rb] L by auto
          ultimately show ?thesis using covered_mono [OF _ covst] by (simp add: durable_def)
        next
          case Inr3: (Inr p')
          then have sv: "save_progress_and_unlock config p' env w3 = (r, w')" using run3 by simp
          have b3: "base w3 = tgt w3" and id3: "cp_run_id p' = ?R" "cp_table p' = ?T"
            and cov3: "covered table key_less phase (Some p') (src w) (tgt w3)"
            and auth: "authoritative table (src w) (base w) (tgt w3)" and st3: "stored w3 = stored w" "src w3 = src w"
            using L Inr3 p by auto
          have W: "src w' = src w" "tgt w' = tgt w3" "base w' = tgt w3"
            "stored w' ?R ?T = Some p' \<or> stored w' = stored w"
            "\<forall>q. r = Inr q \<longrightarrow> q = p' \<and> stored w' ?R ?T = Some p'"
            using save_unlock_correct [OF sv] b3 id3 st3 by auto
          have "covered table key_less phase (stored w' ?R ?T) (src w) (tgt w3)"
            using W(4) cov3 covered_mono [OF auth covst] by auto
          then show ?thesis using W auth by (auto simp: durable_def)
        qed
      qed
    qed
  qed
qed

lemma sync_to_completion_correct:
  assumes "sync_table_to_completion n fuel config env phase w = (r, w')"
    and cfg: "cc_table config = table" "0 < cc_chunk_size config"
    and "tgt w = base w" "durable phase (cc_run_id config) (st_name table) w"
  shows "src w' = src w \<and> authoritative table (src w) (base w) (base w') \<and>
     durable phase (cc_run_id config) (st_name table) w' \<and>
     (\<forall>p. r = Inr p \<longrightarrow> tgt w' = base w' \<and> cp_complete p \<and>
        (\<forall>k. phase_done table phase (src w k) (base w' k)))"
  using assms
proof (induction n arbitrary: w)
  case 0
  then show ?case by (auto simp: fail_op_def)
next
  case (Suc n)
  obtain q w1 where one: "sync_next_chunk_with_phase fuel config env phase w = (q, w1)" by fastforce
  note C = sync_next_chunk_correct [OF one cfg Suc.prems(4,5)]
  show ?case
  proof (cases q)
    case (Inl er)
    then show ?thesis using Suc.prems(1) one C by (auto simp: bind_op_def)
  next
    case (Inr p)
    show ?thesis
    proof (cases "cp_complete p")
      case True
      then have "r = Inr p" "w' = w1" using Suc.prems(1) one Inr by (auto simp: bind_op_def ret_op_def)
      moreover have cov: "covered table key_less phase (Some p) (src w1) (base w1)" "src w1 = src w"
        using C Inr unfolding durable_def by metis+
      moreover have "\<forall>k. phase_done table phase (src w k) (base w1 k)"
        using cov True by (simp add: covered_def)
      ultimately show ?thesis using C Inr True by blast
    next
      case False
      then have loop: "sync_table_to_completion n fuel config env phase w1 = (r, w')"
        using Suc.prems(1) one Inr by (simp add: bind_op_def)
      have "tgt w1 = base w1" "durable phase (cc_run_id config) (st_name table) w1" "src w1 = src w"
        using C Inr by blast+
      then show ?thesis
        using Suc.IH [OF loop cfg] C authoritative_trans by metis
    qed
  qed
qed

end

end
