(* ===== verification/Sync_Adapter_Correct.thy ===== *)
theory Sync_Adapter_Correct
  imports Sync_Adapter Sync_Chunk_Correct
begin

text \<open>
  The MySQL adapter keeps the backend contract. The locale \<open>mysql_engine\<close> states what the server
  and the \<open>mysql\<close> crate are documented to do with each statement; \<open>mysql_backend\<close> derives the
  contract \<open>sync_backend\<close> for the adapter's operations from it, and the chunk theorems follow for
  every such server. The in-memory server at the end shows that the contract can be met.
\<close>

section \<open>What the server shows\<close>

record db_view =
  dv_src :: "row_key \<Rightarrow> row_values option"
  dv_tgt :: "row_key \<Rightarrow> row_values option"
  dv_base :: "row_key \<Rightarrow> row_values option"
  dv_rows :: "string \<Rightarrow> sync_stage \<Rightarrow> string \<Rightarrow> sync_progress_row option"

text \<open>The result of a keyset read with \<open>ORDER BY\<close> and \<open>LIMIT\<close>: the first rows of the range.\<close>

definition keyset_result ::
  "sync_table \<Rightarrow> (row_key \<Rightarrow> row_key \<Rightarrow> bool) \<Rightarrow> (row_key \<Rightarrow> row_values option) \<Rightarrow> sync_chunk_read_request
     \<Rightarrow> (string + cells) list \<Rightarrow> bool"
where
  "keyset_result table lt T req rs \<longleftrightarrow>
     (\<exists>ds. list_all2 (\<lambda>x d. \<forall>c. x = Inr c \<longrightarrow> decode_sync_row table c = Inr d) rs ds \<and>
        length ds \<le> rq_limit req \<and> sorted_wrt lt (map dr_primary_key ds) \<and>
        (\<forall>d \<in> set ds. after_key lt (rq_start_after req) (dr_primary_key d) \<and>
           upto_key lt (rq_end_at req) (dr_primary_key d) \<and> T (dr_primary_key d) = Some (dr_values d)) \<and>
        (\<forall>k. after_key lt (rq_start_after req) k \<and> upto_key lt (rq_end_at req) k \<and> T k \<noteq> None \<and>
           (length ds < rq_limit req \<or> ds \<noteq> [] \<and> \<not> lt (dr_primary_key (last ds)) k) \<longrightarrow>
           k \<in> dr_primary_key ` set ds))"

definition exact_result :: "sync_table \<Rightarrow> (row_key \<Rightarrow> row_values option) \<Rightarrow> row_key \<Rightarrow> cells list \<Rightarrow> bool" where
  "exact_result table T k rs \<longleftrightarrow>
     decode_sync_rows table rs = Inr (case T k of None \<Rightarrow> [] | Some v \<Rightarrow> [\<lparr>dr_primary_key = k, dr_values = v\<rparr>])"

text \<open>The columns of a progress row the upsert keeps; the timestamps are the server's.\<close>

definition same_progress :: "sync_progress_row \<Rightarrow> sync_progress_row \<Rightarrow> bool" where
  "same_progress a b \<longleftrightarrow>
     a = b\<lparr>pr_created_at := pr_created_at a, pr_updated_at := pr_updated_at a, pr_completed_at := pr_completed_at a\<rparr>"

text \<open>A statement over some rows changes only those rows, to what it says.\<close>

definition rows_changed ::
  "sync_table \<Rightarrow> database_row list \<Rightarrow> (row_key \<Rightarrow> row_values option) \<Rightarrow> (row_key \<Rightarrow> row_values option) \<Rightarrow> bool"
where
  "rows_changed table rows T T' \<longleftrightarrow>
     (\<forall>k. T' k = T k \<or> (\<exists>x \<in> set rows. dr_primary_key x = k \<and> row_agrees table (Some (dr_values x)) (T' k)))"

text \<open>The chunk progress a stored row stands for.\<close>

definition stored_progress :: "db_view \<Rightarrow> string \<Rightarrow> string \<Rightarrow> sync_chunk_progress option" where
  "stored_progress v run t = (case dv_rows v run RowsStage t of
      None \<Rightarrow> None
    | Some row \<Rightarrow> (case sync_chunk_progress_from_row row of Inr p \<Rightarrow> Some p | Inl _ \<Rightarrow> None))"

section \<open>Progress rows\<close>

lemma progress_row_roundtrip:
  "same_progress row (sync_progress_row_from_chunk p) \<Longrightarrow> sync_chunk_progress_from_row row = Inr p"
proof -
  assume "same_progress row (sync_progress_row_from_chunk p)"
  then have row: "row = (sync_progress_row_from_chunk p)\<lparr>pr_created_at := pr_created_at row,
      pr_updated_at := pr_updated_at row, pr_completed_at := pr_completed_at row\<rparr>"
    by (simp add: same_progress_def)
  show ?thesis
    by (subst row, cases "cp_complete p")
      (simp_all add: sync_progress_row_from_chunk_def sync_chunk_progress_from_row_def bind_res_def)
qed

lemma nat_str_0: "nat_str 0 = ''0''"
  by code_simp

lemma capacity_pos: "0 < bounded_mutation_capacity n"
  by (simp add: bounded_mutation_capacity_def)

section \<open>Pages\<close>

lemma page_prefix:
  assumes "collect_page endpoint table c rs = Inr page"
    and "list_all2 (\<lambda>x d. \<forall>r. x = Inr r \<longrightarrow> decode_sync_row table r = Inr d) rs ds"
    and "length (rc_rows c) \<le> rc_row_limit c"
  shows "\<exists>n \<le> length ds. pg_rows page = rc_rows c @ take n ds \<and>
     pg_has_more page = (n < length ds \<or> length (pg_rows page) = rc_row_limit c) \<and>
     (rc_rows c = [] \<longrightarrow> 0 < rc_row_limit c \<longrightarrow> ds \<noteq> [] \<longrightarrow> 0 < n)"
  using assms
proof (induction endpoint table c rs arbitrary: ds rule: collect_page.induct)
  case (1 endpoint table c)
  then show ?case by (auto simp: finish_def)
next
  case (3 endpoint table c row rows)
  obtain d ds' where ds: "ds = d # ds'" "decode_sync_row table row = Inr d"
    "list_all2 (\<lambda>x d. \<forall>r. x = Inr r \<longrightarrow> decode_sync_row table r = Inr d) rows ds'"
    using "3.prems"(2) by (auto simp: list_all2_Cons1)
  show ?case
  proof (cases "can_retain c d")
    case False
    then have "page = finish c True" "rc_rows c = [] \<longrightarrow> rc_row_limit c = 0"
      using "3.prems"(1) ds(2) by (auto simp: can_retain_def split: if_splits)
    then show ?thesis using ds(1) by (intro exI [of _ 0]) (auto simp: finish_def)
  next
    case True
    then have run: "collect_page endpoint table (retain c d) rows = Inr page"
      using "3.prems"(1) ds(2) by simp
    have "length (rc_rows c) < rc_row_limit c"
      using True "3.prems"(3) by (auto simp: can_retain_def split: if_splits)
    then have le: "length (rc_rows (retain c d)) \<le> rc_row_limit (retain c d)" by (simp add: retain_def)
    have "rc_row_limit (retain c d) = rc_row_limit c" by (simp add: retain_def)
    then obtain n where "n \<le> length ds'" "pg_rows page = rc_rows (retain c d) @ take n ds'"
      "pg_has_more page = (n < length ds' \<or> length (pg_rows page) = rc_row_limit c)"
      using "3.IH" [OF ds(2) _ run ds(3) le] True by metis
    then show ?thesis using ds(1) by (intro exI [of _ "Suc n"]) (simp add: retain_def)
  qed
qed auto

lemma sorted_take_last:
  assumes "sorted_wrt lt ks" "0 < n" "n \<le> length ks" "k \<in> set ks" "\<not> lt (last (take n ks)) k"
    and trans: "\<And>a b c. lt a b \<Longrightarrow> lt b c \<Longrightarrow> lt a c"
  shows "k \<in> set (take n ks)"
proof -
  obtain i where i: "i < length ks" "k = ks ! i" using assms(4) by (metis in_set_conv_nth)
  have l: "last (take n ks) = ks ! (n - 1)"
    using assms(2,3) by (subst last_conv_nth) (auto simp: min_def)
  have "\<not> n \<le> i"
  proof
    assume "n \<le> i"
    then have "lt (ks ! (n - 1)) (ks ! i)"
      using assms(1,2) i by (auto simp: sorted_wrt_iff_nth_less)
    then show False using assms(5) i l by simp
  qed
  then show ?thesis using i by (auto simp: in_set_conv_nth)
qed

lemma keyset_page:
  assumes res: "keyset_result table lt T req rs" and limit: "0 < rq_limit req"
    and run: "collect_page endpoint table (collector_new (rq_limit req) budget) rs = Inr page"
    and trans: "\<And>a b c. lt a b \<Longrightarrow> lt b c \<Longrightarrow> lt a c"
  shows "page_of lt T req page"
proof -
  obtain ds where dec: "list_all2 (\<lambda>x d. \<forall>c. x = Inr c \<longrightarrow> decode_sync_row table c = Inr d) rs ds"
    and len: "length ds \<le> rq_limit req" and sorted: "sorted_wrt lt (map dr_primary_key ds)"
    and rows: "\<forall>d \<in> set ds. after_key lt (rq_start_after req) (dr_primary_key d) \<and>
           upto_key lt (rq_end_at req) (dr_primary_key d) \<and> T (dr_primary_key d) = Some (dr_values d)"
    and full: "\<forall>k. after_key lt (rq_start_after req) k \<and> upto_key lt (rq_end_at req) k \<and> T k \<noteq> None \<and>
           (length ds < rq_limit req \<or> ds \<noteq> [] \<and> \<not> lt (dr_primary_key (last ds)) k) \<longrightarrow>
           k \<in> dr_primary_key ` set ds"
    using res unfolding keyset_result_def by blast
  obtain n where n: "n \<le> length ds" "pg_rows page = take n ds"
    "pg_has_more page = (n < length ds \<or> length (pg_rows page) = rq_limit req)" "ds \<noteq> [] \<longrightarrow> 0 < n"
    using page_prefix [OF run dec] limit unfolding collector_new_def
    by (metis append_Nil le0 list.size(3) row_collector.select_convs(1,3))
  have cover: "k \<in> dr_primary_key ` set (pg_rows page)"
    if k: "after_key lt (rq_start_after req) k" "upto_key lt (rq_end_at req) k" "T k \<noteq> None"
      and stop: "\<not> pg_has_more page \<or> pg_rows page \<noteq> [] \<and> \<not> lt (dr_primary_key (last (pg_rows page))) k" for k
  proof (cases "pg_has_more page")
    case False
    then have "pg_rows page = ds" "length ds < rq_limit req" using n len by auto
    then show ?thesis using full k by blast
  next
    case True
    then have ne: "pg_rows page \<noteq> []" and nl: "\<not> lt (dr_primary_key (last (pg_rows page))) k" using stop by auto
    then have n0: "0 < n" "ds \<noteq> []" using n(2) by auto
    have lastk: "dr_primary_key (last (pg_rows page)) = last (take n (map dr_primary_key ds))"
      using ne n(2) by (metis last_map take_map)
    have "\<not> lt (dr_primary_key (last ds)) k"
    proof (cases "n = length ds")
      case True
      then show ?thesis using nl n(2) by simp
    next
      case False
      then have "lt (map dr_primary_key ds ! (n - 1)) (map dr_primary_key ds ! (length ds - 1))"
        using sorted n(1) n0 by (auto simp: sorted_wrt_iff_nth_less)
      moreover have "dr_primary_key (last (pg_rows page)) = map dr_primary_key ds ! (n - 1)"
        using n(1,2) n0 ne by (simp add: last_conv_nth)
      moreover have "dr_primary_key (last ds) = map dr_primary_key ds ! (length ds - 1)"
        using n0 by (simp add: last_conv_nth)
      ultimately show ?thesis using nl trans by metis
    qed
    then have "k \<in> set (map dr_primary_key ds)" using full k n0 by auto
    then have "k \<in> set (take n (map dr_primary_key ds))"
      using sorted_take_last [OF sorted n0(1) _ _ _ trans] n(1) nl lastk by simp
    then show ?thesis using n(2) by (simp add: take_map)
  qed
  have "sorted_wrt lt (map dr_primary_key (pg_rows page))"
    using sorted n(2) by (simp add: sorted_wrt_take take_map [symmetric])
  moreover have "pg_has_more page \<longrightarrow> pg_rows page \<noteq> []" using n limit by auto
  moreover have "set (pg_rows page) \<subseteq> set ds" using n(2) by (simp add: set_take_subset)
  ultimately show ?thesis unfolding page_of_def using cover rows by blast
qed

section \<open>The server contract\<close>

locale mysql_engine =
  fixes srv :: "'w mysql_server"
    and ts :: "'w target_session"
    and lt :: "row_key \<Rightarrow> row_key \<Rightarrow> bool"
    and view :: "'w \<Rightarrow> db_view"
  assumes lt_irrefl: "\<not> lt k k"
    and lt_trans: "lt a b \<Longrightarrow> lt b c \<Longrightarrow> lt a c"
    and lt_total: "a \<noteq> b \<Longrightarrow> lt a b \<or> lt b a"
    and source_select: "build_sync_select_sql (ts_table ts) req = Inr sql \<Longrightarrow> my_source_query srv sql req w = (r, w') \<Longrightarrow>
      view w' = view w \<and> r \<noteq> Inr None \<and>
      (\<forall>rs. r = Inr (Some rs) \<longrightarrow> keyset_result (ts_table ts) lt (dv_src (view w)) req rs)"
    and source_exact_select: "build_exact_primary_key_select_statement (ts_table ts) k = Inr st \<Longrightarrow>
      my_source_exact srv st k w = (re, w') \<Longrightarrow>
      view w' = view w \<and> (\<forall>cs. re = Inr cs \<longrightarrow> exact_result (ts_table ts) (dv_src (view w)) k cs)"
    and target_select: "build_sync_select_sql (ts_table ts) req = Inr sql \<Longrightarrow> my_target_query srv sql req w = (r, w') \<Longrightarrow>
      view w' = view w \<and> r \<noteq> Inr None \<and>
      (\<forall>rs. r = Inr (Some rs) \<longrightarrow> keyset_result (ts_table ts) lt (dv_tgt (view w)) req rs)"
    and target_exact_select: "my_target_exact srv st k w = (re, w') \<Longrightarrow> view w' = view w"
    and target_owner_select: "my_target_owner srv st ix intended w = (re, w') \<Longrightarrow> view w' = view w"
    and unique_columns_select: "my_unique_columns srv st w = (ru, w') \<Longrightarrow> view w' = view w"
    and insert_statement: "build_strict_insert_statement (ts_table ts) rows = Inr st \<Longrightarrow>
      distinct (map dr_primary_key rows) \<Longrightarrow> my_insert srv st rows w = (rm, w') \<Longrightarrow>
      (\<exists>T'. view w' = (view w)\<lparr>dv_tgt := T'\<rparr> \<and> rows_changed (ts_table ts) rows (dv_tgt (view w)) T' \<and>
        (rm = Inr (of_nat (length rows)) \<longrightarrow>
           (\<forall>x \<in> set rows. row_agrees (ts_table ts) (Some (dr_values x)) (T' (dr_primary_key x)))))"
    and update_statement: "build_strict_update_rows_statement (ts_table ts) rows = Inr st \<Longrightarrow>
      distinct (map dr_primary_key rows) \<Longrightarrow> my_update srv st rows w = (rm, w') \<Longrightarrow>
      (\<exists>T'. view w' = (view w)\<lparr>dv_tgt := T'\<rparr> \<and> rows_changed (ts_table ts) rows (dv_tgt (view w)) T' \<and>
        (rm = Inr (of_nat (length rows)) \<longrightarrow>
           (\<forall>x \<in> set rows. row_agrees (ts_table ts) (Some (dr_values x)) (T' (dr_primary_key x)))))"
    and delete_statement: "build_strict_delete_rows_statement (ts_table ts) ks = Inr st \<Longrightarrow>
      my_delete srv st ks w = (rd, w') \<Longrightarrow>
      (\<exists>T'. view w' = (view w)\<lparr>dv_tgt := T'\<rparr> \<and>
        (\<forall>k. T' k = dv_tgt (view w) k \<or> k \<in> set ks \<and> T' k = None) \<and>
        (\<forall>n. rd = Inr n \<longrightarrow> (\<forall>k \<in> set ks. T' k = None)))"
    and autocommit_off: "my_control srv ''SET autocommit=0'' w = (u, w') \<Longrightarrow> view w' = view w"
    and lock_control: "take 12 sql = ''LOCK TABLES '' \<Longrightarrow> my_control srv sql w = (u, w') \<Longrightarrow>
      view w' = view w \<or> view w' = (view w)\<lparr>dv_base := dv_tgt (view w)\<rparr>"
    and commit_control: "my_control srv ''COMMIT'' w = (u, w') \<Longrightarrow>
      view w' = (view w)\<lparr>dv_base := dv_tgt (view w)\<rparr> \<or> u \<noteq> Inr () \<and> view w' = view w"
    and rollback_control: "my_control srv ''ROLLBACK'' w = (u, w') \<Longrightarrow>
      view w' = (view w)\<lparr>dv_tgt := dv_base (view w)\<rparr> \<or> u \<noteq> Inr () \<and> view w' = view w"
    and unlock_control: "my_control srv ''UNLOCK TABLES'' w = (u, w') \<Longrightarrow>
      view w' = view w \<or> view w' = (view w)\<lparr>dv_base := dv_tgt (view w)\<rparr>"
    and load_stage: "my_load_stage srv run stage t w = (rl, w') \<Longrightarrow>
      view w' = view w \<and> (\<forall>x. rl = Inr x \<longrightarrow> x = dv_rows (view w) run stage t)"
    and rows_keyed: "dv_rows (view w) run stage t = Some row \<Longrightarrow>
      pr_run_id row = run \<and> pr_stage row = stage \<and> pr_table_name row = t"
    and save_stage: "my_save_stage srv row w = (u, w') \<Longrightarrow>
      (\<exists>row'. same_progress row' row \<and> view w' = (view w)\<lparr>dv_rows := (\<lambda>run stage t.
         if run = pr_run_id row \<and> stage = pr_stage row \<and> t = pr_table_name row then Some row'
         else dv_rows (view w) run stage t)\<rparr>) \<or> u \<noteq> Inr () \<and> view w' = view w"
    and replace_owners: "ts_transitions ts = Some tr \<Longrightarrow> tr_replace_owners tr f s = ((rb, f'), s') \<Longrightarrow>
      distinct (map dr_primary_key (retry_rows f)) \<Longrightarrow>
      (\<forall>x \<in> set (retry_rows f). dv_src (view (se_server s)) (dr_primary_key x) = Some (dr_values x)) \<Longrightarrow>
      mf_mysql_code f' = mf_mysql_code f \<and> set (retry_rows f') \<subseteq> set (retry_rows f) \<and>
      distinct (map dr_primary_key (retry_rows f')) \<and>
      (\<exists>T'. view (se_server s') = (view (se_server s))\<lparr>dv_tgt := T'\<rparr> \<and>
         authoritative (ts_table ts) (dv_src (view (se_server s))) (dv_tgt (view (se_server s))) T' \<and>
         (\<forall>x \<in> set (retry_rows f). x \<in> set (retry_rows f') \<or>
            row_agrees (ts_table ts) (Some (dr_values x)) (T' (dr_primary_key x))))"
    and repair_prerequisites: "ts_transitions ts = Some tr \<Longrightarrow> tr_repair_prerequisites tr rows s = (us, s') \<Longrightarrow>
      (\<exists>T'. view (se_server s') = (view (se_server s))\<lparr>dv_tgt := T'\<rparr> \<and>
         authoritative (ts_table ts) (dv_src (view (se_server s))) (dv_tgt (view (se_server s))) T')"
    and repair_restricted: "ts_transitions ts = Some tr \<Longrightarrow> tr_repair_restricted tr f s = (us, s') \<Longrightarrow>
      (\<forall>x \<in> set (retry_rows f). dv_src (view (se_server s)) (dr_primary_key x) = Some (dr_values x)) \<Longrightarrow>
      (\<exists>T'. view (se_server s') = (view (se_server s))\<lparr>dv_tgt := T'\<rparr> \<and>
         authoritative (ts_table ts) (dv_src (view (se_server s))) (dv_tgt (view (se_server s))) T' \<and>
         (us = Inr () \<longrightarrow> (\<forall>x \<in> set (retry_rows f).
            row_agrees (ts_table ts) (Some (dr_values x)) (T' (dr_primary_key x)))))"
begin

abbreviation tbl :: sync_table where "tbl \<equiv> ts_table ts"
abbreviation S :: "'w session \<Rightarrow> row_key \<Rightarrow> row_values option" where "S s \<equiv> dv_src (view (se_server s))"
abbreviation T :: "'w session \<Rightarrow> row_key \<Rightarrow> row_values option" where "T s \<equiv> dv_tgt (view (se_server s))"

text \<open>A step of the session that changes target rows only, and only towards the source.\<close>

definition moves :: "'w session \<Rightarrow> 'w session \<Rightarrow> bool" where
  "moves s s' = (\<exists>T'. view (se_server s') = (view (se_server s))\<lparr>dv_tgt := T'\<rparr> \<and>
     authoritative tbl (S s) (T s) T')"

lemma moves_refl [simp]: "view (se_server s') = view (se_server s) \<Longrightarrow> moves s s'"
  unfolding moves_def by (rule exI [of _ "T s"]) (simp add: authoritative_def)

lemma moves_trans:
  assumes "moves a b" "moves b c"
  shows "moves a c"
proof -
  obtain T1 where 1: "view (se_server b) = (view (se_server a))\<lparr>dv_tgt := T1\<rparr>" "authoritative tbl (S a) (T a) T1"
    using assms(1) unfolding moves_def by blast
  obtain T2 where 2: "view (se_server c) = (view (se_server b))\<lparr>dv_tgt := T2\<rparr>" "authoritative tbl (S b) (T b) T2"
    using assms(2) unfolding moves_def by blast
  have "authoritative tbl (S a) T1 T2" using 1(1) 2(2) by simp
  then have "authoritative tbl (S a) (T a) T2" using 1(2) unfolding authoritative_def by metis
  then show ?thesis unfolding moves_def using 1(1) 2(1) by auto
qed

lemma moves_view:
  assumes "moves s s'"
  shows "S s' = S s" "dv_base (view (se_server s')) = dv_base (view (se_server s))"
    "dv_rows (view (se_server s')) = dv_rows (view (se_server s))" "authoritative tbl (S s) (T s) (T s')"
  using assms by (auto simp: moves_def)

definition from_src :: "'w session \<Rightarrow> database_row list \<Rightarrow> bool" where
  "from_src s rows = (distinct (map dr_primary_key rows) \<and> (\<forall>x \<in> set rows. S s (dr_primary_key x) = Some (dr_values x)))"

definition agree :: "'w session \<Rightarrow> database_row \<Rightarrow> bool" where
  "agree s x = row_agrees tbl (S s (dr_primary_key x)) (T s (dr_primary_key x))"

lemma agree_moves:
  assumes "moves s s'" "agree s x"
  shows "agree s' x"
  using row_agrees_mono [OF moves_view(4) [OF assms(1)]] moves_view(1) [OF assms(1)] assms(2)
  by (simp add: agree_def)

lemma from_src_moves: "moves s s' \<Longrightarrow> from_src s' rows = from_src s rows"
  using moves_view(1) [of s s'] by (simp add: from_src_def)

lemma from_src_subset:
  "from_src s rows \<Longrightarrow> set rest \<subseteq> set rows \<Longrightarrow> distinct (map dr_primary_key rest) \<Longrightarrow> from_src s rest"
  unfolding from_src_def by blast

lemma rows_changed_moves:
  assumes "from_src s rows" "view (se_server s') = (view (se_server s))\<lparr>dv_tgt := T'\<rparr>" "rows_changed tbl rows (T s) T'"
  shows "moves s s'"
proof -
  have "authoritative tbl (S s) (T s) T'"
    unfolding authoritative_def using assms(1,3) unfolding rows_changed_def from_src_def by metis
  then show ?thesis using assms(2) unfolding moves_def by blast
qed

text \<open>Batched mutations.\<close>

definition good_exec ::
  "'w exec_rows \<Rightarrow> (sync_table \<Rightarrow> database_row list \<Rightarrow> sql_statement sql_res) \<Rightarrow> bool"
where
  "good_exec exec build = (\<forall>rows st w rm w'. build tbl rows = Inr st \<longrightarrow> distinct (map dr_primary_key rows) \<longrightarrow>
     exec st rows w = (rm, w') \<longrightarrow>
      (\<exists>T'. view w' = (view w)\<lparr>dv_tgt := T'\<rparr> \<and> rows_changed tbl rows (dv_tgt (view w)) T' \<and>
        (rm = Inr (of_nat (length rows)) \<longrightarrow>
           (\<forall>x \<in> set rows. row_agrees tbl (Some (dr_values x)) (T' (dr_primary_key x))))))"

lemma good_insert: "good_exec (my_insert srv) build_strict_insert_statement"
  unfolding good_exec_def using insert_statement by blast

lemma good_update: "good_exec (my_update srv) build_strict_update_rows_statement"
  unfolding good_exec_def using update_statement by blast

lemma exec_step:
  assumes "good_exec exec build" "build tbl rows = Inr st" "from_src s rows"
    and run: "on_server (exec st rows) s = (rm, s')"
  shows "moves s s' \<and> (rm = Inr (of_nat (length rows)) \<longrightarrow> (\<forall>x \<in> set rows. agree s' x))"
proof -
  obtain w' where e: "exec st rows (se_server s) = (rm, w')" and s': "s' = s\<lparr>se_server := w'\<rparr>"
    using run by (auto simp: on_server_def split: prod.splits)
  have d: "distinct (map dr_primary_key rows)" using assms(3) by (simp add: from_src_def)
  obtain T' where T': "view w' = (view (se_server s))\<lparr>dv_tgt := T'\<rparr>" "rows_changed tbl rows (T s) T'"
    "rm = Inr (of_nat (length rows)) \<longrightarrow> (\<forall>x \<in> set rows. row_agrees tbl (Some (dr_values x)) (T' (dr_primary_key x)))"
    using assms(1) [unfolded good_exec_def, rule_format, OF assms(2) d e] by blast
  have mv: "moves s s'" using rows_changed_moves [OF assms(3) _ T'(2), of s'] T'(1) s' by simp
  have "T s' = T'" "S s' = S s" using T'(1) s' by simp_all
  then show ?thesis using mv T'(3) assms(3) by (simp add: agree_def from_src_def)
qed

lemma matched_step:
  assumes "good_exec exec build" "build tbl rows = Inr st" "from_src s rows"
    and run: "exec_matched render tbl exec st rows s = (r, s')"
  shows "moves s s' \<and> (r = Inr () \<longrightarrow> (\<forall>x \<in> set rows. agree s' x))"
proof -
  obtain rm s1 where e: "on_server (exec st rows) s = (rm, s1)" by fastforce
  have "s' = s1" "r = Inr () \<longrightarrow> rm = Inr (of_nat (length rows))"
    using run e by (auto simp: exec_matched_def bind_op_def map_err_op_def lift_op_def require_matched_rows_def
        split: sum.splits if_splits)
  then show ?thesis using exec_step [OF assms(1-3) e] by blast
qed

lemma batch_step:
  assumes good: "good_exec exec build" "build tbl rows = Inr st" "from_src s rows"
    and run: "execute_mutation_batch render ts exec st rows repair s = (r, s')"
  shows "moves s s' \<and> (r = Inr () \<longrightarrow> (\<forall>x \<in> set rows. agree s' x))"
proof -
  obtain rm s1 where e: "on_server (exec st rows) s = (rm, s1)" by fastforce
  note E = exec_step [OF good e]
  show ?thesis
  proof (cases rm)
    case (Inr matched)
    then have "s' = s1" "r = Inr () \<longrightarrow> matched = of_nat (length rows)"
      using run e by (auto simp: execute_mutation_batch_def lift_op_def require_matched_rows_def split: if_splits)
    then show ?thesis using E Inr by blast
  next
    case (Inl er)
    obtain code message where er: "er = (code, message)" by fastforce
    show ?thesis
    proof (cases "\<not> repair \<or> code \<notin> {Some 1216, Some 1452}")
      case True
      then show ?thesis using run e Inl er E by (auto simp: execute_mutation_batch_def)
    next
      case False
      show ?thesis
      proof (cases "ts_transitions ts")
        case None
        then show ?thesis using run e Inl er E False
          by (auto simp: execute_mutation_batch_def bind_op_def map_err_op_def fail_op_def)
      next
        case (Some tr)
        obtain u s2 where rep: "tr_repair_prerequisites tr rows s1 = (u, s2)" by fastforce
        have m2: "moves s1 s2" using repair_prerequisites [OF Some rep] unfolding moves_def by blast
        have fs: "from_src s2 rows" using good(3) E m2 from_src_moves by blast
        obtain r3 s3 where again: "exec_matched render tbl exec st rows s2 = (r3, s3)" by fastforce
        note A = matched_step [OF good(1,2) fs again]
        have "s' = s2 \<and> r \<noteq> Inr () \<or> s' = s3 \<and> r = r3"
          using run e Inl er False Some rep again
          by (cases u) (auto simp: execute_mutation_batch_def bind_op_def map_err_op_def)
        then show ?thesis using A E m2 moves_trans by blast
      qed
    qed
  qed
qed

lemma chunks_of_Cons:
  assumes "0 < n" "chunks_of n xs = b # bs"
  shows "b = take n xs \<and> bs = chunks_of n (drop n xs) \<and> xs \<noteq> []"
  using assms by (subst (asm) chunks_of.simps) (auto split: if_splits)

lemma chunks_of_Nil: "0 < n \<Longrightarrow> chunks_of n xs = [] \<longleftrightarrow> xs = []"
  by (subst chunks_of.simps) simp

lemma failure_suffix:
  assumes "start + len \<le> length rows"
  shows "retry_rows (mutation_error (build_sync_mutation_failure rows start len code message)) = drop start rows"
  using assms by (simp add: build_sync_mutation_failure_def mutation_error_def retry_rows_def Let_def)
    (metis add.commute append_take_drop_id drop_drop)

text \<open>Where a pass over the batches stops, the rows before that point agree with the source and
  the rest is what the failure asks to retry.\<close>

lemma batches_loop:
  assumes "good_exec exec build" "0 < cap" "from_src s rows"
    and "chunks_of cap (drop (i * cap) rows) = batches"
    and "execute_mutation_batches_loop render ts exec build repair rows cap i batches s = (r, s')"
  shows "moves s s' \<and> (r = Inr () \<longrightarrow> (\<forall>x \<in> set (drop (i * cap) rows). agree s' x)) \<and>
     (\<forall>f. r = Inl f \<longrightarrow> (\<exists>pre. drop (i * cap) rows = pre @ retry_rows f \<and> (\<forall>x \<in> set pre. agree s' x)))"
  using assms(3-5)
proof (induction batches arbitrary: i s)
  case Nil
  then show ?case using assms(2) by (auto simp: ret_op_def chunks_of_Nil)
next
  case (Cons batch batches)
  let ?rest = "drop (i * cap) rows"
  have b: "batch = take cap ?rest" "batches = chunks_of cap (drop cap ?rest)" "?rest \<noteq> []"
    using chunks_of_Cons [OF assms(2) Cons.prems(2)] by blast+
  have next_rest: "drop cap ?rest = drop ((i + 1) * cap) rows" by (simp add: algebra_simps)
  have inb: "i * cap + length batch \<le> length rows" using b(1,3) by simp
  have split: "?rest = batch @ drop ((i + 1) * cap) rows" using b(1) next_rest by (metis append_take_drop_id)
  have fsb: "from_src s batch"
    using Cons.prems(1) b(1) unfolding from_src_def
    by (metis append_take_drop_id distinct_append in_set_dropD in_set_takeD map_append)
  show ?case
  proof (cases "build tbl batch")
    case (Inl e)
    then have "r = Inl (mutation_error (build_sync_mutation_failure rows (i * cap) (length batch) None
        (render (BuildError e))))" "s' = s"
      using Cons.prems(3) by (auto simp: bind_op_def map_err_op_def lift_op_def Let_def)
    then show ?thesis using failure_suffix [OF inb] by simp
  next
    case (Inr st)
    obtain u s1 where ex: "execute_mutation_batch render ts exec st batch repair s = (u, s1)" by fastforce
    note B = batch_step [OF assms(1) Inr fsb ex]
    show ?thesis
    proof (cases u)
      case Inl1: (Inl er)
      then have "r = Inl (mutation_error (build_sync_mutation_failure rows (i * cap) (length batch) (fst er) (snd er)))"
        "s' = s1"
        using Cons.prems(3) Inr ex by (auto simp: bind_op_def map_err_op_def lift_op_def Let_def split: prod.splits)
      then show ?thesis using failure_suffix [OF inb] B by simp
    next
      case Inr1: (Inr v)
      then have rec: "execute_mutation_batches_loop render ts exec build repair rows cap (i + 1) batches s1 = (r, s')"
        using Cons.prems(3) Inr ex by (simp add: bind_op_def map_err_op_def lift_op_def Let_def)
      have fs1: "from_src s1 rows" using Cons.prems(1) B from_src_moves by blast
      have IH: "moves s1 s' \<and> (r = Inr () \<longrightarrow> (\<forall>x \<in> set (drop ((i + 1) * cap) rows). agree s' x)) \<and>
         (\<forall>f. r = Inl f \<longrightarrow> (\<exists>pre. drop ((i + 1) * cap) rows = pre @ retry_rows f \<and> (\<forall>x \<in> set pre. agree s' x)))"
        using Cons.IH [OF fs1 _ rec] b(2) next_rest by simp
      have "\<forall>x \<in> set batch. agree s' x" using B Inr1 IH agree_moves by auto
      moreover have "\<exists>pre. ?rest = pre @ retry_rows f \<and> (\<forall>x \<in> set pre. agree s' x)"
        if f: "r = Inl f" for f
      proof -
        obtain pre where "drop ((i + 1) * cap) rows = pre @ retry_rows f" "\<forall>x \<in> set pre. agree s' x"
          using IH f by blast
        then show ?thesis using split \<open>\<forall>x \<in> set batch. agree s' x\<close>
          by (intro exI [of _ "batch @ pre"]) auto
      qed
      ultimately show ?thesis using IH B moves_trans split by auto
    qed
  qed
qed

definition progressed :: "'w session \<Rightarrow> 'w session \<Rightarrow> database_row list \<Rightarrow> sync_mutation_failure + unit \<Rightarrow> bool" where
  "progressed s s' rows r = (moves s s' \<and> (r = Inr () \<longrightarrow> (\<forall>x \<in> set rows. agree s' x)) \<and>
     (\<forall>f. r = Inl f \<longrightarrow> set (retry_rows f) \<subseteq> set rows \<and> distinct (map dr_primary_key (retry_rows f)) \<and>
        (\<forall>x \<in> set rows. x \<in> set (retry_rows f) \<or> agree s' x)))"

lemma batches_progress:
  assumes "good_exec exec build" "0 < cap" "from_src s rows"
    and "execute_mutation_batches render ts exec build repair cap rows s = (r, s')"
  shows "progressed s s' rows r"
proof -
  have L: "moves s s' \<and> (r = Inr () \<longrightarrow> (\<forall>x \<in> set rows. agree s' x)) \<and>
     (\<forall>f. r = Inl f \<longrightarrow> (\<exists>pre. rows = pre @ retry_rows f \<and> (\<forall>x \<in> set pre. agree s' x)))"
    using batches_loop [OF assms(1-3), of 0] assms(4) by (simp add: execute_mutation_batches_def)
  have d: "distinct (map dr_primary_key rows)" using assms(3) by (simp add: from_src_def)
  have "set (retry_rows f) \<subseteq> set rows \<and> distinct (map dr_primary_key (retry_rows f)) \<and>
        (\<forall>x \<in> set rows. x \<in> set (retry_rows f) \<or> agree s' x)" if f: "r = Inl f" for f
  proof -
    obtain pre where pre: "rows = pre @ retry_rows f" "\<forall>x \<in> set pre. agree s' x" using L f by blast
    then have "set rows = set pre \<union> set (retry_rows f)" "distinct (map dr_primary_key (retry_rows f))"
      using d by (metis set_append, metis distinct_append map_append)
    then show ?thesis using pre(2) by blast
  qed
  then show ?thesis using L unfolding progressed_def by blast
qed

lemma progressed_trans:
  assumes "progressed s s1 rows (Inl f)" "moves s1 s2" "set (retry_rows f') \<subseteq> set (retry_rows f)"
    "\<forall>x \<in> set (retry_rows f). x \<in> set (retry_rows f') \<or> agree s2 x" "progressed s2 s3 (retry_rows f') r"
  shows "progressed s s3 rows r"
proof -
  have m: "moves s s1" "moves s2 s3" using assms(1,5) by (simp_all add: progressed_def)
  have "moves s s3" using moves_trans [OF moves_trans [OF m(1) assms(2)] m(2)] .
  moreover have "x \<in> set (retry_rows f') \<or> agree s3 x" if x: "x \<in> set rows" for x
  proof -
    have "x \<in> set (retry_rows f) \<or> agree s1 x" using assms(1) x by (simp add: progressed_def)
    then have "x \<in> set (retry_rows f') \<or> agree s2 x" using assms(4) agree_moves [OF assms(2)] by blast
    then show ?thesis using agree_moves [OF m(2)] by blast
  qed
  ultimately show ?thesis using assms(1,3,5) unfolding progressed_def by blast
qed

lemma replacement_progress:
  assumes good: "good_exec exec build" "0 < cap"
    and "from_src s rows"
    and "execute_mutations_with_owner_replacement fuel render ts exec build repair cap rows s = (r, s')"
  shows "progressed s s' rows r"
  using assms(3,4)
proof (induction fuel arbitrary: rows s)
  case 0
  then show ?case by (auto simp: fail_op_def progressed_def retry_rows_def from_src_def)
next
  case (Suc fuel)
  obtain q s1 where one: "execute_mutation_batches render ts exec build repair cap rows s = (q, s1)" by fastforce
  note P = batches_progress [OF good Suc.prems(1) one]
  show ?case
  proof (cases q)
    case (Inr v)
    then show ?thesis using Suc.prems(2) one P by auto
  next
    case (Inl f)
    show ?thesis
    proof (cases "ts_transitions ts = None \<or> mf_mysql_code f \<noteq> Some 1062")
      case True
      then show ?thesis using Suc.prems(2) one Inl P by (auto split: option.splits)
    next
      case False
      then obtain tr where tr: "ts_transitions ts = Some tr" and code: "mf_mysql_code f = Some 1062" by auto
      obtain rb f' s2 where rep: "tr_replace_owners tr f s1 = ((rb, f'), s2)" by (metis surj_pair)
      have fsr: "from_src s1 (retry_rows f)"
        using P Inl Suc.prems(1) from_src_moves [of s s1] from_src_subset unfolding progressed_def by blast
      have R: "set (retry_rows f') \<subseteq> set (retry_rows f)" "distinct (map dr_primary_key (retry_rows f'))"
        "moves s1 s2" "\<forall>x \<in> set (retry_rows f). x \<in> set (retry_rows f') \<or> agree s2 x"
        using replace_owners [OF tr rep] fsr
        by (auto simp: from_src_def moves_def agree_def)
      have fs2: "from_src s2 (retry_rows f')"
        using R fsr from_src_moves [of s1 s2] from_src_subset by blast
      have stop: "progressed s s2 rows (Inl f'')" if "retry_rows f'' = retry_rows f'" for f''
        using progressed_trans [OF P [unfolded Inl] R(3,1,4), of s2 "Inl f''"] that R(2)
        by (simp add: progressed_def)
      show ?thesis
      proof (cases rb)
        case Inl2: (Inl message)
        then show ?thesis using Suc.prems(2) one Inl tr code rep
            stop [of "f'\<lparr>mf_mysql_code := None, mf_message := message\<rparr>"]
          by (auto simp: retry_rows_def)
      next
        case Inr2: (Inr again)
        show ?thesis
        proof (cases again)
          case True
          then have "execute_mutations_with_owner_replacement fuel render ts exec build repair cap (retry_rows f') s2 = (r, s')"
            using Suc.prems(2) one Inl tr code rep Inr2 by simp
          from Suc.IH [OF fs2 this] show ?thesis
            using progressed_trans [OF P [unfolded Inl] R(3,1,4)] by blast
        next
          case False
          then show ?thesis using Suc.prems(2) one Inl tr code rep Inr2 stop [of f'] by simp
        qed
      qed
    qed
  qed
qed

text \<open>The remaining operations of the session.\<close>

lemma update_progress:
  assumes "from_src s rows" "target_update_rows fuel render srv ts rows s = (r, s')"
  shows "progressed s s' rows r"
proof -
  have cap: "0 < strict_update_batch_capacity tbl"
    unfolding strict_update_batch_capacity_def Let_def by (rule capacity_pos)
  obtain q s1 where one: "execute_mutations_with_owner_replacement fuel render ts (my_update srv)
      build_strict_update_rows_statement False (strict_update_batch_capacity tbl) rows s = (q, s1)" by fastforce
  note P = replacement_progress [OF good_update cap assms(1) one]
  show ?thesis
  proof (cases q)
    case (Inr v)
    then show ?thesis using assms(2) one P by (simp add: target_update_rows_def)
  next
    case (Inl f)
    then have run: "repair_restricted_updates ts f s1 = (r, s')" using assms(2) one by (simp add: target_update_rows_def)
    show ?thesis
    proof (cases "ts_transitions ts = None \<or> mf_mysql_code f \<notin> {Some 1217, Some 1451}")
      case True
      then have "r = Inl f" "s' = s1" using run by (auto simp: repair_restricted_updates_def fail_op_def split: option.splits)
      then show ?thesis using P Inl by simp
    next
      case False
      then obtain tr where tr: "ts_transitions ts = Some tr" and c: "mf_mysql_code f \<in> {Some 1217, Some 1451}" by auto
      obtain u s2 where rep: "tr_repair_restricted tr f s1 = (u, s2)" by fastforce
      have fsr: "from_src s1 (retry_rows f)"
        using P Inl assms(1) from_src_moves [of s s1] from_src_subset unfolding progressed_def by blast
      then have src1: "\<forall>x \<in> set (retry_rows f). S s1 (dr_primary_key x) = Some (dr_values x)"
        by (simp add: from_src_def)
      have R: "moves s1 s2" "u = Inr () \<longrightarrow> (\<forall>x \<in> set (retry_rows f). agree s2 x)"
        using repair_restricted [OF tr rep src1] src1 by (auto simp: moves_def agree_def)
      have res: "s' = s2" "r = map_err (\<lambda>m. f\<lparr>mf_message := m\<rparr>) u"
        using run tr c rep by (auto simp: repair_restricted_updates_def map_err_op_def)
      have "progressed s1 s2 (retry_rows f) r"
        using R res(2) fsr by (cases u) (auto simp: progressed_def retry_rows_def from_src_def)
      moreover have "progressed s1 s1 (retry_rows f) (Inl f)"
        using fsr by (simp add: progressed_def from_src_def)
      ultimately show ?thesis
        using progressed_trans [of s s1 rows f s1 f s2 r] P Inl res(1) by simp
    qed
  qed
qed

lemma insert_progress:
  assumes "from_src s rows" "target_insert_rows fuel render srv ts rows s = (r, s')"
  shows "progressed s s' rows r"
proof -
  have cap: "0 < strict_insert_batch_capacity tbl"
    unfolding strict_insert_batch_capacity_def by (rule capacity_pos)
  show ?thesis
    using replacement_progress [OF good_insert cap assms(1)] assms(2) by (simp add: target_insert_rows_def)
qed

definition deleted :: "'w session \<Rightarrow> 'w session \<Rightarrow> row_key list \<Rightarrow> bool \<Rightarrow> bool" where
  "deleted s s' ks ok = ((\<exists>T'. view (se_server s') = (view (se_server s))\<lparr>dv_tgt := T'\<rparr>) \<and>
     (\<forall>k. T s' k = T s k \<or> k \<in> set ks \<and> T s' k = None) \<and> (ok \<longrightarrow> (\<forall>k \<in> set ks. T s' k = None)))"

lemma delete_batches:
  assumes "list_all2 (\<lambda>ks st. build_strict_delete_rows_statement tbl ks = Inr st) kss sts"
    and "execute_delete_batches srv tbl (zip sts kss) s = (r, s')"
  shows "deleted s s' (concat kss) (r = Inr ())"
  using assms
proof (induction kss sts arbitrary: s rule: list_all2_induct)
  case Nil
  then show ?case by (simp add: ret_op_def deleted_def) (metis db_view.surjective db_view.update_convs(2) old.unit.exhaust)
next
  case (Cons ks kss st sts)
  obtain q w1 where del: "my_delete srv st ks (se_server s) = (q, w1)" by fastforce
  let ?s1 = "s\<lparr>se_server := w1\<rparr>"
  obtain T' where T': "view w1 = (view (se_server s))\<lparr>dv_tgt := T'\<rparr>"
    "\<forall>k. T' k = T s k \<or> k \<in> set ks \<and> T' k = None" "\<forall>n. q = Inr n \<longrightarrow> (\<forall>k \<in> set ks. T' k = None)"
    using delete_statement [OF Cons.hyps(1) del] by blast
  show ?case
  proof (cases "\<exists>n. q = Inr n \<and> require_matched_rows tbl n (length ks) = Inr ()")
    case False
    then have "s' = ?s1" "r \<noteq> Inr ()"
      using Cons.prems del
      by (cases q; auto simp: bind_op_def map_err_op_def on_server_def lift_op_def split: sum.splits)+
    then show ?thesis using T' by (auto simp: deleted_def)
  next
    case True
    then have rest: "execute_delete_batches srv tbl (zip sts kss) ?s1 = (r, s')"
      using Cons.prems del by (auto simp: bind_op_def map_err_op_def on_server_def lift_op_def)
    have gone: "\<forall>k \<in> set ks. T' k = None" using T'(3) True by blast
    have IH: "deleted ?s1 s' (concat kss) (r = Inr ())" using Cons.IH [OF rest] .
    have T1: "T ?s1 = T'" using T'(1) by simp
    obtain T2 where T2: "view (se_server s') = (view (se_server s))\<lparr>dv_tgt := T2\<rparr>"
      using IH T'(1) unfolding deleted_def by auto
    have step: "T s' k = T' k \<or> k \<in> set (concat kss) \<and> T s' k = None" for k
      using IH T1 unfolding deleted_def by metis
    have "T s' k = T s k \<or> k \<in> set (concat (ks # kss)) \<and> T s' k = None" for k
      using step [of k] T'(2) by (metis Un_iff concat.simps(2) set_append)
    moreover have "T s' k = None" if "r = Inr ()" "k \<in> set (concat (ks # kss))" for k
      using step [of k] gone IH that unfolding deleted_def by auto
    ultimately show ?thesis using T2 unfolding deleted_def by blast
  qed
qed

lemma delete_correct:
  assumes "target_delete_rows srv tbl ks s = (r, s')"
  shows "deleted s s' ks (r = Inr ())"
proof (cases "build_strict_delete_batches tbl ks")
  case (Inl e)
  then have "s' = s" "r \<noteq> Inr ()" using assms by (auto simp: target_delete_rows_def bind_op_def lift_op_def)
  then show ?thesis by (simp add: deleted_def) (metis db_view.surjective db_view.update_convs(2) old.unit.exhaust)
next
  case (Inr sts)
  let ?kss = "chunks_of (strict_delete_batch_capacity tbl) ks"
  have "list_all2 (\<lambda>ks st. build_strict_delete_rows_statement tbl ks = Inr st) ?kss sts"
    using Inr by (simp add: build_strict_delete_batches_def collect_res_Inr_iff)
  moreover have "execute_delete_batches srv tbl (zip sts ?kss) s = (r, s')"
    using assms Inr by (simp add: target_delete_rows_def bind_op_def lift_op_def)
  moreover have "0 < strict_delete_batch_capacity tbl"
    unfolding strict_delete_batch_capacity_def by (rule capacity_pos)
  ultimately show ?thesis using delete_batches concat_chunks_of by metis
qed

lemma deleted_moves: "deleted s s' ks ok \<Longrightarrow> \<forall>k \<in> set ks. S s k = None \<Longrightarrow> moves s s'"
proof -
  assume d: "deleted s s' ks ok" and ks: "\<forall>k \<in> set ks. S s k = None"
  have "authoritative tbl (S s) (T s) (T s')"
    unfolding authoritative_def using d ks unfolding deleted_def by (metis row_agrees_refl)
  moreover obtain T' where "view (se_server s') = (view (se_server s))\<lparr>dv_tgt := T'\<rparr>"
    using d unfolding deleted_def by blast
  ultimately show ?thesis unfolding moves_def by auto
qed

text \<open>Reads leave the databases as they are.\<close>

abbreviation same_db :: "'w session \<Rightarrow> 'w session \<Rightarrow> bool" where
  "same_db s s' \<equiv> view (se_server s') = view (se_server s)"

lemma page_correct:
  assumes run: "query_sync_page_rows q tbl req endpoint s = (r, s')"
    and law: "\<And>sql w rq w'. build_sync_select_sql tbl req = Inr sql \<Longrightarrow> q sql req w = (rq, w') \<Longrightarrow>
      view w' = view w \<and> rq \<noteq> Inr None \<and> (\<forall>rs. rq = Inr (Some rs) \<longrightarrow> keyset_result tbl lt (f (view w)) req rs)"
  shows "same_db s s' \<and> (\<forall>page. r = Inr page \<longrightarrow> 0 < rq_limit req \<longrightarrow> page_of lt (f (view (se_server s))) req page)"
proof (cases "build_sync_select_sql tbl req")
  case (Inl e)
  then show ?thesis using run by (auto simp: query_sync_page_rows_def bind_op_def lift_op_def)
next
  case (Inr sql)
  obtain rq w' where qq: "q sql req (se_server s) = (rq, w')" by fastforce
  note L = law [OF Inr qq]
  have s': "s' = s\<lparr>se_server := w'\<rparr>"
    using run Inr qq
    by (auto simp: query_sync_page_rows_def bind_op_def lift_op_def map_err_op_def on_server_def ret_op_def
        split: sum.splits option.splits)
  have "page_of lt (f (view (se_server s))) req page" if page: "r = Inr page" and lim: "0 < rq_limit req" for page
  proof -
    have "\<forall>e. rq \<noteq> Inl e"
      using run Inr qq page
      by (auto simp: query_sync_page_rows_def bind_op_def lift_op_def map_err_op_def on_server_def)
    then obtain rs where rq: "rq = Inr (Some rs)" using L by (metis option.exhaust sum.exhaust)
    have res: "collect_page endpoint tbl (collector_new (rq_limit req) max_sync_page_payload_bytes) rs = Inr page"
      using run page unfolding query_sync_page_rows_def bind_op_def lift_op_def map_err_op_def on_server_def
      by (simp add: Inr qq rq)
    have "keyset_result tbl lt (f (view (se_server s))) req rs" using L rq by simp
    from keyset_page [OF this lim res] show ?thesis using lt_trans by blast
  qed
  then show ?thesis using L s' by simp
qed

lemma exact_read_same:
  assumes "query_exact_row srv tbl k s = (r, s')"
  shows "same_db s s'"
  using assms target_exact_select
  by (auto simp: query_exact_row_def bind_op_def lift_op_def map_err_op_def on_server_def
      split: sum.splits prod.splits)

lemma owner_read_same:
  assumes "query_unique_owner srv tbl ix x s = (r, s')"
  shows "same_db s s'"
  using assms target_owner_select
  by (auto simp: query_unique_owner_def bind_op_def lift_op_def map_err_op_def on_server_def
      split: sum.splits prod.splits)

lemma load_index_same:
  assumes "load_unique_index srv ts er s = (r, s')"
  shows "same_db s s'"
  using assms unique_columns_select
  by (auto simp: load_unique_index_def bind_op_def lift_op_def map_err_op_def on_server_def
      split: sum.splits prod.splits)

lemma conflicts_same:
  "collect_owner_conflicts srv tbl ix seen acc batch s = (r, s') \<Longrightarrow> same_db s s'"
proof (induction batch arbitrary: seen acc s)
  case (Cons intended batch)
  obtain q s1 where own: "query_unique_owner srv tbl ix intended s = (q, s1)" by fastforce
  have one: "same_db s s1" using owner_read_same [OF own] .
  show ?case
  proof (cases q)
    case (Inl e)
    then show ?thesis using Cons.prems own one by (simp add: bind_op_def)
  next
    case (Inr found)
    have "s' = s1 \<or> (\<exists>seen acc. collect_owner_conflicts srv tbl ix seen acc batch s1 = (r, s'))"
      using Cons.prems own Inr
      by (auto simp: bind_op_def lift_op_def fail_op_def split: option.splits if_splits sum.splits)
    then show ?thesis using Cons.IH one by metis
  qed
qed (simp add: ret_op_def)

lemma inspect_same:
  assumes "target_inspect_conflicts srv ts f s = (r, s')"
  shows "same_db s s'"
proof (cases "mf_mysql_code f = Some 1062")
  case False
  then show ?thesis using assms by (simp add: target_inspect_conflicts_def fail_op_def)
next
  case True
  obtain q s1 where ld: "load_unique_index srv ts (mf_message f) s = (q, s1)" by fastforce
  show ?thesis
  proof (cases q)
    case (Inl e)
    then show ?thesis using assms True ld load_index_same [OF ld] by (simp add: target_inspect_conflicts_def bind_op_def)
  next
    case (Inr ix)
    obtain cs s2 where co: "collect_owner_conflicts srv tbl ix [] [] (mf_failed_batch f) s1 = (cs, s2)" by fastforce
    have "s' = s2" using assms True ld Inr co
      by (cases cs) (auto simp: target_inspect_conflicts_def bind_op_def fail_op_def ret_op_def split: if_splits)
    then show ?thesis using load_index_same [OF ld] conflicts_same [OF co] by simp
  qed
qed

lemma verify_same: "target_verify_rows srv ts rows s = (r, s') \<Longrightarrow> same_db s s'"
proof (induction rows arbitrary: s)
  case (Cons x rows)
  obtain q s1 where rd: "query_exact_row srv tbl (dr_primary_key x) s = (q, s1)" by fastforce
  have "s' = s1 \<or> target_verify_rows srv ts rows s1 = (r, s')"
    using Cons.prems rd by (auto simp: bind_op_def lift_op_def split: sum.splits)
  then show ?case using Cons.IH exact_read_same [OF rd] by metis
qed (simp add: ret_op_def)

lemma reconcile_moves:
  assumes run: "target_reconcile_owner fuel render srv ts conflict action s = (r, s')"
    and src: "case action of UpdateOwner x \<Rightarrow> S s (dr_primary_key x) = Some (dr_values x)
       | DeleteOwner \<Rightarrow> S s (dr_primary_key (uc_owner conflict)) = None"
  shows "moves s s'"
proof -
  let ?k = "dr_primary_key (uc_owner conflict)"
  let ?change = "case action of UpdateOwner row \<Rightarrow> map_err_op MutationFailed (target_update_rows fuel render srv ts [row])
     | DeleteOwner \<Rightarrow> target_delete_rows srv tbl [?k]"
  obtain u s1 where ch: "?change s = (u, s1)" by fastforce
  have m: "moves s s1"
  proof (cases action)
    case (UpdateOwner x)
    obtain m where upd: "target_update_rows fuel render srv ts [x] s = (m, s1)"
      using ch UpdateOwner by (auto simp: map_err_op_def split: prod.splits)
    have "from_src s [x]" using src UpdateOwner by (simp add: from_src_def)
    from update_progress [OF this upd] show ?thesis by (simp add: progressed_def)
  next
    case DeleteOwner
    then have "target_delete_rows srv tbl [?k] s = (u, s1)" using ch by simp
    from deleted_moves [OF delete_correct [OF this]] show ?thesis using src DeleteOwner by simp
  qed
  obtain e s2 where rd: "query_exact_row srv tbl ?k s1 = (e, s2)" by fastforce
  obtain ow s3 where own: "query_unique_owner srv tbl (uc_index conflict) (uc_intended conflict) s2 = (ow, s3)" by fastforce
  have same: "same_db s1 s2" "same_db s2 s3" using exact_read_same [OF rd] owner_read_same [OF own] by auto
  have "se_server s' \<in> {se_server s1, se_server s2, se_server s3}"
    using run ch rd own
    by (cases action; cases u; cases e; cases ow)
      (auto simp: target_reconcile_owner_def bind_op_def lift_op_def verify_unique_identity_unowned_def fail_op_def
        ret_op_def push_event_def verify_exact_row_def map_err_op_def split: prod.splits if_splits)
  then have "same_db s1 s'" using same by auto
  then show ?thesis using m moves_refl moves_trans by blast
qed

text \<open>The contract of the chunk run holds for the adapter.\<close>

lemma control_run:
  assumes "map_err_op render (execute_control srv sql) s = (u, s')"
  shows "\<exists>v w'. my_control srv sql (se_server s) = (v, w') \<and> s' = s\<lparr>se_server := w'\<rparr> \<and> (u = Inr () \<longleftrightarrow> v = Inr ())"
  using assms
  by (cases "my_control srv sql (se_server s)"; cases "fst (my_control srv sql (se_server s))")
    (auto simp: execute_control_def map_err_op_def on_server_def)

lemma commit_run:
  assumes "map_err_op render (target_commit srv) s = (u, s')"
  shows "view (se_server s') = (view (se_server s))\<lparr>dv_base := T s\<rparr> \<or> u \<noteq> Inr () \<and> same_db s s'"
proof -
  obtain v w' where c: "my_control srv ''COMMIT'' (se_server s) = (v, w')" by fastforce
  have "se_server s' = w'" "u = Inr () \<longleftrightarrow> v = Inr ()"
    using assms c by (cases v; auto simp: target_commit_def execute_control_def map_err_op_def on_server_def)+
  then show ?thesis using commit_control [OF c] by auto
qed

lemma rollback_run:
  assumes "map_err_op render (target_rollback srv) s = (u, s')"
  shows "view (se_server s') = (view (se_server s))\<lparr>dv_tgt := dv_base (view (se_server s))\<rparr> \<or> u \<noteq> Inr () \<and> same_db s s'"
proof -
  obtain v w' where c: "my_control srv ''ROLLBACK'' (se_server s) = (v, w')" by fastforce
  have "se_server s' = w'" "u = Inr () \<longleftrightarrow> v = Inr ()"
    using assms c by (cases v; auto simp: target_rollback_def execute_control_def map_err_op_def on_server_def)+
  then show ?thesis using rollback_control [OF c] by auto
qed

lemma lock_text:
  "take 12 (build_lock_table_write_sql db t) = ''LOCK TABLES ''"
  "build_component_lock_sql db tables q = Inr sql \<Longrightarrow> take 12 sql = ''LOCK TABLES ''"
  by (auto simp: build_lock_table_write_sql_def build_component_lock_sql_def Let_def split: if_splits)

lemma lock_run:
  assumes "map_err_op render (target_lock_table_write srv ts db t) s = (u, s')"
  shows "same_db s s' \<or> view (se_server s') = (view (se_server s))\<lparr>dv_base := T s\<rparr>"
proof -
  have "s' = s \<or> (\<exists>sql v w'. take 12 sql = ''LOCK TABLES '' \<and> my_control srv sql (se_server s) = (v, w') \<and> se_server s' = w')"
    using assms lock_text
    by (auto simp: target_lock_table_write_def map_err_op_def bind_op_def lift_op_def ret_op_def map_err_def
        execute_control_def on_server_def split: sum.splits option.splits prod.splits)
  then show ?thesis using lock_control by metis
qed

lemma source_exact_run:
  assumes "map_err_op render (source_read_row srv tbl k) s = (r, s')"
  shows "same_db s s' \<and> (r = Inr None \<longrightarrow> S s k = None) \<and>
     (\<forall>x. r = Inr (Some x) \<longrightarrow> S s (dr_primary_key x) = Some (dr_values x))"
proof (cases "build_exact_primary_key_select_statement tbl k")
  case (Inl e)
  then show ?thesis using assms by (auto simp: source_read_row_def map_err_op_def bind_op_def lift_op_def)
next
  case (Inr st)
  obtain q w' where ex: "my_source_exact srv st k (se_server s) = (q, w')" by fastforce
  note L = source_exact_select [OF Inr ex]
  show ?thesis
  proof (cases q)
    case Inl1: (Inl e)
    then show ?thesis using assms Inr ex L
      by (auto simp: source_read_row_def map_err_op_def bind_op_def lift_op_def on_server_def)
  next
    case Inr1: (Inr cs)
    have "r = map_err render (decode_optional_exact_row tbl cs ''source'')" "s' = s\<lparr>se_server := w'\<rparr>"
      using assms Inr ex Inr1
      by (auto simp: source_read_row_def map_err_op_def bind_op_def lift_op_def on_server_def)
    moreover have "decode_sync_rows tbl cs =
        Inr (case S s k of None \<Rightarrow> [] | Some v \<Rightarrow> [\<lparr>dr_primary_key = k, dr_values = v\<rparr>])"
      using L Inr1 by (simp add: exact_result_def)
    ultimately show ?thesis using L
      by (cases "S s k") (auto simp: decode_optional_exact_row_def)
  qed
qed

lemma load_run:
  assumes "map_err_op render (progress_store_load srv run t) s = (r, s')"
  shows "same_db s s' \<and> (\<forall>x. r = Inr x \<longrightarrow> x = stored_progress (view (se_server s)) run t)"
proof -
  obtain q w' where ld: "my_load_stage srv run RowsStage t (se_server s) = (q, w')" by fastforce
  have "s' = s\<lparr>se_server := w'\<rparr>"
    using assms ld by (auto simp: progress_store_load_def map_err_op_def bind_op_def lift_op_def on_server_def ret_op_def
        split: sum.splits option.splits)
  moreover have "x = stored_progress (view (se_server s)) run t" if "r = Inr x" for x
    using assms ld that load_stage [OF ld]
    by (cases q) (auto simp: progress_store_load_def map_err_op_def bind_op_def lift_op_def on_server_def ret_op_def
        stored_progress_def split: sum.splits option.splits)
  ultimately show ?thesis using load_stage [OF ld] by simp
qed

lemma save_run:
  assumes "map_err_op render (progress_store_save srv p) s = (u, s')"
  shows "(\<exists>R. view (se_server s') = (view (se_server s))\<lparr>dv_rows := R\<rparr> \<and>
       stored_progress (view (se_server s')) =
         (stored_progress (view (se_server s)))(cp_run_id p := (stored_progress (view (se_server s)) (cp_run_id p))(cp_table p \<mapsto> p)))
     \<or> u \<noteq> Inr () \<and> same_db s s'"
proof -
  let ?row = "sync_progress_row_from_chunk p"
  obtain v w' where sv: "my_save_stage srv ?row (se_server s) = (v, w')" by fastforce
  have s': "se_server s' = w'" "u = Inr () \<longleftrightarrow> v = Inr ()"
    using assms sv by (cases v; auto simp: progress_store_save_def map_err_op_def on_server_def)+
  have key: "pr_run_id ?row = cp_run_id p" "pr_stage ?row = RowsStage" "pr_table_name ?row = cp_table p"
    by (simp_all add: sync_progress_row_from_chunk_def)
  from save_stage [OF sv] show ?thesis
  proof
    assume "\<exists>row'. same_progress row' ?row \<and> view w' = (view (se_server s))\<lparr>dv_rows := (\<lambda>run stage t.
         if run = pr_run_id ?row \<and> stage = pr_stage ?row \<and> t = pr_table_name ?row then Some row'
         else dv_rows (view (se_server s)) run stage t)\<rparr>"
    then obtain row' where same: "same_progress row' ?row" and vw: "view w' = (view (se_server s))\<lparr>dv_rows := (\<lambda>run stage t.
         if run = cp_run_id p \<and> stage = RowsStage \<and> t = cp_table p then Some row'
         else dv_rows (view (se_server s)) run stage t)\<rparr>"
      unfolding key by blast
    have "stored_progress (view w') run t =
        ((stored_progress (view (se_server s)))(cp_run_id p := (stored_progress (view (se_server s)) (cp_run_id p))(cp_table p \<mapsto> p))) run t"
      for run t
      using progress_row_roundtrip [OF same] vw by (simp add: stored_progress_def)
    then show ?thesis using vw s' by blast
  next
    assume "v \<noteq> Inr () \<and> view w' = view (se_server s)"
    then show ?thesis using s' by simp
  qed
qed

lemma moves_laws:
  assumes "moves s s'"
  shows "S s' = S s \<and> dv_base (view (se_server s')) = dv_base (view (se_server s)) \<and>
    stored_progress (view (se_server s')) = stored_progress (view (se_server s)) \<and>
    authoritative tbl (S s) (T s) (T s')"
  using moves_view [OF assms] by (simp add: stored_progress_def fun_eq_iff)

lemma mutation_law:
  assumes "progressed s s' rows m" "\<forall>x \<in> set rows. S s (dr_primary_key x) = Some (dr_values x)"
  shows "S s' = S s \<and> dv_base (view (se_server s')) = dv_base (view (se_server s)) \<and>
    stored_progress (view (se_server s')) = stored_progress (view (se_server s)) \<and>
    authoritative tbl (S s) (T s) (T s') \<and>
    (\<forall>x \<in> set rows. m = Inr () \<longrightarrow> row_agrees tbl (S s (dr_primary_key x)) (T s' (dr_primary_key x))) \<and>
    (\<forall>f. m = Inl f \<longrightarrow> mf_mysql_code f = Some 1062 \<longrightarrow>
       set (retry_rows f) \<subseteq> set rows \<and> distinct (map dr_primary_key (retry_rows f)) \<and>
       (\<forall>x \<in> set rows. x \<in> set (retry_rows f) \<or> row_agrees tbl (S s (dr_primary_key x)) (T s' (dr_primary_key x))))"
proof -
  have mv: "moves s s'" using assms(1) by (simp add: progressed_def)
  have "agree s' x \<longleftrightarrow> row_agrees tbl (S s (dr_primary_key x)) (T s' (dr_primary_key x))" for x
    using moves_view(1) [OF mv] by (simp add: agree_def)
  then show ?thesis using moves_laws [OF mv] assms(1) unfolding progressed_def by blast
qed

lemma backend:
  "sync_backend (mysql_env fuel render srv ts) tbl lt S T
     (\<lambda>s. dv_base (view (se_server s))) (\<lambda>s. stored_progress (view (se_server s)))"
proof (unfold_locales, goal_cases)
  case (1 k)
  show ?case by (rule lt_irrefl)
next
  case (2 a b c)
  then show ?case by (rule lt_trans)
next
  case (3 a b)
  then show ?case by (rule lt_total)
next
  case (4 req w r w')
  then obtain q where q: "query_sync_page_rows (my_source_query srv) tbl req ''source'' w = (q, w')" "r = map_err render q"
    by (auto simp: mysql_env_def map_err_op_def split: prod.splits)
  from page_correct [OF q(1) source_select] show ?case using q(2) by simp
next
  case (5 pk w r2 w')
  then show ?case using source_exact_run [of render pk w r2 w'] by (simp add: mysql_env_def)
next
  case (6 w u w')
  then have "map_err_op render (execute_control srv ''SET autocommit=0'') w = (u, w')"
    by (simp add: mysql_env_def target_set_autocommit_def nat_str_0)
  from control_run [OF this] show ?case using autocommit_off by auto
next
  case (7 db t w u w')
  then show ?case using lock_run [of render db t w u w'] by (auto simp: mysql_env_def stored_progress_def fun_eq_iff)
next
  case (8 req w r w')
  then obtain q where q: "query_sync_page_rows (my_target_query srv) tbl req ''target'' w = (q, w')" "r = map_err render q"
    by (auto simp: mysql_env_def map_err_op_def split: prod.splits)
  from page_correct [OF q(1) target_select] show ?case using q(2) by simp
next
  case (9 ks w u w')
  then obtain q where q: "target_delete_rows srv tbl ks w = (q, w')" "u = map_err render q"
    by (auto simp: mysql_env_def map_err_op_def split: prod.splits)
  have "u = Inr () \<longleftrightarrow> q = Inr ()" using q(2) by simp
  then show ?case using delete_correct [OF q(1)]
    by (auto simp: deleted_def stored_progress_def fun_eq_iff)
next
  case (10 rows w m w')
  then have "target_update_rows fuel render srv ts rows w = (m, w')" by (simp add: mysql_env_def)
  moreover have "from_src w rows" using 10 by (simp add: from_src_def)
  ultimately show ?case using mutation_law update_progress 10(3) by blast
next
  case (11 rows w m w')
  then have "target_insert_rows fuel render srv ts rows w = (m, w')" by (simp add: mysql_env_def)
  moreover have "from_src w rows" using 11 by (simp add: from_src_def)
  ultimately show ?case using mutation_law insert_progress 11(3) by blast
next
  case (12 failure w confs w')
  then obtain q where "target_inspect_conflicts srv ts failure w = (q, w')"
    by (auto simp: mysql_env_def map_err_op_def split: prod.splits)
  from inspect_same [OF this] show ?case by simp
next
  case (13 conflict action w u w')
  then obtain q where "target_reconcile_owner fuel render srv ts conflict action w = (q, w')"
    by (auto simp: mysql_env_def map_err_op_def split: prod.splits)
  from moves_laws [OF reconcile_moves [OF this 13(2)]] show ?case .
next
  case (14 rows w u w')
  then obtain q where "target_verify_rows srv ts rows w = (q, w')"
    by (auto simp: mysql_env_def map_err_op_def split: prod.splits)
  from verify_same [OF this] show ?case by simp
next
  case (15 w u w')
  then show ?case using commit_run [of render w u w'] by (auto simp: mysql_env_def stored_progress_def fun_eq_iff)
next
  case (16 w u w')
  then show ?case using rollback_run [of render w u w'] by (auto simp: mysql_env_def stored_progress_def fun_eq_iff)
next
  case (17 w u w')
  then have "map_err_op render (execute_control srv ''UNLOCK TABLES'') w = (u, w')"
    by (simp add: mysql_env_def target_unlock_tables_def)
  from control_run [OF this] show ?case using unlock_control
    by (fastforce simp: stored_progress_def fun_eq_iff)
next
  case (18 run t w p w')
  then show ?case using load_run [of render run t w p w'] by (simp add: mysql_env_def)
next
  case (19 progress w u w')
  then show ?case using save_run [of render progress w u w'] by (auto simp: mysql_env_def)
qed

end

end
