(* ===== verification/Memory_Server.thy ===== *)
theory Memory_Server
  imports Sync_Adapter_Correct
begin

text \<open>
  An executable server that keeps the contract \<open>mysql_engine\<close>: tables are lists of raw result rows,
  ordered by the byte order of their keys, with a session view and committed rows of the target,
  statement-atomic writes, and duplicate errors on the primary key and on secondary unique indexes.
  It stands for the database the program talks to and is used to evaluate whole runs.
\<close>

section \<open>State\<close>

record memory =
  mm_source :: "cells list"
  mm_target :: "cells list"
  mm_committed :: "cells list"
  mm_unique :: "(string \<times> string list) list"
  mm_progress :: "sync_progress_row list"

definition mem_decode :: "sync_table \<Rightarrow> cells \<Rightarrow> (row_key \<times> cells \<times> database_row) option" where
  "mem_decode table c = (case decode_sync_row table c of
     Inr d \<Rightarrow> Some (dr_primary_key d, c, d) | Inl _ \<Rightarrow> None)"

definition mem_index :: "sync_table \<Rightarrow> cells list \<Rightarrow> (row_key \<times> cells \<times> database_row) list" where
  "mem_index table cs = btm_collect (List.map_filter (mem_decode table) cs)"

definition mem_lookup :: "sync_table \<Rightarrow> cells list \<Rightarrow> row_key \<Rightarrow> row_values option" where
  "mem_lookup table cs k = map_option (\<lambda>(c, d). dr_values d) (map_of (mem_index table cs) k)"

definition mem_find_progress :: "sync_progress_row list \<Rightarrow> string \<Rightarrow> sync_stage \<Rightarrow> string \<Rightarrow> sync_progress_row option" where
  "mem_find_progress rows run stage t =
     find (\<lambda>r. pr_run_id r = run \<and> pr_stage r = stage \<and> pr_table_name r = t) rows"

definition mem_view :: "sync_table \<Rightarrow> memory \<Rightarrow> db_view" where
  "mem_view table m =
     \<lparr>dv_src = mem_lookup table (mm_source m), dv_tgt = mem_lookup table (mm_target m),
      dv_base = mem_lookup table (mm_committed m), dv_rows = mem_find_progress (mm_progress m)\<rparr>"

section \<open>Operations\<close>

definition mem_range :: "sync_chunk_read_request \<Rightarrow> row_key \<Rightarrow> bool" where
  "mem_range req k = (after_key (<) (rq_start_after req) k \<and> upto_key (<) (rq_end_at req) k)"

definition mem_select :: "sync_table \<Rightarrow> cells list \<Rightarrow> sync_chunk_read_request \<Rightarrow> (string + cells) list" where
  "mem_select table cs req =
     map (\<lambda>(k, c, d). Inr c) (take (rq_limit req) (filter (\<lambda>e. mem_range req (fst e)) (mem_index table cs)))"

definition mem_exact :: "sync_table \<Rightarrow> cells list \<Rightarrow> row_key \<Rightarrow> cells list" where
  "mem_exact table cs k = (case map_of (mem_index table cs) k of None \<Rightarrow> [] | Some (c, d) \<Rightarrow> [c])"

definition row_cells :: "sync_table \<Rightarrow> database_row \<Rightarrow> cells" where
  "row_cells table row = map (\<lambda>c. case map_of (dr_values row) c of Some v \<Rightarrow> v | None \<Rightarrow> None) (st_columns table)"

text \<open>A row the table can hold as it is.\<close>

definition mem_storable :: "sync_table \<Rightarrow> database_row \<Rightarrow> bool" where
  "mem_storable table row = (case decode_sync_row table (row_cells table row) of
      Inl _ \<Rightarrow> False
    | Inr d \<Rightarrow> dr_primary_key d = dr_primary_key row \<and> \<not> rows_diverge table (dr_values row) (dr_values d))"

definition index_identity :: "string list \<Rightarrow> database_row \<Rightarrow> string option list" where
  "index_identity columns d = map (\<lambda>c. case map_of (dr_values d) c of Some v \<Rightarrow> v | None \<Rightarrow> None) columns"

definition mem_duplicate :: "sync_table \<Rightarrow> (string \<times> string list) list \<Rightarrow> cells list \<Rightarrow> string option" where
  "mem_duplicate table unique cs =
     map_option fst (find (\<lambda>(name, columns).
       let ids = filter (\<lambda>i. None \<notin> set i) (map (\<lambda>(k, c, d). index_identity columns d) (mem_index table cs))
       in \<not> distinct ids) unique)"

definition duplicate_message :: "string \<Rightarrow> string" where
  "duplicate_message name = ''Duplicate entry for key '' @ [apostrophe] @ name @ [apostrophe]"

definition mem_drop :: "sync_table \<Rightarrow> row_key set \<Rightarrow> cells list \<Rightarrow> cells list" where
  "mem_drop table ks cs = filter (\<lambda>c. case decode_sync_row table c of Inr d \<Rightarrow> dr_primary_key d \<notin> ks | Inl _ \<Rightarrow> True) cs"

definition mem_write :: "sync_table \<Rightarrow> database_row list \<Rightarrow> cells list \<Rightarrow> cells list" where
  "mem_write table rows cs = mem_drop table (set (map dr_primary_key rows)) cs @ map (row_cells table) rows"

definition mem_put ::
  "sync_table \<Rightarrow> database_row list \<Rightarrow> u64 \<Rightarrow> memory \<Rightarrow> (exec_error + u64) \<times> memory"
where
  "mem_put table rows n m =
     (let cs = mem_write table rows (mm_target m) in
      if \<not> list_all (mem_storable table) rows then (Inl (Some 1366, ''Incorrect value''), m)
      else case mem_duplicate table (mm_unique m) cs of
        Some name \<Rightarrow> (Inl (Some 1062, duplicate_message name), m)
      | None \<Rightarrow> (Inr n, m\<lparr>mm_target := cs\<rparr>))"

definition mem_insert :: "sync_table \<Rightarrow> database_row list \<Rightarrow> memory \<Rightarrow> (exec_error + u64) \<times> memory" where
  "mem_insert table rows m =
     (if list_ex (\<lambda>r. map_of (mem_index table (mm_target m)) (dr_primary_key r) \<noteq> None) rows
      then (Inl (Some 1062, duplicate_message ''PRIMARY''), m)
      else mem_put table rows (of_nat (length rows)) m)"

definition mem_update :: "sync_table \<Rightarrow> database_row list \<Rightarrow> memory \<Rightarrow> (exec_error + u64) \<times> memory" where
  "mem_update table rows m =
     (let found = filter (\<lambda>r. map_of (mem_index table (mm_target m)) (dr_primary_key r) \<noteq> None) rows in
      if found = rows then mem_put table rows (of_nat (length rows)) m
      else (Inl (Some 1205, ''row not found''), m))"

definition mem_owner :: "sync_table \<Rightarrow> cells list \<Rightarrow> sync_unique_index \<Rightarrow> database_row \<Rightarrow> cells list" where
  "mem_owner table cs index row =
     take 2 (map (\<lambda>(k, c, d). c) (filter (\<lambda>(k, c, d).
       index_identity (ux_columns index) d = index_identity (ux_columns index) row) (mem_index table cs)))"

definition mem_unique_columns :: "(string \<times> string list) list \<Rightarrow> unique_index_column list" where
  "mem_unique_columns unique = concat (map (\<lambda>(name, columns).
     map (\<lambda>(i, c). \<lparr>uic_index = name, uic_column = Some c, uic_sequence = of_nat (i + 1), uic_prefix_length = None\<rparr>)
       (enumerate 0 columns)) unique)"

definition mem_control :: "string \<Rightarrow> memory \<Rightarrow> (string + unit) \<times> memory" where
  "mem_control sql m =
     (if sql = ''COMMIT'' then (Inr (), m\<lparr>mm_committed := mm_target m\<rparr>)
      else if sql = ''ROLLBACK'' then (Inr (), m\<lparr>mm_target := mm_committed m\<rparr>)
      else if sql = ''UNLOCK TABLES'' then (Inr (), m\<lparr>mm_committed := mm_target m\<rparr>)
      else (Inr (), m))"

definition mem_save :: "sync_progress_row \<Rightarrow> memory \<Rightarrow> (string + unit) \<times> memory" where
  "mem_save row m = (Inr (), m\<lparr>mm_progress := row # mm_progress m\<rparr>)"

definition memory_server :: "sync_table \<Rightarrow> memory mysql_server" where
  "memory_server table =
     \<lparr>my_source_query = (\<lambda>sql req m. (Inr (Some (mem_select table (mm_source m) req)), m)),
      my_source_exact = (\<lambda>st k m. (Inr (mem_exact table (mm_source m) k), m)),
      my_target_query = (\<lambda>sql req m. (Inr (Some (mem_select table (mm_target m) req)), m)),
      my_target_exact = (\<lambda>st k m. (Inr (mem_exact table (mm_target m) k), m)),
      my_target_owner = (\<lambda>st index row m. (Inr (mem_owner table (mm_target m) index row), m)),
      my_unique_columns = (\<lambda>st m. (Inr (mem_unique_columns (mm_unique m)), m)),
      my_insert = (\<lambda>st rows. mem_insert table rows),
      my_update = (\<lambda>st rows. mem_update table rows),
      my_delete = (\<lambda>st ks m. (Inr (of_nat (length (filter (\<lambda>k. map_of (mem_index table (mm_target m)) k \<noteq> None) ks))),
        m\<lparr>mm_target := mem_drop table (set ks) (mm_target m)\<rparr>)),
      my_control = mem_control,
      my_load_stage = (\<lambda>run stage t m. (Inr (mem_find_progress (mm_progress m) run stage t), m)),
      my_save_stage = mem_save\<rparr>"

definition memory_session :: "string \<Rightarrow> sync_table \<Rightarrow> memory target_session" where
  "memory_session database table = \<lparr>ts_database = database, ts_table = table, ts_transitions = None\<rparr>"

section \<open>The index\<close>

lemma mem_index_entry:
  assumes "map_of (mem_index table cs) k = Some (c, d)"
  shows "decode_sync_row table c = Inr d \<and> dr_primary_key d = k"
proof -
  have "(k, c, d) \<in> set (List.map_filter (mem_decode table) cs)"
    using assms map_of_SomeD unfolding mem_index_def map_of_btm_collect by fastforce
  then show ?thesis by (auto simp: List.map_filter_def mem_decode_def split: sum.splits)
qed

lemma mem_index_in:
  assumes "(k, c, d) \<in> set (mem_index table cs)"
  shows "decode_sync_row table c = Inr d" "dr_primary_key d = k" "mem_lookup table cs k = Some (dr_values d)"
proof -
  have "map_of (mem_index table cs) k = Some (c, d)"
    using assms btm_wf_distinct [of "mem_index table cs"] by (simp add: mem_index_def)
  from mem_index_entry [OF this] this
  show "decode_sync_row table c = Inr d" "dr_primary_key d = k" "mem_lookup table cs k = Some (dr_values d)"
    by (auto simp: mem_lookup_def)
qed

lemma mem_lookup_key: "mem_lookup table cs k \<noteq> None \<longleftrightarrow> k \<in> fst ` set (mem_index table cs)"
  by (auto simp: mem_lookup_def map_of_eq_None_iff)

lemma map_filter_append [simp]: "List.map_filter f (xs @ ys) = List.map_filter f xs @ List.map_filter f ys"
  by (simp add: List.map_filter_def)

lemma lookup_append: "mem_lookup table (cs @ ds) k =
    (case mem_lookup table ds k of None \<Rightarrow> mem_lookup table cs k | Some v \<Rightarrow> Some v)"
  unfolding mem_lookup_def mem_index_def map_of_btm_collect
  by (auto simp: map_add_def split: option.splits)

lemma map_of_filter_keys: "map_of (filter (\<lambda>e. fst e \<notin> ks) es) k = (if k \<in> ks then None else map_of es k)"
  by (induction es) auto

lemma lookup_drop: "mem_lookup table (mem_drop table ks cs) k = (if k \<in> ks then None else mem_lookup table cs k)"
proof -
  have "List.map_filter (mem_decode table) (mem_drop table ks cs) =
      filter (\<lambda>e. fst e \<notin> ks) (List.map_filter (mem_decode table) cs)"
    by (induction cs) (auto simp: mem_drop_def List.map_filter_def mem_decode_def split: sum.splits)
  then have "map_of (rev (List.map_filter (mem_decode table) (mem_drop table ks cs))) k =
      (if k \<in> ks then None else map_of (rev (List.map_filter (mem_decode table) cs)) k)"
    by (simp add: rev_filter map_of_filter_keys)
  then show ?thesis unfolding mem_lookup_def mem_index_def map_of_btm_collect by simp
qed


lemma map_filter_total: "(\<And>x. x \<in> set xs \<Longrightarrow> f x = Some (g x)) \<Longrightarrow> List.map_filter f xs = map g xs"
  by (induction xs) (simp_all add: List.map_filter_def)

lemma lookup_rows:
  assumes "list_all (mem_storable table) rows" "distinct (map dr_primary_key rows)"
  shows "x \<in> set rows \<Longrightarrow> row_agrees table (Some (dr_values x)) (mem_lookup table (map (row_cells table) rows) (dr_primary_key x))"
    and "k \<notin> dr_primary_key ` set rows \<Longrightarrow> mem_lookup table (map (row_cells table) rows) k = None"
proof -
  let ?es = "List.map_filter (mem_decode table) (map (row_cells table) rows)"
  let ?d = "\<lambda>x. projr (decode_sync_row table (row_cells table x))"
  have dec: "decode_sync_row table (row_cells table x) = Inr (?d x) \<and> dr_primary_key (?d x) = dr_primary_key x \<and>
      \<not> rows_diverge table (dr_values x) (dr_values (?d x))" if "x \<in> set rows" for x
    using assms(1) that
    by (cases "decode_sync_row table (row_cells table x)") (force simp: list_all_iff mem_storable_def)+
  have es: "?es = map (\<lambda>x. (dr_primary_key x, row_cells table x, ?d x)) rows"
  proof -
    have one: "mem_decode table (row_cells table x) = Some (dr_primary_key x, row_cells table x, ?d x)"
      if "x \<in> set rows" for x
      using dec [OF that] unfolding mem_decode_def by (metis (mono_tags, lifting) sum.case(2))
    have "?es = List.map_filter (\<lambda>x. mem_decode table (row_cells table x)) rows"
      by (simp add: List.map_filter_def filter_map comp_def)
    also have "\<dots> = map (\<lambda>x. (dr_primary_key x, row_cells table x, ?d x)) rows"
      by (rule map_filter_total) (rule one)
    finally show ?thesis .
  qed
  have "distinct (map fst (rev ?es))" using assms(2) by (simp add: es comp_def rev_map [symmetric])
  then have look: "mem_lookup table (map (row_cells table) rows) k = Some v \<longleftrightarrow>
      (\<exists>x \<in> set rows. dr_primary_key x = k \<and> dr_values (?d x) = v)" for k v
    unfolding mem_lookup_def mem_index_def map_of_btm_collect
    by (auto simp: map_of_eq_Some_iff es)
  show "row_agrees table (Some (dr_values x)) (mem_lookup table (map (row_cells table) rows) (dr_primary_key x))"
    if x: "x \<in> set rows"
  proof -
    have "mem_lookup table (map (row_cells table) rows) (dr_primary_key x) = Some (dr_values (?d x))"
      using look x by blast
    then show ?thesis using dec [OF x] by (simp add: row_agrees_def)
  qed
  show "mem_lookup table (map (row_cells table) rows) k = None" if "k \<notin> dr_primary_key ` set rows"
    using look that by (metis image_eqI not_Some_eq)
qed

lemma lookup_write:
  assumes "list_all (mem_storable table) rows" "distinct (map dr_primary_key rows)"
  shows "x \<in> set rows \<Longrightarrow> row_agrees table (Some (dr_values x)) (mem_lookup table (mem_write table rows cs) (dr_primary_key x))"
    and "k \<notin> dr_primary_key ` set rows \<Longrightarrow> mem_lookup table (mem_write table rows cs) k = mem_lookup table cs k"
proof -
  show "row_agrees table (Some (dr_values x)) (mem_lookup table (mem_write table rows cs) (dr_primary_key x))"
    if "x \<in> set rows"
    using lookup_rows(1) [OF assms that]
    by (cases "mem_lookup table (map (row_cells table) rows) (dr_primary_key x)")
      (simp_all add: mem_write_def lookup_append row_agrees_def)
  show "mem_lookup table (mem_write table rows cs) k = mem_lookup table cs k" if "k \<notin> dr_primary_key ` set rows"
    using lookup_rows(2) [OF assms that] that by (simp add: mem_write_def lookup_append lookup_drop)
qed

lemma put_law:
  assumes "distinct (map dr_primary_key rows)" "mem_put table rows n m = (r, m')"
  shows "\<exists>T'. mem_view table m' = (mem_view table m)\<lparr>dv_tgt := T'\<rparr> \<and>
     rows_changed table rows (dv_tgt (mem_view table m)) T' \<and>
     (r = Inr (of_nat (length rows)) \<longrightarrow>
        (\<forall>x \<in> set rows. row_agrees table (Some (dr_values x)) (T' (dr_primary_key x))))"
proof (cases "\<exists>v. r = Inr v")
  case False
  then have "m' = m" using assms(2) by (auto simp: mem_put_def Let_def split: if_splits option.splits)
  then show ?thesis using False by (intro exI [of _ "dv_tgt (mem_view table m)"]) (simp add: rows_changed_def)
next
  case True
  then have ok: "list_all (mem_storable table) rows" "m' = m\<lparr>mm_target := mem_write table rows (mm_target m)\<rparr>"
    using assms(2) by (auto simp: mem_put_def Let_def split: if_splits option.splits)
  note W = lookup_write [OF ok(1) assms(1)]
  let ?T = "mem_lookup table (mem_write table rows (mm_target m))"
  have "mem_view table m' = (mem_view table m)\<lparr>dv_tgt := ?T\<rparr>" using ok(2) by (simp add: mem_view_def)
  moreover have "rows_changed table rows (dv_tgt (mem_view table m)) ?T"
    unfolding rows_changed_def
  proof
    fix k
    show "?T k = dv_tgt (mem_view table m) k \<or> (\<exists>x \<in> set rows. dr_primary_key x = k \<and> row_agrees table (Some (dr_values x)) (?T k))"
      using W by (cases "k \<in> dr_primary_key ` set rows") (auto simp: mem_view_def)
  qed
  ultimately show ?thesis using W(1) by blast
qed

lemma select_law: "keyset_result table (<) (mem_lookup table cs) req (mem_select table cs req)"
proof -
  let ?in = "filter (\<lambda>e. mem_range req (fst e)) (mem_index table cs)"
  let ?es = "take (rq_limit req) ?in"
  let ?ds = "map (\<lambda>(k, c, d). d) ?es"
  have entry: "\<And>k c d. (k, c, d) \<in> set ?es \<Longrightarrow> (k, c, d) \<in> set (mem_index table cs) \<and> mem_range req k"
    by (auto dest: in_set_takeD)
  have keys: "map dr_primary_key ?ds = map fst ?es"
  proof -
    have "dr_primary_key ((\<lambda>(k, c, d). d) e) = fst e" if "e \<in> set ?es" for e
      using entry [of "fst e" "fst (snd e)" "snd (snd e)"] that
        mem_index_in(2) [of "fst e" "fst (snd e)" "snd (snd e)" table cs]
      by (simp add: case_prod_beta)
    then show ?thesis by (simp del: set_take_subset)
  qed
  have "sorted_wrt (<) (map fst (mem_index table cs))"
    using btm_wf_collect unfolding mem_index_def btm_wf_def by blast
  then have sin: "sorted_wrt (<) (map fst ?in)" by (simp add: sorted_wrt_map sorted_wrt_filter)
  then have sorted: "sorted_wrt (<) (map dr_primary_key ?ds)"
    unfolding keys by (simp add: take_map [symmetric] sorted_wrt_take)
  have cell: "decode_sync_row table (fst (snd e)) = Inr (snd (snd e))" if "e \<in> set ?es" for e
    using entry [of "fst e" "fst (snd e)" "snd (snd e)"] that
      mem_index_in(1) [of "fst e" "fst (snd e)" "snd (snd e)" table cs] by simp
  have dec: "list_all2 (\<lambda>x d. \<forall>c. x = Inr c \<longrightarrow> decode_sync_row table c = Inr d) (mem_select table cs req) ?ds"
    unfolding mem_select_def list_all2_map1 list_all2_map2 list_all2_same
    using cell by (simp add: case_prod_beta)
  have rows: "after_key (<) (rq_start_after req) (dr_primary_key d) \<and> upto_key (<) (rq_end_at req) (dr_primary_key d) \<and>
      mem_lookup table cs (dr_primary_key d) = Some (dr_values d)" if "d \<in> set ?ds" for d
  proof -
    obtain k c where "(k, c, d) \<in> set ?es" using \<open>d \<in> set ?ds\<close> by auto
    then show ?thesis using entry mem_index_in by (metis mem_range_def)
  qed
  have "k \<in> dr_primary_key ` set ?ds"
    if k: "after_key (<) (rq_start_after req) k" "upto_key (<) (rq_end_at req) k" "mem_lookup table cs k \<noteq> None"
      and full: "length ?ds < rq_limit req \<or> ?ds \<noteq> [] \<and> \<not> dr_primary_key (last ?ds) < k" for k
  proof -
    have kin: "k \<in> set (map fst ?in)" using k mem_lookup_key by (auto simp: mem_range_def)
    have "k \<in> set (map fst ?es)"
    proof (cases "length ?in \<le> rq_limit req")
      case True
      then show ?thesis using kin by simp
    next
      case False
      then have ne: "?ds \<noteq> []" "\<not> dr_primary_key (last ?ds) < k" using full by auto
      have "last (take (rq_limit req) (map fst ?in)) = last (map dr_primary_key ?ds)"
        unfolding keys take_map ..
      also have "\<dots> = dr_primary_key (last ?ds)" by (rule last_map) (rule ne(1))
      finally have "\<not> last (take (rq_limit req) (map fst ?in)) < k" using ne(2) by simp
      moreover have "0 < rq_limit req" using ne(1) by (cases "rq_limit req") simp_all
      ultimately show ?thesis
        using sorted_take_last [OF sin, of "rq_limit req" k] False kin by (auto simp: take_map)
    qed
    then have "k \<in> set (map dr_primary_key ?ds)" by (simp only: keys)
    then show ?thesis by (simp only: list.set_map)
  qed
  then show ?thesis unfolding keyset_result_def using dec sorted rows by (intro exI [of _ ?ds]) auto
qed


section \<open>The contract\<close>

lemma memory_engine: "mysql_engine (memory_server table) (memory_session database table) (<) (mem_view table)"
proof (unfold_locales, goal_cases)
  case (4 req sql w r w')
  then show ?case using select_law by (auto simp: memory_server_def memory_session_def mem_view_def)
next
  case (5 k st w re w')
  have "exact_result table (mem_lookup table (mm_source w)) k (mem_exact table (mm_source w) k)"
    using mem_index_entry [of table "mm_source w" k]
    by (cases "map_of (mem_index table (mm_source w)) k")
      (auto simp: exact_result_def mem_exact_def mem_lookup_def decode_sync_rows_def)
  then show ?case using 5 by (auto simp: memory_server_def memory_session_def mem_view_def)
next
  case (6 req sql w r w')
  then show ?case using select_law by (auto simp: memory_server_def memory_session_def mem_view_def)
next
  case (10 rows st w rm w')
  then show ?case using put_law [of rows table "of_nat (length rows)" w rm w']
    by (auto simp: memory_server_def memory_session_def mem_insert_def split: if_splits)
      (rule exI [of _ "dv_tgt (mem_view table w)"], simp add: rows_changed_def)
next
  case (11 rows st w rm w')
  then show ?case using put_law [of rows table "of_nat (length rows)" w rm w']
    by (auto simp: memory_server_def memory_session_def mem_update_def Let_def split: if_splits)
      (rule exI [of _ "dv_tgt (mem_view table w)"], simp add: rows_changed_def)
next
  case (12 ks st w rd w')
  then show ?case
    by (intro exI [of _ "mem_lookup table (mem_drop table (set ks) (mm_target w))"])
      (auto simp: memory_server_def mem_view_def lookup_drop)
next
  case (18 run stage t w rl w')
  then show ?case by (auto simp: memory_server_def mem_view_def)
next
  case (19 w run stage t row)
  then show ?case by (auto simp: mem_view_def mem_find_progress_def find_Some_iff)
next
  case (20 row w u w')
  then show ?case
    by (intro disjI1 exI [of _ row])
      (auto simp: memory_server_def mem_view_def mem_save_def mem_find_progress_def same_progress_def fun_eq_iff)
qed (auto simp: memory_server_def memory_session_def mem_view_def mem_control_def split: if_splits)

interpretation memory: mysql_engine "memory_server table" "memory_session database table" "(<)" "mem_view table"
  for table :: sync_table and database :: string
  by (rule memory_engine)

end
