(* ===== verification/Sync_Run.thy ===== *)
theory Sync_Run
  imports Memory_Server
begin

text \<open>
  The chunk run over the MySQL adapter: what one chunk guarantees on every outcome, and what a run
  to completion reaches. The server is any server that keeps the contract \<open>mysql_engine\<close>; the
  witnesses run the model on the in-memory server.
\<close>

section \<open>Example\<close>

definition demo_table :: sync_table where
  "demo_table =
     \<lparr>st_name = ''t'', st_primary_key = [''id''], st_primary_key_ordering = [Native], st_columns = [''id'', ''v''],
      st_bit_columns = [], st_enum_columns = [], st_mediumblob_columns = []\<rparr>"

definition demo_config :: sync_chunk_config where
  "demo_config = \<lparr>cc_run_id = ''r'', cc_target_database = ''d'', cc_table = demo_table, cc_chunk_size = 2\<rparr>"

text \<open>Source rows 1, 2, 3; target rows 2 (owning the unique value of row 1), 3 (divergent) and 5.\<close>

definition demo_memory :: memory where
  "demo_memory =
     \<lparr>mm_source = [[Some ''1'', Some ''a''], [Some ''2'', Some ''b''], [Some ''3'', Some ''c'']],
      mm_target = [[Some ''2'', Some ''a''], [Some ''3'', Some ''x''], [Some ''5'', Some ''e'']],
      mm_committed = [[Some ''2'', Some ''a''], [Some ''3'', Some ''x''], [Some ''5'', Some ''e'']],
      mm_unique = [(''uv'', [''v''])], mm_progress = []\<rparr>"

definition demo_session :: "memory session" where
  "demo_session = \<lparr>se_server = demo_memory, se_pending = [], se_log = []\<rparr>"

definition demo_env :: "memory session sync_env" where
  "demo_env = mysql_env 3 (\<lambda>_. ''error'') (memory_server demo_table) (memory_session ''d'' demo_table)"

definition demo_chunk :: "(sync_chunk_error + sync_chunk_progress) \<times> memory session" where
  "demo_chunk = sync_next_chunk_with_phase 5 demo_config demo_env AllPhases demo_session"

definition demo_run :: "(sync_chunk_error + sync_chunk_progress) \<times> memory session" where
  "demo_run = sync_table_to_completion 5 5 demo_config demo_env AllPhases demo_session"

lemma demo_name: "st_name demo_table = ''t''"
  by (simp add: demo_table_def)

lemma demo_clean: "dv_tgt (mem_view demo_table (se_server demo_session)) = dv_base (mem_view demo_table (se_server demo_session))"
  by (simp add: demo_session_def demo_memory_def mem_view_def)

lemma demo_fresh: "stored_progress (mem_view demo_table (se_server demo_session)) run t = None"
  by (simp add: demo_session_def demo_memory_def mem_view_def stored_progress_def mem_find_progress_def)

lemma demo_run_result: "case fst demo_run of Inr p \<Rightarrow> cp_complete p | Inl _ \<Rightarrow> False"
  by code_simp

lemma demo_chunk_result: "case fst demo_chunk of Inr p \<Rightarrow> True | Inl _ \<Rightarrow> False"
  by code_simp


section \<open>Properties\<close>

text \<open>C2. One chunk, on every outcome (success, or any error with its cleanup): the source is
  untouched, committed target rows moved only to what the source has under the same key, and the
  durable progress is still covered by the committed rows: every key up to the stored cursor, and
  every key once the progress is complete, has its phase done. A success reports exactly the
  progress that is stored, with nothing left uncommitted.\<close>

theorem chunk_outcome_durable:
  assumes engine: "mysql_engine srv ts lt view"
    and config: "cc_table config = ts_table ts" "0 < cc_chunk_size config"
    and clean: "dv_tgt (view (se_server s)) = dv_base (view (se_server s))"
    and start: "covered (ts_table ts) lt phase
      (stored_progress (view (se_server s)) (cc_run_id config) (st_name (ts_table ts)))
      (dv_src (view (se_server s))) (dv_base (view (se_server s)))"
    and run: "sync_next_chunk_with_phase fuel config (mysql_env passes render srv ts) phase s = (r, s')"
  shows "dv_src (view (se_server s')) = dv_src (view (se_server s)) \<and>
    authoritative (ts_table ts) (dv_src (view (se_server s))) (dv_base (view (se_server s))) (dv_base (view (se_server s'))) \<and>
    covered (ts_table ts) lt phase
      (stored_progress (view (se_server s')) (cc_run_id config) (st_name (ts_table ts)))
      (dv_src (view (se_server s'))) (dv_base (view (se_server s'))) \<and>
    (\<forall>p. r = Inr p \<longrightarrow> dv_tgt (view (se_server s')) = dv_base (view (se_server s')) \<and>
       stored_progress (view (se_server s')) (cc_run_id config) (st_name (ts_table ts)) = Some p)"
proof -
  note B = mysql_engine.backend [OF engine, of passes render]
  note D = sync_backend.durable_def [OF B]
  from sync_backend.sync_next_chunk_correct [OF B run config clean, unfolded D, OF start]
  show ?thesis by blast
qed

theorem chunk_outcome_durable_witness:
  "covered demo_table (<) AllPhases
     (stored_progress (mem_view demo_table (se_server (snd demo_chunk))) ''r'' ''t'')
     (dv_src (mem_view demo_table (se_server (snd demo_chunk))))
     (dv_base (mem_view demo_table (se_server (snd demo_chunk))))"
proof -
  have run: "sync_next_chunk_with_phase 5 demo_config
      (mysql_env 3 (\<lambda>_. ''error'') (memory_server demo_table) (memory_session ''d'' demo_table)) AllPhases demo_session
      = (fst demo_chunk, snd demo_chunk)"
    by (simp add: demo_chunk_def demo_env_def)
  have start: "covered (ts_table (memory_session ''d'' demo_table)) (<) AllPhases
      (stored_progress (mem_view demo_table (se_server demo_session)) (cc_run_id demo_config)
        (st_name (ts_table (memory_session ''d'' demo_table))))
      (dv_src (mem_view demo_table (se_server demo_session))) (dv_base (mem_view demo_table (se_server demo_session)))"
    by (simp add: covered_def demo_fresh)
  have cfg: "cc_table demo_config = ts_table (memory_session ''d'' demo_table)" "0 < cc_chunk_size demo_config"
    by (simp_all add: demo_config_def memory_session_def)
  have at: "ts_table (memory_session ''d'' demo_table) = demo_table" "cc_run_id demo_config = ''r''"
    by (simp_all add: memory_session_def demo_config_def)
  show ?thesis
    using chunk_outcome_durable [OF memory_engine cfg demo_clean start run] unfolding at demo_name by blast
qed

text \<open>C3. A table that is run to completion with all phases agrees with the source: every source row
  is in the committed target with the same non-key columns, and the target has no other row. An
  unfinished or failed run leaves the durable progress covered, so it can be resumed.\<close>

theorem completed_table_agrees:
  assumes engine: "mysql_engine srv ts lt view"
    and config: "cc_table config = ts_table ts" "0 < cc_chunk_size config"
    and clean: "dv_tgt (view (se_server s)) = dv_base (view (se_server s))"
    and start: "covered (ts_table ts) lt AllPhases
      (stored_progress (view (se_server s)) (cc_run_id config) (st_name (ts_table ts)))
      (dv_src (view (se_server s))) (dv_base (view (se_server s)))"
    and run: "sync_table_to_completion chunks fuel config (mysql_env passes render srv ts) AllPhases s = (r, s')"
  shows "dv_src (view (se_server s')) = dv_src (view (se_server s)) \<and>
    covered (ts_table ts) lt AllPhases
      (stored_progress (view (se_server s')) (cc_run_id config) (st_name (ts_table ts)))
      (dv_src (view (se_server s'))) (dv_base (view (se_server s'))) \<and>
    (\<forall>p. r = Inr p \<longrightarrow> cp_complete p \<and>
       (\<forall>k. row_agrees (ts_table ts) (dv_src (view (se_server s)) k) (dv_base (view (se_server s')) k)))"
proof -
  note B = mysql_engine.backend [OF engine, of passes render]
  note D = sync_backend.durable_def [OF B]
  from sync_backend.sync_to_completion_correct [OF B run config clean, unfolded D phase_done_all, OF start]
  show ?thesis by blast
qed

theorem completed_table_agrees_witness:
  "(case fst demo_run of Inr p \<Rightarrow> cp_complete p | Inl _ \<Rightarrow> False) \<and>
   (\<forall>k. row_agrees demo_table (mem_lookup demo_table (mm_source demo_memory) k)
      (dv_base (mem_view demo_table (se_server (snd demo_run))) k))"
proof -
  have run: "sync_table_to_completion 5 5 demo_config
      (mysql_env 3 (\<lambda>_. ''error'') (memory_server demo_table) (memory_session ''d'' demo_table)) AllPhases demo_session
      = (fst demo_run, snd demo_run)"
    by (simp add: demo_run_def demo_env_def)
  have start: "covered (ts_table (memory_session ''d'' demo_table)) (<) AllPhases
      (stored_progress (mem_view demo_table (se_server demo_session)) (cc_run_id demo_config)
        (st_name (ts_table (memory_session ''d'' demo_table))))
      (dv_src (mem_view demo_table (se_server demo_session))) (dv_base (mem_view demo_table (se_server demo_session)))"
    by (simp add: covered_def demo_fresh)
  have cfg: "cc_table demo_config = ts_table (memory_session ''d'' demo_table)" "0 < cc_chunk_size demo_config"
    by (simp_all add: demo_config_def memory_session_def)
  obtain p where p: "fst demo_run = Inr p" using demo_run_result by (cases "fst demo_run") auto
  show ?thesis
    using completed_table_agrees [OF memory_engine cfg demo_clean start run] p demo_run_result
    by (simp add: memory_session_def mem_view_def demo_session_def)
qed

end
