(* ===== verification/Chunk_Frame.thy ===== *)
theory Chunk_Frame
  imports Sync_Chunk
begin

text \<open>
  Frame rules: a condition on the state that every operation of an environment keeps is kept by a
  whole chunk run. The rules for sequencing carry the proof through the definitions of
  \<open>Sync_Chunk\<close>.
\<close>

section \<open>Keeping a condition\<close>

definition keeps :: "('w \<Rightarrow> bool) \<Rightarrow> ('w, 'e, 'a) op \<Rightarrow> bool" where
  "keeps I m \<longleftrightarrow> (\<forall>w r w'. m w = (r, w') \<longrightarrow> I w \<longrightarrow> I w')"

named_theorems keep_rules \<open>frame rules for operations\<close>

lemma keepsD: "keeps I m \<Longrightarrow> m w = (r, w') \<Longrightarrow> I w \<Longrightarrow> I w'"
  by (simp add: keeps_def)

lemma keeps_basic [keep_rules]:
  "keeps I (ret_op a)" "keeps I (fail_op e)" "keeps I (lift_op r)"
  by (auto simp: keeps_def ret_op_def fail_op_def lift_op_def)

lemma keeps_map_err [keep_rules]: "keeps I m \<Longrightarrow> keeps I (map_err_op g m)"
  by (auto simp: keeps_def map_err_op_def split: prod.splits)

lemma keeps_bind [keep_rules]: "keeps I m \<Longrightarrow> (\<And>a. keeps I (f a)) \<Longrightarrow> keeps I (bind_op m f)"
  unfolding keeps_def bind_op_def by (fastforce split: prod.splits sum.splits)

lemma keeps_if [keep_rules]: "keeps I m \<Longrightarrow> keeps I n \<Longrightarrow> keeps I (if b then m else n)"
  by simp

lemma keeps_option [keep_rules]:
  "keeps I m \<Longrightarrow> (\<And>a. keeps I (f a)) \<Longrightarrow> keeps I (case x of None \<Rightarrow> m | Some a \<Rightarrow> f a)"
  by (cases x) simp_all

lemma keeps_prod [keep_rules]: "(\<And>a b. keeps I (f a b)) \<Longrightarrow> keeps I (case x of (a, b) \<Rightarrow> f a b)"
  by (cases x) simp

section \<open>Environments that keep a condition\<close>

locale framed_env =
  fixes env :: "'w sync_env" and I :: "'w \<Rightarrow> bool"
  assumes env_keeps [keep_rules]:
    "keeps I (source_read_rows env req)" "keeps I (source_read_row_by_primary_key env key)"
    "keeps I (set_autocommit env b)" "keeps I (lock_table_write env d t)" "keeps I (target_read_rows env req)"
    "keeps I (delete_rows env ks)" "keeps I (update_rows env rows)" "keeps I (insert_rows env rows)"
    "keeps I (inspect_unique_owner_conflicts env failure)" "keeps I (reconcile_unique_owner env conflict action)"
    "keeps I (verify_rows env rows)" "keeps I (commit env)" "keeps I (rollback env)" "keeps I (unlock_tables env)"
    "keeps I (progress_load env run t)" "keeps I (progress_save env p)"
begin

lemma load_prepare_keeps [keep_rules]: "keeps I (load_progress config env)" "keeps I (prepare_target_chunk config env)"
  unfolding load_progress_def prepare_target_chunk_def by (intro keep_rules allI)+

lemma unlock_keeps: "unlock_after_error env e w = (e', w') \<Longrightarrow> I w \<Longrightarrow> I w'"
  using keepsD [OF env_keeps(14)] by (auto simp: unlock_after_error_def split: prod.splits sum.splits)

lemma rollback_keeps: "rollback_and_unlock env e w = (e', w') \<Longrightarrow> I w \<Longrightarrow> I w'"
  unfolding rollback_and_unlock_def Let_def
  using keepsD [OF env_keeps(13)] keepsD [OF env_keeps(14)] by (auto split: prod.splits)

lemma save_keeps [keep_rules]: "keeps I (save_progress_and_unlock config p env)"
  unfolding keeps_def
proof (intro allI impI)
  fix w r w' assume run: "save_progress_and_unlock config p env w = (r, w')" and w: "I w"
  obtain q w1 where q: "progress_save env p w = (q, w1)" by fastforce
  have w1: "I w1" by (rule keepsD [OF env_keeps(16) q w])
  show "I w'"
  proof (cases q)
    case (Inl e)
    then show ?thesis using run q w1 unlock_keeps by (auto simp: save_progress_and_unlock_def split: prod.splits)
  next
    case (Inr u)
    have "keeps I (bind_op (map_err_op (UnlockAfterProgress (cc_target_database config) (st_name (cc_table config)))
        (unlock_tables env)) (\<lambda>_. ret_op p :: ('w, sync_chunk_progress) chunk_op))"
      by (intro keep_rules)
    from keepsD [OF this _ w1] show ?thesis using run q Inr by (simp add: save_progress_and_unlock_def)
  qed
qed

lemma delete_only_keeps [keep_rules]: "keeps I (delete_target_only_rows t env ks)"
  unfolding delete_target_only_rows_def by (intro keep_rules)

lemma pages_keeps [keep_rules]: "keeps I (reconcile_pages_loop fuel config env phase end_at start index changes)"
proof (induction fuel arbitrary: start index changes)
  case 0
  show ?case by (simp add: keep_rules)
next
  case (Suc fuel)
  show ?case
    by (simp add: Let_def) (intro keep_rules Suc.IH conjI impI)
qed

lemma conflict_keeps [keep_rules]: "keeps I (reconcile_conflicts t env conflicts done intended)"
proof (induction conflicts arbitrary: "done" intended)
  case Nil
  show ?case by (simp add: keep_rules)
next
  case (Cons c cs)
  show ?case
    by (simp add: reconcile_unique_owner_conflict_def split_def) (intro keep_rules Cons.IH)
qed

lemma try_keeps [keep_rules]: "keeps I (try_strict_mutation t env rows kind)"
  unfolding keeps_def try_strict_mutation_def
  using keepsD [OF env_keeps(7)] keepsD [OF env_keeps(8)]
  by (auto split: prod.splits sum.splits mutation_kind.splits if_splits)

lemma strict_keeps [keep_rules]: "keeps I (strict_mutation_loop fuel t env kind pending done intended)"
proof (induction fuel arbitrary: pending "done" intended)
  case 0
  show ?case by (simp add: keep_rules)
next
  case (Suc fuel)
  show ?case
    by (simp add: inspect_and_reconcile_mutation_failure_def split_def) (intro keep_rules Suc.IH)
qed

lemma locked_keeps [keep_rules]: "keeps I (apply_locked_chunk fuel config p env phase)"
  unfolding apply_locked_chunk_def apply_target_tail_def apply_source_window_def reconcile_target_pages_def
    apply_source_changes_def apply_strict_mutations_def Let_def
  by (intro keep_rules)

lemma chunk_keeps [keep_rules]: "keeps I (sync_next_chunk_with_phase fuel config env phase)"
proof -
  have "keeps I (\<lambda>w. case apply_locked_chunk fuel config p env phase w of
      (Inr p', w') \<Rightarrow> save_progress_and_unlock config p' env w'
    | (Inl e, w') \<Rightarrow> (case rollback_and_unlock env e w' of (e, w'') \<Rightarrow> (Inl e, w'')))" for p
    unfolding keeps_def
    using keepsD [OF locked_keeps] keepsD [OF save_keeps] rollback_keeps
    by (auto split: prod.splits sum.splits)
  then show ?thesis unfolding sync_next_chunk_with_phase_def by (intro keep_rules)
qed

lemma completion_keeps: "keeps I (sync_table_to_completion n fuel config env phase)"
  by (induction n) (simp_all add: keep_rules)

end

end
