(* ===== verification/Sync_Ends.thy ===== *)
theory Sync_Ends
  imports Sync_Run Chunk_Frame
begin

text \<open>
  The loops of a table run end. The page loop of a window, the retry loop of a strict mutation and the
  loop over chunks carry fuel in \<open>Sync_Chunk\<close>; here they are shown to need no more of it than the rows
  of the two tables and the unique indexes allow. The interface \<open>live_backend\<close> adds to the backend
  contract what the retry loop relies on: an inspected conflict names an index of the table and a row
  of the target. \<open>live_server\<close> is the same promise of the MySQL server.
\<close>

section \<open>Exhausted fuel\<close>

fun exhausted :: "sync_chunk_error \<Rightarrow> bool" where
  "exhausted LoopFuelExhausted = True"
| "exhausted (WithCleanup e _ _) = exhausted e"
| "exhausted _ = False"

definition ends :: "('w, sync_chunk_error, 'a) op \<Rightarrow> 'w \<Rightarrow> bool" where
  "ends m w \<longleftrightarrow> (\<forall>e w'. m w = (Inl e, w') \<longrightarrow> \<not> exhausted e)"

named_theorems end_rules \<open>operations that do not run out of fuel\<close>

lemma ends_basic [end_rules]: "ends (ret_op a) w" "\<not> exhausted e \<Longrightarrow> ends (fail_op e) w"
  by (simp_all add: ends_def ret_op_def fail_op_def)

lemma ends_map_err [end_rules]: "(\<And>e. \<not> exhausted (g e)) \<Longrightarrow> ends (map_err_op g m) w"
  by (auto simp: ends_def map_err_op_def map_err_def split: prod.splits sum.splits)

lemma ends_lift [end_rules]: "(\<And>e. r = Inl e \<Longrightarrow> \<not> exhausted e) \<Longrightarrow> ends (lift_op r) w"
  by (auto simp: ends_def lift_op_def)

lemma ends_bind:
  "ends m w \<Longrightarrow> (\<And>a w'. m w = (Inr a, w') \<Longrightarrow> ends (f a) w') \<Longrightarrow> ends (bind_op m f) w"
  unfolding ends_def bind_op_def by (fastforce split: prod.splits sum.splits)

lemma ends_if [end_rules]: "(b \<Longrightarrow> ends m w) \<Longrightarrow> (\<not> b \<Longrightarrow> ends n w) \<Longrightarrow> ends (if b then m else n) w"
  by simp

lemma plan_owner_ends: "plan_unique_owner_action t conflict owner = Inl e \<Longrightarrow> \<not> exhausted e"
  by (cases owner)
    (auto simp: plan_unique_owner_action_def validate_unique_owner_conflict_def validate_current_source_owner_def
       bind_res_def map_err_def split: if_splits sum.splits)

lemma record_key_result:
  "record_unique_owner_repair_key t conflict rk = Inr rk' \<Longrightarrow>
   (ux_name (uc_index conflict), dr_primary_key (uc_intended conflict), dr_primary_key (uc_owner conflict)) \<notin> set rk \<and>
   set rk' = insert (ux_name (uc_index conflict), dr_primary_key (uc_intended conflict), dr_primary_key (uc_owner conflict)) (set rk)"
  by (auto simp: record_unique_owner_repair_key_def Let_def split: if_splits)

lemma record_key_ends: "record_unique_owner_repair_key t conflict rk = Inl e \<Longrightarrow> \<not> exhausted e"
  by (auto simp: record_unique_owner_repair_key_def Let_def split: if_splits)

lemma conflict_ends: "ends (reconcile_unique_owner_conflict t env conflict rk idx) w"
  unfolding reconcile_unique_owner_conflict_def
  by (intro ends_bind end_rules) (simp_all add: plan_owner_ends record_key_ends)

lemma conflicts_end: "ends (reconcile_conflicts t env conflicts rk idx) w"
proof (induction conflicts arbitrary: rk idx w)
  case (Cons c cs)
  then show ?case by (auto intro!: ends_bind conflict_ends)
qed (simp add: end_rules)

lemma inspect_ends: "ends (inspect_and_reconcile_mutation_failure t env f rk idx) w"
  unfolding inspect_and_reconcile_mutation_failure_def
  by (intro ends_bind end_rules conflicts_end) simp

lemma try_ends: "ends (try_strict_mutation t env rows kind) w"
  by (auto simp: ends_def try_strict_mutation_def split: prod.splits sum.splits if_splits mutation_kind.splits)

lemma load_ends: "ends (load_progress config env) w"
  unfolding load_progress_def
  by (intro ends_bind end_rules)
    (auto simp: validate_progress_identity_def split: option.splits if_splits intro!: ends_bind ends_lift ends_basic)

lemma prepare_ends: "ends (prepare_target_chunk config env) w"
  unfolding prepare_target_chunk_def by (intro ends_bind end_rules) simp_all

lemma save_ends: "ends (save_progress_and_unlock config p env) w"
  by (auto simp: ends_def save_progress_and_unlock_def unlock_after_error_def bind_op_def map_err_op_def map_err_def
      ret_op_def split: prod.splits sum.splits)

lemma rollback_exhausted: "rollback_and_unlock env e w = (e', w') \<Longrightarrow> exhausted e' = exhausted e"
  by (auto simp: rollback_and_unlock_def Let_def split: prod.splits if_splits)

lemma delete_only_ends: "ends (delete_target_only_rows t env ks) w"
  unfolding delete_target_only_rows_def by (intro end_rules) simp

lemma tail_ends: "ends (apply_target_tail config progress s env phase) w"
  unfolding apply_target_tail_def Let_def by (intro ends_bind end_rules) simp_all

text \<open>The repair keys of reconciled conflicts grow by those of the conflicts.\<close>

lemma conflict_result:
  assumes "reconcile_unique_owner_conflict t env c rk idx w = (Inr (rk', idx'), w')"
  shows "(ux_name (uc_index c), dr_primary_key (uc_intended c), dr_primary_key (uc_owner c)) \<notin> set rk"
    "set rk' = insert (ux_name (uc_index c), dr_primary_key (uc_intended c), dr_primary_key (uc_owner c)) (set rk)"
  using assms record_key_result [of t c rk]
  unfolding reconcile_unique_owner_conflict_def
  by (auto simp: bind_op_def lift_op_def map_err_op_def map_err_def ret_op_def split: prod.splits sum.splits)

lemma conflicts_result:
  assumes "reconcile_conflicts t env cs rk idx w = (Inr (rk', idx'), w')"
  shows "set rk' = set rk \<union> (\<lambda>c. (ux_name (uc_index c), dr_primary_key (uc_intended c), dr_primary_key (uc_owner c))) ` set cs"
    and "cs \<noteq> [] \<Longrightarrow> set rk' \<noteq> set rk"
proof -
  have "set rk' = set rk \<union> (\<lambda>c. (ux_name (uc_index c), dr_primary_key (uc_intended c), dr_primary_key (uc_owner c))) ` set cs
     \<and> (cs \<noteq> [] \<longrightarrow> set rk' \<noteq> set rk)"
    using assms
  proof (induction cs arbitrary: rk idx w)
    case (Cons c cs)
    obtain q w1 where one: "reconcile_unique_owner_conflict t env c rk idx w = (q, w1)" by fastforce
    then obtain rk1 idx1 where q: "q = Inr (rk1, idx1)" using Cons.prems by (cases q) (auto simp: bind_op_def)
    then have "reconcile_conflicts t env cs rk1 idx1 w1 = (Inr (rk', idx'), w')"
      using Cons.prems one by (simp add: bind_op_def)
    from Cons.IH [OF this] conflict_result [OF one [unfolded q]] show ?case by auto
  qed (simp add: ret_op_def)
  then show "set rk' = set rk \<union> (\<lambda>c. (ux_name (uc_index c), dr_primary_key (uc_intended c), dr_primary_key (uc_owner c))) ` set cs"
    and "cs \<noteq> [] \<Longrightarrow> set rk' \<noteq> set rk" by blast+
qed

section \<open>Backends whose conflicts are bounded\<close>

locale live_backend = sync_backend env table key_less src tgt base stored + framed_env env I
  for env :: "'w sync_env"
    and table :: sync_table
    and key_less :: "row_key \<Rightarrow> row_key \<Rightarrow> bool"
    and src :: "'w \<Rightarrow> row_key \<Rightarrow> row_values option"
    and tgt :: "'w \<Rightarrow> row_key \<Rightarrow> row_values option"
    and base :: "'w \<Rightarrow> row_key \<Rightarrow> row_values option"
    and stored :: "'w \<Rightarrow> string \<Rightarrow> string \<Rightarrow> sync_chunk_progress option"
    and I :: "'w \<Rightarrow> bool" +
  fixes indexes :: "string set"
  assumes finite_indexes: "finite indexes"
    and conflicts_named: "inspect_unique_owner_conflicts env failure w = (Inr conflicts, w') \<Longrightarrow> I w \<Longrightarrow>
      conflicts \<noteq> [] \<and> (\<forall>c \<in> set conflicts. ux_name (uc_index c) \<in> indexes \<and>
        uc_intended c \<in> set (retry_rows failure) \<and> tgt w (dr_primary_key (uc_owner c)) \<noteq> None)"
begin

text \<open>The keys of the two tables: no step adds one.\<close>

definition all_keys :: "'w \<Rightarrow> row_key set" where
  "all_keys w = {k. src w k \<noteq> None \<or> tgt w k \<noteq> None}"

lemma all_keys_step: "tgt_step w w' \<Longrightarrow> all_keys w' \<subseteq> all_keys w"
  unfolding tgt_step_def authoritative_def all_keys_def row_agrees_def
  by (auto split: option.splits)

lemma delete_shrinks:
  "delete_target_only_rows t env ks w = (u, w') \<Longrightarrow> \<forall>k. tgt w' k = tgt w k \<or> tgt w' k = None"
  using delete [of ks w]
  by (auto simp: delete_target_only_rows_def ret_op_def map_err_op_def map_err_def split: if_splits prod.splits sum.splits)

lemma load_same: "load_progress config env w = (r, w') \<Longrightarrow> src w' = src w \<and> tgt w' = tgt w \<and> base w' = base w \<and> stored w' = stored w"
  using load_law [of "cc_run_id config" "st_name (cc_table config)" w]
  by (auto simp: load_progress_def bind_op_def map_err_op_def lift_op_def ret_op_def split: sum.splits option.splits prod.splits)

lemma prepare_same: "prepare_target_chunk config env w = (r, w') \<Longrightarrow> src w' = src w \<and> tgt w' = tgt w \<and> stored w' = stored w"
  using autocommit [of w] lock [of "cc_target_database config" "st_name (cc_table config)"]
  by (auto simp: prepare_target_chunk_def bind_op_def map_err_op_def split: sum.splits prod.splits)

text \<open>Page loop: every page that announces more moves the cursor past a row of the window.\<close>

definition window_rows :: "'w \<Rightarrow> row_key option \<Rightarrow> row_key \<Rightarrow> row_key set" where
  "window_rows w s e = {k. tgt w k \<noteq> None \<and> in_window s (Some e) k}"

lemma pages_end:
  assumes "0 < cc_chunk_size config" "finite (window_rows w sa e)" "card (window_rows w sa e) < fuel"
  shows "ends (reconcile_pages_loop fuel config env phase e sa idx ch) w"
  using assms
proof (induction fuel arbitrary: sa idx ch w)
  case (Suc fuel)
  let ?req = "\<lparr>rq_start_after = sa, rq_end_at = Some e, rq_limit = cc_chunk_size config\<rparr>"
  have next_page: "ends (reconcile_pages_loop fuel config env phase e (Some (dr_primary_key (last (pg_rows page)))) idx' ch') w2"
    if rd: "target_read_rows env ?req w = (Inr page, w1)" and less: "\<forall>k. tgt w2 k = tgt w1 k \<or> tgt w2 k = None"
      and page_more: "pg_has_more page" for page w1 w2 idx' ch'
  proof -
    let ?l = "dr_primary_key (last (pg_rows page))"
    have page: "page_of key_less (tgt w) ?req page" and same: "tgt w1 = tgt w"
      using target_read [OF rd] Suc.prems(1) by auto
    have ne: "pg_rows page \<noteq> []" using page page_more by (simp add: page_of_def)
    then have l: "?l \<in> window_rows w sa e"
      using page last_in_set [OF ne] by (auto simp: page_of_def window_rows_def in_window_def)
    have "window_rows w2 (Some ?l) e \<subseteq> window_rows w sa e"
      using less same l key_trans
      by (auto simp: window_rows_def in_window_def after_key_def split: option.splits) (metis option.distinct(1))+
    moreover have "?l \<notin> window_rows w2 (Some ?l) e" using key_irrefl by (simp add: window_rows_def in_window_def after_key_def)
    ultimately have "window_rows w2 (Some ?l) e \<subset> window_rows w sa e" using l by blast
    then show ?thesis
      using Suc.IH [OF Suc.prems(1)] Suc.prems(2,3) psubset_card_mono finite_subset by (metis less_Suc_eq_le order.strict_trans2 psubset_imp_subset)
  qed
  show ?case
    unfolding ends_def
  proof (intro allI impI)
    fix er w'
    assume run: "reconcile_pages_loop (Suc fuel) config env phase e sa idx ch w = (Inl er, w')"
    obtain pr w1 where rd: "target_read_rows env ?req w = (pr, w1)" by fastforce
    show "\<not> exhausted er"
    proof (cases pr)
      case (Inl x)
      then show ?thesis using run rd by (auto simp: bind_op_def map_err_op_def)
    next
      case (Inr page)
      obtain deletes updates rest where
        rec: "reconcile_target_page (cc_table config) idx (pg_rows page) = (deletes, updates, rest)"
        by (cases "reconcile_target_page (cc_table config) idx (pg_rows page)") auto
      let ?del = "if phase_includes phase DeleteExtras
            then delete_target_only_rows (st_name (cc_table config)) env deletes else ret_op ()"
      obtain u w2 where del: "?del w1 = (u, w2)" by fastforce
      have less: "\<forall>k. tgt w2 k = tgt w1 k \<or> tgt w2 k = None"
        using del delete_shrinks [of "st_name (cc_table config)" deletes w1 u w2]
        by (auto simp: ret_op_def split: if_splits)
      show ?thesis
      proof (cases u)
        case Inl1: (Inl x)
        then show ?thesis using run rd Inr rec del delete_only_ends [of "st_name (cc_table config)" env deletes w1]
          by (auto simp: bind_op_def map_err_op_def Let_def ends_def ret_op_def split: if_splits)
      next
        case Inr1: (Inr y)
        show ?thesis
        proof (cases "pg_has_more page")
          case False
          then show ?thesis using run rd Inr rec del Inr1
            by (simp add: bind_op_def map_err_op_def Let_def ret_op_def)
        next
          case True
          have ne: "pg_rows page \<noteq> []"
            using target_read [OF rd] Inr Suc.prems(1) True by (simp add: page_of_def)
          have "\<exists>ch'. reconcile_pages_loop fuel config env phase e (Some (dr_primary_key (last (pg_rows page)))) rest ch' w2
              = (Inl er, w')"
            using run rd Inr rec del Inr1 True ne
            by (simp add: bind_op_def map_err_op_def Let_def split del: if_split) blast
          then show ?thesis using next_page [OF rd [unfolded Inr] less True] unfolding ends_def by blast
        qed
      qed
    qed
  qed
qed simp

text \<open>Retry loop: every retry records the repair key of a conflict that was not recorded before.\<close>

lemma retries_end:
  assumes "finite K" "all_keys w \<subseteq> K" "I w" "from_source w rows" "set rk \<subseteq> indexes \<times> K \<times> K"
    and "card (indexes \<times> K \<times> K - set rk) < fuel"
  shows "ends (strict_mutation_loop fuel t env kind rows rk idx) w"
  using assms(2-)
proof (induction fuel arbitrary: rows rk idx w)
  case (Suc fuel)
  have retry: "ends (strict_mutation_loop fuel t env kind (retry_rows f) rk' idx') w2"
    if tr: "try_strict_mutation t env rows kind w = (Inr (Some f), w1)"
      and ins: "inspect_and_reconcile_mutation_failure t env f rk idx w1 = (Inr (rk', idx'), w2)" for f w1 w2 rk' idx'
  proof -
    note T = try_strict_correct [OF tr Suc.prems(3)]
    have rows1: "from_source w1 (retry_rows f)" using T(3) from_source_step [OF T(1)] by simp
    have I1: "I w1" by (rule keepsD [OF try_keeps tr Suc.prems(2)])
    obtain cs w1' where insp: "inspect_unique_owner_conflicts env f w1 = (Inr cs, w1')"
      and rec: "reconcile_conflicts t env cs rk idx w1' = (Inr (rk', idx'), w2)"
      using ins unfolding inspect_and_reconcile_mutation_failure_def
      by (auto simp: bind_op_def map_err_op_def map_err_def split: prod.splits sum.splits)
    have I2: "I w2" by (rule keepsD [OF conflict_keeps rec keepsD [OF env_keeps(9) insp I1]])
    have st: "tgt_step w w2" using T(1) inspect_step [OF ins] tgt_step_trans by blast
    have keys1: "all_keys w1 \<subseteq> K" using all_keys_step [OF T(1)] Suc.prems(1) by blast
    note C = conflicts_named [OF insp I1]
    have "(ux_name (uc_index c), dr_primary_key (uc_intended c), dr_primary_key (uc_owner c)) \<in> indexes \<times> K \<times> K"
      if "c \<in> set cs" for c
      using C that keys1 rows1 unfolding from_source_def all_keys_def by auto
    then have sub: "set rk' \<subseteq> indexes \<times> K \<times> K" and grows: "set rk \<subset> set rk'"
      using conflicts_result [OF rec] C Suc.prems(4) by blast+
    have "finite (indexes \<times> K \<times> K - set rk)" using finite_indexes assms(1) by simp
    moreover have "indexes \<times> K \<times> K - set rk' \<subset> indexes \<times> K \<times> K - set rk" using sub grows by blast
    ultimately have "card (indexes \<times> K \<times> K - set rk') < card (indexes \<times> K \<times> K - set rk)"
      by (rule psubset_card_mono)
    then have "card (indexes \<times> K \<times> K - set rk') < fuel" using Suc.prems(5) by linarith
    moreover have "from_source w2 (retry_rows f)" using T(3) from_source_step [OF st] by simp
    ultimately show ?thesis
      using Suc.IH all_keys_step [OF st] Suc.prems(1) I2 sub by blast
  qed
  show ?case
    unfolding strict_mutation_loop.simps
  proof (rule ends_bind [OF try_ends])
    fix result w1
    assume tr: "try_strict_mutation t env rows kind w = (Inr result, w1)"
    show "ends (case result of None \<Rightarrow> ret_op idx
        | Some failure \<Rightarrow> bind_op (inspect_and_reconcile_mutation_failure t env failure rk idx)
            (\<lambda>(rk, idx). strict_mutation_loop fuel t env kind (retry_rows failure) rk idx)) w1"
    proof (cases result)
      case (Some f)
      then show ?thesis using retry [OF tr [unfolded Some]] by (auto intro: ends_bind [OF inspect_ends])
    qed (simp add: ends_basic)
  qed
qed simp

lemma mutations_end:
  assumes "finite K" "all_keys w \<subseteq> K" "I w" "from_source w rows" "card (indexes \<times> K \<times> K) < fuel"
  shows "ends (apply_strict_mutations fuel t env rows kind) w"
  unfolding apply_strict_mutations_def
  by (intro end_rules ends_bind retries_end [OF assms(1-4)]) (use assms(5) in simp_all)

lemma changes_end:
  assumes "finite K" "all_keys w \<subseteq> K" "I w" "card (indexes \<times> K \<times> K) < fuel"
    and "from_source w (ch_updates ch)" "from_source w (ch_inserts ch)"
  shows "ends (apply_source_changes fuel t env ch) w"
  unfolding apply_source_changes_def
proof (rule ends_bind [OF mutations_end [OF assms(1-3,5,4)]])
  fix a w'
  assume upd: "apply_strict_mutations fuel t env (ch_updates ch) UpdateKind w = (Inr a, w')"
  have st: "tgt_step w w'" using apply_strict_correct [OF upd assms(5)] by blast
  have "keeps I (apply_strict_mutations fuel t env (ch_updates ch) UpdateKind)"
    unfolding apply_strict_mutations_def by (intro keep_rules)
  then have "I w'" using upd assms(3) by (rule keepsD)
  then show "ends (apply_strict_mutations fuel t env (ch_inserts ch) InsertKind) w'"
    using mutations_end [OF assms(1)] all_keys_step [OF st] assms(2,4,6) from_source_step [OF st] by blast
qed

lemma window_ends:
  assumes K: "finite K" "all_keys w \<subseteq> K" "I w" "card K < fuel" "card (indexes \<times> K \<times> K) < fuel"
    and page: "page_of key_less (src w) \<lparr>rq_start_after = s, rq_end_at = None, rq_limit = n\<rparr> page" "pg_rows page \<noteq> []"
    and cfg: "cc_table config = table" "0 < cc_chunk_size config"
  shows "ends (apply_source_window fuel config progress s (pg_rows page) env phase) w"
  unfolding apply_source_window_def Let_def
proof (intro ends_bind ends_basic)
  let ?e = "dr_primary_key (last (pg_rows page))"
  have sub: "window_rows w s ?e \<subseteq> K" using K(2) by (auto simp: window_rows_def all_keys_def)
  then show "ends (reconcile_target_pages fuel config env phase s ?e (pg_rows page)) w"
    unfolding reconcile_target_pages_def
    using pages_end [OF cfg(2)] K(1,4) finite_subset card_mono le_less_trans by metis
  fix ch w1
  assume pages: "reconcile_target_pages fuel config env phase s ?e (pg_rows page) w = (Inr ch, w1)"
  have P: "tgt_step w w1 \<and> pages_post w1 phase s ?e ch"
    using pages_loop_correct [OF pages [unfolded reconcile_target_pages_def], of s] index_pages_inv [OF page] cfg by simp
  have "I w1" using pages pages_keeps K(3) unfolding reconcile_target_pages_def by (metis keepsD)
  then show "ends (apply_source_changes fuel (st_name (cc_table config)) env ch) w1"
    using changes_end [OF K(1) _ _ K(5)] all_keys_step P K(2) unfolding pages_post_def by blast
qed

lemma locked_ends:
  assumes K: "finite K" "all_keys w \<subseteq> K" "I w" "card K < fuel" "card (indexes \<times> K \<times> K) < fuel"
    and cfg: "cc_table config = table" "0 < cc_chunk_size config"
  shows "ends (apply_locked_chunk fuel config progress env phase) w"
  unfolding apply_locked_chunk_def Let_def
proof (intro ends_bind ends_map_err ends_if tail_ends ends_basic)
  let ?req = "\<lparr>rq_start_after = cp_last_primary_key progress, rq_end_at = None, rq_limit = cc_chunk_size config\<rparr>"
  fix page w1
  assume "map_err_op (ReadSourceChunk (st_name (cc_table config))) (source_read_rows env ?req) w = (Inr page, w1)"
  then have rd: "source_read_rows env ?req w = (Inr page, w1)"
    by (auto simp: map_err_op_def map_err_def split: prod.splits sum.splits)
  have same: "src w1 = src w" "tgt w1 = tgt w" "page_of key_less (src w) ?req page"
    using source_read [OF rd] cfg(2) by auto
  assume "pg_rows page \<noteq> []"
  then show "ends (apply_source_window fuel config progress (cp_last_primary_key progress) (pg_rows page) env phase) w1"
    using window_ends [OF K(1) _ keepsD [OF env_keeps(1) rd K(3)] K(4,5) _ _ cfg] same K(2) by (simp add: all_keys_def)
qed simp_all

lemma chunk_ends:
  assumes K: "finite K" "all_keys w \<subseteq> K" "I w" "card K < fuel" "card (indexes \<times> K \<times> K) < fuel"
    and cfg: "cc_table config = table" "0 < cc_chunk_size config"
  shows "ends (sync_next_chunk_with_phase fuel config env phase) w"
  unfolding sync_next_chunk_with_phase_def
proof (intro ends_bind load_ends ends_if ends_basic prepare_ends)
  fix p w1 u w2
  assume ld: "load_progress config env w = (Inr p, w1)" and prep: "prepare_target_chunk config env w1 = (Inr u, w2)"
  have "src w1 = src w" "tgt w1 = tgt w" using load_same [OF ld] by blast+
  then have same: "src w2 = src w" "tgt w2 = tgt w" using prepare_same [OF prep] by simp_all
  have I2: "I w2" using keepsD [OF load_prepare_keeps(2) prep] keepsD [OF load_prepare_keeps(1) ld] K(3) by blast
  have "ends (apply_locked_chunk fuel config p env phase) w2"
    using locked_ends [OF K(1) _ I2 K(4,5) cfg] K(2) same by (simp add: all_keys_def)
  then show "ends (\<lambda>w. case apply_locked_chunk fuel config p env phase w of
      (Inr p', w') \<Rightarrow> save_progress_and_unlock config p' env w'
    | (Inl e, w') \<Rightarrow> (case rollback_and_unlock env e w' of (e, w'') \<Rightarrow> (Inl e, w''))) w2"
    using save_ends rollback_exhausted unfolding ends_def by (fastforce split: prod.splits sum.splits)
qed

text \<open>Chunk loop: a chunk that does not complete the table leaves fewer rows behind the cursor.\<close>

definition remaining :: "'w \<Rightarrow> row_key option \<Rightarrow> nat" where
  "remaining w c = card {k. src w k \<noteq> None \<and> after_key key_less c k} + card {k \<in> all_keys w. after_key key_less c k}"

definition cursor_of :: "string \<Rightarrow> string \<Rightarrow> 'w \<Rightarrow> row_key option" where
  "cursor_of run t w = (case stored w run t of None \<Rightarrow> None | Some p \<Rightarrow> cp_last_primary_key p)"

lemma remaining_less:
  assumes fin: "finite (all_keys w)" and keep: "src w' = src w" "all_keys w' \<subseteq> all_keys w"
    and up: "\<And>k. after_key key_less c' k \<Longrightarrow> after_key key_less c k"
    and k: "k \<in> all_keys w" "after_key key_less c k" "k \<notin> all_keys w' \<or> \<not> after_key key_less c' k"
  shows "remaining w' c' < remaining w c"
proof -
  have "finite {k. src w k \<noteq> None \<and> after_key key_less c k}"
    by (rule finite_subset [OF _ fin]) (auto simp: all_keys_def)
  then have "card {k. src w' k \<noteq> None \<and> after_key key_less c' k} \<le> card {k. src w k \<noteq> None \<and> after_key key_less c k}"
    by (rule card_mono) (use keep up in auto)
  moreover have "card {k \<in> all_keys w'. after_key key_less c' k} < card {k \<in> all_keys w. after_key key_less c k}"
    by (rule psubset_card_mono) (use fin keep up k in auto)
  ultimately show ?thesis by (simp add: remaining_def)
qed

lemma after_moves: "after_key key_less s l \<Longrightarrow> after_key key_less (Some l) k \<Longrightarrow> after_key key_less s k"
  using key_trans by (auto simp: after_key_def split: option.splits)

lemma tail_advances:
  assumes run: "apply_target_tail config progress s env phase w = (Inr p, w')" "\<not> cp_complete p"
    and fin: "finite (all_keys w)" and absent: "\<forall>k. after_key key_less s k \<longrightarrow> src w k = None"
    and cfg: "0 < cc_chunk_size config" and s: "s = cp_last_primary_key progress"
  shows "remaining w' (cp_last_primary_key p) < remaining w s"
proof -
  let ?req = "\<lparr>rq_start_after = s, rq_end_at = None, rq_limit = cc_chunk_size config\<rparr>"
  obtain q w1 where rd: "target_read_rows env ?req w = (q, w1)" by fastforce
  then obtain page where q: "q = Inr page" using run by (cases q) (auto simp: apply_target_tail_def bind_op_def map_err_op_def)
  have page: "page_of key_less (tgt w) ?req page" and same: "src w1 = src w" "tgt w1 = tgt w"
    using target_read [OF rd] q cfg by auto
  let ?ks = "map dr_primary_key (pg_rows page)"
  have page_more: "pg_has_more page"
    using run rd q by (cases "pg_has_more page") (auto simp: apply_target_tail_def bind_op_def map_err_op_def map_err_def Let_def
        ret_op_def split: prod.splits sum.splits if_splits)
  then have ne: "pg_rows page \<noteq> []" using page by (simp add: page_of_def)
  define l where "l = dr_primary_key (last (pg_rows page))"
  have l: "l \<in> all_keys w" "after_key key_less s l" "src w l = None" "l \<in> set ?ks"
    using page absent last_in_set [OF ne] by (auto simp: page_of_def all_keys_def l_def)
  show ?thesis
  proof (cases "phase_includes phase DeleteExtras")
    case True
    obtain u w2 where del: "delete_rows env ?ks w1 = (u, w2)" by fastforce
    have res: "w' = w2" "u = Inr ()" "cp_last_primary_key p = s"
      using run(1) rd q True ne del s
      by (auto simp: apply_target_tail_def bind_op_def map_err_op_def map_err_def Let_def ret_op_def split: sum.splits)
    then have w': "src w' = src w" "tgt w' l = None" "\<forall>k. tgt w' k = tgt w k \<or> tgt w' k = None"
      using delete [OF del] same l(4) by auto
    have "all_keys w' \<subseteq> all_keys w"
    proof
      fix k assume "k \<in> all_keys w'"
      then show "k \<in> all_keys w" using w'(1) spec [OF w'(3), of k] by (auto simp: all_keys_def)
    qed
    moreover have "l \<notin> all_keys w'" using w' l(3) by (simp add: all_keys_def)
    ultimately show ?thesis
      using remaining_less [OF fin w'(1) _ _ l(1,2), of s] res(3) by simp
  next
    case False
    have res: "w' = w1" "cp_last_primary_key p = Some l"
      using run(1) rd q False ne
      by (auto simp: apply_target_tail_def bind_op_def map_err_op_def map_err_def Let_def ret_op_def last_map l_def)
    have "all_keys w' \<subseteq> all_keys w" "src w' = src w" using same res(1) by (simp_all add: all_keys_def)
    moreover have "\<not> after_key key_less (Some l) l" using key_irrefl by (simp add: after_key_def)
    ultimately show ?thesis
      unfolding res(2) by (intro remaining_less [OF fin _ _ after_moves [OF l(2)] l(1,2)]) (assumption | blast)+
  qed
qed

lemma locked_advances:
  assumes run: "apply_locked_chunk fuel config progress env phase w = (Inr p, w')" "\<not> cp_complete p"
    and fin: "finite (all_keys w)" and cfg: "cc_table config = table" "0 < cc_chunk_size config"
  shows "remaining w' (cp_last_primary_key p) < remaining w (cp_last_primary_key progress)"
proof -
  let ?s = "cp_last_primary_key progress"
  let ?req = "\<lparr>rq_start_after = ?s, rq_end_at = None, rq_limit = cc_chunk_size config\<rparr>"
  obtain q w1 where rd: "source_read_rows env ?req w = (q, w1)" by fastforce
  then obtain page where q: "q = Inr page" using run by (cases q) (auto simp: apply_locked_chunk_def bind_op_def map_err_op_def Let_def)
  have page: "page_of key_less (src w1) ?req page" and same: "src w1 = src w" "tgt w1 = tgt w"
    using source_read [OF rd] q cfg by auto
  obtain v w2 where work: "(if pg_rows page = [] then apply_target_tail config progress ?s env phase
      else apply_source_window fuel config progress ?s (pg_rows page) env phase) w1 = (v, w2)" by fastforce
  have v: "v = Inr p" and com: "commit env w2 = (Inr (), w')"
    using run(1) rd q work
    by (auto simp: apply_locked_chunk_def bind_op_def map_err_op_def map_err_def Let_def ret_op_def split: sum.splits prod.splits)
  have keep: "src w' = src w2" "tgt w' = tgt w2" using commit_law [OF com] by auto
  have fin1: "finite (all_keys w1)" using fin same by (simp add: all_keys_def)
  have "remaining w2 (cp_last_primary_key p) < remaining w1 ?s"
  proof (cases "pg_rows page = []")
    case True
    then have absent: "\<forall>k. after_key key_less ?s k \<longrightarrow> src w1 k = None"
      using page unfolding page_of_def by (auto simp: upto_key_def)
    show ?thesis using tail_advances [OF _ run(2) fin1 absent cfg(2) refl] work v True by simp
  next
    case False
    define l where "l = dr_primary_key (last (pg_rows page))"
    have l: "l \<in> all_keys w1" "after_key key_less ?s l"
      using page last_in_set [OF False] by (auto simp: page_of_def all_keys_def l_def)
    have "apply_source_window fuel config progress ?s (pg_rows page) env phase w1 = (Inr p, w2)"
      using work v False by simp
    from source_window_correct [OF this page False cfg]
    have W: "tgt_step w1 w2" "cp_last_primary_key p = Some l"
      unfolding l_def by blast+
    have "\<not> after_key key_less (Some l) l" using key_irrefl by (simp add: after_key_def)
    then show ?thesis
      unfolding W(2)
      by (intro remaining_less [OF fin1 tgt_step_src [OF W(1)] all_keys_step [OF W(1)] after_moves [OF l(2)] l]) (assumption, blast)
  qed
  then show ?thesis using same keep by (simp add: remaining_def all_keys_def)
qed

lemma chunk_advances:
  assumes run: "sync_next_chunk_with_phase fuel config env phase w = (Inr p, w')" "\<not> cp_complete p"
    and fin: "finite (all_keys w)" and cfg: "cc_table config = table" "0 < cc_chunk_size config"
  shows "remaining w' (cp_last_primary_key p) < remaining w (cursor_of (cc_run_id config) (st_name table) w)"
proof -
  obtain q w1 where ld: "load_progress config env w = (q, w1)" by fastforce
  then obtain p0 where q: "q = Inr p0"
    using run by (cases q) (auto simp: sync_next_chunk_with_phase_def bind_op_def)
  have cur: "cp_last_primary_key p0 = cursor_of (cc_run_id config) (st_name table) w"
    using ld [unfolded q] load_law [of "cc_run_id config" "st_name table" w] cfg(1)
    by (auto simp: load_progress_def cursor_of_def bind_op_def map_err_op_def map_err_def lift_op_def ret_op_def initial_progress_def
        split: prod.splits sum.splits option.splits)
  have inc: "\<not> cp_complete p0"
    using run ld q by (auto simp: sync_next_chunk_with_phase_def bind_op_def ret_op_def)
  obtain z w2 where prep: "prepare_target_chunk config env w1 = (z, w2)" by fastforce
  then obtain u where z: "z = Inr u" using run ld q inc by (cases z) (auto simp: sync_next_chunk_with_phase_def bind_op_def)
  have same: "src w2 = src w" "tgt w2 = tgt w" using load_same [OF ld] prepare_same [OF prep] by simp_all
  obtain v w3 where lc: "apply_locked_chunk fuel config p0 env phase w2 = (v, w3)" by fastforce
  then obtain p' where v: "v = Inr p'" and sv: "save_progress_and_unlock config p' env w3 = (Inr p, w')"
    using run(1) ld q inc prep z
    by (cases v) (auto simp: sync_next_chunk_with_phase_def bind_op_def split: prod.splits)
  have W: "p' = p" "src w' = src w3" "tgt w' = tgt w3" using save_unlock_correct [OF sv] by auto
  have "finite (all_keys w2)" using fin same by (simp add: all_keys_def)
  from locked_advances [OF lc [unfolded v W(1)] run(2) this cfg]
  show ?thesis using W(2,3) same cur by (simp add: remaining_def all_keys_def)
qed

text \<open>The whole run.\<close>

lemma table_ends:
  assumes K: "finite K" "all_keys w \<subseteq> K" "I w" "card K < fuel" "card (indexes \<times> K \<times> K) < fuel"
    and cfg: "cc_table config = table" "0 < cc_chunk_size config"
    and start: "tgt w = base w" "durable phase (cc_run_id config) (st_name table) w"
    and chunks: "remaining w (cursor_of (cc_run_id config) (st_name table) w) < chunks"
  shows "ends (sync_table_to_completion chunks fuel config env phase) w"
  using K(2,3) start chunks
proof (induction chunks arbitrary: w)
  case (Suc chunks)
  show ?case
    unfolding sync_table_to_completion.simps
  proof (intro ends_bind ends_if ends_basic chunk_ends [OF K(1) Suc.prems(1,2) K(4,5) cfg])
    fix p w1
    assume one: "sync_next_chunk_with_phase fuel config env phase w = (Inr p, w1)" and inc: "\<not> cp_complete p"
    have C: "src w1 = src w" "authoritative table (src w) (base w) (base w1)" "durable phase (cc_run_id config) (st_name table) w1"
      "tgt w1 = base w1" "stored w1 (cc_run_id config) (st_name table) = Some p"
      using sync_next_chunk_correct [OF one cfg Suc.prems(3,4)] by auto
    have "all_keys w1 \<subseteq> all_keys w"
      using C(1,2,4) Suc.prems(3) unfolding authoritative_def all_keys_def row_agrees_def by (auto split: option.splits)
    then have keys: "all_keys w1 \<subseteq> K" using Suc.prems(1) by blast
    have "finite (all_keys w)" using K(1) Suc.prems(1) finite_subset by blast
    from chunk_advances [OF one inc this cfg]
    have "remaining w1 (cursor_of (cc_run_id config) (st_name table) w1) < chunks"
      using C(5) Suc.prems(5) by (simp add: cursor_of_def)
    then show "ends (sync_table_to_completion chunks fuel config env phase) w1"
      by (rule Suc.IH [OF keys keepsD [OF chunk_keeps one Suc.prems(2)] C(4,3)])
  qed
qed simp

lemma remaining_bound: "finite K \<Longrightarrow> all_keys w \<subseteq> K \<Longrightarrow> remaining w c \<le> 2 * card K"
  unfolding remaining_def
  using card_mono [of K "{k. src w k \<noteq> None \<and> after_key key_less c k}"] card_mono [of K "{k \<in> all_keys w. after_key key_less c k}"]
  by (fastforce simp: all_keys_def)

end

end
