(* ===== verification/Server_Ends.thy ===== *)
theory Server_Ends
  imports Sync_Ends
begin

text \<open>
  A table run over the MySQL adapter ends. The interface \<open>live_server\<close> adds to the server contract that
  the unique indexes of the target table are fixed (a condition every statement of the run keeps) and
  that an owner read returns rows of the target; the adapter over such a server is a \<open>live_backend\<close>.
\<close>

section \<open>What the adapter keeps of the server\<close>

lemma keeps_on_server [keep_rules]: "keeps J m \<Longrightarrow> keeps (\<lambda>s. J (se_server s)) (on_server m)"
  by (auto simp: keeps_def on_server_def split: prod.splits)

locale kept_server =
  fixes srv :: "'w mysql_server" and ts :: "'w target_session" and J :: "'w \<Rightarrow> bool"
  assumes server_keeps [keep_rules]:
    "keeps J (my_source_query srv sql req)" "keeps J (my_source_exact srv st k)" "keeps J (my_target_query srv sql req)"
    "keeps J (my_target_exact srv st k)" "keeps J (my_target_owner srv st index row)" "keeps J (my_unique_columns srv st)"
    "keeps J (my_insert srv st rows)" "keeps J (my_update srv st rows)" "keeps J (my_delete srv st ks)"
    "keeps J (my_control srv sql)" "keeps J (my_load_stage srv run stage t)" "keeps J (my_save_stage srv progress_row)"
    and transitions_keep:
    "ts_transitions ts = Some tr \<Longrightarrow> tr_replace_owners tr f s = (x, s') \<Longrightarrow> J (se_server s) \<Longrightarrow> J (se_server s')"
    "ts_transitions ts = Some tr \<Longrightarrow> keeps (\<lambda>s. J (se_server s)) (tr_repair_prerequisites tr rows)"
    "ts_transitions ts = Some tr \<Longrightarrow> keeps (\<lambda>s. J (se_server s)) (tr_repair_restricted tr f)"
begin

abbreviation K :: "'w session \<Rightarrow> bool" where "K \<equiv> \<lambda>s. J (se_server s)"

lemma reads_keep [keep_rules]:
  "keeps K (query_sync_page_rows (my_source_query srv) t req endpoint)"
  "keeps K (query_sync_page_rows (my_target_query srv) t req endpoint)"
  "keeps K (source_read_row srv t k)" "keeps K (query_exact_row srv t k)" "keeps K (query_unique_owner srv t index row)"
  unfolding query_sync_page_rows_def source_read_row_def query_exact_row_def query_unique_owner_def
  by (intro keep_rules)+

lemma control_keeps [keep_rules]: "keeps K (execute_control srv sql)"
  unfolding execute_control_def by (intro keep_rules)

lemma batch_keeps [keep_rules]:
  assumes "\<And>st rows. keeps J (exec st rows)"
  shows "keeps K (execute_mutation_batch render ts exec st rows repair)"
proof -
  have "keeps K (bind_op (map_err_op (\<lambda>m. (code, m))
      (case ts_transitions ts of None \<Rightarrow> fail_op ''FK transitions not configured'' | Some tr \<Rightarrow> tr_repair_prerequisites tr rows))
      (\<lambda>_. exec_matched render (ts_table ts) exec st rows))" for code
    unfolding exec_matched_def
    by (cases "ts_transitions ts") (auto intro!: keep_rules assms transitions_keep(2) split: prod.splits)
  note repaired = this
  show ?thesis
    unfolding keeps_def
  proof (intro allI impI)
    fix w r w'
    assume run: "execute_mutation_batch render ts exec st rows repair w = (r, w')" and w: "K w"
    obtain q w1 where q: "on_server (exec st rows) w = (q, w1)" by fastforce
    have w1: "K w1" by (rule keepsD [OF keeps_on_server [OF assms] q w])
    show "K w'"
    proof (cases q)
      case (Inr matched)
      then show ?thesis using run q w1 by (auto simp: execute_mutation_batch_def lift_op_def)
    next
      case (Inl err)
      obtain code message where "err = (code, message)" by (rule prod.exhaust)
      then show ?thesis
        using run q Inl w1 keepsD [OF repaired [of code] _ w1]
        by (auto simp: execute_mutation_batch_def split: if_splits)
    qed
  qed
qed

lemma batches_keep [keep_rules]:
  assumes "\<And>st rows. keeps J (exec st rows)"
  shows "keeps K (execute_mutation_batches_loop render ts exec build repair rows capacity i batches)"
proof (induction batches arbitrary: i)
  case (Cons b bs)
  show ?case
    unfolding execute_mutation_batches_loop.simps Let_def by (intro keep_rules Cons.IH assms)
qed (simp add: keep_rules)

lemma replacement_keeps [keep_rules]:
  assumes "\<And>st rows. keeps J (exec st rows)"
  shows "keeps K (execute_mutations_with_owner_replacement n render ts exec build repair capacity rows)"
proof (induction n arbitrary: rows)
  case (Suc n)
  show ?case
    unfolding keeps_def
  proof (intro allI impI)
    fix w r w'
    assume run: "execute_mutations_with_owner_replacement (Suc n) render ts exec build repair capacity rows w = (r, w')"
      and w: "K w"
    obtain q w1 where q: "execute_mutation_batches render ts exec build repair capacity rows w = (q, w1)" by fastforce
    have "keeps K (execute_mutation_batches render ts exec build repair capacity rows)"
      unfolding execute_mutation_batches_def by (rule batches_keep) (rule assms)
    from keepsD [OF this q w] have w1: "K w1" .
    show "K w'"
      using run q w1 transitions_keep(1) keepsD [OF Suc.IH]
      by (auto split: sum.splits option.splits if_splits prod.splits bool.splits)
  qed
qed (simp add: keep_rules)

lemma writes_keep [keep_rules]:
  "keeps K (target_insert_rows n render srv ts rows)" "keeps K (target_update_rows n render srv ts rows)"
  "keeps K (target_delete_rows srv t ks)"
proof -
  show "keeps K (target_insert_rows n render srv ts rows)"
    unfolding target_insert_rows_def by (intro keep_rules)
  have restricted: "keeps K (repair_restricted_updates ts f)" for f
    unfolding repair_restricted_updates_def
    by (cases "ts_transitions ts") (auto intro!: keep_rules transitions_keep(3))
  show "keeps K (target_update_rows n render srv ts rows)"
    unfolding keeps_def target_update_rows_def
    using keepsD [OF replacement_keeps [of "my_update srv", OF server_keeps(8)]] keepsD [OF restricted]
    by (auto split: prod.splits sum.splits)
  have "keeps K (execute_delete_batches srv t bs)" for bs
    by (induction bs) (auto intro!: keep_rules)
  then show "keeps K (target_delete_rows srv t ks)"
    unfolding target_delete_rows_def by (intro keep_rules)
qed

lemma owners_keep [keep_rules]:
  "keeps K (target_inspect_conflicts srv ts f)" "keeps K (target_reconcile_owner n render srv ts c action)"
  "keeps K (target_verify_rows srv ts rows)"
proof -
  have "keeps K (collect_owner_conflicts srv t index pks cs batch)" for t index pks cs batch
    by (induction batch arbitrary: pks cs) (auto intro!: keep_rules)
  then show "keeps K (target_inspect_conflicts srv ts f)"
    unfolding target_inspect_conflicts_def load_unique_index_def by (intro keep_rules)
  have "keeps K (push_event e)" for e
    by (auto simp: keeps_def push_event_def)
  then show "keeps K (target_reconcile_owner n render srv ts c action)"
    unfolding target_reconcile_owner_def verify_unique_identity_unowned_def
    by (cases action) (auto intro!: keep_rules)
  show "keeps K (target_verify_rows srv ts rows)"
    by (induction rows) (auto intro!: keep_rules)
qed

lemma session_keeps [keep_rules]:
  "keeps K (target_set_autocommit srv b)" "keeps K (target_lock_table_write srv ts d t)" "keeps K (target_commit srv)"
  "keeps K (target_rollback srv)" "keeps K (target_unlock_tables srv)" "keeps K (progress_store_load srv run t)"
  "keeps K (progress_store_save srv p)"
proof -
  show "keeps K (target_commit srv)" "keeps K (target_rollback srv)"
    unfolding keeps_def target_commit_def target_rollback_def
    using keepsD [OF control_keeps] by (fastforce split: prod.splits sum.splits)+
qed (unfold target_set_autocommit_def target_lock_table_write_def target_unlock_tables_def progress_store_load_def
    progress_store_save_def, (intro keep_rules)+)

lemma adapter_framed: "framed_env (mysql_env n render srv ts) K"
  by unfold_locales (auto simp: mysql_env_def intro!: keep_rules)

end

section \<open>Servers with fixed indexes\<close>

locale live_server = mysql_engine srv ts lt view + kept_server srv ts J
  for srv :: "'w mysql_server" and ts :: "'w target_session" and lt :: "row_key \<Rightarrow> row_key \<Rightarrow> bool"
    and view :: "'w \<Rightarrow> db_view" and J :: "'w \<Rightarrow> bool" +
  fixes indexes :: "string set"
  assumes finite_names: "finite indexes"
    and owner_rows: "my_target_owner srv st index intended w = (Inr cs, w') \<Longrightarrow>
      decode_sync_rows (ts_table ts) cs = Inr found \<Longrightarrow> row \<in> set found \<Longrightarrow> dv_tgt (view w) (dr_primary_key row) \<noteq> None"
    and index_names: "my_unique_columns srv st w = (Inr columns, w') \<Longrightarrow> J w \<Longrightarrow> uic_index ` set columns \<subseteq> indexes"
begin

lemma owner_found:
  assumes "query_unique_owner srv tbl index intended s = (Inr (Some owner), s')"
  shows "T s (dr_primary_key owner) \<noteq> None"
proof -
  obtain st cs where st: "my_target_owner srv st index intended (se_server s) = (Inr cs, se_server s')"
    and dec: "decode_optional_exact_row tbl cs ''target unique-owner'' = Inr (Some owner)"
    using assms unfolding query_unique_owner_def
    by (fastforce simp: bind_op_def lift_op_def map_err_op_def map_err_def on_server_def split: prod.splits sum.splits)
  from dec have "decode_sync_rows tbl cs = Inr [owner]"
    by (auto simp: decode_optional_exact_row_def bind_res_def split: sum.splits list.splits)
  from owner_rows [OF st this] show ?thesis by simp
qed

lemma collected_conflicts:
  assumes "collect_owner_conflicts srv tbl index pks cs batch s = (Inr conflicts, s')"
    and "\<forall>c \<in> set cs. uc_index c = index \<and> uc_intended c \<in> rows \<and> T s (dr_primary_key (uc_owner c)) \<noteq> None" "set batch \<subseteq> rows"
  shows "\<forall>c \<in> set conflicts. uc_index c = index \<and> uc_intended c \<in> rows \<and> T s (dr_primary_key (uc_owner c)) \<noteq> None"
  using assms
proof (induction batch arbitrary: pks cs s)
  case (Cons intended batch)
  obtain q s1 where q: "query_unique_owner srv tbl index intended s = (q, s1)" by fastforce
  have same: "T s1 = T s" using owner_read_same [OF q] by simp
  obtain found where found: "q = Inr found" using Cons.prems(1) q by (cases q) (auto simp: bind_op_def)
  show ?case
  proof (cases "\<exists>owner. found = Some owner \<and> dr_primary_key owner \<noteq> dr_primary_key intended")
    case False
    then have "collect_owner_conflicts srv tbl index pks cs batch s1 = (Inr conflicts, s')"
      using Cons.prems(1) q found by (cases found) (auto simp: bind_op_def split: if_splits)
    from Cons.IH [OF this] show ?thesis using Cons.prems(2,3) same by simp
  next
    case True
    then obtain owner where owner: "found = Some owner" "dr_primary_key owner \<noteq> dr_primary_key intended" by blast
    have "collect_owner_conflicts srv tbl index (bts_insert (dr_primary_key owner) pks)
        (cs @ [\<lparr>uc_index = index, uc_intended = intended, uc_owner = owner\<rparr>]) batch s1 = (Inr conflicts, s')"
      using Cons.prems(1) q found owner
      by (auto simp: bind_op_def lift_op_def fail_op_def split: sum.splits if_splits)
    from Cons.IH [OF this] show ?thesis
      using Cons.prems(2,3) same owner_found [OF q [unfolded found owner(1)]] by auto
  qed
qed (simp add: ret_op_def)

lemma resolved_index_name:
  assumes "resolve_sync_unique_index t error rows = Inr index"
  shows "ux_name index \<in> uic_index ` set rows"
proof -
  let ?m = "fold (\<lambda>row m. btm_insert (uic_index row)
      ((case map_of m (uic_index row) of Some columns \<Rightarrow> columns | None \<Rightarrow> []) @ [row]) m) rows []"
  have "\<forall>x. map_of (fold (\<lambda>row m. btm_insert (uic_index row)
      ((case map_of m (uic_index row) of Some columns \<Rightarrow> columns | None \<Rightarrow> []) @ [row]) m) rs m) x \<noteq> None
      \<longrightarrow> map_of m x \<noteq> None \<or> x \<in> uic_index ` set rs" for rs and m :: "(string \<times> unique_index_column list) list"
    by (induction rs rule: rev_induct) (auto split: if_splits)
  from this [where m = "[]"] have "\<And>x. map_of ?m x \<noteq> None \<Longrightarrow> x \<in> uic_index ` set rows" by simp
  moreover have "map_of ?m (ux_name index) \<noteq> None"
    using assms unfolding resolve_sync_unique_index_def Let_def
    by (auto simp: bind_res_def ok_or_def split: sum.splits option.splits if_splits)
  ultimately show ?thesis by blast
qed

lemma inspected_conflicts:
  assumes "target_inspect_conflicts srv ts failure s = (Inr conflicts, s')" "J (se_server s)"
  shows "conflicts \<noteq> [] \<and> (\<forall>c \<in> set conflicts. ux_name (uc_index c) \<in> indexes \<and>
     uc_intended c \<in> set (retry_rows failure) \<and> T s (dr_primary_key (uc_owner c)) \<noteq> None)"
proof -
  obtain index s1 where ld: "load_unique_index srv ts (mf_message failure) s = (Inr index, s1)"
    and col: "collect_owner_conflicts srv tbl index [] [] (mf_failed_batch failure) s1 = (Inr conflicts, s')"
    and ne: "conflicts \<noteq> []"
    using assms(1) unfolding target_inspect_conflicts_def
    by (auto simp: bind_op_def fail_op_def ret_op_def split: if_splits sum.splits prod.splits)
  obtain st columns where cols: "my_unique_columns srv st (se_server s) = (Inr columns, se_server s1)"
    and res: "resolve_sync_unique_index (st_name tbl) (mf_message failure) columns = Inr index"
    using ld unfolding load_unique_index_def
    by (fastforce simp: bind_op_def lift_op_def map_err_op_def map_err_def on_server_def split: prod.splits sum.splits)
  have "ux_name index \<in> indexes"
    using resolved_index_name [OF res] index_names [OF cols assms(2)] by blast
  moreover have "T s1 = T s" using unique_columns_select [OF cols] by simp
  ultimately show ?thesis
    using ne collected_conflicts [OF col, of "set (mf_failed_batch failure)"] by (auto simp: retry_rows_def)
qed

lemma live: "live_backend (mysql_env n render srv ts) tbl lt S T (\<lambda>s. dv_base (view (se_server s)))
    (\<lambda>s. stored_progress (view (se_server s))) K indexes"
proof (intro live_backend.intro live_backend_axioms.intro)
  show "inspect_unique_owner_conflicts (mysql_env n render srv ts) failure s = (Inr conflicts, s') \<Longrightarrow> K s \<Longrightarrow>
    conflicts \<noteq> [] \<and> (\<forall>c \<in> set conflicts. ux_name (uc_index c) \<in> indexes \<and>
      uc_intended c \<in> set (retry_rows failure) \<and> T s (dr_primary_key (uc_owner c)) \<noteq> None)" for failure s conflicts s'
    using inspected_conflicts [of failure s conflicts s']
    by (auto simp: mysql_env_def map_err_op_def map_err_def split: prod.splits sum.splits)
qed (rule backend adapter_framed finite_names)+

end

section \<open>The server in memory\<close>

text \<open>Without foreign-key transitions the owner replacement inside one mutation needs a single pass.\<close>

lemma single_pass:
  "ts_transitions ts = None \<Longrightarrow> mysql_env (Suc n) render srv ts = mysql_env 1 render srv ts"
proof -
  assume none: "ts_transitions ts = None"
  have "execute_mutations_with_owner_replacement (Suc n) render ts exec build repair capacity rows
      = execute_mutations_with_owner_replacement 1 render ts exec build repair capacity rows" for exec build repair capacity rows
    using none by (auto simp: fun_eq_iff split: prod.splits sum.splits)
  then have "target_insert_rows (Suc n) render srv ts = target_insert_rows 1 render srv ts"
    "target_update_rows (Suc n) render srv ts = target_update_rows 1 render srv ts"
    by (simp_all only: fun_eq_iff target_insert_rows_def target_update_rows_def) simp_all
  then show ?thesis unfolding mysql_env_def target_reconcile_owner_def by (simp only:)
qed

lemma mem_writes_unique: "mm_unique (snd (mem_put table rows n m)) = mm_unique m"
  by (auto simp: mem_put_def Let_def split: option.splits)

lemma memory_kept: "kept_server (memory_server table) (memory_session database table) (\<lambda>m. mm_unique m = U)"
proof (unfold_locales)
  show "keeps (\<lambda>m. mm_unique m = U) (my_insert (memory_server table) st rows)"
    "keeps (\<lambda>m. mm_unique m = U) (my_update (memory_server table) st rows)" for st rows
    using mem_writes_unique [of table rows]
    by (auto simp: keeps_def memory_server_def mem_insert_def mem_update_def Let_def split: if_splits) (metis snd_conv)+
qed (auto simp: keeps_def memory_server_def memory_session_def mem_control_def mem_save_def split: if_splits)

lemma collected_from: "collect_res f xs = Inr ys \<Longrightarrow> y \<in> set ys \<Longrightarrow> \<exists>x \<in> set xs. f x = Inr y"
  by (induction xs arbitrary: ys) (auto simp: bind_res_def split: sum.splits)

lemma memory_owner_rows:
  assumes "decode_sync_rows table (mem_owner table cs index intended) = Inr found" "row \<in> set found"
  shows "mem_lookup table cs (dr_primary_key row) \<noteq> None"
proof -
  obtain c where c: "c \<in> set (mem_owner table cs index intended)" "decode_sync_row table c = Inr row"
    using assms collected_from unfolding decode_sync_rows_def by metis
  then obtain k d where "(k, c, d) \<in> set (mem_index table cs)"
    unfolding mem_owner_def by (auto dest!: in_set_takeD)
  from mem_index_in [OF this] c(2) show ?thesis by simp
qed

interpretation memory_live: live_server "memory_server table" "memory_session database table" "(<)" "mem_view table"
    "\<lambda>m. mm_unique m = U" "fst ` set U"
  for table :: sync_table and database :: string and U :: "(string \<times> string list) list"
proof (intro live_server.intro live_server_axioms.intro memory_engine memory_kept)
  show "my_unique_columns (memory_server table) st w = (Inr columns, w') \<Longrightarrow> mm_unique w = U \<Longrightarrow> uic_index ` set columns \<subseteq> fst ` set U"
    for st w columns w'
    by (force simp: memory_server_def mem_unique_columns_def)
qed (auto simp: memory_server_def memory_session_def mem_view_def dest: memory_owner_rows)

interpretation memory_table: live_backend "mysql_env passes render (memory_server table) (memory_session database table)"
    "ts_table (memory_session database table)" "(<)" "\<lambda>s. dv_src (mem_view table (se_server s))"
    "\<lambda>s. dv_tgt (mem_view table (se_server s))" "\<lambda>s. dv_base (mem_view table (se_server s))"
    "\<lambda>s. stored_progress (mem_view table (se_server s))" "\<lambda>s. mm_unique (se_server s) = U" "fst ` set U"
  for passes render table database U
  by (rule memory_live.live)

section \<open>Properties\<close>


lemma demo_keys:
  "{k. dv_src (mem_view demo_table (se_server demo_session)) k \<noteq> None \<or> dv_tgt (mem_view demo_table (se_server demo_session)) k \<noteq> None}
     \<subseteq> {[''1''], [''2''], [''3''], [''5'']}"
proof -
  have "fst ` set (mem_index demo_table (mm_source demo_memory)) \<subseteq> {[''1''], [''2''], [''3''], [''5'']}"
    "fst ` set (mem_index demo_table (mm_target demo_memory)) \<subseteq> {[''1''], [''2''], [''3''], [''5'']}"
    by code_simp+
  then show ?thesis by (auto simp: mem_view_def demo_session_def mem_lookup_key simp del: not_None_eq)
qed


end
