(* ===== verification/Sync_Config.thy ===== *)
theory Sync_Config
  imports Sync_Sql Inventory_Model
begin

text \<open>
  Configuration of a synchronisation run (\<open>src/src/sync/config.rs\<close>) and the column types it reads
  (\<open>src/src/sql_type.rs\<close>, \<open>src/src/primary_key_ordering.rs\<close>): validation of the configuration,
  the run identity, and the table a run works on, built from the schema inventory.
  \<open>serde_json::to_string\<close> and SHA-256 are parameters of the run identity.
\<close>

section \<open>Text helpers\<close>

text \<open>\<open>str::trim\<close> leaves nothing: the text is a sequence of encoded white-space characters.\<close>

fun is_blank :: "string \<Rightarrow> bool" where
  "is_blank [] = True"
| "is_blank (c # s) =
     (if c \<in> {CHR 0x09, CHR 0x0A, CHR 0x0B, CHR 0x0C, CHR 0x0D, CHR 0x20} then is_blank s
      else if c = CHR 0xC2 then
        (case s of d # s' \<Rightarrow> d \<in> {CHR 0x85, CHR 0xA0} \<and> is_blank s' | [] \<Rightarrow> False)
      else (case s of
          d # e # s' \<Rightarrow>
            ((c = CHR 0xE1 \<and> d = CHR 0x9A \<and> e = CHR 0x80) \<or>
             (c = CHR 0xE2 \<and> d = CHR 0x80 \<and>
                (e \<in> {CHR 0xA8, CHR 0xA9, CHR 0xAF} \<or> (CHR 0x80 \<le> e \<and> e \<le> CHR 0x8A))) \<or>
             (c = CHR 0xE2 \<and> d = CHR 0x81 \<and> e = CHR 0x9F) \<or>
             (c = CHR 0xE3 \<and> d = CHR 0x80 \<and> e = CHR 0x80)) \<and> is_blank s'
        | _ \<Rightarrow> False))"

definition ascii_lower :: "char \<Rightarrow> char" where
  "ascii_lower c = (if CHR ''A'' \<le> c \<and> c \<le> CHR ''Z'' then char_of ((of_char c :: nat) + 32) else c)"

definition eq_ignore_ascii_case :: "string \<Rightarrow> string \<Rightarrow> bool" where
  "eq_ignore_ascii_case a b = (map ascii_lower a = map ascii_lower b)"

definition strip_prefix :: "string \<Rightarrow> string \<Rightarrow> string option" where
  "strip_prefix p s = (if take (length p) s = p then Some (drop (length p) s) else None)"

definition strip_suffix :: "string \<Rightarrow> string \<Rightarrow> string option" where
  "strip_suffix p s =
     (if length p \<le> length s \<and> drop (length s - length p) s = p then Some (take (length s - length p) s) else None)"

section \<open>Enumerated column types\<close>

fun parse_sql_string_value :: "string \<Rightarrow> string \<times> string" where
  "parse_sql_string_value [] = ([], [])"
| "parse_sql_string_value [c] =
     (if c = apostrophe then ([], []) else if c = backslash then ([], []) else ([c], []))"
| "parse_sql_string_value (c # d # rest) =
     (if c = apostrophe then
        (if d = apostrophe then (case parse_sql_string_value rest of (v, r) \<Rightarrow> (apostrophe # v, r))
         else ([], d # rest))
      else if c = backslash then (case parse_sql_string_value rest of (v, r) \<Rightarrow> (d # v, r))
      else (case parse_sql_string_value (d # rest) of (v, r) \<Rightarrow> (c # v, r)))"

function parse_sql_string_list :: "string \<Rightarrow> string list" where
  "parse_sql_string_list [] = []"
| "parse_sql_string_list (c # s) =
     (if c = apostrophe
      then fst (parse_sql_string_value s) # parse_sql_string_list (snd (parse_sql_string_value s))
      else parse_sql_string_list s)"
  by pat_completeness auto
termination
proof (relation "measure length")
  fix c s
  have "length (snd (parse_sql_string_value s)) \<le> length s"
    by (induction s rule: parse_sql_string_value.induct) (auto split: prod.splits)
  then show "(snd (parse_sql_string_value s), c # s) \<in> measure length" by simp
qed auto

definition parse_enum_column_type :: "string \<Rightarrow> string list option" where
  "parse_enum_column_type column_type =
     (case strip_prefix ''enum('' column_type of
        None \<Rightarrow> None
      | Some rest \<Rightarrow> map_option parse_sql_string_list (strip_suffix '')'' rest))"

definition parse_set_column_type :: "string \<Rightarrow> string list option" where
  "parse_set_column_type column_type =
     (case strip_prefix ''set('' column_type of
        None \<Rightarrow> None
      | Some rest \<Rightarrow> map_option parse_sql_string_list (strip_suffix '')'' rest))"

section \<open>Configuration\<close>

record mysql_connection_config =
  mc_host :: string
  mc_port :: u16
  mc_user :: string
  mc_password :: string
  mc_database :: string

datatype insert_conflict_policy = PolicyError | IgnoreDuplicate | ReplaceDivergentPk

record target_mysql_config =
  tc_host :: string
  tc_port :: u16
  tc_user :: string
  tc_password :: string
  tc_database :: string
  tc_tls_ca_file :: string
  tc_insert_conflict_policy :: insert_conflict_policy

record sync_config =
  sc_source :: mysql_connection_config
  sc_target :: target_mysql_config
  sc_tables :: "string list"
  sc_chunk_size :: nat
  sc_parallelism :: nat
  sc_progress_table :: string
  sc_coordinator_session_wait_timeout_seconds :: "u32 option"
  sc_run_id :: "string option"
  sc_run_id_prefix :: "string option"

record sync_run_identity =
  id_run_id :: string

datatype config_error =
    Required string
  | NoTables
  | SelectedDuplicate string
  | ZeroChunkSize
  | ZeroParallelism
  | ProgressTableNotQualified
  | RunIdChoice
  | RunIdTooLong nat
  | GeneratedRunIdTooLong nat
  | ConcreteDuplicate string
  | EncodeRunIdInput string
  | ColumnDuplicate string string
  | NoPrimaryKey string
  | PrimaryKeyDuplicate string string
  | PrimaryKeyAbsent string string
  | PrimaryKeyNotWritable string string
  | OrderingCount string nat nat

fun duplicate_name_from :: "string list \<Rightarrow> string list \<Rightarrow> string option" where
  "duplicate_name_from seen [] = None"
| "duplicate_name_from seen (name # names) =
     (if name \<in> set seen then Some name else duplicate_name_from (bts_insert name seen) names)"

definition duplicate_name :: "string list \<Rightarrow> string option" where
  "duplicate_name names = duplicate_name_from [] names"

definition require_nonempty :: "string \<Rightarrow> string \<Rightarrow> config_error + unit" where
  "require_nonempty value error = (if value = [] then Inl (Required error) else Inr ())"

definition validate_source_connection :: "mysql_connection_config \<Rightarrow> config_error + unit" where
  "validate_source_connection source =
     bind_res (require_nonempty (mc_host source) ''source host is required'') (\<lambda>_.
     bind_res (require_nonempty (mc_user source) ''source user is required'') (\<lambda>_.
     bind_res (require_nonempty (mc_password source) ''source password is required'') (\<lambda>_.
       require_nonempty (mc_database source) ''source database is required'')))"

definition validate_target_connection :: "target_mysql_config \<Rightarrow> config_error + unit" where
  "validate_target_connection target =
     bind_res (require_nonempty (tc_host target) ''target host is required'') (\<lambda>_.
     bind_res (require_nonempty (tc_user target) ''target user is required'') (\<lambda>_.
     bind_res (require_nonempty (tc_password target) ''target password is required'') (\<lambda>_.
     bind_res (require_nonempty (tc_database target) ''target database is required'') (\<lambda>_.
       require_nonempty (tc_tls_ca_file target) ''target TLS CA file is required''))))"

definition validate_sync_scope :: "sync_config \<Rightarrow> config_error + unit" where
  "validate_sync_scope config =
     (if sc_tables config = [] then Inl NoTables
      else case duplicate_name (sc_tables config) of
        Some table \<Rightarrow> Inl (SelectedDuplicate table)
      | None \<Rightarrow>
          if sc_chunk_size config = 0 then Inl ZeroChunkSize
          else if sc_parallelism config = 0 then Inl ZeroParallelism
          else Inr ())"

definition validate_progress_table :: "string \<Rightarrow> config_error + unit" where
  "validate_progress_table progress_table =
     (let parts = split_char (CHR ''.'') progress_table;
          schema = (case parts of p # _ \<Rightarrow> p | [] \<Rightarrow> []);
          table = (case parts of _ # p # _ \<Rightarrow> p | _ \<Rightarrow> []);
          exact_pair = length parts \<le> 2 in
      if \<not> exact_pair \<or> is_blank schema \<or> is_blank table then Inl ProgressTableNotQualified else Inr ())"

definition max_sync_run_id_bytes :: nat where
  "max_sync_run_id_bytes = 128"

definition validate_exact_run_id :: "string \<Rightarrow> config_error + unit" where
  "validate_exact_run_id run_id =
     bind_res (require_nonempty run_id ''run id is required'') (\<lambda>_.
       if max_sync_run_id_bytes < length run_id then Inl (RunIdTooLong (length run_id)) else Inr ())"

definition validate_run_identity :: "sync_config \<Rightarrow> config_error + unit" where
  "validate_run_identity config =
     (case (sc_run_id config, sc_run_id_prefix config) of
        (Some run_id, None) \<Rightarrow> validate_exact_run_id run_id
      | (None, Some prefix) \<Rightarrow> require_nonempty prefix ''run id prefix is required''
      | _ \<Rightarrow> Inl RunIdChoice)"

definition validate_sync_config :: "sync_config \<Rightarrow> config_error + unit" where
  "validate_sync_config config =
     bind_res (validate_source_connection (sc_source config)) (\<lambda>_.
     bind_res (validate_target_connection (sc_target config)) (\<lambda>_.
     bind_res (validate_sync_scope config) (\<lambda>_.
     bind_res (validate_progress_table (sc_progress_table config)) (\<lambda>_.
       validate_run_identity config))))"

section \<open>Run identity\<close>

definition validate_concrete_tables :: "sync_table list \<Rightarrow> config_error + unit" where
  "validate_concrete_tables tables =
     (case duplicate_name (map st_name tables) of
        Some table \<Rightarrow> Inl (ConcreteDuplicate table) | None \<Rightarrow> Inr ())"

record run_id_endpoint =
  ep_host :: string
  ep_port :: u16
  ep_database :: string

record run_id_derivation_input =
  di_source :: run_id_endpoint
  di_target :: run_id_endpoint
  di_tables :: "sync_table list"
  di_chunk_size :: nat
  di_parallelism :: nat
  di_progress_table :: string

definition legacy_v1_run_id_derivation_input ::
  "sync_config \<Rightarrow> sync_table list \<Rightarrow> run_id_derivation_input"
where
  "legacy_v1_run_id_derivation_input config tables =
     \<lparr>di_source = \<lparr>ep_host = mc_host (sc_source config), ep_port = mc_port (sc_source config),
                   ep_database = mc_database (sc_source config)\<rparr>,
      di_target = \<lparr>ep_host = tc_host (sc_target config), ep_port = tc_port (sc_target config),
                   ep_database = tc_database (sc_target config)\<rparr>,
      di_tables = tables, di_chunk_size = sc_chunk_size config, di_parallelism = sc_parallelism config,
      di_progress_table = sc_progress_table config\<rparr>"

definition sync_run_id_v1_domain :: string where
  "sync_run_id_v1_domain = ''mariadb-mysql-cdc:sync-run-id:v1'' @ [CHR 0x00]"

definition to_be_bytes :: "u64 \<Rightarrow> string" where
  "to_be_bytes w = map (\<lambda>i. char_of (unat (drop_bit (8 * i) w))) [7, 6, 5, 4, 3, 2, 1, 0]"

text \<open>The bytes a \<open>Sha256\<close> hasher has been fed are its state; \<open>finalize\<close> applies the digest.\<close>

definition update_framed_hash :: "string \<Rightarrow> string \<Rightarrow> string" where
  "update_framed_hash hasher value = hasher @ to_be_bytes (of_nat (length value)) @ value"

definition derive_v1_run_id :: "(string \<Rightarrow> string) \<Rightarrow> string \<Rightarrow> string \<Rightarrow> string" where
  "derive_v1_run_id sha256_hex prefix input_json =
     ''sync-v1-'' @ sha256_hex (update_framed_hash (update_framed_hash sync_run_id_v1_domain prefix) input_json)"

definition resolved_run_id ::
  "(run_id_derivation_input \<Rightarrow> string + string) \<Rightarrow> (string \<Rightarrow> string) \<Rightarrow> sync_config \<Rightarrow> sync_table list
     \<Rightarrow> (config_error, string) res"
where
  "resolved_run_id to_json sha256_hex config tables =
     (case sc_run_id config of
        Some run_id \<Rightarrow> Inr run_id
      | None \<Rightarrow>
          (case sc_run_id_prefix config of
             None \<Rightarrow> Inl (Panic ''validated sync run id prefix'')
           | Some prefix \<Rightarrow>
               bind_res (map_err (\<lambda>e. Fail (EncodeRunIdInput e))
                          (to_json (legacy_v1_run_id_derivation_input config tables))) (\<lambda>input_json.
                 let run_id = derive_v1_run_id sha256_hex prefix input_json in
                 if max_sync_run_id_bytes < length run_id then Inl (Fail (GeneratedRunIdTooLong (length run_id)))
                 else Inr run_id)))"

definition build_sync_run_identity ::
  "(run_id_derivation_input \<Rightarrow> string + string) \<Rightarrow> (string \<Rightarrow> string) \<Rightarrow> sync_config \<Rightarrow> sync_table list
     \<Rightarrow> (config_error, sync_run_identity) res"
where
  "build_sync_run_identity to_json sha256_hex config tables =
     bind_res (map_err Fail (validate_sync_config config)) (\<lambda>_.
     bind_res (map_err Fail (validate_concrete_tables tables)) (\<lambda>_.
     bind_res (resolved_run_id to_json sha256_hex config (sort_key st_name tables)) (\<lambda>run_id.
       Inr \<lparr>id_run_id = run_id\<rparr>)))"

section \<open>Tables from the inventory\<close>

definition validate_inventory_columns :: "table_inventory \<Rightarrow> config_error + unit" where
  "validate_inventory_columns table =
     (case duplicate_name (map ci_name (ti_columns table)) of
        Some column \<Rightarrow> Inl (ColumnDuplicate column (ti_name table)) | None \<Rightarrow> Inr ())"

definition validate_primary_key :: "table_inventory \<Rightarrow> config_error + unit" where
  "validate_primary_key table =
     (if ti_primary_key table = [] then Inl (NoPrimaryKey (ti_name table))
      else case duplicate_name (ti_primary_key table) of
        Some column \<Rightarrow> Inl (PrimaryKeyDuplicate column (ti_name table)) | None \<Rightarrow> Inr ())"

definition column_ordering :: "column_inventory \<Rightarrow> primary_key_ordering" where
  "column_ordering column =
     (case parse_enum_column_type (ci_column_type column) of
        Some labels \<Rightarrow> EnumOrder labels | None \<Rightarrow> Native)"

definition primary_key_ordering_of :: "table_inventory \<Rightarrow> string \<Rightarrow> config_error + primary_key_ordering" where
  "primary_key_ordering_of table primary_key =
     (case find (\<lambda>column. ci_name column = primary_key) (ti_columns table) of
        None \<Rightarrow> Inl (PrimaryKeyAbsent primary_key (ti_name table))
      | Some column \<Rightarrow>
          if ci_generated column \<noteq> None then Inl (PrimaryKeyNotWritable primary_key (ti_name table))
          else Inr (column_ordering column))"

definition primary_key_ordering_from_inventory ::
  "table_inventory \<Rightarrow> config_error + primary_key_ordering list"
where
  "primary_key_ordering_from_inventory table =
     collect_res (\<lambda>name. case find (\<lambda>column. ci_name column = name) (ti_columns table) of
         None \<Rightarrow> Inl (PrimaryKeyAbsent name (ti_name table))
       | Some column \<Rightarrow> Inr (column_ordering column)) (ti_primary_key table)"

definition writable_columns :: "table_inventory \<Rightarrow> (column_inventory \<Rightarrow> bool) \<Rightarrow> string list" where
  "writable_columns table p = map ci_name (filter (\<lambda>column. ci_generated column = None \<and> p column) (ti_columns table))"

definition sync_table_from_inventory :: "table_inventory \<Rightarrow> config_error + sync_table" where
  "sync_table_from_inventory table =
     bind_res (validate_inventory_columns table) (\<lambda>_.
     bind_res (validate_primary_key table) (\<lambda>_.
       let columns = writable_columns table (\<lambda>_. True);
           bit_columns = writable_columns table (\<lambda>column. eq_ignore_ascii_case (ci_data_type column) ''bit'');
           enum_columns = btm_collect (List.map_filter (\<lambda>column.
             map_option (\<lambda>labels. (ci_name column, labels)) (parse_enum_column_type (ci_column_type column))) (ti_columns table));
           mediumblob_columns = writable_columns table (\<lambda>column. eq_ignore_ascii_case (ci_data_type column) ''mediumblob'') in
       bind_res (collect_res (primary_key_ordering_of table) (ti_primary_key table)) (\<lambda>ordering.
         if length ordering \<noteq> length (ti_primary_key table) then
           Inl (OrderingCount (ti_name table) (length (ti_primary_key table)) (length ordering))
         else
           Inr \<lparr>st_name = ti_name table, st_primary_key = ti_primary_key table, st_primary_key_ordering = ordering,
                st_columns = columns, st_bit_columns = bit_columns, st_enum_columns = enum_columns,
                st_mediumblob_columns = mediumblob_columns\<rparr>)))"

section \<open>What a usable table is\<close>

text \<open>The shape the chunk run and the statement builders rely on.\<close>

definition sync_table_wf :: "sync_table \<Rightarrow> bool" where
  "sync_table_wf table \<longleftrightarrow>
     st_primary_key table \<noteq> [] \<and> distinct (st_primary_key table) \<and> distinct (st_columns table) \<and>
     set (st_primary_key table) \<subseteq> set (st_columns table) \<and>
     set (st_bit_columns table) \<subseteq> set (st_columns table) \<and>
     set (st_mediumblob_columns table) \<subseteq> set (st_columns table) \<and>
     length (st_primary_key_ordering table) = length (st_primary_key table) \<and>
     btm_wf (st_enum_columns table) \<and>
     (\<forall>i < length (st_primary_key table). st_primary_key_ordering table ! i =
        (case map_of (st_enum_columns table) (st_primary_key table ! i) of
           Some labels \<Rightarrow> EnumOrder labels | None \<Rightarrow> Native))"

text \<open>How the server prints an enumerated type.\<close>

definition show_enum_type :: "string list \<Rightarrow> string" where
  "show_enum_type labels = ''enum('' @ join_str '','' (map quote_sql_literal labels) @ '')''"

section \<open>Lemmas\<close>

lemma duplicate_name_from_None:
  "duplicate_name_from seen names = None \<longleftrightarrow> distinct names \<and> set names \<inter> set seen = {}"
  by (induction names arbitrary: seen) auto

lemma duplicate_name_None: "duplicate_name names = None \<longleftrightarrow> distinct names"
  by (simp add: duplicate_name_def duplicate_name_from_None)

lemma require_nonempty_Inr [simp]: "require_nonempty v e = Inr () \<longleftrightarrow> v \<noteq> []"
  by (simp add: require_nonempty_def)

lemma find_unique:
  assumes "distinct (map f xs)" "x \<in> set xs" "f x = k"
  shows "find (\<lambda>y. f y = k) xs = Some x"
  using assms by (induction xs) auto

lemma strip_prefix_append [simp]: "strip_prefix p (p @ s) = Some s"
  by (simp add: strip_prefix_def)

lemma strip_suffix_append [simp]: "strip_suffix p (s @ p) = Some s"
  by (simp add: strip_suffix_def)

lemma parse_value_cons:
  assumes "c \<noteq> apostrophe" "c \<noteq> backslash"
  shows "parse_sql_string_value (c # ys) = (case parse_sql_string_value ys of (v, r) \<Rightarrow> (c # v, r))"
  using assms by (cases ys) simp_all

lemma parse_value_quoted:
  assumes "rest = [] \<or> hd rest \<noteq> apostrophe"
  shows "parse_sql_string_value (replace_char apostrophe [apostrophe, apostrophe]
       (replace_char backslash [backslash, backslash] s) @ apostrophe # rest) = (s, rest)"
proof (induction s)
  case Nil
  then show ?case using assms by (cases rest) simp_all
next
  case (Cons x s)
  then show ?case by (simp add: parse_value_cons)
qed

lemma parse_list_quoted:
  assumes "rest = [] \<or> hd rest \<noteq> apostrophe"
  shows "parse_sql_string_list (quote_sql_literal s @ rest) = s # parse_sql_string_list rest"
  using parse_value_quoted [OF assms, of s] by (simp add: quote_sql_literal_def)

lemma parse_list_join: "parse_sql_string_list (join_str '','' (map quote_sql_literal labels)) = labels"
proof (induction labels rule: induct_list012)
  case 1
  then show ?case by simp
next
  case (2 x)
  then show ?case using parse_list_quoted [of "[]" x] by simp
next
  case (3 x y zs)
  have "parse_sql_string_list (CHR '','' # join_str '','' (map quote_sql_literal (y # zs))) =
      parse_sql_string_list (join_str '','' (map quote_sql_literal (y # zs)))"
    by (simp add: apostrophe_def)
  then show ?case using 3(2)
      parse_list_quoted [of "CHR '','' # join_str '','' (map quote_sql_literal (y # zs))" x]
    by (simp add: apostrophe_def)
qed

lemma to_be_bytes_length [simp]: "length (to_be_bytes w) = 8"
  by (simp add: to_be_bytes_def)

lemma char_of_unat_eq:
  "(char_of (unat a) :: char) = char_of (unat b) \<longleftrightarrow> take_bit 8 (a :: u64) = take_bit 8 b"
proof -
  have "(char_of (unat a) :: char) = char_of (unat b) \<longleftrightarrow> unat a mod 256 = unat b mod 256"
    by (metis char_of_mod_256 of_char_of)
  also have "\<dots> \<longleftrightarrow> take_bit 8 (unat a) = take_bit 8 (unat b)"
    by (simp add: take_bit_eq_mod)
  also have "\<dots> \<longleftrightarrow> unat (take_bit 8 a) = unat (take_bit 8 b)"
    by (simp add: unsigned_take_bit_eq)
  finally show ?thesis unfolding word_unat_eq_iff .
qed

lemma to_be_bytes_inj: "to_be_bytes a = to_be_bytes b \<longleftrightarrow> a = b"
proof
  assume eq: "to_be_bytes a = to_be_bytes b"
  have byte: "take_bit 8 (drop_bit (8 * i) a) = take_bit 8 (drop_bit (8 * i) b)" if "i < 8" for i
  proof -
    have "\<forall>i \<in> set [7, 6, 5, 4, 3, 2, 1, 0]. take_bit 8 (drop_bit (8 * i) a) = take_bit 8 (drop_bit (8 * i) b)"
      using eq unfolding to_be_bytes_def map_eq_conv char_of_unat_eq .
    moreover have "i \<in> set [7, 6, 5, 4, 3, 2, 1, 0]" using that by (simp only: list.set insert_iff empty_iff) arith
    ultimately show ?thesis by blast
  qed
  show "a = b"
  proof (rule bit_word_eqI)
    fix n assume "n < LENGTH(64)"
    then have i: "n div 8 < 8" by simp
    have "bit (take_bit 8 (drop_bit (8 * (n div 8)) x)) (n mod 8) = bit x n" for x :: u64
      by (simp add: bit_simps)
    with byte [OF i] show "bit a n = bit b n" by metis
  qed
qed simp

lemma len64: "LENGTH(64) = 64"
  by simp

lemma frame_inj:
  assumes "to_be_bytes (of_nat (length x)) @ x @ s = to_be_bytes (of_nat (length y)) @ y @ t"
    and "length x < 2 ^ 64" "length y < 2 ^ 64"
  shows "x = y \<and> s = t"
proof -
  from assms(1) have "to_be_bytes (of_nat (length x)) = to_be_bytes (of_nat (length y))" and rest: "x @ s = y @ t"
    by (simp_all add: append_eq_append_conv)
  then have "unat (of_nat (length x) :: u64) = unat (of_nat (length y) :: u64)" by (simp only: to_be_bytes_inj)
  then have "length x = length y" using assms(2,3) by (simp only: unat_of_nat len64 mod_less)
  then show ?thesis using rest by simp
qed

lemma map_of_rev_distinct: "distinct (map fst m) \<Longrightarrow> map_of (rev m) = map_of m"
proof (induction m)
  case (Cons e m)
  then have "map_of m (fst e) = None" by (simp add: map_of_eq_None_iff)
  with Cons show ?case by (auto simp: fun_eq_iff map_add_def split: option.splits)
qed simp

lemma map_filter_names:
  assumes "distinct (map f xs)" "x \<in> set xs"
  shows "map_of (rev (List.map_filter (\<lambda>y. map_option (\<lambda>v. (f y, v)) (g y)) xs)) (f x) = g x"
proof -
  let ?m = "List.map_filter (\<lambda>y. map_option (\<lambda>v. (f y, v)) (g y)) xs"
  have keys: "set ?m = {(f y, v) | y v. y \<in> set xs \<and> g y = Some v}"
    by (auto simp: List.map_filter_def image_iff) force
  have "map fst ?m = map f (filter (\<lambda>y. g y \<noteq> None) xs)"
    by (induction xs) (auto simp: List.map_filter_def)
  then have "distinct (map fst ?m)" using assms(1) by (simp add: distinct_map_filter)
  then have rev: "map_of (rev ?m) = map_of ?m"
    by (rule map_of_rev_distinct)
  show ?thesis
  proof (cases "g x")
    case None
    have "f x \<notin> fst ` set ?m"
    proof
      assume "f x \<in> fst ` set ?m"
      then obtain y v where y: "y \<in> set xs" "g y = Some v" "f y = f x" unfolding keys by auto
      with assms have "y = x" by (meson distinct_map inj_onD)
      with y(2) None show False by simp
    qed
    then show ?thesis using None rev by (simp add: map_of_eq_None_iff)
  next
    case (Some v)
    then have "(f x, v) \<in> set ?m" using assms(2) keys by blast
    then show ?thesis using Some rev \<open>distinct (map fst ?m)\<close> by simp
  qed
qed

lemma ordering_of_Inr:
  assumes "distinct (map ci_name (ti_columns table))"
  shows "primary_key_ordering_of table key = Inr po \<longleftrightarrow>
    (\<exists>column \<in> set (ti_columns table). ci_name column = key \<and> ci_generated column = None \<and>
       po = column_ordering column)"
proof
  assume "primary_key_ordering_of table key = Inr po"
  then show "\<exists>column \<in> set (ti_columns table). ci_name column = key \<and> ci_generated column = None \<and>
       po = column_ordering column"
    by (auto simp: primary_key_ordering_of_def find_Some_iff split: option.splits if_splits)
next
  assume "\<exists>column \<in> set (ti_columns table). ci_name column = key \<and> ci_generated column = None \<and>
       po = column_ordering column"
  then show "primary_key_ordering_of table key = Inr po"
    using find_unique [OF assms] by (auto simp: primary_key_ordering_of_def)
qed

lemma table_from_inventory_Inr:
  "sync_table_from_inventory inventory = Inr table \<Longrightarrow>
   distinct (map ci_name (ti_columns inventory)) \<and> ti_primary_key inventory \<noteq> [] \<and>
   distinct (ti_primary_key inventory) \<and> st_name table = ti_name inventory \<and>
   st_primary_key table = ti_primary_key inventory \<and>
   list_all2 (\<lambda>key ordering. primary_key_ordering_of inventory key = Inr ordering)
     (st_primary_key table) (st_primary_key_ordering table) \<and>
   st_columns table = writable_columns inventory (\<lambda>_. True) \<and>
   st_bit_columns table = writable_columns inventory (\<lambda>column. eq_ignore_ascii_case (ci_data_type column) ''bit'') \<and>
   st_mediumblob_columns table =
     writable_columns inventory (\<lambda>column. eq_ignore_ascii_case (ci_data_type column) ''mediumblob'') \<and>
   st_enum_columns table = btm_collect (List.map_filter (\<lambda>column.
     map_option (\<lambda>labels. (ci_name column, labels)) (parse_enum_column_type (ci_column_type column))) (ti_columns inventory))"
  unfolding sync_table_from_inventory_def validate_inventory_columns_def validate_primary_key_def Let_def
  by (auto simp: duplicate_name_None collect_res_Inr_iff split: option.splits if_splits)

lemma table_from_inventory_wf:
  assumes "sync_table_from_inventory inventory = Inr table"
  shows "sync_table_wf table"
proof -
  note T = table_from_inventory_Inr [OF assms]
  let ?cols = "ti_columns inventory" and ?key = "st_primary_key table"
  have dc: "distinct (map ci_name ?cols)" using T by blast
  have ord: "\<exists>column \<in> set ?cols. ci_name column = ?key ! i \<and> ci_generated column = None \<and>
      st_primary_key_ordering table ! i = column_ordering column" if "i < length ?key" for i
    using T that ordering_of_Inr [OF dc] by (auto simp: list_all2_conv_all_nth)
  have enum: "map_of (st_enum_columns table) (ci_name column) = parse_enum_column_type (ci_column_type column)"
    if "column \<in> set ?cols" for column
    using T map_filter_names [OF dc that, of "\<lambda>c. parse_enum_column_type (ci_column_type c)"]
    by (simp add: map_of_btm_collect)
  have "set ?key \<subseteq> set (st_columns table)"
  proof
    fix k assume "k \<in> set ?key"
    then obtain i where "i < length ?key" "?key ! i = k" by (auto simp: in_set_conv_nth)
    with ord [of i] obtain column where "column \<in> set ?cols" "ci_generated column = None" "ci_name column = k" by blast
    moreover have "st_columns table = map ci_name (filter (\<lambda>c. ci_generated c = None) ?cols)"
      using T by (simp add: writable_columns_def)
    ultimately show "k \<in> set (st_columns table)" by auto
  qed
  moreover have "distinct (st_columns table)" using T dc by (simp add: writable_columns_def distinct_map_filter)
  moreover have "set (st_bit_columns table) \<subseteq> set (st_columns table)"
    "set (st_mediumblob_columns table) \<subseteq> set (st_columns table)"
    using T by (auto simp: writable_columns_def)
  moreover have "length (st_primary_key_ordering table) = length ?key"
    using T by (metis list_all2_lengthD)
  moreover have "st_primary_key_ordering table ! i = (case map_of (st_enum_columns table) (?key ! i) of
      Some labels \<Rightarrow> EnumOrder labels | None \<Rightarrow> Native)" if i: "i < length ?key" for i
  proof -
    obtain column where c: "column \<in> set ?cols" "ci_name column = ?key ! i"
        "st_primary_key_ordering table ! i = column_ordering column"
      using ord [OF i] by blast
    show ?thesis using enum [OF c(1)] c(2,3) by (simp add: column_ordering_def)
  qed
  ultimately show ?thesis using T by (simp add: sync_table_wf_def)
qed

lemma table_from_inventory_total:
  assumes "distinct (map ci_name (ti_columns inventory))" "ti_primary_key inventory \<noteq> []"
    "distinct (ti_primary_key inventory)"
    "\<forall>key \<in> set (ti_primary_key inventory). \<exists>column \<in> set (ti_columns inventory).
       ci_name column = key \<and> ci_generated column = None"
  shows "\<exists>table. sync_table_from_inventory inventory = Inr table"
proof -
  have "\<exists>os. collect_res (primary_key_ordering_of inventory) (ti_primary_key inventory) = Inr os"
    by (rule collect_res_total) (use assms(4) ordering_of_Inr [OF assms(1)] in blast)
  then obtain os where os: "collect_res (primary_key_ordering_of inventory) (ti_primary_key inventory) = Inr os" by blast
  then show ?thesis using assms(1-3) collect_res_length [OF os]
    unfolding sync_table_from_inventory_def validate_inventory_columns_def validate_primary_key_def Let_def
    by (simp add: duplicate_name_None [THEN iffD2])
qed

section \<open>Properties\<close>

definition example_column :: "string \<Rightarrow> string \<Rightarrow> string \<Rightarrow> column_inventory" where
  "example_column name data_type column_type =
     \<lparr>ci_name = name, ci_ordinal_position = 1, ci_column_type = column_type, ci_data_type = data_type,
      ci_is_nullable = False, ci_character_set = None, ci_collation = None, ci_default_value = None,
      ci_extra = [], ci_comment = [], ci_generated = None\<rparr>"

definition example_table_inventory :: table_inventory where
  "example_table_inventory =
     \<lparr>ti_name = ''t'', ti_table_type = ''BASE TABLE'', ti_engine = Some ''InnoDB'', ti_collation = None,
      ti_primary_key = [''kind'', ''id''],
      ti_columns = [example_column ''id'' ''int'' ''int(11)'',
        example_column ''kind'' ''enum'' (show_enum_type [''a'', ''b'']), example_column ''flag'' ''BIT'' ''bit(1)'']\<rparr>"

definition example_sync_config :: sync_config where
  "example_sync_config =
     \<lparr>sc_source = \<lparr>mc_host = ''s'', mc_port = 3306, mc_user = ''u'', mc_password = ''p'', mc_database = ''d''\<rparr>,
      sc_target = \<lparr>tc_host = ''t'', tc_port = 3306, tc_user = ''u'', tc_password = ''p'', tc_database = ''d'',
                   tc_tls_ca_file = ''ca'', tc_insert_conflict_policy = PolicyError\<rparr>,
      sc_tables = [''t''], sc_chunk_size = 10, sc_parallelism = 2, sc_progress_table = ''cdc.sync_runs'',
      sc_coordinator_session_wait_timeout_seconds = None, sc_run_id = None, sc_run_id_prefix = Some ''nightly''\<rparr>"

text \<open>C17. The table a run works on is built exactly when column names are unique and the primary key
  is a nonempty list of distinct, present, writable columns; the result is then usable: the key is
  part of the written columns, there is one ordering per key column, and a key column is ordered by
  its labels exactly when it is an enumerated column of the table.\<close>

theorem inventory_table_usable:
  "(\<forall>table. sync_table_from_inventory inventory = Inr table \<longrightarrow>
      sync_table_wf table \<and> st_name table = ti_name inventory \<and> st_primary_key table = ti_primary_key inventory) \<and>
   ((\<exists>table. sync_table_from_inventory inventory = Inr table) \<longleftrightarrow>
      distinct (map ci_name (ti_columns inventory)) \<and> ti_primary_key inventory \<noteq> [] \<and>
      distinct (ti_primary_key inventory) \<and>
      (\<forall>key \<in> set (ti_primary_key inventory). \<exists>column \<in> set (ti_columns inventory).
         ci_name column = key \<and> ci_generated column = None))"
proof -
  have keys: "\<exists>column \<in> set (ti_columns inventory). ci_name column = key \<and> ci_generated column = None"
    if t: "sync_table_from_inventory inventory = Inr table" and key: "key \<in> set (ti_primary_key inventory)" for table key
  proof -
    note T = table_from_inventory_Inr [OF t]
    then obtain i where "i < length (st_primary_key table)" "key = st_primary_key table ! i"
      using key by (auto simp: in_set_conv_nth)
    then have "\<exists>po. primary_key_ordering_of inventory key = Inr po"
      using T by (auto simp: list_all2_conv_all_nth)
    then show ?thesis using ordering_of_Inr T by blast
  qed
  show ?thesis
    using table_from_inventory_Inr table_from_inventory_wf table_from_inventory_total keys by blast
qed

theorem inventory_table_usable_witness:
  "\<exists>table. sync_table_from_inventory example_table_inventory = Inr table \<and> sync_table_wf table"
proof -
  have "\<exists>table. sync_table_from_inventory example_table_inventory = Inr table"
    using inventory_table_usable [of example_table_inventory] by (simp add: example_table_inventory_def example_column_def)
  then show ?thesis using inventory_table_usable [of example_table_inventory] by blast
qed

text \<open>The labels of an enumerated column are read back from the type text the server prints, in
  order, for every list of labels.\<close>

theorem enum_type_roundtrip: "parse_enum_column_type (show_enum_type labels) = Some labels"
proof -
  have "strip_prefix ''enum('' (show_enum_type labels) =
      Some (join_str '','' (map quote_sql_literal labels) @ '')'')"
    unfolding show_enum_type_def by (rule strip_prefix_append)
  then show ?thesis by (simp add: parse_enum_column_type_def parse_list_join)
qed

text \<open>A run identity fits the progress table: it is nonempty and at most 128 bytes, an explicit
  run id is used unchanged, and with a digest of 64 hexadecimal digits neither the length check on
  a generated id nor the \<open>expect\<close> on the prefix can fail.\<close>

lemma run_identity_fits:
  assumes "\<And>x. length (sha256_hex x) = 64"
  shows "(\<forall>identity. build_sync_run_identity to_json sha256_hex config tables = Inr identity \<longrightarrow>
      id_run_id identity \<noteq> [] \<and> length (id_run_id identity) \<le> 128 \<and>
      (\<forall>run_id. sc_run_id config = Some run_id \<longrightarrow> id_run_id identity = run_id)) \<and>
    (\<forall>n message. build_sync_run_identity to_json sha256_hex config tables \<noteq> Inl (Fail (GeneratedRunIdTooLong n)) \<and>
      build_sync_run_identity to_json sha256_hex config tables \<noteq> Inl (Panic message))"
proof (cases "validate_sync_config config")
  case (Inl e)
  have "e \<noteq> GeneratedRunIdTooLong n" for n
    using Inl by (auto simp: validate_sync_config_def validate_source_connection_def validate_target_connection_def
        validate_sync_scope_def validate_progress_table_def validate_run_identity_def validate_exact_run_id_def
        require_nonempty_def bind_res_eq_Inl Let_def split: option.splits if_splits)
  then show ?thesis using Inl by (simp add: build_sync_run_identity_def)
next
  case (Inr u)
  then have ident: "validate_run_identity config = Inr ()" by (simp add: validate_sync_config_def)
  then show ?thesis using Inr assms
    by (auto simp: build_sync_run_identity_def validate_run_identity_def validate_exact_run_id_def resolved_run_id_def
        derive_v1_run_id_def max_sync_run_id_bytes_def validate_concrete_tables_def map_err_def bind_res_eq_Inl Let_def
        split: option.splits if_splits sum.splits)
qed

text \<open>The digest of a run identity is taken of an unambiguous text: the length framing separates the
  prefix from the run description.\<close>

lemma framed_input_injective:
  assumes "update_framed_hash (update_framed_hash sync_run_id_v1_domain prefix) json =
      update_framed_hash (update_framed_hash sync_run_id_v1_domain prefix') json'"
    and "length prefix < 2 ^ 64" "length prefix' < 2 ^ 64" "length json < 2 ^ 64" "length json' < 2 ^ 64"
  shows "prefix = prefix' \<and> json = json'"
proof -
  have "to_be_bytes (of_nat (length prefix)) @ prefix @ (to_be_bytes (of_nat (length json)) @ json) =
      to_be_bytes (of_nat (length prefix')) @ prefix' @ (to_be_bytes (of_nat (length json')) @ json')"
    using assms(1) by (simp add: update_framed_hash_def)
  from frame_inj [OF this assms(2,3)] have "prefix = prefix'"
      "to_be_bytes (of_nat (length json)) @ json @ [] = to_be_bytes (of_nat (length json')) @ json' @ []"
    by simp_all
  with frame_inj [OF this(2) assms(4,5)] show ?thesis by simp
qed

end
