(* ===== verification/Sync_Progress.thy ===== *)
theory Sync_Progress
  imports Sync_Adapter Sync_Config
begin

text \<open>
  Durable progress of a synchronisation run: the stage rows (\<open>src/src/sync/progress.rs\<close> and the
  store of \<open>src/src/sync/mysql.rs\<close>), the cursors of the three mutation phases
  (\<open>src/src/sync/phase_progress.rs\<close>) and the reading of a finished run
  (\<open>src/src/sync/completed_rows.rs\<close>). The JSON text of a cursor is produced and read by
  \<open>serde_json\<close>; the record \<open>cursor_codec\<close> holds these two functions, and theorems that need it
  assume that a written cursor is read back.
\<close>

section \<open>Cursor text\<close>

record cursor_codec =
  cj_to_string :: "row_key \<Rightarrow> string + string"
  cj_from_str :: "string \<Rightarrow> string + row_key"

definition codec_faithful :: "cursor_codec \<Rightarrow> row_key \<Rightarrow> bool" where
  "codec_faithful codec cursor \<longleftrightarrow>
     (case cj_to_string codec cursor of
        Inl _ \<Rightarrow> False
      | Inr json \<Rightarrow> json \<noteq> [] \<and> CHR 0x09 \<notin> set json \<and> cj_from_str codec json = Inr cursor)"

section \<open>Stage rows\<close>

datatype progress_error =
    RowFieldCount nat
  | StageText sync_parse_error
  | CursorJson string
  | CountText string string
  | ReadProgressRow string
  | ProgressCommand string
  | ProgressStatement string
  | ReadStageTables string string string

definition build_create_sync_progress_schema_sql :: "string \<Rightarrow> string option" where
  "build_create_sync_progress_schema_sql table =
     (case split_char (CHR ''.'') table of
        schema # _ # _ \<Rightarrow> Some (''CREATE DATABASE IF NOT EXISTS '' @ quote_ident schema)
      | _ \<Rightarrow> None)"

definition build_create_sync_progress_table_sql :: "string \<Rightarrow> string" where
  "build_create_sync_progress_table_sql table =
     ''CREATE TABLE IF NOT EXISTS '' @ quote_identifier_path table @
     '' (run_id VARCHAR(128) NOT NULL, stage VARCHAR(32) NOT NULL, table_name VARCHAR(255) NOT NULL, '' @
     ''run_spec_json LONGTEXT NOT NULL, last_primary_key_json TEXT NULL, '' @
     ''chunks BIGINT UNSIGNED NOT NULL DEFAULT 0, rows_scanned BIGINT UNSIGNED NOT NULL DEFAULT 0, '' @
     ''inserts_applied BIGINT UNSIGNED NOT NULL DEFAULT 0, updates_applied BIGINT UNSIGNED NOT NULL DEFAULT 0, '' @
     ''deletes_applied BIGINT UNSIGNED NOT NULL DEFAULT 0, status VARCHAR(16) NOT NULL, last_error TEXT NULL, '' @
     ''created_at TIMESTAMP(6) NOT NULL DEFAULT CURRENT_TIMESTAMP(6), '' @
     ''updated_at TIMESTAMP(6) NOT NULL DEFAULT CURRENT_TIMESTAMP(6) ON UPDATE CURRENT_TIMESTAMP(6), '' @
     ''completed_at TIMESTAMP(6) NULL, '' @
     ''CHECK (stage IN ('' @ join_str '', '' (map quote_sql_literal [''prerequisite_schema'', ''rows'', ''final_constraints'']) @ '')), '' @
     ''CHECK (status IN ('' @ join_str '', '' (map quote_sql_literal [''running'', ''complete'', ''error'']) @ '')), '' @
     ''CHECK (JSON_VALID(run_spec_json)), '' @
     ''CHECK (last_primary_key_json IS NULL OR JSON_VALID(last_primary_key_json)), '' @
     ''PRIMARY KEY (run_id, stage, table_name)) ENGINE=InnoDB''"

definition build_sync_progress_select_sql :: "string \<Rightarrow> string \<Rightarrow> sync_stage \<Rightarrow> string \<Rightarrow> string" where
  "build_sync_progress_select_sql table run_id stage table_name =
     (let date_format = (\<lambda>column. ''DATE_FORMAT('' @ column @ '', '' @ quote_sql_literal ''%Y-%m-%d %H:%i:%s.%f'' @ '')'');
          coalesce = (\<lambda>e. ''COALESCE('' @ e @ '', '' @ quote_sql_literal [] @ '')'') in
      ''SELECT run_id, stage, table_name, '' @ coalesce ''last_primary_key_json'' @
      '', chunks, rows_scanned, inserts_applied, updates_applied, deletes_applied, status, '' @ coalesce ''last_error'' @
      '', '' @ date_format ''created_at'' @ '', '' @ date_format ''updated_at'' @ '', '' @ coalesce (date_format ''completed_at'') @
      '' FROM '' @ quote_identifier_path table @
      '' WHERE run_id = '' @ quote_sql_literal run_id @
      '' AND stage = '' @ quote_sql_literal (stage_as_str stage) @
      '' AND table_name = '' @ quote_sql_literal table_name @ '' LIMIT 1'')"

definition optional_string_param :: "string option \<Rightarrow> sql_value" where
  "optional_string_param value = (case value of Some v \<Rightarrow> string_param v | None \<Rightarrow> SqlNull)"

definition optional_json_param :: "cursor_codec \<Rightarrow> row_key option \<Rightarrow> (progress_error, sql_value) res" where
  "optional_json_param codec value =
     (case value of
        None \<Rightarrow> Inr SqlNull
      | Some cursor \<Rightarrow>
          (case cj_to_string codec cursor of
             Inl _ \<Rightarrow> Inl (Panic ''string vector serializes as JSON'')
           | Inr json \<Rightarrow> Inr (SqlBytes json)))"

definition build_sync_progress_upsert_sql ::
  "cursor_codec \<Rightarrow> string \<Rightarrow> sync_progress_row \<Rightarrow> (progress_error, sql_statement) res"
where
  "build_sync_progress_upsert_sql codec table progress =
     bind_res (optional_json_param codec (pr_last_primary_key progress)) (\<lambda>cursor.
       Inr \<lparr>ss_sql = ''INSERT INTO '' @ quote_identifier_path table @
              '' (run_id, stage, table_name, run_spec_json, last_primary_key_json, chunks, rows_scanned, '' @
              ''inserts_applied, updates_applied, deletes_applied, status, last_error, completed_at) '' @
              ''VALUES (?, ?, ?, ?, ?, ?, ?, ?, ?, ?, ?, ?, ?) AS new ON DUPLICATE KEY UPDATE '' @
              ''last_primary_key_json = new.last_primary_key_json, chunks = new.chunks, '' @
              ''rows_scanned = new.rows_scanned, inserts_applied = new.inserts_applied, '' @
              ''updates_applied = new.updates_applied, deletes_applied = new.deletes_applied, '' @
              ''status = new.status, last_error = new.last_error, completed_at = new.completed_at'',
            ss_params = [string_param (pr_run_id progress), string_param (stage_as_str (pr_stage progress)),
              string_param (pr_table_name progress), string_param ''{}'', cursor,
              SqlUInt (pr_chunks progress), SqlUInt (pr_rows_scanned progress), SqlUInt (pr_inserts progress),
              SqlUInt (pr_updates progress), SqlUInt (pr_deletes progress),
              string_param (status_as_str (pr_status progress)), optional_string_param (pr_last_error progress),
              optional_string_param (pr_completed_at progress)]\<rparr>)"

definition parse_optional_cursor :: "cursor_codec \<Rightarrow> string \<Rightarrow> progress_error + row_key option" where
  "parse_optional_cursor codec value =
     (if value = [] then Inr None
      else bind_res (map_err CursorJson (cj_from_str codec value)) (\<lambda>cursor. Inr (Some cursor)))"

definition parse_count :: "string \<Rightarrow> string \<Rightarrow> progress_error + u64" where
  "parse_count field value = ok_or (CountText field value) (parse_u64 value)"

definition optional_string :: "string \<Rightarrow> string option" where
  "optional_string value = (if value = [] then None else Some value)"

definition trim_end_newlines :: "string \<Rightarrow> string" where
  "trim_end_newlines s = rev (dropWhile (\<lambda>c. c = CHR 0x0D \<or> c = CHR 0x0A) (rev s))"

definition parse_sync_progress_row :: "cursor_codec \<Rightarrow> string \<Rightarrow> progress_error + sync_progress_row" where
  "parse_sync_progress_row codec output =
     (let parts = split_char (CHR 0x09) (trim_end_newlines output) in
      if length parts \<noteq> 14 then Inl (RowFieldCount (length parts))
      else
        bind_res (map_err StageText (parse_stage (parts ! 1))) (\<lambda>stage.
        bind_res (parse_optional_cursor codec (parts ! 3)) (\<lambda>cursor.
        bind_res (parse_count ''chunks'' (parts ! 4)) (\<lambda>chunks.
        bind_res (parse_count ''rows_scanned'' (parts ! 5)) (\<lambda>rows_scanned.
        bind_res (parse_count ''inserts_applied'' (parts ! 6)) (\<lambda>inserts.
        bind_res (parse_count ''updates_applied'' (parts ! 7)) (\<lambda>updates.
        bind_res (parse_count ''deletes_applied'' (parts ! 8)) (\<lambda>deletes.
        bind_res (map_err StageText (parse_status (parts ! 9))) (\<lambda>status.
          Inr \<lparr>pr_run_id = parts ! 0, pr_stage = stage, pr_table_name = parts ! 2, pr_last_primary_key = cursor,
               pr_chunks = chunks, pr_rows_scanned = rows_scanned, pr_inserts = inserts, pr_updates = updates,
               pr_deletes = deletes, pr_status = status, pr_last_error = optional_string (parts ! 10),
               pr_created_at = parts ! 11, pr_updated_at = parts ! 12,
               pr_completed_at = optional_string (parts ! 13)\<rparr>)))))))))"

text \<open>\<open>mysql_row_to_tsv\<close>: the columns of a result row, \<open>NULL\<close> as the empty text, joined by tabs.\<close>

definition mysql_row_to_tsv :: "cells \<Rightarrow> string" where
  "mysql_row_to_tsv row = join_str [CHR 0x09] (map (\<lambda>value. case value of Some v \<Rightarrow> v | None \<Rightarrow> []) row)"

section \<open>The stage store on a connection\<close>

record 'w progress_conn =
  pc_query :: "string \<Rightarrow> ('w, string, cells list) op"
  pc_query_drop :: "string \<Rightarrow> ('w, string, unit) op"
  pc_exec_drop :: "sql_statement \<Rightarrow> ('w, string, unit) op"
  pc_exec_names :: "sql_statement \<Rightarrow> ('w, string, string list) op"

type_synonym ('w, 'a) progress_op = "('w, progress_error fault, 'a) op"

definition execute_progress_sql :: "'w progress_conn \<Rightarrow> string \<Rightarrow> ('w, unit) progress_op" where
  "execute_progress_sql conn sql = map_err_op (\<lambda>e. Fail (ProgressCommand e)) (pc_query_drop conn sql)"

definition ensure_progress_table :: "'w progress_conn \<Rightarrow> string \<Rightarrow> ('w, unit) progress_op" where
  "ensure_progress_table conn progress_table =
     bind_op (case build_create_sync_progress_schema_sql progress_table of
         Some sql \<Rightarrow> execute_progress_sql conn sql
       | None \<Rightarrow> ret_op ())
       (\<lambda>_. execute_progress_sql conn (build_create_sync_progress_table_sql progress_table))"

definition stage_table_names ::
  "'w progress_conn \<Rightarrow> string \<Rightarrow> string \<Rightarrow> sync_stage \<Rightarrow> ('w, string list) progress_op"
where
  "stage_table_names conn progress_table run_id stage =
     map_err_op (\<lambda>e. Fail (ReadStageTables run_id (stage_as_str stage) e))
       (pc_exec_names conn
         \<lparr>ss_sql = ''SELECT table_name FROM '' @ quote_identifier_path progress_table @
            '' WHERE run_id = ? AND stage = ? ORDER BY table_name'',
          ss_params = [string_param run_id, string_param (stage_as_str stage)]\<rparr>)"

definition store_load_stage ::
  "'w progress_conn \<Rightarrow> cursor_codec \<Rightarrow> string \<Rightarrow> string \<Rightarrow> sync_stage \<Rightarrow> string
     \<Rightarrow> ('w, sync_progress_row option) progress_op"
where
  "store_load_stage conn codec progress_table run_id stage table_name =
     bind_op (map_err_op (\<lambda>e. Fail (ReadProgressRow e))
               (pc_query conn (build_sync_progress_select_sql progress_table run_id stage table_name)))
       (\<lambda>rows. case rows of
          [] \<Rightarrow> ret_op None
        | row # _ \<Rightarrow>
            bind_op (lift_op (map_err Fail (parse_sync_progress_row codec (mysql_row_to_tsv row))))
              (\<lambda>parsed. ret_op (Some parsed)))"

definition store_save_stage ::
  "'w progress_conn \<Rightarrow> cursor_codec \<Rightarrow> string \<Rightarrow> sync_progress_row \<Rightarrow> ('w, unit) progress_op"
where
  "store_save_stage conn codec progress_table row =
     bind_op (lift_op (build_sync_progress_upsert_sql codec progress_table row)) (\<lambda>statement.
       map_err_op (\<lambda>e. Fail (ProgressStatement e)) (pc_exec_drop conn statement))"

section \<open>Phase cursors\<close>

datatype phase_error =
    PhaseNotExplicit
  | ReadPhase string string string string
  | WritePhase string string string string
  | EncodePhaseCursor string
  | CompletionFlag u8 string string
  | PhaseCursorText string string string
  | LegacyRead string
  | LegacyRow adapter_error
  | LegacyCompleted string string

definition phase_name :: "sync_mutation_phase \<Rightarrow> phase_error + string" where
  "phase_name phase = (case phase of
      InsertMissing \<Rightarrow> Inr ''insert_missing''
    | UpdateDivergent \<Rightarrow> Inr ''update_divergent''
    | DeleteExtras \<Rightarrow> Inr ''delete_extras''
    | AllPhases \<Rightarrow> Inl PhaseNotExplicit)"

definition build_create_sync_phase_progress_table_sql :: "string \<Rightarrow> string" where
  "build_create_sync_phase_progress_table_sql table =
     ''CREATE TABLE IF NOT EXISTS '' @ quote_identifier_path table @
     '' (run_id VARBINARY(512) NOT NULL, table_name VARBINARY(1020) NOT NULL, '' @
     ''phase VARCHAR(32) CHARACTER SET ascii COLLATE ascii_bin NOT NULL, last_primary_key_json JSON NULL, '' @
     ''complete BOOLEAN NOT NULL DEFAULT FALSE, chunks BIGINT UNSIGNED NOT NULL DEFAULT 0, '' @
     ''rows_scanned BIGINT UNSIGNED NOT NULL DEFAULT 0, inserts BIGINT UNSIGNED NOT NULL DEFAULT 0, '' @
     ''updates BIGINT UNSIGNED NOT NULL DEFAULT 0, deletes BIGINT UNSIGNED NOT NULL DEFAULT 0, '' @
     ''PRIMARY KEY (run_id, table_name, phase), CHECK (phase IN ('' @
     join_str '', '' (map quote_sql_literal [''insert_missing'', ''update_divergent'', ''delete_extras'']) @
     '')), CHECK (complete IN (0, 1))) ENGINE=InnoDB''"

type_synonym stored_phase_progress = "string option \<times> u8 \<times> u64 \<times> u64 \<times> u64 \<times> u64 \<times> u64"

definition decode_phase_progress ::
  "cursor_codec \<Rightarrow> string \<Rightarrow> string \<Rightarrow> stored_phase_progress \<Rightarrow> phase_error + sync_chunk_progress"
where
  "decode_phase_progress codec run_id table row =
     (case row of (cursor, complete, chunks, rows_scanned, inserts, updates, deletes) \<Rightarrow>
      if complete > 1 then Inl (CompletionFlag complete run_id table)
      else
        bind_res (case cursor of
            None \<Rightarrow> Inr None
          | Some json \<Rightarrow> bind_res (map_err (PhaseCursorText run_id table) (cj_from_str codec json)) (\<lambda>key. Inr (Some key)))
          (\<lambda>last_primary_key.
             Inr \<lparr>cp_run_id = run_id, cp_table = table, cp_last_primary_key = last_primary_key,
                  cp_complete = (complete = 1), cp_chunks = chunks, cp_rows_scanned = rows_scanned,
                  cp_inserts = inserts, cp_updates = updates, cp_deletes = deletes\<rparr>))"

text \<open>The connection of \<open>MySqlPhaseProgressStore\<close>: the statement text and its parameters.\<close>

record 'p phase_conn =
  ph_exec_first :: "string \<Rightarrow> string \<times> string \<times> string \<Rightarrow> ('p, string, stored_phase_progress option) op"
  ph_exec_drop :: "string \<Rightarrow> string \<times> string \<times> string \<times> stored_phase_progress \<Rightarrow> ('p, string, unit) op"

definition load_phase ::
  "'p phase_conn \<Rightarrow> cursor_codec \<Rightarrow> string \<Rightarrow> string \<Rightarrow> string \<Rightarrow> sync_mutation_phase
     \<Rightarrow> ('p, phase_error, sync_chunk_progress option) op"
where
  "load_phase conn codec phase_table run_id table_name phase =
     bind_op (lift_op (phase_name phase)) (\<lambda>name.
     bind_op (map_err_op (ReadPhase name run_id table_name)
               (ph_exec_first conn
                 (''SELECT last_primary_key_json, complete, chunks, rows_scanned, inserts, updates, deletes FROM '' @
                  quote_identifier_path phase_table @ '' WHERE run_id = ? AND table_name = ? AND phase = ?'')
                 (run_id, table_name, name))) (\<lambda>row.
       case row of
         None \<Rightarrow> ret_op None
       | Some row \<Rightarrow>
           bind_op (lift_op (decode_phase_progress codec run_id table_name row)) (\<lambda>progress. ret_op (Some progress))))"

definition save_phase ::
  "'p phase_conn \<Rightarrow> cursor_codec \<Rightarrow> string \<Rightarrow> sync_mutation_phase \<Rightarrow> sync_chunk_progress
     \<Rightarrow> ('p, phase_error, unit) op"
where
  "save_phase conn codec phase_table phase progress =
     bind_op (lift_op (phase_name phase)) (\<lambda>name.
     bind_op (lift_op (case cp_last_primary_key progress of
         None \<Rightarrow> Inr None
       | Some key \<Rightarrow> bind_res (map_err EncodePhaseCursor (cj_to_string codec key)) (\<lambda>json. Inr (Some json)))) (\<lambda>cursor.
       map_err_op (WritePhase name (cp_run_id progress) (cp_table progress))
         (ph_exec_drop conn
           (''INSERT INTO '' @ quote_identifier_path phase_table @
            '' (run_id, table_name, phase, last_primary_key_json, complete, chunks, rows_scanned, inserts, updates, deletes) '' @
            ''VALUES (?, ?, ?, ?, ?, ?, ?, ?, ?, ?) AS new ON DUPLICATE KEY UPDATE '' @
            ''last_primary_key_json = new.last_primary_key_json, complete = new.complete, chunks = new.chunks, '' @
            ''rows_scanned = new.rows_scanned, inserts = new.inserts, updates = new.updates, deletes = new.deletes'')
           (cp_run_id progress, cp_table progress, name,
            (cursor, if cp_complete progress then 1 else 0, cp_chunks progress, cp_rows_scanned progress,
             cp_inserts progress, cp_updates progress, cp_deletes progress)))))"

section \<open>The chunk store of one phase\<close>

text \<open>\<open>SyncRunProgressStore\<close> as a record of operations, and the pair of the two states behind
  \<open>PhaseChunkProgressStore\<close>: the legacy stage rows and the phase table.\<close>

record 'w run_store =
  rs_load_stage :: "string \<Rightarrow> sync_stage \<Rightarrow> string \<Rightarrow> ('w, string, sync_progress_row option) op"
  rs_save_stage :: "sync_progress_row \<Rightarrow> ('w, string, unit) op"

definition on_fst :: "('w, 'e, 'a) op \<Rightarrow> ('w \<times> 'p, 'e, 'a) op" where
  "on_fst m wp = (case m (fst wp) of (r, w) \<Rightarrow> (r, (w, snd wp)))"

definition on_snd :: "('p, 'e, 'a) op \<Rightarrow> ('w \<times> 'p, 'e, 'a) op" where
  "on_snd m wp = (case m (snd wp) of (r, p) \<Rightarrow> (r, (fst wp, p)))"

definition load_legacy_complete ::
  "'w run_store \<Rightarrow> string \<Rightarrow> string \<Rightarrow> ('w, phase_error, sync_chunk_progress option) op"
where
  "load_legacy_complete legacy run_id table =
     bind_op (map_err_op LegacyRead (rs_load_stage legacy run_id RowsStage table)) (\<lambda>row.
       case row of
         None \<Rightarrow> ret_op None
       | Some row \<Rightarrow>
           if pr_status row = Complete then
             bind_op (lift_op (map_err LegacyRow (sync_chunk_progress_from_row row))) (\<lambda>progress. ret_op (Some progress))
           else ret_op None)"

definition phase_store_load ::
  "'w run_store \<Rightarrow> 'p phase_conn \<Rightarrow> cursor_codec \<Rightarrow> string \<Rightarrow> sync_mutation_phase \<Rightarrow> string \<Rightarrow> string
     \<Rightarrow> ('w \<times> 'p, phase_error, sync_chunk_progress option) op"
where
  "phase_store_load legacy conn codec phase_table phase run_id table =
     bind_op (on_fst (load_legacy_complete legacy run_id table)) (\<lambda>found. case found of
         Some complete \<Rightarrow> ret_op (Some complete)
       | None \<Rightarrow> on_snd (load_phase conn codec phase_table run_id table phase))"

definition phase_store_save ::
  "'w run_store \<Rightarrow> 'p phase_conn \<Rightarrow> cursor_codec \<Rightarrow> string \<Rightarrow> sync_mutation_phase \<Rightarrow> sync_chunk_progress
     \<Rightarrow> ('w \<times> 'p, phase_error, unit) op"
where
  "phase_store_save legacy conn codec phase_table phase progress =
     bind_op (on_fst (load_legacy_complete legacy (cp_run_id progress) (cp_table progress))) (\<lambda>found. case found of
         Some _ \<Rightarrow> fail_op (LegacyCompleted (cp_run_id progress) (cp_table progress))
       | None \<Rightarrow> on_snd (save_phase conn codec phase_table phase progress))"

section \<open>Finished runs\<close>

datatype completed_error =
    ExplicitRunId
  | RecordedSetsEmpty
  | RecordedSetsDiffer
  | StageRead string sync_stage string string
  | StageMissing string sync_stage string
  | StageIdentity string sync_stage string
  | StageNotComplete string sync_stage string sync_progress_status
  | CompletedRow adapter_error
  | CompletedConfig config_error
  | CompletedNames string

definition require_explicit_run_id :: "string option \<Rightarrow> completed_error + string" where
  "require_explicit_run_id run_id =
     (case run_id of
        Some value \<Rightarrow> if is_blank value then Inl ExplicitRunId else Inr value
      | None \<Rightarrow> Inl ExplicitRunId)"

definition validate_recorded_recovery_tables ::
  "string list \<Rightarrow> string list \<Rightarrow> completed_error + string list"
where
  "validate_recorded_recovery_tables prerequisite rows =
     (let prerequisite = bts_collect prerequisite; rows = bts_collect rows in
      if prerequisite = [] \<or> rows = [] then Inl RecordedSetsEmpty
      else if prerequisite \<noteq> rows then Inl RecordedSetsDiffer
      else Inr rows)"

definition read_recorded_recovery_tables ::
  "(string \<Rightarrow> sync_stage \<Rightarrow> ('w, string, string list) op) \<Rightarrow> sync_config \<Rightarrow> ('w, completed_error, string list) op"
where
  "read_recorded_recovery_tables table_names config =
     bind_op (lift_op (require_explicit_run_id (sc_run_id config))) (\<lambda>run_id.
     bind_op (lift_op (map_err CompletedConfig (validate_sync_config config))) (\<lambda>_.
     bind_op (map_err_op CompletedNames (table_names run_id PrerequisiteSchema)) (\<lambda>prerequisite.
     bind_op (map_err_op CompletedNames (table_names run_id RowsStage)) (\<lambda>rows.
       lift_op (validate_recorded_recovery_tables prerequisite rows)))))"

definition load_complete_stage ::
  "'w run_store \<Rightarrow> string \<Rightarrow> sync_stage \<Rightarrow> string \<Rightarrow> ('w, completed_error, sync_progress_row) op"
where
  "load_complete_stage store run_id stage table =
     bind_op (map_err_op (StageRead run_id stage table) (rs_load_stage store run_id stage table)) (\<lambda>found.
     bind_op (lift_op (ok_or (StageMissing run_id stage table) found)) (\<lambda>row.
       if pr_run_id row \<noteq> run_id \<or> pr_stage row \<noteq> stage \<or> pr_table_name row \<noteq> table then
         fail_op (StageIdentity run_id stage table)
       else if pr_status row \<noteq> Complete then
         fail_op (StageNotComplete run_id stage table (pr_status row))
       else ret_op row))"

fun load_completed_tables ::
  "'w run_store \<Rightarrow> string \<Rightarrow> string list \<Rightarrow> ('w, completed_error, sync_chunk_progress list) op"
where
  "load_completed_tables store run_id [] = ret_op []"
| "load_completed_tables store run_id (table # tables) =
     bind_op (load_complete_stage store run_id PrerequisiteSchema table) (\<lambda>_.
     bind_op (load_complete_stage store run_id RowsStage table) (\<lambda>rows.
     bind_op (lift_op (map_err CompletedRow (sync_chunk_progress_from_row rows))) (\<lambda>progress.
     bind_op (load_completed_tables store run_id tables) (\<lambda>rest.
       ret_op (progress # rest)))))"

definition load_completed_rows_from_store ::
  "'w run_store \<Rightarrow> string option \<Rightarrow> string list \<Rightarrow> ('w, completed_error, sync_chunk_progress list) op"
where
  "load_completed_rows_from_store store run_id tables =
     bind_op (lift_op (require_explicit_run_id run_id)) (\<lambda>run_id. load_completed_tables store run_id tables)"

definition load_completed_recovery_rows ::
  "'w run_store \<Rightarrow> sync_config \<Rightarrow> ('w, completed_error, sync_chunk_progress list) op"
where
  "load_completed_recovery_rows store config =
     bind_op (lift_op (require_explicit_run_id (sc_run_id config))) (\<lambda>_.
     bind_op (lift_op (map_err CompletedConfig (validate_sync_config config))) (\<lambda>_.
       load_completed_rows_from_store store (sc_run_id config) (sc_tables config)))"

section \<open>What the server returns for a stage row\<close>

text \<open>The columns of \<open>build_sync_progress_select_sql\<close> for a stored row; \<open>json\<close> is the stored cursor
  text.\<close>

definition progress_cells :: "string option \<Rightarrow> sync_progress_row \<Rightarrow> cells" where
  "progress_cells json row =
     (let text = (\<lambda>x. Some (case x of Some v \<Rightarrow> v | None \<Rightarrow> [])); num = (\<lambda>w :: u64. Some (nat_str (unat w))) in
      [Some (pr_run_id row), Some (stage_as_str (pr_stage row)), Some (pr_table_name row), text json,
       num (pr_chunks row), num (pr_rows_scanned row), num (pr_inserts row), num (pr_updates row), num (pr_deletes row),
       Some (status_as_str (pr_status row)), text (pr_last_error row),
       Some (pr_created_at row), Some (pr_updated_at row), text (pr_completed_at row)])"

definition tab_free :: "string \<Rightarrow> bool" where
  "tab_free s \<longleftrightarrow> CHR 0x09 \<notin> set s"

text \<open>Rows whose text columns survive the tab-separated form.\<close>

definition row_printable :: "sync_progress_row \<Rightarrow> bool" where
  "row_printable row \<longleftrightarrow>
     tab_free (pr_run_id row) \<and> tab_free (pr_table_name row) \<and> tab_free (pr_created_at row) \<and>
     tab_free (pr_updated_at row) \<and>
     (\<forall>e. pr_last_error row = Some e \<longrightarrow> e \<noteq> [] \<and> tab_free e) \<and>
     (\<forall>t. pr_completed_at row = Some t \<longrightarrow> t \<noteq> [] \<and> tab_free t \<and> last t \<notin> {CHR 0x0D, CHR 0x0A})"

definition cell_texts :: "string option \<Rightarrow> sync_progress_row \<Rightarrow> string list" where
  "cell_texts json row =
     [pr_run_id row, stage_as_str (pr_stage row), pr_table_name row, (case json of Some j \<Rightarrow> j | None \<Rightarrow> []),
      nat_str (unat (pr_chunks row)), nat_str (unat (pr_rows_scanned row)), nat_str (unat (pr_inserts row)),
      nat_str (unat (pr_updates row)), nat_str (unat (pr_deletes row)), status_as_str (pr_status row),
      (case pr_last_error row of Some e \<Rightarrow> e | None \<Rightarrow> []), pr_created_at row, pr_updated_at row,
      (case pr_completed_at row of Some t \<Rightarrow> t | None \<Rightarrow> [])]"

section \<open>Lemmas on the text form\<close>

lemma split_char_ne [simp]: "split_char c s \<noteq> []"
  by (induction s) (auto split: list.splits)

lemma split_char_free: "c \<notin> set s \<Longrightarrow> split_char c s = [s]"
  by (induction s) auto

lemma split_char_append: "c \<notin> set x \<Longrightarrow> split_char c (x @ c # s) = x # split_char c s"
  by (induction x) auto

lemma split_join:
  "parts \<noteq> [] \<Longrightarrow> \<forall>x \<in> set parts. c \<notin> set x \<Longrightarrow> split_char c (join_str [c] parts) = parts"
  by (induction "[c]" parts rule: join_str.induct) (auto simp: split_char_free split_char_append)

lemma split_length: "length (split_char c s) = Suc (count_list s c)"
proof (induction s)
  case (Cons a s)
  then show ?case by (cases "split_char c s") auto
qed simp

lemma count_join:
  "parts \<noteq> [] \<Longrightarrow> count_list (join_str [c] parts) c = length parts - 1 + sum_list (map (\<lambda>x. count_list x c) parts)"
  by (induction "[c]" parts rule: join_str.induct) auto

lemma count_trim: "count_list (trim_end_newlines s) (CHR 0x09) = count_list s (CHR 0x09)"
proof -
  have "count_list (dropWhile (\<lambda>c. c = CHR 0x0D \<or> c = CHR 0x0A) t) (CHR 0x09) = count_list t (CHR 0x09)" for t
    by (induction t) auto
  then show ?thesis by (simp add: trim_end_newlines_def)
qed

lemma trim_end_id: "s = [] \<or> last s \<notin> {CHR 0x0D, CHR 0x0A} \<Longrightarrow> trim_end_newlines s = s"
  by (cases s rule: rev_cases) (auto simp: trim_end_newlines_def)

lemma join_str_last:
  "join_str sep (xs @ [y, z]) = join_str sep (xs @ [y]) @ sep @ z"
  by (induction sep xs rule: join_str.induct) auto

lemma nat_str_tab_free: "CHR 0x09 \<notin> set (nat_str n)"
  using nat_str_digits [of n] by (auto simp: list_all_iff is_digit_def)

lemma parse_count_nat_str [simp]: "parse_count field (nat_str (unat w)) = Inr (w :: u64)"
proof -
  have "unat w < 2 ^ 64" using unsigned_less [of w] by simp
  then show ?thesis by (simp add: parse_count_def parse_u64_nat_str)
qed

lemma text_tab_free: "tab_free (stage_as_str stage)" "tab_free (status_as_str status)"
  by (cases stage; simp add: tab_free_def stage_as_str_def)
     (cases status; simp add: tab_free_def status_as_str_def)

lemma tsv_texts: "mysql_row_to_tsv (progress_cells json row) = join_str [CHR 0x09] (cell_texts json row)"
  unfolding mysql_row_to_tsv_def progress_cells_def cell_texts_def Let_def by (simp del: join_str.simps)

lemma texts_tab_free:
  assumes "row_printable row" "\<And>j. json = Some j \<Longrightarrow> tab_free j"
  shows "\<forall>x \<in> set (cell_texts json row). CHR 0x09 \<notin> set x"
proof -
  have "tab_free (case json of Some j \<Rightarrow> j | None \<Rightarrow> [])" using assms(2) by (cases json) (auto simp: tab_free_def)
  moreover have "tab_free (case pr_last_error row of Some e \<Rightarrow> e | None \<Rightarrow> [])"
    using assms(1) by (cases "pr_last_error row") (auto simp: row_printable_def tab_free_def)
  moreover have "tab_free (case pr_completed_at row of Some e \<Rightarrow> e | None \<Rightarrow> [])"
    using assms(1) by (cases "pr_completed_at row") (auto simp: row_printable_def tab_free_def)
  ultimately show ?thesis
    using assms(1) text_tab_free unfolding cell_texts_def row_printable_def tab_free_def
    by (simp add: nat_str_tab_free)
qed

lemma tsv_trim:
  assumes "row_printable row"
  shows "trim_end_newlines (join_str [CHR 0x09] (cell_texts json row)) = join_str [CHR 0x09] (cell_texts json row)"
proof (rule trim_end_id, rule disjI2)
  let ?t = "case pr_completed_at row of Some t \<Rightarrow> t | None \<Rightarrow> []"
  obtain xs y where xs: "cell_texts json row = xs @ [y, ?t]"
    by (rule that [of "take 12 (cell_texts json row)" "pr_updated_at row"]) (simp add: cell_texts_def)
  have "?t = [] \<or> ?t \<noteq> [] \<and> last ?t \<notin> {CHR 0x0D, CHR 0x0A}"
    using assms by (cases "pr_completed_at row") (auto simp: row_printable_def)
  then show "last (join_str [CHR 0x09] (cell_texts json row)) \<notin> {CHR 0x0D, CHR 0x0A}"
    unfolding xs join_str_last by auto
qed

lemma parse_cells:
  assumes "row_printable row" "\<And>j. json = Some j \<Longrightarrow> tab_free j"
    and "parse_optional_cursor codec (case json of Some j \<Rightarrow> j | None \<Rightarrow> []) = Inr (pr_last_primary_key row)"
  shows "parse_sync_progress_row codec (mysql_row_to_tsv (progress_cells json row)) = Inr row"
proof -
  have parts: "split_char (CHR 0x09) (trim_end_newlines (mysql_row_to_tsv (progress_cells json row))) = cell_texts json row"
    unfolding tsv_texts tsv_trim [OF assms(1)]
    by (rule split_join [OF _ texts_tab_free [OF assms(1,2)]]) (simp add: cell_texts_def)
  have opt: "optional_string (case x of Some v \<Rightarrow> v | None \<Rightarrow> []) = x" if "\<And>v. x = Some v \<Longrightarrow> v \<noteq> []" for x
    using that by (cases x) (auto simp: optional_string_def)
  have "optional_string (case pr_last_error row of Some v \<Rightarrow> v | None \<Rightarrow> []) = pr_last_error row"
    "optional_string (case pr_completed_at row of Some v \<Rightarrow> v | None \<Rightarrow> []) = pr_completed_at row"
    using assms(1) by (auto intro!: opt simp: row_printable_def)
  then show ?thesis
    unfolding parse_sync_progress_row_def Let_def parts using assms(3) by (simp add: cell_texts_def)
qed

section \<open>Properties of stage rows\<close>

definition example_codec :: cursor_codec where
  "example_codec =
     \<lparr>cj_to_string = (\<lambda>key. Inr (''['' @ join_str '','' (map quote_sql_literal key) @ '']'')),
      cj_from_str = (\<lambda>json. case strip_prefix ''['' json of
         None \<Rightarrow> Inl ''not a list''
       | Some rest \<Rightarrow> (case strip_suffix '']'' rest of
           None \<Rightarrow> Inl ''not a list'' | Some body \<Rightarrow> Inr (parse_sql_string_list body)))\<rparr>"

definition example_stage_row :: sync_progress_row where
  "example_stage_row =
     \<lparr>pr_run_id = ''r'', pr_stage = RowsStage, pr_table_name = ''t'', pr_last_primary_key = Some [''7'', ''b''],
      pr_chunks = 3, pr_rows_scanned = 200, pr_inserts = 5, pr_updates = 0, pr_deletes = 1, pr_status = ErrorStatus,
      pr_last_error = Some ''duplicate key'', pr_created_at = ''2024-01-01'', pr_updated_at = ''2024-01-02'',
      pr_completed_at = None\<rparr>"

lemma example_codec_roundtrip:
  "cj_to_string example_codec key = Inr json \<Longrightarrow> cj_from_str example_codec json = Inr key"
  using strip_prefix_append [of "''[''"] strip_suffix_append [of "'']''"]
  by (auto simp: example_codec_def parse_list_join)



text \<open>C20. A stage row whose recorded error text has a tab cannot be read again: the reader sees more
  than fourteen columns and reports that instead of the row.\<close>

theorem tab_in_error_unreadable:
  assumes "pr_last_error row = Some e" "CHR 0x09 \<in> set e"
  shows "\<exists>n > 14. parse_sync_progress_row codec (mysql_row_to_tsv (progress_cells json row)) = Inl (RowFieldCount n)"
proof -
  let ?s = "mysql_row_to_tsv (progress_cells json row)"
  have "0 < count_list e (CHR 0x09)" using assms(2) by (metis count_list_0_iff gr0I)
  moreover have "count_list e (CHR 0x09) \<in> set (map (\<lambda>x. count_list x (CHR 0x09)) (cell_texts json row))"
    using assms(1) by (simp add: cell_texts_def)
  then have "count_list e (CHR 0x09) \<le> sum_list (map (\<lambda>x. count_list x (CHR 0x09)) (cell_texts json row))"
    by (rule member_le_sum_list) simp
  ultimately have "13 < count_list ?s (CHR 0x09)"
    unfolding tsv_texts by (subst count_join) (auto simp: cell_texts_def)
  then have "14 < length (split_char (CHR 0x09) (trim_end_newlines ?s))"
    by (simp add: split_length count_trim)
  then show ?thesis unfolding parse_sync_progress_row_def Let_def by simp
qed

theorem tab_in_error_unreadable_witness:
  "\<exists>n > 14. parse_sync_progress_row example_codec (mysql_row_to_tsv (progress_cells None
     (example_stage_row\<lparr>pr_last_error := Some [CHR ''x'', CHR 0x09]\<rparr>))) = Inl (RowFieldCount n)"
  by (rule tab_in_error_unreadable) (auto simp: example_stage_row_def)

section \<open>Properties of finished runs\<close>

text \<open>A store that reads the rows \<open>v\<close> and changes nothing when it reads.\<close>

definition reads_rows :: "'w run_store \<Rightarrow> 'w \<Rightarrow> (string \<Rightarrow> sync_stage \<Rightarrow> string \<Rightarrow> sync_progress_row option) \<Rightarrow> bool" where
  "reads_rows store w v \<longleftrightarrow> (\<forall>run stage t. rs_load_stage store run stage t w = (Inr (v run stage t), w))"

definition stage_complete :: "(string \<Rightarrow> sync_stage \<Rightarrow> string \<Rightarrow> sync_progress_row option) \<Rightarrow> string \<Rightarrow> sync_stage \<Rightarrow> string \<Rightarrow> bool" where
  "stage_complete v run stage t \<longleftrightarrow> (\<exists>row. v run stage t = Some row \<and> pr_run_id row = run \<and> pr_stage row = stage \<and>
     pr_table_name row = t \<and> pr_status row = Complete)"

lemma load_complete_stage_reads:
  assumes "reads_rows store w v"
  shows "load_complete_stage store run stage t w = (Inr row, w') \<longleftrightarrow>
    w' = w \<and> v run stage t = Some row \<and> stage_complete v run stage t"
  using assms unfolding reads_rows_def load_complete_stage_def stage_complete_def
  by (auto simp: bind_op_eq_Inr lift_op_def ret_op_def fail_op_def map_err_op_def bind_op_def split: if_splits option.splits sum.splits)

lemma load_completed_tables_reads:
  assumes "reads_rows store w v"
  shows "load_completed_tables store run tables w = (Inr ps, w') \<longleftrightarrow>
    w' = w \<and> list_all2 (\<lambda>t p. stage_complete v run PrerequisiteSchema t \<and> stage_complete v run RowsStage t \<and>
      (\<exists>row. v run RowsStage t = Some row \<and> sync_chunk_progress_from_row row = Inr p)) tables ps"
proof (induction tables arbitrary: ps)
  case Nil
  then show ?case by (auto simp: ret_op_def)
next
  case (Cons t tables)
  have pre: "(\<exists>row. load_complete_stage store run PrerequisiteSchema t w = (Inr row, w)) \<longleftrightarrow>
      stage_complete v run PrerequisiteSchema t"
    using load_complete_stage_reads [OF assms] by (auto simp: stage_complete_def)
  show ?case
    by (cases ps) (auto simp: bind_op_eq_Inr lift_op_def ret_op_def load_complete_stage_reads [OF assms] Cons.IH
        stage_complete_def)
qed

lemma complete_row_progress:
  "stage_complete v run RowsStage t \<Longrightarrow> v run RowsStage t = Some row \<Longrightarrow>
   \<exists>p. sync_chunk_progress_from_row row = Inr p \<and> cp_complete p \<and> cp_run_id p = run \<and> cp_table p = t"
  by (auto simp: stage_complete_def sync_chunk_progress_from_row_def)

text \<open>C21. A finished run is accepted exactly when it has an explicit, non-blank run id and every
  table has a complete prerequisite stage and a complete rows stage under that id; the reports are
  then the stored ones, one per table in order and each complete, and nothing is written.\<close>

theorem completed_rows_exact:
  assumes "reads_rows store w v"
  shows "(\<exists>ps. load_completed_rows_from_store store run_id tables w = (Inr ps, w) \<and>
       list_all2 (\<lambda>t p. cp_table p = t \<and> cp_complete p \<and> run_id = Some (cp_run_id p)) tables ps) \<longleftrightarrow>
     (\<exists>run. run_id = Some run \<and> \<not> is_blank run \<and>
       (\<forall>t \<in> set tables. stage_complete v run PrerequisiteSchema t \<and> stage_complete v run RowsStage t))" (is "?L \<longleftrightarrow> ?R")
proof
  assume ?L
  then show ?R
    by (auto simp: load_completed_rows_from_store_def require_explicit_run_id_def bind_op_eq_Inr lift_op_def
        load_completed_tables_reads [OF assms] list_all2_conv_all_nth in_set_conv_nth split: option.splits if_splits)
next
  assume ?R
  then obtain run where run: "run_id = Some run" "\<not> is_blank run"
    and ok: "\<And>t. t \<in> set tables \<Longrightarrow> stage_complete v run PrerequisiteSchema t \<and> stage_complete v run RowsStage t"
    by blast
  have "\<exists>ps. list_all2 (\<lambda>t p. stage_complete v run PrerequisiteSchema t \<and> stage_complete v run RowsStage t \<and>
      (\<exists>row. v run RowsStage t = Some row \<and> sync_chunk_progress_from_row row = Inr p) \<and>
      cp_table p = t \<and> cp_complete p \<and> cp_run_id p = run) tables ps"
    using ok
  proof (induction tables)
    case (Cons t tables)
    then obtain ps where ps: "list_all2 (\<lambda>t p. stage_complete v run PrerequisiteSchema t \<and> stage_complete v run RowsStage t \<and>
      (\<exists>row. v run RowsStage t = Some row \<and> sync_chunk_progress_from_row row = Inr p) \<and>
      cp_table p = t \<and> cp_complete p \<and> cp_run_id p = run) tables ps" by auto
    have t: "stage_complete v run RowsStage t" using Cons.prems by simp
    then obtain row where row: "v run RowsStage t = Some row" by (auto simp: stage_complete_def)
    from complete_row_progress [OF t row] obtain p where
      "sync_chunk_progress_from_row row = Inr p" "cp_complete p" "cp_run_id p = run" "cp_table p = t" by blast
    with ps row Cons.prems show ?case by (intro exI [of _ "p # ps"]) auto
  next
    case Nil
    show ?case by (rule exI [of _ "[]"]) simp
  qed
  then obtain ps where ps: "list_all2 (\<lambda>t p. stage_complete v run PrerequisiteSchema t \<and> stage_complete v run RowsStage t \<and>
      (\<exists>row. v run RowsStage t = Some row \<and> sync_chunk_progress_from_row row = Inr p) \<and>
      cp_table p = t \<and> cp_complete p \<and> cp_run_id p = run) tables ps" by blast
  have "load_completed_tables store run tables w = (Inr ps, w)"
    unfolding load_completed_tables_reads [OF assms] using ps by (auto elim!: list_all2_mono)
  moreover have "list_all2 (\<lambda>t p. cp_table p = t \<and> cp_complete p \<and> run_id = Some (cp_run_id p)) tables ps"
    using ps run by (auto elim!: list_all2_mono)
  ultimately show ?L
    using run by (auto simp: load_completed_rows_from_store_def require_explicit_run_id_def bind_op_def lift_op_def)
qed

definition example_finished :: "string \<Rightarrow> sync_stage \<Rightarrow> string \<Rightarrow> sync_progress_row option" where
  "example_finished run stage t =
     Some (example_stage_row\<lparr>pr_run_id := run, pr_stage := stage, pr_table_name := t, pr_status := Complete\<rparr>)"

theorem completed_rows_exact_witness:
  "\<exists>ps. load_completed_rows_from_store
      \<lparr>rs_load_stage = (\<lambda>run stage t w. (Inr (example_finished run stage t), w)), rs_save_stage = (\<lambda>_ w. (Inr (), w))\<rparr>
      (Some ''r'') [''a'', ''b''] () = (Inr ps, ()) \<and>
    list_all2 (\<lambda>t p. cp_table p = t \<and> cp_complete p \<and> Some ''r'' = Some (cp_run_id p)) [''a'', ''b''] ps"
proof -
  have "reads_rows \<lparr>rs_load_stage = (\<lambda>run stage t w. (Inr (example_finished run stage t), w)),
      rs_save_stage = (\<lambda>_ w. (Inr (), w))\<rparr> () example_finished"
    by (simp add: reads_rows_def)
  from completed_rows_exact [OF this, of "Some ''r''" "[''a'', ''b'']"] show ?thesis
    by (simp add: example_finished_def stage_complete_def)
qed

end
