(* ===== verification/Phase_Backend.thy ===== *)
theory Phase_Backend
  imports Sync_Progress Sync_Chunk_Correct Chunk_Frame
begin

text \<open>
  A chunk run whose progress is kept per mutation phase: the environment
  \<open>run_table_phase\<close> of \<open>src/src/sync/phased_run.rs\<close> builds, with the chunk store
  \<open>PhaseChunkProgressStore\<close> in place of the stage rows. The state is the pair of the database
  and the phase table, which the code reaches through a connection of its own. The locale
  \<open>phase_rows\<close> states what the phase table promises; every backend of the chunk run stays a
  backend when its progress store is exchanged for the phase store.
\<close>

section \<open>The environment\<close>

definition phase_env ::
  "'w sync_env \<Rightarrow> 'l run_store \<Rightarrow> 'p phase_conn \<Rightarrow> cursor_codec \<Rightarrow> string \<Rightarrow> (phase_error \<Rightarrow> string)
     \<Rightarrow> sync_mutation_phase \<Rightarrow> ('w \<times> 'l \<times> 'p) sync_env"
where
  "phase_env env legacy conn codec phase_table render phase =
     \<lparr>source_read_rows = (\<lambda>request. on_fst (source_read_rows env request)),
      source_read_row_by_primary_key = (\<lambda>key. on_fst (source_read_row_by_primary_key env key)),
      set_autocommit = (\<lambda>enabled. on_fst (set_autocommit env enabled)),
      lock_table_write = (\<lambda>database table. on_fst (lock_table_write env database table)),
      target_read_rows = (\<lambda>request. on_fst (target_read_rows env request)),
      delete_rows = (\<lambda>keys. on_fst (delete_rows env keys)),
      update_rows = (\<lambda>rows. on_fst (update_rows env rows)),
      insert_rows = (\<lambda>rows. on_fst (insert_rows env rows)),
      inspect_unique_owner_conflicts = (\<lambda>failure. on_fst (inspect_unique_owner_conflicts env failure)),
      reconcile_unique_owner = (\<lambda>conflict action. on_fst (reconcile_unique_owner env conflict action)),
      verify_rows = (\<lambda>rows. on_fst (verify_rows env rows)),
      commit = on_fst (commit env),
      rollback = on_fst (rollback env),
      unlock_tables = on_fst (unlock_tables env),
      progress_load = (\<lambda>run_id table. map_err_op render
        (on_snd (phase_store_load legacy conn codec phase_table phase run_id table))),
      progress_save = (\<lambda>progress. map_err_op render
        (on_snd (phase_store_save legacy conn codec phase_table phase progress)))\<rparr>"

section \<open>The phase table\<close>

type_synonym phase_view = "string \<Rightarrow> string \<Rightarrow> string \<Rightarrow> stored_phase_progress option"

locale phase_rows =
  fixes conn :: "'p phase_conn"
    and rows :: "'p \<Rightarrow> phase_view"
  assumes phase_select: "ph_exec_first conn sql (run, t, name) p = (r, p') \<Longrightarrow>
      rows p' = rows p \<and> (\<forall>x. r = Inr x \<longrightarrow> x = rows p run t name)"
    and phase_upsert: "ph_exec_drop conn sql (run, t, name, stored) p = (u, p') \<Longrightarrow>
      rows p' = (rows p)(run := (rows p run)(t := (rows p run t)(name \<mapsto> stored))) \<or> u \<noteq> Inr () \<and> rows p' = rows p"

definition decoded_phase :: "cursor_codec \<Rightarrow> phase_view \<Rightarrow> sync_mutation_phase \<Rightarrow> string \<Rightarrow> string \<Rightarrow> sync_chunk_progress option" where
  "decoded_phase codec v phase run t =
     (case phase_name phase of
        Inl _ \<Rightarrow> None
      | Inr name \<Rightarrow>
          (case v run t name of
             None \<Rightarrow> None
           | Some row \<Rightarrow> (case decode_phase_progress codec run t row of Inr p \<Rightarrow> Some p | Inl _ \<Rightarrow> None)))"

text \<open>The stage row of a table as the phase store reads it: only a completed one counts.\<close>

type_synonym legacy_view = "string \<Rightarrow> string \<Rightarrow> sync_progress_row option"

definition legacy_complete :: "sync_progress_row option \<Rightarrow> sync_chunk_progress option" where
  "legacy_complete row =
     (case row of None \<Rightarrow> None
      | Some row \<Rightarrow>
          if pr_status row = Complete then (case sync_chunk_progress_from_row row of Inr p \<Rightarrow> Some p | Inl _ \<Rightarrow> None)
          else None)"

text \<open>The progress a phase run sees: a completed stage row wins over the phase table.\<close>

definition phase_stored ::
  "cursor_codec \<Rightarrow> sync_mutation_phase \<Rightarrow> legacy_view \<Rightarrow> phase_view \<Rightarrow> string \<Rightarrow> string \<Rightarrow> sync_chunk_progress option"
where
  "phase_stored codec phase legacy v run t =
     (case legacy_complete (legacy run t) of
        Some p \<Rightarrow> Some p
      | None \<Rightarrow> decoded_phase codec v phase run t)"

definition codec_total :: "cursor_codec \<Rightarrow> bool" where
  "codec_total codec \<longleftrightarrow> (\<forall>key json. cj_to_string codec key = Inr json \<longrightarrow> cj_from_str codec json = Inr key)"

section \<open>Lemmas\<close>

lemma on_fst_run: "on_fst m wp = (r, wp') \<longleftrightarrow> m (fst wp) = (r, fst wp') \<and> snd wp' = snd wp"
  by (cases wp'; auto simp: on_fst_def split: prod.splits)

lemma on_snd_run: "on_snd m wp = (r, wp') \<longleftrightarrow> m (snd wp) = (r, snd wp') \<and> fst wp' = fst wp"
  by (cases wp'; auto simp: on_snd_def split: prod.splits)

context phase_rows
begin

lemma load_phase_run:
  assumes "load_phase conn codec table run t phase p = (r, p')"
  shows "rows p' = rows p \<and> (\<forall>x. r = Inr x \<longrightarrow> x = decoded_phase codec (rows p) phase run t)"
proof (cases "phase_name phase")
  case (Inl e)
  then show ?thesis using assms by (auto simp: load_phase_def bind_op_def lift_op_def)
next
  case (Inr name)
  obtain q p1 where q: "ph_exec_first conn
      (''SELECT last_primary_key_json, complete, chunks, rows_scanned, inserts, updates, deletes FROM '' @
       quote_identifier_path table @ '' WHERE run_id = ? AND table_name = ? AND phase = ?'') (run, t, name) p = (q, p1)"
    by fastforce
  from phase_select [OF q] assms Inr q show ?thesis
    by (auto simp: load_phase_def bind_op_def lift_op_def ret_op_def map_err_op_def map_err_def decoded_phase_def
        split: sum.splits option.splits)
qed

lemma save_phase_run:
  assumes "save_phase conn codec table phase progress p = (u, p')" "codec_total codec"
  shows "decoded_phase codec (rows p') phase = (decoded_phase codec (rows p) phase)
      (cp_run_id progress := (decoded_phase codec (rows p) phase (cp_run_id progress))(cp_table progress \<mapsto> progress))
    \<or> u \<noteq> Inr () \<and> rows p' = rows p"
proof (cases "phase_name phase")
  case (Inl e)
  then show ?thesis using assms by (auto simp: save_phase_def bind_op_def lift_op_def)
next
  case (Inr name)
  let ?enc = "case cp_last_primary_key progress of
     None \<Rightarrow> Inr None
   | Some key \<Rightarrow> bind_res (map_err EncodePhaseCursor (cj_to_string codec key)) (\<lambda>json. Inr (Some json))"
  show ?thesis
  proof (cases ?enc)
    case (Inl e)
    then show ?thesis using assms Inr by (auto simp: save_phase_def bind_op_def lift_op_def)
  next
    case enc: (Inr cursor)
    let ?stored = "(cursor, if cp_complete progress then 1 else 0, cp_chunks progress, cp_rows_scanned progress,
             cp_inserts progress, cp_updates progress, cp_deletes progress) :: stored_phase_progress"
    from assms(1) Inr enc obtain sql q where q: "ph_exec_drop conn sql (cp_run_id progress, cp_table progress, name, ?stored) p = (q, p')"
      "u = map_err (WritePhase name (cp_run_id progress) (cp_table progress)) q"
      unfolding save_phase_def by (auto simp: bind_op_def lift_op_def map_err_op_def split: prod.splits)
    have dec: "decode_phase_progress codec (cp_run_id progress) (cp_table progress) ?stored = Inr progress"
      using enc assms(2) by (auto simp: decode_phase_progress_def codec_total_def split: option.splits)
    from phase_upsert [OF q(1)] show ?thesis
    proof
      assume upd: "rows p' = (rows p)(cp_run_id progress := (rows p (cp_run_id progress))
        (cp_table progress := (rows p (cp_run_id progress) (cp_table progress))(name \<mapsto> ?stored)))"
      show ?thesis
        using dec by (intro disjI1, cases "cp_complete progress") (auto simp: upd fun_eq_iff decoded_phase_def Inr)
    next
      assume "q \<noteq> Inr () \<and> rows p' = rows p"
      then show ?thesis using q(2) by (cases q) auto
    qed
  qed
qed

lemma phase_name_inj: "phase_name a = Inr n \<Longrightarrow> phase_name b = Inr n \<Longrightarrow> a = b"
  by (cases a; cases b; simp add: phase_name_def; fastforce)

lemma save_phase_frame:
  assumes "save_phase conn codec table phase progress p = (u, p')" "other \<noteq> phase"
  shows "decoded_phase codec (rows p') other = decoded_phase codec (rows p) other"
proof (cases "rows p' = rows p")
  case False
  with assms(1) obtain name sql stored q where n: "phase_name phase = Inr name"
    and q: "ph_exec_drop conn sql (cp_run_id progress, cp_table progress, name, stored) p = (q, p')"
    unfolding save_phase_def
    by (auto simp: bind_op_def lift_op_def map_err_op_def split: prod.splits sum.splits option.splits)
  from phase_upsert [OF q] False n assms(2) show ?thesis
    by (auto simp: fun_eq_iff decoded_phase_def split: sum.splits dest: phase_name_inj)
qed simp

end

section \<open>The progress store of a phase\<close>

locale progress_db = phase_rows conn rows
  for conn :: "'p phase_conn" and rows :: "'p \<Rightarrow> phase_view" +
  fixes legacy :: "'l run_store"
    and legacy_rows :: "'l \<Rightarrow> legacy_view"
    and codec :: cursor_codec
  assumes codec_law: "codec_total codec"
    and legacy_load: "rs_load_stage legacy run RowsStage t l = (rl, l') \<Longrightarrow>
      legacy_rows l' = legacy_rows l \<and> (\<forall>x. rl = Inr x \<longrightarrow> x = legacy_rows l run t)"
begin

abbreviation phase_progress :: "sync_mutation_phase \<Rightarrow> 'l \<times> 'p \<Rightarrow> string \<Rightarrow> string \<Rightarrow> sync_chunk_progress option" where
  "phase_progress phase lp \<equiv> phase_stored codec phase (legacy_rows (fst lp)) (rows (snd lp))"

lemma legacy_run:
  assumes "load_legacy_complete legacy run t l = (r, l')"
  shows "legacy_rows l' = legacy_rows l \<and> (\<forall>x. r = Inr x \<longrightarrow> x = legacy_complete (legacy_rows l run t))"
proof -
  obtain q where q: "rs_load_stage legacy run RowsStage t l = (q, l')"
    using assms
    by (auto simp: load_legacy_complete_def bind_op_def map_err_op_def lift_op_def ret_op_def
        split: prod.splits sum.splits option.splits if_splits)
  note L = legacy_load [OF q]
  moreover have "x = legacy_complete (legacy_rows l run t)" if "r = Inr x" for x
  proof -
    from assms that q obtain y where y: "q = Inr y" "x = legacy_complete y"
      by (cases q)
         (auto simp: load_legacy_complete_def legacy_complete_def bind_op_def map_err_op_def map_err_def lift_op_def ret_op_def
          split: sum.splits option.splits if_splits)
    with L show ?thesis by blast
  qed
  ultimately show ?thesis by blast
qed

lemma phase_load_run:
  assumes "phase_store_load legacy conn codec phase_table phase run t lp = (r, lp')"
  shows "legacy_rows (fst lp') = legacy_rows (fst lp) \<and> rows (snd lp') = rows (snd lp) \<and>
    (\<forall>x. r = Inr x \<longrightarrow> x = phase_progress phase lp run t)"
proof -
  obtain q l1 where q: "load_legacy_complete legacy run t (fst lp) = (q, l1)" by fastforce
  note L = legacy_run [OF q]
  from assms q have cases: "(\<exists>e. q = Inl e \<and> r = Inl e \<and> lp' = (l1, snd lp)) \<or>
      (\<exists>p. q = Inr (Some p) \<and> r = Inr (Some p) \<and> lp' = (l1, snd lp)) \<or>
      (q = Inr None \<and> on_snd (load_phase conn codec phase_table run t phase) (l1, snd lp) = (r, lp'))"
    by (auto simp: phase_store_load_def bind_op_def on_fst_def ret_op_def split: sum.splits option.splits)
  then show ?thesis
  proof (elim disjE exE conjE)
    fix e assume "q = Inl e" "r = Inl e" "lp' = (l1, snd lp)"
    then show ?thesis using L by simp
  next
    fix p assume "q = Inr (Some p)" "r = Inr (Some p)" "lp' = (l1, snd lp)"
    then show ?thesis using L by (auto simp: phase_stored_def split: option.splits)
  next
    assume n: "q = Inr None" and "on_snd (load_phase conn codec phase_table run t phase) (l1, snd lp) = (r, lp')"
    then have l': "fst lp' = l1" and p: "load_phase conn codec phase_table run t phase (snd lp) = (r, snd lp')"
      by (auto simp: on_snd_run)
    from L load_phase_run [OF p] n show ?thesis
      by (auto simp: l' phase_stored_def split: option.splits)
  qed
qed

lemma phase_save_run:
  assumes "phase_store_save legacy conn codec phase_table phase progress lp = (u, lp')"
  shows "legacy_rows (fst lp') = legacy_rows (fst lp) \<and>
    (phase_progress phase lp' = (phase_progress phase lp)(cp_run_id progress :=
        (phase_progress phase lp (cp_run_id progress))(cp_table progress \<mapsto> progress)) \<or>
     u \<noteq> Inr () \<and> phase_progress phase lp' = phase_progress phase lp) \<and>
    (\<forall>other. other \<noteq> phase \<longrightarrow> phase_progress other lp' = phase_progress other lp)"
proof -
  obtain q l1 where q: "load_legacy_complete legacy (cp_run_id progress) (cp_table progress) (fst lp) = (q, l1)" by fastforce
  note L = legacy_run [OF q]
  from assms q have cases: "(\<exists>e. u = Inl e \<and> lp' = (l1, snd lp)) \<or>
      (q = Inr None \<and> on_snd (save_phase conn codec phase_table phase progress) (l1, snd lp) = (u, lp'))"
    by (auto simp: phase_store_save_def bind_op_def on_fst_def fail_op_def split: sum.splits option.splits)
  then show ?thesis
  proof (elim disjE exE conjE)
    fix e assume "u = Inl e" "lp' = (l1, snd lp)"
    then show ?thesis using L by simp
  next
    assume n: "q = Inr None" and "on_snd (save_phase conn codec phase_table phase progress) (l1, snd lp) = (u, lp')"
    then have l': "fst lp' = l1" and p: "save_phase conn codec phase_table phase progress (snd lp) = (u, snd lp')"
      by (auto simp: on_snd_run)
    have free: "legacy_complete (legacy_rows (fst lp) (cp_run_id progress) (cp_table progress)) = None"
      using L n by simp
    have leg: "legacy_rows l1 = legacy_rows (fst lp)" using L by simp
    have frame: "phase_progress other lp' = phase_progress other lp" if "other \<noteq> phase" for other
      unfolding phase_stored_def l' leg save_phase_frame [OF p that] ..
    from save_phase_run [OF p codec_law] show ?thesis
    proof
      assume upd: "decoded_phase codec (rows (snd lp')) phase = (decoded_phase codec (rows (snd lp)) phase)
        (cp_run_id progress := (decoded_phase codec (rows (snd lp)) phase (cp_run_id progress))(cp_table progress \<mapsto> progress))"
      have "phase_progress phase lp' = (phase_progress phase lp)(cp_run_id progress :=
        (phase_progress phase lp (cp_run_id progress))(cp_table progress \<mapsto> progress))"
        using free by (auto simp: fun_eq_iff phase_stored_def l' leg upd split: option.splits)
      then show ?thesis using leg frame by (simp add: l')
    next
      assume "u \<noteq> Inr () \<and> rows (snd lp') = rows (snd lp)"
      then show ?thesis using leg frame by (simp add: l')
    qed
  qed
qed

text \<open>A run of one phase leaves the progress of the other phases alone, whatever the backend does.\<close>

lemma keeps_on_fst: "keeps (\<lambda>wp. J (snd wp)) (on_fst m)"
  by (auto simp: keeps_def on_fst_run)

lemma other_phases_framed:
  "framed_env (phase_env env legacy conn codec phase_table render phase)
     (\<lambda>wp. \<forall>other. other \<noteq> phase \<longrightarrow> phase_progress other (snd wp) = V other)" (is "framed_env ?env ?I")
proof (rule framed_env.intro)
  fix run t p
  show "keeps ?I (progress_load ?env run t)"
    unfolding keeps_def
  proof (intro allI impI)
    fix wp r wp' other
    assume "progress_load ?env run t wp = (r, wp')" and I: "?I wp" "other \<noteq> phase"
    then obtain q where "phase_store_load legacy conn codec phase_table phase run t (snd wp) = (q, snd wp')"
      by (auto simp: phase_env_def map_err_op_def on_snd_run split: prod.splits)
    from phase_load_run [OF this] I show "phase_progress other (snd wp') = V other" by simp
  qed
  show "keeps ?I (progress_save ?env p)"
    unfolding keeps_def
  proof (intro allI impI)
    fix wp r wp' other
    assume "progress_save ?env p wp = (r, wp')" and I: "?I wp" "other \<noteq> phase"
    then obtain q where "phase_store_save legacy conn codec phase_table phase p (snd wp) = (q, snd wp')"
      by (auto simp: phase_env_def map_err_op_def on_snd_run split: prod.splits)
    from phase_save_run [OF this] I(2) have "phase_progress other (snd wp') = phase_progress other (snd wp)" by blast
    also have "\<dots> = V other" using I by blast
    finally show "phase_progress other (snd wp') = V other" .
  qed
qed (simp_all add: phase_env_def keeps_on_fst [of "\<lambda>lp. \<forall>other. other \<noteq> phase \<longrightarrow> phase_progress other lp = V other"])

end

section \<open>The phase store keeps a backend a backend\<close>

locale phased_backend =
  sync_backend env table key_less src tgt base stored + progress_db conn rows legacy legacy_rows codec
  for env :: "'w sync_env" and table :: sync_table and key_less :: "row_key \<Rightarrow> row_key \<Rightarrow> bool"
    and src tgt base :: "'w \<Rightarrow> row_key \<Rightarrow> row_values option"
    and stored :: "'w \<Rightarrow> string \<Rightarrow> string \<Rightarrow> sync_chunk_progress option"
    and conn :: "'p phase_conn" and rows :: "'p \<Rightarrow> phase_view"
    and legacy :: "'l run_store" and legacy_rows :: "'l \<Rightarrow> legacy_view" and codec :: cursor_codec
begin

lemma backend:
  "sync_backend (phase_env env legacy conn codec phase_table render phase) table key_less
     (\<lambda>wp. src (fst wp)) (\<lambda>wp. tgt (fst wp)) (\<lambda>wp. base (fst wp)) (\<lambda>wp. phase_progress phase (snd wp))"
proof (unfold_locales, goal_cases)
  case (1 k)
  show ?case by (rule key_irrefl)
next
  case (2 a b c)
  then show ?case by (rule key_trans)
next
  case (3 a b)
  then show ?case by (rule key_total)
next
  case (4 req w r w')
  then have "source_read_rows env req (fst w) = (r, fst w')" "snd w' = snd w" by (simp_all add: phase_env_def on_fst_run)
  with source_read [OF this(1)] show ?case by simp
next
  case (5 pk w r2 w')
  then have "source_read_row_by_primary_key env pk (fst w) = (r2, fst w')" "snd w' = snd w" by (simp_all add: phase_env_def on_fst_run)
  with source_exact [OF this(1)] show ?case by simp
next
  case (6 w u w')
  then have "set_autocommit env False (fst w) = (u, fst w')" "snd w' = snd w" by (simp_all add: phase_env_def on_fst_run)
  with autocommit [OF this(1)] show ?case by simp
next
  case (7 db t w u w')
  then have "lock_table_write env db t (fst w) = (u, fst w')" "snd w' = snd w" by (simp_all add: phase_env_def on_fst_run)
  with lock [OF this(1)] show ?case by simp
next
  case (8 req w r w')
  then have "target_read_rows env req (fst w) = (r, fst w')" "snd w' = snd w" by (simp_all add: phase_env_def on_fst_run)
  with target_read [OF this(1)] show ?case by simp
next
  case (9 ks w u w')
  then have "delete_rows env ks (fst w) = (u, fst w')" "snd w' = snd w" by (simp_all add: phase_env_def on_fst_run)
  with delete [OF this(1)] show ?case by simp
next
  case (10 rows w m w')
  then have "update_rows env rows (fst w) = (m, fst w')" "snd w' = snd w" by (simp_all add: phase_env_def on_fst_run)
  with update [OF this(1) 10(2)] 10(3) show ?case by simp
next
  case (11 rows w m w')
  then have "insert_rows env rows (fst w) = (m, fst w')" "snd w' = snd w" by (simp_all add: phase_env_def on_fst_run)
  with insert [OF this(1) 11(2)] 11(3) show ?case by simp
next
  case (12 failure w confs w')
  then have "inspect_unique_owner_conflicts env failure (fst w) = (confs, fst w')" "snd w' = snd w" by (simp_all add: phase_env_def on_fst_run)
  with inspect [OF this(1)] show ?case by simp
next
  case (13 conflict action w u w')
  then have "reconcile_unique_owner env conflict action (fst w) = (u, fst w')" "snd w' = snd w" by (simp_all add: phase_env_def on_fst_run)
  with reconcile [OF this(1) 13(2)] show ?case by simp
next
  case (14 rows w u w')
  then have "verify_rows env rows (fst w) = (u, fst w')" "snd w' = snd w" by (simp_all add: phase_env_def on_fst_run)
  with verify [OF this(1)] show ?case by simp
next
  case (15 w u w')
  then have "commit env (fst w) = (u, fst w')" "snd w' = snd w" by (simp_all add: phase_env_def on_fst_run)
  with commit_law [OF this(1)] show ?case by simp
next
  case (16 w u w')
  then have "rollback env (fst w) = (u, fst w')" "snd w' = snd w" by (simp_all add: phase_env_def on_fst_run)
  with rollback_law [OF this(1)] show ?case by simp
next
  case (17 w u w')
  then have "unlock_tables env (fst w) = (u, fst w')" "snd w' = snd w" by (simp_all add: phase_env_def on_fst_run)
  with unlock_law [OF this(1)] show ?case by simp
next
  case (18 run t w p w')
  then obtain q where q: "phase_store_load legacy conn codec phase_table phase run t (snd w) = (q, snd w')"
      "fst w' = fst w" "p = map_err render q"
    by (auto simp: phase_env_def map_err_op_def on_snd_run split: prod.splits)
  with phase_load_run [OF q(1)] show ?case by simp
next
  case (19 progress w u w')
  then obtain q where q: "phase_store_save legacy conn codec phase_table phase progress (snd w) = (q, snd w')"
      "fst w' = fst w" "u = map_err render q"
    by (auto simp: phase_env_def map_err_op_def on_snd_run split: prod.splits)
  have "u \<noteq> Inr () \<longleftrightarrow> q \<noteq> Inr ()" using q(3) by simp
  with phase_save_run [OF q(1)] q(2) show ?case by metis
qed

end

end
