(* ===== verification/Phased_Run.thy ===== *)
theory Phased_Run
  imports Phase_Backend Sync_Adapter_Correct Dependency_Order "HOL-Library.Multiset"
begin

text \<open>
  The row stage of a run (\<open>src/src/sync/phased_run.rs\<close>, \<open>src/src/sync/run.rs\<close>): the selected
  tables go through the three mutation phases, inserts and updates parent-first, deletes
  child-first, in batches of bounded parallelism, and the reports of the phases are added up.
  The workers of a batch run on threads; here a worker is atomic and \<open>schedule\<close> is the order in
  which the workers of a batch complete, an arbitrary permutation. A worker that panics is
  \<open>None\<close>.
\<close>

section \<open>Workers\<close>

datatype table_error = WorkerPanicked | RunFailed string

datatype row_stage_error =
    RowStageEmpty
  | RowStageParallelism
  | TableFailed string table_error
  | PlanParentFirst "dependency_order_error fault"
  | PlanChildFirst "dependency_order_error fault"
  | PlanDiverges
  | PhaseConnect string
  | CreatePhaseTable string string
  | LoadRowProgress string
  | SaveRowReport string
  | MissingPending string

type_synonym 'w table_worker = "sync_table \<Rightarrow> 'w \<Rightarrow> (string + sync_chunk_progress) option \<times> 'w"

record table_worker_result =
  wr_completion_order :: int
  wr_table :: string
  wr_progress :: "table_error + sync_chunk_progress"

definition usize_limit :: int where
  "usize_limit = 2 ^ 64 - 1"

definition join_table_worker ::
  "string \<Rightarrow> int \<Rightarrow> (string + sync_chunk_progress) option \<Rightarrow> table_worker_result"
where
  "join_table_worker table order outcome =
     (case outcome of
        Some progress \<Rightarrow>
          \<lparr>wr_completion_order = order, wr_table = table, wr_progress = map_err RunFailed progress\<rparr>
      | None \<Rightarrow> \<lparr>wr_completion_order = usize_limit, wr_table = table, wr_progress = Inl WorkerPanicked\<rparr>)"

text \<open>The workers in completion order; only a worker that returns takes a completion number.\<close>

fun run_workers :: "'w table_worker \<Rightarrow> sync_table list \<Rightarrow> int \<Rightarrow> 'w \<Rightarrow> table_worker_result list \<times> 'w" where
  "run_workers run_table [] order w = ([], w)"
| "run_workers run_table (table # tables) order w =
     (case run_table table w of (outcome, w1) \<Rightarrow>
      case run_workers run_table tables (if outcome = None then order else order + 1) w1 of (results, w2) \<Rightarrow>
        (join_table_worker (st_name table) order outcome # results, w2))"

definition run_table_batch ::
  "'w table_worker \<Rightarrow> (sync_table list \<Rightarrow> sync_table list) \<Rightarrow> sync_table list \<Rightarrow> 'w \<Rightarrow> table_worker_result list \<times> 'w"
where
  "run_table_batch run_table schedule tables w =
     (case run_workers run_table (schedule tables) 0 w of (results, w') \<Rightarrow>
        (List.map_filter (\<lambda>table. find (\<lambda>result. wr_table result = st_name table) results) tables, w'))"

definition validate_row_stage_execution :: "nat \<Rightarrow> sync_table list \<Rightarrow> row_stage_error + unit" where
  "validate_row_stage_execution parallelism tables =
     (if tables = [] then Inl RowStageEmpty
      else if parallelism = 0 then Inl RowStageParallelism
      else Inr ())"

definition batch_reports :: "table_worker_result list \<Rightarrow> row_stage_error + sync_chunk_progress list" where
  "batch_reports results = collect_res (\<lambda>result. map_err (TableFailed (wr_table result)) (wr_progress result)) results"

fun run_batches ::
  "'w table_worker \<Rightarrow> (sync_table list \<Rightarrow> sync_table list) \<Rightarrow> sync_table list list
     \<Rightarrow> ('w, row_stage_error, sync_chunk_progress list) op"
where
  "run_batches run_table schedule [] w = (Inr [], w)"
| "run_batches run_table schedule (batch # batches) w =
     (case run_table_batch run_table schedule batch w of (results, w1) \<Rightarrow>
      case batch_reports (sort_key wr_completion_order results) of
        Inl e \<Rightarrow> (Inl e, w1)
      | Inr reports \<Rightarrow>
          (case run_batches run_table schedule batches w1 of
             (Inl e, w2) \<Rightarrow> (Inl e, w2)
           | (Inr rest, w2) \<Rightarrow> (Inr (reports @ rest), w2)))"

definition run_sync_tables_bounded ::
  "nat \<Rightarrow> (sync_table list \<Rightarrow> sync_table list) \<Rightarrow> 'w table_worker \<Rightarrow> sync_table list
     \<Rightarrow> ('w, row_stage_error, sync_chunk_progress list) op"
where
  "run_sync_tables_bounded parallelism schedule run_table tables =
     bind_op (lift_op (validate_row_stage_execution parallelism tables)) (\<lambda>_.
     bind_op (run_batches run_table schedule (chunks_of parallelism (sort_key st_name tables))) (\<lambda>reports.
       ret_op (sort_key cp_table reports)))"

section \<open>Phases\<close>

record row_work =
  rw_completed :: "sync_chunk_progress list"
  rw_pending :: "(string \<times> sync_table) list"

fun load_row_work ::
  "(string \<Rightarrow> string \<Rightarrow> ('w, string, sync_chunk_progress option) op) \<Rightarrow> string \<Rightarrow> sync_table list \<Rightarrow> row_work
     \<Rightarrow> ('w, row_stage_error, row_work) op"
where
  "load_row_work load run_id [] work = ret_op work"
| "load_row_work load run_id (table # tables) work =
     bind_op (map_err_op LoadRowProgress (load run_id (st_name table))) (\<lambda>found.
       load_row_work load run_id tables
         (case found of
            Some progress \<Rightarrow>
              if cp_complete progress then work\<lparr>rw_completed := rw_completed work @ [progress]\<rparr>
              else work\<lparr>rw_pending := btm_insert (st_name table) table (rw_pending work)\<rparr>
          | None \<Rightarrow> work\<lparr>rw_pending := btm_insert (st_name table) table (rw_pending work)\<rparr>))"

definition add_report :: "sync_chunk_progress \<Rightarrow> sync_chunk_progress \<Rightarrow> sync_chunk_progress" where
  "add_report tot report =
     tot\<lparr>cp_chunks := cp_chunks tot + cp_chunks report,
       cp_rows_scanned := cp_rows_scanned tot + cp_rows_scanned report,
       cp_inserts := cp_inserts tot + cp_inserts report,
       cp_updates := cp_updates tot + cp_updates report,
       cp_deletes := cp_deletes tot + cp_deletes report,
       cp_last_primary_key := cp_last_primary_key report\<rparr>"

fun accumulate_phase_reports ::
  "(string \<times> sync_chunk_progress) list \<Rightarrow> sync_chunk_progress list \<Rightarrow> (string \<times> sync_chunk_progress) list"
where
  "accumulate_phase_reports totals [] = totals"
| "accumulate_phase_reports totals (report # reports) =
     accumulate_phase_reports
       (case map_of totals (cp_table report) of
          Some tot \<Rightarrow> btm_insert (cp_table report) (add_report tot report) totals
        | None \<Rightarrow> btm_insert (cp_table report) report totals) reports"

type_synonym 'w phase_worker = "sync_mutation_phase \<Rightarrow> 'w table_worker"

fun run_phase_batches ::
  "nat \<Rightarrow> (sync_table list \<Rightarrow> sync_table list) \<Rightarrow> 'w phase_worker \<Rightarrow> (string \<times> sync_table) list
     \<Rightarrow> (sync_mutation_phase \<times> string list) list \<Rightarrow> (string \<times> sync_chunk_progress) list
     \<Rightarrow> ('w, row_stage_error, (string \<times> sync_chunk_progress) list) op"
where
  "run_phase_batches parallelism schedule run_table_phase pending [] totals = ret_op totals"
| "run_phase_batches parallelism schedule run_table_phase pending ((phase, batch) # batches) totals =
     bind_op (lift_op (collect_res (\<lambda>name. ok_or (MissingPending name) (map_of pending name)) batch)) (\<lambda>selected.
     bind_op (run_sync_tables_bounded parallelism schedule (run_table_phase phase) selected) (\<lambda>reports.
       run_phase_batches parallelism schedule run_table_phase pending batches (accumulate_phase_reports totals reports)))"

definition lift_plan ::
  "(dependency_order_error fault \<Rightarrow> row_stage_error) \<Rightarrow> (dependency_order_error, string list list) res option
     \<Rightarrow> row_stage_error + string list list"
where
  "lift_plan tag plan = (case plan of None \<Rightarrow> Inl PlanDiverges | Some r \<Rightarrow> map_err tag r)"

definition run_pending_phases ::
  "nat \<Rightarrow> (sync_table list \<Rightarrow> sync_table list) \<Rightarrow> ('w, string, unit) op \<Rightarrow> (string \<Rightarrow> ('w, string, unit) op) \<Rightarrow> string
     \<Rightarrow> schema_inventory \<Rightarrow> (string \<Rightarrow> 'w phase_worker) \<Rightarrow> (string \<times> sync_table) list
     \<Rightarrow> ('w, row_stage_error, (string \<times> sync_chunk_progress) list) op"
where
  "run_pending_phases parallelism schedule connect create_table progress_table inventory run_table_phase pending =
     (let names = map fst pending; phase_table = progress_table @ ''_phases'' in
      bind_op (lift_op (lift_plan PlanParentFirst
        (plan_dependency_batches names (si_foreign_keys inventory) (si_schema inventory) ParentFirst parallelism))) (\<lambda>inserts.
      bind_op (lift_op (lift_plan PlanChildFirst
        (plan_dependency_batches names (si_foreign_keys inventory) (si_schema inventory) ChildFirst parallelism))) (\<lambda>deletes.
      bind_op (map_err_op PhaseConnect connect) (\<lambda>_.
      bind_op (map_err_op (CreatePhaseTable phase_table)
                (create_table (build_create_sync_phase_progress_table_sql phase_table))) (\<lambda>_.
        run_phase_batches parallelism schedule (run_table_phase phase_table) pending
          (map (Pair InsertMissing) inserts @ map (Pair UpdateDivergent) inserts @ map (Pair DeleteExtras) deletes) [])))))"

fun save_reports ::
  "(sync_chunk_progress \<Rightarrow> ('w, string, unit) op) \<Rightarrow> sync_chunk_progress list \<Rightarrow> sync_chunk_progress list
     \<Rightarrow> ('w, row_stage_error, sync_chunk_progress list) op"
where
  "save_reports save [] completed = ret_op completed"
| "save_reports save (report # reports) completed =
     bind_op (map_err_op SaveRowReport (save report)) (\<lambda>_. save_reports save reports (completed @ [report]))"

definition run_mysql_sync_phases ::
  "sync_config \<Rightarrow> sync_run_identity \<Rightarrow> sync_table list \<Rightarrow> schema_inventory \<Rightarrow> (sync_table list \<Rightarrow> sync_table list)
     \<Rightarrow> ('w, string, unit) op \<Rightarrow> (string \<Rightarrow> ('w, string, unit) op) \<Rightarrow> (string \<Rightarrow> 'w phase_worker)
     \<Rightarrow> (string \<Rightarrow> string \<Rightarrow> ('w, string, sync_chunk_progress option) op)
     \<Rightarrow> (sync_chunk_progress \<Rightarrow> ('w, string, unit) op) \<Rightarrow> ('w, row_stage_error, sync_chunk_progress list) op"
where
  "run_mysql_sync_phases config identity tables inventory schedule connect create_table run_table_phase load save =
     bind_op (load_row_work load (id_run_id identity) tables \<lparr>rw_completed = [], rw_pending = []\<rparr>) (\<lambda>work.
     bind_op
       (if rw_pending work = [] then ret_op (rw_completed work)
        else
          bind_op (run_pending_phases (sc_parallelism config) schedule connect create_table (sc_progress_table config)
                    inventory run_table_phase (rw_pending work)) (\<lambda>totals.
            save_reports save (map snd totals) (rw_completed work))) (\<lambda>completed.
       ret_op (sort_key cp_table completed)))"

section \<open>One worker\<close>

text \<open>\<open>run_table_phase\<close>: open the connections of the worker (\<open>opened\<close> yields the trait
  environment), then chunks until the phase is complete; when the worker returns its connections
  are dropped (\<open>dropped\<close>).\<close>

definition phase_chunk_config :: "sync_config \<Rightarrow> sync_run_identity \<Rightarrow> sync_table \<Rightarrow> sync_chunk_config" where
  "phase_chunk_config config identity table =
     \<lparr>cc_run_id = id_run_id identity, cc_target_database = tc_database (sc_target config), cc_table = table,
      cc_chunk_size = sc_chunk_size config\<rparr>"

definition run_table_phase ::
  "nat \<Rightarrow> nat \<Rightarrow> (sync_chunk_error \<Rightarrow> string) \<Rightarrow> sync_config \<Rightarrow> sync_run_identity
     \<Rightarrow> (string \<Rightarrow> sync_table \<Rightarrow> sync_mutation_phase \<Rightarrow> ('w, string, 'w sync_env) op) \<Rightarrow> (sync_table \<Rightarrow> 'w \<Rightarrow> 'w)
     \<Rightarrow> string \<Rightarrow> 'w phase_worker"
where
  "run_table_phase chunks fuel render config identity opened dropped phase_table phase table w =
     (case bind_op (opened phase_table table phase) (\<lambda>env.
        map_err_op render (sync_table_to_completion chunks fuel (phase_chunk_config config identity table) env phase)) w of
        (r, w') \<Rightarrow> (Some r, dropped table w'))"

text \<open>A state per table, for workers that work on tables of their own.\<close>

definition on_table :: "'w phase_worker \<Rightarrow> (string \<Rightarrow> 'w) phase_worker" where
  "on_table run phase table ws =
     (case run phase table (ws (st_name table)) of (x, w') \<Rightarrow> (x, ws(st_name table := w')))"

section \<open>Sequences of worker runs\<close>

type_synonym worker_step = "sync_mutation_phase \<times> sync_table \<times> (string + sync_chunk_progress) option"

inductive runs :: "'w phase_worker \<Rightarrow> 'w \<Rightarrow> worker_step list \<Rightarrow> 'w \<Rightarrow> bool" for run where
  runs_Nil: "runs run w [] w"
| runs_Cons: "run phase table w = (outcome, w1) \<Longrightarrow> runs run w1 steps w2 \<Longrightarrow>
    runs run w ((phase, table, outcome) # steps) w2"

inductive_cases runs_ConsE: "runs run w (step # steps) w'"
inductive_cases runs_NilE: "runs run w [] w'"

abbreviation step_phase :: "worker_step \<Rightarrow> sync_mutation_phase" where "step_phase s \<equiv> fst s"
abbreviation step_table :: "worker_step \<Rightarrow> sync_table" where "step_table s \<equiv> fst (snd s)"
abbreviation step_outcome :: "worker_step \<Rightarrow> (string + sync_chunk_progress) option" where "step_outcome s \<equiv> snd (snd s)"

definition joined :: "(string + sync_chunk_progress) option \<Rightarrow> table_error + sync_chunk_progress" where
  "joined outcome = (case outcome of None \<Rightarrow> Inl WorkerPanicked | Some r \<Rightarrow> map_err RunFailed r)"

definition schedule_ok :: "(sync_table list \<Rightarrow> sync_table list) \<Rightarrow> bool" where
  "schedule_ok schedule \<longleftrightarrow> (\<forall>tables. mset (schedule tables) = mset tables)"

text \<open>A batch of a phase that ran: every table of the batch once, in that phase, successfully.\<close>

definition batch_ran :: "sync_mutation_phase \<times> string list \<Rightarrow> worker_step list \<Rightarrow> bool" where
  "batch_ran b steps \<longleftrightarrow> mset (map (\<lambda>s. st_name (step_table s)) steps) = mset (snd b) \<and>
     (\<forall>s \<in> set steps. step_phase s = fst b \<and> (\<exists>p. step_outcome s = Some (Inr p)))"

lemma runs_append: "runs run w xs w1 \<Longrightarrow> runs run w1 ys w2 \<Longrightarrow> runs run w (xs @ ys) w2"
  by (induction rule: runs.induct) (auto intro: runs_Cons)

lemma joined_Inr [simp]: "joined x = Inr p \<longleftrightarrow> x = Some (Inr p)"
  by (auto simp: joined_def split: option.splits)

lemma join_worker [simp]:
  "wr_table (join_table_worker t n x) = t" "wr_progress (join_table_worker t n x) = joined x"
  by (auto simp: join_table_worker_def joined_def split: option.splits)

lemma run_workers_runs:
  "run_workers (run phase) tables n w = (results, w') \<Longrightarrow>
   \<exists>steps. runs run w steps w' \<and> map step_table steps = tables \<and> (\<forall>s \<in> set steps. step_phase s = phase) \<and>
     map (\<lambda>r. (wr_table r, wr_progress r)) results = map (\<lambda>s. (st_name (step_table s), joined (step_outcome s))) steps"
proof (induction tables arbitrary: n w results)
  case Nil
  then show ?case by (auto intro: exI [of _ "[]"] runs_Nil)
next
  case (Cons t tables)
  obtain x w1 where x: "run phase t w = (x, w1)" by fastforce
  obtain rs where rs: "run_workers (run phase) tables (if x = None then n else n + 1) w1 = (rs, w')"
      "results = join_table_worker (st_name t) n x # rs"
    using Cons.prems x by (auto split: prod.splits)
  from Cons.IH [OF rs(1)] obtain steps where "runs run w1 steps w'" "map step_table steps = tables"
      "\<forall>s \<in> set steps. step_phase s = phase"
      "map (\<lambda>r. (wr_table r, wr_progress r)) rs = map (\<lambda>s. (st_name (step_table s), joined (step_outcome s))) steps"
    by blast
  with x rs(2) show ?case by (intro exI [of _ "(phase, t, x) # steps"]) (auto intro: runs_Cons)
qed

lemma find_by_name:
  assumes "distinct (map f rs)" "set (map f rs) = set (map g ts)" "distinct (map g ts)"
  shows "mset (List.map_filter (\<lambda>t. find (\<lambda>r. f r = g t) rs) ts) = mset rs"
proof -
  let ?m = "List.map_filter (\<lambda>t. find (\<lambda>r. f r = g t) rs) ts"
  have found: "\<exists>r. find (\<lambda>r. f r = g t) rs = Some r \<and> f r = g t \<and> r \<in> set rs" if "t \<in> set ts" for t
  proof -
    have "g t \<in> set (map f rs)" using assms(2) that by simp
    then obtain r where "r \<in> set rs" "f r = g t" by (metis imageE list.set_map)
    then show ?thesis using find_unique [OF assms(1)] by auto
  qed
  have names: "map f (List.map_filter (\<lambda>t. find (\<lambda>r. f r = g t) rs) us) = map g us" if "set us \<subseteq> set ts" for us
    using that
  proof (induction us)
    case (Cons u us)
    with found [of u] show ?case by (auto simp: List.map_filter_simps)
  qed (simp add: List.map_filter_simps)
  have "distinct ?m" using names [of ts] assms(3) by (metis distinct_map order_refl)
  moreover have "set ?m \<subseteq> set rs"
    using found by (force simp: List.map_filter_def)
  moreover have "set rs \<subseteq> set ?m"
  proof
    fix r assume r: "r \<in> set rs"
    then have "f r \<in> set (map f ?m)" using names [of ts] assms(2) by auto
    then obtain r' where "r' \<in> set ?m" "f r' = f r" by auto
    moreover have "inj_on f (set rs)" using assms(1) by (simp add: distinct_map)
    moreover have "r' \<in> set rs" using \<open>r' \<in> set ?m\<close> \<open>set ?m \<subseteq> set rs\<close> by (rule subsetD [rotated])
    ultimately have "r' = r" using r by (simp add: inj_on_eq_iff)
    then show "r \<in> set ?m" using \<open>r' \<in> set ?m\<close> by simp
  qed
  ultimately have "distinct ?m" "set ?m = set rs" by auto
  then show ?thesis using assms(1) by (simp add: distinct_map set_eq_iff_mset_eq_distinct [symmetric])
qed

lemma run_batch_runs:
  assumes run: "run_table_batch (run phase) schedule batch w = (results, w')"
    and ok: "schedule_ok schedule" "distinct (map st_name batch)"
  shows "\<exists>steps. runs run w steps w' \<and> mset (map step_table steps) = mset batch \<and> (\<forall>s \<in> set steps. step_phase s = phase) \<and>
    mset (map (\<lambda>r. (wr_table r, wr_progress r)) results) =
      mset (map (\<lambda>s. (st_name (step_table s), joined (step_outcome s))) steps)"
proof -
  obtain rs where rs: "run_workers (run phase) (schedule batch) 0 w = (rs, w')"
    and res: "results = List.map_filter (\<lambda>table. find (\<lambda>r. wr_table r = st_name table) rs) batch"
    using run by (auto simp: run_table_batch_def split: prod.splits)
  from run_workers_runs [of run phase, OF rs] obtain steps where st: "runs run w steps w'" "map step_table steps = schedule batch"
      "\<forall>s \<in> set steps. step_phase s = phase"
      "map (\<lambda>r. (wr_table r, wr_progress r)) rs = map (\<lambda>s. (st_name (step_table s), joined (step_outcome s))) steps"
    by blast
  have names: "map wr_table rs = map st_name (schedule batch)"
  proof -
    have "map wr_table rs = map (\<lambda>s. st_name (step_table s)) steps"
      using arg_cong [OF st(4), of "map fst"] by (simp add: comp_def)
    also have "\<dots> = map st_name (map step_table steps)" by simp
    finally show ?thesis unfolding st(2) .
  qed
  have perm: "mset (map st_name (schedule batch)) = mset (map st_name batch)"
    using ok(1) by (simp add: schedule_ok_def)
  have "mset results = mset rs"
    unfolding res
  proof (rule find_by_name)
    show "distinct (map wr_table rs)" unfolding names using perm ok(2) by (metis mset_eq_imp_distinct_iff)
    show "set (map wr_table rs) = set (map st_name batch)" unfolding names using perm by (rule mset_eq_setD)
  qed (rule ok(2))
  then have "mset (map (\<lambda>r. (wr_table r, wr_progress r)) results) = mset (map (\<lambda>r. (wr_table r, wr_progress r)) rs)"
    by simp
  then show ?thesis using st ok(1) by (intro exI [of _ steps]) (simp add: schedule_ok_def)
qed

lemma batch_reports_runs:
  assumes "mset (map (\<lambda>r. (wr_table r, wr_progress r)) results) =
      mset (map (\<lambda>s. (st_name (step_table s), joined (step_outcome s))) steps)"
    and "batch_reports (sort_key wr_completion_order results) = x"
  shows "(\<forall>reports. x = Inr reports \<longrightarrow> mset (map Inr reports) = mset (map (\<lambda>s. joined (step_outcome s)) steps)) \<and>
    (\<forall>e. x = Inl e \<longrightarrow> (\<exists>s \<in> set steps. \<exists>d. e = TableFailed (st_name (step_table s)) d \<and> joined (step_outcome s) = Inl d))"
proof (intro conjI allI impI)
  fix reports assume "x = Inr reports"
  with assms(2) have all: "list_all2 (\<lambda>r p. wr_progress r = Inr p) (sort_key wr_completion_order results) reports"
    by (simp add: batch_reports_def collect_res_Inr_iff)
  then have "map Inr reports = map wr_progress (sort_key wr_completion_order results)"
    by (induction rule: list_all2_induct) simp_all
  then have "mset (map Inr reports) = image_mset wr_progress (mset results)" by simp
  also have "\<dots> = image_mset snd (mset (map (\<lambda>r. (wr_table r, wr_progress r)) results))"
    by (simp add: multiset.map_comp comp_def)
  also have "\<dots> = mset (map (\<lambda>s. joined (step_outcome s)) steps)"
    unfolding assms(1) by (simp add: multiset.map_comp comp_def)
  finally show "mset (map Inr reports) = mset (map (\<lambda>s. joined (step_outcome s)) steps)" .
next
  fix e assume "x = Inl e"
  with assms(2) obtain r d where r: "r \<in> set results" "e = TableFailed (wr_table r) d" "wr_progress r = Inl d"
    by (auto simp: batch_reports_def map_err_def split: sum.splits dest!: collect_res_Inl_D)
  then have "(wr_table r, Inl d) \<in># mset (map (\<lambda>r. (wr_table r, wr_progress r)) results)" by force
  then have "(wr_table r, Inl d) \<in> set (map (\<lambda>s. (st_name (step_table s), joined (step_outcome s))) steps)"
    unfolding assms(1) by simp
  then show "\<exists>s \<in> set steps. \<exists>d. e = TableFailed (st_name (step_table s)) d \<and> joined (step_outcome s) = Inl d"
    using r(2) by auto
qed

definition ran_tables ::
  "'w phase_worker \<Rightarrow> sync_mutation_phase \<Rightarrow> 'w \<Rightarrow> sync_table list \<Rightarrow> row_stage_error + sync_chunk_progress list
     \<Rightarrow> 'w \<Rightarrow> worker_step list \<Rightarrow> bool"
where
  "ran_tables run phase w tables r w' steps \<longleftrightarrow>
     runs run w steps w' \<and> (\<forall>s \<in> set steps. step_phase s = phase \<and> step_table s \<in> set tables) \<and>
     (\<forall>reports. r = Inr reports \<longrightarrow> mset (map step_table steps) = mset tables \<and>
        mset (map Inr reports) = mset (map (\<lambda>s. joined (step_outcome s)) steps)) \<and>
     (\<forall>e. r = Inl e \<longrightarrow> (\<exists>s \<in> set steps. \<exists>d. e = TableFailed (st_name (step_table s)) d \<and> joined (step_outcome s) = Inl d))"

lemma run_batches_runs:
  assumes "schedule_ok schedule" "distinct (map st_name (concat batches))"
    and "run_batches (run phase) schedule batches w = (r, w')"
  shows "\<exists>steps. ran_tables run phase w (concat batches) r w' steps"
  using assms(2,3)
proof (induction batches arbitrary: w r w')
  case Nil
  then show ?case by (intro exI [of _ "[]"]) (auto simp: ran_tables_def intro: runs_Nil)
next
  case (Cons batch batches)
  obtain results w1 where b: "run_table_batch (run phase) schedule batch w = (results, w1)" by fastforce
  have d: "distinct (map st_name batch)" "distinct (map st_name (concat batches))" using Cons.prems(1) by simp_all
  from run_batch_runs [of run, OF b assms(1) d(1)] obtain steps where st: "runs run w steps w1"
      "mset (map step_table steps) = mset batch" "\<forall>s \<in> set steps. step_phase s = phase"
      "mset (map (\<lambda>r. (wr_table r, wr_progress r)) results) =
        mset (map (\<lambda>s. (st_name (step_table s), joined (step_outcome s))) steps)" by blast
  have tabs: "step_table ` set steps = set batch" using mset_eq_setD [OF st(2)] by simp
  show ?case
  proof (cases "batch_reports (sort_key wr_completion_order results)")
    case (Inl e)
    have r: "r = Inl e" "w' = w1" using Cons.prems(2) b Inl by simp_all
    from batch_reports_runs [OF st(4) Inl] r st(1,3) tabs show ?thesis
      by (intro exI [of _ steps]) (simp add: ran_tables_def, blast)
  next
    case (Inr reports)
    note R = batch_reports_runs [OF st(4) Inr]
    obtain q w2 where q: "run_batches (run phase) schedule batches w1 = (q, w2)" by fastforce
    from Cons.IH [OF d(2) q] obtain more where more: "ran_tables run phase w1 (concat batches) q w2 more" by blast
    have r: "w' = w2" "r = (case q of Inl e \<Rightarrow> Inl e | Inr rest \<Rightarrow> Inr (reports @ rest))"
      using Cons.prems(2) b Inr q by (auto split: sum.splits)
    have all: "runs run w (steps @ more) w'" using runs_append [OF st(1)] more r(1) by (simp add: ran_tables_def)
    have within: "\<forall>s \<in> set (steps @ more). step_phase s = phase \<and> step_table s \<in> set (concat (batch # batches))"
      using st(3) tabs more unfolding ran_tables_def by auto
    show ?thesis
    proof (cases q)
      case q': (Inl e)
      then have "\<exists>s \<in> set more. \<exists>d. e = TableFailed (st_name (step_table s)) d \<and> joined (step_outcome s) = Inl d"
        using more by (simp add: ran_tables_def)
      then show ?thesis using all within r(2) q' unfolding ran_tables_def
        by (intro exI [of _ "steps @ more"]) (simp add: bex_Un)
    next
      case q': (Inr rest)
      then have "mset (map step_table more) = mset (concat batches)"
        "mset (map Inr rest) = mset (map (\<lambda>s. joined (step_outcome s)) more)"
        using more by (simp_all add: ran_tables_def)
      moreover have "mset (map Inr reports) = mset (map (\<lambda>s. joined (step_outcome s)) steps)" using R by simp
      ultimately show ?thesis using all within r(2) q' st(2) unfolding ran_tables_def
        by (intro exI [of _ "steps @ more"]) simp
    qed
  qed
qed

lemma run_bounded_runs:
  assumes "schedule_ok schedule" "distinct (map st_name tables)"
    and "run_sync_tables_bounded par schedule (run phase) tables w = (r, w')"
  shows "(r = Inl RowStageEmpty \<and> w' = w) \<or> (r = Inl RowStageParallelism \<and> w' = w) \<or>
    (\<exists>steps. ran_tables run phase w tables r w' steps)"
proof (cases "tables = [] \<or> par = 0")
  case True
  then show ?thesis using assms(3)
    by (auto simp: run_sync_tables_bounded_def validate_row_stage_execution_def bind_op_def lift_op_def split: if_splits)
next
  case False
  then have ok: "validate_row_stage_execution par tables = Inr ()" and par: "0 < par"
    by (simp_all add: validate_row_stage_execution_def)
  obtain q where q: "run_batches (run phase) schedule (chunks_of par (sort_key st_name tables)) w = (q, w')"
    "r = (case q of Inl e \<Rightarrow> Inl e | Inr reports \<Rightarrow> Inr (sort_key cp_table reports))"
    using assms(3) ok
    by (auto simp: run_sync_tables_bounded_def bind_op_def lift_op_def ret_op_def split: prod.splits sum.splits)
  have "mset (map st_name (sort_key st_name tables)) = mset (map st_name tables)" by simp
  then have "distinct (map st_name (concat (chunks_of par (sort_key st_name tables))))"
    using assms(2) unfolding concat_chunks_of [OF par] by (metis mset_eq_imp_distinct_iff)
  from run_batches_runs [of _ _ run, OF assms(1) this q(1)] obtain steps
    where "ran_tables run phase w (sort_key st_name tables) q w' steps"
    unfolding concat_chunks_of [OF par] by blast
  then have "ran_tables run phase w tables r w' steps" using q(2)
    by (auto simp: ran_tables_def split: sum.splits)
  then show ?thesis by blast
qed

definition pending_wf :: "(string \<times> sync_table) list \<Rightarrow> bool" where
  "pending_wf pending \<longleftrightarrow> btm_wf pending \<and> (\<forall>(name, table) \<in> set pending. st_name table = name)"

lemma selected_names:
  assumes "pending_wf pending"
    and "collect_res (\<lambda>name. ok_or (MissingPending name) (map_of pending name)) batch = Inr selected"
  shows "map st_name selected = batch \<and> set selected \<subseteq> snd ` set pending"
proof -
  have "list_all2 (\<lambda>name t. map_of pending name = Some t) batch selected"
    using assms(2) by (simp add: collect_res_Inr_iff)
  moreover have "st_name t = n \<and> t \<in> snd ` set pending" if "map_of pending n = Some t" for n t
    using assms(1) map_of_SomeD [OF that] by (force simp: pending_wf_def)
  ultimately show ?thesis by (induction rule: list_all2_induct) auto
qed

lemma ran_batch: "ran_tables run phase w tables (Inr reports) w' steps \<Longrightarrow> batch_ran (phase, map st_name tables) steps"
proof -
  assume ran: "ran_tables run phase w tables (Inr reports) w' steps"
  then have tabs: "mset (map step_table steps) = mset tables"
    and reps: "mset (map Inr reports) = mset (map (\<lambda>s. joined (step_outcome s)) steps)"
    by (simp_all add: ran_tables_def)
  from arg_cong [OF tabs, of "image_mset st_name"]
  have "mset (map (\<lambda>s. st_name (step_table s)) steps) = mset (map st_name tables)"
    by (simp add: multiset.map_comp comp_def)
  moreover have "\<exists>p. step_outcome s = Some (Inr p)" if "s \<in> set steps" for s
  proof -
    have "joined (step_outcome s) \<in> set (map Inr reports)"
      using that mset_eq_setD [OF reps] by auto
    then show ?thesis by auto
  qed
  ultimately show ?thesis using ran by (simp add: batch_ran_def ran_tables_def)
qed

lemma run_phase_batches_runs:
  assumes "schedule_ok schedule" "pending_wf pending"
    and "\<forall>b \<in> set batches. distinct (snd b)"
    and "run_phase_batches par schedule run pending batches totals w = (r, w')"
  shows "\<exists>segs. runs run w (concat segs) w' \<and>
    (\<forall>s \<in> set (concat segs). step_table s \<in> snd ` set pending \<and> step_phase s \<in> fst ` set batches) \<and>
    (\<forall>res. r = Inr res \<longrightarrow> list_all2 batch_ran batches segs)"
  using assms(3,4)
proof (induction batches arbitrary: totals w r w')
  case Nil
  then show ?case by (intro exI [of _ "[]"]) (auto simp: ret_op_def intro: runs_Nil)
next
  case (Cons b batches)
  obtain phase batch where b: "b = (phase, batch)" by fastforce
  show ?case
  proof (cases "collect_res (\<lambda>name. ok_or (MissingPending name) (map_of pending name)) batch")
    case (Inl e)
    then have "r = Inl e" "w' = w" using Cons.prems(2) by (auto simp: b bind_op_def lift_op_def)
    then show ?thesis by (intro exI [of _ "[]"]) (auto intro: runs_Nil)
  next
    case (Inr selected)
    note N = selected_names [OF assms(2) Inr]
    then have d: "distinct (map st_name selected)" using Cons.prems(1) b by simp
    obtain q w1 where q: "run_sync_tables_bounded par schedule (run phase) selected w = (q, w1)" by fastforce
    note B = run_bounded_runs [of _ _ _ run, OF assms(1) d q]
    show ?thesis
    proof (cases q)
      case q': (Inl e)
      then have r: "r = Inl e" "w' = w1" using Cons.prems(2) Inr q by (auto simp: b bind_op_def lift_op_def)
      from B consider "w1 = w" | steps where "ran_tables run phase w selected (Inl e) w1 steps" using q' by auto
      then show ?thesis
      proof cases
        case 1
        then show ?thesis using r by (intro exI [of _ "[]"]) (auto intro: runs_Nil)
      next
        case 2
        then show ?thesis using r N by (intro exI [of _ "[steps]"]) (auto simp: ran_tables_def b)
      qed
    next
      case q': (Inr reports)
      with B obtain steps where st: "ran_tables run phase w selected (Inr reports) w1 steps" by auto
      from Cons.prems q q' Inr have rest:
        "run_phase_batches par schedule run pending batches (accumulate_phase_reports totals reports) w1 = (r, w')"
        by (auto simp: b bind_op_def lift_op_def)
      from Cons.IH [OF _ rest] Cons.prems(1) obtain segs where segs: "runs run w1 (concat segs) w'"
          "\<forall>s \<in> set (concat segs). step_table s \<in> snd ` set pending \<and> step_phase s \<in> fst ` set batches"
          "\<forall>res. r = Inr res \<longrightarrow> list_all2 batch_ran batches segs" by auto
      have "runs run w (concat (steps # segs)) w'"
        using runs_append [OF _ segs(1)] st by (simp add: ran_tables_def)
      moreover have "\<forall>s \<in> set (concat (steps # segs)). step_table s \<in> snd ` set pending \<and> step_phase s \<in> fst ` set (b # batches)"
        using st segs(2) N unfolding b ran_tables_def by auto
      moreover have "batch_ran b steps" using ran_batch [OF st] N by (simp add: b)
      ultimately show ?thesis using segs(3) by (intro exI [of _ "steps # segs"]) simp
    qed
  qed
qed

section \<open>Workers that keep their promise\<close>

text \<open>
  What the row stage relies on from a worker: it runs in good states and leaves a good state, never
  changes the source, moves committed rows of every table only towards the source, and a successful
  run has its phase done on every key of its table.
\<close>

locale table_runs =
  fixes run :: "'w phase_worker"
    and tables :: "sync_table set"
    and good :: "'w \<Rightarrow> bool"
    and src base :: "'w \<Rightarrow> sync_table \<Rightarrow> row_key \<Rightarrow> row_values option"
  assumes worker: "good w \<Longrightarrow> t \<in> tables \<Longrightarrow> phase \<noteq> AllPhases \<Longrightarrow> run phase t w = (x, w') \<Longrightarrow>
    good w' \<and> (\<forall>u \<in> tables. src w' u = src w u \<and> authoritative u (src w u) (base w u) (base w' u)) \<and>
    (\<forall>p k. x = Some (Inr p) \<longrightarrow> phase_done t phase (src w t k) (base w' t k))"
begin

lemma done_mono:
  "authoritative u S T T' \<Longrightarrow> phase_done u phase (S k) (T k) \<Longrightarrow> phase_done u phase (S k) (T' k)"
  using phase_done_mono by (auto simp: authoritative_def)

lemma runs_promise:
  assumes "runs run w steps w'" "good w" "\<forall>s \<in> set steps. step_table s \<in> tables \<and> step_phase s \<noteq> AllPhases"
  shows "good w' \<and> (\<forall>u \<in> tables. src w' u = src w u \<and> authoritative u (src w u) (base w u) (base w' u)) \<and>
    (\<forall>phase t p k. (phase, t, Some (Inr p)) \<in> set steps \<longrightarrow> phase_done t phase (src w t k) (base w' t k))"
  using assms
proof (induction rule: runs.induct)
  case (runs_Nil w)
  then show ?case by (simp add: authoritative_def)
next
  case (runs_Cons phase t w x w1 steps w2)
  have mem: "t \<in> tables" "phase \<noteq> AllPhases" using runs_Cons.prems by simp_all
  note one = worker [OF runs_Cons.prems(1) mem runs_Cons.hyps(1)]
  have rest: "good w2" "\<And>u. u \<in> tables \<Longrightarrow> src w2 u = src w1 u \<and> authoritative u (src w1 u) (base w1 u) (base w2 u)"
    "\<And>phase t p k. (phase, t, Some (Inr p)) \<in> set steps \<Longrightarrow> phase_done t phase (src w1 t k) (base w2 t k)"
    using runs_Cons.IH one runs_Cons.prems(2) by auto
  have src: "src w1 u = src w u" if "u \<in> tables" for u using one that by blast
  have auth: "authoritative u (src w u) (base w1 u) (base w2 u)" if "u \<in> tables" for u
    using rest(2) [OF that] src [OF that] by simp
  have "authoritative u (src w u) (base w u) (base w2 u)" if "u \<in> tables" for u
    using one auth [OF that] that unfolding authoritative_def by metis
  moreover have "phase_done t' phase' (src w t' k) (base w2 t' k)"
    if "(phase', t', Some (Inr p)) \<in> set ((phase, t, x) # steps)" for phase' t' p k
  proof (cases "(phase', t', Some (Inr p)) = (phase, t, x)")
    case True
    then have "phase_done t phase (src w t k) (base w1 t k)" using one by blast
    then show ?thesis using True done_mono [OF auth [OF mem(1)]] by simp
  next
    case False
    then have m: "(phase', t', Some (Inr p)) \<in> set steps" using that by auto
    then have "t' \<in> tables" using runs_Cons.prems(2) by force
    then show ?thesis using rest(3) [OF m] src by simp
  qed
  ultimately show ?case using rest(1) rest(2) src by simp
qed

end

section \<open>The row stage\<close>

definition phase_plan :: "string list list \<Rightarrow> string list list \<Rightarrow> (sync_mutation_phase \<times> string list) list" where
  "phase_plan inserts deletes =
     map (Pair InsertMissing) inserts @ map (Pair UpdateDivergent) inserts @ map (Pair DeleteExtras) deletes"

lemma run_pending_runs:
  assumes "schedule_ok schedule" "pending_wf pending"
    and "run_pending_phases par schedule connect create_table progress_table inventory run pending w = (r, w')"
  shows "(\<exists>e. r = Inl e \<and> (w' = w \<or> (\<exists>u. connect w = (u, w')) \<or> (\<exists>u v sql w1. connect w = (u, w1) \<and> create_table sql w1 = (v, w')))) \<or>
    (\<exists>inserts deletes w1 w2 u v sql segs.
       plan_dependency_batches (map fst pending) (si_foreign_keys inventory) (si_schema inventory) ParentFirst par = Some (Inr inserts) \<and>
       plan_dependency_batches (map fst pending) (si_foreign_keys inventory) (si_schema inventory) ChildFirst par = Some (Inr deletes) \<and>
       connect w = (u, w1) \<and> create_table sql w1 = (v, w2) \<and>
       runs (run (progress_table @ ''_phases'')) w2 (concat segs) w' \<and>
       (\<forall>s \<in> set (concat segs). step_table s \<in> snd ` set pending \<and> step_phase s \<noteq> AllPhases) \<and>
       (\<forall>res. r = Inr res \<longrightarrow> list_all2 batch_ran (phase_plan inserts deletes) segs))"
proof -
  let ?plan = "\<lambda>dir. plan_dependency_batches (map fst pending) (si_foreign_keys inventory) (si_schema inventory) dir par"
  let ?sql = "build_create_sync_phase_progress_table_sql (progress_table @ ''_phases'')"
  note D = assms(3) [unfolded run_pending_phases_def Let_def]
  show ?thesis
  proof (cases "lift_plan PlanParentFirst (?plan ParentFirst)")
    case (Inl e)
    then show ?thesis using D by (auto simp: bind_op_def lift_op_def)
  next
    case (Inr inserts)
    note ins = this
    show ?thesis
    proof (cases "lift_plan PlanChildFirst (?plan ChildFirst)")
      case (Inl e)
      then show ?thesis using D ins by (auto simp: bind_op_def lift_op_def)
    next
      case (Inr deletes)
      obtain u w1 where c: "connect w = (u, w1)" by fastforce
      obtain v w2 where t: "create_table ?sql w1 = (v, w2)" by fastforce
      have plans: "?plan ParentFirst = Some (Inr inserts)" "?plan ChildFirst = Some (Inr deletes)"
        using ins Inr by (auto simp: lift_plan_def split: option.splits)
      show ?thesis
      proof (cases "(\<exists>e. u = Inl e) \<or> (\<exists>e. v = Inl e)")
        case True
        then show ?thesis using D ins Inr c t
          by (auto simp: bind_op_def lift_op_def map_err_op_def map_err_def split: sum.splits)
      next
        case False
        then have run: "run_phase_batches par schedule (run (progress_table @ ''_phases'')) pending
            (phase_plan inserts deletes) [] w2 = (r, w')"
          using D ins Inr c t
          by (auto simp: bind_op_def lift_op_def map_err_op_def map_err_def phase_plan_def split: sum.splits)
        have "\<forall>b \<in> set (phase_plan inserts deletes). distinct (snd b)"
          using plan_sound [OF plans(1)] plan_sound [OF plans(2)]
          by (auto simp: phase_plan_def distinct_concat_iff)
        from run_phase_batches_runs [OF assms(1,2) this run] obtain segs where
          "runs (run (progress_table @ ''_phases'')) w2 (concat segs) w'"
          "\<forall>s \<in> set (concat segs). step_table s \<in> snd ` set pending \<and> step_phase s \<in> fst ` set (phase_plan inserts deletes)"
          "\<forall>res. r = Inr res \<longrightarrow> list_all2 batch_ran (phase_plan inserts deletes) segs" by blast
        moreover have "AllPhases \<notin> fst ` set (phase_plan inserts deletes)" by (auto simp: phase_plan_def)
        ultimately show ?thesis using plans c t by metis
      qed
    qed
  qed
qed

section \<open>The workers of the program\<close>

text \<open>The part of a table's state that counts: clean, and the durable progress of every phase covered
  by committed rows.\<close>

definition table_good ::
  "sync_table \<Rightarrow> (row_key \<Rightarrow> row_key \<Rightarrow> bool) \<Rightarrow> db_view \<Rightarrow> (sync_mutation_phase \<Rightarrow> sync_chunk_progress option) \<Rightarrow> bool"
where
  "table_good t lt v progress \<longleftrightarrow>
     dv_tgt v = dv_base v \<and> (\<forall>phase. phase \<noteq> AllPhases \<longrightarrow> covered t lt phase (progress phase) (dv_src v) (dv_base v))"

definition session_view :: "('w \<Rightarrow> db_view) \<Rightarrow> 'w session \<times> 'l \<times> 'p \<Rightarrow> db_view" where
  "session_view view wp = view (se_server (fst wp))"

lemma covered_authoritative:
  assumes "authoritative t S T T'" "covered t lt phase p S T"
  shows "covered t lt phase p S T'"
  using assms phase_done_mono unfolding covered_def authoritative_def by (auto split: option.splits)

lemma worker_step_correct:
  assumes engine: "mysql_engine srv ts lt view" "ts_table ts = t"
    and db: "progress_db conn rows legacy legacy_rows codec"
    and size: "0 < sc_chunk_size config"
    and dropped: "\<And>wp. session_view view (dropped t wp) = (session_view view wp)\<lparr>dv_tgt := dv_base (session_view view wp)\<rparr> \<and>
        snd (dropped t wp) = snd wp"
    and good: "table_good t lt (session_view view w)
        (\<lambda>phase. phase_stored codec phase (legacy_rows (fst (snd w))) (rows (snd (snd w))) (id_run_id identity) (st_name t))"
    and run: "run_table_phase chunks fuel render config identity
        (\<lambda>pt t phase. ret_op (phase_env (mysql_env passes r1 srv ts) legacy conn codec pt r2 phase)) dropped pt phase t w = (x, w')"
    and phase: "phase \<noteq> AllPhases"
  shows "table_good t lt (session_view view w')
        (\<lambda>phase. phase_stored codec phase (legacy_rows (fst (snd w'))) (rows (snd (snd w'))) (id_run_id identity) (st_name t)) \<and>
    dv_src (session_view view w') = dv_src (session_view view w) \<and>
    authoritative t (dv_src (session_view view w)) (dv_base (session_view view w)) (dv_base (session_view view w')) \<and>
    (\<forall>p k. x = Some (Inr p) \<longrightarrow>
       phase_done t phase (dv_src (session_view view w) k) (dv_base (session_view view w') k))"
proof -
  let ?env = "phase_env (mysql_env passes r1 srv ts) legacy conn codec pt r2 phase"
  let ?cfg = "phase_chunk_config config identity t"
  let ?prog = "\<lambda>phase wp. phase_stored codec phase (legacy_rows (fst (snd wp))) (rows (snd (snd wp))) (id_run_id identity) (st_name t)"
  note B0 = mysql_engine.backend [OF engine(1), of passes r1, unfolded engine(2)]
  note B = phased_backend.backend [OF phased_backend.intro [OF B0 db], of pt r2 phase]
  note D = sync_backend.durable_def [OF B]
  obtain q w1 where run1: "sync_table_to_completion chunks fuel ?cfg ?env phase w = (q, w1)" by (rule prod.exhaust)
  have x: "x = Some (map_err render q)" and w': "w' = dropped t w1"
    using run run1 by (auto simp: run_table_phase_def op_rules map_err_op_def)
  have cfg: "cc_table ?cfg = t" "0 < cc_chunk_size ?cfg" "cc_run_id ?cfg = id_run_id identity"
    using size by (simp_all add: phase_chunk_config_def)
  have clean: "dv_tgt (view (se_server (fst w))) = dv_base (view (se_server (fst w)))"
    using good by (simp add: table_good_def session_view_def)
  have cov: "covered t lt phase (?prog phase w) (dv_src (view (se_server (fst w)))) (dv_base (view (se_server (fst w))))"
    if "phase \<noteq> AllPhases" for phase
    using good that by (simp add: table_good_def session_view_def)
  note C = sync_backend.sync_to_completion_correct [OF B run1 cfg(1,2) clean, unfolded D cfg(3), OF cov [OF phase]]
  have others: "?prog other w1 = ?prog other w" if "other \<noteq> phase" for other
  proof -
    note F = progress_db.other_phases_framed [OF db, of "mysql_env passes r1 srv ts" pt r2 phase
        "\<lambda>other. phase_stored codec other (legacy_rows (fst (snd w))) (rows (snd (snd w)))"]
    from keepsD [OF framed_env.completion_keeps [OF F] run1] that show ?thesis by simp
  qed
  have view': "session_view view w' = (view (se_server (fst w1)))\<lparr>dv_tgt := dv_base (view (se_server (fst w1)))\<rparr>" "snd w' = snd w1"
    using dropped [of w1] by (simp_all add: w' session_view_def)
  have "covered t lt other (?prog other w1) (dv_src (view (se_server (fst w1)))) (dv_base (view (se_server (fst w1))))"
    if "other \<noteq> AllPhases" for other
  proof (cases "other = phase")
    case True
    show ?thesis unfolding True using C by blast
  next
    case False
    have "authoritative t (dv_src (view (se_server (fst w)))) (dv_base (view (se_server (fst w)))) (dv_base (view (se_server (fst w1))))"
      "dv_src (view (se_server (fst w1))) = dv_src (view (se_server (fst w)))" using C by simp_all
    with covered_authoritative [OF this(1) cov [OF that]] others [OF False] show ?thesis by simp
  qed
  then show ?thesis using C by (auto simp: table_good_def view'(1) [unfolded session_view_def] view'(2) session_view_def x)
qed

end
