(* ===== verification/Row_Stage.thy ===== *)
theory Row_Stage
  imports Phased_Run Sync_Run
begin

text \<open>
  The row stage over the MySQL adapter: every table has its own part of the target, its own
  sessions and its own progress rows, and the three phases run over all of them. The setup names
  the server and the sessions of each table; \<open>setup_ok\<close> is the contract of \<open>mysql_engine\<close> and
  \<open>progress_db\<close> for every table.
\<close>

section \<open>Workers on the server\<close>

record ('w, 'l, 'p) row_setup =
  ws_server :: "sync_table \<Rightarrow> 'w mysql_server"
  ws_session :: "sync_table \<Rightarrow> 'w target_session"
  ws_legacy :: "'l run_store"
  ws_phases :: "'p phase_conn"
  ws_codec :: cursor_codec
  ws_dropped :: "sync_table \<Rightarrow> 'w session \<Rightarrow> 'w session"

definition open_worker ::
  "nat \<Rightarrow> (adapter_error \<Rightarrow> string) \<Rightarrow> (phase_error \<Rightarrow> string) \<Rightarrow> ('w, 'l, 'p) row_setup
     \<Rightarrow> string \<Rightarrow> sync_table \<Rightarrow> sync_mutation_phase \<Rightarrow> ('w session \<times> 'l \<times> 'p, string, ('w session \<times> 'l \<times> 'p) sync_env) op"
where
  "open_worker passes render_adapter render_phase setup phase_table table phase =
     ret_op (phase_env (mysql_env passes render_adapter (ws_server setup table) (ws_session setup table))
       (ws_legacy setup) (ws_phases setup) (ws_codec setup) phase_table render_phase phase)"

definition drop_worker :: "('w, 'l, 'p) row_setup \<Rightarrow> sync_table \<Rightarrow> 'w session \<times> 'l \<times> 'p \<Rightarrow> 'w session \<times> 'l \<times> 'p" where
  "drop_worker setup table w = (ws_dropped setup table (fst w), snd w)"

record worker_limits =
  wl_chunks :: nat
  wl_fuel :: nat
  wl_passes :: nat

definition mysql_workers ::
  "worker_limits \<Rightarrow> (sync_chunk_error \<Rightarrow> string) \<Rightarrow> (adapter_error \<Rightarrow> string) \<Rightarrow> (phase_error \<Rightarrow> string)
     \<Rightarrow> ('w, 'l, 'p) row_setup \<Rightarrow> sync_config \<Rightarrow> sync_run_identity \<Rightarrow> string
     \<Rightarrow> (string \<Rightarrow> 'w session \<times> 'l \<times> 'p) phase_worker"
where
  "mysql_workers limits render render_adapter render_phase setup config identity phase_table =
     on_table (run_table_phase (wl_chunks limits) (wl_fuel limits) render config identity
       (open_worker (wl_passes limits) render_adapter render_phase setup) (drop_worker setup) phase_table)"

section \<open>The contract\<close>

definition setup_ok ::
  "('w, 'l, 'p) row_setup \<Rightarrow> sync_table set \<Rightarrow> (sync_table \<Rightarrow> row_key \<Rightarrow> row_key \<Rightarrow> bool) \<Rightarrow> (sync_table \<Rightarrow> 'w \<Rightarrow> db_view)
     \<Rightarrow> ('l \<Rightarrow> legacy_view) \<Rightarrow> ('p \<Rightarrow> phase_view) \<Rightarrow> bool"
where
  "setup_ok setup tables lt view legacy_rows rows \<longleftrightarrow>
     inj_on st_name tables \<and>
     progress_db (ws_phases setup) rows (ws_legacy setup) legacy_rows (ws_codec setup) \<and>
     (\<forall>t \<in> tables. mysql_engine (ws_server setup t) (ws_session setup t) (lt t) (view t) \<and> ts_table (ws_session setup t) = t \<and>
        (\<forall>s. view t (se_server (ws_dropped setup t s)) =
           (view t (se_server s))\<lparr>dv_tgt := dv_base (view t (se_server s))\<rparr>))"

definition table_view :: "(sync_table \<Rightarrow> 'w \<Rightarrow> db_view) \<Rightarrow> (string \<Rightarrow> 'w session \<times> 'l \<times> 'p) \<Rightarrow> sync_table \<Rightarrow> db_view" where
  "table_view view ws t = session_view (view t) (ws (st_name t))"

definition stage_good ::
  "('w, 'l, 'p) row_setup \<Rightarrow> sync_table set \<Rightarrow> (sync_table \<Rightarrow> row_key \<Rightarrow> row_key \<Rightarrow> bool) \<Rightarrow> (sync_table \<Rightarrow> 'w \<Rightarrow> db_view)
     \<Rightarrow> ('l \<Rightarrow> legacy_view) \<Rightarrow> ('p \<Rightarrow> phase_view) \<Rightarrow> string \<Rightarrow> (string \<Rightarrow> 'w session \<times> 'l \<times> 'p) \<Rightarrow> bool"
where
  "stage_good setup tables lt view legacy_rows rows run_id ws \<longleftrightarrow>
     (\<forall>t \<in> tables. table_good t (lt t) (table_view view ws t)
        (\<lambda>phase. phase_stored (ws_codec setup) phase (legacy_rows (fst (snd (ws (st_name t)))))
           (rows (snd (snd (ws (st_name t))))) run_id (st_name t)))"

lemma mysql_workers_promise:
  assumes ok: "setup_ok setup tables lt view legacy_rows rows" and size: "0 < sc_chunk_size config"
  shows "table_runs (mysql_workers limits render render_adapter render_phase setup config identity phase_table) tables
    (stage_good setup tables lt view legacy_rows rows (id_run_id identity))
    (\<lambda>ws t. dv_src (table_view view ws t)) (\<lambda>ws t. dv_base (table_view view ws t))"
proof (unfold_locales, goal_cases)
  case (1 ws t phase x ws')
  note good = 1(1)
  have eng: "mysql_engine (ws_server setup t) (ws_session setup t) (lt t) (view t)" "ts_table (ws_session setup t) = t"
    and db: "progress_db (ws_phases setup) rows (ws_legacy setup) legacy_rows (ws_codec setup)"
    and inj: "inj_on st_name tables"
    using ok 1(2) by (auto simp: setup_ok_def)
  have drop: "session_view (view t) (drop_worker setup t wp) =
      (session_view (view t) wp)\<lparr>dv_tgt := dv_base (session_view (view t) wp)\<rparr> \<and> snd (drop_worker setup t wp) = snd wp" for wp
    using ok 1(2) by (auto simp: setup_ok_def drop_worker_def session_view_def)
  have good_t: "table_good t (lt t) (session_view (view t) (ws (st_name t)))
      (\<lambda>phase. phase_stored (ws_codec setup) phase (legacy_rows (fst (snd (ws (st_name t)))))
         (rows (snd (snd (ws (st_name t))))) (id_run_id identity) (st_name t))"
    using good 1(2) by (simp add: stage_good_def table_view_def)
  obtain w' where run: "run_table_phase (wl_chunks limits) (wl_fuel limits) render config identity
      (\<lambda>pt t' phase. ret_op (phase_env (mysql_env (wl_passes limits) render_adapter (ws_server setup t) (ws_session setup t))
        (ws_legacy setup) (ws_phases setup) (ws_codec setup) pt render_phase phase))
      (drop_worker setup) phase_table phase t (ws (st_name t)) = (x, w')"
    and ws': "ws' = ws(st_name t := w')"
    using 1(4)
    by (auto simp: mysql_workers_def on_table_def run_table_phase_def open_worker_def split: prod.splits)
  note S = worker_step_correct [OF eng db size drop good_t run 1(3)]
  have own: "table_view view ws' t = session_view (view t) w'" by (simp add: ws' table_view_def)
  have other: "ws' (st_name u) = ws (st_name u)" if "u \<in> tables" "u \<noteq> t" for u
    using that 1(2) inj by (auto simp: ws' inj_on_def)
  have good': "stage_good setup tables lt view legacy_rows rows (id_run_id identity) ws'"
    unfolding stage_good_def
  proof
    fix u assume u: "u \<in> tables"
    show "table_good u (lt u) (table_view view ws' u)
        (\<lambda>phase. phase_stored (ws_codec setup) phase (legacy_rows (fst (snd (ws' (st_name u)))))
           (rows (snd (snd (ws' (st_name u))))) (id_run_id identity) (st_name u))"
    proof (cases "u = t")
      case True
      then show ?thesis using S by (simp add: ws' table_view_def)
    next
      case False
      then show ?thesis using good u other [OF u False] by (simp add: stage_good_def table_view_def)
    qed
  qed
  moreover have "dv_src (table_view view ws' u) = dv_src (table_view view ws u) \<and>
      authoritative u (dv_src (table_view view ws u)) (dv_base (table_view view ws u)) (dv_base (table_view view ws' u))"
    if u: "u \<in> tables" for u
  proof (cases "u = t")
    case True
    then show ?thesis using S by (simp add: ws' table_view_def)
  next
    case False
    then show ?thesis using other [OF u False] by (simp add: table_view_def authoritative_def)
  qed
  moreover have "\<forall>p k. x = Some (Inr p) \<longrightarrow> phase_done t phase (dv_src (table_view view ws t) k) (dv_base (table_view view ws' t) k)"
    unfolding own using S by (simp add: table_view_def)
  ultimately show ?case by blast
qed

section \<open>From the plan to agreement\<close>

lemma planned_step:
  assumes "list_all2 batch_ran plan segs" "(phase, batch) \<in> set plan" "name \<in> set batch"
  shows "\<exists>s \<in> set (concat segs). step_phase s = phase \<and> st_name (step_table s) = name \<and> (\<exists>p. step_outcome s = Some (Inr p))"
proof -
  obtain i where i: "i < length segs" "plan ! i = (phase, batch)"
    using assms(1,2) by (auto simp: in_set_conv_nth list_all2_lengthD)
  then have ran: "batch_ran (phase, batch) (segs ! i)" using assms(1) by (auto dest: list_all2_nthD2)
  then have "name \<in> set (map (\<lambda>s. st_name (step_table s)) (segs ! i))"
    using assms(3) mset_eq_setD [of "map (\<lambda>s. st_name (step_table s)) (segs ! i)" batch] by (simp add: batch_ran_def)
  then obtain s where "s \<in> set (segs ! i)" "st_name (step_table s) = name" by auto
  moreover have "segs ! i \<in> set segs" using i(1) by simp
  ultimately show ?thesis using ran by (intro bexI [of _ s]) (auto simp: batch_ran_def)
qed

lemma planned_phase:
  "name \<in> set (concat inserts) \<Longrightarrow> phase \<in> {InsertMissing, UpdateDivergent} \<Longrightarrow>
     \<exists>batch. (phase, batch) \<in> set (phase_plan inserts deletes) \<and> name \<in> set batch"
  "name \<in> set (concat deletes) \<Longrightarrow>
     \<exists>batch. (DeleteExtras, batch) \<in> set (phase_plan inserts deletes) \<and> name \<in> set batch"
  by (auto simp: phase_plan_def)

context table_runs
begin

definition neutral :: "'w \<Rightarrow> 'w \<Rightarrow> bool" where
  "neutral w w' \<longleftrightarrow> (good w \<longrightarrow> good w') \<and> (\<forall>u \<in> tables. src w' u = src w u \<and> base w' u = base w u)"

lemma pending_agree:
  assumes sched: "schedule_ok schedule" and wf: "pending_wf pending"
    and run_pt: "run' (progress_table @ ''_phases'') = run" and tabs: "snd ` set pending \<subseteq> tables" "inj_on st_name tables"
    and same: "\<And>w u w'. connect w = (u, w') \<Longrightarrow> neutral w w'" "\<And>sql w u w'. create_table sql w = (u, w') \<Longrightarrow> neutral w w'"
    and good: "good w"
    and go: "run_pending_phases par schedule connect create_table progress_table inventory run' pending w = (r, w')"
  shows "good w' \<and> (\<forall>u \<in> tables. src w' u = src w u \<and> authoritative u (src w u) (base w u) (base w' u)) \<and>
    (\<forall>totals. r = Inr totals \<longrightarrow> (\<forall>t \<in> snd ` set pending. \<forall>k. row_agrees t (src w t k) (base w' t k)))"
proof -
  have refl: "good w' \<and> (\<forall>u \<in> tables. src w' u = src w u \<and> authoritative u (src w u) (base w u) (base w' u))" if "neutral w w'"
    using that good by (simp add: authoritative_def neutral_def)
  have trans: "neutral w w2" if "neutral w w1" "neutral w1 w2" for w1 w2
    using that by (auto simp: neutral_def)
  from run_pending_runs [OF sched wf go] show ?thesis
  proof (elim disjE exE conjE)
    fix e assume "r = Inl e" "w' = w"
    then show ?thesis using refl by (simp add: neutral_def)
  next
    fix e u assume "r = Inl e" "connect w = (u, w')"
    then show ?thesis using refl same by simp
  next
    fix e u v sql w1 assume "r = Inl e" "connect w = (u, w1)" "create_table sql w1 = (v, w')"
    then show ?thesis using refl trans [OF same(1) same(2)] by simp
  next
    fix inserts deletes w1 w2 u v sql segs
    assume plans: "plan_dependency_batches (map fst pending) (si_foreign_keys inventory) (si_schema inventory) ParentFirst par = Some (Inr inserts)"
        "plan_dependency_batches (map fst pending) (si_foreign_keys inventory) (si_schema inventory) ChildFirst par = Some (Inr deletes)"
      and w2: "connect w = (u, w1)" "create_table sql w1 = (v, w2)"
      and steps: "runs (run' (progress_table @ ''_phases'')) w2 (concat segs) w'"
      and within: "\<forall>s \<in> set (concat segs). step_table s \<in> snd ` set pending \<and> step_phase s \<noteq> AllPhases"
      and all: "\<forall>res. r = Inr res \<longrightarrow> list_all2 batch_ran (phase_plan inserts deletes) segs"
    have n: "neutral w w2" by (rule trans [OF same(1) [OF w2(1)] same(2) [OF w2(2)]])
    then have good2: "good w2" and eq: "\<And>u. u \<in> tables \<Longrightarrow> src w2 u = src w u \<and> base w2 u = base w u"
      using good by (simp_all add: neutral_def)
    have inside: "\<forall>s \<in> set (concat segs). step_table s \<in> tables \<and> step_phase s \<noteq> AllPhases" using within tabs(1) by blast
    note Q = runs_promise [OF steps [unfolded run_pt] good2 inside]
    have P: "good w'" "\<And>u. u \<in> tables \<Longrightarrow> src w' u = src w u \<and> authoritative u (src w u) (base w u) (base w' u)"
      using Q eq by auto
    have P3: "phase_done t phase (src w t k) (base w' t k)" if "(phase, t, Some (Inr p)) \<in> set (concat segs)" for phase t p k
    proof -
      have "t \<in> tables" using inside that by force
      moreover have "phase_done t phase (src w2 t k) (base w' t k)" using Q that by blast
      ultimately show ?thesis using eq by simp
    qed
    have "row_agrees t (src w t k) (base w' t k)" if r: "r = Inr totals" and t: "t \<in> snd ` set pending" for totals t k
    proof (rule phases_compose)
      note ran = all [rule_format, OF r]
      have name: "st_name t \<in> set (map fst pending)" using t wf by (force simp: pending_wf_def)
      then have ins: "st_name t \<in> set (concat inserts)" and del: "st_name t \<in> set (concat deletes)"
        using plan_sound [OF plans(1)] plan_sound [OF plans(2)] by simp_all
      have fin: "phase_done t phase (src w t k) (base w' t k)"
        if "\<exists>s \<in> set (concat segs). step_phase s = phase \<and> st_name (step_table s) = st_name t \<and> (\<exists>p. step_outcome s = Some (Inr p))"
        for phase
      proof -
        from that obtain t' p where s: "(phase, t', Some (Inr p)) \<in> set (concat segs)" "st_name t' = st_name t"
          by (metis prod.collapse)
        then have "t' \<in> tables" "t \<in> tables" using within tabs(1) t by force+
        then have "t' = t" using s(2) tabs(2) by (simp add: inj_on_eq_iff)
        then show ?thesis using P3 [OF s(1)] by simp
      qed
      show "phase_done t InsertMissing (src w t k) (base w' t k)"
        by (rule fin) (use planned_phase(1) [OF ins, of InsertMissing deletes] planned_step [OF ran] in blast)
      show "phase_done t UpdateDivergent (src w t k) (base w' t k)"
        by (rule fin) (use planned_phase(1) [OF ins, of UpdateDivergent deletes] planned_step [OF ran] in blast)
      show "phase_done t DeleteExtras (src w t k) (base w' t k)"
        by (rule fin) (use planned_phase(2) [OF del, of inserts] planned_step [OF ran] in blast)
    qed
    then show ?thesis using P by blast
  qed
qed

end

section \<open>Progress in memory\<close>

type_synonym phase_memory = "((string \<times> string \<times> string) \<times> stored_phase_progress) list"

definition memory_phases :: "phase_memory phase_conn" where
  "memory_phases =
     \<lparr>ph_exec_first = (\<lambda>sql key m. (Inr (map_of m key), m)),
      ph_exec_drop = (\<lambda>sql (run, t, name, stored) m. (Inr (), ((run, t, name), stored) # m))\<rparr>"

definition memory_phase_rows :: "phase_memory \<Rightarrow> phase_view" where
  "memory_phase_rows m run t name = map_of m (run, t, name)"

definition memory_legacy :: "sync_progress_row list run_store" where
  "memory_legacy =
     \<lparr>rs_load_stage = (\<lambda>run stage t l. (Inr (mem_find_progress l run stage t), l)),
      rs_save_stage = (\<lambda>row l. (Inr (), row # l))\<rparr>"

definition memory_legacy_rows :: "sync_progress_row list \<Rightarrow> legacy_view" where
  "memory_legacy_rows l run t = mem_find_progress l run RowsStage t"

interpretation memory_progress: progress_db memory_phases memory_phase_rows memory_legacy memory_legacy_rows example_codec
  by unfold_locales
     (auto simp: memory_phases_def memory_phase_rows_def memory_legacy_def memory_legacy_rows_def codec_total_def
       example_codec_roundtrip fun_eq_iff)

interpretation memory_phased: phased_backend "mysql_env passes render (memory_server table) (memory_session database table)" table
    "(<)" "\<lambda>s. dv_src (mem_view table (se_server s))" "\<lambda>s. dv_tgt (mem_view table (se_server s))"
    "\<lambda>s. dv_base (mem_view table (se_server s))" "\<lambda>s. stored_progress (mem_view table (se_server s))"
    memory_phases memory_phase_rows memory_legacy memory_legacy_rows example_codec
  for passes render table database
proof (rule phased_backend.intro)
  show "sync_backend (mysql_env passes render (memory_server table) (memory_session database table)) table (<)
     (\<lambda>s. dv_src (mem_view table (se_server s))) (\<lambda>s. dv_tgt (mem_view table (se_server s)))
     (\<lambda>s. dv_base (mem_view table (se_server s))) (\<lambda>s. stored_progress (mem_view table (se_server s)))"
    using mysql_engine.backend [OF memory_engine, of passes render table database] by (simp add: memory_session_def)
qed (rule memory_progress.progress_db_axioms)

interpretation memory_frame: framed_env
    "phase_env (mysql_env passes render (memory_server table) (memory_session database table)) memory_legacy memory_phases
       example_codec phase_table render_phase phase"
    "\<lambda>wp. \<forall>other. other \<noteq> phase \<longrightarrow>
       phase_stored example_codec other (memory_legacy_rows (fst (snd wp))) (memory_phase_rows (snd (snd wp))) = V other"
  for passes render table database phase_table render_phase phase V
  by (rule memory_progress.other_phases_framed)

definition memory_setup :: "(memory, sync_progress_row list, phase_memory) row_setup" where
  "memory_setup =
     \<lparr>ws_server = memory_server, ws_session = memory_session ''d'', ws_legacy = memory_legacy, ws_phases = memory_phases,
      ws_codec = example_codec,
      ws_dropped = (\<lambda>t s. s\<lparr>se_server := (se_server s)\<lparr>mm_target := mm_committed (se_server s)\<rparr>\<rparr>)\<rparr>"

lemma memory_setup_ok:
  "inj_on st_name tables \<Longrightarrow>
   setup_ok memory_setup tables (\<lambda>_. (<)) mem_view memory_legacy_rows memory_phase_rows"
  using memory_engine memory_progress.progress_db_axioms
  by (auto simp: setup_ok_def memory_setup_def memory_session_def mem_view_def)

interpretation memory_workers: table_runs
    "mysql_workers limits render render_adapter render_phase memory_setup example_sync_config identity phase_table" "{demo_table}"
    "stage_good memory_setup {demo_table} (\<lambda>_. (<)) mem_view memory_legacy_rows memory_phase_rows (id_run_id identity)"
    "\<lambda>ws t. dv_src (table_view mem_view ws t)" "\<lambda>ws t. dv_base (table_view mem_view ws t)"
  for limits render render_adapter render_phase identity phase_table
  by (rule mysql_workers_promise [OF memory_setup_ok]) (simp_all add: example_sync_config_def)

section \<open>Example\<close>

definition demo_child :: sync_table where
  "demo_child =
     \<lparr>st_name = ''c'', st_primary_key = [''id''], st_primary_key_ordering = [Native], st_columns = [''id'', ''t_id''],
      st_bit_columns = [], st_enum_columns = [], st_mediumblob_columns = []\<rparr>"

definition demo_pending :: "(string \<times> sync_table) list" where
  "demo_pending = [(''c'', demo_child), (''t'', demo_table)]"

definition demo_schema :: schema_inventory where
  "demo_schema =
     \<lparr>si_schema = ''catalog'', si_tables = [], si_indexes = [], si_foreign_keys = [example_fk ''c'' ''t''], si_views = [],
      si_triggers = [], si_routines = [], si_events = []\<rparr>"

definition child_memory :: memory where
  "child_memory =
     \<lparr>mm_source = [[Some ''7'', Some ''1'']], mm_target = [[Some ''8'', Some ''5'']], mm_committed = [[Some ''8'', Some ''5'']],
      mm_unique = [], mm_progress = []\<rparr>"

definition demo_states :: "string \<Rightarrow> memory session \<times> sync_progress_row list \<times> phase_memory" where
  "demo_states name =
     (if name = ''t'' then (demo_session, [], [])
      else (\<lparr>se_server = child_memory, se_pending = [], se_log = []\<rparr>, [], []))"

definition demo_identity :: sync_run_identity where
  "demo_identity = \<lparr>id_run_id = ''r''\<rparr>"

definition demo_limits :: worker_limits where
  "demo_limits = \<lparr>wl_chunks = 5, wl_fuel = 5, wl_passes = 3\<rparr>"

definition demo_stage ::
  "(row_stage_error + (string \<times> sync_chunk_progress) list) \<times> (string \<Rightarrow> memory session \<times> sync_progress_row list \<times> phase_memory)"
where
  "demo_stage = run_pending_phases 2 rev (ret_op ()) (\<lambda>_. ret_op ()) ''cdc.sync_runs'' demo_schema
     (mysql_workers demo_limits (\<lambda>_. ''chunk'') (\<lambda>_. ''adapter'') (\<lambda>_. ''phase'') memory_setup example_sync_config demo_identity)
     demo_pending demo_states"

lemma demo_stage_result: "case fst demo_stage of Inr totals \<Rightarrow> map fst totals = [''c'', ''t''] | Inl _ \<Rightarrow> False"
  by code_simp

section \<open>Properties of the row stage\<close>

text \<open>Two states with the same rows and the same progress for the tables of the run.\<close>

definition same_tables ::
  "(sync_table \<Rightarrow> 'w \<Rightarrow> db_view) \<Rightarrow> ('l \<Rightarrow> legacy_view) \<Rightarrow> ('p \<Rightarrow> phase_view) \<Rightarrow> sync_table set
     \<Rightarrow> (string \<Rightarrow> 'w session \<times> 'l \<times> 'p) \<Rightarrow> (string \<Rightarrow> 'w session \<times> 'l \<times> 'p) \<Rightarrow> bool"
where
  "same_tables view legacy_rows rows tables ws ws' \<longleftrightarrow>
     (\<forall>t \<in> tables. table_view view ws' t = table_view view ws t \<and>
        legacy_rows (fst (snd (ws' (st_name t)))) = legacy_rows (fst (snd (ws (st_name t)))) \<and>
        rows (snd (snd (ws' (st_name t)))) = rows (snd (snd (ws (st_name t)))))"

text \<open>A batch run returns one report per table, ordered by table name, whatever the order in
  which the workers complete; when it fails, the error names a table whose worker failed or
  panicked.\<close>

theorem bounded_run_reports:
  assumes "schedule_ok schedule" "distinct (map st_name tables)"
    and "\<forall>t w p w'. run_table t w = (Some (Inr p), w') \<longrightarrow> cp_table p = st_name t"
    and "run_sync_tables_bounded par schedule run_table tables w = (r, w')"
  shows "(\<forall>reports. r = Inr reports \<longrightarrow> map cp_table reports = sort (map st_name tables)) \<and>
    (\<forall>name e. r = Inl (TableFailed name e) \<longrightarrow>
       (\<exists>t \<in> set tables. \<exists>v x v'. name = st_name t \<and> run_table t v = (x, v') \<and> joined x = Inl e))"
proof -
  have outcome: "\<exists>v v'. run_table (step_table s) v = (step_outcome s, v')" if "runs (\<lambda>_. run_table) u steps u'" "s \<in> set steps"
    for u steps u' s
    using that by (induction rule: runs.induct) (simp, metis fst_conv set_ConsD snd_conv)
  from run_bounded_runs [of schedule tables par "\<lambda>_. run_table" AllPhases, OF assms(1,2,4)]
  show ?thesis
  proof (elim disjE exE conjE)
    fix steps assume ran: "ran_tables (\<lambda>_. run_table) AllPhases w tables r w' steps"
    have "map cp_table reports = sort (map st_name tables)" if r: "r = Inr reports" for reports
    proof -
      have tabs: "mset (map step_table steps) = mset tables"
        and reps: "mset (map Inr reports) = mset (map (\<lambda>s. joined (step_outcome s)) steps)"
        and seq: "runs (\<lambda>_. run_table) w steps w'"
        using ran r by (simp_all add: ran_tables_def)
      have step: "cp_table (projr (joined (step_outcome s))) = st_name (step_table s)" if "s \<in> set steps" for s
      proof -
        have "joined (step_outcome s) \<in> set (map Inr reports)" using that mset_eq_setD [OF reps] by auto
        then obtain p where "step_outcome s = Some (Inr p)" by auto
        then show ?thesis using outcome [OF seq that] assms(3) by (auto simp: joined_def)
      qed
      from arg_cong [OF reps, of "image_mset (\<lambda>x. cp_table (projr x))"]
      have "mset (map cp_table reports) = mset (map (\<lambda>s. cp_table (projr (joined (step_outcome s)))) steps)"
        by (simp add: multiset.map_comp comp_def)
      also have "\<dots> = mset (map (\<lambda>s. st_name (step_table s)) steps)"
        using step by (metis (mono_tags, lifting) map_cong)
      also have "\<dots> = image_mset st_name (mset (map step_table steps))" by (simp add: multiset.map_comp comp_def)
      finally have perm: "mset (map cp_table reports) = mset (map st_name tables)" unfolding tabs by simp
      have "sorted (map cp_table reports)"
        using assms(4) r
        by (auto simp: run_sync_tables_bounded_def bind_op_eq_Inr lift_op_def ret_op_def)
      then show ?thesis using perm by (metis properties_for_sort)
    qed
    moreover have "\<exists>t \<in> set tables. \<exists>v x v'. name = st_name t \<and> run_table t v = (x, v') \<and> joined x = Inl e"
      if r: "r = Inl (TableFailed name e)" for name e
    proof -
      obtain s where s: "s \<in> set steps" "name = st_name (step_table s)" "joined (step_outcome s) = Inl e"
        and seq: "runs (\<lambda>_. run_table) w steps w'" and inside: "step_table s \<in> set tables"
        using ran r unfolding ran_tables_def by auto
      then show ?thesis using outcome [OF seq s(1)] by blast
    qed
    ultimately show ?thesis by blast
  qed auto
qed

definition demo_worker :: "nat table_worker" where
  "demo_worker t n = (Some (Inr \<lparr>cp_run_id = ''r'', cp_table = st_name t, cp_last_primary_key = None, cp_complete = True,
     cp_chunks = of_nat n, cp_rows_scanned = 0, cp_inserts = 0, cp_updates = 0, cp_deletes = 0\<rparr>), Suc n)"

lemma demo_bounded_result:
  "case fst (run_sync_tables_bounded 2 rev demo_worker [demo_table, demo_child] 0) of Inr _ \<Rightarrow> True | Inl _ \<Rightarrow> False"
  by code_simp

text \<open>C18. A successful row stage runs every pending table once in each of the three phases: all
  inserts, then all updates, both with every referenced table before the tables that reference it,
  then all deletes in the opposite order.\<close>

theorem row_stage_phase_order:
  assumes "schedule_ok schedule" "pending_wf pending"
    and "run_pending_phases par schedule connect create_table progress_table inventory run pending w = (Inr totals, w')"
  shows "\<exists>inserts deletes w2 ins upd del.
    runs (run (progress_table @ ''_phases'')) w2 (concat (ins @ upd @ del)) w' \<and>
    list_all2 batch_ran (map (Pair InsertMissing) inserts) ins \<and>
    list_all2 batch_ran (map (Pair UpdateDivergent) inserts) upd \<and>
    list_all2 batch_ran (map (Pair DeleteExtras) deletes) del \<and>
    distinct (concat inserts) \<and> set (concat inserts) = fst ` set pending \<and>
    distinct (concat deletes) \<and> set (concat deletes) = fst ` set pending \<and>
    ordered_batches (dep_edges (map fst pending) (si_foreign_keys inventory) (si_schema inventory) ParentFirst) inserts \<and>
    ordered_batches ((dep_edges (map fst pending) (si_foreign_keys inventory) (si_schema inventory) ParentFirst)\<inverse>) deletes"
proof -
  from run_pending_runs [OF assms] obtain inserts deletes w2 segs where
    plans: "plan_dependency_batches (map fst pending) (si_foreign_keys inventory) (si_schema inventory) ParentFirst par = Some (Inr inserts)"
      "plan_dependency_batches (map fst pending) (si_foreign_keys inventory) (si_schema inventory) ChildFirst par = Some (Inr deletes)"
    and steps: "runs (run (progress_table @ ''_phases'')) w2 (concat segs) w'"
    and all: "list_all2 batch_ran (phase_plan inserts deletes) segs"
    by auto
  from all obtain ins upd del where "segs = ins @ upd @ del"
    "list_all2 batch_ran (map (Pair InsertMissing) inserts) ins"
    "list_all2 batch_ran (map (Pair UpdateDivergent) inserts) upd"
    "list_all2 batch_ran (map (Pair DeleteExtras) deletes) del"
    unfolding phase_plan_def list_all2_append1 by blast
  then show ?thesis
    using steps plan_sound [OF plans(1)] plan_sound [OF plans(2)] unfolding dep_edges_converse [symmetric]
    by (intro exI [of _ inserts] exI [of _ deletes] exI [of _ w2] exI [of _ ins] exI [of _ upd] exI [of _ del]) simp
qed

lemma demo_pending_wf: "pending_wf demo_pending"
  by (simp add: pending_wf_def demo_pending_def btm_wf_def demo_table_def demo_child_def)

theorem row_stage_phase_order_witness:
  "\<exists>inserts. set (concat inserts) = {''c'', ''t''} \<and>
     ordered_batches (dep_edges [''c'', ''t''] [example_fk ''c'' ''t''] ''catalog'' ParentFirst) inserts"
proof -
  obtain totals where t: "fst demo_stage = Inr totals" using demo_stage_result by (cases "fst demo_stage") auto
  have run: "run_pending_phases 2 rev (ret_op ()) (\<lambda>_. ret_op ()) ''cdc.sync_runs'' demo_schema
     (mysql_workers demo_limits (\<lambda>_. ''chunk'') (\<lambda>_. ''adapter'') (\<lambda>_. ''phase'') memory_setup example_sync_config demo_identity)
     demo_pending demo_states = (Inr totals, snd demo_stage)"
    using t by (simp add: demo_stage_def prod_eq_iff)
  have "schedule_ok rev" by (simp add: schedule_ok_def)
  from row_stage_phase_order [OF this demo_pending_wf run] show ?thesis
    by (auto simp: demo_pending_def demo_schema_def)
qed



end
