(* ===== verification/Orchestration.thy ===== *)
theory Orchestration
  imports Row_Stage
begin

text \<open>
  The stages of a run (\<open>src/src/sync/orchestrate.rs\<close>): selection of the source tables, the two
  schema stages with their durable status rows, and the rows between them. The schema work itself
  (\<open>run_sync_schema_stage\<close> of \<open>src/src/sync_schema.rs\<close>) and the row stage are the operations of
  the executor record, as they are the methods of the trait \<open>SyncRunExecutor\<close>.
\<close>

section \<open>Selection\<close>

datatype orchestration_error =
    NoSelection
  | SelectionDuplicate string
  | SelectionMissing string
  | ParentNotSelected string string
  | TableShape config_error
  | LoadStage sync_stage string string
  | StageRunId sync_stage string string string
  | StageKind sync_stage string sync_stage
  | StageTable sync_stage string string
  | SaveStage sync_stage string string
  | StageFailed string "(sync_stage \<times> string \<times> string) list"
  | RowsFailed string
  | RowsNotSchemaStage
  | ConfigInvalid "config_error fault"
  | OpenProgress string
  | ReadEvidence string

fun check_selected :: "schema_inventory \<Rightarrow> string list \<Rightarrow> string list \<Rightarrow> orchestration_error + string list" where
  "check_selected inventory seen [] = Inr seen"
| "check_selected inventory seen (name # names) =
     (if name \<in> set seen then Inl (SelectionDuplicate name)
      else if name \<notin> set (map ti_name (si_tables inventory)) then Inl (SelectionMissing name)
      else check_selected inventory (bts_insert name seen) names)"

fun require_selected_same_schema_parents ::
  "string \<Rightarrow> foreign_key_inventory list \<Rightarrow> string list \<Rightarrow> orchestration_error + unit"
where
  "require_selected_same_schema_parents schema [] selected = Inr ()"
| "require_selected_same_schema_parents schema (key # keys) selected =
     (let child_selected = fk_table key \<in> set selected;
          same_schema = fk_referenced_schema key = schema;
          parent_selected = fk_referenced_table key \<in> set selected in
      if child_selected \<and> same_schema \<and> \<not> parent_selected
      then Inl (ParentNotSelected (fk_table key) (fk_referenced_table key))
      else require_selected_same_schema_parents schema keys selected)"

definition validate_selected_tables :: "schema_inventory \<Rightarrow> string list \<Rightarrow> orchestration_error + unit" where
  "validate_selected_tables inventory selected =
     (if selected = [] then Inl NoSelection
      else bind_res (check_selected inventory [] selected) (\<lambda>selected_names.
        require_selected_same_schema_parents (si_schema inventory) (si_foreign_keys inventory) selected_names))"

definition sync_tables_from_source_inventory ::
  "schema_inventory \<Rightarrow> string list \<Rightarrow> (orchestration_error, sync_table list) res"
where
  "sync_tables_from_source_inventory inventory selected =
     bind_res (map_err Fail (validate_selected_tables inventory selected)) (\<lambda>_.
       collect_res (\<lambda>name. case find (\<lambda>table. ti_name table = name) (si_tables inventory) of
           None \<Rightarrow> Inl (Panic ''validated selected source table'')
         | Some table \<Rightarrow> map_err (\<lambda>e. Fail (TableShape e)) (sync_table_from_inventory table)) selected)"

section \<open>Durable schema stages\<close>

type_synonym ('w, 'a) stage_op = "('w, orchestration_error, 'a) op"

definition stage_progress_row ::
  "sync_run_identity \<Rightarrow> sync_stage \<Rightarrow> string \<Rightarrow> sync_progress_status \<Rightarrow> string option \<Rightarrow> sync_progress_row"
where
  "stage_progress_row identity stage table status last_error =
     \<lparr>pr_run_id = id_run_id identity, pr_stage = stage, pr_table_name = table, pr_last_primary_key = None,
      pr_chunks = 0, pr_rows_scanned = 0, pr_inserts = 0, pr_updates = 0, pr_deletes = 0, pr_status = status,
      pr_last_error = last_error, pr_created_at = [], pr_updated_at = [], pr_completed_at = None\<rparr>"

definition validate_stage_progress ::
  "sync_run_identity \<Rightarrow> sync_stage \<Rightarrow> string \<Rightarrow> sync_progress_row \<Rightarrow> orchestration_error + unit"
where
  "validate_stage_progress identity stage table progress =
     (if pr_run_id progress \<noteq> id_run_id identity then
        Inl (StageRunId stage table (id_run_id identity) (pr_run_id progress))
      else if pr_stage progress \<noteq> stage then Inl (StageKind stage table (pr_stage progress))
      else if pr_table_name progress \<noteq> table then Inl (StageTable stage table (pr_table_name progress))
      else Inr ())"

fun load_stage_progress ::
  "'w run_store \<Rightarrow> sync_run_identity \<Rightarrow> sync_stage \<Rightarrow> string list \<Rightarrow> ('w, sync_progress_row option list) stage_op"
where
  "load_stage_progress store identity stage [] = ret_op []"
| "load_stage_progress store identity stage (table # tables) =
     bind_op (map_err_op (LoadStage stage table) (rs_load_stage store (id_run_id identity) stage table)) (\<lambda>row.
     bind_op (case row of
         Some r \<Rightarrow> lift_op (validate_stage_progress identity stage table r)
       | None \<Rightarrow> ret_op ()) (\<lambda>_.
     bind_op (load_stage_progress store identity stage tables) (\<lambda>rows. ret_op (row # rows))))"

definition incomplete_stage_tables :: "string list \<Rightarrow> sync_progress_row option list \<Rightarrow> string list" where
  "incomplete_stage_tables tables existing =
     map fst (filter (\<lambda>(_, row). \<not> (case row of Some r \<Rightarrow> pr_status r = Complete | None \<Rightarrow> False)) (zip tables existing))"

definition save_stage_progress ::
  "'w run_store \<Rightarrow> sync_run_identity \<Rightarrow> sync_stage \<Rightarrow> string \<Rightarrow> sync_progress_status \<Rightarrow> string option \<Rightarrow> ('w, unit) stage_op"
where
  "save_stage_progress store identity stage table status last_error =
     map_err_op (SaveStage stage table)
       (rs_save_stage store (stage_progress_row identity stage table status last_error))"

fun save_stage_statuses ::
  "'w run_store \<Rightarrow> sync_run_identity \<Rightarrow> sync_stage \<Rightarrow> string list \<Rightarrow> sync_progress_status \<Rightarrow> ('w, unit) stage_op"
where
  "save_stage_statuses store identity stage [] status = ret_op ()"
| "save_stage_statuses store identity stage (table # tables) status =
     bind_op (save_stage_progress store identity stage table status None)
       (\<lambda>_. save_stage_statuses store identity stage tables status)"

fun save_stage_errors ::
  "'w run_store \<Rightarrow> sync_run_identity \<Rightarrow> sync_stage \<Rightarrow> string list \<Rightarrow> string \<Rightarrow> 'w
     \<Rightarrow> (sync_stage \<times> string \<times> string) list \<times> 'w"
where
  "save_stage_errors store identity stage [] primary_error w = ([], w)"
| "save_stage_errors store identity stage (table # tables) primary_error w =
     (case rs_save_stage store (stage_progress_row identity stage table ErrorStatus (Some primary_error)) w of (saved, w1) \<Rightarrow>
      case save_stage_errors store identity stage tables primary_error w1 of (errors, w2) \<Rightarrow>
        ((case saved of Inl error \<Rightarrow> (stage, table, error) # errors | Inr _ \<Rightarrow> errors), w2))"

definition persist_schema_stage_error ::
  "'w run_store \<Rightarrow> sync_run_identity \<Rightarrow> sync_stage \<Rightarrow> string list \<Rightarrow> string \<Rightarrow> ('w, unit) stage_op"
where
  "persist_schema_stage_error store identity stage tables primary_error w =
     (case save_stage_errors store identity stage tables primary_error w of
        (save_errors, w') \<Rightarrow> (Inl (StageFailed primary_error save_errors), w'))"

definition persist_schema_stage_result ::
  "'w run_store \<Rightarrow> sync_run_identity \<Rightarrow> sync_stage \<Rightarrow> string list \<Rightarrow> string + unit \<Rightarrow> ('w, unit) stage_op"
where
  "persist_schema_stage_result store identity stage incomplete result =
     (case result of
        Inr _ \<Rightarrow> save_stage_statuses store identity stage incomplete Complete
      | Inl primary_error \<Rightarrow> persist_schema_stage_error store identity stage incomplete primary_error)"

definition run_durable_schema_stage ::
  "'w run_store \<Rightarrow> sync_run_identity \<Rightarrow> sync_stage \<Rightarrow> string list \<Rightarrow> ('w, string, unit) op \<Rightarrow> ('w, unit) stage_op"
where
  "run_durable_schema_stage store identity stage tables action =
     bind_op (load_stage_progress store identity stage tables) (\<lambda>existing.
       let incomplete = incomplete_stage_tables tables existing in
       if incomplete = [] then ret_op ()
       else
         bind_op (save_stage_statuses store identity stage incomplete Running) (\<lambda>_ w.
           case action w of (result, w') \<Rightarrow>
             persist_schema_stage_result store identity stage incomplete result w'))"

section \<open>The run\<close>

record 'w run_executor =
  ex_run_schema_stage :: "sync_stage \<Rightarrow> ('w, string, unit) op"
  ex_run_rows :: "sync_table list \<Rightarrow> ('w, string, sync_chunk_progress list) op"

definition run_sync_orchestration ::
  "sync_run_identity \<Rightarrow> sync_table list \<Rightarrow> 'w run_executor \<Rightarrow> 'w run_store \<Rightarrow> ('w, sync_chunk_progress list) stage_op"
where
  "run_sync_orchestration identity tables executor progress =
     (let table_names = map st_name tables in
      bind_op (run_durable_schema_stage progress identity PrerequisiteSchema table_names
                (ex_run_schema_stage executor PrerequisiteSchema)) (\<lambda>_.
      bind_op (map_err_op RowsFailed (ex_run_rows executor tables)) (\<lambda>rows.
      bind_op (run_durable_schema_stage progress identity FinalConstraints table_names
                (ex_run_schema_stage executor FinalConstraints)) (\<lambda>_.
        ret_op rows))))"

datatype schema_stage_kind = PrerequisiteKind | FinalConstraintsKind

text \<open>The executor of the program: \<open>run_sync_schema_stage\<close> is a parameter, the rows are the row
  stage.\<close>

definition mysql_run_executor ::
  "(schema_stage_kind \<Rightarrow> ('w, string, unit) op) \<Rightarrow> (sync_table list \<Rightarrow> ('w, string, sync_chunk_progress list) op)
     \<Rightarrow> 'w run_executor"
where
  "mysql_run_executor run_sync_schema_stage run_rows =
     \<lparr>ex_run_schema_stage = (\<lambda>stage. case stage of
         PrerequisiteSchema \<Rightarrow> run_sync_schema_stage PrerequisiteKind
       | FinalConstraints \<Rightarrow> run_sync_schema_stage FinalConstraintsKind
       | RowsStage \<Rightarrow> fail_op ''rows are not a schema stage''),
      ex_run_rows = run_rows\<rparr>"

definition run_mysql_sync_with_evidence ::
  "(run_id_derivation_input \<Rightarrow> string + string) \<Rightarrow> (string \<Rightarrow> string) \<Rightarrow> sync_config \<Rightarrow> schema_inventory
     \<Rightarrow> ('w, string, 'w run_store) op \<Rightarrow> (sync_run_identity \<Rightarrow> 'w run_executor)
     \<Rightarrow> ('w, orchestration_error fault, sync_chunk_progress list) op"
where
  "run_mysql_sync_with_evidence to_json sha256_hex config inventory open_progress executor =
     bind_op (lift_op (map_err (\<lambda>e. Fail (ConfigInvalid (Fail e))) (validate_sync_config config))) (\<lambda>_.
     bind_op (lift_op (sync_tables_from_source_inventory inventory (sc_tables config))) (\<lambda>tables.
     bind_op (lift_op (map_err (\<lambda>e. Fail (ConfigInvalid e)) (build_sync_run_identity to_json sha256_hex config tables))) (\<lambda>identity.
     bind_op (map_err_op (\<lambda>e. Fail (OpenProgress e)) open_progress) (\<lambda>progress.
       map_err_op Fail (run_sync_orchestration identity tables (executor identity) progress)))))"

definition run_mysql_sync ::
  "(run_id_derivation_input \<Rightarrow> string + string) \<Rightarrow> (string \<Rightarrow> string) \<Rightarrow> sync_config
     \<Rightarrow> (mysql_connection_config \<Rightarrow> ('w, string, schema_inventory) op)
     \<Rightarrow> ('w, string, 'w run_store) op \<Rightarrow> (schema_inventory \<Rightarrow> sync_run_identity \<Rightarrow> 'w run_executor)
     \<Rightarrow> ('w, orchestration_error fault, sync_chunk_progress list) op"
where
  "run_mysql_sync to_json sha256_hex config read_evidence open_progress executor =
     bind_op (lift_op (map_err (\<lambda>e. Fail (ConfigInvalid (Fail e))) (validate_sync_config config))) (\<lambda>_.
     bind_op (map_err_op (\<lambda>e. Fail (ReadEvidence e)) (read_evidence (sc_source config))) (\<lambda>inventory.
       run_mysql_sync_with_evidence to_json sha256_hex config inventory open_progress (executor inventory)))"

section \<open>The stage store\<close>

type_synonym stage_view = "string \<Rightarrow> sync_stage \<Rightarrow> string \<Rightarrow> sync_progress_row option"

text \<open>What a store of stage rows promises: reading changes nothing, a write stores the row (with the
  server's own timestamps), and a failed write stores it or changes nothing.\<close>

locale stage_store =
  fixes store :: "'w run_store" and view :: "'w \<Rightarrow> stage_view"
  assumes store_load: "rs_load_stage store run stage t w = (r, w') \<Longrightarrow>
      view w' = view w \<and> (\<forall>x. r = Inr x \<longrightarrow> x = view w run stage t)"
    and store_save: "rs_save_stage store row w = (u, w') \<Longrightarrow>
      (\<exists>row'. same_progress row' row \<and>
         view w' = (\<lambda>run stage t. if run = pr_run_id row \<and> stage = pr_stage row \<and> t = pr_table_name row
           then Some row' else view w run stage t)) \<or> u \<noteq> Inr () \<and> view w' = view w"

definition status_row :: "string \<Rightarrow> sync_stage \<Rightarrow> string \<Rightarrow> sync_progress_status \<Rightarrow> string option \<Rightarrow> sync_progress_row \<Rightarrow> bool" where
  "status_row run stage t status err row \<longleftrightarrow> pr_run_id row = run \<and> pr_stage row = stage \<and> pr_table_name row = t \<and>
     pr_status row = status \<and> pr_last_error row = err"

text \<open>The rows of one stage moved for some tables, to rows of a kind, and nothing else changed.\<close>

definition stage_moved ::
  "string \<Rightarrow> sync_stage \<Rightarrow> string set \<Rightarrow> (string \<Rightarrow> sync_progress_row \<Rightarrow> bool) \<Rightarrow> stage_view \<Rightarrow> stage_view \<Rightarrow> bool"
where
  "stage_moved run stage ts P v v' \<longleftrightarrow>
     (\<forall>run' stage' t. v' run' stage' t = v run' stage' t \<or>
        run' = run \<and> stage' = stage \<and> t \<in> ts \<and> (\<exists>row. v' run' stage' t = Some row \<and> P t row))"

lemma stage_moved_refl [simp]: "stage_moved run stage ts P v v"
  by (simp add: stage_moved_def)

lemma stage_moved_trans:
  assumes "stage_moved run stage ts P u v" "stage_moved run stage ts P v w"
  shows "stage_moved run stage ts P u w"
  unfolding stage_moved_def
proof (intro allI)
  fix run' stage' t
  show "w run' stage' t = u run' stage' t \<or>
      run' = run \<and> stage' = stage \<and> t \<in> ts \<and> (\<exists>row. w run' stage' t = Some row \<and> P t row)"
    using assms [unfolded stage_moved_def, rule_format, of run' stage' t] by auto
qed

lemma stage_moved_mono:
  assumes "stage_moved run stage ts P u v" "ts \<subseteq> us" "\<And>t row. t \<in> ts \<Longrightarrow> P t row \<Longrightarrow> Q t row"
  shows "stage_moved run stage us Q u v"
  unfolding stage_moved_def
proof (intro allI)
  fix run' stage' t
  show "v run' stage' t = u run' stage' t \<or>
      run' = run \<and> stage' = stage \<and> t \<in> us \<and> (\<exists>row. v run' stage' t = Some row \<and> Q t row)"
    using assms(1) [unfolded stage_moved_def, rule_format, of run' stage' t] assms(2,3) by auto
qed

lemma stage_complete_iff:
  "stage_complete v run stage t \<longleftrightarrow> (\<exists>row err. v run stage t = Some row \<and> status_row run stage t Complete err row)"
  by (auto simp: stage_complete_def status_row_def)

lemma statuses_error:
  "save_stage_statuses store identity stage tables status w = (Inl e, w') \<Longrightarrow> \<exists>t m. e = SaveStage stage t m"
  by (induction tables arbitrary: w)
     (auto simp: ret_op_def bind_op_def map_err_op_def map_err_def save_stage_progress_def split: sum.splits prod.splits)

lemma load_error: "load_stage_progress store identity stage tables w = (Inl e, w') \<Longrightarrow> e \<noteq> StageFailed d ds"
  by (induction tables arbitrary: w)
     (auto simp: ret_op_def bind_op_def map_err_op_def map_err_def lift_op_def validate_stage_progress_def
       split: sum.splits prod.splits option.splits if_splits)

context stage_store
begin

lemma load_run:
  "load_stage_progress store identity stage tables w = (r, w') \<Longrightarrow>
   view w' = view w \<and> (\<forall>rows. r = Inr rows \<longrightarrow> rows = map (view w (id_run_id identity) stage) tables \<and>
     (\<forall>t \<in> set tables. \<forall>row. view w (id_run_id identity) stage t = Some row \<longrightarrow>
        pr_run_id row = id_run_id identity \<and> pr_stage row = stage \<and> pr_table_name row = t))"
proof (induction tables arbitrary: w r w')
  case Nil
  then show ?case by (auto simp: ret_op_def)
next
  case (Cons t tables)
  obtain q w1 where q: "rs_load_stage store (id_run_id identity) stage t w = (q, w1)" by fastforce
  note L = store_load [OF q]
  show ?case
  proof (cases q)
    case (Inl e)
    then show ?thesis using Cons.prems q L by (auto simp: bind_op_def map_err_op_def)
  next
    case (Inr row)
    let ?v = "case row of Some x \<Rightarrow> validate_stage_progress identity stage t x | None \<Rightarrow> Inr ()"
    have v: "(case row of Some x \<Rightarrow> lift_op (validate_stage_progress identity stage t x) | None \<Rightarrow> ret_op ()) = lift_op ?v"
      by (cases row) (auto simp: fun_eq_iff lift_op_def ret_op_def)
    have D: "bind_op (lift_op ?v) (\<lambda>_. bind_op (load_stage_progress store identity stage tables)
        (\<lambda>rows. ret_op (row # rows))) w1 = (r, w')"
      using Cons.prems q Inr unfolding load_stage_progress.simps bind_op_def [of "map_err_op _ _"] map_err_op_def
      by (simp add: v)
    show ?thesis
    proof (cases ?v)
      case v': (Inl e)
      then show ?thesis using D L unfolding v' by (auto simp: bind_op_def lift_op_def)
    next
      case v': (Inr u)
      obtain q2 w2 where q2: "load_stage_progress store identity stage tables w1 = (q2, w2)" by fastforce
      have keyed: "pr_run_id x = id_run_id identity \<and> pr_stage x = stage \<and> pr_table_name x = t" if "row = Some x" for x
        using v' that by (auto simp: validate_stage_progress_def split: if_splits)
      from D have "w' = w2 \<and> r = (case q2 of Inl e \<Rightarrow> Inl e | Inr rows \<Rightarrow> Inr (row # rows))"
        unfolding v' using q2 by (auto simp: bind_op_def lift_op_def ret_op_def split: sum.splits)
      then show ?thesis using Cons.IH [OF q2] L Inr keyed by (auto split: sum.splits)
    qed
  qed
qed

lemma save_run:
  assumes "rs_save_stage store (stage_progress_row identity stage t status err) w = (u, w')"
  shows "stage_moved (id_run_id identity) stage {t} (\<lambda>t. status_row (id_run_id identity) stage t status err) (view w) (view w') \<and>
    (u = Inr () \<longrightarrow> (\<exists>row. view w' (id_run_id identity) stage t = Some row \<and> status_row (id_run_id identity) stage t status err row))"
proof -
  have row: "status_row (id_run_id identity) stage t status err row'"
    if "same_progress row' (stage_progress_row identity stage t status err)" for row'
  proof -
    have "row' = (stage_progress_row identity stage t status err)\<lparr>pr_created_at := pr_created_at row',
        pr_updated_at := pr_updated_at row', pr_completed_at := pr_completed_at row'\<rparr>"
      using that by (simp add: same_progress_def)
    then show ?thesis by (rule ssubst) (simp add: status_row_def stage_progress_row_def)
  qed
  from store_save [OF assms] show ?thesis
  proof (elim disjE exE conjE)
    fix row' assume r: "same_progress row' (stage_progress_row identity stage t status err)"
      and v: "view w' = (\<lambda>run stage' t'. if run = pr_run_id (stage_progress_row identity stage t status err) \<and>
        stage' = pr_stage (stage_progress_row identity stage t status err) \<and>
        t' = pr_table_name (stage_progress_row identity stage t status err) then Some row' else view w run stage' t')"
    then show ?thesis using row [OF r] by (simp add: stage_moved_def stage_progress_row_def)
  next
    assume "u \<noteq> Inr ()" "view w' = view w"
    then show ?thesis by simp
  qed
qed

abbreviation row_at :: "sync_run_identity \<Rightarrow> sync_stage \<Rightarrow> string \<Rightarrow> sync_progress_status \<Rightarrow> string option \<Rightarrow> 'w \<Rightarrow> bool" where
  "row_at identity stage t status err w \<equiv>
     \<exists>row. view w (id_run_id identity) stage t = Some row \<and> status_row (id_run_id identity) stage t status err row"

lemma row_kept:
  assumes "row_at identity stage t status err w"
    and "stage_moved (id_run_id identity) stage ts (\<lambda>t. status_row (id_run_id identity) stage t status err) (view w) (view w')"
  shows "row_at identity stage t status err w'"
  using assms(1) assms(2) [unfolded stage_moved_def, rule_format, of "id_run_id identity" stage t] by auto

lemma statuses_run:
  "save_stage_statuses store identity stage tables status w = (u, w') \<Longrightarrow>
   stage_moved (id_run_id identity) stage (set tables) (\<lambda>t. status_row (id_run_id identity) stage t status None) (view w) (view w') \<and>
   (u = Inr () \<longrightarrow> (\<forall>t \<in> set tables. row_at identity stage t status None w'))"
proof (induction tables arbitrary: w u w')
  case Nil
  then show ?case by (auto simp: ret_op_def)
next
  case (Cons t tables)
  let ?P = "\<lambda>t. status_row (id_run_id identity) stage t status None"
  obtain q w1 where q: "rs_save_stage store (stage_progress_row identity stage t status None) w = (q, w1)" by fastforce
  note S = save_run [OF q]
  have first: "stage_moved (id_run_id identity) stage (set (t # tables)) ?P (view w) (view w1)"
    using S by (auto intro: stage_moved_mono)
  show ?case
  proof (cases q)
    case (Inl e)
    then have "w' = w1" "u \<noteq> Inr ()" using Cons.prems q by (auto simp: save_stage_progress_def bind_op_def map_err_op_def)
    then show ?thesis using first by simp
  next
    case (Inr _)
    then have rest: "save_stage_statuses store identity stage tables status w1 = (u, w')"
      using Cons.prems q by (auto simp: save_stage_progress_def bind_op_def map_err_op_def)
    note R = Cons.IH [OF rest]
    have more: "stage_moved (id_run_id identity) stage (set (t # tables)) ?P (view w1) (view w')"
      using R by (auto intro: stage_moved_mono)
    have "row_at identity stage t status None w'" using S Inr row_kept [OF _ more] by auto
    then show ?thesis using stage_moved_trans [OF first more] R by auto
  qed
qed

lemma errors_run:
  "save_stage_errors store identity stage tables e w = (errs, w') \<Longrightarrow>
   stage_moved (id_run_id identity) stage (set tables) (\<lambda>t. status_row (id_run_id identity) stage t ErrorStatus (Some e)) (view w) (view w') \<and>
   (errs = [] \<longrightarrow> (\<forall>t \<in> set tables. row_at identity stage t ErrorStatus (Some e) w'))"
proof (induction tables arbitrary: w errs w')
  case Nil
  then show ?case by simp
next
  case (Cons t tables)
  let ?P = "\<lambda>t. status_row (id_run_id identity) stage t ErrorStatus (Some e)"
  obtain q w1 where q: "rs_save_stage store (stage_progress_row identity stage t ErrorStatus (Some e)) w = (q, w1)" by fastforce
  obtain es w2 where es: "save_stage_errors store identity stage tables e w1 = (es, w2)" by fastforce
  note S = save_run [OF q] and R = Cons.IH [OF es]
  have w': "w' = w2" "errs = [] \<longrightarrow> q = Inr () \<and> es = []"
    using Cons.prems q es by (auto split: sum.splits)
  have first: "stage_moved (id_run_id identity) stage (set (t # tables)) ?P (view w) (view w1)"
    and more: "stage_moved (id_run_id identity) stage (set (t # tables)) ?P (view w1) (view w2)"
    using S R by (auto intro: stage_moved_mono)
  have "row_at identity stage t ErrorStatus (Some e) w'" if "errs = []"
    using S w' that row_kept [OF _ more] by auto
  then show ?case using stage_moved_trans [OF first more] R w' by auto
qed

lemma incomplete_tables:
  "incomplete_stage_tables tables (map v tables) =
     filter (\<lambda>t. \<not> (case v t of Some r \<Rightarrow> pr_status r = Complete | None \<Rightarrow> False)) tables"
  by (induction tables) (auto simp: incomplete_stage_tables_def)

text \<open>The outcome of a durable stage, for an action that leaves the stage rows alone.\<close>

lemma durable_stage:
  assumes run: "run_durable_schema_stage store identity stage tables action w = (r, w')"
    and action: "\<And>w u w'. action w = (u, w') \<Longrightarrow> view w' = view w"
  shows "(r = Inr () \<longrightarrow> (\<forall>t \<in> set tables. stage_complete (view w') (id_run_id identity) stage t)) \<and>
    (\<forall>e errs. r = Inl (StageFailed e errs) \<longrightarrow> (\<exists>w1 w2. action w1 = (Inl e, w2)) \<and>
       (errs = [] \<longrightarrow> (\<forall>t \<in> set tables. stage_complete (view w) (id_run_id identity) stage t \<or>
          row_at identity stage t ErrorStatus (Some e) w'))) \<and>
    (\<forall>run' stage' t. stage' \<noteq> stage \<or> stage_complete (view w) run' stage' t \<longrightarrow> view w' run' stage' t = view w run' stage' t)"
proof -
  let ?run = "id_run_id identity"
  obtain q w1 where q: "load_stage_progress store identity stage tables w = (q, w1)" by fastforce
  note L = load_run [OF q]
  show ?thesis
  proof (cases q)
    case (Inl e)
    then have w': "w' = w1" "r = Inl e" using run q by (auto simp: run_durable_schema_stage_def bind_op_def)
    moreover have "e \<noteq> StageFailed d ds" for d ds
      using load_error [of store identity stage tables w e w1] q Inl by simp
    ultimately show ?thesis using L by simp
  next
    case (Inr rows)
    let ?inc = "filter (\<lambda>t. \<not> (case view w ?run stage t of Some r \<Rightarrow> pr_status r = Complete | None \<Rightarrow> False)) tables"
    have keyed: "\<And>t row. t \<in> set tables \<Longrightarrow> view w ?run stage t = Some row \<Longrightarrow>
        pr_run_id row = ?run \<and> pr_stage row = stage \<and> pr_table_name row = t"
      using L Inr by blast
    have rows: "incomplete_stage_tables tables rows = ?inc" using L Inr by (simp add: incomplete_tables)
    have comp: "stage_complete (view w) ?run stage t \<longleftrightarrow> t \<notin> set ?inc" if "t \<in> set tables" for t
      using keyed [OF that] that by (auto simp: stage_complete_def split: option.splits)
    have inc_not: "\<not> stage_complete (view w) ?run stage t" if "t \<in> set ?inc" for t
      using that by (auto simp: stage_complete_def split: option.splits)
    show ?thesis
    proof (cases "?inc = []")
      case True
      then have "r = Inr ()" "w' = w1" using run q Inr rows
        by (auto simp: run_durable_schema_stage_def bind_op_def ret_op_def)
      then show ?thesis using L comp True by simp
    next
      case False
      obtain u w2 where u: "save_stage_statuses store identity stage ?inc Running w1 = (u, w2)" by fastforce
      obtain a w3 where a: "action w2 = (a, w3)" by fastforce
      note U = statuses_run [OF u]
      let ?P = "\<lambda>_ row. \<exists>t status err. status_row ?run stage t status err row"
      have m1: "stage_moved ?run stage (set ?inc) ?P (view w) (view w2)"
        using U L by (auto intro: stage_moved_mono)
      have frame: "\<forall>run' stage' t. stage' \<noteq> stage \<or> stage_complete (view w) run' stage' t \<longrightarrow> view w' run' stage' t = view w run' stage' t"
        if m: "stage_moved ?run stage (set ?inc) ?P (view w) (view w')"
      proof (intro allI impI)
        fix run' stage' t assume "stage' \<noteq> stage \<or> stage_complete (view w) run' stage' t"
        then show "view w' run' stage' t = view w run' stage' t"
          using m [unfolded stage_moved_def, rule_format, of run' stage' t] inc_not by auto
      qed
      show ?thesis
      proof (cases u)
        case u': (Inl e)
        then have r: "r = Inl e" "w' = w2" using run q Inr rows False u
          by (auto simp: run_durable_schema_stage_def bind_op_def Let_def)
        have "e \<noteq> StageFailed d ds" for d ds
          using statuses_error [of store identity stage ?inc Running w1 e w2] u u' by auto
        then show ?thesis using r frame m1 by simp
      next
        case u': (Inr _)
        have D: "persist_schema_stage_result store identity stage ?inc a w3 = (r, w')"
          using run q Inr rows False u u' a by (auto simp: run_durable_schema_stage_def bind_op_def Let_def)
        have v3: "view w3 = view w2" by (rule action [OF a])
        show ?thesis
        proof (cases a)
          case a': (Inl e)
          then obtain errs where errs: "save_stage_errors store identity stage ?inc e w3 = (errs, w')" "r = Inl (StageFailed e errs)"
            using D by (auto simp: persist_schema_stage_result_def persist_schema_stage_error_def split: prod.splits)
          note E = errors_run [OF errs(1)]
          have m2: "stage_moved ?run stage (set ?inc) ?P (view w2) (view w')"
            using E v3 by (auto intro: stage_moved_mono)
          have "(\<exists>w1 w2. action w1 = (Inl e, w2))" using a a' by blast
          moreover have "stage_complete (view w) ?run stage t \<or> row_at identity stage t ErrorStatus (Some e) w'"
            if "errs = []" "t \<in> set tables" for t
            using E that comp by blast
          ultimately show ?thesis using frame [OF stage_moved_trans [OF m1 m2]] errs(2) by simp
        next
          case a': (Inr _)
          then have c: "save_stage_statuses store identity stage ?inc Complete w3 = (r, w')"
            using D by (simp add: persist_schema_stage_result_def)
          note C = statuses_run [OF c]
          have m2: "stage_moved ?run stage (set ?inc) ?P (view w2) (view w')"
            using C v3 by (auto intro: stage_moved_mono)
          note F = frame [OF stage_moved_trans [OF m1 m2]]
          have "stage_complete (view w') ?run stage t" if "r = Inr ()" "t \<in> set tables" for t
          proof (cases "t \<in> set ?inc")
            case True
            then have "row_at identity stage t Complete None w'" using C that(1) by blast
            then show ?thesis unfolding stage_complete_iff by blast
          next
            case False
            then have "stage_complete (view w) ?run stage t" using comp that(2) by blast
            moreover from this have "view w' ?run stage t = view w ?run stage t" using F by blast
            ultimately show ?thesis by (simp add: stage_complete_def)
          qed
          moreover have "r \<noteq> Inl (StageFailed e errs)" for e errs
            using statuses_error [of store identity stage ?inc Complete w3 "StageFailed e errs" w'] c by auto
          ultimately show ?thesis using F by simp
        qed
      qed
    qed
  qed
qed

end

section \<open>Instances\<close>

text \<open>The stage rows of a MySQL server keep the store contract.\<close>

definition session_store :: "'w mysql_server \<Rightarrow> 'w session run_store" where
  "session_store srv =
     \<lparr>rs_load_stage = (\<lambda>run stage t. on_server (my_load_stage srv run stage t)),
      rs_save_stage = (\<lambda>row. on_server (my_save_stage srv row))\<rparr>"

lemma mysql_stage_store:
  assumes "mysql_engine srv ts lt view"
  shows "stage_store (session_store srv) (\<lambda>s. dv_rows (view (se_server s)))"
proof (unfold_locales, goal_cases)
  case (1 run stage t w r w')
  then obtain m where "my_load_stage srv run stage t (se_server w) = (r, m)" "se_server w' = m"
    by (auto simp: session_store_def on_server_def split: prod.splits)
  with mysql_engine.load_stage [OF assms] show ?case by fastforce
next
  case (2 row w u w')
  then have "my_save_stage srv row (se_server w) = (u, se_server w')"
    by (auto simp: session_store_def on_server_def split: prod.splits)
  from mysql_engine.save_stage [OF assms this] show ?case by auto
qed

interpretation memory_stages: stage_store "session_store (memory_server table)" "\<lambda>s. dv_rows (mem_view table (se_server s))"
  for table
  by (rule mysql_stage_store [OF memory_engine])

section \<open>Lemmas on selection\<close>

lemma check_selected_Inr:
  "check_selected inventory seen names = Inr res \<longleftrightarrow>
     distinct names \<and> set names \<inter> set seen = {} \<and> set names \<subseteq> ti_name ` set (si_tables inventory) \<and>
     res = fold bts_insert names seen"
  by (induction names arbitrary: seen) auto

lemma parents_Inr:
  "require_selected_same_schema_parents schema keys selected = Inr () \<longleftrightarrow>
     (\<forall>key \<in> set keys. fk_table key \<in> set selected \<and> fk_referenced_schema key = schema \<longrightarrow> fk_referenced_table key \<in> set selected)"
  by (induction keys) (auto simp: Let_def)

lemma validate_selected_Inr:
  "validate_selected_tables inventory selected = Inr () \<longleftrightarrow>
     selected \<noteq> [] \<and> distinct selected \<and> set selected \<subseteq> ti_name ` set (si_tables inventory) \<and>
     (\<forall>key \<in> set (si_foreign_keys inventory). fk_table key \<in> set selected \<and> fk_referenced_schema key = si_schema inventory \<longrightarrow>
        fk_referenced_table key \<in> set selected)"
  by (auto simp: validate_selected_tables_def check_selected_Inr parents_Inr set_fold_bts_insert)

section \<open>Properties\<close>


definition stage_demo :: "string + unit \<Rightarrow> (orchestration_error + unit) \<times> memory session" where
  "stage_demo result = run_durable_schema_stage (session_store (memory_server demo_table)) demo_identity PrerequisiteSchema [''t'', ''u'']
     (lift_op result) demo_session"


text \<open>C23. The stages of a run are in order: a successful run has every prerequisite and every final
  constraint stage complete, and a final constraint stage becomes complete only after the rows of
  all tables have been synchronised.\<close>

theorem stages_in_order:
  assumes "stage_store store view"
    and "\<forall>stage w u w'. ex_run_schema_stage executor stage w = (u, w') \<longrightarrow> view w' = view w"
    and "\<forall>w u w' run t stage. ex_run_rows executor tables w = (u, w') \<longrightarrow> stage \<noteq> RowsStage \<longrightarrow>
      view w' run stage t = view w run stage t"
    and "run_sync_orchestration identity tables executor store w = (r, w')"
  shows "(\<forall>reports. r = Inr reports \<longrightarrow> (\<exists>w1 w2. ex_run_rows executor tables w1 = (Inr reports, w2)) \<and>
      (\<forall>t \<in> set tables. stage_complete (view w') (id_run_id identity) PrerequisiteSchema (st_name t) \<and>
         stage_complete (view w') (id_run_id identity) FinalConstraints (st_name t))) \<and>
    (\<forall>run t. stage_complete (view w') run FinalConstraints t \<and> \<not> stage_complete (view w) run FinalConstraints t \<longrightarrow>
       (\<exists>w1 w2 reports. ex_run_rows executor tables w1 = (Inr reports, w2)))"
proof -
  let ?names = "map st_name tables"
  obtain q1 w1 where q1: "run_durable_schema_stage store identity PrerequisiteSchema ?names (ex_run_schema_stage executor PrerequisiteSchema) w = (q1, w1)"
    by fastforce
  note D1 = stage_store.durable_stage [OF assms(1) q1 assms(2) [rule_format]]
  have final1: "view w1 run FinalConstraints t = view w run FinalConstraints t" for run t using D1 by simp
  show ?thesis
  proof (cases q1)
    case (Inl e)
    then have "r = Inl e" "w' = w1" using assms(4) q1 by (auto simp: run_sync_orchestration_def Let_def bind_op_def)
    moreover have "stage_complete (view w1) run FinalConstraints t = stage_complete (view w) run FinalConstraints t" for run t
      by (simp add: stage_complete_def final1)
    ultimately show ?thesis by simp
  next
    case (Inr _)
    obtain q2 w2 where q2: "ex_run_rows executor tables w1 = (q2, w2)" by fastforce
    have same2: "view w2 run stage t = view w1 run stage t" if "stage \<noteq> RowsStage" for run stage t
      using assms(3) q2 that by blast
    show ?thesis
    proof (cases q2)
      case q2': (Inl e)
      then have "r = Inl (RowsFailed e)" "w' = w2" using assms(4) q1 Inr q2
        by (auto simp: run_sync_orchestration_def Let_def bind_op_def map_err_op_def)
      moreover have "stage_complete (view w2) run FinalConstraints t = stage_complete (view w) run FinalConstraints t" for run t
        by (simp add: stage_complete_def final1 same2)
      ultimately show ?thesis by simp
    next
      case q2': (Inr reports)
      obtain q3 w3 where q3: "run_durable_schema_stage store identity FinalConstraints ?names (ex_run_schema_stage executor FinalConstraints) w2 = (q3, w3)"
        by fastforce
      note D3 = stage_store.durable_stage [OF assms(1) q3 assms(2) [rule_format]]
      have r: "w' = w3" "r = (case q3 of Inl e \<Rightarrow> Inl e | Inr _ \<Rightarrow> Inr reports)"
        using assms(4) q1 Inr q2 q2' q3
        by (auto simp: run_sync_orchestration_def Let_def bind_op_def map_err_op_def ret_op_def split: sum.splits)
      have pre: "stage_complete (view w3) (id_run_id identity) PrerequisiteSchema (st_name t)" if "t \<in> set tables" for t
      proof -
        have "stage_complete (view w1) (id_run_id identity) PrerequisiteSchema (st_name t)" using D1 Inr that by simp
        moreover have "view w3 run PrerequisiteSchema u = view w1 run PrerequisiteSchema u" for run u
          using D3 same2 by simp
        ultimately show ?thesis by (simp add: stage_complete_def)
      qed
      have fin: "stage_complete (view w3) (id_run_id identity) FinalConstraints (st_name t)" if "t \<in> set tables" "q3 = Inr ()" for t
        using D3 that by simp
      have "q3 = Inr ()" if "r = Inr reports'" for reports' using r(2) that by (cases q3) auto
      then show ?thesis using pre fin r q2 q2' by (cases q3) auto
    qed
  qed
qed

definition order_demo :: "(orchestration_error + sync_chunk_progress list) \<times> memory session" where
  "order_demo = run_sync_orchestration demo_identity [demo_table]
     (mysql_run_executor (\<lambda>_. ret_op ()) (\<lambda>_. ret_op [])) (session_store (memory_server demo_table)) demo_session"

theorem stages_in_order_witness:
  "stage_complete (dv_rows (mem_view demo_table (se_server (snd order_demo)))) ''r'' FinalConstraints ''t''"
proof -
  have ok: "case fst order_demo of Inr _ \<Rightarrow> True | Inl _ \<Rightarrow> False" by code_simp
  then obtain reports where reps: "fst order_demo = Inr reports" by (auto split: sum.splits)
  have run: "run_sync_orchestration demo_identity [demo_table]
     (mysql_run_executor (\<lambda>_. ret_op ()) (\<lambda>_. ret_op [])) (session_store (memory_server demo_table)) demo_session
     = (Inr reports, snd order_demo)"
    using reps by (simp add: order_demo_def prod_eq_iff)
  have "stage_complete (dv_rows (mem_view demo_table (se_server (snd order_demo)))) (id_run_id demo_identity) FinalConstraints (st_name demo_table)"
    using stages_in_order [OF memory_stages.stage_store_axioms _ _ run]
    by (auto simp: mysql_run_executor_def ret_op_def fail_op_def split: sync_stage.splits)
  then show ?thesis by (simp add: demo_identity_def demo_table_def)
qed

text \<open>C24. The selected tables: a selection is accepted exactly when it is a nonempty list of distinct
  source tables that contains the parent of every selected child within the schema; each selected
  table is then read from the inventory, in the order of the selection, and the \<open>expect\<close> on the
  lookup never fails.\<close>

theorem selection_decides:
  "(validate_selected_tables inventory selected = Inr () \<longleftrightarrow>
      selected \<noteq> [] \<and> distinct selected \<and> set selected \<subseteq> ti_name ` set (si_tables inventory) \<and>
      (\<forall>key \<in> set (si_foreign_keys inventory). fk_table key \<in> set selected \<and> fk_referenced_schema key = si_schema inventory \<longrightarrow>
         fk_referenced_table key \<in> set selected)) \<and>
   (\<forall>tables. sync_tables_from_source_inventory inventory selected = Inr tables \<longrightarrow>
      map st_name tables = selected \<and> (\<forall>t \<in> set tables. sync_table_wf t)) \<and>
   (\<forall>message. sync_tables_from_source_inventory inventory selected \<noteq> Inl (Panic message))"
proof (intro conjI allI impI)
  let ?f = "\<lambda>name. case find (\<lambda>table. ti_name table = name) (si_tables inventory) of
      None \<Rightarrow> Inl (Panic ''validated selected source table'')
    | Some table \<Rightarrow> map_err (\<lambda>e. Fail (TableShape e)) (sync_table_from_inventory table)"
  show "validate_selected_tables inventory selected = Inr () \<longleftrightarrow>
      selected \<noteq> [] \<and> distinct selected \<and> set selected \<subseteq> ti_name ` set (si_tables inventory) \<and>
      (\<forall>key \<in> set (si_foreign_keys inventory). fk_table key \<in> set selected \<and> fk_referenced_schema key = si_schema inventory \<longrightarrow>
         fk_referenced_table key \<in> set selected)"
    by (rule validate_selected_Inr)
  fix tables assume "sync_tables_from_source_inventory inventory selected = Inr tables"
  then have all: "list_all2 (\<lambda>name t. ?f name = Inr t) selected tables"
    by (simp add: sync_tables_from_source_inventory_def collect_res_Inr_iff)
  have one: "st_name t = name \<and> sync_table_wf t" if "?f name = Inr t" for name t
    using that by (auto simp: find_Some_iff table_from_inventory_wf dest: table_from_inventory_Inr split: option.splits)
  show "map st_name tables = selected" using all by (induction rule: list_all2_induct) (use one in simp_all)
  show "\<forall>t \<in> set tables. sync_table_wf t" using all by (induction rule: list_all2_induct) (use one in simp_all)
next
  fix message
  show "sync_tables_from_source_inventory inventory selected \<noteq> Inl (Panic message)"
  proof
    assume bad: "sync_tables_from_source_inventory inventory selected = Inl (Panic message)"
    then have ok: "validate_selected_tables inventory selected = Inr ()"
      by (auto simp: sync_tables_from_source_inventory_def bind_res_eq_Inl map_err_def split: sum.splits)
    with bad obtain name where name: "name \<in> set selected" and none: "find (\<lambda>table. ti_name table = name) (si_tables inventory) = None"
      by (auto simp: sync_tables_from_source_inventory_def map_err_def dest!: collect_res_Inl_D split: option.splits sum.splits)
    have "name \<in> ti_name ` set (si_tables inventory)" using ok name unfolding validate_selected_Inr by blast
    then show False using none by (auto simp: find_None_iff)
  qed
qed

definition select_inventory :: schema_inventory where
  "select_inventory =
     \<lparr>si_schema = ''catalog'', si_tables = [example_table_inventory], si_indexes = [], si_foreign_keys = [example_fk ''c'' ''t''],
      si_views = [], si_triggers = [], si_routines = [], si_events = []\<rparr>"

theorem selection_decides_witness:
  "\<exists>tables. sync_tables_from_source_inventory select_inventory [''t''] = Inr tables \<and> map st_name tables = [''t'']"
proof -
  have "case sync_tables_from_source_inventory select_inventory [''t''] of Inr _ \<Rightarrow> True | Inl _ \<Rightarrow> False"
    by code_simp
  then obtain tables where t: "sync_tables_from_source_inventory select_inventory [''t''] = Inr tables"
    by (auto split: sum.splits)
  then show ?thesis using selection_decides [of select_inventory "[''t'']"] by blast
qed

end
