(* ===== verification/Unicode_Text.thy ===== *)
theory Unicode_Text
  imports Cdc_Prelude
begin

text \<open>
  Character-level text processing. A Rust \<open>str\<close> is a byte list that is valid UTF-8; code that
  iterates over \<open>chars()\<close> sees Unicode scalar values, which are integers here. \<open>utf8_chars\<close> is
  \<open>str::chars\<close>; the remaining definitions are the standard-library predicates and searches used by
  the SQL classifiers (\<open>src/src/statement.rs\<close>) and the query tokenizer
  (\<open>src/src/live/structured_stream/token.rs\<close>).
\<close>

section \<open>Characters\<close>

type_synonym chars = "int list"

definition byte :: "char \<Rightarrow> int" where
  "byte c = of_char c"

fun utf8_chars :: "string \<Rightarrow> chars" where
  "utf8_chars [] = []"
| "utf8_chars [a] = [byte a]"
| "utf8_chars [a, b] =
     (if 0xC0 \<le> byte a \<and> byte a < 0xE0 then [(byte a - 0xC0) * 64 + (byte b - 0x80)]
      else byte a # utf8_chars [b])"
| "utf8_chars [a, b, c] =
     (if byte a < 0xC0 then byte a # utf8_chars [b, c]
      else if byte a < 0xE0 then ((byte a - 0xC0) * 64 + (byte b - 0x80)) # utf8_chars [c]
      else [((byte a - 0xE0) * 64 + (byte b - 0x80)) * 64 + (byte c - 0x80)])"
| "utf8_chars (a # b # c # d # s) =
     (if byte a < 0xC0 then byte a # utf8_chars (b # c # d # s)
      else if byte a < 0xE0 then ((byte a - 0xC0) * 64 + (byte b - 0x80)) # utf8_chars (c # d # s)
      else if byte a < 0xF0 then
        (((byte a - 0xE0) * 64 + (byte b - 0x80)) * 64 + (byte c - 0x80)) # utf8_chars (d # s)
      else ((((byte a - 0xF0) * 64 + (byte b - 0x80)) * 64 + (byte c - 0x80)) * 64
              + (byte d - 0x80)) # utf8_chars s)"

definition is_whitespace :: "int \<Rightarrow> bool" where
  "is_whitespace c \<longleftrightarrow>
     9 \<le> c \<and> c \<le> 13 \<or> c = 32 \<or> c = 0x85 \<or> c = 0xA0 \<or> c = 0x1680
     \<or> 0x2000 \<le> c \<and> c \<le> 0x200A \<or> c = 0x2028 \<or> c = 0x2029 \<or> c = 0x202F \<or> c = 0x205F \<or> c = 0x3000"

definition is_control :: "int \<Rightarrow> bool" where
  "is_control c \<longleftrightarrow> 0 \<le> c \<and> c < 32 \<or> 127 \<le> c \<and> c < 160"

definition is_ascii_digit :: "int \<Rightarrow> bool" where
  "is_ascii_digit c \<longleftrightarrow> 48 \<le> c \<and> c \<le> 57"

definition is_ascii_upper :: "int \<Rightarrow> bool" where
  "is_ascii_upper c \<longleftrightarrow> 65 \<le> c \<and> c \<le> 90"

definition is_ascii_lower :: "int \<Rightarrow> bool" where
  "is_ascii_lower c \<longleftrightarrow> 97 \<le> c \<and> c \<le> 122"

definition is_ascii_alphabetic :: "int \<Rightarrow> bool" where
  "is_ascii_alphabetic c \<longleftrightarrow> is_ascii_upper c \<or> is_ascii_lower c"

definition is_ascii_alphanumeric :: "int \<Rightarrow> bool" where
  "is_ascii_alphanumeric c \<longleftrightarrow> is_ascii_alphabetic c \<or> is_ascii_digit c"

definition ascii_upper :: "int \<Rightarrow> int" where
  "ascii_upper c = (if is_ascii_lower c then c - 32 else c)"

definition ascii_lower :: "int \<Rightarrow> int" where
  "ascii_lower c = (if is_ascii_upper c then c + 32 else c)"

definition to_ascii_uppercase :: "chars \<Rightarrow> chars" where
  "to_ascii_uppercase t = map ascii_upper t"

definition to_ascii_lowercase :: "chars \<Rightarrow> chars" where
  "to_ascii_lowercase t = map ascii_lower t"

definition same_ignoring_case :: "chars \<Rightarrow> chars \<Rightarrow> bool" where
  "same_ignoring_case s t \<longleftrightarrow> to_ascii_lowercase s = to_ascii_lowercase t"

section \<open>Searching and trimming\<close>

definition trim_start :: "chars \<Rightarrow> chars" where
  "trim_start t = dropWhile is_whitespace t"

definition trim_end_matches :: "(int \<Rightarrow> bool) \<Rightarrow> chars \<Rightarrow> chars" where
  "trim_end_matches p t = rev (dropWhile p (rev t))"

definition trim :: "chars \<Rightarrow> chars" where
  "trim t = trim_end_matches is_whitespace (trim_start t)"

definition starts_with :: "chars \<Rightarrow> chars \<Rightarrow> bool" where
  "starts_with p t \<longleftrightarrow> take (length p) t = p"

fun text_contains :: "chars \<Rightarrow> chars \<Rightarrow> bool" where
  "text_contains p [] = (p = [])"
| "text_contains p (c # t) = (starts_with p (c # t) \<or> text_contains p t)"

text \<open>\<open>str::split_once\<close>: the text before and after the first occurrence.\<close>

fun split_once_text :: "chars \<Rightarrow> chars \<Rightarrow> (chars \<times> chars) option" where
  "split_once_text p [] = (if p = [] then Some ([], []) else None)"
| "split_once_text p (c # t) =
     (if starts_with p (c # t) then Some ([], drop (length p) (c # t))
      else map_option (\<lambda>(a, b). (c # a, b)) (split_once_text p t))"

text \<open>\<open>str::split_whitespace\<close>: the maximal runs of non-whitespace characters.\<close>

function split_whitespace :: "chars \<Rightarrow> chars list" where
  "split_whitespace t =
     (let s = trim_start t in
      if s = [] then []
      else takeWhile (\<lambda>c. \<not> is_whitespace c) s
             # split_whitespace (dropWhile (\<lambda>c. \<not> is_whitespace c) s))"
  by pat_completeness auto

lemma length_trim_start_le: "length (trim_start t) \<le> length t"
  by (simp add: trim_start_def length_dropWhile_le)

lemma split_whitespace_step:
  assumes "trim_start t = s" and "s \<noteq> []"
  shows "length (dropWhile (\<lambda>c. \<not> is_whitespace c) s) < length t"
proof -
  obtain c r where s: "s = c # r"
    using \<open>s \<noteq> []\<close> by (cases s) auto
  then have "\<not> is_whitespace c"
    using assms(1) hd_dropWhile [of is_whitespace t] by (auto simp: trim_start_def)
  then have "length (dropWhile (\<lambda>c. \<not> is_whitespace c) s) \<le> length r"
    by (simp add: s length_dropWhile_le)
  also have "\<dots> < length t"
    using length_trim_start_le [of t] by (simp add: assms(1) s)
  finally show ?thesis .
qed

termination split_whitespace
  by (relation "measure length") (auto intro: split_whitespace_step)

declare split_whitespace.simps [simp del]

fun join_text :: "chars \<Rightarrow> chars list \<Rightarrow> chars" where
  "join_text sep [] = []"
| "join_text sep [x] = x"
| "join_text sep (x # y # xs) = x @ sep @ join_text sep (y # xs)"

text \<open>
  \<open>str::match_indices\<close> for a non-empty pattern, each non-overlapping match given by the characters
  just before and just after it.
\<close>

function match_contexts :: "chars \<Rightarrow> int option \<Rightarrow> chars \<Rightarrow> (int option \<times> int option) list" where
  "match_contexts p prev [] = []"
| "match_contexts p prev (c # t) =
     (if starts_with p (c # t)
      then (prev, case drop (length p) (c # t) of [] \<Rightarrow> None | d # _ \<Rightarrow> Some d)
             # match_contexts p (Some (last p)) (drop (length p - 1) t)
      else match_contexts p (Some c) t)"
  by pat_completeness auto
termination match_contexts
  by (relation "measure (\<lambda>(p, prev, t). length t)") auto

section \<open>Lemmas\<close>

lemma whitespace_not_word:
  "is_ascii_alphanumeric c \<Longrightarrow> \<not> is_whitespace c"
  by (auto simp: is_ascii_alphanumeric_def is_ascii_alphabetic_def is_ascii_upper_def
      is_ascii_lower_def is_ascii_digit_def is_whitespace_def)

lemma ascii_upper_ascii_lower:
  "ascii_upper c = ascii_upper d \<longleftrightarrow> ascii_lower c = ascii_lower d"
  by (auto simp: ascii_upper_def ascii_lower_def is_ascii_lower_def is_ascii_upper_def)

lemma ascii_upper_idem [simp]: "ascii_upper (ascii_upper c) = ascii_upper c"
  by (auto simp: ascii_upper_def is_ascii_lower_def)

lemma is_whitespace_ascii_upper [simp]: "is_whitespace (ascii_upper c) = is_whitespace c"
  by (auto simp: ascii_upper_def is_whitespace_def is_ascii_lower_def)

lemma same_ignoring_case_refl [simp]: "same_ignoring_case t t"
  by (simp add: same_ignoring_case_def)

lemma starts_with_append [simp]: "starts_with p (p @ t)"
  by (simp add: starts_with_def)

lemma starts_with_iff: "starts_with p t \<longleftrightarrow> (\<exists>s. t = p @ s)"
  by (metis append_take_drop_id starts_with_append starts_with_def)

end
