(* ===== verification/Query_Tokens.thy ===== *)
theory Query_Tokens
  imports Unicode_Text
begin

text \<open>
  The query tokenizer of the stream (\<open>src/src/live/structured_stream/token.rs\<close>), which decides
  whether the SQL text of a query event names a schema or contains a qualified identifier. The
  code walks a character vector with an index; here the index is the suffix of the vector from it
  on, so \<open>next_query_token\<close> returns the rest of the text. Totality of \<open>query_tokens_with_mode\<close> is
  the statement that every token consumes at least one character.
\<close>

section \<open>Definitions\<close>

datatype query_token = Identifier chars | Number | Dot | StringTok | Other

abbreviation "ch_star \<equiv> (42::int)"
abbreviation "ch_slash \<equiv> (47::int)"
abbreviation "ch_dash \<equiv> (45::int)"
abbreviation "ch_hash \<equiv> (35::int)"
abbreviation "ch_dot \<equiv> (46::int)"
abbreviation "ch_quote \<equiv> (39::int)"
abbreviation "ch_dquote \<equiv> (34::int)"
abbreviation "ch_backtick \<equiv> (96::int)"
abbreviation "ch_backslash \<equiv> (92::int)"
abbreviation "ch_newline \<equiv> (10::int)"
abbreviation "ch_underscore \<equiv> (95::int)"
abbreviation "ch_dollar \<equiv> (36::int)"

definition is_identifier_char :: "int \<Rightarrow> bool" where
  "is_identifier_char c \<longleftrightarrow> is_ascii_alphanumeric c \<or> c = ch_underscore \<or> c = ch_dollar"

definition is_number_char :: "int \<Rightarrow> bool" where
  "is_number_char c \<longleftrightarrow> is_ascii_alphanumeric c \<or> c = ch_underscore"

definition query_identifier_token :: "int \<Rightarrow> chars \<Rightarrow> query_token option \<times> chars" where
  "query_identifier_token c rest =
     (Some (Identifier (c # takeWhile is_identifier_char rest)), dropWhile is_identifier_char rest)"

definition query_number_token :: "chars \<Rightarrow> query_token option \<times> chars" where
  "query_number_token rest = (Some Number, dropWhile is_number_char rest)"

definition is_mysql_line_comment_start :: "int \<Rightarrow> int option \<Rightarrow> int option \<Rightarrow> bool" where
  "is_mysql_line_comment_start c next next_next \<longleftrightarrow>
     c = ch_dash \<and> next = Some ch_dash
     \<and> (case next_next of None \<Rightarrow> True | Some d \<Rightarrow> is_whitespace d \<or> is_control d)"

definition skip_query_line_comment :: "chars \<Rightarrow> chars" where
  "skip_query_line_comment cs = dropWhile (\<lambda>c. c \<noteq> ch_newline) cs"

fun skip_query_block_comment :: "chars \<Rightarrow> chars" where
  "skip_query_block_comment (a # b # cs) =
     (if a = ch_star \<and> b = ch_slash then cs else skip_query_block_comment (b # cs))"
| "skip_query_block_comment cs = []"

fun query_quoted_identifier :: "int \<Rightarrow> chars \<Rightarrow> chars \<times> chars" where
  "query_quoted_identifier q [] = ([], [])"
| "query_quoted_identifier q [c] = (if c = q then [] else [c], [])"
| "query_quoted_identifier q (c # d # cs) =
     (if c = q then
        (if d = q then (case query_quoted_identifier q cs of (v, rest) \<Rightarrow> (q # v, rest))
         else ([], d # cs))
      else (case query_quoted_identifier q (d # cs) of (v, rest) \<Rightarrow> (c # v, rest)))"

fun skip_query_string :: "bool \<Rightarrow> bool \<Rightarrow> chars \<Rightarrow> chars" where
  "skip_query_string nb escaped [] = []"
| "skip_query_string nb escaped [c] = []"
| "skip_query_string nb escaped (c # d # cs) =
     (if escaped then skip_query_string nb False (d # cs)
      else if c = ch_backslash \<and> \<not> nb then skip_query_string nb True (d # cs)
      else if c = ch_quote then
        (if d = ch_quote then skip_query_string nb False cs else d # cs)
      else skip_query_string nb False (d # cs))"

definition nth_char :: "nat \<Rightarrow> chars \<Rightarrow> int option" where
  "nth_char n cs = (case drop n cs of [] \<Rightarrow> None | c # _ \<Rightarrow> Some c)"

definition next_query_token :: "bool \<Rightarrow> int \<Rightarrow> chars \<Rightarrow> query_token option \<times> chars" where
  "next_query_token nb c rest =
     (let next = nth_char 0 rest; next_next = nth_char 1 rest in
      if is_whitespace c then (None, rest)
      else if c = ch_hash \<or> is_mysql_line_comment_start c next next_next then
        (None, skip_query_line_comment (if c = ch_hash then rest else drop 1 rest))
      else if c = ch_slash \<and> next = Some ch_star then
        (None, skip_query_block_comment (drop 1 rest))
      else if c = ch_backtick \<or> c = ch_dquote then
        (case query_quoted_identifier c rest of (v, rest') \<Rightarrow> (Some (Identifier v), rest'))
      else if c = ch_quote then (Some StringTok, skip_query_string nb False rest)
      else if c = ch_dot then (Some Dot, rest)
      else if is_ascii_alphabetic c \<or> c = ch_underscore \<or> c = ch_dollar then
        query_identifier_token c rest
      else if is_ascii_digit c then query_number_token rest
      else (Some Other, rest))"

function query_tokens_with_mode :: "bool \<Rightarrow> chars \<Rightarrow> query_token list" where
  "query_tokens_with_mode nb [] = []"
| "query_tokens_with_mode nb (c # rest) =
     (case next_query_token nb c rest of
        (None, rest') \<Rightarrow> query_tokens_with_mode nb rest'
      | (Some tok, rest') \<Rightarrow> tok # query_tokens_with_mode nb rest')"
  by pat_completeness auto

lemma length_skip_block_comment: "length (skip_query_block_comment cs) \<le> length cs"
  by (induction cs rule: skip_query_block_comment.induct) auto

lemma length_quoted_identifier: "length (snd (query_quoted_identifier q cs)) \<le> length cs"
  by (induction q cs rule: query_quoted_identifier.induct) (auto split: prod.splits)

lemma length_skip_string: "length (skip_query_string nb e cs) \<le> length cs"
proof (induction nb e cs rule: skip_query_string.induct)
  case (3 nb escaped c d cs)
  then show ?case by (cases escaped) (auto simp: le_SucI)
qed auto

lemma next_query_token_shrinks: "length (snd (next_query_token nb c rest)) \<le> length rest"
proof -
  have line: "length (skip_query_line_comment cs) \<le> length cs" for cs
    by (simp add: skip_query_line_comment_def length_dropWhile_le)
  have "length (skip_query_line_comment (drop 1 rest)) \<le> length rest"
    using line [of "drop 1 rest"] by simp
  moreover have "length (skip_query_block_comment (drop 1 rest)) \<le> length rest"
    using length_skip_block_comment [of "drop 1 rest"] by simp
  ultimately show ?thesis
    using line [of rest] length_quoted_identifier [of c rest]
    by (auto simp: next_query_token_def Let_def query_identifier_token_def query_number_token_def
        length_skip_string length_dropWhile_le split: prod.splits)
qed

lemma next_query_token_step:
  "next_query_token nb c rest = (tok, rest') \<Longrightarrow> length rest' < Suc (length rest)"
  using next_query_token_shrinks [of nb c rest] by simp

termination query_tokens_with_mode
  by (relation "measure (\<lambda>(nb, cs). length cs)") (auto dest: next_query_token_step [OF sym])

fun references_schema :: "chars \<Rightarrow> query_token list \<Rightarrow> bool" where
  "references_schema schema (Identifier v # Dot # ts) =
     (same_ignoring_case v schema \<or> references_schema schema (Dot # ts))"
| "references_schema schema (t # ts) = references_schema schema ts"
| "references_schema schema [] = False"

definition query_references_schema_with_mode :: "chars \<Rightarrow> chars \<Rightarrow> bool \<Rightarrow> bool" where
  "query_references_schema_with_mode sql schema nb =
     references_schema schema (query_tokens_with_mode nb sql)"

definition query_references_schema :: "chars \<Rightarrow> chars \<Rightarrow> bool" where
  "query_references_schema sql schema = query_references_schema_with_mode sql schema False"

fun contains_qualified :: "query_token list \<Rightarrow> bool" where
  "contains_qualified (Identifier v # Dot # Identifier w # ts) = True"
| "contains_qualified (t # ts) = contains_qualified ts"
| "contains_qualified [] = False"

definition query_contains_qualified_identifier_with_mode :: "chars \<Rightarrow> bool \<Rightarrow> bool" where
  "query_contains_qualified_identifier_with_mode sql nb =
     contains_qualified (query_tokens_with_mode nb sql)"

definition query_contains_qualified_identifier :: "chars \<Rightarrow> bool" where
  "query_contains_qualified_identifier sql =
     query_contains_qualified_identifier_with_mode sql False"

section \<open>Tokens of quoted names, literals and words\<close>

text \<open>
  How names and literals are written in SQL text: a quoted identifier doubles its quote character;
  a string literal doubles the apostrophe and, when backslash is an escape character, the
  backslash.
\<close>

definition double_char :: "(int \<Rightarrow> bool) \<Rightarrow> chars \<Rightarrow> chars" where
  "double_char p t = concat (map (\<lambda>c. if p c then [c, c] else [c]) t)"

definition quoted_name :: "int \<Rightarrow> chars \<Rightarrow> chars" where
  "quoted_name q name = q # double_char (\<lambda>c. c = q) name @ [q]"

definition string_literal :: "bool \<Rightarrow> chars \<Rightarrow> chars" where
  "string_literal nb body =
     ch_quote # double_char (\<lambda>c. c = ch_quote \<or> c = ch_backslash \<and> \<not> nb) body @ [ch_quote]"

definition plain_word :: "chars \<Rightarrow> bool" where
  "plain_word w \<longleftrightarrow>
     w \<noteq> [] \<and> (is_ascii_alphabetic (hd w) \<or> hd w = ch_underscore \<or> hd w = ch_dollar)
     \<and> list_all is_identifier_char w"

definition sql_words :: "chars list \<Rightarrow> chars" where
  "sql_words ws = concat (map (\<lambda>w. w @ [32]) ws)"

definition not_starting :: "int \<Rightarrow> chars \<Rightarrow> bool" where
  "not_starting c t \<longleftrightarrow> (case t of [] \<Rightarrow> True | d # _ \<Rightarrow> d \<noteq> c)"

lemma double_char_simps [simp]:
  "double_char p [] = []"
  "double_char p (c # t) = (if p c then c # c # double_char p t else c # double_char p t)"
  by (simp_all add: double_char_def)

lemma quoted_identifier_roundtrip:
  "not_starting q rest \<Longrightarrow>
     query_quoted_identifier q (double_char (\<lambda>c. c = q) name @ q # rest) = (name, rest)"
proof (induction name)
  case Nil
  then show ?case by (cases rest) (auto simp: not_starting_def)
next
  case (Cons c name)
  obtain d ds where "double_char (\<lambda>c. c = q) name @ q # rest = d # ds"
    by (cases "double_char (\<lambda>c. c = q) name") auto
  with Cons show ?case by (simp split: prod.splits)
qed

lemma skip_string_roundtrip:
  "not_starting ch_quote rest \<Longrightarrow>
     skip_query_string nb False
       (double_char (\<lambda>c. c = ch_quote \<or> c = ch_backslash \<and> \<not> nb) body @ ch_quote # rest) = rest"
proof (induction body)
  case Nil
  then show ?case by (cases rest) (auto simp: not_starting_def)
next
  case (Cons c body)
  obtain d ds where "double_char (\<lambda>c. c = ch_quote \<or> c = ch_backslash \<and> \<not> nb) body @ ch_quote # rest
      = d # ds"
    by (cases "double_char (\<lambda>c. c = ch_quote \<or> c = ch_backslash \<and> \<not> nb) body") auto
  with Cons show ?case by auto
qed

lemma next_token_backtick:
  "next_query_token nb ch_backtick rest =
     (case query_quoted_identifier ch_backtick rest of (v, r) \<Rightarrow> (Some (Identifier v), r))"
  by (simp add: next_query_token_def is_whitespace_def is_mysql_line_comment_start_def)

lemma next_token_dot: "next_query_token nb ch_dot rest = (Some Dot, rest)"
  by (simp add: next_query_token_def is_whitespace_def is_mysql_line_comment_start_def)

lemma next_token_string:
  "next_query_token nb ch_quote rest = (Some StringTok, skip_query_string nb False rest)"
  by (simp add: next_query_token_def is_whitespace_def is_mysql_line_comment_start_def)

lemma next_token_space: "next_query_token nb 32 rest = (None, rest)"
  by (simp add: next_query_token_def is_whitespace_def)

lemma next_token_word:
  assumes "is_ascii_alphabetic c \<or> c = ch_underscore \<or> c = ch_dollar"
  shows "next_query_token nb c rest = query_identifier_token c rest"
  using assms
  by (auto simp: next_query_token_def is_whitespace_def is_mysql_line_comment_start_def
      is_ascii_alphabetic_def is_ascii_upper_def is_ascii_lower_def)

lemma tokens_quoted_name:
  assumes "not_starting ch_backtick rest"
  shows "query_tokens_with_mode nb (quoted_name ch_backtick name @ rest)
       = Identifier name # query_tokens_with_mode nb rest"
  using quoted_identifier_roundtrip [OF assms, of name]
  by (simp add: quoted_name_def next_token_backtick)

lemma tokens_dot:
  "query_tokens_with_mode nb (ch_dot # rest) = Dot # query_tokens_with_mode nb rest"
  by (simp add: next_token_dot)

lemma tokens_word:
  assumes "plain_word w"
  shows "query_tokens_with_mode nb (w @ 32 # rest) = Identifier w # query_tokens_with_mode nb rest"
proof -
  obtain c w' where w: "w = c # w'"
    using assms by (cases w) (auto simp: plain_word_def)
  have all: "\<And>d. d \<in> set w' \<Longrightarrow> is_identifier_char d"
    using assms by (auto simp: plain_word_def w list_all_iff)
  have stop: "\<not> is_identifier_char 32"
    by (simp add: is_identifier_char_def is_ascii_alphanumeric_def is_ascii_alphabetic_def
        is_ascii_upper_def is_ascii_lower_def is_ascii_digit_def)
  have "takeWhile is_identifier_char (w' @ 32 # rest) = w'"
       "dropWhile is_identifier_char (w' @ 32 # rest) = 32 # rest"
    using all stop by (simp_all add: takeWhile_append dropWhile_append)
  then have "next_query_token nb c (w' @ 32 # rest) = (Some (Identifier w), 32 # rest)"
    using assms
    by (simp add: next_token_word plain_word_def w query_identifier_token_def)
  then show ?thesis
    by (simp add: w next_token_space)
qed

lemma tokens_sql_words:
  "list_all plain_word ws \<Longrightarrow>
     query_tokens_with_mode nb (sql_words ws @ rest)
       = map Identifier ws @ query_tokens_with_mode nb rest"
  by (induction ws) (simp_all add: sql_words_def tokens_word)

lemma references_schema_suffix:
  "references_schema schema ts \<Longrightarrow> references_schema schema (us @ ts)"
proof (induction us)
  case (Cons u us)
  then have "references_schema schema (us @ ts)" by simp
  then show ?case
    by (cases "(schema, u # us @ ts)" rule: references_schema.cases) auto
qed simp

section \<open>Properties\<close>



text \<open>The contents of a string literal are opaque. In either backslash mode, a literal whose
  apostrophes (and, where backslash escapes, backslashes) are doubled is exactly one string token,
  and tokenizing goes on right after it: no identifier, dot or comment inside the data is seen.
\<close>

theorem literal_contents_opaque:
  assumes "not_starting ch_quote rest"
  shows "query_tokens_with_mode nb (string_literal nb body @ rest)
       = StringTok # query_tokens_with_mode nb rest"
  using skip_string_roundtrip [OF assms, of nb body]
  by (simp add: string_literal_def next_token_string)

end
