(* ===== verification/Target_Sql.thy ===== *)
theory Target_Sql
  imports Sql_Text
begin

text \<open>
  Statements for the target and how they are rendered to SQL text (\<open>src/src/target.rs\<close>): the
  equality of parameter values, row changes, execution errors and the substitution of parameters for placeholders. The text of a
  floating-point number and the lossy UTF-8 decoding of bytes are standard-library functions taken
  as parameters (\<open>float_text\<close>, \<open>double_text\<close>, \<open>utf8_lossy\<close>).
\<close>

section \<open>Values\<close>

definition float_nan :: "u32 \<Rightarrow> bool" where
  "float_nan b = (0xFF000000 < push_bit 1 b)"

definition float_zero :: "u32 \<Rightarrow> bool" where
  "float_zero b = (push_bit 1 b = 0)"

definition float_finite :: "u32 \<Rightarrow> bool" where
  "float_finite b = (push_bit 1 b < 0xFF000000)"

definition double_nan :: "u64 \<Rightarrow> bool" where
  "double_nan b = (0xFFE0000000000000 < push_bit 1 b)"

definition double_zero :: "u64 \<Rightarrow> bool" where
  "double_zero b = (push_bit 1 b = 0)"

definition double_finite :: "u64 \<Rightarrow> bool" where
  "double_finite b = (push_bit 1 b < 0xFFE0000000000000)"

text \<open>The derived \<open>PartialEq\<close>: floating-point numbers compare as IEEE numbers.\<close>

definition value_eq :: "sql_value \<Rightarrow> sql_value \<Rightarrow> bool" where
  "value_eq v w =
     (case (v, w) of
        (SqlFloat a, SqlFloat b) \<Rightarrow> \<not> float_nan a \<and> \<not> float_nan b \<and> (a = b \<or> float_zero a \<and> float_zero b)
      | (SqlDouble a, SqlDouble b) \<Rightarrow>
          \<not> double_nan a \<and> \<not> double_nan b \<and> (a = b \<or> double_zero a \<and> double_zero b)
      | _ \<Rightarrow> v = w)"

section \<open>Row changes and errors\<close>

datatype target_row_change_kind = InsertChange | UpdateChange | DeleteChange

record target_row_change =
  rc_statement :: sql_statement
  rc_kind :: target_row_change_kind
  rc_schema :: string
  rc_table :: string
  rc_values :: "(string \<times> sql_value) list"

record target_execute_error =
  te_message :: string
  te_mysql_code :: "u16 option"

definition execute_error :: "string \<Rightarrow> target_execute_error" where
  "execute_error message = \<lparr>te_message = message, te_mysql_code = None\<rparr>"

definition execute_error_from_mysql :: "u16 \<Rightarrow> string \<Rightarrow> target_execute_error" where
  "execute_error_from_mysql code message = \<lparr>te_message = message, te_mysql_code = Some code\<rparr>"

section \<open>Literals\<close>

definition pad_left :: "nat \<Rightarrow> string \<Rightarrow> string" where
  "pad_left width s = replicate (width - length s) (CHR ''0'') @ s"

definition int_text :: "u64 \<Rightarrow> string" where
  "int_text w = (if 0 \<le> sint w then nat_str (nat (sint w)) else ''-'' @ nat_str (nat (- sint w)))"

definition hex_digit_char :: "nat \<Rightarrow> char" where
  "hex_digit_char d = (if d < 10 then char_of (48 + d) else char_of (87 + d))"

definition hex_byte :: "char \<Rightarrow> string" where
  "hex_byte c = [hex_digit_char (of_char c div 16), hex_digit_char (of_char c mod 16)]"

definition binary_string_sql_literal :: "string \<Rightarrow> string" where
  "binary_string_sql_literal bytes =
     ''_binary X'' @ [apostrophe] @ concat (map hex_byte bytes) @ [apostrophe]"

definition date_text :: "u16 \<Rightarrow> u8 \<Rightarrow> u8 \<Rightarrow> u8 \<Rightarrow> u8 \<Rightarrow> u8 \<Rightarrow> u32 \<Rightarrow> string" where
  "date_text year month day hour minute second micros =
     pad_left 4 (nat_str (unat year)) @ ''-'' @ pad_left 2 (nat_str (unat month)) @ ''-''
       @ pad_left 2 (nat_str (unat day)) @ '' '' @ pad_left 2 (nat_str (unat hour)) @ '':''
       @ pad_left 2 (nat_str (unat minute)) @ '':'' @ pad_left 2 (nat_str (unat second)) @ ''.''
       @ pad_left 6 (nat_str (unat micros))"

text \<open>\<open>days * 24\<close> and the sum are checked \<open>u32\<close> arithmetic, a panic in a debug build; \<open>None\<close> stands
  for that.\<close>

definition time_text :: "bool \<Rightarrow> u32 \<Rightarrow> u8 \<Rightarrow> u8 \<Rightarrow> u8 \<Rightarrow> u32 \<Rightarrow> string option" where
  "time_text negative days hours minutes seconds micros =
     (let h = unat hours + unat days * 24 in
      if h < 2 ^ 32 then
        Some ((if negative then ''-'' else []) @ pad_left 2 (nat_str h) @ '':''
          @ pad_left 2 (nat_str (unat minutes)) @ '':'' @ pad_left 2 (nat_str (unat seconds)) @ ''.''
          @ pad_left 6 (nat_str (unat micros)))
      else None)"

record float_format =
  ff_float :: "u32 \<Rightarrow> string"
  ff_double :: "u64 \<Rightarrow> string"
  ff_utf8_lossy :: "string \<Rightarrow> string"

definition overflow_panic :: "'e fault" where
  "overflow_panic = Panic ''attempt to multiply with overflow''"

definition quote_sql_value :: "float_format \<Rightarrow> sql_value \<Rightarrow> (target_execute_error, string) res" where
  "quote_sql_value ff v =
     (case v of
        SqlNull \<Rightarrow> Inr ''NULL''
      | SqlBytes b \<Rightarrow> Inr (quote_sql_literal (ff_utf8_lossy ff b))
      | SqlInt w \<Rightarrow> Inr (int_text w)
      | SqlUInt w \<Rightarrow> Inr (nat_str (unat w))
      | SqlFloat b \<Rightarrow> Inr (ff_float ff b)
      | SqlDouble b \<Rightarrow> Inr (ff_double ff b)
      | SqlDate y mo d h mi s us \<Rightarrow> Inr (quote_sql_literal (date_text y mo d h mi s us))
      | SqlTime neg d h mi s us \<Rightarrow>
          (case time_text neg d h mi s us of
             Some t \<Rightarrow> Inr (quote_sql_literal t) | None \<Rightarrow> Inl overflow_panic))"

definition quote_submitted_sql_value :: "float_format \<Rightarrow> sql_value \<Rightarrow> (target_execute_error, string) res" where
  "quote_submitted_sql_value ff v =
     (case v of
        SqlNull \<Rightarrow> Inr ''NULL''
      | SqlBytes b \<Rightarrow> Inr (binary_string_sql_literal b)
      | SqlInt w \<Rightarrow> Inr (int_text w)
      | SqlUInt w \<Rightarrow> Inr (nat_str (unat w))
      | SqlFloat b \<Rightarrow>
          (if float_finite b then Inr (ff_float ff b)
           else Inl (Fail (execute_error ''submitted SQL cannot encode a non-finite FLOAT'')))
      | SqlDouble b \<Rightarrow>
          (if double_finite b then Inr (ff_double ff b)
           else Inl (Fail (execute_error ''submitted SQL cannot encode a non-finite DOUBLE'')))
      | SqlDate y mo d h mi s us \<Rightarrow> Inr (quote_sql_literal (date_text y mo d h mi s us))
      | SqlTime neg d h mi s us \<Rightarrow>
          (case time_text neg d h mi s us of
             Some t \<Rightarrow> Inr (quote_sql_literal t) | None \<Rightarrow> Inl overflow_panic))"

section \<open>Rendering\<close>

definition placeholder_count :: "string \<Rightarrow> nat" where
  "placeholder_count sql = length (filter (\<lambda>c. c = CHR ''?'') sql)"

fun render_segments ::
  "(sql_value \<Rightarrow> (target_execute_error, string) res) \<Rightarrow> string list \<Rightarrow> sql_value list
    \<Rightarrow> (target_execute_error, string) res"
where
  "render_segments quote [] params = Inr []"
| "render_segments quote (seg # segs) [] = bind_res (render_segments quote segs []) (\<lambda>r. Inr (seg @ r))"
| "render_segments quote (seg # segs) (p # ps) =
     bind_res (quote p) (\<lambda>q. bind_res (render_segments quote segs ps) (\<lambda>r. Inr (seg @ q @ r)))"

definition render_statement_params ::
  "sql_statement \<Rightarrow> (sql_value \<Rightarrow> (target_execute_error, string) res) \<Rightarrow> (target_execute_error, string) res"
where
  "render_statement_params statement quote =
     (if ss_params statement = [] then Inr (ss_sql statement)
      else if placeholder_count (ss_sql statement) \<noteq> length (ss_params statement) then
        Inl (Fail (execute_error
          (''statement has '' @ nat_str (placeholder_count (ss_sql statement)) @ '' placeholders and ''
             @ nat_str (length (ss_params statement)) @ '' params'')))
      else render_segments quote (split_char (CHR ''?'') (ss_sql statement)) (ss_params statement))"

definition render_sql_statement :: "float_format \<Rightarrow> sql_statement \<Rightarrow> (target_execute_error, string) res" where
  "render_sql_statement ff statement = render_statement_params statement (quote_sql_value ff)"

definition render_submitted_sql_statement ::
  "float_format \<Rightarrow> sql_statement \<Rightarrow> (target_execute_error, string) res"
where
  "render_submitted_sql_statement ff statement =
     render_statement_params statement (quote_submitted_sql_value ff)"

section \<open>Reading rendered statements back\<close>

text \<open>The reference meaning of rendering: each placeholder, from left to right, is replaced by the
  literal of the next parameter.\<close>

fun substitute_params ::
  "(sql_value \<Rightarrow> (target_execute_error, string) res) \<Rightarrow> string \<Rightarrow> sql_value list
    \<Rightarrow> (target_execute_error, string) res"
where
  "substitute_params quote [] params = Inr []"
| "substitute_params quote (c # s) params =
     (if c = CHR ''?'' then
        (case params of
           [] \<Rightarrow> substitute_params quote s []
         | p # ps \<Rightarrow> bind_res (quote p) (\<lambda>q. bind_res (substitute_params quote s ps) (\<lambda>r. Inr (q @ r))))
      else bind_res (substitute_params quote s params) (\<lambda>r. Inr (c # r)))"

definition hex_nibble :: "char \<Rightarrow> nat" where
  "hex_nibble c = (if of_char c < (58::nat) then of_char c - 48 else of_char c - 87)"

fun read_hex :: "string \<Rightarrow> string" where
  "read_hex (a # b # s) = char_of (hex_nibble a * 16 + hex_nibble b) # read_hex s"
| "read_hex s = []"

lemma hex_digit_char_props:
  assumes "d < 16"
  shows "hex_nibble (hex_digit_char d) = d" and "hex_digit_char d \<noteq> apostrophe"
proof -
  have of: "of_char (hex_digit_char d) = (if d < 10 then 48 + d else 87 + d)"
    using assms by (simp add: hex_digit_char_def)
  with assms show "hex_nibble (hex_digit_char d) = d"
    by (simp add: hex_nibble_def)
  have "(of_char apostrophe :: nat) = 39"
    by (simp add: apostrophe_def)
  then have "of_char (hex_digit_char d) \<noteq> (of_char apostrophe :: nat)"
    by (simp add: of)
  then show "hex_digit_char d \<noteq> apostrophe"
    by (rule contrapos_nn) simp
qed

lemma nibbles_of_char:
  "of_char c div (16::nat) < 16" "of_char c mod (16::nat) < 16"
proof -
  have "(of_char c :: nat) < 256"
    by (rule nat_of_char_less_256)
  then show "of_char c div (16::nat) < 16"
    by (simp add: less_mult_imp_div_less)
qed simp

lemma read_hex_bytes: "read_hex (concat (map hex_byte bytes)) = bytes"
proof (induction bytes)
  case (Cons c bytes)
  have "hex_nibble (hex_digit_char (of_char c div 16)) * 16 + hex_nibble (hex_digit_char (of_char c mod 16))
      = of_char c"
    by (simp add: hex_digit_char_props(1) nibbles_of_char)
  with Cons show ?case by (simp add: hex_byte_def)
qed simp

lemma hex_bytes_no_apostrophe: "apostrophe \<notin> set (concat (map hex_byte bytes))"
proof -
  have "hex_digit_char (of_char c div 16) \<noteq> apostrophe" "hex_digit_char (of_char c mod 16) \<noteq> apostrophe" for c
    by (rule hex_digit_char_props(2), rule nibbles_of_char)+
  then have "apostrophe \<notin> set (hex_byte c)" for c
    unfolding hex_byte_def by (metis empty_iff empty_set set_ConsD)
  then show ?thesis
    by auto
qed

lemma render_segments_cons:
  "render_segments quote (case segs of [] \<Rightarrow> [[c]] | y # ys \<Rightarrow> (c # y) # ys) params
     = bind_res (render_segments quote segs params) (\<lambda>r. Inr (c # r))"
  if "segs \<noteq> []"
proof -
  obtain y ys where "segs = y # ys" using \<open>segs \<noteq> []\<close> by (cases segs) auto
  then show ?thesis
    by (cases params) (auto simp: bind_res_def split: sum.splits)
qed

lemma split_char_nonempty [simp]: "split_char c s \<noteq> []"
  by (induction s) (auto split: list.splits)

lemma render_segments_substitute:
  "placeholder_count sql = length params \<Longrightarrow>
     render_segments quote (split_char (CHR ''?'') sql) params = substitute_params quote sql params"
proof (induction sql arbitrary: params)
  case Nil
  then show ?case by (simp add: placeholder_count_def)
next
  case (Cons c s)
  show ?case
  proof (cases "c = CHR ''?''")
    case True
    with Cons.prems obtain p ps where params: "params = p # ps" and "placeholder_count s = length ps"
      by (cases params) (auto simp: placeholder_count_def)
    then have "render_segments quote (split_char (CHR ''?'') s) ps = substitute_params quote s ps"
      using Cons.IH by blast
    then show ?thesis
      by (simp add: True params)
  next
    case False
    with Cons.prems have "placeholder_count s = length params"
      by (simp add: placeholder_count_def)
    then have "render_segments quote (split_char (CHR ''?'') s) params = substitute_params quote s params"
      using Cons.IH by blast
    then show ?thesis
      using False by (simp add: render_segments_cons)
  qed
qed

section \<open>Properties\<close>

text \<open>C29. Rendering a statement is substitution of the parameters for the placeholders, left to right,
  exactly when there are as many placeholders as parameters; with parameters and another count it is
  an error that names both counts, and without parameters the text is passed through unchanged. A
  byte string is submitted as a binary literal whose body contains no apostrophe and reads back as
  the same bytes.
\<close>

theorem render_submitted_exact:
  "render_submitted_sql_statement ff statement =
     (if ss_params statement = [] then Inr (ss_sql statement)
      else if placeholder_count (ss_sql statement) = length (ss_params statement)
      then substitute_params (quote_submitted_sql_value ff) (ss_sql statement) (ss_params statement)
      else Inl (Fail (execute_error
          (''statement has '' @ nat_str (placeholder_count (ss_sql statement)) @ '' placeholders and ''
             @ nat_str (length (ss_params statement)) @ '' params''))))
   \<and> (\<exists>body. quote_submitted_sql_value ff (SqlBytes bytes) = Inr (''_binary X'' @ [apostrophe] @ body @ [apostrophe])
        \<and> apostrophe \<notin> set body \<and> read_hex body = bytes)"
  by (auto simp: render_submitted_sql_statement_def render_statement_params_def
      render_segments_substitute quote_submitted_sql_value_def binary_string_sql_literal_def
      read_hex_bytes hex_bytes_no_apostrophe simp del: set_concat)

end
