(* ===== verification/Statement_Policy.thy ===== *)
theory Statement_Policy
  imports Query_Tokens Target_Sql
begin

text \<open>
  Classification and replay of SQL statements (\<open>src/src/statement.rs\<close>): normalisation, the
  multi-statement and pattern checks, the prefix tables, \<open>StatementApplier\<close> and the predicates the
  stream uses to tell schema changes and data changes apart. \<open>char::to_uppercase\<close> on non-ASCII
  characters is the Unicode table of the standard library; it is the parameter \<open>unicode_upper\<close>, and
  no theorem restricts it.
\<close>

section \<open>Events and outcomes\<close>

record binlog_coordinate =
  bc_file :: string
  bc_position :: u64

record statement_event =
  se_coordinate :: binlog_coordinate
  se_resume_position :: u64
  se_default_database :: "string option"
  se_sql :: string

definition statement_resume_coordinate :: "statement_event \<Rightarrow> binlog_coordinate" where
  "statement_resume_coordinate event =
     \<lparr>bc_file = bc_file (se_coordinate event), bc_position = se_resume_position event\<rparr>"

datatype quarantine_reason =
    EmptyStatement
  | MultiStatement
  | UnsupportedStatementType chars
  | UnsafePattern chars
  | MariaDbOnlySyntax chars

record quarantined_statement =
  qs_coordinate :: binlog_coordinate
  qs_default_database :: "string option"
  qs_sql :: chars
  qs_reason :: quarantine_reason

datatype statement_outcome = Replayed | Skipped | Quarantined quarantine_reason

datatype ('t, 'q) statement_apply_error =
    StatementTarget binlog_coordinate string 't
  | StatementQuarantine binlog_coordinate chars 'q

datatype statement_decision = Replay | Skip | Quarantine quarantine_reason

section \<open>Normalisation\<close>

definition lit :: "string \<Rightarrow> chars" where
  "lit s = utf8_chars s"

definition strip_one_leading_comment :: "chars \<Rightarrow> chars option" where
  "strip_one_leading_comment sql =
     (if starts_with (lit ''--'') sql then
        Some (case split_once_text [10] (drop 2 sql) of None \<Rightarrow> [] | Some (_, rest) \<Rightarrow> rest)
      else if starts_with (lit ''#'') sql then
        Some (case split_once_text [10] (drop 1 sql) of None \<Rightarrow> [] | Some (_, rest) \<Rightarrow> rest)
      else if starts_with (lit ''/*'') sql \<and> \<not> starts_with (lit ''/*!'') sql then
        map_option snd (split_once_text (lit ''*/'') sql)
      else None)"

function strip_comments_from :: "chars \<Rightarrow> chars" where
  "strip_comments_from remaining =
     (case strip_one_leading_comment remaining of
        None \<Rightarrow> remaining
      | Some stripped \<Rightarrow> strip_comments_from (trim_start stripped))"
  by pat_completeness auto

lemma split_once_text_shorter:
  "split_once_text p t = Some (a, b) \<Longrightarrow> length b + length p \<le> length t"
proof (induction p t arbitrary: a b rule: split_once_text.induct)
  case (2 p c t)
  show ?case
  proof (cases "starts_with p (c # t)")
    case True
    then obtain s where "c # t = p @ s"
      unfolding starts_with_iff by blast
    then have "length p \<le> length (c # t)"
      by simp
    with 2 True show ?thesis by auto
  next
    case False
    with 2 show ?thesis by fastforce
  qed
qed (auto split: if_splits)

lemma strip_one_leading_comment_shorter:
  assumes "strip_one_leading_comment sql = Some rest"
  shows "length rest < length sql"
proof -
  have nonempty: "sql \<noteq> []"
    using assms by (auto simp: strip_one_leading_comment_def lit_def starts_with_def split: if_splits)
  have "length rest \<le> length (drop 1 sql) \<or> length rest \<le> length (drop 2 sql)
      \<or> length rest + 2 \<le> length sql"
    using assms nonempty
    by (auto simp: strip_one_leading_comment_def lit_def
        dest!: split_once_text_shorter split: if_splits option.splits)
  with nonempty show ?thesis
    by (cases sql) auto
qed

termination strip_comments_from
proof (relation "measure length"; simp)
  show "length (trim_start stripped) < length remaining"
    if "strip_one_leading_comment remaining = Some stripped" for remaining stripped
    using strip_one_leading_comment_shorter [OF that] length_trim_start_le [of stripped] by simp
qed

declare strip_comments_from.simps [simp del]

definition strip_leading_comments :: "chars \<Rightarrow> chars" where
  "strip_leading_comments sql = strip_comments_from (trim_start sql)"

definition normalize_statement :: "chars \<Rightarrow> chars" where
  "normalize_statement sql =
     trim (trim_end_matches (\<lambda>c. c = 59) (trim (strip_leading_comments sql)))"

definition normalize_policy_whitespace :: "chars \<Rightarrow> chars" where
  "normalize_policy_whitespace sql = join_text [32] (split_whitespace (normalize_statement sql))"

definition first_keyword :: "chars \<Rightarrow> chars option" where
  "first_keyword sql = (case split_whitespace sql of [] \<Rightarrow> None | w # _ \<Rightarrow> Some w)"

section \<open>Multiple statements and patterns\<close>

fun skip_line_comment :: "chars \<Rightarrow> chars" where
  "skip_line_comment [] = []"
| "skip_line_comment (c # cs) = (if c = 10 \<or> c = 13 then cs else skip_line_comment cs)"

fun skip_block_comment :: "int option \<Rightarrow> chars \<Rightarrow> chars" where
  "skip_block_comment previous [] = []"
| "skip_block_comment previous (c # cs) =
     (if previous = Some 42 \<and> c = 47 then cs else skip_block_comment (Some c) cs)"

definition peek_is :: "int \<Rightarrow> chars \<Rightarrow> bool" where
  "peek_is d cs \<longleftrightarrow> (case cs of [] \<Rightarrow> False | c # _ \<Rightarrow> c = d)"

function multi_statement_scan :: "int option \<Rightarrow> bool \<Rightarrow> chars \<Rightarrow> bool" where
  "multi_statement_scan q escaped [] = False"
| "multi_statement_scan (Some q) escaped (c # cs) =
     (if escaped then multi_statement_scan (Some q) False cs
      else if c = 92 then multi_statement_scan (Some q) True cs
      else if c = q then multi_statement_scan None False cs
      else multi_statement_scan (Some q) False cs)"
| "multi_statement_scan None escaped (c # cs) =
     (if c = 39 \<or> c = 34 then multi_statement_scan (Some c) escaped cs
      else if c = 45 \<and> peek_is 45 cs then multi_statement_scan None escaped (skip_line_comment (drop 1 cs))
      else if c = 47 \<and> peek_is 42 cs then multi_statement_scan None escaped (skip_block_comment None (drop 1 cs))
      else if c = 59 \<and> trim cs \<noteq> [] then True
      else multi_statement_scan None escaped cs)"
  by pat_completeness auto

lemma length_skip_line: "length (skip_line_comment cs) \<le> length cs"
  by (induction cs) auto

lemma length_skip_block: "length (skip_block_comment p cs) \<le> length cs"
  by (induction p cs rule: skip_block_comment.induct) (auto simp: le_SucI)

lemma length_skip_comment_after:
  "length (skip_line_comment (drop n cs)) < Suc (length cs)"
  "length (skip_block_comment p (drop n cs)) < Suc (length cs)"
  using length_skip_line [of "drop n cs"] length_skip_block [of p "drop n cs"] by auto

termination multi_statement_scan
  by (relation "measure (\<lambda>(q, e, cs). length cs)")
     (auto simp: length_skip_comment_after simp del: drop_Suc)

definition contains_multi_statement :: "chars \<Rightarrow> bool" where
  "contains_multi_statement sql = multi_statement_scan None False sql"

definition uppercase_char :: "(int \<Rightarrow> chars) \<Rightarrow> int \<Rightarrow> chars" where
  "uppercase_char unicode_upper c = (if c < 128 then [ascii_upper c] else unicode_upper c)"

fun uppercase_scan :: "(int \<Rightarrow> chars) \<Rightarrow> int option \<Rightarrow> bool \<Rightarrow> chars \<Rightarrow> chars" where
  "uppercase_scan u q escaped [] = []"
| "uppercase_scan u (Some q) escaped [c] = [32]"
| "uppercase_scan u (Some q) escaped (c # d # cs) =
     32 # (if escaped then uppercase_scan u (Some q) False (d # cs)
           else if c = 92 then uppercase_scan u (Some q) True (d # cs)
           else if q = 39 \<and> c = 39 \<and> d = 39 then 32 # uppercase_scan u (Some q) False cs
           else if c = q then uppercase_scan u None False (d # cs)
           else uppercase_scan u (Some q) False (d # cs))"
| "uppercase_scan u None escaped (c # cs) =
     (if c = 39 \<or> c = 34 then 32 # uppercase_scan u (Some c) escaped cs
      else uppercase_char u c @ uppercase_scan u None escaped cs)"

definition uppercase_outside_string_literals :: "(int \<Rightarrow> chars) \<Rightarrow> chars \<Rightarrow> chars" where
  "uppercase_outside_string_literals u sql = uppercase_scan u None False sql"

definition is_sql_word_byte :: "int \<Rightarrow> bool" where
  "is_sql_word_byte b \<longleftrightarrow> is_ascii_alphanumeric b \<or> b = 95"

definition has_valid_boundary :: "int \<Rightarrow> int option \<Rightarrow> bool" where
  "has_valid_boundary edge neighbour \<longleftrightarrow>
     \<not> is_sql_word_byte edge \<or> (case neighbour of None \<Rightarrow> True | Some b \<Rightarrow> \<not> is_sql_word_byte b)"

definition pattern_has_valid_bounds :: "chars \<Rightarrow> int option \<times> int option \<Rightarrow> bool" where
  "pattern_has_valid_bounds pattern ctx \<longleftrightarrow>
     has_valid_boundary (hd pattern) (fst ctx) \<and> has_valid_boundary (last pattern) (snd ctx)"

definition contains_bounded_pattern :: "chars \<Rightarrow> chars \<Rightarrow> bool" where
  "contains_bounded_pattern sql pattern =
     list_ex (pattern_has_valid_bounds pattern) (match_contexts pattern None sql)"

definition find_pattern :: "chars \<Rightarrow> chars list \<Rightarrow> chars option" where
  "find_pattern upper_sql patterns =
     map_option trim (List.find (contains_bounded_pattern upper_sql) patterns)"

definition mariadb_only_patterns :: "chars list" where
  "mariadb_only_patterns = map lit
     [''RETURNING'', ''SEQUENCE'', ''SYSTEM VERSIONING'', ''VERSIONING'', ''DELETE HISTORY'', ''INSERT DELAYED'']"

definition find_mariadb_only_pattern :: "(int \<Rightarrow> chars) \<Rightarrow> chars \<Rightarrow> chars option" where
  "find_mariadb_only_pattern u sql =
     find_pattern (uppercase_outside_string_literals u sql) mariadb_only_patterns"

definition unsafe_patterns :: "chars list" where
  "unsafe_patterns = map lit
     [''LOAD_FILE('', ''INTO OUTFILE'', ''INTO DUMPFILE'', ''LOAD DATA'', ''DEFINER'', ''SQL SECURITY DEFINER'']"

definition find_unsafe_pattern :: "(int \<Rightarrow> chars) \<Rightarrow> chars \<Rightarrow> chars option" where
  "find_unsafe_pattern u sql = find_pattern (uppercase_outside_string_literals u sql) unsafe_patterns"

definition find_ddl_if_exists_pattern :: "(int \<Rightarrow> chars) \<Rightarrow> chars \<Rightarrow> chars option" where
  "find_ddl_if_exists_pattern u sql =
     (let upper = uppercase_outside_string_literals u sql in
      if starts_with (lit ''ALTER TABLE '') upper \<or> starts_with (lit ''CREATE INDEX '') upper
         \<or> starts_with (lit ''CREATE UNIQUE INDEX '') upper \<or> starts_with (lit ''DROP INDEX '') upper
      then find_pattern upper (map lit [''IF NOT EXISTS'', ''IF EXISTS''])
      else None)"

section \<open>Prefix tables\<close>

definition compatible_dml_prefixes :: "chars list" where
  "compatible_dml_prefixes = map lit [''DELETE FROM '', ''INSERT INTO '', ''REPLACE INTO '', ''UPDATE '']"

definition compatible_ddl_prefixes :: "chars list" where
  "compatible_ddl_prefixes = map lit
     [''ALTER DATABASE '', ''ALTER EVENT '', ''ALTER FUNCTION '', ''ALTER PROCEDURE '', ''ALTER SCHEMA '',
      ''ALTER TABLE '', ''ALTER VIEW '', ''CREATE DATABASE '', ''CREATE EVENT '', ''CREATE FUNCTION '',
      ''CREATE INDEX '', ''CREATE OR REPLACE VIEW '', ''CREATE PROCEDURE '', ''CREATE SCHEMA '',
      ''CREATE TABLE '', ''CREATE TRIGGER '', ''CREATE UNIQUE INDEX '', ''CREATE VIEW '', ''DROP DATABASE '',
      ''DROP EVENT '', ''DROP FUNCTION '', ''DROP INDEX '', ''DROP PROCEDURE '', ''DROP SCHEMA '',
      ''DROP TABLE '', ''DROP TRIGGER '', ''DROP VIEW '', ''RENAME TABLE '', ''TRUNCATE '']"

definition database_ddl_prefixes :: "chars list" where
  "database_ddl_prefixes = map lit
     [''ALTER DATABASE '', ''ALTER SCHEMA '', ''CREATE DATABASE '', ''CREATE SCHEMA '', ''DROP DATABASE '',
      ''DROP SCHEMA '']"

definition compound_body_ddl_prefixes :: "chars list" where
  "compound_body_ddl_prefixes = map lit
     [''ALTER EVENT '', ''CREATE EVENT '', ''CREATE FUNCTION '', ''CREATE PROCEDURE '', ''CREATE TRIGGER '']"

definition skipped_administrative_ddl_prefixes :: "chars list" where
  "skipped_administrative_ddl_prefixes = map lit
     [''ALTER RESOURCE GROUP '', ''ALTER ROLE '', ''ALTER SERVER '', ''ALTER TABLESPACE '', ''ALTER USER '',
      ''CREATE RESOURCE GROUP '', ''CREATE ROLE '', ''CREATE SERVER '', ''CREATE TABLESPACE '', ''CREATE USER '',
      ''DROP RESOURCE GROUP '', ''DROP ROLE '', ''DROP SERVER '', ''DROP TABLESPACE '', ''DROP USER '',
      ''GRANT '', ''RENAME USER '', ''REVOKE '']"

definition starts_with_any_ci :: "chars \<Rightarrow> chars list \<Rightarrow> bool" where
  "starts_with_any_ci sql prefixes =
     (let upper = to_ascii_uppercase sql in list_ex (\<lambda>prefix. starts_with prefix upper) prefixes)"

definition is_known_compatible_dml :: "chars \<Rightarrow> bool" where
  "is_known_compatible_dml sql = starts_with_any_ci sql compatible_dml_prefixes"

definition is_known_compatible_ddl :: "chars \<Rightarrow> bool" where
  "is_known_compatible_ddl sql = starts_with_any_ci sql compatible_ddl_prefixes"

definition is_compound_body_ddl :: "chars \<Rightarrow> bool" where
  "is_compound_body_ddl sql = starts_with_any_ci sql compound_body_ddl_prefixes"

definition is_skipped_administrative_ddl :: "chars \<Rightarrow> bool" where
  "is_skipped_administrative_ddl sql = starts_with_any_ci sql skipped_administrative_ddl_prefixes"

definition is_supported_statement_start :: "chars \<Rightarrow> bool" where
  "is_supported_statement_start sql \<longleftrightarrow>
     is_known_compatible_dml sql \<or> is_known_compatible_ddl sql \<or> is_skipped_administrative_ddl sql"

definition is_schema_changing_statement :: "chars \<Rightarrow> bool" where
  "is_schema_changing_statement sql =
     (case first_keyword (normalize_policy_whitespace sql) of
        None \<Rightarrow> False
      | Some w \<Rightarrow> w \<in> set (map lit [''ALTER'', ''CREATE'', ''DROP'', ''RENAME'', ''TRUNCATE'']))"

definition is_data_changing_statement :: "chars \<Rightarrow> bool" where
  "is_data_changing_statement sql = is_known_compatible_dml (normalize_policy_whitespace sql)"

section \<open>Classification and replay\<close>

definition classify_statement :: "(int \<Rightarrow> chars) \<Rightarrow> chars \<Rightarrow> statement_decision" where
  "classify_statement u sql =
     (if sql = [] then Quarantine EmptyStatement
      else if contains_multi_statement sql \<and> \<not> is_compound_body_ddl sql then Quarantine MultiStatement
      else case find_mariadb_only_pattern u sql of
        Some pattern \<Rightarrow> Quarantine (MariaDbOnlySyntax pattern)
      | None \<Rightarrow>
     (case find_unsafe_pattern u sql of
        Some pattern \<Rightarrow> Quarantine (UnsafePattern pattern)
      | None \<Rightarrow>
     (case find_ddl_if_exists_pattern u sql of
        Some pattern \<Rightarrow> Quarantine (MariaDbOnlySyntax pattern)
      | None \<Rightarrow>
          (if is_known_compatible_dml sql \<or> is_known_compatible_ddl sql then Replay
           else if is_skipped_administrative_ddl sql then Skip
           else Quarantine (UnsupportedStatementType
             (case first_keyword sql of None \<Rightarrow> lit ''unknown'' | Some w \<Rightarrow> w))))))"

definition is_automatically_handled_schema_change :: "(int \<Rightarrow> chars) \<Rightarrow> chars \<Rightarrow> bool" where
  "is_automatically_handled_schema_change u sql =
     (if \<not> is_schema_changing_statement sql then False
      else let normalized_sql = normalize_statement sql in
        if starts_with_any_ci normalized_sql database_ddl_prefixes then False
        else (case classify_statement u normalized_sql of Replay \<Rightarrow> True | Skip \<Rightarrow> True | Quarantine _ \<Rightarrow> False))"

record ('w, 't, 'q) statement_env =
  sv_execute :: "sql_statement \<Rightarrow> ('w, 't, unit) op"
  sv_record :: "quarantined_statement \<Rightarrow> ('w, 'q, unit) op"

definition replay_statement ::
  "('w, 't, 'q) statement_env \<Rightarrow> statement_event \<Rightarrow> string \<Rightarrow> ('w, ('t, 'q) statement_apply_error, statement_outcome) op"
where
  "replay_statement env event sql =
     bind_op (map_err_op (StatementTarget (se_coordinate event) sql)
       (sv_execute env \<lparr>ss_sql = sql, ss_params = []\<rparr>)) (\<lambda>_. ret_op Replayed)"

definition quarantine_statement ::
  "('w, 't, 'q) statement_env \<Rightarrow> statement_event \<Rightarrow> chars \<Rightarrow> quarantine_reason
    \<Rightarrow> ('w, ('t, 'q) statement_apply_error, statement_outcome) op"
where
  "quarantine_statement env event sql reason =
     bind_op (map_err_op (StatementQuarantine (se_coordinate event) sql)
       (sv_record env \<lparr>qs_coordinate = se_coordinate event, qs_default_database = se_default_database event,
                       qs_sql = sql, qs_reason = reason\<rparr>)) (\<lambda>_. ret_op (Quarantined reason))"

definition apply_statement ::
  "(int \<Rightarrow> chars) \<Rightarrow> ('w, 't, 'q) statement_env \<Rightarrow> statement_event
    \<Rightarrow> ('w, ('t, 'q) statement_apply_error, statement_outcome) op"
where
  "apply_statement u env event =
     (let classification_sql = normalize_statement (utf8_chars (se_sql event)) in
      case classify_statement u classification_sql of
        Replay \<Rightarrow> replay_statement env event (se_sql event)
      | Skip \<Rightarrow> ret_op Skipped
      | Quarantine reason \<Rightarrow> quarantine_statement env event classification_sql reason)"

section \<open>Classification and letter case\<close>

definition no_letter :: "int \<Rightarrow> bool" where
  "no_letter c \<longleftrightarrow> \<not> is_ascii_alphabetic c"

lemma ascii_upper_eq_no_letter: "no_letter c \<Longrightarrow> ascii_upper d = c \<longleftrightarrow> d = c"
  by (auto simp: no_letter_def ascii_upper_def is_ascii_alphabetic_def is_ascii_upper_def is_ascii_lower_def)

lemma map_upper_eq_no_letter:
  "list_all no_letter p \<Longrightarrow> map ascii_upper t = p \<longleftrightarrow> t = p"
proof (induction t arbitrary: p)
  case (Cons c t)
  then show ?case
    by (cases p) (simp_all add: ascii_upper_eq_no_letter)
qed auto

lemma starts_with_upper:
  "list_all no_letter p \<Longrightarrow> starts_with p (map ascii_upper t) = starts_with p t"
  by (simp add: starts_with_def take_map map_upper_eq_no_letter)

lemma split_once_upper:
  "list_all no_letter p \<Longrightarrow>
     split_once_text p (map ascii_upper t)
       = map_option (\<lambda>(a, b). (map ascii_upper a, map ascii_upper b)) (split_once_text p t)"
proof (induction t)
  case (Cons c t)
  have "starts_with p (ascii_upper c # map ascii_upper t) = starts_with p (c # t)"
    using starts_with_upper [OF Cons.prems, of "c # t"] by simp
  moreover have "drop (length p) (ascii_upper c # map ascii_upper t) = map ascii_upper (drop (length p) (c # t))"
    by (simp add: drop_map flip: list.map(2))
  ultimately show ?case
    using Cons by (auto simp: option.map_comp comp_def split_def)
qed simp

lemma trim_start_upper: "trim_start (map ascii_upper t) = map ascii_upper (trim_start t)"
  by (simp add: trim_start_def dropWhile_map comp_def)

lemma trim_end_upper:
  "(\<And>c. p (ascii_upper c) = p c) \<Longrightarrow>
     trim_end_matches p (map ascii_upper t) = map ascii_upper (trim_end_matches p t)"
  by (simp add: trim_end_matches_def rev_map dropWhile_map comp_def)

lemma trim_upper: "trim (map ascii_upper t) = map ascii_upper (trim t)"
  by (simp add: trim_def trim_start_upper trim_end_upper)

lemma lit_no_letter:
  "list_all no_letter (lit ''--'')" "list_all no_letter (lit ''#'')" "list_all no_letter (lit ''/*'')"
  "list_all no_letter (lit ''/*!'')" "list_all no_letter (lit ''*/'')" "list_all no_letter [10]"
  by (simp_all add: lit_def byte_def no_letter_def is_ascii_alphabetic_def is_ascii_upper_def is_ascii_lower_def)

lemma strip_one_upper:
  "strip_one_leading_comment (map ascii_upper t) = map_option (map ascii_upper) (strip_one_leading_comment t)"
proof -
  have newline: "split_once_text [10] (map ascii_upper x)
      = map_option (\<lambda>(a, b). (map ascii_upper a, map ascii_upper b)) (split_once_text [10] x)" for x
    by (rule split_once_upper) (rule lit_no_letter(6))
  have rest: "(case split_once_text [10] (map ascii_upper x) of None \<Rightarrow> [] | Some (_, r) \<Rightarrow> r)
      = map ascii_upper (case split_once_text [10] x of None \<Rightarrow> [] | Some (_, r) \<Rightarrow> r)" for x
    by (simp add: newline split: option.split)
  show ?thesis
    by (simp add: strip_one_leading_comment_def starts_with_upper lit_no_letter drop_map rest
        split_once_upper option.map_comp comp_def split_def)
qed

lemma strip_comments_upper: "strip_comments_from (map ascii_upper t) = map ascii_upper (strip_comments_from t)"
proof (induction t rule: strip_comments_from.induct)
  case (1 t)
  show ?case
  proof (cases "strip_one_leading_comment t")
    case None
    then show ?thesis
      by (simp add: strip_comments_from.simps [of t] strip_comments_from.simps [of "map ascii_upper t"] strip_one_upper)
  next
    case (Some r)
    then show ?thesis
      using 1 [OF Some]
      by (simp add: strip_comments_from.simps [of t] strip_comments_from.simps [of "map ascii_upper t"]
          strip_one_upper trim_start_upper)
  qed
qed

lemma normalize_statement_upper:
  "normalize_statement (map ascii_upper t) = map ascii_upper (normalize_statement t)"
proof -
  have semicolon: "ascii_upper c = 59 \<longleftrightarrow> c = 59" for c
    by (rule ascii_upper_eq_no_letter)
       (simp add: no_letter_def is_ascii_alphabetic_def is_ascii_upper_def is_ascii_lower_def)
  show ?thesis
    by (simp add: normalize_statement_def strip_leading_comments_def trim_start_upper strip_comments_upper
        trim_upper trim_end_upper semicolon)
qed

lemma split_whitespace_upper:
  "split_whitespace (map ascii_upper t) = map (map ascii_upper) (split_whitespace t)"
proof (induction t rule: split_whitespace.induct)
  case (1 t)
  show ?case
  proof (cases "trim_start t = []")
    case True
    then show ?thesis
      by (simp add: split_whitespace.simps [of t] split_whitespace.simps [of "map ascii_upper t"] trim_start_upper)
  next
    case False
    then show ?thesis
      using 1 [OF refl]
      by (simp add: split_whitespace.simps [of t] split_whitespace.simps [of "map ascii_upper t"]
          trim_start_upper Let_def takeWhile_map dropWhile_map comp_def)
  qed
qed

lemma join_text_upper:
  "map ascii_upper sep = sep \<Longrightarrow>
     join_text sep (map (map ascii_upper) ts) = map ascii_upper (join_text sep ts)"
  by (induction sep ts rule: join_text.induct) simp_all

lemma normalize_policy_upper:
  "normalize_policy_whitespace (map ascii_upper t) = map ascii_upper (normalize_policy_whitespace t)"
  by (simp add: normalize_policy_whitespace_def normalize_statement_upper split_whitespace_upper join_text_upper
      ascii_upper_def is_ascii_lower_def)

lemma starts_with_any_ci_upper: "starts_with_any_ci (map ascii_upper t) ps = starts_with_any_ci t ps"
  by (simp add: starts_with_any_ci_def to_ascii_uppercase_def comp_def)

section \<open>Literals and patterns\<close>

lemma uppercase_scan_plain:
  "\<forall>c \<in> set pre. c \<noteq> ch_quote \<and> c \<noteq> ch_dquote \<Longrightarrow>
     uppercase_scan u None False (pre @ rest) = concat (map (uppercase_char u) pre) @ uppercase_scan u None False rest"
  by (induction pre) auto

lemma uppercase_scan_literal:
  assumes "not_starting ch_quote post"
  shows "uppercase_scan u (Some ch_quote) False
           (double_char (\<lambda>c. c = ch_quote \<or> c = ch_backslash) body @ ch_quote # post)
       = replicate (Suc (length (double_char (\<lambda>c. c = ch_quote \<or> c = ch_backslash) body))) 32
           @ uppercase_scan u None False post"
proof (induction body)
  case Nil
  then show ?case
    using assms by (cases post) (auto simp: not_starting_def)
next
  case (Cons c body)
  obtain d ds where "double_char (\<lambda>c. c = ch_quote \<or> c = ch_backslash) body @ ch_quote # post = d # ds"
    by (cases "double_char (\<lambda>c. c = ch_quote \<or> c = ch_backslash) body") auto
  with Cons show ?case by auto
qed

lemma uppercase_literal:
  assumes "\<forall>c \<in> set pre. c \<noteq> ch_quote \<and> c \<noteq> ch_dquote" and "not_starting ch_quote post"
  shows "uppercase_outside_string_literals u (pre @ string_literal False body @ post)
       = concat (map (uppercase_char u) pre) @ replicate (length (string_literal False body)) 32
           @ uppercase_outside_string_literals u post"
  using assms
  by (simp add: uppercase_outside_string_literals_def string_literal_def uppercase_scan_plain uppercase_scan_literal)

section \<open>Properties\<close>

text \<open>The guard against statement-based data changes cannot be evaded by letter case: two statements
  that differ only in the ASCII case of their letters are both recognised as data-changing or
  neither is, comments, whitespace and semicolons included.
\<close>

theorem dml_guard_ignores_case:
  assumes "to_ascii_uppercase s = to_ascii_uppercase t"
  shows "is_data_changing_statement s = is_data_changing_statement t"
proof -
  have "is_data_changing_statement (map ascii_upper x) = is_data_changing_statement x" for x
    by (simp add: is_data_changing_statement_def is_known_compatible_dml_def normalize_policy_upper
        starts_with_any_ci_upper)
  then show ?thesis
    using assms unfolding to_ascii_uppercase_def by metis
qed




definition counting_env :: "(nat, unit, unit) statement_env" where
  "counting_env = \<lparr>sv_execute = (\<lambda>_ n. (Inr (), Suc n)), sv_record = (\<lambda>_ n. (Inr (), n))\<rparr>"

definition example_statement :: "string \<Rightarrow> statement_event" where
  "example_statement sql =
     \<lparr>se_coordinate = \<lparr>bc_file = ''bin.1'', bc_position = 4\<rparr>, se_resume_position = 40,
      se_default_database = None, se_sql = sql\<rparr>"

lemma counting_replay:
  "apply_statement (\<lambda>c. [c]) counting_env (example_statement ''UPDATE t SET a = 1;'') 0 = (Inr Replayed, 1)"
  by code_simp



end
