(* ===== verification/Row_Values.thy ===== *)
theory Row_Values
  imports Target_Sql
begin

text \<open>
  Conversion of binlog cell values to target parameters
  (\<open>src/src/live/structured_stream/value.rs\<close>). The cell type is \<open>MySqlValue\<close> of the vendored binlog
  client; a signed 16-bit hour is a 16-bit pattern. Dates and times are converted with the calendar
  arithmetic of the source on integers.
\<close>

unbundle bit_operations_syntax

section \<open>Values of the binlog\<close>

record date_value =
  dv_year :: u16
  dv_month :: u8
  dv_day :: u8

record time_value =
  tv_hour :: u16
  tv_minute :: u8
  tv_second :: u8
  tv_micros :: u32

record datetime_value =
  dt_year :: u16
  dt_month :: u8
  dt_day :: u8
  dt_hour :: u8
  dt_minute :: u8
  dt_second :: u8
  dt_micros :: u32

datatype mysql_value =
    MTinyInt u8
  | MSmallInt u16
  | MMediumInt u32
  | MInt u32
  | MBigInt u64
  | MFloat u32
  | MDouble u64
  | MDecimal string
  | MString string
  | MBit "bool list"
  | MEnum u32
  | MSet u64
  | MBlob string
  | MYear u16
  | MDate date_value
  | MTime time_value
  | MDateTime datetime_value
  | MTimestamp u64

text \<open>The messages that become a statement error of the stream, one constructor per message.\<close>

datatype mapping_error =
    EnumOrdinalOutOfRange u32 nat
  | RowWidthMismatch nat nat
  | NoFullRowImage string
  | MissingTableMapFor u64 string u64
  | DmlQueryEvent "int list"
  | QueryWithUserVariables "string list"
  | UnsupportedIntVar u8
  | QualifiedQuery "int list"
  | SchemaUnreadable string string
  | SchemaNotCached string
  | TableNotFound string string
  | ColumnCountMismatch string string nat nat
  | EnumMetadataMismatch nat nat
  | SetMetadataMismatch nat nat
  | EnumColumnIndex nat
  | SetColumnIndex nat
  | PrimaryKeyColumnIndex u32

section \<open>Integers, bits and enums\<close>

definition sign_extend_u24 :: "u32 \<Rightarrow> u64" where
  "sign_extend_u24 v = (if v AND 0x800000 = 0 then ucast v else ucast v - 0x1000000)"

definition convert_mysql_integer_value :: "mysql_value \<Rightarrow> bool \<Rightarrow> sql_value option" where
  "convert_mysql_integer_value value is_signed =
     (case value of
        MTinyInt v \<Rightarrow> Some (if is_signed then SqlInt (scast v) else SqlUInt (ucast v))
      | MSmallInt v \<Rightarrow> Some (if is_signed then SqlInt (scast v) else SqlUInt (ucast v))
      | MMediumInt v \<Rightarrow> Some (if is_signed then SqlInt (sign_extend_u24 v) else SqlUInt (ucast v))
      | MInt v \<Rightarrow> Some (if is_signed then SqlInt (scast v) else SqlUInt (ucast v))
      | MBigInt v \<Rightarrow> Some (if is_signed then SqlInt v else SqlUInt v)
      | _ \<Rightarrow> None)"

definition enum_value_to_target_value :: "u32 \<Rightarrow> string list option \<Rightarrow> mapping_error + sql_value" where
  "enum_value_to_target_value ordinal enum_values =
     (case enum_values of
        None \<Rightarrow> Inr (SqlUInt (ucast ordinal))
      | Some labels \<Rightarrow>
          (if ordinal = 0 then Inr (SqlBytes [])
           else if unat ordinal - 1 < length labels then Inr (SqlBytes (labels ! (unat ordinal - 1)))
           else Inl (EnumOrdinalOutOfRange ordinal (length labels))))"

definition bits_number :: "bool list \<Rightarrow> u64" where
  "bits_number bits = foldl (\<lambda>value bit. push_bit 1 value OR (if bit then 1 else 0)) 0 bits"

text \<open>\<open>None\<close> is the overflow panic of a shift by 64 or more, which needs more than 64 bits.\<close>

definition pack_bit_value :: "bool list \<Rightarrow> string option" where
  "pack_bit_value bits =
     (let byte_count = (max (length bits) 1 + 7) div 8 in
      if 8 < byte_count then None
      else Some (map (\<lambda>index.
             char_of (unat (drop_bit ((byte_count - index - 1) * 8) (bits_number bits) AND 0xFF)))
           [0..<byte_count]))"

definition convert_mysql_scalar_value ::
  "mysql_value \<Rightarrow> string list option \<Rightarrow> (mapping_error, sql_value option) res"
where
  "convert_mysql_scalar_value value enum_values =
     (case value of
        MFloat v \<Rightarrow> Inr (Some (SqlFloat v))
      | MDouble v \<Rightarrow> Inr (Some (SqlDouble v))
      | MDecimal v \<Rightarrow> Inr (Some (SqlBytes v))
      | MString v \<Rightarrow> Inr (Some (SqlBytes v))
      | MBit bits \<Rightarrow>
          (case pack_bit_value bits of
             Some bytes \<Rightarrow> Inr (Some (SqlBytes bytes))
           | None \<Rightarrow> Inl (Panic ''attempt to shift right with overflow''))
      | MEnum v \<Rightarrow> map_err Fail (bind_res (enum_value_to_target_value v enum_values) (\<lambda>x. Inr (Some x)))
      | MSet v \<Rightarrow> Inr (Some (SqlUInt v))
      | MBlob v \<Rightarrow> Inr (Some (SqlBytes v))
      | MYear v \<Rightarrow> Inr (Some (SqlUInt (ucast v)))
      | _ \<Rightarrow> Inr None)"

section \<open>Dates and times\<close>

definition two_digits :: "u8 \<Rightarrow> string" where
  "two_digits v = pad_left 2 (nat_str (unat v))"

definition append_micros :: "string \<Rightarrow> nat \<Rightarrow> string" where
  "append_micros base micros = (if micros = 0 then base else base @ ''.'' @ pad_left 6 (nat_str micros))"

definition format_date :: "date_value \<Rightarrow> string" where
  "format_date v = pad_left 4 (nat_str (unat (dv_year v))) @ ''-'' @ two_digits (dv_month v) @ ''-'' @ two_digits (dv_day v)"

definition hour_text :: "u16 \<Rightarrow> string" where
  "hour_text h = (if 0 \<le> sint h then pad_left 2 (nat_str (nat (sint h))) else ''-'' @ nat_str (nat (- sint h)))"

definition format_time :: "time_value \<Rightarrow> string" where
  "format_time v =
     append_micros (hour_text (tv_hour v) @ '':'' @ two_digits (tv_minute v) @ '':'' @ two_digits (tv_second v))
       (unat (tv_micros v))"

definition format_datetime :: "datetime_value \<Rightarrow> string" where
  "format_datetime v =
     append_micros (pad_left 4 (nat_str (unat (dt_year v))) @ ''-'' @ two_digits (dt_month v) @ ''-''
         @ two_digits (dt_day v) @ '' '' @ two_digits (dt_hour v) @ '':'' @ two_digits (dt_minute v) @ '':''
         @ two_digits (dt_second v))
       (unat (dt_micros v))"

definition civil_from_days :: "int \<Rightarrow> int \<times> int \<times> int" where
  "civil_from_days days_since_epoch =
     (let days = days_since_epoch + 719468;
          era = days div 146097;
          day_of_era = days - era * 146097;
          year_of_era =
            (day_of_era - day_of_era div 1460 + day_of_era div 36524 - day_of_era div 146096) div 365;
          year = year_of_era + era * 400;
          day_of_year = day_of_era - (365 * year_of_era + year_of_era div 4 - year_of_era div 100);
          month_phase = (5 * day_of_year + 2) div 153;
          day = day_of_year - (153 * month_phase + 2) div 5 + 1;
          month = month_phase + (if month_phase < 10 then 3 else -9)
      in (year + (if month \<le> 2 then 1 else 0), month, day))"

definition time_from_seconds :: "int \<Rightarrow> int \<times> int \<times> int" where
  "time_from_seconds seconds_of_day =
     (seconds_of_day div 3600, (seconds_of_day mod 3600) div 60, seconds_of_day mod 60)"

definition split_unix_seconds :: "int \<Rightarrow> (int \<times> int \<times> int) \<times> (int \<times> int \<times> int)" where
  "split_unix_seconds seconds =
     (civil_from_days (seconds div 86400), time_from_seconds (seconds mod 86400))"

definition two_digit_int :: "int \<Rightarrow> string" where
  "two_digit_int v = pad_left 2 (nat_str (nat v))"

definition format_timestamp :: "u64 \<Rightarrow> string" where
  "format_timestamp micros =
     (let seconds = int (unat micros div 1000000) in
      case split_unix_seconds seconds of
        ((year, month, day), (hour, minute, second)) \<Rightarrow>
          append_micros (pad_left 4 (nat_str (nat year)) @ ''-'' @ two_digit_int month @ ''-'' @ two_digit_int day
              @ '' '' @ two_digit_int hour @ '':'' @ two_digit_int minute @ '':'' @ two_digit_int second)
            (unat micros mod 1000000))"

definition convert_mysql_temporal_value :: "mysql_value \<Rightarrow> sql_value option" where
  "convert_mysql_temporal_value value =
     (case value of
        MDate v \<Rightarrow> Some (SqlBytes (format_date v))
      | MTime v \<Rightarrow> Some (SqlBytes (format_time v))
      | MDateTime v \<Rightarrow> Some (SqlBytes (format_datetime v))
      | MTimestamp v \<Rightarrow> Some (SqlBytes (format_timestamp v))
      | _ \<Rightarrow> None)"

definition mysql_value_to_target_value ::
  "mysql_value option \<Rightarrow> bool \<Rightarrow> string list option \<Rightarrow> (mapping_error, sql_value) res"
where
  "mysql_value_to_target_value value is_signed enum_values =
     (case value of
        None \<Rightarrow> Inr SqlNull
      | Some v \<Rightarrow>
          (case convert_mysql_integer_value v is_signed of
             Some target \<Rightarrow> Inr target
           | None \<Rightarrow>
               bind_res (convert_mysql_scalar_value v enum_values) (\<lambda>scalar.
                 case scalar of
                   Some target \<Rightarrow> Inr target
                 | None \<Rightarrow>
                     (case convert_mysql_temporal_value v of
                        Some target \<Rightarrow> Inr target
                      | None \<Rightarrow> Inl (Panic ''internal error: entered unreachable code'')))))"

section \<open>The Gregorian calendar\<close>

definition leap_year :: "int \<Rightarrow> bool" where
  "leap_year y \<longleftrightarrow> y mod 4 = 0 \<and> (y mod 100 \<noteq> 0 \<or> y mod 400 = 0)"

definition month_lengths :: "int \<Rightarrow> int list" where
  "month_lengths y = [31, if leap_year y then 29 else 28, 31, 30, 31, 30, 31, 31, 30, 31, 30, 31]"

definition days_before_month :: "int \<Rightarrow> int \<Rightarrow> int" where
  "days_before_month y m = sum_list (take (nat (m - 1)) (month_lengths y))"

definition valid_date :: "int \<Rightarrow> int \<Rightarrow> int \<Rightarrow> bool" where
  "valid_date y m d \<longleftrightarrow> 1 \<le> m \<and> m \<le> 12 \<and> 1 \<le> d \<and> d \<le> month_lengths y ! nat (m - 1)"

text \<open>The number of days from 1 January 1970 to a date, counted year by year and month by month.\<close>

definition days_before_year :: "int \<Rightarrow> int" where
  "days_before_year y = 365 * (y - 1) + (y - 1) div 4 - (y - 1) div 100 + (y - 1) div 400"

definition days_since_1970 :: "int \<Rightarrow> int \<Rightarrow> int \<Rightarrow> int" where
  "days_since_1970 y m d = days_before_year y + days_before_month y m + (d - 1) - 719162"

lemma int_div_eqI: "n * q \<le> x \<Longrightarrow> x < n * q + n \<Longrightarrow> x div n = q" for n q x :: int
  by (rule int_div_pos_eq [where r = "x - n * q"]) auto

text \<open>A day of a 400-year era lies in century \<open>c\<close>, four-year cycle \<open>q\<close>, year \<open>k\<close> of the cycle, on day
  \<open>e\<close> of a year that starts in March.\<close>

lemma day_of_era_decompose:
  fixes doe :: int
  assumes "0 \<le> doe" "doe < 146097"
  obtains c q k e where "doe = 36524 * c + 1461 * q + 365 * k + e"
    "0 \<le> c" "c \<le> 3" "0 \<le> q" "q \<le> 24" "0 \<le> k" "k \<le> 3" "0 \<le> e"
    "e < 365 \<or> e = 365 \<and> k = 3 \<and> (q < 24 \<or> c = 3)"
proof -
  define c where "c = min (doe div 36524) 3"
  define r where "r = doe - 36524 * c"
  have c: "0 \<le> c" "c \<le> 3" and r: "0 \<le> r" "r \<le> 36524" "r = 36524 \<longrightarrow> c = 3"
    using assms unfolding c_def r_def by (auto simp: min_def)
  define q where "q = r div 1461"
  define s where "s = r - 1461 * q"
  have q: "0 \<le> q" "q \<le> 24" and s: "0 \<le> s" "s < 1461" "r = 1461 * q + s"
    using r(1,2) unfolding q_def s_def by auto
  define k where "k = min (s div 365) 3"
  define e where "e = s - 365 * k"
  have k: "0 \<le> k" "k \<le> 3" and e: "0 \<le> e" "e \<le> 365" "e = 365 \<longrightarrow> k = 3" "s = 365 * k + e"
    using s(1,2) unfolding k_def e_def by (auto simp: min_def)
  have "doe = 36524 * c + 1461 * q + 365 * k + e"
    using s(3) e(4) unfolding r_def by simp
  moreover have "e < 365 \<or> e = 365 \<and> k = 3 \<and> (q < 24 \<or> c = 3)"
    using e r s q by auto
  ultimately show thesis
    using that c q k e(1) by blast
qed

lemma year_of_era_formula:
  fixes c q k e :: int
  assumes doe: "doe = 36524 * c + 1461 * q + 365 * k + e"
    and b: "0 \<le> c" "c \<le> 3" "0 \<le> q" "q \<le> 24" "0 \<le> k" "k \<le> 3" "0 \<le> e"
    and e: "e < 365 \<or> e = 365 \<and> k = 3 \<and> (q < 24 \<or> c = 3)"
  shows "(doe - doe div 1460 + doe div 36524 - doe div 146096) div 365 = 100 * c + 4 * q + k"
proof -
  define d where "d = (if 1460 \<le> 24 * c + q + 365 * k + e then 1 else 0 :: int)"
  have d1460: "doe div 1460 = 25 * c + q + d"
    using b e by (intro int_div_eqI) (auto simp: doe d_def)
  have "doe div 36524 - doe div 146096 = c"
  proof (cases "doe = 146096")
    case True
    have "c = 3"
    proof (rule ccontr)
      assume "c \<noteq> 3"
      with b have "c \<le> 2" by simp
      with b e True show False unfolding doe by auto
    qed
    with True show ?thesis by simp
  next
    case False
    have "doe < 146097"
      using b e by (auto simp: doe)
    with False have "doe < 146096" by simp
    moreover have "0 \<le> doe"
      using b by (simp add: doe)
    ultimately have "doe div 146096 = 0"
      by (rule div_pos_pos_trivial [rotated])
    moreover have "doe div 36524 = c"
      using b e False by (intro int_div_eqI) (auto simp: doe)
    ultimately show ?thesis by simp
  qed
  then have "doe - doe div 1460 + doe div 36524 - doe div 146096 = doe - (25 * c + q + d) + c"
    unfolding d1460 by simp
  then have "doe - doe div 1460 + doe div 36524 - doe div 146096
      = 365 * (100 * c + 4 * q + k) + (e - d)"
    by (simp only:) (simp add: doe)
  moreover have "0 \<le> e - d" "e - d < 365"
    using b e by (auto simp: d_def)
  ultimately show ?thesis
    by (intro int_div_eqI) auto
qed

lemma march_month:
  fixes e :: int
  assumes "0 \<le> e" "e \<le> 365" and mp: "mp = (5 * e + 2) div 153"
  obtains "mp = 0" "e \<le> 30" | "mp = 1" "31 \<le> e" "e \<le> 60" | "mp = 2" "61 \<le> e" "e \<le> 91"
    | "mp = 3" "92 \<le> e" "e \<le> 121" | "mp = 4" "122 \<le> e" "e \<le> 152" | "mp = 5" "153 \<le> e" "e \<le> 183"
    | "mp = 6" "184 \<le> e" "e \<le> 213" | "mp = 7" "214 \<le> e" "e \<le> 244" | "mp = 8" "245 \<le> e" "e \<le> 274"
    | "mp = 9" "275 \<le> e" "e \<le> 305" | "mp = 10" "306 \<le> e" "e \<le> 336" | "mp = 11" "337 \<le> e"
proof -
  have lower: "153 * mp \<le> 5 * e + 2" and upper: "5 * e + 2 < 153 * mp + 153"
    unfolding mp by linarith+
  have "0 \<le> mp" "mp \<le> 11"
    using lower upper assms(1,2) by linarith+
  then have "mp = 0 \<or> mp = 1 \<or> mp = 2 \<or> mp = 3 \<or> mp = 4 \<or> mp = 5 \<or> mp = 6 \<or> mp = 7 \<or> mp = 8 \<or> mp = 9
      \<or> mp = 10 \<or> mp = 11"
    by presburger
  then show thesis
    by (elim disjE) (rule that; use lower upper in linarith)+
qed

lemma days_before_next_year:
  "days_before_year (y + 1) = days_before_year y + 365 + (if leap_year y then 1 else 0)"
proof -
  have step: "y div n = (y - 1) div n + (if y mod n = 0 then 1 else 0)" if "0 < n" for n :: int
  proof -
    obtain q r where y: "y = n * q + r" and r: "0 \<le> r" "r < n"
      using \<open>0 < n\<close> by (metis mult_div_mod_eq pos_mod_bound pos_mod_sign)
    show ?thesis
    proof (cases "r = 0")
      case True
      have "(y - 1) div n = q - 1"
        using \<open>0 < n\<close> by (intro int_div_eqI) (auto simp: y True algebra_simps)
      with True \<open>0 < n\<close> show ?thesis by (simp add: y)
    next
      case False
      have "(y - 1) div n = q" "y div n = q" "y mod n = r"
        using False r by (auto simp: y intro!: int_div_eqI)
      with False show ?thesis by simp
    qed
  qed
  let ?one = "\<lambda>n. if y mod n = 0 then 1 else 0 :: int"
  have multiples: "y mod 400 = 0 \<Longrightarrow> y mod 100 = 0" "y mod 100 = 0 \<Longrightarrow> y mod 4 = 0"
    by presburger+
  have count: "(if A then 1 else 0) - (if B then 1 else 0) + (if C then 1 else 0)
      = (if A \<and> (\<not> B \<or> C) then 1 else (0::int))" if "C \<Longrightarrow> B" "B \<Longrightarrow> A" for A B C
    using that by auto
  have leap: "?one 4 - ?one 100 + ?one 400 = (if leap_year y then 1 else 0)"
    unfolding leap_year_def by (rule count [OF multiples])
  have s4: "y div 4 = (y - 1) div 4 + ?one 4" and s100: "y div 100 = (y - 1) div 100 + ?one 100"
    and s400: "y div 400 = (y - 1) div 400 + ?one 400"
    by (rule step, rule zero_less_numeral)+
  have "days_before_year (y + 1)
      = 365 * y + ((y - 1) div 4 + ?one 4) - ((y - 1) div 100 + ?one 100) + ((y - 1) div 400 + ?one 400)"
    by (simp only: days_before_year_def add_diff_cancel_right' s4 s100 s400)
  also have "\<dots> = days_before_year y + 365 + (?one 4 - ?one 100 + ?one 400)"
    unfolding days_before_year_def by (simp only: algebra_simps mult_1_right)
  finally show ?thesis
    unfolding leap .
qed

lemma days_before_era_year:
  fixes c q k :: int
  assumes "0 \<le> c" "c \<le> 3" "0 \<le> q" "q \<le> 24" "0 \<le> k" "k \<le> 3"
  shows "days_before_year (100 * c + 4 * q + k + era * 400 + 1)
       = 146097 * era + 36524 * c + 1461 * q + 365 * k"
proof -
  let ?y = "100 * c + 4 * q + k + era * 400"
  have "?y div 4 = 25 * c + q + 100 * era" "?y div 100 = c + 4 * era" "?y div 400 = era"
    using assms by (auto intro!: int_div_eqI)
  then show ?thesis
    by (simp add: days_before_year_def)
qed

lemma days_before_month_simps [simp]:
  "days_before_month y 1 = 0" "days_before_month y 2 = 31"
  "days_before_month y 3 = 59 + (if leap_year y then 1 else 0)"
  "days_before_month y 4 = 90 + (if leap_year y then 1 else 0)"
  "days_before_month y 5 = 120 + (if leap_year y then 1 else 0)"
  "days_before_month y 6 = 151 + (if leap_year y then 1 else 0)"
  "days_before_month y 7 = 181 + (if leap_year y then 1 else 0)"
  "days_before_month y 8 = 212 + (if leap_year y then 1 else 0)"
  "days_before_month y 9 = 243 + (if leap_year y then 1 else 0)"
  "days_before_month y 10 = 273 + (if leap_year y then 1 else 0)"
  "days_before_month y 11 = 304 + (if leap_year y then 1 else 0)"
  "days_before_month y 12 = 334 + (if leap_year y then 1 else 0)"
  by (simp_all add: days_before_month_def month_lengths_def)

lemma leap_day_year:
  fixes c q :: int
  assumes "0 \<le> q" "q \<le> 24" "q < 24 \<or> c = 3"
  shows "leap_year (100 * c + 4 * q + 3 + era * 400 + 1)"
proof -
  let ?y = "100 * c + 4 * q + 3 + era * 400 + 1"
  have "?y = 4 * (25 * c + q + 1 + 100 * era)"
    by simp
  then have "?y mod 4 = 0"
    by (metis mod_mult_self1_is_0)
  moreover have "?y mod 100 \<noteq> 0" if "q < 24"
  proof -
    have "?y = 4 * q + 4 + (c + 4 * era) * 100"
      by simp
    then have "?y mod 100 = (4 * q + 4) mod 100"
      by (metis mod_mult_self1)
    with that assms(1) show ?thesis
      by (simp add: mod_pos_pos_trivial)
  qed
  moreover have "?y mod 400 = 0" if "q = 24" "c = 3"
  proof -
    have "?y = 400 * (era + 1)"
      using that by simp
    then show ?thesis
      by (metis mod_mult_self1_is_0)
  qed
  ultimately show ?thesis
    using assms unfolding leap_year_def by force
qed

text \<open>The date of day \<open>e\<close> of the March-based year \<open>Y\<close>.\<close>

lemma march_date:
  fixes e Y :: int
  assumes e: "0 \<le> e" "e \<le> 365" "e = 365 \<Longrightarrow> leap_year (Y + 1)"
    and mp: "mp = (5 * e + 2) div 153"
    and m: "m = mp + (if mp < 10 then 3 else -9)"
    and y: "y = Y + (if m \<le> 2 then 1 else 0)"
    and d: "d = e - (153 * mp + 2) div 5 + 1"
  shows "valid_date y m d \<and> days_before_year y + days_before_month y m + (d - 1) + 306 = days_before_year (Y + 1) + e"
proof -
  have next_year: "days_before_year (Y + 1) = days_before_year Y + 365 + (if leap_year Y then 1 else 0)"
    by (rule days_before_next_year)
  have feb: "e \<le> 364 \<or> leap_year (Y + 1)"
    using e by linarith
  show ?thesis
    using e(1,2) mp
  proof (cases rule: march_month)
    case 12
    with e m y d feb show ?thesis
      by (auto simp: valid_date_def month_lengths_def)
  qed (use e(1) in \<open>simp_all add: m y d valid_date_def month_lengths_def next_year\<close>)
qed

lemma time_of_day:
  fixes t :: int
  assumes "0 \<le> t" "t < 86400"
  shows "0 \<le> t div 3600" "t div 3600 < 24" "0 \<le> t mod 3600 div 60" "t mod 3600 div 60 < 60"
    and "t div 3600 * 3600 + t mod 3600 div 60 * 60 + t mod 60 = t"
proof -
  have "t mod 3600 mod 60 = t mod 60"
    by (simp add: mod_mod_cancel)
  then have "t mod 3600 div 60 * 60 + t mod 60 = t mod 3600"
    using div_mult_mod_eq [of "t mod 3600" 60] by simp
  then show "t div 3600 * 3600 + t mod 3600 div 60 * 60 + t mod 60 = t"
    using div_mult_mod_eq [of t 3600] by linarith
  have "0 \<le> t mod 3600" "t mod 3600 < 3600"
    by simp_all
  then show "0 \<le> t div 3600" "t div 3600 < 24" "0 \<le> t mod 3600 div 60" "t mod 3600 div 60 < 60"
    using assms by linarith+
qed

section \<open>Bits\<close>

definition bits_value :: "bool list \<Rightarrow> nat" where
  "bits_value bits = foldl (\<lambda>n b. 2 * n + of_bool b) 0 bits"

definition big_endian :: "string \<Rightarrow> nat" where
  "big_endian bytes = foldl (\<lambda>n c. 256 * n + of_char c) 0 bytes"

lemma bits_value_snoc [simp]: "bits_value (bits @ [b]) = 2 * bits_value bits + of_bool b"
  by (simp add: bits_value_def)

lemma bits_number_snoc [simp]:
  "bits_number (bits @ [b]) = push_bit 1 (bits_number bits) OR (if b then 1 else 0)"
  by (simp add: bits_number_def)

lemma bits_value_bound: "bits_value bits < 2 ^ length bits"
  by (induction bits rule: rev_induct) (auto simp: bits_value_def [of "[]"])

lemma push_or_bit: "push_bit 1 v OR (if b then 1 else 0) = 2 * v + of_bool b" for v :: u64
proof -
  have "push_bit 1 v = 2 * v"
    by (simp add: push_bit_eq_mult mult.commute)
  then show ?thesis
    by (cases b) (simp_all add: or_one_eq)
qed

lemma unat_bits_number: "length bits \<le> 64 \<Longrightarrow> unat (bits_number bits) = bits_value bits"
proof (induction bits rule: rev_induct)
  case Nil
  then show ?case by (simp add: bits_number_def bits_value_def)
next
  case (snoc b bits)
  have "bits_value bits < 2 ^ length bits"
    by (rule bits_value_bound)
  also have "(2::nat) ^ length bits \<le> 2 ^ 63"
    using snoc.prems by (intro power_increasing) auto
  finally have "2 * bits_value bits + of_bool b < 2 ^ 64"
    by (cases b) auto
  moreover have "unat (bits_number bits) = bits_value bits"
    using snoc by simp
  then have "of_nat (bits_value bits) = bits_number bits"
    by (metis of_nat_unat ucast_id)
  then have "2 * bits_number bits + of_bool b = of_nat (2 * bits_value bits + of_bool b)"
    by (cases b) auto
  ultimately show ?case
    unfolding bits_number_snoc push_or_bit bits_value_snoc
    by (simp only: unat_of_nat) simp
qed

lemma big_endian_digits:
  assumes "n < 256 ^ k" and "j \<le> k"
  shows "big_endian (map (\<lambda>i. char_of (n div 256 ^ (k - i - 1) mod 256)) [0..<j]) = n div 256 ^ (k - j)"
  using assms(2)
proof (induction j)
  case 0
  then show ?case using assms(1) by (simp add: big_endian_def)
next
  case (Suc j)
  let ?r = "k - Suc j"
  have "k - j = Suc ?r" and "k - j - 1 = ?r"
    using Suc.prems by auto
  then have "n div 256 ^ (k - j) = n div 256 ^ ?r div 256"
    by (simp only: power_Suc2 div_mult2_eq)
  then have "256 * (n div 256 ^ (k - j)) + n div 256 ^ ?r mod 256 = n div 256 ^ ?r"
    by simp
  moreover have "big_endian (map (\<lambda>i. char_of (n div 256 ^ (k - i - 1) mod 256)) [0..<j]) = n div 256 ^ (k - j)"
    using Suc by simp
  ultimately show ?case
    by (simp add: big_endian_def)
qed

lemma pack_bit_value_digits:
  assumes "length bits \<le> 64"
  defines "k \<equiv> (max (length bits) 1 + 7) div 8"
  shows "pack_bit_value bits = Some (map (\<lambda>i. char_of (bits_value bits div 256 ^ (k - i - 1) mod 256)) [0..<k])"
proof -
  have digit: "unat (drop_bit (m * 8) (bits_number bits) AND 0xFF) = bits_value bits div 256 ^ m mod 256" for m
  proof -
    let ?w = "bits_number bits"
    have "unat ?w < 2 ^ 64"
      using unsigned_less [of ?w] by simp
    then have self: "take_bit 64 (unat ?w) = unat ?w"
      by (rule take_bit_nat_eq_self)
    have "unat (drop_bit (m * 8) ?w AND 0xFF) = unat (take_bit 8 (drop_bit (m * 8) ?w))"
      by (simp add: take_bit_eq_mask mask_eq_exp_minus_1)
    also have "\<dots> = take_bit 8 (drop_bit (m * 8) (unat ?w))"
      by (simp only: unsigned_take_bit_eq unsigned_drop_bit_eq) (simp add: self)
    also have "\<dots> = bits_value bits div 2 ^ (m * 8) mod 256"
      by (simp add: unat_bits_number [OF assms(1)] take_bit_eq_mod drop_bit_eq_div)
    also have "(2::nat) ^ (m * 8) = (2 ^ 8) ^ m"
      by (metis mult.commute power_mult)
    finally show ?thesis
      by simp
  qed
  have "k \<le> 8"
    using assms by simp
  then show ?thesis
    unfolding pack_bit_value_def Let_def k_def [symmetric] by (simp add: digit)
qed

lemma pack_bit_value_exact:
  assumes "length bits \<le> 64"
  shows "\<exists>bytes. pack_bit_value bits = Some bytes \<and> length bytes = (max (length bits) 1 + 7) div 8
           \<and> big_endian bytes = bits_value bits"
proof -
  define k where "k = (max (length bits) 1 + 7) div 8"
  have "bits_value bits < 2 ^ length bits"
    by (rule bits_value_bound)
  also have "(2::nat) ^ length bits \<le> 2 ^ (8 * k)"
    by (rule power_increasing) (auto simp: k_def)
  finally have "bits_value bits < 256 ^ k"
    by (simp add: power_mult)
  from big_endian_digits [OF this order.refl] show ?thesis
    using pack_bit_value_digits [OF assms] by (simp add: k_def)
qed

lemma sign_extend_u24_exact:
  assumes "unat v < 2 ^ 24"
  shows "sint (sign_extend_u24 v) = (if unat v < 2 ^ 23 then int (unat v) else int (unat v) - 2 ^ 24)"
proof -
  have n: "int (unat v) = uint v"
    by simp
  have "int (unat v) < int (2 ^ 24)"
    using assms by (simp only: of_nat_less_iff)
  then have uv: "0 \<le> uint v" "uint v < 2 ^ 24"
    unfolding n by simp_all
  have small: "unat v < 2 ^ 23 \<longleftrightarrow> uint v < 2 ^ 23"
  proof -
    have "unat v < 2 ^ 23 \<longleftrightarrow> int (unat v) < int (2 ^ 23)"
      by (simp only: of_nat_less_iff)
    then show ?thesis
      unfolding n by simp
  qed
  have "(v AND 0x800000 = 0) \<longleftrightarrow> \<not> bit v 23"
    using and_exp_eq_0_iff_not_bit [of v 23] by simp
  also have "bit v 23 \<longleftrightarrow> odd (uint v div 2 ^ 23)"
  proof -
    have "bit v 23 = bit (uint v) 23"
      by (simp add: bit_uint_iff)
    then show ?thesis
      unfolding bit_iff_odd [of "uint v"] .
  qed
  also have "uint v div 2 ^ 23 = (if 2 ^ 23 \<le> uint v then 1 else 0)"
    using uv by (intro int_div_eqI) auto
  finally have test: "(v AND 0x800000 = 0) \<longleftrightarrow> uint v < 2 ^ 23"
    by auto
  have "ucast v = (word_of_int (uint v) :: u64)"
    by simp
  then have w: "sign_extend_u24 v = word_of_int (if uint v < 2 ^ 23 then uint v else uint v - 2 ^ 24)"
    by (simp add: sign_extend_u24_def test)
  have self: "sint (word_of_int x :: u64) = x" if "- (2 ^ 63) \<le> x" "x < 2 ^ 63" for x
    using that by (simp add: signed_of_int signed_take_bit_int_eq_self)
  have "- (2 ^ 63) \<le> uint v"
    by (rule order_trans [OF _ uv(1)]) simp
  then show ?thesis
    unfolding w small n by (intro self) (use uv(2) in \<open>auto simp del: uint_ge_0\<close>)
qed

lemma unat_ucast_u32: "unat (ucast v :: u64) = unat v" for v :: u32
proof -
  have "int (unat (ucast v :: u64)) = int (unat v)"
    by (simp add: uint_up_ucast is_up)
  then show ?thesis
    by (simp only: of_nat_eq_iff)
qed

section \<open>Properties\<close>

text \<open>C37. Timestamps are converted with the Gregorian calendar, for every day: \<open>civil_from_days\<close>
  returns a valid date, whose distance from 1 January 1970, counted over years and months with their
  leap days, is the number of days given; and the time of day recombines to its seconds with hour,
  minute and second in range.
\<close>

theorem civil_from_days_exact:
  "(case split_unix_seconds seconds of ((y, m, d), (h, mi, s)) \<Rightarrow>
      valid_date y m d \<and> days_since_1970 y m d = seconds div 86400
      \<and> 0 \<le> h \<and> h < 24 \<and> 0 \<le> mi \<and> mi < 60 \<and> 0 \<le> s \<and> s < 60
      \<and> days_since_1970 y m d * 86400 + h * 3600 + mi * 60 + s = seconds)"
proof -
  define z where "z = seconds div 86400"
  define era where "era = (z + 719468) div 146097"
  define doe where "doe = z + 719468 - era * 146097"
  have "0 \<le> doe" "doe < 146097"
    unfolding doe_def era_def by (simp_all add: minus_div_mult_eq_mod)
  then obtain c q k e where doe: "doe = 36524 * c + 1461 * q + 365 * k + e"
    and b: "0 \<le> c" "c \<le> 3" "0 \<le> q" "q \<le> 24" "0 \<le> k" "k \<le> 3" "0 \<le> e"
    and e: "e < 365 \<or> e = 365 \<and> k = 3 \<and> (q < 24 \<or> c = 3)"
    by (rule day_of_era_decompose)
  define n where "n = 100 * c + 4 * q + k"
  have yoe: "(doe - doe div 1460 + doe div 36524 - doe div 146096) div 365 = n"
    unfolding n_def by (rule year_of_era_formula [OF doe b e])
  have "n div 4 = 25 * c + q" "n div 100 = c"
    using b unfolding n_def by (auto intro!: int_div_eqI)
  then have doy: "doe - (365 * n + n div 4 - n div 100) = e"
    by (simp add: doe n_def)
  define mp where "mp = (5 * e + 2) div 153"
  define m where "m = mp + (if mp < 10 then 3 else -9)"
  define y where "y = n + era * 400 + (if m \<le> 2 then 1 else 0)"
  define d where "d = e - (153 * mp + 2) div 5 + 1"
  have civil: "civil_from_days z = (y, m, d)"
    unfolding civil_from_days_def Let_def
    by (simp add: doe_def [symmetric] era_def [symmetric] yoe doy mp_def [symmetric] m_def [symmetric]
        d_def y_def)
  have leap: "leap_year (n + era * 400 + 1)" if "e = 365"
    using that e leap_day_year [OF b(3,4)] by (auto simp: n_def)
  have "valid_date y m d \<and> days_before_year y + days_before_month y m + (d - 1) + 306
      = days_before_year (n + era * 400 + 1) + e"
    by (rule march_date [OF b(7) _ leap mp_def m_def y_def d_def]) (use e in auto)
  moreover have "days_before_year (n + era * 400 + 1) + e = z + 719468"
    using days_before_era_year [OF b(1-6), of era] doe by (simp add: n_def doe_def)
  ultimately have date: "valid_date y m d" "days_since_1970 y m d = z"
    by (simp_all add: days_since_1970_def)
  define t where "t = seconds mod 86400"
  have t: "0 \<le> t" "t < 86400" "z * 86400 + t = seconds"
    by (simp_all add: t_def z_def)
  have sec: "0 \<le> t mod 60" "t mod 60 < 60"
    by simp_all
  show ?thesis
    unfolding split_unix_seconds_def time_from_seconds_def z_def [symmetric] t_def [symmetric] civil prod.case
    using date time_of_day [OF t(1,2)] t(3) sec by (intro conjI) (assumption | linarith)+
qed



end
