(* ===== verification/Row_Apply.thy ===== *)
theory Row_Apply
  imports Statement_Policy Row_Values
begin

text \<open>
  Application of row events to the target (\<open>src/src/row/model.rs\<close>, \<open>src/src/row/sql.rs\<close>,
  \<open>src/src/row/apply.rs\<close>): table maps and their registry, the statements for inserted, updated and
  deleted rows, and the applier. A row image is an ordered map from columns to values. The executor
  behind the applier is an operation on row changes.

  The second half says what a table is: the three statement shapes have a meaning on a key-value
  table, an executor that gives them this meaning is the interface \<open>row_executor\<close>, and an applied
  event moves the target table exactly as the source table moved.
\<close>

section \<open>Events\<close>

type_synonym row_image = "(string \<times> sql_value) list"

record row_table_map =
  rt_table_id :: u64
  rt_schema :: string
  rt_table :: string
  rt_columns :: "string list"
  rt_primary_key :: "string list"
  rt_generated_columns :: "string list"
  rt_signed_columns :: "string list"
  rt_enum_columns :: "(string \<times> string list) list"
  rt_set_columns :: "(string \<times> string list) list"

record table_map_event =
  tm_coordinate :: binlog_coordinate
  tm_table :: row_table_map

record write_rows_event =
  wr_coordinate :: binlog_coordinate
  wr_table_id :: u64
  wr_rows :: "row_image list"

record row_update =
  ru_before :: row_image
  ru_after :: row_image

record update_rows_event =
  ur_coordinate :: binlog_coordinate
  ur_table_id :: u64
  ur_rows :: "row_update list"

record delete_rows_event =
  dr_coordinate :: binlog_coordinate
  dr_table_id :: u64
  dr_rows :: "row_image list"

type_synonym table_map_registry = "(u64 \<times> row_table_map) list"

definition registry_apply_table_map :: "table_map_event \<Rightarrow> table_map_registry \<Rightarrow> table_map_registry" where
  "registry_apply_table_map event tables = btm_insert (rt_table_id (tm_table event)) (tm_table event) tables"

definition registry_table :: "table_map_registry \<Rightarrow> u64 \<Rightarrow> row_table_map option" where
  "registry_table tables table_id = map_of tables table_id"

datatype row_operation = InsertOp | UpdateOp | DeleteOp

datatype row_apply_error =
    MissingTableMap binlog_coordinate u64
  | MissingPrimaryKey binlog_coordinate string string
  | MissingPrimaryKeyValue binlog_coordinate string string string
  | RowTarget binlog_coordinate string string row_operation target_execute_error

section \<open>Statements\<close>

definition primary_key_value ::
  "row_table_map \<Rightarrow> row_image \<Rightarrow> string \<Rightarrow> binlog_coordinate \<Rightarrow> row_apply_error + sql_value"
where
  "primary_key_value table values column coordinate =
     ok_or (MissingPrimaryKeyValue coordinate (rt_schema table) (rt_table table) column) (map_of values column)"

definition primary_key_values ::
  "row_table_map \<Rightarrow> row_image \<Rightarrow> binlog_coordinate \<Rightarrow> row_apply_error + sql_value list"
where
  "primary_key_values table values coordinate =
     (if rt_primary_key table = [] then Inl (MissingPrimaryKey coordinate (rt_schema table) (rt_table table))
      else collect_res (\<lambda>column. primary_key_value table values column coordinate) (rt_primary_key table))"

definition validate_row_has_primary_key ::
  "row_table_map \<Rightarrow> row_image \<Rightarrow> binlog_coordinate \<Rightarrow> row_apply_error + unit"
where
  "validate_row_has_primary_key table values coordinate =
     bind_res (primary_key_values table values coordinate) (\<lambda>_. Inr ())"

fun validate_rows_have_primary_keys ::
  "row_table_map \<Rightarrow> row_image list \<Rightarrow> binlog_coordinate \<Rightarrow> row_apply_error + unit"
where
  "validate_rows_have_primary_keys table [] coordinate = Inr ()"
| "validate_rows_have_primary_keys table (row # rows) coordinate =
     bind_res (validate_row_has_primary_key table row coordinate)
       (\<lambda>_. validate_rows_have_primary_keys table rows coordinate)"

definition writable_columns :: "row_table_map \<Rightarrow> string list" where
  "writable_columns table = filter (\<lambda>column. column \<notin> set (rt_generated_columns table)) (rt_columns table)"

definition ordered_row_values :: "row_image \<Rightarrow> string list \<Rightarrow> sql_value list" where
  "ordered_row_values row columns =
     map (\<lambda>column. case map_of row column of Some v \<Rightarrow> v | None \<Rightarrow> SqlNull) columns"

definition assignment_texts :: "string list \<Rightarrow> string list" where
  "assignment_texts columns = map (\<lambda>column. quote_ident column @ '' = ?'') columns"

definition insert_text :: "string \<Rightarrow> string list \<Rightarrow> string" where
  "insert_text table columns =
     ''INSERT INTO '' @ quote_ident table @ '' ('' @ join_str '', '' (map quote_ident columns) @ '') VALUES (''
       @ join_str '', '' (replicate (length columns) ''?'') @ '')''"

definition build_insert_statement :: "row_table_map \<Rightarrow> row_image \<Rightarrow> sql_statement" where
  "build_insert_statement table row =
     \<lparr>ss_sql = insert_text (rt_table table) (writable_columns table),
      ss_params = ordered_row_values row (writable_columns table)\<rparr>"

definition option_value_eq :: "sql_value option \<Rightarrow> sql_value option \<Rightarrow> bool" where
  "option_value_eq v w =
     (case (v, w) of (Some a, Some b) \<Rightarrow> value_eq a b | (None, None) \<Rightarrow> True | _ \<Rightarrow> False)"

definition changed_columns :: "string list \<Rightarrow> row_update \<Rightarrow> string list" where
  "changed_columns columns update =
     filter (\<lambda>column. \<not> option_value_eq (map_of (ru_before update) column) (map_of (ru_after update) column)) columns"

definition update_text :: "string \<Rightarrow> string list \<Rightarrow> string list \<Rightarrow> string" where
  "update_text table columns keys =
     ''UPDATE '' @ quote_ident table @ '' SET '' @ join_str '', '' (assignment_texts columns) @ '' WHERE ''
       @ join_str '' AND '' (assignment_texts keys)"

definition build_update_statement ::
  "row_table_map \<Rightarrow> row_update \<Rightarrow> binlog_coordinate \<Rightarrow> row_apply_error + sql_statement option"
where
  "build_update_statement table update coordinate =
     bind_res (primary_key_values table (ru_before update) coordinate) (\<lambda>before_primary_key.
     bind_res (primary_key_values table (ru_after update) coordinate) (\<lambda>after_primary_key.
       let assignment_columns =
         (if list_all2 value_eq before_primary_key after_primary_key
          then changed_columns (writable_columns table) update else writable_columns table) in
       if assignment_columns = [] then Inr None
       else Inr (Some
         \<lparr>ss_sql = update_text (rt_table table) assignment_columns (rt_primary_key table),
          ss_params = ordered_row_values (ru_after update) assignment_columns @ before_primary_key\<rparr>)))"

definition delete_text :: "string \<Rightarrow> string list \<Rightarrow> string" where
  "delete_text table keys =
     ''DELETE FROM '' @ quote_ident table @ '' WHERE '' @ join_str '' AND '' (assignment_texts keys)"

definition build_delete_statement ::
  "row_table_map \<Rightarrow> row_image \<Rightarrow> binlog_coordinate \<Rightarrow> row_apply_error + sql_statement"
where
  "build_delete_statement table row coordinate =
     bind_res (primary_key_values table row coordinate) (\<lambda>key.
       Inr \<lparr>ss_sql = delete_text (rt_table table) (rt_primary_key table), ss_params = key\<rparr>)"

section \<open>The applier\<close>

definition insert_change ::
  "row_table_map \<Rightarrow> row_image \<Rightarrow> binlog_coordinate \<Rightarrow> row_apply_error + target_row_change option"
where
  "insert_change table row coordinate =
     bind_res (primary_key_values table row coordinate) (\<lambda>_.
       Inr (Some \<lparr>rc_statement = build_insert_statement table row, rc_kind = InsertChange,
                  rc_schema = rt_schema table, rc_table = rt_table table, rc_values = row\<rparr>))"

definition update_change ::
  "row_table_map \<Rightarrow> row_update \<Rightarrow> binlog_coordinate \<Rightarrow> row_apply_error + target_row_change option"
where
  "update_change table update coordinate =
     bind_res (validate_row_has_primary_key table (ru_after update) coordinate) (\<lambda>_.
     bind_res (build_update_statement table update coordinate) (\<lambda>statement.
       case statement of
         None \<Rightarrow> Inr None
       | Some statement \<Rightarrow>
           Inr (Some \<lparr>rc_statement = statement, rc_kind = UpdateChange, rc_schema = rt_schema table,
                      rc_table = rt_table table, rc_values = ru_after update\<rparr>)))"

definition delete_change ::
  "row_table_map \<Rightarrow> row_image \<Rightarrow> binlog_coordinate \<Rightarrow> row_apply_error + target_row_change option"
where
  "delete_change table row coordinate =
     bind_res (primary_key_values table row coordinate) (\<lambda>_.
     bind_res (build_delete_statement table row coordinate) (\<lambda>statement.
       Inr (Some \<lparr>rc_statement = statement, rc_kind = DeleteChange, rc_schema = rt_schema table,
                  rc_table = rt_table table, rc_values = row\<rparr>)))"

type_synonym 'w row_execute = "target_row_change \<Rightarrow> ('w, target_execute_error, unit) op"

definition resolve_table :: "table_map_registry \<Rightarrow> u64 \<Rightarrow> binlog_coordinate \<Rightarrow> row_apply_error + row_table_map" where
  "resolve_table registry table_id coordinate =
     ok_or (MissingTableMap coordinate table_id) (registry_table registry table_id)"

fun apply_rows ::
  "'w row_execute \<Rightarrow> row_table_map \<Rightarrow> binlog_coordinate \<Rightarrow> row_operation
    \<Rightarrow> (row_table_map \<Rightarrow> 'r \<Rightarrow> binlog_coordinate \<Rightarrow> row_apply_error + target_row_change option)
    \<Rightarrow> 'r list \<Rightarrow> ('w, row_apply_error, unit) op"
where
  "apply_rows execute table coordinate operation build [] = ret_op ()"
| "apply_rows execute table coordinate operation build (row # rows) =
     bind_op (lift_op (build table row coordinate)) (\<lambda>change.
       case change of
         None \<Rightarrow> apply_rows execute table coordinate operation build rows
       | Some change \<Rightarrow>
           bind_op (map_err_op (RowTarget coordinate (rt_schema table) (rt_table table) operation) (execute change))
             (\<lambda>_. apply_rows execute table coordinate operation build rows))"

record 'r row_event_input =
  ri_table_id :: u64
  ri_coordinate :: binlog_coordinate
  ri_rows :: "'r list"
  ri_operation :: row_operation
  ri_preflight :: "row_table_map \<Rightarrow> 'r list \<Rightarrow> binlog_coordinate \<Rightarrow> row_apply_error + unit"
  ri_build_change :: "row_table_map \<Rightarrow> 'r \<Rightarrow> binlog_coordinate \<Rightarrow> row_apply_error + target_row_change option"

definition apply_row_event ::
  "'w row_execute \<Rightarrow> table_map_registry \<Rightarrow> 'r row_event_input \<Rightarrow> ('w, row_apply_error, unit) op"
where
  "apply_row_event execute registry input =
     bind_op (lift_op (resolve_table registry (ri_table_id input) (ri_coordinate input))) (\<lambda>table.
     bind_op (lift_op (ri_preflight input table (ri_rows input) (ri_coordinate input))) (\<lambda>_.
       apply_rows execute table (ri_coordinate input) (ri_operation input) (ri_build_change input) (ri_rows input)))"

definition no_preflight :: "row_table_map \<Rightarrow> 'r list \<Rightarrow> binlog_coordinate \<Rightarrow> row_apply_error + unit" where
  "no_preflight table rows coordinate = Inr ()"

definition write_rows_input :: "write_rows_event \<Rightarrow> row_image row_event_input" where
  "write_rows_input event =
     \<lparr>ri_table_id = wr_table_id event, ri_coordinate = wr_coordinate event, ri_rows = wr_rows event,
      ri_operation = InsertOp, ri_preflight = validate_rows_have_primary_keys, ri_build_change = insert_change\<rparr>"

definition update_rows_input :: "update_rows_event \<Rightarrow> row_update row_event_input" where
  "update_rows_input event =
     \<lparr>ri_table_id = ur_table_id event, ri_coordinate = ur_coordinate event, ri_rows = ur_rows event,
      ri_operation = UpdateOp, ri_preflight = no_preflight, ri_build_change = update_change\<rparr>"

definition delete_rows_input :: "delete_rows_event \<Rightarrow> row_image row_event_input" where
  "delete_rows_input event =
     \<lparr>ri_table_id = dr_table_id event, ri_coordinate = dr_coordinate event, ri_rows = dr_rows event,
      ri_operation = DeleteOp, ri_preflight = no_preflight, ri_build_change = delete_change\<rparr>"

definition apply_write_rows ::
  "'w row_execute \<Rightarrow> table_map_registry \<Rightarrow> write_rows_event \<Rightarrow> ('w, row_apply_error, unit) op"
where
  "apply_write_rows execute registry event = apply_row_event execute registry (write_rows_input event)"

definition apply_update_rows ::
  "'w row_execute \<Rightarrow> table_map_registry \<Rightarrow> update_rows_event \<Rightarrow> ('w, row_apply_error, unit) op"
where
  "apply_update_rows execute registry event = apply_row_event execute registry (update_rows_input event)"

definition apply_delete_rows ::
  "'w row_execute \<Rightarrow> table_map_registry \<Rightarrow> delete_rows_event \<Rightarrow> ('w, row_apply_error, unit) op"
where
  "apply_delete_rows execute registry event = apply_row_event execute registry (delete_rows_input event)"

section \<open>Tables and the meaning of the statements\<close>

type_synonym table_state = "sql_value list \<rightharpoonup> (string \<rightharpoonup> sql_value)"

datatype row_stmt = InsertS "string list" | UpdateS "string list" | DeleteS

definition stmt_text :: "row_table_map \<Rightarrow> row_stmt \<Rightarrow> string" where
  "stmt_text table s =
     (case s of
        InsertS columns \<Rightarrow> insert_text (rt_table table) columns
      | UpdateS columns \<Rightarrow> update_text (rt_table table) columns (rt_primary_key table)
      | DeleteS \<Rightarrow> delete_text (rt_table table) (rt_primary_key table))"

definition table_statements :: "row_table_map \<Rightarrow> row_stmt list" where
  "table_statements table =
     InsertS (writable_columns table) # DeleteS
       # map UpdateS (filter (\<lambda>columns. columns \<noteq> []) (subseqs (writable_columns table)))"

definition stored_key :: "row_table_map \<Rightarrow> (string \<rightharpoonup> sql_value) \<Rightarrow> sql_value list" where
  "stored_key table r = map (\<lambda>column. the (r column)) (rt_primary_key table)"

text \<open>What a statement does to a table: \<open>None\<close> is a duplicate key.\<close>

definition eval_stmt :: "row_table_map \<Rightarrow> row_stmt \<Rightarrow> sql_value list \<Rightarrow> table_state \<Rightarrow> table_state option" where
  "eval_stmt table s params t =
     (case s of
        InsertS columns \<Rightarrow>
          (let r = map_of (zip columns params); key = stored_key table r in
           if t key = None then Some (t(key \<mapsto> r)) else None)
      | UpdateS columns \<Rightarrow>
          (let key = drop (length columns) params in
           case t key of
             None \<Rightarrow> Some t
           | Some r \<Rightarrow>
               (let r' = r ++ map_of (zip columns (take (length columns) params)); key' = stored_key table r' in
                if key' = key then Some (t(key \<mapsto> r'))
                else if t key' = None then Some (t(key := None, key' \<mapsto> r')) else None))
      | DeleteS \<Rightarrow> Some (t(params := None)))"

text \<open>The source table as a map from keys to row images, and its image on the target, which stores the
  writable columns.\<close>

type_synonym source_table = "sql_value list \<rightharpoonup> row_image"

definition row_key_of :: "row_table_map \<Rightarrow> row_image \<Rightarrow> sql_value list" where
  "row_key_of table row = map (\<lambda>column. the (map_of row column)) (rt_primary_key table)"

definition has_row_key :: "row_table_map \<Rightarrow> row_image \<Rightarrow> bool" where
  "has_row_key table row = list_all (\<lambda>column. map_of row column \<noteq> None) (rt_primary_key table)"

definition written_row :: "row_table_map \<Rightarrow> row_image \<Rightarrow> (string \<rightharpoonup> sql_value)" where
  "written_row table row = map_of (zip (writable_columns table) (ordered_row_values row (writable_columns table)))"

definition target_image :: "row_table_map \<Rightarrow> source_table \<Rightarrow> table_state" where
  "target_image table src key = map_option (written_row table) (src key)"

definition plain_value :: "sql_value \<Rightarrow> bool" where
  "plain_value v = (case v of
      SqlFloat b \<Rightarrow> \<not> float_nan b \<and> b \<noteq> 0x80000000
    | SqlDouble b \<Rightarrow> \<not> double_nan b \<and> b \<noteq> 0x8000000000000000
    | _ \<Rightarrow> True)"

definition plain_row :: "row_image \<Rightarrow> bool" where
  "plain_row row = list_all (\<lambda>e. plain_value (snd e)) row"

definition mappable :: "row_table_map \<Rightarrow> bool" where
  "mappable table \<longleftrightarrow>
     distinct (rt_columns table) \<and> rt_primary_key table \<noteq> []
     \<and> set (rt_primary_key table) \<subseteq> set (writable_columns table)"

text \<open>How the source table moves under the rows of one event; \<open>None\<close> when the rows are not a change of
  that table (a duplicate key, an old row that is not there, an image without key columns or with a
  float that has no SQL literal of its own).\<close>

fun source_writes :: "row_table_map \<Rightarrow> row_image list \<Rightarrow> source_table \<Rightarrow> source_table option" where
  "source_writes table [] src = Some src"
| "source_writes table (row # rows) src =
     (if has_row_key table row \<and> src (row_key_of table row) = None
      then source_writes table rows (src(row_key_of table row \<mapsto> row)) else None)"

fun source_updates :: "row_table_map \<Rightarrow> row_update list \<Rightarrow> source_table \<Rightarrow> source_table option" where
  "source_updates table [] src = Some src"
| "source_updates table (u # us) src =
     (let old = row_key_of table (ru_before u); new = row_key_of table (ru_after u) in
      if has_row_key table (ru_before u) \<and> has_row_key table (ru_after u)
         \<and> plain_row (ru_before u) \<and> plain_row (ru_after u)
         \<and> src old = Some (ru_before u) \<and> (new = old \<or> src new = None)
      then source_updates table us (src(old := None, new \<mapsto> ru_after u)) else None)"

fun source_deletes :: "row_table_map \<Rightarrow> row_image list \<Rightarrow> source_table \<Rightarrow> source_table option" where
  "source_deletes table [] src = Some src"
| "source_deletes table (row # rows) src =
     (if has_row_key table row \<and> src (row_key_of table row) = Some row
      then source_deletes table rows (src(row_key_of table row := None)) else None)"

section \<open>Lemmas\<close>

lemma double_is_zero:
  fixes b :: "'n::len word"
  assumes "push_bit 1 b = 0"
  shows "b = 0 \<or> b = 2 ^ (LENGTH('n) - 1)"
proof -
  have low: "\<not> bit b n" if "n < LENGTH('n) - 1" for n
  proof -
    have "bit (push_bit 1 b) (Suc n) \<longleftrightarrow> bit b n"
      unfolding bit_push_bit_iff using that by auto
    then show ?thesis
      using assms by simp
  qed
  have high: "n = LENGTH('n) - 1" if "bit b n" for n
    using low [of n] bit_imp_le_length [OF that] that by linarith
  show ?thesis
  proof (cases "bit b (LENGTH('n) - 1)")
    case True
    have "bit b n = bit (2 ^ (LENGTH('n) - 1) :: 'n word) n" for n
      using True high [of n] by (auto simp: bit_exp_iff)
    then show ?thesis
      by (auto intro: bit_eqI)
  next
    case False
    then have "\<not> bit b n" for n
      using high [of n] by blast
    then show ?thesis
      by (auto intro!: bit_eqI)
  qed
qed

lemma float_zero_plain: "float_zero b \<Longrightarrow> b \<noteq> 0x80000000 \<Longrightarrow> b = 0"
  using double_is_zero [of b] by (simp add: float_zero_def)

lemma double_zero_plain: "double_zero b \<Longrightarrow> b \<noteq> 0x8000000000000000 \<Longrightarrow> b = 0"
  using double_is_zero [of b] by (simp add: double_zero_def)

lemma value_eq_plain: "plain_value v \<Longrightarrow> plain_value w \<Longrightarrow> value_eq v w \<longleftrightarrow> v = w"
  by (auto simp: value_eq_def plain_value_def dest: float_zero_plain double_zero_plain
      split: sql_value.splits)

lemma option_value_eq_plain:
  assumes "plain_row a" "plain_row b"
  shows "option_value_eq (map_of a c) (map_of b c) \<longleftrightarrow> map_of a c = map_of b c"
proof -
  have "plain_value v" if "map_of a c = Some v" for v
    using assms(1) map_of_SomeD [OF that] by (force simp: plain_row_def list_all_iff)
  moreover have "plain_value v" if "map_of b c = Some v" for v
    using assms(2) map_of_SomeD [OF that] by (force simp: plain_row_def list_all_iff)
  ultimately show ?thesis
    by (auto simp: option_value_eq_def value_eq_plain split: option.splits)
qed

lemma primary_key_values_ok:
  assumes "mappable table" "has_row_key table row"
  shows "primary_key_values table row coordinate = Inr (row_key_of table row)"
proof -
  have "list_all2 (\<lambda>c v. primary_key_value table row c coordinate = Inr v) (rt_primary_key table) (row_key_of table row)"
    using assms(2)
    by (auto simp: row_key_of_def list_all2_map2 list_all2_same has_row_key_def list_all_iff primary_key_value_def)
  then show ?thesis
    using assms(1) by (simp add: primary_key_values_def mappable_def collect_res_Inr_iff)
qed

lemma map_of_zip_map: "map_of (zip xs (map f xs)) x = (if x \<in> set xs then Some (f x) else None)"
  by (induction xs) auto

lemma written_row_alt:
  "written_row table row c =
     (if c \<in> set (writable_columns table) then Some (case map_of row c of Some v \<Rightarrow> v | None \<Rightarrow> SqlNull) else None)"
  by (simp add: written_row_def ordered_row_values_def map_of_zip_map)

lemma stored_key_written:
  assumes "mappable table" "has_row_key table row"
  shows "stored_key table (written_row table row) = row_key_of table row"
  using assms
  by (auto simp: stored_key_def row_key_of_def written_row_alt mappable_def has_row_key_def list_all_iff
      split: option.splits)

lemma key_values_plain:
  assumes "plain_row a" "plain_row b" "has_row_key table a" "has_row_key table b"
  shows "list_all2 value_eq (row_key_of table a) (row_key_of table b)
      \<longleftrightarrow> row_key_of table a = row_key_of table b"
proof -
  have "value_eq (the (map_of a c)) (the (map_of b c)) \<longleftrightarrow> the (map_of a c) = the (map_of b c)"
    if key: "c \<in> set (rt_primary_key table)" for c
  proof -
    obtain v w where "map_of a c = Some v" "map_of b c = Some w"
      using key assms(3,4) unfolding has_row_key_def list_all_iff by blast
    then show ?thesis
      using option_value_eq_plain [OF assms(1,2), of c] by (simp add: option_value_eq_def)
  qed
  then show ?thesis
    by (auto simp: row_key_of_def list_all2_map1 list_all2_map2 list_all2_same)
qed

lemma filter_subseqs: "filter p xs \<in> set (subseqs xs)"
  by (induction xs) (auto simp: Let_def)

lemma target_image_upd:
  "target_image table (src(k \<mapsto> row)) = (target_image table src)(k \<mapsto> written_row table row)"
  "target_image table (src(k := None)) = (target_image table src)(k := None)"
  by (auto simp: target_image_def)

lemma eval_insert:
  assumes "mappable table" "has_row_key table row" "t (row_key_of table row) = None"
  shows "eval_stmt table (InsertS (writable_columns table)) (ordered_row_values row (writable_columns table)) t
       = Some (t(row_key_of table row \<mapsto> written_row table row))"
  using assms stored_key_written [OF assms(1,2)]
  by (simp add: eval_stmt_def flip: written_row_def)

lemma update_columns_written:
  assumes "plain_row (ru_before u)" "plain_row (ru_after u)"
    and columns: "columns = changed_columns (writable_columns table) u \<or> columns = writable_columns table"
  shows "written_row table (ru_before u) ++ map_of (zip columns (ordered_row_values (ru_after u) columns))
       = written_row table (ru_after u)"
proof
  fix c
  have same: "map_of (ru_before u) c = map_of (ru_after u) c"
    if "c \<in> set (writable_columns table)" "c \<notin> set columns"
    using that columns option_value_eq_plain [OF assms(1,2), of c] by (auto simp: changed_columns_def)
  have sub: "set columns \<subseteq> set (writable_columns table)"
    using columns by (auto simp: changed_columns_def)
  show "(written_row table (ru_before u) ++ map_of (zip columns (ordered_row_values (ru_after u) columns))) c
      = written_row table (ru_after u) c"
    using same sub
    by (auto simp: map_add_def ordered_row_values_def map_of_zip_map written_row_alt)
qed

lemma eval_update:
  assumes "mappable table" and u: "has_row_key table (ru_before u)" "has_row_key table (ru_after u)"
    "plain_row (ru_before u)" "plain_row (ru_after u)"
    and columns: "columns = changed_columns (writable_columns table) u \<or> columns = writable_columns table"
    and t: "t (row_key_of table (ru_before u)) = Some (written_row table (ru_before u))"
    and free: "row_key_of table (ru_after u) = row_key_of table (ru_before u) \<or> t (row_key_of table (ru_after u)) = None"
  shows "eval_stmt table (UpdateS columns)
           (ordered_row_values (ru_after u) columns @ row_key_of table (ru_before u)) t
       = Some (t(row_key_of table (ru_before u) := None, row_key_of table (ru_after u) \<mapsto> written_row table (ru_after u)))"
proof -
  have "length (ordered_row_values (ru_after u) columns) = length columns"
    by (simp add: ordered_row_values_def)
  then show ?thesis
    using t free update_columns_written [OF u(3,4) columns] stored_key_written [OF assms(1) u(2)]
    by (auto simp: eval_stmt_def Let_def)
qed

section \<open>Executors\<close>

text \<open>What the applier relies on: a row change whose text is one of the statements of the table is executed
  with the meaning of that statement.\<close>

locale row_executor =
  fixes execute :: "'w row_execute" and view :: "'w \<Rightarrow> table_state" and table :: row_table_map
  assumes executes: "s \<in> set (table_statements table) \<Longrightarrow> rc_statement change = \<lparr>ss_sql = stmt_text table s, ss_params = params\<rparr>
      \<Longrightarrow> eval_stmt table s params (view w) = Some t \<Longrightarrow> \<exists>w'. execute change w = (Inr (), w') \<and> view w' = t"
    and table_mappable: "mappable table"
begin

lemma insert_step:
  assumes "has_row_key table row" "view w (row_key_of table row) = None"
  shows "\<exists>change w'. insert_change table row coordinate = Inr (Some change) \<and> execute change w = (Inr (), w')
           \<and> view w' = (view w)(row_key_of table row \<mapsto> written_row table row)"
  using assms executes [of "InsertS (writable_columns table)", OF _ _ eval_insert [of table row "view w", OF table_mappable assms]]
  by (simp add: insert_change_def primary_key_values_ok [OF table_mappable] build_insert_statement_def
      table_statements_def stmt_text_def)

lemma delete_step:
  assumes "has_row_key table row"
  shows "\<exists>change w'. delete_change table row coordinate = Inr (Some change) \<and> execute change w = (Inr (), w')
           \<and> view w' = (view w)(row_key_of table row := None)"
  using assms executes [of DeleteS _ "row_key_of table row"]
  by (simp add: delete_change_def build_delete_statement_def primary_key_values_ok [OF table_mappable]
      table_statements_def stmt_text_def eval_stmt_def)

lemma update_step:
  assumes u: "has_row_key table (ru_before u)" "has_row_key table (ru_after u)" "plain_row (ru_before u)" "plain_row (ru_after u)"
    and t: "view w (row_key_of table (ru_before u)) = Some (written_row table (ru_before u))"
    and free: "row_key_of table (ru_after u) = row_key_of table (ru_before u) \<or> view w (row_key_of table (ru_after u)) = None"
  defines "t' \<equiv> (view w)(row_key_of table (ru_before u) := None, row_key_of table (ru_after u) \<mapsto> written_row table (ru_after u))"
  shows "(update_change table u coordinate = Inr None \<and> view w = t')
       \<or> (\<exists>change w'. update_change table u coordinate = Inr (Some change) \<and> execute change w = (Inr (), w') \<and> view w' = t')"
proof -
  define columns where "columns =
    (if row_key_of table (ru_before u) = row_key_of table (ru_after u)
     then changed_columns (writable_columns table) u else writable_columns table)"
  have choice: "columns = changed_columns (writable_columns table) u \<or> columns = writable_columns table"
    by (simp add: columns_def)
  have change: "update_change table u coordinate =
      (if columns = [] then Inr None
       else Inr (Some \<lparr>rc_statement = \<lparr>ss_sql = stmt_text table (UpdateS columns),
            ss_params = ordered_row_values (ru_after u) columns @ row_key_of table (ru_before u)\<rparr>,
          rc_kind = UpdateChange, rc_schema = rt_schema table, rc_table = rt_table table, rc_values = ru_after u\<rparr>))"
    using u
    by (simp add: update_change_def validate_row_has_primary_key_def build_update_statement_def stmt_text_def
        primary_key_values_ok [OF table_mappable] key_values_plain columns_def Let_def)
  note eval = eval_update [OF table_mappable u choice t free]
  show ?thesis
  proof (cases "columns = []")
    case True
    have "writable_columns table \<noteq> []"
      using table_mappable by (auto simp: mappable_def)
    with True have "row_key_of table (ru_before u) = row_key_of table (ru_after u)"
      by (auto simp: columns_def split: if_splits)
    moreover have "written_row table (ru_before u) = written_row table (ru_after u)"
      using update_columns_written [OF u(3,4) choice] True by (simp add: ordered_row_values_def)
    ultimately have "view w = t'"
      using t by (auto simp: t'_def fun_eq_iff)
    with True change show ?thesis by simp
  next
    case False
    have "columns \<in> set (subseqs (writable_columns table))"
      by (auto simp: columns_def changed_columns_def subseqs_refl filter_subseqs)
    with False have "UpdateS columns \<in> set (table_statements table)"
      by (simp add: table_statements_def)
    from executes [OF this _ eval] False change show ?thesis
      by (simp add: t'_def)
  qed
qed

lemma writes_follow_source:
  "source_writes table rows src = Some src' \<Longrightarrow> view w = target_image table src \<Longrightarrow>
     \<exists>w'. apply_rows execute table coordinate InsertOp insert_change rows w = (Inr (), w') \<and> view w' = target_image table src'"
proof (induction rows arbitrary: src w)
  case (Cons row rows)
  then have row: "has_row_key table row" "src (row_key_of table row) = None"
    and rest: "source_writes table rows (src(row_key_of table row \<mapsto> row)) = Some src'"
    by (auto split: if_splits)
  have "view w (row_key_of table row) = None"
    using row Cons.prems by (simp add: target_image_def)
  from insert_step [OF row(1) this] obtain change w1
    where step: "insert_change table row coordinate = Inr (Some change)" "execute change w = (Inr (), w1)"
      "view w1 = (view w)(row_key_of table row \<mapsto> written_row table row)"
    by blast
  then have "view w1 = target_image table (src(row_key_of table row \<mapsto> row))"
    using Cons.prems by (simp add: target_image_upd)
  from Cons.IH [OF rest this] step show ?case
    by (simp add: bind_op_def lift_op_def map_err_op_def)
qed (simp add: ret_op_def)

lemma deletes_follow_source:
  "source_deletes table rows src = Some src' \<Longrightarrow> view w = target_image table src \<Longrightarrow>
     \<exists>w'. apply_rows execute table coordinate DeleteOp delete_change rows w = (Inr (), w') \<and> view w' = target_image table src'"
proof (induction rows arbitrary: src w)
  case (Cons row rows)
  then have row: "has_row_key table row"
    and rest: "source_deletes table rows (src(row_key_of table row := None)) = Some src'"
    by (auto split: if_splits)
  from delete_step [OF row, of coordinate w] obtain change w1
    where step: "delete_change table row coordinate = Inr (Some change)" "execute change w = (Inr (), w1)"
      "view w1 = (view w)(row_key_of table row := None)"
    by blast
  then have "view w1 = target_image table (src(row_key_of table row := None))"
    using Cons.prems by (simp add: target_image_upd)
  from Cons.IH [OF rest this] step show ?case
    by (simp add: bind_op_def lift_op_def map_err_op_def)
qed (simp add: ret_op_def)

lemma updates_follow_source:
  "source_updates table us src = Some src' \<Longrightarrow> view w = target_image table src \<Longrightarrow>
     \<exists>w'. apply_rows execute table coordinate UpdateOp update_change us w = (Inr (), w') \<and> view w' = target_image table src'"
proof (induction us arbitrary: src w)
  case (Cons u us)
  let ?old = "row_key_of table (ru_before u)" and ?new = "row_key_of table (ru_after u)"
  from Cons.prems have u: "has_row_key table (ru_before u)" "has_row_key table (ru_after u)"
      "plain_row (ru_before u)" "plain_row (ru_after u)"
    and src: "src ?old = Some (ru_before u)" "?new = ?old \<or> src ?new = None"
    and rest: "source_updates table us (src(?old := None, ?new \<mapsto> ru_after u)) = Some src'"
    by (auto simp: Let_def split: if_splits)
  have t: "view w ?old = Some (written_row table (ru_before u))" "?new = ?old \<or> view w ?new = None"
    using src Cons.prems(2) by (auto simp: target_image_def)
  have image: "(view w)(?old := None, ?new \<mapsto> written_row table (ru_after u))
      = target_image table (src(?old := None, ?new \<mapsto> ru_after u))"
    using Cons.prems(2) by (simp only: target_image_upd)
  from update_step [OF u t, of coordinate] consider
      (same) "update_change table u coordinate = Inr None" "view w = target_image table (src(?old := None, ?new \<mapsto> ru_after u))"
    | (changed) change w1 where "update_change table u coordinate = Inr (Some change)" "execute change w = (Inr (), w1)"
        "view w1 = target_image table (src(?old := None, ?new \<mapsto> ru_after u))"
    unfolding image by blast
  then show ?case
  proof cases
    case same
    from Cons.IH [OF rest same(2)] same(1) show ?thesis
      by (simp add: bind_op_def lift_op_def)
  next
    case changed
    from Cons.IH [OF rest changed(3)] changed(1,2) show ?thesis
      by (simp add: bind_op_def lift_op_def map_err_op_def)
  qed
qed (simp add: ret_op_def)

lemma preflight_ok:
  "source_writes table rows src = Some src' \<Longrightarrow> validate_rows_have_primary_keys table rows coordinate = Inr ()"
  by (induction rows arbitrary: src)
     (auto simp: validate_row_has_primary_key_def primary_key_values_ok [OF table_mappable] split: if_splits)

end

section \<open>An executor\<close>

text \<open>An executor over a table in memory: it recognises the statement by its text.\<close>

definition memory_row_execute :: "row_table_map \<Rightarrow> table_state row_execute" where
  "memory_row_execute table change t =
     (case List.find (\<lambda>s. stmt_text table s = ss_sql (rc_statement change)) (table_statements table) of
        None \<Rightarrow> (Inl (execute_error ''unsupported statement''), t)
      | Some s \<Rightarrow>
          (case eval_stmt table s (ss_params (rc_statement change)) t of
             None \<Rightarrow> (Inl (execute_error_from_mysql 1062 ''Duplicate entry''), t)
           | Some t' \<Rightarrow> (Inr (), t')))"

lemma assignment_list_inj:
  assumes "join_str '', '' (assignment_texts cs) @ '' WHERE '' @ r = join_str '', '' (assignment_texts ds) @ '' WHERE '' @ r'"
    and "cs \<noteq> []" "ds \<noteq> []"
  shows "cs = ds"
  using assms
proof (induction cs arbitrary: ds)
  case (Cons c cs)
  obtain d ds' where ds: "ds = d # ds'"
    using Cons.prems by (cases ds) auto
  let ?tail = "\<lambda>xs r. if xs = [] then '' WHERE '' @ r else '', '' @ join_str '', '' (assignment_texts xs) @ '' WHERE '' @ r"
  have unfold: "join_str '', '' (assignment_texts (x # xs)) @ '' WHERE '' @ q = quote_ident x @ '' = ?'' @ ?tail xs q" for x xs q
    by (cases xs) (simp_all add: assignment_texts_def)
  have lex: "lex_ident (quote_ident x @ '' = ?'' @ q) = Some (x, '' = ?'' @ q)" for x q
    by (rule lex_ident_quote) (simp add: backtick_def)
  from Cons.prems(1) have "quote_ident c @ '' = ?'' @ ?tail cs r = quote_ident d @ '' = ?'' @ ?tail ds' r'"
    unfolding ds unfold .
  then have "lex_ident (quote_ident c @ '' = ?'' @ ?tail cs r) = lex_ident (quote_ident d @ '' = ?'' @ ?tail ds' r')"
    by simp
  then have c: "c = d" and tail: "?tail cs r = ?tail ds' r'"
    unfolding lex by auto
  show ?case
  proof (cases "cs = [] \<or> ds' = []")
    case True
    with tail have "cs = [] \<and> ds' = []"
      by (auto split: if_splits)
    with c ds show ?thesis by simp
  next
    case False
    with tail have "join_str '', '' (assignment_texts cs) @ '' WHERE '' @ r = join_str '', '' (assignment_texts ds') @ '' WHERE '' @ r'"
      by simp
    with Cons.IH False c ds show ?thesis by blast
  qed
qed simp

lemma update_text_inj:
  "update_text name cs keys = update_text name ds keys \<Longrightarrow> cs \<noteq> [] \<Longrightarrow> ds \<noteq> [] \<Longrightarrow> cs = ds"
  using assignment_list_inj [of cs "join_str '' AND '' (assignment_texts keys)" ds] by (simp add: update_text_def)

lemma stmt_text_inj:
  "s \<in> set (table_statements table) \<Longrightarrow> s' \<in> set (table_statements table) \<Longrightarrow> stmt_text table s = stmt_text table s' \<Longrightarrow> s = s'"
  by (auto simp: table_statements_def stmt_text_def insert_text_def delete_text_def dest: update_text_inj)
     (simp_all add: update_text_def)

lemma find_statement:
  assumes "s \<in> set (table_statements table)"
  shows "List.find (\<lambda>s'. stmt_text table s' = stmt_text table s) (table_statements table) = Some s"
proof -
  obtain s' where s': "List.find (\<lambda>s'. stmt_text table s' = stmt_text table s) (table_statements table) = Some s'"
    using assms by (cases "List.find (\<lambda>s'. stmt_text table s' = stmt_text table s) (table_statements table)")
      (auto simp: find_None_iff)
  then have "s' \<in> set (table_statements table)" "stmt_text table s' = stmt_text table s"
    by (auto simp: find_Some_iff)
  with s' stmt_text_inj [OF _ assms] show ?thesis by blast
qed

lemma memory_row_executor:
  assumes "mappable table"
  shows "row_executor (memory_row_execute table) (\<lambda>t. t) table"
  using assms by unfold_locales (auto simp: memory_row_execute_def find_statement)

definition users_table :: row_table_map where
  "users_table = \<lparr>rt_table_id = 18, rt_schema = ''shop'', rt_table = ''users'', rt_columns = [''id'', ''name'', ''initial''],
     rt_primary_key = [''id''], rt_generated_columns = [''initial''], rt_signed_columns = [], rt_enum_columns = [],
     rt_set_columns = []\<rparr>"

lemma users_mappable: "mappable users_table"
  by (simp add: mappable_def users_table_def writable_columns_def)

interpretation users: row_executor "memory_row_execute users_table" "\<lambda>t. t" users_table
  by (rule memory_row_executor [OF users_mappable])

section \<open>Properties\<close>

text \<open>C33. Applying a row event moves the target table as the source table moved. For a mappable table and
  an executor that gives the three statement shapes their meaning: if the target holds the image of
  the source table and the rows of a write, update or delete event are changes of that source table,
  then the event is applied without error and the target holds the image of the source table after
  the event. An update whose images agree executes nothing, one that keeps the key assigns only the
  changed columns, and one that moves the key moves the row.
\<close>

theorem row_events_refine_source:
  assumes "row_executor execute view table" and "view w = target_image table src"
    and "registry_table registry (rt_table_id table) = Some table"
  shows "(source_writes table rows src = Some src' \<longrightarrow>
            (\<exists>w'. apply_write_rows execute registry \<lparr>wr_coordinate = c, wr_table_id = rt_table_id table, wr_rows = rows\<rparr> w
                   = (Inr (), w') \<and> view w' = target_image table src'))
       \<and> (source_updates table us src = Some src' \<longrightarrow>
            (\<exists>w'. apply_update_rows execute registry \<lparr>ur_coordinate = c, ur_table_id = rt_table_id table, ur_rows = us\<rparr> w
                   = (Inr (), w') \<and> view w' = target_image table src'))
       \<and> (source_deletes table rows src = Some src' \<longrightarrow>
            (\<exists>w'. apply_delete_rows execute registry \<lparr>dr_coordinate = c, dr_table_id = rt_table_id table, dr_rows = rows\<rparr> w
                   = (Inr (), w') \<and> view w' = target_image table src'))"
proof (intro conjI impI)
  note defs = apply_row_event_def resolve_table_def assms(3) bind_op_def lift_op_def no_preflight_def
  show "\<exists>w'. apply_write_rows execute registry \<lparr>wr_coordinate = c, wr_table_id = rt_table_id table, wr_rows = rows\<rparr> w
                   = (Inr (), w') \<and> view w' = target_image table src'" if "source_writes table rows src = Some src'"
    using row_executor.writes_follow_source [OF assms(1) that assms(2)] row_executor.preflight_ok [OF assms(1) that]
    by (simp add: apply_write_rows_def write_rows_input_def defs)
  show "\<exists>w'. apply_update_rows execute registry \<lparr>ur_coordinate = c, ur_table_id = rt_table_id table, ur_rows = us\<rparr> w
                   = (Inr (), w') \<and> view w' = target_image table src'" if "source_updates table us src = Some src'"
    using row_executor.updates_follow_source [OF assms(1) that assms(2)]
    by (simp add: apply_update_rows_def update_rows_input_def defs)
  show "\<exists>w'. apply_delete_rows execute registry \<lparr>dr_coordinate = c, dr_table_id = rt_table_id table, dr_rows = rows\<rparr> w
                   = (Inr (), w') \<and> view w' = target_image table src'" if "source_deletes table rows src = Some src'"
    using row_executor.deletes_follow_source [OF assms(1) that assms(2)]
    by (simp add: apply_delete_rows_def delete_rows_input_def defs)
qed

definition user_row :: "u64 \<Rightarrow> string \<Rightarrow> row_image" where
  "user_row n name = [(''id'', SqlUInt n), (''initial'', SqlNull), (''name'', SqlBytes name)]"

theorem row_events_refine_source_witness:
  "\<exists>t'. apply_update_rows (memory_row_execute users_table) [(18, users_table)]
          \<lparr>ur_coordinate = \<lparr>bc_file = ''bin.1'', bc_position = 4\<rparr>, ur_table_id = 18,
           ur_rows = [\<lparr>ru_before = user_row 7 ''Ada'', ru_after = user_row 8 ''Bob''\<rparr>]\<rparr>
          (target_image users_table [[SqlUInt 7] \<mapsto> user_row 7 ''Ada'']) = (Inr (), t')
        \<and> t' = target_image users_table [[SqlUInt 8] \<mapsto> user_row 8 ''Bob'']"
proof -
  let ?src = "[[SqlUInt 7] \<mapsto> user_row 7 ''Ada'']" and ?src' = "[[SqlUInt 8] \<mapsto> user_row 8 ''Bob'']"
  let ?us = "[\<lparr>ru_before = user_row 7 ''Ada'', ru_after = user_row 8 ''Bob''\<rparr>]"
  have id: "rt_table_id users_table = 18"
    by (simp add: users_table_def)
  have "registry_table [(18, users_table)] (rt_table_id users_table) = Some users_table"
    by (simp add: registry_table_def id)
  moreover have "source_updates users_table ?us ?src = Some ?src'"
    by (auto simp: row_key_of_def has_row_key_def users_table_def user_row_def plain_row_def plain_value_def fun_eq_iff)
  ultimately show ?thesis
    using row_events_refine_source
      [OF memory_row_executor [OF users_mappable], of "target_image users_table ?src" ?src "[(18, users_table)]"
        "[]" ?src' "\<lparr>bc_file = ''bin.1'', bc_position = 4\<rparr>" ?us, OF refl]
    unfolding id by blast
qed

end
