(* ===== verification/Stream_Config.thy ===== *)
theory Stream_Config
  imports Sync_Config Row_Apply
begin

text \<open>
  Configuration and errors of the live stream (\<open>src/src/live.rs\<close>): the source, target and stream
  settings with their validation, the error type of the stream, and the offline application of a
  list of statement events.
\<close>

section \<open>Errors\<close>

datatype target_failure = ExecuteFailure target_execute_error | RowFailure row_apply_error

datatype apply_binlog_error =
    ConfigError string
  | SourceCommand string
  | TargetError target_failure
  | DdlBlocked string
  | MappingFailed mapping_error
  | StatementFailed "(target_execute_error, unit) statement_apply_error"
  | StatementError string
  | QuarantinedStatements "quarantined_statement list"
  | CheckpointError string
  | Panicked string
  | OutOfFuel

section \<open>Settings\<close>

record source_binlog_config =
  sb_host :: string
  sb_port :: u16
  sb_user :: string
  sb_password :: string
  sb_database :: "string option"
  sb_tls_ca_file :: string
  sb_binlog_file :: string
  sb_start_position :: u64
  sb_stop_position :: "u64 option"
  sb_stop_never_slave_server_id :: "u32 option"

record apply_binlog_config =
  ab_source :: source_binlog_config
  ab_source_identity :: string
  ab_target :: target_mysql_config
  ab_checkpoint_table :: string
  ab_max_reconnects :: u32
  ab_reconnect_forever :: bool
  ab_group_size :: nat
  ab_group_timeout_ms :: u64

definition default_stream_checkpoint_table :: string where
  "default_stream_checkpoint_table = ''cdc.stream_checkpoint''"

definition default_source_binlog_config :: source_binlog_config where
  "default_source_binlog_config =
     \<lparr>sb_host = [], sb_port = 3306, sb_user = [], sb_password = [], sb_database = None, sb_tls_ca_file = [],
      sb_binlog_file = [], sb_start_position = 4, sb_stop_position = None, sb_stop_never_slave_server_id = None\<rparr>"

definition default_target_mysql_config :: target_mysql_config where
  "default_target_mysql_config =
     \<lparr>tc_host = [], tc_port = 3306, tc_user = [], tc_password = [], tc_database = [],
      tc_tls_ca_file = ''/etc/mariadb-mysql-cdc/do-ca.pem'', tc_insert_conflict_policy = PolicyError\<rparr>"

definition default_apply_binlog_config :: apply_binlog_config where
  "default_apply_binlog_config =
     \<lparr>ab_source = default_source_binlog_config, ab_source_identity = [], ab_target = default_target_mysql_config,
      ab_checkpoint_table = default_stream_checkpoint_table, ab_max_reconnects = 12, ab_reconnect_forever = False,
      ab_group_size = 1, ab_group_timeout_ms = 0\<rparr>"

definition require :: "bool \<Rightarrow> string \<Rightarrow> apply_binlog_error + unit" where
  "require ok message = (if ok then Inr () else Inl (ConfigError message))"

definition validate_source_settings :: "source_binlog_config \<Rightarrow> string \<Rightarrow> apply_binlog_error + unit" where
  "validate_source_settings source source_identity =
     bind_res (require (sb_host source \<noteq> []) ''source host is required'') (\<lambda>_.
     bind_res (require (source_identity \<noteq> []) ''source identity is required'') (\<lambda>_.
     bind_res (require (length source_identity \<le> 363)
       ''source identity must be at most 363 bytes before the server-id suffix'') (\<lambda>_.
     bind_res (require (sb_user source \<noteq> []) ''source user is required'') (\<lambda>_.
       require (sb_password source \<noteq> []) ''source password is required''))))"

definition is_schema_qualified_table :: "string \<Rightarrow> bool" where
  "is_schema_qualified_table table =
     (let schema = takeWhile (\<lambda>c. c \<noteq> CHR ''.'') table; rest = dropWhile (\<lambda>c. c \<noteq> CHR ''.'') table in
      case rest of
        [] \<Rightarrow> False
      | _ # table_name \<Rightarrow> schema \<noteq> [] \<and> table_name \<noteq> [] \<and> CHR ''.'' \<notin> set table_name)"

definition validate_schema_qualified_table :: "string \<Rightarrow> string \<Rightarrow> string \<Rightarrow> apply_binlog_error + unit" where
  "validate_schema_qualified_table table required_error qualification_error =
     bind_res (require (table \<noteq> []) required_error) (\<lambda>_.
       require (is_schema_qualified_table table) qualification_error)"

definition validate_apply_table_paths :: "apply_binlog_config \<Rightarrow> apply_binlog_error + unit" where
  "validate_apply_table_paths config =
     validate_schema_qualified_table (ab_checkpoint_table config) ''checkpoint table is required''
       ''checkpoint table must be a schema-qualified schema.table path''"

definition validate_stop_never_slave_server_id :: "source_binlog_config \<Rightarrow> apply_binlog_error + unit" where
  "validate_stop_never_slave_server_id source =
     require (sb_stop_never_slave_server_id source \<noteq> Some 0) ''--stop-never-slave-server-id must be greater than zero''"

definition validate_apply_runtime_settings :: "apply_binlog_config \<Rightarrow> apply_binlog_error + unit" where
  "validate_apply_runtime_settings config =
     bind_res (validate_stop_never_slave_server_id (ab_source config)) (\<lambda>_.
       require (ab_group_size config \<noteq> 0) ''target transaction group size must be greater than zero'')"

definition validate_target :: "target_mysql_config \<Rightarrow> apply_binlog_error + unit" where
  "validate_target target =
     bind_res (require (tc_host target \<noteq> []) ''target host is required'') (\<lambda>_.
     bind_res (require (tc_user target \<noteq> []) ''target user is required'') (\<lambda>_.
     bind_res (require (tc_password target \<noteq> []) ''target password is required'') (\<lambda>_.
     bind_res (require (tc_database target \<noteq> []) ''target database is required'') (\<lambda>_.
       require (tc_tls_ca_file target \<noteq> []) ''target TLS CA file is required''))))"

definition validate_apply_config :: "apply_binlog_config \<Rightarrow> apply_binlog_error + unit" where
  "validate_apply_config config =
     bind_res (validate_source_settings (ab_source config) (ab_source_identity config)) (\<lambda>_.
     bind_res (validate_apply_table_paths config) (\<lambda>_.
     bind_res (validate_apply_runtime_settings config) (\<lambda>_.
       validate_target (ab_target config))))"

definition validate_start_coordinate :: "source_binlog_config \<Rightarrow> apply_binlog_error + unit" where
  "validate_start_coordinate source =
     bind_res (require (sb_binlog_file source \<noteq> []) ''binlog file is required'') (\<lambda>_.
     bind_res (require (sb_start_position source \<noteq> 0) ''start position must be greater than zero'') (\<lambda>_.
       validate_stop_never_slave_server_id source))"

section \<open>Statement events\<close>

record apply_binlog_report =
  ar_applied_statements :: u64
  ar_quarantined_statements :: u64

text \<open>\<open>RecordingQuarantine\<close> keeps the statements it is given; the world of the applier is the executor's
  together with that list.\<close>

definition recording_env ::
  "(sql_statement \<Rightarrow> ('w, target_execute_error, unit) op)
    \<Rightarrow> ('w \<times> quarantined_statement list, target_execute_error, unit) statement_env"
where
  "recording_env execute =
     \<lparr>sv_execute = (\<lambda>statement (w, q). case execute statement w of (r, w') \<Rightarrow> (r, (w', q))),
      sv_record = (\<lambda>statement (w, q). (Inr (), (w, q @ [statement])))\<rparr>"

fun apply_event_list ::
  "(int \<Rightarrow> chars) \<Rightarrow> ('w \<times> quarantined_statement list, target_execute_error, unit) statement_env
    \<Rightarrow> statement_event list \<Rightarrow> u64 \<Rightarrow> u64
    \<Rightarrow> ('w \<times> quarantined_statement list, apply_binlog_error, apply_binlog_report) op"
where
  "apply_event_list u env [] applied quarantined =
     ret_op \<lparr>ar_applied_statements = applied, ar_quarantined_statements = quarantined\<rparr>"
| "apply_event_list u env (event # events) applied quarantined =
     bind_op (map_err_op StatementFailed (apply_statement u env event)) (\<lambda>outcome.
       case outcome of
         Quarantined _ \<Rightarrow> apply_event_list u env events applied (quarantined + 1)
       | _ \<Rightarrow> apply_event_list u env events (applied + 1) quarantined)"

definition apply_statement_events ::
  "(int \<Rightarrow> chars) \<Rightarrow> (sql_statement \<Rightarrow> ('w, target_execute_error, unit) op) \<Rightarrow> statement_event list
    \<Rightarrow> ('w, apply_binlog_error, apply_binlog_report) op"
where
  "apply_statement_events u execute events w =
     (case apply_event_list u (recording_env execute) events 0 0 (w, []) of
        (Inl e, (w', _)) \<Rightarrow> (Inl e, w')
      | (Inr report, (w', quarantined)) \<Rightarrow>
          (if quarantined \<noteq> [] then (Inl (QuarantinedStatements quarantined), w') else (Inr report, w')))"

end
