(* ===== verification/Stream_Checkpoint.thy ===== *)
theory Stream_Checkpoint
  imports Stream_Config
begin

text \<open>
  Durable positions of the stream: the checkpoint and its file store (\<open>src/src/checkpoint.rs\<close>), the
  checkpoint table on the target (\<open>src/src/stream_checkpoint.rs\<close>), and reconnection from the stored
  position (\<open>src/src/live/reconnect.rs\<close>). \<open>serde_json\<close> is the parameter \<open>checkpoint_codec\<close>; the file
  system and the checkpoint connection are records of operations. A run of the stream is the
  operation \<open>run_attempt\<close> the reconnect loop is given; the loop has fuel, one unit per attempt.
\<close>

section \<open>Checkpoints\<close>

record last_event =
  le_event_type :: string
  le_description :: string

record checkpoint =
  ck_source_file :: string
  ck_source_position :: u64
  ck_gtid :: "string option"
  ck_event_timestamp :: u64
  ck_last_event :: last_event

record checkpoint_codec =
  cc_encode_pretty :: "checkpoint \<Rightarrow> string + string"
  cc_encode :: "checkpoint \<Rightarrow> string + string"
  cc_decode :: "string \<Rightarrow> string + checkpoint"

section \<open>The file store\<close>

text \<open>A path is a directory and a file name; \<open>NotFound\<close> is \<open>io::ErrorKind::NotFound\<close>.\<close>

type_synonym file_path = "string \<times> string"

datatype io_error = NotFound | OtherIo string

record 'w file_system =
  fs_read :: "file_path \<Rightarrow> ('w, io_error, string) op"
  fs_write :: "file_path \<Rightarrow> string \<Rightarrow> ('w, io_error, unit) op"
  fs_rename :: "file_path \<Rightarrow> file_path \<Rightarrow> ('w, io_error, unit) op"

datatype checkpoint_error =
    CkDecode "file_path option" string
  | CkEncode string
  | CkRead file_path io_error
  | CkRename file_path file_path io_error
  | CkWrite file_path io_error

definition encode_checkpoint :: "checkpoint_codec \<Rightarrow> checkpoint \<Rightarrow> checkpoint_error + string" where
  "encode_checkpoint codec checkpoint =
     bind_res (map_err CkEncode (cc_encode_pretty codec checkpoint)) (\<lambda>json. Inr (json @ [CHR 0x0A]))"

definition decode_checkpoint ::
  "checkpoint_codec \<Rightarrow> string \<Rightarrow> file_path option \<Rightarrow> checkpoint_error + checkpoint"
where
  "decode_checkpoint codec contents path = map_err (CkDecode path) (cc_decode codec contents)"

text \<open>\<open>Path::extension\<close> and \<open>Path::set_extension\<close> on a file name: the extension is what follows the last
  dot, and a dot in front does not count.\<close>

definition file_extension :: "string \<Rightarrow> string option" where
  "file_extension name =
     (if CHR ''.'' \<in> set (drop 1 name) then Some (rev (takeWhile (\<lambda>c. c \<noteq> CHR ''.'') (rev name))) else None)"

definition file_stem :: "string \<Rightarrow> string" where
  "file_stem name =
     (if CHR ''.'' \<in> set (drop 1 name) then rev (drop 1 (dropWhile (\<lambda>c. c \<noteq> CHR ''.'') (rev name))) else name)"

definition temp_checkpoint_path :: "file_path \<Rightarrow> file_path" where
  "temp_checkpoint_path path =
     (fst path, file_stem (snd path) @ ''.'' @
        (case file_extension (snd path) of Some ext \<Rightarrow> ext @ ''.tmp'' | None \<Rightarrow> ''tmp''))"

definition file_store_load ::
  "checkpoint_codec \<Rightarrow> 'w file_system \<Rightarrow> file_path \<Rightarrow> ('w, checkpoint_error, checkpoint option) op"
where
  "file_store_load codec fs path w =
     (case fs_read fs path w of
        (Inr contents, w') \<Rightarrow> (bind_res (decode_checkpoint codec contents (Some path)) (\<lambda>c. Inr (Some c)), w')
      | (Inl NotFound, w') \<Rightarrow> (Inr None, w')
      | (Inl e, w') \<Rightarrow> (Inl (CkRead path e), w'))"

definition file_store_save ::
  "checkpoint_codec \<Rightarrow> 'w file_system \<Rightarrow> file_path \<Rightarrow> checkpoint \<Rightarrow> ('w, checkpoint_error, unit) op"
where
  "file_store_save codec fs path checkpoint =
     bind_op (lift_op (encode_checkpoint codec checkpoint)) (\<lambda>encoded.
     let temp_path = temp_checkpoint_path path in
     bind_op (map_err_op (CkWrite temp_path) (fs_write fs temp_path encoded)) (\<lambda>_.
       map_err_op (CkRename temp_path path) (fs_rename fs temp_path path)))"

section \<open>The checkpoint table\<close>

type_synonym column_row = "string \<times> string \<times> string \<times> string \<times> string"

record 'w checkpoint_conn =
  cn_columns :: "string \<Rightarrow> ('w, string, column_row list) op"
  cn_constraints :: "string \<Rightarrow> ('w, string, (string \<times> string) list) op"
  cn_query_first :: "string \<Rightarrow> ('w, string, string option) op"
  cn_query_drop :: "string \<Rightarrow> ('w, string, unit) op"

record mysql_checkpoint_store =
  ms_table :: string
  ms_checkpoint_name :: string
  ms_ensured :: bool
  ms_last_checkpoint :: "checkpoint option"

datatype store_error =
    StoreMySql string
  | TableNotQualified
  | ColumnSchemaMismatch "column_row list"
  | ConstraintMismatch "(string \<times> string) list"
  | CheckpointMissing string string
  | InvalidCheckpointJson string
  | EncodeFailed string

definition stream_checkpoint_name :: "string \<Rightarrow> string" where
  "stream_checkpoint_name source_identity = ''stream-binlog:'' @ source_identity"

definition new_checkpoint_store :: "string \<Rightarrow> string \<Rightarrow> mysql_checkpoint_store" where
  "new_checkpoint_store table source_identity =
     \<lparr>ms_table = table, ms_checkpoint_name = stream_checkpoint_name source_identity,
      ms_ensured = False, ms_last_checkpoint = None\<rparr>"

definition build_checkpoint_select_sql_with_suffix :: "string \<Rightarrow> string \<Rightarrow> string \<Rightarrow> string" where
  "build_checkpoint_select_sql_with_suffix table checkpoint_name suffix =
     ''SELECT checkpoint_json FROM '' @ quote_identifier_path table @ '' WHERE checkpoint_name = ''
       @ quote_sql_literal checkpoint_name @ '' LIMIT 1'' @ suffix"

definition build_checkpoint_select_sql :: "string \<Rightarrow> string \<Rightarrow> string" where
  "build_checkpoint_select_sql table checkpoint_name =
     build_checkpoint_select_sql_with_suffix table checkpoint_name []"

definition build_checkpoint_select_for_update_sql :: "string \<Rightarrow> string \<Rightarrow> string" where
  "build_checkpoint_select_for_update_sql table checkpoint_name =
     build_checkpoint_select_sql_with_suffix table checkpoint_name '' FOR UPDATE''"

definition build_checkpoint_insert_sql :: "string \<Rightarrow> string \<Rightarrow> string \<Rightarrow> string" where
  "build_checkpoint_insert_sql table checkpoint_name json =
     ''INSERT INTO '' @ quote_identifier_path table @ '' (checkpoint_name, checkpoint_json) VALUES (''
       @ quote_sql_literal checkpoint_name @ '', '' @ quote_sql_literal json @ '')''"

definition build_checkpoint_upsert_sql :: "string \<Rightarrow> string \<Rightarrow> string \<Rightarrow> string" where
  "build_checkpoint_upsert_sql table checkpoint_name checkpoint_json =
     build_checkpoint_insert_sql table checkpoint_name checkpoint_json
       @ '' ON DUPLICATE KEY UPDATE checkpoint_json=VALUES(checkpoint_json)''"

definition build_checkpoint_upsert_sql_for_checkpoint ::
  "checkpoint_codec \<Rightarrow> string \<Rightarrow> string \<Rightarrow> checkpoint \<Rightarrow> store_error + string"
where
  "build_checkpoint_upsert_sql_for_checkpoint codec table checkpoint_name checkpoint =
     bind_res (map_err EncodeFailed (cc_encode codec checkpoint)) (\<lambda>json.
       Inr (build_checkpoint_upsert_sql table checkpoint_name json))"

definition build_checkpoint_insert_sql_for_checkpoint ::
  "checkpoint_codec \<Rightarrow> string \<Rightarrow> string \<Rightarrow> checkpoint \<Rightarrow> store_error + string"
where
  "build_checkpoint_insert_sql_for_checkpoint codec table checkpoint_name checkpoint =
     bind_res (map_err EncodeFailed (cc_encode codec checkpoint)) (\<lambda>json.
       Inr (build_checkpoint_insert_sql table checkpoint_name json))"

definition expected_stream_checkpoint_columns :: "column_row list" where
  "expected_stream_checkpoint_columns =
     [(''checkpoint_name'', ''varchar(512)'', ''NO'', ''<null>'', []),
      (''checkpoint_json'', ''longtext'', ''NO'', ''<null>'', []),
      (''updated_at'', ''timestamp'', ''NO'', ''current_timestamp'', ''default_generated on update current_timestamp'')]"

definition validate_stream_checkpoint_columns :: "column_row list \<Rightarrow> store_error + unit" where
  "validate_stream_checkpoint_columns columns =
     (if columns = expected_stream_checkpoint_columns then Inr () else Inl (ColumnSchemaMismatch columns))"

definition validate_stream_checkpoint_constraints :: "(string \<times> string) list \<Rightarrow> store_error + unit" where
  "validate_stream_checkpoint_constraints constraints =
     (if constraints = [(''PRIMARY KEY'', ''YES'')] then Inr () else Inl (ConstraintMismatch constraints))"

type_synonym ('w, 'a) store_op = "(mysql_checkpoint_store \<times> 'w, store_error, 'a) op"

definition on_conn :: "('w, string, 'a) op \<Rightarrow> ('w, 'a) store_op" where
  "on_conn query s = (case query (snd s) of (r, w') \<Rightarrow> (map_err StoreMySql r, (fst s, w')))"

definition set_store :: "(mysql_checkpoint_store \<Rightarrow> mysql_checkpoint_store) \<Rightarrow> ('w, unit) store_op" where
  "set_store f s = (Inr (), (f (fst s), snd s))"

definition get_store :: "('w, mysql_checkpoint_store) store_op" where
  "get_store s = (Inr (fst s), s)"

definition split_qualified :: "string \<Rightarrow> store_error + string \<times> string" where
  "split_qualified table =
     (case dropWhile (\<lambda>c. c \<noteq> CHR ''.'') table of
        [] \<Rightarrow> Inl TableNotQualified
      | _ # rest \<Rightarrow> Inr (takeWhile (\<lambda>c. c \<noteq> CHR ''.'') table, rest))"

definition columns_sql :: "string \<Rightarrow> string \<Rightarrow> string" where
  "columns_sql schema table =
     ''SELECT column_name,LOWER(column_type),is_nullable,LOWER(COALESCE(CAST(column_default AS CHAR),'' @ [apostrophe]
       @ ''<null>'' @ [apostrophe] @ '')),LOWER(extra) FROM information_schema.columns WHERE table_schema=''
       @ quote_sql_literal schema @ '' AND table_name='' @ quote_sql_literal table @ '' ORDER BY ordinal_position''"

definition constraints_sql :: "string \<Rightarrow> string \<Rightarrow> string" where
  "constraints_sql schema table =
     ''SELECT constraint_type,enforced FROM information_schema.table_constraints WHERE table_schema=''
       @ quote_sql_literal schema @ '' AND table_name='' @ quote_sql_literal table
       @ '' ORDER BY constraint_type,constraint_name''"

definition validate_checkpoint_schema :: "'w checkpoint_conn \<Rightarrow> ('w, unit) store_op" where
  "validate_checkpoint_schema conn =
     bind_op get_store (\<lambda>store.
     bind_op (lift_op (split_qualified (ms_table store))) (\<lambda>(schema, table).
     bind_op (on_conn (cn_columns conn (columns_sql schema table))) (\<lambda>columns.
     bind_op (lift_op (validate_stream_checkpoint_columns columns)) (\<lambda>_.
     bind_op (on_conn (cn_constraints conn (constraints_sql schema table))) (\<lambda>constraints.
       lift_op (validate_stream_checkpoint_constraints constraints))))))"

definition select_checkpoint :: "'w checkpoint_conn \<Rightarrow> ('w, string option) store_op" where
  "select_checkpoint conn =
     bind_op get_store (\<lambda>store.
       on_conn (cn_query_first conn (build_checkpoint_select_sql (ms_table store) (ms_checkpoint_name store))))"

definition store_ensure :: "'w checkpoint_conn \<Rightarrow> ('w, unit) store_op" where
  "store_ensure conn =
     bind_op get_store (\<lambda>store.
       if ms_ensured store then ret_op ()
       else
         bind_op (validate_checkpoint_schema conn) (\<lambda>_.
         bind_op (select_checkpoint conn) (\<lambda>checkpoint.
           if checkpoint = None then fail_op (CheckpointMissing (ms_checkpoint_name store) (ms_table store))
           else set_store (\<lambda>s. s\<lparr>ms_ensured := True\<rparr>))))"

definition store_load :: "checkpoint_codec \<Rightarrow> 'w checkpoint_conn \<Rightarrow> ('w, checkpoint option) store_op" where
  "store_load codec conn =
     bind_op (store_ensure conn) (\<lambda>_.
     bind_op (select_checkpoint conn) (\<lambda>row.
       case row of
         None \<Rightarrow> bind_op (set_store (\<lambda>s. s\<lparr>ms_last_checkpoint := None\<rparr>)) (\<lambda>_. ret_op None)
       | Some value \<Rightarrow>
           bind_op (lift_op (map_err InvalidCheckpointJson (cc_decode codec value))) (\<lambda>checkpoint.
           bind_op (set_store (\<lambda>s. s\<lparr>ms_last_checkpoint := Some checkpoint\<rparr>)) (\<lambda>_.
             ret_op (Some checkpoint)))))"

definition store_checkpoint_for_skip :: "checkpoint_codec \<Rightarrow> 'w checkpoint_conn \<Rightarrow> ('w, checkpoint option) store_op" where
  "store_checkpoint_for_skip codec conn =
     bind_op get_store (\<lambda>store.
       case ms_last_checkpoint store of
         Some checkpoint \<Rightarrow> ret_op (Some checkpoint)
       | None \<Rightarrow> store_load codec conn)"

definition store_save :: "checkpoint_codec \<Rightarrow> 'w checkpoint_conn \<Rightarrow> checkpoint \<Rightarrow> ('w, unit) store_op" where
  "store_save codec conn checkpoint =
     bind_op (store_ensure conn) (\<lambda>_.
     bind_op get_store (\<lambda>store.
     bind_op (lift_op (build_checkpoint_upsert_sql_for_checkpoint codec (ms_table store) (ms_checkpoint_name store) checkpoint))
       (\<lambda>sql.
     bind_op (on_conn (cn_query_drop conn sql)) (\<lambda>_.
       set_store (\<lambda>s. s\<lparr>ms_last_checkpoint := Some checkpoint\<rparr>)))))"

definition store_bootstrap :: "checkpoint_codec \<Rightarrow> 'w checkpoint_conn \<Rightarrow> checkpoint \<Rightarrow> ('w, unit) store_op" where
  "store_bootstrap codec conn checkpoint =
     bind_op (validate_checkpoint_schema conn) (\<lambda>_.
     bind_op (select_checkpoint conn) (\<lambda>existing.
       case existing of
         Some value \<Rightarrow>
           bind_op (lift_op (map_err InvalidCheckpointJson (cc_decode codec value))) (\<lambda>existing_checkpoint.
             set_store (\<lambda>s. s\<lparr>ms_last_checkpoint := Some existing_checkpoint, ms_ensured := True\<rparr>))
       | None \<Rightarrow>
           bind_op get_store (\<lambda>store.
           bind_op (lift_op (build_checkpoint_insert_sql_for_checkpoint codec (ms_table store) (ms_checkpoint_name store) checkpoint))
             (\<lambda>sql.
           bind_op (on_conn (cn_query_drop conn sql)) (\<lambda>_.
             set_store (\<lambda>s. s\<lparr>ms_last_checkpoint := Some checkpoint, ms_ensured := True\<rparr>))))))"

section \<open>Saving positions\<close>

text \<open>The trait \<open>StreamCheckpointStore\<close> over a world that holds the store and what is behind it.\<close>

record 'w stream_store =
  st_load :: "('w, apply_binlog_error, checkpoint option) op"
  st_save :: "checkpoint \<Rightarrow> ('w, apply_binlog_error, unit) op"
  st_for_skip :: "('w, apply_binlog_error, checkpoint option) op"

definition file_stream_store ::
  "(checkpoint_error \<Rightarrow> string) \<Rightarrow> checkpoint_codec \<Rightarrow> 'w file_system \<Rightarrow> file_path \<Rightarrow> 'w stream_store"
where
  "file_stream_store message codec fs path =
     \<lparr>st_load = map_err_op (CheckpointError \<circ> message) (file_store_load codec fs path),
      st_save = (\<lambda>c. map_err_op (CheckpointError \<circ> message) (file_store_save codec fs path c)),
      st_for_skip = map_err_op (CheckpointError \<circ> message) (file_store_load codec fs path)\<rparr>"

definition mysql_stream_store ::
  "(store_error \<Rightarrow> string) \<Rightarrow> checkpoint_codec \<Rightarrow> 'w checkpoint_conn \<Rightarrow> (mysql_checkpoint_store \<times> 'w) stream_store"
where
  "mysql_stream_store message codec conn =
     \<lparr>st_load = map_err_op (CheckpointError \<circ> message) (store_load codec conn),
      st_save = (\<lambda>c. map_err_op (CheckpointError \<circ> message) (store_save codec conn c)),
      st_for_skip = map_err_op (CheckpointError \<circ> message) (store_checkpoint_for_skip codec conn)\<rparr>"

definition coordinate_checkpoint :: "binlog_coordinate \<Rightarrow> string \<Rightarrow> checkpoint" where
  "coordinate_checkpoint coordinate event_type =
     \<lparr>ck_source_file = bc_file coordinate, ck_source_position = bc_position coordinate, ck_gtid = None,
      ck_event_timestamp = 0,
      ck_last_event = \<lparr>le_event_type = event_type,
        le_description = ''structured binlog event at '' @ bc_file coordinate @ '':'' @ nat_str (unat (bc_position coordinate))\<rparr>\<rparr>"

definition should_skip_checkpoint :: "'w stream_store \<Rightarrow> checkpoint \<Rightarrow> ('w, apply_binlog_error, bool) op" where
  "should_skip_checkpoint store checkpoint =
     (if ck_source_position checkpoint = 0 then ret_op True
      else
        bind_op (st_for_skip store) (\<lambda>current.
          case current of
            None \<Rightarrow> ret_op False
          | Some current \<Rightarrow>
              ret_op (ck_source_file current = ck_source_file checkpoint
                      \<and> ck_source_position checkpoint \<le> ck_source_position current)))"

definition save_checkpoint_if_advanced :: "'w stream_store option \<Rightarrow> checkpoint \<Rightarrow> ('w, apply_binlog_error, unit) op" where
  "save_checkpoint_if_advanced checkpoint_store checkpoint =
     (case checkpoint_store of
        None \<Rightarrow> ret_op ()
      | Some store \<Rightarrow>
          bind_op (should_skip_checkpoint store checkpoint) (\<lambda>skip.
            if skip then ret_op () else st_save store checkpoint))"

definition save_coordinate_checkpoint ::
  "'w stream_store option \<Rightarrow> binlog_coordinate \<Rightarrow> string \<Rightarrow> ('w, apply_binlog_error, unit) op"
where
  "save_coordinate_checkpoint checkpoint_store coordinate event_type =
     save_checkpoint_if_advanced checkpoint_store (coordinate_checkpoint coordinate event_type)"

section \<open>Reconnecting\<close>

fun str_contains :: "string \<Rightarrow> string \<Rightarrow> bool" where
  "str_contains needle [] = (needle = [])"
| "str_contains needle (c # s) = (take (length needle) (c # s) = needle \<or> str_contains needle s)"

definition lower_text :: "string \<Rightarrow> string" where
  "lower_text s = map Sync_Config.ascii_lower s"

definition is_stale_or_missing_binlog_error :: "apply_binlog_error \<Rightarrow> bool" where
  "is_stale_or_missing_binlog_error error =
     (case error of
        SourceCommand message \<Rightarrow>
          (let lower = lower_text message in
           str_contains ''could not find first log file name in binary log index file'' lower
           \<or> str_contains ''could not find log file'' lower \<and> str_contains ''in binary log index file'' lower
           \<or> str_contains ''not found in binlog index'' lower
           \<or> str_contains ''not found in binary log index'' lower)
      | _ \<Rightarrow> False)"

definition stale_binlog_error :: "apply_binlog_error \<Rightarrow> apply_binlog_error option" where
  "stale_binlog_error error =
     (if is_stale_or_missing_binlog_error error then
        (case error of
           SourceCommand message \<Rightarrow>
             Some (SourceCommand (''stale or purged source binlog requires operator repair; checkpoint was not changed; error=''
               @ ''source binlog command failed: '' @ message))
         | _ \<Rightarrow> None)
      else None)"

definition is_retryable_stream_error :: "apply_binlog_error \<Rightarrow> bool" where
  "is_retryable_stream_error error =
     (case error of
        SourceCommand message \<Rightarrow>
          (let lower = lower_text message in
           list_ex (\<lambda>needle. str_contains needle lower)
             [''connection reset'', ''connection refused'', ''tls/ssl'', ''reading packet'', ''eof'', ''broken pipe'',
              ''timed out'', ''same server_id is already connected''])
      | _ \<Rightarrow> False)"

definition should_reconnect :: "apply_binlog_error \<Rightarrow> u32 \<Rightarrow> u32 \<Rightarrow> bool \<Rightarrow> bool" where
  "should_reconnect error attempt max_reconnects reconnect_forever \<longleftrightarrow>
     (reconnect_forever \<or> attempt < max_reconnects) \<and> is_retryable_stream_error error"

definition load_checkpoint_for_resume :: "'w stream_store option \<Rightarrow> ('w, apply_binlog_error, checkpoint option) op" where
  "load_checkpoint_for_resume checkpoint_store =
     (case checkpoint_store of
        None \<Rightarrow> ret_op None
      | Some store \<Rightarrow>
          bind_op (st_load store) (\<lambda>loaded.
            case loaded of
              None \<Rightarrow> fail_op (CheckpointError ''required source-scoped stream checkpoint is missing'')
            | Some checkpoint \<Rightarrow> ret_op (Some checkpoint)))"

definition update_source_coordinate_from_checkpoint :: "checkpoint option \<Rightarrow> apply_binlog_config \<Rightarrow> apply_binlog_config" where
  "update_source_coordinate_from_checkpoint checkpoint config =
     (case checkpoint of
        None \<Rightarrow> config
      | Some checkpoint \<Rightarrow>
          config\<lparr>ab_source := (ab_source config)\<lparr>sb_binlog_file := ck_source_file checkpoint,
                                               sb_start_position := ck_source_position checkpoint\<rparr>\<rparr>)"

definition resume_from_checkpoint ::
  "apply_binlog_config \<Rightarrow> 'w stream_store option \<Rightarrow> ('w, apply_binlog_error, apply_binlog_config) op"
where
  "resume_from_checkpoint config checkpoint_store =
     bind_op (load_checkpoint_for_resume checkpoint_store) (\<lambda>checkpoint.
       ret_op (update_source_coordinate_from_checkpoint checkpoint config))"

text \<open>Seconds of \<open>2_u64.saturating_pow(attempt.saturating_sub(1)).min(5)\<close>.\<close>

definition reconnect_delay :: "u32 \<Rightarrow> nat" where
  "reconnect_delay attempt = min (min (2 ^ (unat attempt - 1)) (2 ^ 64 - 1)) 5"

fun reconnect_loop ::
  "nat \<Rightarrow> apply_binlog_config \<Rightarrow> 'w stream_store option \<Rightarrow> (apply_binlog_config \<Rightarrow> ('w, apply_binlog_error, unit) op)
    \<Rightarrow> (nat \<Rightarrow> 'w \<Rightarrow> 'w) \<Rightarrow> apply_binlog_config \<Rightarrow> u32 \<Rightarrow> u32 \<Rightarrow> ('w, apply_binlog_error, unit) op"
where
  "reconnect_loop 0 config checkpoint_store run_attempt sleep attempt_config reconnect_attempt transport_reconnects =
     fail_op OutOfFuel"
| "reconnect_loop (Suc fuel) config checkpoint_store run_attempt sleep attempt_config reconnect_attempt transport_reconnects =
     (\<lambda>w. case run_attempt attempt_config w of
        (Inr _, w') \<Rightarrow> (Inr (), w')
      | (Inl error, w') \<Rightarrow>
          (case stale_binlog_error error of
             Some stale_error \<Rightarrow> (Inl stale_error, w')
           | None \<Rightarrow>
               (let durable_ddl_block = (case error of DdlBlocked _ \<Rightarrow> True | _ \<Rightarrow> False);
                    reconnect_eligible = durable_ddl_block
                      \<or> should_reconnect error transport_reconnects (ab_max_reconnects config) (ab_reconnect_forever config) in
                if checkpoint_store = None \<or> \<not> reconnect_eligible then (Inl error, w')
                else
                  (let transport = (if durable_ddl_block then transport_reconnects else transport_reconnects + 1);
                       attempt = reconnect_attempt + 1 in
                   bind_op (resume_from_checkpoint attempt_config checkpoint_store) (\<lambda>attempt_config.
                   bind_op (lift_op (validate_start_coordinate (ab_source attempt_config))) (\<lambda>_.
                     (\<lambda>w. reconnect_loop fuel config checkpoint_store run_attempt sleep attempt_config attempt transport
                            (sleep (reconnect_delay attempt) w)))) w'))))"

definition run_stream_reconnect_loop ::
  "nat \<Rightarrow> apply_binlog_config \<Rightarrow> 'w stream_store option \<Rightarrow> (apply_binlog_config \<Rightarrow> ('w, apply_binlog_error, unit) op)
    \<Rightarrow> (nat \<Rightarrow> 'w \<Rightarrow> 'w) \<Rightarrow> ('w, apply_binlog_error, unit) op"
where
  "run_stream_reconnect_loop fuel config checkpoint_store run_attempt sleep =
     bind_op (resume_from_checkpoint config checkpoint_store) (\<lambda>attempt_config.
     bind_op (lift_op (validate_start_coordinate (ab_source attempt_config))) (\<lambda>_.
       reconnect_loop fuel config checkpoint_store run_attempt sleep attempt_config 0 0))"

section \<open>The checkpoint table as an interface\<close>

definition at_table :: "string \<Rightarrow> string \<Rightarrow> mysql_checkpoint_store \<times> 'w \<Rightarrow> bool" where
  "at_table table name s \<longleftrightarrow> ms_table (fst s) = table \<and> ms_checkpoint_name (fst s) = name"

definition keeps_row :: "('w \<Rightarrow> string option) \<Rightarrow> string \<Rightarrow> string \<Rightarrow> ('w, 'a) store_op \<Rightarrow> bool" where
  "keeps_row row table name m \<longleftrightarrow>
     (\<forall>s r s'. at_table table name s \<longrightarrow> m s = (r, s') \<longrightarrow> at_table table name s' \<and> row (snd s') = row (snd s))"

lemma keeps_rowD:
  "keeps_row row table name m \<Longrightarrow> at_table table name s \<Longrightarrow> m s = (r, s')
     \<Longrightarrow> at_table table name s' \<and> row (snd s') = row (snd s)"
  unfolding keeps_row_def by blast

lemma keeps_row_bind:
  assumes "keeps_row row table name m" and "\<And>a. keeps_row row table name (f a)"
  shows "keeps_row row table name (bind_op m f)"
  unfolding keeps_row_def
proof (intro allI impI)
  fix s r s'
  assume s: "at_table table name s" and run: "bind_op m f s = (r, s')"
  obtain r1 s1 where m: "m s = (r1, s1)" by (rule prod.exhaust)
  note k = keeps_rowD [OF assms(1) s m]
  show "at_table table name s' \<and> row (snd s') = row (snd s)"
  proof (cases r1)
    case (Inl e)
    with run m k show ?thesis by (simp add: bind_op_def)
  next
    case (Inr a)
    with run m have "f a s1 = (r, s')" by (simp add: bind_op_def)
    from keeps_rowD [OF assms(2) _ this] k show ?thesis by simp
  qed
qed

lemma keeps_row_basic:
  "keeps_row row table name get_store" "keeps_row row table name (lift_op x)"
  "keeps_row row table name (ret_op a)" "keeps_row row table name (fail_op e)"
  by (auto simp: keeps_row_def get_store_def lift_op_def ret_op_def fail_op_def)

lemma keeps_set_store:
  "(\<And>s. ms_table (f s) = ms_table s \<and> ms_checkpoint_name (f s) = ms_checkpoint_name s)
     \<Longrightarrow> keeps_row row table name (set_store f)"
  by (auto simp: keeps_row_def set_store_def at_table_def)

lemma keeps_on_conn:
  assumes "\<And>w r w'. query w = (r, w') \<Longrightarrow> row w' = row w"
  shows "keeps_row row table name (on_conn query)"
  unfolding keeps_row_def
proof (intro allI impI)
  fix s r s'
  assume s: "at_table table name s" and run: "on_conn query s = (r, s')"
  obtain r1 w1 where "query (snd s) = (r1, w1)" by (rule prod.exhaust)
  with run s assms [OF this] show "at_table table name s' \<and> row (snd s') = row (snd s)"
    by (auto simp: on_conn_def at_table_def)
qed

lemmas keeps_intros = keeps_row_bind keeps_row_basic keeps_set_store

text \<open>
  What the store relies on: reads return the row of the checkpoint name and change nothing; an upsert
  or insert that reports success has stored the text, one that reports an error has stored it or
  changed nothing, and an insert never replaces a row.
\<close>

locale checkpoint_table =
  fixes conn :: "'w checkpoint_conn" and row :: "'w \<Rightarrow> string option" and table name :: string
  assumes columns_keep: "cn_columns conn q w = (r1, w') \<Longrightarrow> row w' = row w"
    and constraints_keep: "cn_constraints conn q w = (r2, w') \<Longrightarrow> row w' = row w"
    and select_row: "cn_query_first conn (build_checkpoint_select_sql table name) w = (r3, w')
        \<Longrightarrow> row w' = row w \<and> (case r3 of Inr v \<Rightarrow> v = row w | Inl _ \<Rightarrow> True)"
    and upsert_row: "cn_query_drop conn (build_checkpoint_upsert_sql table name json) w = (r4, w')
        \<Longrightarrow> row w' = Some json \<or> (\<exists>e. r4 = Inl e) \<and> row w' = row w"
    and insert_row: "cn_query_drop conn (build_checkpoint_insert_sql table name json) w = (r4, w')
        \<Longrightarrow> row w = None \<and> row w' = Some json \<or> (\<exists>e. r4 = Inl e) \<and> row w' = row w"
begin

lemma keeps_validate: "keeps_row row table name (validate_checkpoint_schema conn)"
proof -
  have "keeps_row row table name (on_conn (cn_columns conn q))" for q
    by (rule keeps_on_conn) (rule columns_keep)
  moreover have "keeps_row row table name (on_conn (cn_constraints conn q))" for q
    by (rule keeps_on_conn) (rule constraints_keep)
  ultimately show ?thesis
    unfolding validate_checkpoint_schema_def by (auto simp: split_def intro!: keeps_intros)
qed

lemma select_checkpoint_exact:
  assumes "at_table table name s" and "select_checkpoint conn s = (r, s')"
  shows "fst s' = fst s \<and> row (snd s') = row (snd s) \<and> (case r of Inr v \<Rightarrow> v = row (snd s) | Inl _ \<Rightarrow> True)"
proof -
  obtain r1 w1 where q: "cn_query_first conn (build_checkpoint_select_sql table name) (snd s) = (r1, w1)"
    by (rule prod.exhaust)
  have "r = map_err StoreMySql r1" "s' = (fst s, w1)"
    using assms q by (simp_all add: select_checkpoint_def bind_op_def get_store_def on_conn_def at_table_def)
  with select_row [OF q] show ?thesis
    by (cases r1) simp_all
qed

lemma keeps_select: "keeps_row row table name (select_checkpoint conn)"
  unfolding keeps_row_def
proof (intro allI impI)
  fix s r s'
  assume s: "at_table table name s" and run: "select_checkpoint conn s = (r, s')"
  from select_checkpoint_exact [OF this] s show "at_table table name s' \<and> row (snd s') = row (snd s)"
    by (simp add: at_table_def)
qed

lemma keeps_ensure: "keeps_row row table name (store_ensure conn)"
  unfolding store_ensure_def by (auto intro!: keeps_intros keeps_validate keeps_select)

lemma keeps_load: "keeps_row row table name (store_load codec conn)"
  unfolding store_load_def
  by (auto intro!: keeps_intros keeps_ensure keeps_select split: option.split)

lemma keeps_for_skip: "keeps_row row table name (store_checkpoint_for_skip codec conn)"
  unfolding store_checkpoint_for_skip_def
  by (auto intro!: keeps_intros keeps_load split: option.split)

lemma save_row:
  assumes "at_table table name s" "store_save codec conn c s = (r, s')"
  shows "row (snd s') = row (snd s) \<and> (\<exists>e. r = Inl e)
       \<or> (\<exists>json. cc_encode codec c = Inr json \<and> row (snd s') = Some json)"
proof -
  obtain r1 s1 where ensure: "store_ensure conn s = (r1, s1)"
    by (rule prod.exhaust)
  note s1 = keeps_rowD [OF keeps_ensure assms(1) ensure]
  show ?thesis
  proof (cases r1)
    case (Inl e)
    with assms ensure s1 show ?thesis by (auto simp: store_save_def bind_op_def)
  next
    case (Inr u)
    show ?thesis
    proof (cases "cc_encode codec c")
      case (Inl e)
      with assms ensure Inr s1 show ?thesis
        by (auto simp: store_save_def bind_op_def get_store_def lift_op_def build_checkpoint_upsert_sql_for_checkpoint_def)
    next
      case json: (Inr json)
      obtain r2 w2 where q: "cn_query_drop conn (build_checkpoint_upsert_sql table name json) (snd s1) = (r2, w2)"
        by (rule prod.exhaust)
      have "row (snd s') = row w2 \<and> ((\<exists>e. r2 = Inl e) \<longrightarrow> (\<exists>e. r = Inl e))"
        using assms(2) ensure Inr s1 json q
        by (auto simp: store_save_def bind_op_def get_store_def lift_op_def on_conn_def set_store_def at_table_def
            build_checkpoint_upsert_sql_for_checkpoint_def split: sum.splits)
      with upsert_row [OF q] s1 json show ?thesis by auto
    qed
  qed
qed

lemma load_exact:
  assumes "at_table table name s" "store_load codec conn s = (Inr v, s')"
  shows "case row (snd s) of None \<Rightarrow> v = None | Some json \<Rightarrow> (\<exists>c. v = Some c \<and> cc_decode codec json = Inr c)"
proof -
  obtain s1 where s1: "store_ensure conn s = (Inr (), s1)"
    using assms(2) by (auto simp: store_load_def bind_op_eq_Inr)
  note k = keeps_rowD [OF keeps_ensure assms(1) s1]
  obtain x s2 where s2: "select_checkpoint conn s1 = (Inr x, s2)"
    using assms(2) s1 by (auto simp: store_load_def bind_op_eq_Inr)
  have x: "row (snd s) = x"
    using select_checkpoint_exact [OF conjunct1 [OF k] s2] k by simp
  show ?thesis
    unfolding x using assms(2) s1 s2
    by (cases x) (auto simp: store_load_def bind_op_def set_store_def ret_op_def lift_op_def map_err_def
        split: sum.splits)
qed

lemma for_skip_exact:
  assumes "at_table table name s"
    and "\<And>current. ms_last_checkpoint (fst s) = Some current \<Longrightarrow> map_option (cc_decode codec) (row (snd s)) = Some (Inr current)"
    and "store_checkpoint_for_skip codec conn s = (Inr v, s')"
  shows "case row (snd s) of None \<Rightarrow> v = None | Some json \<Rightarrow> (\<exists>c. v = Some c \<and> cc_decode codec json = Inr c)"
proof (cases "ms_last_checkpoint (fst s)")
  case None
  with assms(3) have "store_load codec conn s = (Inr v, s')"
    by (simp add: store_checkpoint_for_skip_def bind_op_def get_store_def)
  with assms(1) show ?thesis by (rule load_exact)
next
  case (Some current)
  with assms(3) have "v = Some current"
    by (simp add: store_checkpoint_for_skip_def bind_op_def get_store_def ret_op_def)
  with assms(2) [OF Some] show ?thesis by auto
qed

lemma save_if_advanced_row:
  assumes "at_table table name s"
    and "\<And>current. ms_last_checkpoint (fst s) = Some current \<Longrightarrow> map_option (cc_decode codec) (row (snd s)) = Some (Inr current)"
    and "save_checkpoint_if_advanced (Some (mysql_stream_store message codec conn)) c s = (r, s')"
  shows "row (snd s') = row (snd s)
     \<or> (\<exists>json. cc_encode codec c = Inr json \<and> row (snd s') = Some json \<and> ck_source_position c \<noteq> 0
          \<and> (\<forall>old previous. row (snd s) = Some old \<longrightarrow> cc_decode codec old = Inr previous
               \<longrightarrow> ck_source_file previous \<noteq> ck_source_file c \<or> ck_source_position previous < ck_source_position c))"
proof (cases "ck_source_position c = 0")
  case True
  with assms(3) show ?thesis
    by (simp add: save_checkpoint_if_advanced_def should_skip_checkpoint_def bind_op_def ret_op_def)
next
  case False
  obtain r1 s1 where skip: "store_checkpoint_for_skip codec conn s = (r1, s1)" by (rule prod.exhaust)
  note s1 = keeps_rowD [OF keeps_for_skip assms(1) skip]
  show ?thesis
  proof (cases r1)
    case (Inl e)
    with assms(3) False skip s1 show ?thesis
      by (simp add: save_checkpoint_if_advanced_def should_skip_checkpoint_def mysql_stream_store_def bind_op_def
          map_err_op_def)
  next
    case (Inr v)
    note exact = for_skip_exact [OF assms(1,2) skip [unfolded Inr]]
    obtain r2 s2 where save: "store_save codec conn c s1 = (r2, s2)" by (rule prod.exhaust)
    note run = assms(3) False skip Inr save
    show ?thesis
    proof (cases "\<exists>current. v = Some current \<and> ck_source_file current = ck_source_file c
        \<and> ck_source_position c \<le> ck_source_position current")
      case True
      with run s1 show ?thesis
        by (auto simp: save_checkpoint_if_advanced_def should_skip_checkpoint_def mysql_stream_store_def bind_op_def
            map_err_op_def ret_op_def)
    next
      case ahead: False
      then have "s' = s2"
        using run by (auto simp: save_checkpoint_if_advanced_def should_skip_checkpoint_def mysql_stream_store_def
            bind_op_def map_err_op_def ret_op_def split: option.splits if_splits)
      moreover have "ck_source_file previous \<noteq> ck_source_file c \<or> ck_source_position previous < ck_source_position c"
        if "row (snd s) = Some old" "cc_decode codec old = Inr previous" for old previous
        using exact that ahead by (auto simp: not_le)
      ultimately show ?thesis
        using save_row [OF conjunct1 [OF s1] save] s1 False by auto
    qed
  qed
qed

text \<open>Bootstrapping leaves a row that is there and stores the given checkpoint where there is none.\<close>

lemma bootstrap_row:
  assumes "at_table table name s" "store_bootstrap codec conn c s = (r, s')"
  shows "(row (snd s) \<noteq> None \<longrightarrow> row (snd s') = row (snd s))
       \<and> (row (snd s) = None \<longrightarrow> (row (snd s') = None \<and> (\<exists>e. r = Inl e))
            \<or> (\<exists>json. cc_encode codec c = Inr json \<and> row (snd s') = Some json))"
proof -
  obtain r1 s1 where v: "validate_checkpoint_schema conn s = (r1, s1)"
    by (rule prod.exhaust)
  note s1 = keeps_rowD [OF keeps_validate assms(1) v]
  obtain r2 s2 where sel: "select_checkpoint conn s1 = (r2, s2)"
    by (rule prod.exhaust)
  note s2 = select_checkpoint_exact [OF conjunct1 [OF s1] sel]
  show ?thesis
  proof (cases "\<exists>u. r1 = Inr u \<and> r2 = Inr None")
    case False
    then have "row (snd s') = row (snd s) \<and> (row (snd s) = None \<longrightarrow> (\<exists>e. r = Inl e))"
      using assms(2) v sel s1 s2
      by (auto simp: store_bootstrap_def bind_op_def lift_op_def set_store_def map_err_def
          split: sum.splits option.splits)
    then show ?thesis by auto
  next
    case True
    then have none: "row (snd s) = None"
      using s1 s2 by simp
    have at2: "ms_table (fst s2) = table" "ms_checkpoint_name (fst s2) = name"
      using s1 s2 by (simp_all add: at_table_def)
    show ?thesis
    proof (cases "cc_encode codec c")
      case (Inl e)
      with assms(2) v sel s1 s2 True none show ?thesis
        by (auto simp: store_bootstrap_def bind_op_def get_store_def lift_op_def build_checkpoint_insert_sql_for_checkpoint_def)
    next
      case json: (Inr json)
      obtain r3 w3 where q: "cn_query_drop conn (build_checkpoint_insert_sql table name json) (snd s2) = (r3, w3)"
        by (rule prod.exhaust)
      have "row (snd s') = row w3 \<and> ((\<exists>e. r3 = Inl e) \<longrightarrow> (\<exists>e. r = Inl e))"
        using assms(2) v sel True json q at2
        by (auto simp: store_bootstrap_def bind_op_def get_store_def lift_op_def on_conn_def set_store_def
            build_checkpoint_insert_sql_for_checkpoint_def split: sum.splits)
      with insert_row [OF q] s1 s2 none json show ?thesis by auto
    qed
  qed
qed

end

section \<open>A checkpoint table in memory\<close>

text \<open>The row of one checkpoint name; statements are recognised by their text, and the stored text is read
  back from the string literal.\<close>

definition memory_insert_prefix :: "string \<Rightarrow> string \<Rightarrow> string" where
  "memory_insert_prefix table name =
     ''INSERT INTO '' @ quote_identifier_path table @ '' (checkpoint_name, checkpoint_json) VALUES (''
       @ quote_sql_literal name @ '', ''"

definition memory_checkpoint_conn :: "string \<Rightarrow> string \<Rightarrow> string option checkpoint_conn" where
  "memory_checkpoint_conn table name =
     \<lparr>cn_columns = (\<lambda>_ w. (Inr expected_stream_checkpoint_columns, w)),
      cn_constraints = (\<lambda>_ w. (Inr [(''PRIMARY KEY'', ''YES'')], w)),
      cn_query_first = (\<lambda>sql w. if sql = build_checkpoint_select_sql table name then (Inr w, w) else (Inr None, w)),
      cn_query_drop = (\<lambda>sql w.
        case strip_prefix (memory_insert_prefix table name) sql of
          None \<Rightarrow> (Inl ''unsupported statement'', w)
        | Some rest \<Rightarrow>
            (case lex_literal rest of
               None \<Rightarrow> (Inl ''syntax error'', w)
             | Some (json, tail) \<Rightarrow>
                 (if tail = '')'' \<and> w \<noteq> None then (Inl ''Duplicate entry'', w) else (Inr (), Some json))))\<rparr>"

lemma memory_insert_text:
  "strip_prefix (memory_insert_prefix table name) (build_checkpoint_insert_sql table name json @ t)
     = Some (quote_sql_literal json @ CHR '')'' # t)"
proof -
  have "strip_prefix p (p @ q) = Some q" for p q
    by (simp add: strip_prefix_def)
  moreover have "build_checkpoint_insert_sql table name json @ t
      = memory_insert_prefix table name @ quote_sql_literal json @ CHR '')'' # t"
    by (simp only: memory_insert_prefix_def build_checkpoint_insert_sql_def append_assoc append_Cons append_Nil)
  ultimately show ?thesis by simp
qed

lemma memory_checkpoint_table:
  "checkpoint_table (memory_checkpoint_conn table name) (\<lambda>w. w) table name"
proof -
  have lit: "lex_literal (quote_sql_literal json @ CHR '')'' # t) = Some (json, CHR '')'' # t)" for json t
    by (rule lex_literal_quote) (simp add: apostrophe_def)
  note insert = memory_insert_text [of table name _ "[]", simplified append_Nil2]
  show ?thesis
    by unfold_locales
       (auto simp: memory_checkpoint_conn_def build_checkpoint_upsert_sql_def memory_insert_text insert lit
          split: if_splits)
qed

interpretation default_checkpoints: checkpoint_table
  "memory_checkpoint_conn default_stream_checkpoint_table (stream_checkpoint_name ''production'')" "\<lambda>w. w"
  default_stream_checkpoint_table "stream_checkpoint_name ''production''"
  by (rule memory_checkpoint_table)

section \<open>The reconnect loop\<close>

definition transport_error :: "apply_binlog_error \<Rightarrow> bool" where
  "transport_error e = (case e of OutOfFuel \<Rightarrow> False | DdlBlocked _ \<Rightarrow> False | _ \<Rightarrow> True)"

lemma resume_fuel:
  assumes "\<And>w e w'. st_load store w = (Inl e, w') \<Longrightarrow> e \<noteq> OutOfFuel"
  shows "resume_from_checkpoint config (Some store) w = (Inl e, w') \<Longrightarrow> e \<noteq> OutOfFuel"
  using assms
  by (auto simp: resume_from_checkpoint_def load_checkpoint_for_resume_def bind_op_eq_Inl ret_op_def fail_op_def
      split: option.splits)

lemma validate_start_fuel: "validate_start_coordinate source = Inl e \<Longrightarrow> e \<noteq> OutOfFuel"
  by (auto simp: validate_start_coordinate_def validate_stop_never_slave_server_id_def require_def bind_res_eq_Inl
      split: if_splits)

lemma stale_not_fuel: "stale_binlog_error e = Some e' \<Longrightarrow> e' \<noteq> OutOfFuel"
  by (auto simp: stale_binlog_error_def split: if_splits apply_binlog_error.splits)

lemma reconnect_loop_fuel:
  assumes bounded: "\<not> ab_reconnect_forever config"
    and run: "\<And>c w e w'. run_attempt c w = (Inl e, w') \<Longrightarrow> transport_error e"
    and load: "\<And>w e w'. st_load store w = (Inl e, w') \<Longrightarrow> e \<noteq> OutOfFuel"
  shows "unat (ab_max_reconnects config) < fuel + unat transport \<Longrightarrow> transport \<le> ab_max_reconnects config \<Longrightarrow>
     fst (reconnect_loop fuel config (Some store) run_attempt sleep c attempt transport w) \<noteq> Inl OutOfFuel
     \<and> reconnect_loop (fuel + extra) config (Some store) run_attempt sleep c attempt transport w
         = reconnect_loop fuel config (Some store) run_attempt sleep c attempt transport w"
proof (induction fuel arbitrary: c attempt transport w)
  case 0
  then have "unat transport \<le> unat (ab_max_reconnects config)"
    by (simp add: word_le_nat_alt)
  with 0 show ?case by simp
next
  case (Suc fuel)
  obtain r w1 where attempt: "run_attempt c w = (r, w1)" by (rule prod.exhaust)
  show ?case
  proof (cases r)
    case (Inr u)
    with attempt show ?thesis by simp
  next
    case (Inl e)
    have e: "transport_error e"
      using run attempt Inl by blast
    then have block: "(case e of DdlBlocked _ \<Rightarrow> True | _ \<Rightarrow> False) = False"
      by (auto simp: transport_error_def split: apply_binlog_error.splits)
    consider (stale) e' where "stale_binlog_error e = Some e'"
      | (final) "stale_binlog_error e = None" "\<not> should_reconnect e transport (ab_max_reconnects config) False"
      | (again) "stale_binlog_error e = None" "should_reconnect e transport (ab_max_reconnects config) False"
      by (cases "stale_binlog_error e") auto
    then show ?thesis
    proof cases
      case stale
      with attempt Inl stale_not_fuel [OF stale] show ?thesis by simp
    next
      case final
      with attempt Inl bounded block e show ?thesis
        by (auto simp: Let_def transport_error_def)
    next
      case again
      have less: "transport < ab_max_reconnects config"
        using again by (simp add: should_reconnect_def)
      have "unat (ab_max_reconnects config) < 2 ^ 32"
        by (rule order.strict_trans2 [OF unsigned_less]) simp
      with less have "unat transport + 1 < 2 ^ 32"
        by (simp add: word_less_nat_alt)
      then have "unat (transport + 1) = unat transport + 1"
        by (simp add: unat_word_ariths)
      moreover have "transport + 1 \<le> ab_max_reconnects config"
        using less by (rule inc_le)
      ultimately have next_transport: "transport + 1 \<le> ab_max_reconnects config"
          "unat (transport + 1) = unat transport + 1"
        by simp_all
      obtain r2 w2 where resume: "resume_from_checkpoint c (Some store) w1 = (r2, w2)" by (rule prod.exhaust)
      show ?thesis
      proof (cases r2)
        case resume_error: (Inl e2)
        have "e2 \<noteq> OutOfFuel"
          by (rule resume_fuel [of store c w1 e2 w2]) (use load resume resume_error in auto)
        with attempt Inl bounded block again resume resume_error show ?thesis
          by (simp add: Let_def bind_op_def)
      next
        case config: (Inr c2)
        show ?thesis
        proof (cases "validate_start_coordinate (ab_source c2)")
          case invalid: (Inl e3)
          with validate_start_fuel attempt Inl bounded block again resume config show ?thesis
            by (auto simp: Let_def bind_op_def lift_op_def)
        next
          case (Inr u)
          have "unat (ab_max_reconnects config) < fuel + unat (transport + 1)"
            using Suc.prems next_transport by simp
          from Suc.IH [OF this next_transport(1), of c2 "attempt + 1" "sleep (reconnect_delay (attempt + 1)) w2"]
          show ?thesis
            using attempt Inl bounded block again resume config Inr by (simp add: Let_def bind_op_def lift_op_def)
        qed
      qed
    qed
  qed
qed

section \<open>Properties\<close>


definition demo_checkpoint :: checkpoint where
  "demo_checkpoint = coordinate_checkpoint \<lparr>bc_file = ''bin.7'', bc_position = 120\<rparr> ''XidEvent''"

definition demo_store :: "nat stream_store" where
  "demo_store = \<lparr>st_load = ret_op (Some demo_checkpoint), st_save = (\<lambda>_. ret_op ()), st_for_skip = ret_op (Some demo_checkpoint)\<rparr>"

definition demo_attempt :: "apply_binlog_config \<Rightarrow> (nat, apply_binlog_error, unit) op" where
  "demo_attempt c n = (if n < 2 then (Inl (SourceCommand ''Connection reset by peer''), Suc n) else (Inr (), Suc n))"

lemma demo_attempt_transport: "demo_attempt c w = (Inl e, w') \<Longrightarrow> transport_error e"
  by (auto simp: demo_attempt_def transport_error_def split: if_splits)

lemma demo_store_load: "st_load demo_store w = (Inl e, w') \<Longrightarrow> e \<noteq> OutOfFuel"
  by (simp add: demo_store_def ret_op_def)



text \<open>The witness: a codec that stores file and position, on the table in memory.\<close>

definition demo_codec :: checkpoint_codec where
  "demo_codec =
     \<lparr>cc_encode_pretty = (\<lambda>c. Inr (ck_source_file c)),
      cc_encode = (\<lambda>c. Inr (ck_source_file c)),
      cc_decode = (\<lambda>s. Inr (coordinate_checkpoint \<lparr>bc_file = s, bc_position = 120\<rparr> ''XidEvent''))\<rparr>"

definition demo_store_state :: "mysql_checkpoint_store \<times> string option" where
  "demo_store_state =
     (new_checkpoint_store default_stream_checkpoint_table ''production'', Some ''bin.7'')"


end
