(* ===== verification/Stream_Event.thy ===== *)
theory Stream_Event
  imports Stream_Checkpoint
begin

text \<open>
  Handling of one binlog event (\<open>src/src/live/structured_stream.rs\<close>,
  \<open>src/src/live/structured_stream/event.rs\<close>, \<open>rows.rs\<close>, \<open>schema.rs\<close>): the state of the
  event handler, the resolution of a table map to the columns of the target table, row events, query
  events and their session context, and the decisions on a bounded stop position. Events and their
  headers are those of the vendored binlog client. The target behind the applier, the schema
  resolver and the clock are operations on a world; the handler's own state travels with it. A panic
  is the error \<open>Panicked\<close>.
\<close>

section \<open>Binlog events\<close>

record event_header =
  eh_server_id :: u32
  eh_event_length :: u32
  eh_next_event_position :: u32

type_synonym row_cells = "mysql_value option list"

record rows_event =
  re_table_id :: u64
  re_columns_present :: "bool list"
  re_rows :: "row_cells list"

record update_event =
  ue_table_id :: u64
  ue_columns_before_update :: "bool list"
  ue_columns_after_update :: "bool list"
  ue_rows :: "(row_cells \<times> row_cells) list"

record query_event =
  qe_database_name :: string
  qe_sql_statement :: string
  qe_status_variables :: string

record table_metadata =
  tm_column_names :: "string list option"
  tm_simple_primary_keys :: "u32 list option"
  tm_enum_string_values :: "string list list option"
  tm_set_string_values :: "string list list option"

record cdc_table_map =
  ct_table_id :: u64
  ct_database_name :: string
  ct_table_name :: string
  ct_column_types :: "u8 list"
  ct_column_metadata :: "u16 list"
  ct_table_metadata :: "table_metadata option"

record rotate_event =
  ro_binlog_filename :: string
  ro_binlog_position :: u64

datatype binlog_event =
    UnknownEvent
  | DeleteRowsEvent rows_event
  | UpdateRowsEvent update_event
  | WriteRowsEvent rows_event
  | XidEvent u64
  | IntVarEvent u8 u64
  | UserVarEvent string
  | QueryEvent query_event
  | TableMapEvent cdc_table_map
  | RotateEvent rotate_event
  | RowsQueryEvent
  | HeartbeatEvent
  | FormatDescriptionEvent
  | MySqlGtidEvent
  | MySqlPrevGtidsEvent
  | MariaDbGtidEvent
  | MariaDbGtidListEvent

definition event_name :: "binlog_event \<Rightarrow> string" where
  "event_name event =
     (case event of
        UnknownEvent \<Rightarrow> ''UnknownEvent''
      | DeleteRowsEvent _ \<Rightarrow> ''DeleteRowsEvent''
      | UpdateRowsEvent _ \<Rightarrow> ''UpdateRowsEvent''
      | WriteRowsEvent _ \<Rightarrow> ''WriteRowsEvent''
      | XidEvent _ \<Rightarrow> ''XidEvent''
      | IntVarEvent _ _ \<Rightarrow> ''IntVarEvent''
      | UserVarEvent _ \<Rightarrow> ''UserVarEvent''
      | QueryEvent _ \<Rightarrow> ''QueryEvent''
      | TableMapEvent _ \<Rightarrow> ''TableMapEvent''
      | RotateEvent _ \<Rightarrow> ''RotateEvent''
      | RowsQueryEvent \<Rightarrow> ''RowsQueryEvent''
      | HeartbeatEvent \<Rightarrow> ''HeartbeatEvent''
      | FormatDescriptionEvent \<Rightarrow> ''FormatDescriptionEvent''
      | MySqlGtidEvent \<Rightarrow> ''MySqlGtidEvent''
      | MySqlPrevGtidsEvent \<Rightarrow> ''MySqlPrevGtidsEvent''
      | MariaDbGtidEvent \<Rightarrow> ''MariaDbGtidEvent''
      | MariaDbGtidListEvent \<Rightarrow> ''MariaDbGtidListEvent'')"

section \<open>State and outcome\<close>

datatype event_policy = Ignore | IgnoreAnnotation | ApplyTableMap | ApplyRows | CommitTransaction

record structured_event_outcome =
  eo_policy :: event_policy
  eo_resume_coordinate :: "binlog_coordinate option"

record structured_event_state =
  es_source_database :: "string option"
  es_ignored_table_ids :: "u64 list"
  es_current_event_position :: "u64 option"
  es_pending_intvars :: "(u8 \<times> u64) list"
  es_pending_uservars :: "string list"

definition new_event_state :: "string option \<Rightarrow> structured_event_state" where
  "new_event_state source_database =
     \<lparr>es_source_database = source_database, es_ignored_table_ids = [], es_current_event_position = None,
      es_pending_intvars = [], es_pending_uservars = []\<rparr>"

definition should_apply_schema :: "structured_event_state \<Rightarrow> string \<Rightarrow> bool" where
  "should_apply_schema state schema =
     (case es_source_database state of None \<Rightarrow> True | Some source_database \<Rightarrow> source_database = schema)"

definition record_event_position :: "u64 \<Rightarrow> structured_event_state \<Rightarrow> structured_event_state" where
  "record_event_position position state = state\<lparr>es_current_event_position := Some position\<rparr>"

definition ignore_table_id :: "u64 \<Rightarrow> structured_event_state \<Rightarrow> structured_event_state" where
  "ignore_table_id table_id state =
     state\<lparr>es_ignored_table_ids := bts_insert table_id (es_ignored_table_ids state)\<rparr>"

definition apply_table_id :: "u64 \<Rightarrow> structured_event_state \<Rightarrow> structured_event_state" where
  "apply_table_id table_id state =
     state\<lparr>es_ignored_table_ids := bts_remove table_id (es_ignored_table_ids state)\<rparr>"

definition is_ignored_table_id :: "structured_event_state \<Rightarrow> u64 \<Rightarrow> bool" where
  "is_ignored_table_id state table_id \<longleftrightarrow> table_id \<in> set (es_ignored_table_ids state)"

definition record_intvar :: "u8 \<Rightarrow> u64 \<Rightarrow> structured_event_state \<Rightarrow> structured_event_state" where
  "record_intvar intvar_type value state =
     state\<lparr>es_pending_intvars := es_pending_intvars state @ [(intvar_type, value)]\<rparr>"

definition record_uservar :: "string \<Rightarrow> structured_event_state \<Rightarrow> structured_event_state" where
  "record_uservar name state = state\<lparr>es_pending_uservars := es_pending_uservars state @ [name]\<rparr>"

definition clear_query_context :: "structured_event_state \<Rightarrow> structured_event_state" where
  "clear_query_context state = state\<lparr>es_pending_intvars := [], es_pending_uservars := []\<rparr>"

section \<open>The target and the handler's world\<close>

record 'w target_executor =
  tx_execute :: "sql_statement \<Rightarrow> ('w, target_execute_error, unit) op"
  tx_execute_row_change :: "target_row_change \<Rightarrow> ('w, target_execute_error, unit) op"
  tx_begin :: "('w, target_execute_error, unit) op"
  tx_load_checkpoint :: "string \<Rightarrow> string \<Rightarrow> ('w, target_execute_error, checkpoint option) op"
  tx_save_checkpoint :: "string \<Rightarrow> string \<Rightarrow> checkpoint \<Rightarrow> ('w, target_execute_error, unit) op"
  tx_commit :: "('w, target_execute_error, unit) op"
  tx_rollback :: "('w, target_execute_error, unit) op"

record resolved_table_schema =
  rs_columns :: "string list"
  rs_primary_key :: "string list"
  rs_generated_columns :: "string list"
  rs_signed_columns :: "string list"
  rs_enum_columns :: "(string \<times> string list) list"
  rs_set_columns :: "(string \<times> string list) list"

record 'w schema_resolver =
  sr_resolve :: "string \<Rightarrow> string \<Rightarrow> nat \<Rightarrow> ('w, apply_binlog_error, resolved_table_schema) op"
  sr_invalidate :: "string \<Rightarrow> 'w \<Rightarrow> 'w"

text \<open>The row applier keeps the registry of table maps; the group of source transactions open on the
  target is \<open>TargetTransaction\<close>.\<close>

record target_transaction =
  tt_open :: bool
  tt_source_transactions :: nat
  tt_opened_at :: "nat option"
  tt_pending_file_checkpoint :: "checkpoint option"
  tt_pending_transaction_checkpoint :: "checkpoint option"

record stream_context =
  sx_state :: structured_event_state
  sx_registry :: table_map_registry
  sx_transaction :: target_transaction
  sx_current_file :: string
  sx_source_row_transaction_open :: bool

type_synonym ('w, 'a) stream_op = "(stream_context \<times> 'w, apply_binlog_error, 'a) op"

definition on_world :: "('w, apply_binlog_error, 'a) op \<Rightarrow> ('w, 'a) stream_op" where
  "on_world m s = (case m (snd s) of (r, w') \<Rightarrow> (r, (fst s, w')))"

definition on_target :: "('w, target_execute_error, 'a) op \<Rightarrow> ('w, 'a) stream_op" where
  "on_target m = on_world (map_err_op (TargetError \<circ> ExecuteFailure) m)"

definition get_context :: "('w, stream_context) stream_op" where
  "get_context s = (Inr (fst s), s)"

definition modify_context :: "(stream_context \<Rightarrow> stream_context) \<Rightarrow> ('w, unit) stream_op" where
  "modify_context f s = (Inr (), (f (fst s), snd s))"

definition modify_state :: "(structured_event_state \<Rightarrow> structured_event_state) \<Rightarrow> ('w, unit) stream_op" where
  "modify_state f = modify_context (\<lambda>c. c\<lparr>sx_state := f (sx_state c)\<rparr>)"

definition mapping_fault :: "mapping_error fault \<Rightarrow> apply_binlog_error" where
  "mapping_fault e = (case e of Fail m \<Rightarrow> MappingFailed m | Panic message \<Rightarrow> Panicked message)"

section \<open>Schemas of table maps\<close>

definition mysql_column_type_enum :: u8 where "mysql_column_type_enum = 247"
definition mysql_column_type_set :: u8 where "mysql_column_type_set = 248"
definition mysql_column_type_string :: u8 where "mysql_column_type_string = 254"

definition is_enum_column :: "u8 \<Rightarrow> u16 \<Rightarrow> bool" where
  "is_enum_column column_type metadata \<longleftrightarrow>
     column_type = mysql_column_type_enum
     \<or> column_type = mysql_column_type_string \<and> drop_bit 8 metadata = ucast mysql_column_type_enum"

definition is_set_column :: "u8 \<Rightarrow> u16 \<Rightarrow> bool" where
  "is_set_column column_type metadata \<longleftrightarrow>
     column_type = mysql_column_type_set
     \<or> column_type = mysql_column_type_string \<and> drop_bit 8 metadata = ucast mysql_column_type_set"

definition matching_column_indexes :: "(u8 \<Rightarrow> u16 \<Rightarrow> bool) \<Rightarrow> cdc_table_map \<Rightarrow> nat list" where
  "matching_column_indexes p table_map =
     map fst (filter (\<lambda>(index, column_type, metadata). p column_type metadata)
       (enumerate 0 (zip (ct_column_types table_map) (ct_column_metadata table_map))))"

definition enum_column_indexes :: "cdc_table_map \<Rightarrow> nat list" where
  "enum_column_indexes table_map = matching_column_indexes is_enum_column table_map"

definition column_at :: "mapping_error \<Rightarrow> string list \<Rightarrow> nat \<Rightarrow> mapping_error + string" where
  "column_at e columns index = ok_or e (if index < length columns then Some (columns ! index) else None)"

definition enum_columns_from_metadata ::
  "cdc_table_map \<Rightarrow> table_metadata \<Rightarrow> string list \<Rightarrow> mapping_error + (string \<times> string list) list"
where
  "enum_columns_from_metadata table_map metadata columns =
     (case tm_enum_string_values metadata of
        None \<Rightarrow> Inr []
      | Some enum_value_sets \<Rightarrow>
          (let indexes = enum_column_indexes table_map in
           if length indexes \<noteq> length enum_value_sets
           then Inl (EnumMetadataMismatch (length indexes) (length enum_value_sets))
           else bind_res (collect_res (\<lambda>(column_index, values).
                  bind_res (column_at (EnumColumnIndex column_index) columns column_index) (\<lambda>column. Inr (column, values)))
                  (zip indexes enum_value_sets)) (\<lambda>entries. Inr (btm_collect entries))))"

definition set_columns_from_metadata ::
  "cdc_table_map \<Rightarrow> table_metadata \<Rightarrow> string list \<Rightarrow> mapping_error + (string \<times> string list) list"
where
  "set_columns_from_metadata table_map metadata columns =
     (case tm_set_string_values metadata of
        None \<Rightarrow> Inr []
      | Some set_value_sets \<Rightarrow>
          (let indexes = matching_column_indexes is_set_column table_map in
           if length indexes \<noteq> length set_value_sets
           then Inl (SetMetadataMismatch (length indexes) (length set_value_sets))
           else bind_res (collect_res (\<lambda>(column_index, values).
                  bind_res (column_at (SetColumnIndex column_index) columns column_index) (\<lambda>column. Inr (column, values)))
                  (zip indexes set_value_sets)) (\<lambda>entries. Inr (btm_collect entries))))"

definition primary_key_column :: "u32 \<Rightarrow> string list \<Rightarrow> mapping_error + string" where
  "primary_key_column index columns = column_at (PrimaryKeyColumnIndex index) columns (unat index)"

definition primary_key_from_metadata :: "table_metadata \<Rightarrow> string list \<Rightarrow> mapping_error + string list option" where
  "primary_key_from_metadata metadata columns =
     (case tm_simple_primary_keys metadata of
        None \<Rightarrow> Inr None
      | Some indexes \<Rightarrow>
          bind_res (collect_res (\<lambda>index. primary_key_column index columns) indexes) (\<lambda>names. Inr (Some names)))"

definition is_signed_integer_column :: "string \<Rightarrow> string \<Rightarrow> bool" where
  "is_signed_integer_column data_type column_type \<longleftrightarrow>
     data_type \<in> {''tinyint'', ''smallint'', ''mediumint'', ''int'', ''bigint''}
     \<and> \<not> str_contains ''unsigned'' (lower_text column_type)"

definition generated_column_names :: "table_inventory \<Rightarrow> string list" where
  "generated_column_names table = map ci_name (filter (\<lambda>column. ci_generated column \<noteq> None) (ti_columns table))"

definition signed_column_names :: "table_inventory \<Rightarrow> string list" where
  "signed_column_names table =
     map ci_name (filter (\<lambda>column. is_signed_integer_column (ci_data_type column) (ci_column_type column)) (ti_columns table))"

definition enum_column_values :: "table_inventory \<Rightarrow> (string \<times> string list) list" where
  "enum_column_values table =
     btm_collect (List.map_filter (\<lambda>column.
       map_option (\<lambda>values. (ci_name column, values)) (parse_enum_column_type (ci_column_type column))) (ti_columns table))"

definition set_column_values :: "table_inventory \<Rightarrow> (string \<times> string list) list" where
  "set_column_values table =
     btm_collect (List.map_filter (\<lambda>column.
       map_option (\<lambda>values. (ci_name column, values)) (parse_set_column_type (ci_column_type column))) (ti_columns table))"

definition build_inventory_table_schema :: "table_inventory \<Rightarrow> resolved_table_schema" where
  "build_inventory_table_schema table =
     \<lparr>rs_columns = map ci_name (ti_columns table), rs_primary_key = ti_primary_key table,
      rs_generated_columns = generated_column_names table, rs_signed_columns = signed_column_names table,
      rs_enum_columns = enum_column_values table, rs_set_columns = set_column_values table\<rparr>"

text \<open>The resolver that reads the target inventory once per schema and keeps it until it is invalidated;
  \<open>read\<close> is \<open>build_inventory\<close> on the target connection, and the world holds the cache.\<close>

type_synonym inventory_cache = "(string \<times> schema_inventory) list"

definition target_schema_name :: "string option \<Rightarrow> string \<Rightarrow> string \<Rightarrow> string" where
  "target_schema_name source_database target_database schema =
     (if source_database = Some schema then target_database else schema)"

definition ensure_schema_inventory ::
  "(string \<Rightarrow> ('w, string, schema_inventory) op) \<Rightarrow> string option \<Rightarrow> string \<Rightarrow> string
    \<Rightarrow> (inventory_cache \<times> 'w, apply_binlog_error, unit) op"
where
  "ensure_schema_inventory read source_database target_database schema s =
     (if map_of (fst s) schema \<noteq> None then (Inr (), s)
      else
        (let target_schema = target_schema_name source_database target_database schema in
         case read target_schema (snd s) of
           (Inl error, w') \<Rightarrow> (Inl (MappingFailed (SchemaUnreadable target_schema error)), (fst s, w'))
         | (Inr inventory, w') \<Rightarrow> (Inr (), (btm_insert schema inventory (fst s), w'))))"

definition resolve_inventory_table :: "inventory_cache \<Rightarrow> string \<Rightarrow> string \<Rightarrow> mapping_error + resolved_table_schema" where
  "resolve_inventory_table cache schema table =
     bind_res (ok_or (SchemaNotCached schema) (map_of cache schema)) (\<lambda>inventory.
     bind_res (ok_or (TableNotFound schema table) (find (\<lambda>candidate. ti_name candidate = table) (si_tables inventory)))
       (\<lambda>found. Inr (build_inventory_table_schema found)))"

definition inventory_resolver ::
  "(string \<Rightarrow> ('w, string, schema_inventory) op) \<Rightarrow> string option \<Rightarrow> string \<Rightarrow> (inventory_cache \<times> 'w) schema_resolver"
where
  "inventory_resolver read source_database target_database =
     \<lparr>sr_resolve = (\<lambda>schema table column_count.
        bind_op (ensure_schema_inventory read source_database target_database schema) (\<lambda>_ s.
          (map_err MappingFailed (resolve_inventory_table (fst s) schema table), s))),
      sr_invalidate = (\<lambda>schema s. (btm_remove schema (fst s), snd s))\<rparr>"

definition validate_column_count :: "string \<Rightarrow> string \<Rightarrow> nat \<Rightarrow> string list \<Rightarrow> mapping_error + unit" where
  "validate_column_count schema table expected columns =
     (if length columns = expected then Inr () else Inl (ColumnCountMismatch schema table (length columns) expected))"

definition column_count_matches :: "nat \<Rightarrow> string list \<Rightarrow> bool" where
  "column_count_matches expected columns \<longleftrightarrow> length columns = expected"

definition validated_metadata_columns ::
  "cdc_table_map \<Rightarrow> table_metadata \<Rightarrow> nat \<Rightarrow> mapping_error + string list option"
where
  "validated_metadata_columns table_map metadata column_count =
     (case tm_column_names metadata of
        None \<Rightarrow> Inr None
      | Some columns \<Rightarrow>
          bind_res (validate_column_count (ct_database_name table_map) (ct_table_name table_map) column_count columns)
            (\<lambda>_. Inr (Some columns)))"

definition fallback_table_schema ::
  "cdc_table_map \<Rightarrow> 'w schema_resolver \<Rightarrow> nat \<Rightarrow> ('w, apply_binlog_error, resolved_table_schema) op"
where
  "fallback_table_schema table_map resolver column_count =
     sr_resolve resolver (ct_database_name table_map) (ct_table_name table_map) column_count"

definition fallback_schema_for_metadata ::
  "table_metadata \<Rightarrow> ('w, apply_binlog_error, resolved_table_schema) op
    \<Rightarrow> ('w, apply_binlog_error, resolved_table_schema option) op"
where
  "fallback_schema_for_metadata metadata fallback w =
     (case fallback w of
        (Inr schema, w') \<Rightarrow> (Inr (Some schema), w')
      | (Inl error, w') \<Rightarrow> (if tm_simple_primary_keys metadata \<noteq> None then (Inr None, w') else (Inl error, w')))"

definition metadata_primary_key ::
  "table_metadata \<Rightarrow> string list \<Rightarrow> resolved_table_schema option \<Rightarrow> apply_binlog_error + string list"
where
  "metadata_primary_key metadata columns fallback =
     bind_res (map_err MappingFailed (primary_key_from_metadata metadata columns)) (\<lambda>primary_key.
       case primary_key of
         Some names \<Rightarrow> Inr names
       | None \<Rightarrow>
           ok_or (Panicked ''fallback schema exists when metadata lacks primary key'') (map_option rs_primary_key fallback))"

definition or_fallback ::
  "(string \<times> string list) list \<Rightarrow> (string \<times> string list) list option \<Rightarrow> (string \<times> string list) list"
where
  "or_fallback metadata_values fallback =
     (if metadata_values = [] then (case fallback of None \<Rightarrow> [] | Some values \<Rightarrow> values) else metadata_values)"

definition metadata_enum_columns ::
  "cdc_table_map \<Rightarrow> table_metadata \<Rightarrow> string list \<Rightarrow> resolved_table_schema option
    \<Rightarrow> mapping_error + (string \<times> string list) list"
where
  "metadata_enum_columns table_map metadata columns fallback =
     bind_res (enum_columns_from_metadata table_map metadata columns) (\<lambda>values.
       Inr (or_fallback values (map_option rs_enum_columns fallback)))"

definition metadata_set_columns ::
  "cdc_table_map \<Rightarrow> table_metadata \<Rightarrow> string list \<Rightarrow> resolved_table_schema option
    \<Rightarrow> mapping_error + (string \<times> string list) list"
where
  "metadata_set_columns table_map metadata columns fallback =
     bind_res (set_columns_from_metadata table_map metadata columns) (\<lambda>values.
       Inr (or_fallback values (map_option rs_set_columns fallback)))"

definition resolved_schema ::
  "string list \<Rightarrow> string list \<Rightarrow> (string \<times> string list) list \<Rightarrow> (string \<times> string list) list
    \<Rightarrow> resolved_table_schema option \<Rightarrow> resolved_table_schema"
where
  "resolved_schema columns primary_key enum_columns set_columns fallback =
     \<lparr>rs_columns = columns, rs_primary_key = primary_key,
      rs_generated_columns = (case fallback of None \<Rightarrow> [] | Some schema \<Rightarrow> rs_generated_columns schema),
      rs_signed_columns = (case fallback of None \<Rightarrow> [] | Some schema \<Rightarrow> rs_signed_columns schema),
      rs_enum_columns = enum_columns, rs_set_columns = set_columns\<rparr>"

definition resolve_table_schema ::
  "cdc_table_map \<Rightarrow> 'w schema_resolver \<Rightarrow> ('w, apply_binlog_error, resolved_table_schema) op"
where
  "resolve_table_schema table_map resolver =
     (let column_count = length (ct_column_types table_map);
          fallback = fallback_table_schema table_map resolver column_count in
      case ct_table_metadata table_map of
        None \<Rightarrow> fallback
      | Some metadata \<Rightarrow>
          bind_op (lift_op (map_err MappingFailed (validated_metadata_columns table_map metadata column_count))) (\<lambda>names.
            case names of
              None \<Rightarrow> fallback
            | Some columns \<Rightarrow>
                bind_op (fallback_schema_for_metadata metadata fallback) (\<lambda>fallback_schema.
                bind_op (lift_op (metadata_primary_key metadata columns fallback_schema)) (\<lambda>primary_key.
                bind_op (lift_op (map_err MappingFailed (metadata_enum_columns table_map metadata columns fallback_schema)))
                  (\<lambda>enum_columns.
                bind_op (lift_op (map_err MappingFailed (metadata_set_columns table_map metadata columns fallback_schema)))
                  (\<lambda>set_columns.
                    ret_op (resolved_schema columns primary_key enum_columns set_columns fallback_schema)))))))"

definition row_table_of :: "cdc_table_map \<Rightarrow> resolved_table_schema \<Rightarrow> row_table_map" where
  "row_table_of table_map schema =
     \<lparr>rt_table_id = ct_table_id table_map, rt_schema = ct_database_name table_map, rt_table = ct_table_name table_map,
      rt_columns = rs_columns schema, rt_primary_key = rs_primary_key schema,
      rt_generated_columns = rs_generated_columns schema, rt_signed_columns = rs_signed_columns schema,
      rt_enum_columns = rs_enum_columns schema, rt_set_columns = rs_set_columns schema\<rparr>"

definition map_table_map_event ::
  "binlog_coordinate \<Rightarrow> cdc_table_map \<Rightarrow> 'w schema_resolver \<Rightarrow> ('w, apply_binlog_error, table_map_event option) op"
where
  "map_table_map_event coordinate table_map resolver =
     bind_op (resolve_table_schema table_map resolver) (\<lambda>schema.
       if \<not> column_count_matches (length (ct_column_types table_map)) (rs_columns schema) then ret_op None
       else ret_op (Some \<lparr>tm_coordinate = coordinate, tm_table = row_table_of table_map schema\<rparr>))"

section \<open>Row events\<close>

definition map_row_data :: "row_cells \<Rightarrow> row_table_map \<Rightarrow> (mapping_error, row_image) res" where
  "map_row_data row table =
     (if length row \<noteq> length (rt_columns table)
      then Inl (Fail (RowWidthMismatch (length row) (length (rt_columns table))))
      else bind_res (collect_res (\<lambda>(column, value).
             bind_res (mysql_value_to_target_value value (column \<in> set (rt_signed_columns table))
                 (map_of (rt_enum_columns table) column))
               (\<lambda>target_value. Inr (column, target_value)))
             (zip (rt_columns table) row)) (\<lambda>cells. Inr (btm_collect cells)))"

definition map_row_data_list :: "row_cells list \<Rightarrow> row_table_map \<Rightarrow> (mapping_error, row_image list) res" where
  "map_row_data_list rows table = collect_res (\<lambda>row. map_row_data row table) rows"

definition map_update_row_data :: "row_cells \<times> row_cells \<Rightarrow> row_table_map \<Rightarrow> (mapping_error, row_update) res" where
  "map_update_row_data row table =
     bind_res (map_row_data (fst row) table) (\<lambda>before.
     bind_res (map_row_data (snd row) table) (\<lambda>after. Inr \<lparr>ru_before = before, ru_after = after\<rparr>))"

definition row_event_table_map ::
  "table_map_registry \<Rightarrow> u64 \<Rightarrow> binlog_coordinate \<Rightarrow> mapping_error + row_table_map"
where
  "row_event_table_map registry table_id coordinate =
     ok_or (MissingTableMapFor table_id (bc_file coordinate) (bc_position coordinate)) (registry_table registry table_id)"

definition require_full_row_image :: "bool list \<Rightarrow> row_table_map \<Rightarrow> string \<Rightarrow> mapping_error + unit" where
  "require_full_row_image columns_present table operation =
     (if length columns_present = length (rt_columns table)
         \<and> (\<forall>(present, column) \<in> set (zip columns_present (rt_columns table)).
              present \<or> column \<in> set (rt_generated_columns table))
      then Inr () else Inl (NoFullRowImage operation))"

definition apply_table_map_event ::
  "'w schema_resolver \<Rightarrow> binlog_coordinate \<Rightarrow> cdc_table_map \<Rightarrow> ('w, event_policy) stream_op"
where
  "apply_table_map_event resolver coordinate table_map =
     bind_op get_context (\<lambda>context.
       if \<not> should_apply_schema (sx_state context) (ct_database_name table_map) then
         bind_op (modify_state (ignore_table_id (ct_table_id table_map))) (\<lambda>_. ret_op Ignore)
       else
         bind_op (modify_state (apply_table_id (ct_table_id table_map))) (\<lambda>_.
         bind_op (on_world (map_table_map_event coordinate table_map resolver)) (\<lambda>mapped.
           case mapped of
             None \<Rightarrow> bind_op (modify_state (ignore_table_id (ct_table_id table_map))) (\<lambda>_. ret_op Ignore)
           | Some event \<Rightarrow>
               bind_op (modify_context (\<lambda>c. c\<lparr>sx_registry := registry_apply_table_map event (sx_registry c)\<rparr>))
                 (\<lambda>_. ret_op ApplyTableMap))))"

definition on_rows :: "('w, row_apply_error, unit) op \<Rightarrow> ('w, event_policy) stream_op" where
  "on_rows m = bind_op (on_world (map_err_op (TargetError \<circ> RowFailure) m)) (\<lambda>_. ret_op ApplyRows)"

definition apply_write_rows_event ::
  "'w target_executor \<Rightarrow> binlog_coordinate \<Rightarrow> rows_event \<Rightarrow> ('w, event_policy) stream_op"
where
  "apply_write_rows_event executor coordinate rows =
     bind_op get_context (\<lambda>context.
       if is_ignored_table_id (sx_state context) (re_table_id rows) then ret_op Ignore
       else
         bind_op (lift_op (map_err MappingFailed (row_event_table_map (sx_registry context) (re_table_id rows) coordinate)))
           (\<lambda>table.
         bind_op (lift_op (map_err MappingFailed (require_full_row_image (re_columns_present rows) table ''write''))) (\<lambda>_.
         bind_op (lift_op (map_err mapping_fault (map_row_data_list (re_rows rows) table))) (\<lambda>images.
           on_rows (apply_write_rows (tx_execute_row_change executor) (sx_registry context)
             \<lparr>wr_coordinate = coordinate, wr_table_id = re_table_id rows, wr_rows = images\<rparr>)))))"

definition apply_update_rows_event ::
  "'w target_executor \<Rightarrow> binlog_coordinate \<Rightarrow> update_event \<Rightarrow> ('w, event_policy) stream_op"
where
  "apply_update_rows_event executor coordinate rows =
     bind_op get_context (\<lambda>context.
       if is_ignored_table_id (sx_state context) (ue_table_id rows) then ret_op Ignore
       else
         bind_op (lift_op (map_err MappingFailed (row_event_table_map (sx_registry context) (ue_table_id rows) coordinate)))
           (\<lambda>table.
         bind_op (lift_op (map_err MappingFailed
           (require_full_row_image (ue_columns_before_update rows) table ''update before''))) (\<lambda>_.
         bind_op (lift_op (map_err MappingFailed
           (require_full_row_image (ue_columns_after_update rows) table ''update after''))) (\<lambda>_.
         bind_op (lift_op (map_err mapping_fault (collect_res (\<lambda>row. map_update_row_data row table) (ue_rows rows))))
           (\<lambda>updates.
           on_rows (apply_update_rows (tx_execute_row_change executor) (sx_registry context)
             \<lparr>ur_coordinate = coordinate, ur_table_id = ue_table_id rows, ur_rows = updates\<rparr>))))))"

definition apply_delete_rows_event ::
  "'w target_executor \<Rightarrow> binlog_coordinate \<Rightarrow> rows_event \<Rightarrow> ('w, event_policy) stream_op"
where
  "apply_delete_rows_event executor coordinate rows =
     bind_op get_context (\<lambda>context.
       if is_ignored_table_id (sx_state context) (re_table_id rows) then ret_op Ignore
       else
         bind_op (lift_op (map_err MappingFailed (row_event_table_map (sx_registry context) (re_table_id rows) coordinate)))
           (\<lambda>table.
         bind_op (lift_op (map_err MappingFailed (require_full_row_image (re_columns_present rows) table ''delete''))) (\<lambda>_.
         bind_op (lift_op (map_err mapping_fault (map_row_data_list (re_rows rows) table))) (\<lambda>images.
           on_rows (apply_delete_rows (tx_execute_row_change executor) (sx_registry context)
             \<lparr>dr_coordinate = coordinate, dr_table_id = re_table_id rows, dr_rows = images\<rparr>)))))"

section \<open>Query events\<close>

definition query_prefix :: "string \<Rightarrow> chars" where
  "query_prefix sql = take 120 (utf8_chars sql)"

definition is_transaction_control_query :: "string \<Rightarrow> bool" where
  "is_transaction_control_query sql \<longleftrightarrow>
     to_ascii_uppercase (trim_end_matches (\<lambda>c. c = byte (CHR '';'')) (trim (utf8_chars sql)))
       \<in> {lit ''BEGIN'', lit ''COMMIT'', lit ''ROLLBACK''}"

definition query_references_source_schema :: "structured_event_state \<Rightarrow> string \<Rightarrow> bool" where
  "query_references_source_schema state sql =
     (case es_source_database state of
        None \<Rightarrow> False
      | Some schema \<Rightarrow> query_references_schema (utf8_chars sql) (utf8_chars schema))"

definition reject_ambiguous_query_database :: "string \<Rightarrow> apply_binlog_error + unit" where
  "reject_ambiguous_query_database sql =
     (if query_contains_qualified_identifier (utf8_chars sql) then Inl (MappingFailed (QualifiedQuery (query_prefix sql)))
      else Inr ())"

definition query_event_precheck :: "query_event \<Rightarrow> ('w, event_policy option) stream_op" where
  "query_event_precheck query =
     bind_op get_context (\<lambda>context.
       let state = sx_state context;
           statement_dml = is_data_changing_statement (utf8_chars (qe_sql_statement query));
           may_target_source_schema = should_apply_schema state (qe_database_name query)
             \<or> qe_database_name query = []
             \<or> query_references_source_schema state (qe_sql_statement query) in
       if statement_dml \<and> may_target_source_schema then
         bind_op (modify_state clear_query_context) (\<lambda>_.
           fail_op (MappingFailed (DmlQueryEvent (query_prefix (qe_sql_statement query)))))
       else if \<not> should_apply_schema state (qe_database_name query)
           \<or> is_transaction_control_query (qe_sql_statement query) then
         bind_op (modify_state clear_query_context) (\<lambda>_. ret_op (Some Ignore))
       else ret_op None)"

definition apply_intvar :: "'w target_executor \<Rightarrow> u8 \<times> u64 \<Rightarrow> ('w, unit) stream_op" where
  "apply_intvar executor intvar =
     (if fst intvar \<noteq> 2 then fail_op (MappingFailed (UnsupportedIntVar (fst intvar)))
      else on_target (tx_execute executor \<lparr>ss_sql = ''SET INSERT_ID = ?'', ss_params = [SqlUInt (snd intvar)]\<rparr>))"

fun apply_intvars :: "'w target_executor \<Rightarrow> (u8 \<times> u64) list \<Rightarrow> ('w, unit) stream_op" where
  "apply_intvars executor [] = ret_op ()"
| "apply_intvars executor (intvar # intvars) =
     bind_op (apply_intvar executor intvar) (\<lambda>_. apply_intvars executor intvars)"

definition apply_query_context :: "'w target_executor \<Rightarrow> ('w, unit) stream_op" where
  "apply_query_context executor =
     bind_op get_context (\<lambda>context.
       if es_pending_uservars (sx_state context) \<noteq> [] then
         fail_op (MappingFailed (QueryWithUserVariables (es_pending_uservars (sx_state context))))
       else apply_intvars executor (es_pending_intvars (sx_state context)))"

definition apply_query_statement ::
  "(int \<Rightarrow> chars) \<Rightarrow> 'w target_executor \<Rightarrow> binlog_coordinate \<Rightarrow> query_event \<Rightarrow> ('w, apply_binlog_error, event_policy) op"
where
  "apply_query_statement u executor coordinate query w =
     (let event = \<lparr>se_coordinate = coordinate, se_resume_position = bc_position coordinate,
                   se_default_database = Some (qe_database_name query), se_sql = qe_sql_statement query\<rparr> in
      case apply_statement u (recording_env (tx_execute executor)) event (w, []) of
        (Inr (Quarantined _), (w', recorded)) \<Rightarrow> (Inl (QuarantinedStatements recorded), w')
      | (Inr _, (w', _)) \<Rightarrow> (Inr CommitTransaction, w')
      | (Inl error, (w', _)) \<Rightarrow> (Inl (StatementFailed error), w'))"

definition apply_query_event ::
  "(int \<Rightarrow> chars) \<Rightarrow> 'w target_executor \<Rightarrow> binlog_coordinate \<Rightarrow> query_event \<Rightarrow> ('w, event_policy) stream_op"
where
  "apply_query_event u executor coordinate query =
     bind_op (query_event_precheck query) (\<lambda>decided.
       case decided of
         Some policy \<Rightarrow> ret_op policy
       | None \<Rightarrow>
           bind_op (lift_op (reject_ambiguous_query_database (qe_sql_statement query))) (\<lambda>_.
           bind_op (apply_query_context executor) (\<lambda>_ s.
             case on_world (apply_query_statement u executor coordinate query) s of
               (r, s') \<Rightarrow> (r, snd (modify_state clear_query_context s')))))"

section \<open>Structured events\<close>

definition resume_coordinate :: "string \<Rightarrow> event_header \<Rightarrow> binlog_event \<Rightarrow> binlog_coordinate option" where
  "resume_coordinate current_file header event =
     (let here = (if 0 < eh_next_event_position header
                  then Some \<lparr>bc_file = current_file, bc_position = ucast (eh_next_event_position header)\<rparr> else None) in
      case event of
        RotateEvent r \<Rightarrow> Some \<lparr>bc_file = ro_binlog_filename r, bc_position = ro_binlog_position r\<rparr>
      | XidEvent _ \<Rightarrow> here
      | QueryEvent _ \<Rightarrow> here
      | _ \<Rightarrow> None)"

definition is_row_event :: "binlog_event \<Rightarrow> bool" where
  "is_row_event event =
     (case event of WriteRowsEvent _ \<Rightarrow> True | UpdateRowsEvent _ \<Rightarrow> True | DeleteRowsEvent _ \<Rightarrow> True | _ \<Rightarrow> False)"

definition event_coordinate :: "string \<Rightarrow> event_header \<Rightarrow> binlog_event \<Rightarrow> u64 option \<Rightarrow> binlog_coordinate" where
  "event_coordinate current_file header event current_event_position =
     (let otherwise = (case resume_coordinate current_file header event of
            Some coordinate \<Rightarrow> coordinate
          | None \<Rightarrow> \<lparr>bc_file = current_file, bc_position = ucast (eh_next_event_position header)\<rparr>) in
      if is_row_event event then
        (case current_event_position of
           Some position \<Rightarrow> \<lparr>bc_file = current_file, bc_position = position\<rparr>
         | None \<Rightarrow>
             (if eh_event_length header < eh_next_event_position header
              then \<lparr>bc_file = current_file, bc_position = ucast (eh_next_event_position header - eh_event_length header)\<rparr>
              else otherwise))
      else otherwise)"

definition apply_structured_event ::
  "(int \<Rightarrow> chars) \<Rightarrow> 'w target_executor \<Rightarrow> 'w schema_resolver \<Rightarrow> binlog_coordinate \<Rightarrow> binlog_event
    \<Rightarrow> ('w, event_policy) stream_op"
where
  "apply_structured_event u executor resolver coordinate event =
     (case event of
        TableMapEvent table_map \<Rightarrow> apply_table_map_event resolver coordinate table_map
      | WriteRowsEvent rows \<Rightarrow> apply_write_rows_event executor coordinate rows
      | UpdateRowsEvent rows \<Rightarrow> apply_update_rows_event executor coordinate rows
      | DeleteRowsEvent rows \<Rightarrow> apply_delete_rows_event executor coordinate rows
      | XidEvent _ \<Rightarrow> ret_op CommitTransaction
      | IntVarEvent intvar_type value \<Rightarrow>
          bind_op (modify_state (record_intvar intvar_type value)) (\<lambda>_. ret_op Ignore)
      | UserVarEvent name \<Rightarrow> bind_op (modify_state (record_uservar name)) (\<lambda>_. ret_op Ignore)
      | QueryEvent query \<Rightarrow>
          bind_op (apply_query_event u executor coordinate query) (\<lambda>policy s.
            if policy = CommitTransaction \<and> is_schema_changing_statement (utf8_chars (qe_sql_statement query))
            then (Inr policy, (fst s, sr_invalidate resolver (qe_database_name query) (snd s)))
            else (Inr policy, s))
      | RowsQueryEvent \<Rightarrow> ret_op IgnoreAnnotation
      | _ \<Rightarrow> ret_op Ignore)"

definition handle_structured_event ::
  "(int \<Rightarrow> chars) \<Rightarrow> 'w target_executor \<Rightarrow> 'w schema_resolver \<Rightarrow> event_header \<Rightarrow> binlog_event
    \<Rightarrow> ('w, structured_event_outcome) stream_op"
where
  "handle_structured_event u executor resolver header event =
     bind_op get_context (\<lambda>context.
     bind_op (apply_structured_event u executor resolver
       (event_coordinate (sx_current_file context) header event (es_current_event_position (sx_state context))) event)
       (\<lambda>policy.
          ret_op \<lparr>eo_policy = policy,
                  eo_resume_coordinate = resume_coordinate (sx_current_file context) header event\<rparr>))"

section \<open>Bounded stop\<close>

datatype stop_decision = Dispatch | DispatchAndStop

definition u64_text :: "u64 \<Rightarrow> string" where
  "u64_text value = nat_str (unat value)"

definition stop_position_decision ::
  "u64 option \<Rightarrow> event_header \<Rightarrow> bool \<Rightarrow> apply_binlog_error + stop_decision"
where
  "stop_position_decision stop_position header source_row_transaction_open =
     (case stop_position of
        None \<Rightarrow> Inr Dispatch
      | Some stop_position \<Rightarrow>
          (let event_end = ucast (eh_next_event_position header) :: u64;
               event_length = ucast (eh_event_length header) :: u64;
               event_start = (if event_end < event_length then 0 else event_end - event_length) in
           if event_end = 0 \<or> event_end < stop_position then Inr Dispatch
           else if event_end = stop_position then Inr DispatchAndStop
           else if source_row_transaction_open then
             Inl (SourceCommand (''stop position '' @ u64_text stop_position
               @ '' falls inside an open transaction before event ending at '' @ u64_text event_end))
           else if event_start < stop_position then
             Inl (SourceCommand (''stop position '' @ u64_text stop_position @ '' falls inside event ''
               @ u64_text event_start @ ''..'' @ u64_text event_end))
           else
             Inl (SourceCommand (''stop position '' @ u64_text stop_position
               @ '' cannot be reached before event ending at '' @ u64_text event_end))))"

definition bounded_stop_completion_error :: "bool \<Rightarrow> apply_binlog_error + unit" where
  "bounded_stop_completion_error source_row_transaction_open =
     (if source_row_transaction_open then
        Inl (SourceCommand ''bounded stop position falls inside an open transaction; refusing partial transaction'')
      else Inr ())"

definition bounded_stop_not_reached_error :: "u64 \<Rightarrow> apply_binlog_error" where
  "bounded_stop_not_reached_error stop_position =
     SourceCommand (''bounded stream ended before reaching stop position '' @ u64_text stop_position)"

definition update_source_row_transaction_state :: "bool \<Rightarrow> binlog_event \<Rightarrow> bool" where
  "update_source_row_transaction_state is_open event =
     (if is_row_event event then True else (case event of XidEvent _ \<Rightarrow> False | _ \<Rightarrow> is_open))"

definition stream_ended_error :: apply_binlog_error where
  "stream_ended_error = SourceCommand ''mysql_cdc binlog stream ended at EOF''"

end
