(* ===== verification/Stream_Transaction.thy ===== *)
theory Stream_Transaction
  imports Stream_Event
begin

text \<open>
  Grouping of source transactions on the target and the stream of events
  (\<open>src/src/live/structured_stream/transaction.rs\<close>, \<open>init.rs\<close>, \<open>init/completion.rs\<close>, and
  the checkpoint guards at the end of \<open>ddl.rs\<close>). The events the reader thread delivers are a list;
  connecting, the lease and the schema-change barrier of a new connection are the parameter
  \<open>initialize\<close>, and the handling of a schema change is the parameter \<open>ddl\<close>, called on query events.
  Time is read from the world in milliseconds.
\<close>

section \<open>The group of source transactions\<close>

record group_config =
  gc_size :: nat
  gc_timeout :: nat

definition group_from_apply_config :: "apply_binlog_config \<Rightarrow> group_config" where
  "group_from_apply_config config =
     \<lparr>gc_size = max (ab_group_size config) 1, gc_timeout = unat (ab_group_timeout_ms config)\<rparr>"

record 'w stream_env =
  en_uppercase :: "int \<Rightarrow> chars"
  en_executor :: "'w target_executor"
  en_resolver :: "'w schema_resolver"
  en_clock :: "'w \<Rightarrow> nat"
  en_store :: "'w stream_store option"
  en_table :: "string option"
  en_name :: "string option"
  en_group :: group_config
  en_ddl :: "event_header \<Rightarrow> query_event \<Rightarrow> ('w, structured_event_outcome option) stream_op"

definition closed_transaction :: target_transaction where
  "closed_transaction =
     \<lparr>tt_open = False, tt_source_transactions = 0, tt_opened_at = None, tt_pending_file_checkpoint = None,
      tt_pending_transaction_checkpoint = None\<rparr>"

definition modify_transaction :: "(target_transaction \<Rightarrow> target_transaction) \<Rightarrow> ('w, unit) stream_op" where
  "modify_transaction f = modify_context (\<lambda>c. c\<lparr>sx_transaction := f (sx_transaction c)\<rparr>)"

definition begin_if_needed :: "'w stream_env \<Rightarrow> ('w, unit) stream_op" where
  "begin_if_needed env =
     bind_op get_context (\<lambda>context.
       if tt_open (sx_transaction context) then ret_op ()
       else
         bind_op (on_target (tx_begin (en_executor env))) (\<lambda>_ s.
           modify_transaction (\<lambda>t. t\<lparr>tt_open := True, tt_opened_at := Some (en_clock env (snd s))\<rparr>) s))"

definition finish_if_open :: "('w, target_execute_error, unit) op \<Rightarrow> ('w, unit) stream_op" where
  "finish_if_open finish =
     bind_op get_context (\<lambda>context.
       if \<not> tt_open (sx_transaction context) then ret_op ()
       else bind_op (on_target finish) (\<lambda>_. modify_transaction (\<lambda>_. closed_transaction)))"

definition commit_if_open :: "'w stream_env \<Rightarrow> ('w, unit) stream_op" where
  "commit_if_open env = finish_if_open (tx_commit (en_executor env))"

definition rollback_if_open :: "'w stream_env \<Rightarrow> ('w, unit) stream_op" where
  "rollback_if_open env = finish_if_open (tx_rollback (en_executor env))"

definition record_source_transaction :: "target_transaction \<Rightarrow> target_transaction" where
  "record_source_transaction t =
     (if tt_open t then t\<lparr>tt_source_transactions := tt_source_transactions t + 1\<rparr> else t)"

definition has_completed_source_transactions :: "target_transaction \<Rightarrow> bool" where
  "has_completed_source_transactions t \<longleftrightarrow> 0 < tt_source_transactions t"

definition group_timed_out :: "target_transaction \<Rightarrow> group_config \<Rightarrow> nat \<Rightarrow> bool" where
  "group_timed_out t config now \<longleftrightarrow>
     0 < gc_timeout config
     \<and> (case tt_opened_at t of None \<Rightarrow> False | Some opened_at \<Rightarrow> gc_timeout config \<le> now - opened_at)"

definition should_flush :: "target_transaction \<Rightarrow> group_config \<Rightarrow> bool \<Rightarrow> nat \<Rightarrow> bool" where
  "should_flush t config force now \<longleftrightarrow>
     has_completed_source_transactions t
     \<and> (force \<or> gc_size config \<le> 1 \<or> gc_size config \<le> tt_source_transactions t \<or> group_timed_out t config now)"

definition flush_is_due :: "'w stream_env \<Rightarrow> bool \<Rightarrow> ('w, bool) stream_op" where
  "flush_is_due env force s = (Inr (should_flush (sx_transaction (fst s)) (en_group env) force (en_clock env (snd s))), s)"

section \<open>Guards on the stored checkpoint\<close>

definition binlog_coordinate_is_before :: "binlog_coordinate \<Rightarrow> binlog_coordinate \<Rightarrow> bool" where
  "binlog_coordinate_is_before left right \<longleftrightarrow>
     bc_file left < bc_file right \<or> bc_file left = bc_file right \<and> bc_position left < bc_position right"

definition checkpoint_coordinate :: "checkpoint \<Rightarrow> binlog_coordinate" where
  "checkpoint_coordinate c = \<lparr>bc_file = ck_source_file c, bc_position = ck_source_position c\<rparr>"

definition coordinate_text :: "binlog_coordinate \<Rightarrow> string" where
  "coordinate_text c = bc_file c @ '':'' @ u64_text (bc_position c)"

definition ensure_coordinate_advances :: "checkpoint option \<Rightarrow> binlog_coordinate \<Rightarrow> apply_binlog_error + unit" where
  "ensure_coordinate_advances current next =
     (case current of
        None \<Rightarrow> Inr ()
      | Some current \<Rightarrow>
          (if binlog_coordinate_is_before next (checkpoint_coordinate current)
           then Inl (CheckpointError (''refusing checkpoint regression from '' @ coordinate_text (checkpoint_coordinate current)
                  @ '' to '' @ coordinate_text next))
           else Inr ()))"

definition lock_validate_and_save_checkpoint ::
  "'w target_executor \<Rightarrow> string \<Rightarrow> string \<Rightarrow> checkpoint \<Rightarrow> ('w, unit) stream_op"
where
  "lock_validate_and_save_checkpoint executor table checkpoint_name checkpoint =
     bind_op (on_target (tx_load_checkpoint executor table checkpoint_name)) (\<lambda>loaded.
     bind_op (lift_op (ok_or (CheckpointError (''required source-scoped checkpoint `'' @ checkpoint_name
         @ ''` disappeared during target transaction'')) loaded)) (\<lambda>current.
     bind_op (lift_op (ensure_coordinate_advances (Some current) (checkpoint_coordinate checkpoint))) (\<lambda>_.
       on_target (tx_save_checkpoint executor table checkpoint_name checkpoint))))"

section \<open>Committing a group\<close>

definition commit_target_group :: "'w stream_env \<Rightarrow> ('w, unit) stream_op" where
  "commit_target_group env =
     bind_op get_context (\<lambda>context.
     bind_op (modify_transaction (\<lambda>t. t\<lparr>tt_pending_transaction_checkpoint := None\<rparr>)) (\<lambda>_.
       case (tt_pending_transaction_checkpoint (sx_transaction context), en_table env, en_name env) of
         (Some checkpoint, Some table, Some name) \<Rightarrow>
           (\<lambda>s. case lock_validate_and_save_checkpoint (en_executor env) table name checkpoint s of
              (Inl error, s') \<Rightarrow>
                (Inl error,
                 snd (modify_transaction (\<lambda>t. t\<lparr>tt_pending_transaction_checkpoint := Some checkpoint\<rparr>) s'))
            | (Inr _, s') \<Rightarrow> commit_if_open env s')
       | _ \<Rightarrow> commit_if_open env))"

definition flush_grouped_transaction :: "'w stream_env \<Rightarrow> ('w, unit) stream_op" where
  "flush_grouped_transaction env =
     bind_op get_context (\<lambda>context.
       if \<not> has_completed_source_transactions (sx_transaction context) then ret_op ()
       else
         (let checkpoint = tt_pending_file_checkpoint (sx_transaction context) in
          bind_op (modify_transaction (\<lambda>t. t\<lparr>tt_pending_file_checkpoint := None\<rparr>)) (\<lambda>_ s.
            case commit_target_group env s of
              (Inl error, s') \<Rightarrow>
                (Inl error,
                 (if checkpoint = None then s'
                  else snd (modify_transaction (\<lambda>t. t\<lparr>tt_pending_file_checkpoint := checkpoint\<rparr>) s')))
            | (Inr _, s') \<Rightarrow>
                (case (checkpoint, en_store env) of
                   (Some checkpoint, Some store) \<Rightarrow> on_world (st_save store checkpoint) s'
                 | _ \<Rightarrow> (Inr (), s')))))"

definition set_current_file :: "binlog_coordinate \<Rightarrow> ('w, unit) stream_op" where
  "set_current_file coordinate = modify_context (\<lambda>c. c\<lparr>sx_current_file := bc_file coordinate\<rparr>)"

definition remember_file_checkpoint :: "binlog_event \<Rightarrow> structured_event_outcome \<Rightarrow> ('w, unit) stream_op" where
  "remember_file_checkpoint event outcome =
     (case eo_resume_coordinate outcome of
        None \<Rightarrow> ret_op ()
      | Some coordinate \<Rightarrow>
          bind_op (modify_transaction (\<lambda>t.
            t\<lparr>tt_pending_file_checkpoint := Some (coordinate_checkpoint coordinate (event_name event))\<rparr>)) (\<lambda>_.
            set_current_file coordinate))"

definition save_outcome_checkpoint ::
  "'w stream_env \<Rightarrow> binlog_event \<Rightarrow> structured_event_outcome \<Rightarrow> ('w, unit) stream_op"
where
  "save_outcome_checkpoint env event outcome =
     (case eo_resume_coordinate outcome of
        None \<Rightarrow> ret_op ()
      | Some coordinate \<Rightarrow>
          bind_op get_context (\<lambda>context.
            if tt_open (sx_transaction context) \<and> en_table env \<noteq> None \<and> en_name env \<noteq> None then
              bind_op (modify_transaction (\<lambda>t.
                t\<lparr>tt_pending_transaction_checkpoint := Some (coordinate_checkpoint coordinate (event_name event))\<rparr>)) (\<lambda>_.
                set_current_file coordinate)
            else
              bind_op (on_world (save_coordinate_checkpoint (en_store env) coordinate (event_name event))) (\<lambda>_.
                set_current_file coordinate)))"

definition event_can_write_target :: "binlog_event \<Rightarrow> structured_event_state \<Rightarrow> bool" where
  "event_can_write_target event state =
     (case event of
        WriteRowsEvent rows \<Rightarrow> \<not> is_ignored_table_id state (re_table_id rows)
      | UpdateRowsEvent rows \<Rightarrow> \<not> is_ignored_table_id state (ue_table_id rows)
      | DeleteRowsEvent rows \<Rightarrow> \<not> is_ignored_table_id state (re_table_id rows)
      | QueryEvent query \<Rightarrow>
          should_apply_schema state (qe_database_name query)
          \<and> \<not> is_data_changing_statement (utf8_chars (qe_sql_statement query))
      | _ \<Rightarrow> False)"

definition finish_source_transaction ::
  "'w stream_env \<Rightarrow> binlog_event \<Rightarrow> structured_event_outcome \<Rightarrow> bool \<Rightarrow> ('w, unit) stream_op"
where
  "finish_source_transaction env event outcome force_flush =
     bind_op (modify_transaction record_source_transaction) (\<lambda>_.
       if en_table env \<noteq> None then
         bind_op (save_outcome_checkpoint env event outcome) (\<lambda>_.
         bind_op (flush_is_due env force_flush) (\<lambda>due.
           if due then commit_target_group env else ret_op ()))
       else
         bind_op (remember_file_checkpoint event outcome) (\<lambda>_.
         bind_op (flush_is_due env force_flush) (\<lambda>due.
           if due then flush_grouped_transaction env else ret_op ())))"

definition is_rotate :: "binlog_event \<Rightarrow> bool" where
  "is_rotate event = (case event of RotateEvent _ \<Rightarrow> True | _ \<Rightarrow> False)"

definition is_query :: "binlog_event \<Rightarrow> bool" where
  "is_query event = (case event of QueryEvent _ \<Rightarrow> True | _ \<Rightarrow> False)"

text \<open>A failed event rolls the open transaction back; a panic leaves the function without it.\<close>

definition handle_or_rollback :: "'w stream_env \<Rightarrow> event_header \<Rightarrow> binlog_event \<Rightarrow> ('w, structured_event_outcome) stream_op" where
  "handle_or_rollback env header event s =
     (case handle_structured_event (en_uppercase env) (en_executor env) (en_resolver env) header event s of
        (Inr outcome, s') \<Rightarrow> (Inr outcome, s')
      | (Inl (Panicked message), s') \<Rightarrow> (Inl (Panicked message), s')
      | (Inl error, s') \<Rightarrow> bind_op (rollback_if_open env) (\<lambda>_. fail_op error) s')"

definition apply_stream_event_transactionally ::
  "'w stream_env \<Rightarrow> event_header \<Rightarrow> binlog_event \<Rightarrow> ('w, structured_event_outcome) stream_op"
where
  "apply_stream_event_transactionally env header event =
     bind_op (flush_is_due env False) (\<lambda>due.
     bind_op (if due \<or> is_rotate event then flush_grouped_transaction env else ret_op ()) (\<lambda>_.
     bind_op get_context (\<lambda>context.
     bind_op (if event_can_write_target event (sx_state context) then begin_if_needed env else ret_op ()) (\<lambda>_.
     bind_op (handle_or_rollback env header event) (\<lambda>outcome.
     bind_op (if eo_policy outcome = CommitTransaction
              then finish_source_transaction env event outcome (is_query event)
              else save_outcome_checkpoint env event outcome) (\<lambda>_.
       ret_op outcome))))))"

section \<open>The stream\<close>

definition next_source_position :: "u64 \<Rightarrow> event_header \<Rightarrow> binlog_event \<Rightarrow> u64" where
  "next_source_position current_position header event =
     (case event of
        RotateEvent r \<Rightarrow> ro_binlog_position r
      | _ \<Rightarrow>
          (if 0 < eh_next_event_position header then ucast (eh_next_event_position header)
           else if current_position \<le> current_position + ucast (eh_event_length header)
             then current_position + ucast (eh_event_length header) else - 1))"

type_synonym source_event = "event_header \<times> binlog_event \<times> u64"

text \<open>What the reader thread sends for the results of the binlog client: each event with the position it
  starts at, up to and including the first error.\<close>

fun read_ahead :: "u64 \<Rightarrow> (string + event_header \<times> binlog_event) list \<Rightarrow> (string + source_event) list" where
  "read_ahead source_position [] = []"
| "read_ahead source_position (Inl error # results) = [Inl error]"
| "read_ahead source_position (Inr (header, event) # results) =
     Inr (header, event, source_position)
       # read_ahead (next_source_position source_position header event) results"

definition handle_query_ddl ::
  "'w stream_env \<Rightarrow> event_header \<Rightarrow> binlog_event \<Rightarrow> ('w, structured_event_outcome option) stream_op"
where
  "handle_query_ddl env header event =
     (case event of QueryEvent query \<Rightarrow> en_ddl env header query | _ \<Rightarrow> ret_op None)"

definition dispatch_stream_event ::
  "'w stream_env \<Rightarrow> event_header \<Rightarrow> binlog_event \<Rightarrow> ('w, structured_event_outcome) stream_op"
where
  "dispatch_stream_event env header event =
     bind_op (handle_query_ddl env header event) (\<lambda>handled.
       case handled of
         Some outcome \<Rightarrow> ret_op outcome
       | None \<Rightarrow> apply_stream_event_transactionally env header event)"

definition process_stream_event ::
  "'w stream_env \<Rightarrow> u64 option \<Rightarrow> source_event \<Rightarrow> ('w, stop_decision) stream_op"
where
  "process_stream_event env stop_position = (\<lambda>(header, event, source_position).
     bind_op get_context (\<lambda>context.
       case stop_position_decision stop_position header (sx_source_row_transaction_open context) of
         Inl error \<Rightarrow> bind_op (rollback_if_open env) (\<lambda>_. fail_op error)
       | Inr decision \<Rightarrow>
           bind_op (modify_state (record_event_position source_position)) (\<lambda>_.
           bind_op (dispatch_stream_event env header event) (\<lambda>_.
           bind_op (modify_context (\<lambda>c.
             c\<lparr>sx_source_row_transaction_open :=
                 update_source_row_transaction_state (sx_source_row_transaction_open c) event\<rparr>)) (\<lambda>_.
             ret_op decision)))))"

definition complete_bounded_stop :: "'w stream_env \<Rightarrow> ('w, unit) stream_op" where
  "complete_bounded_stop env =
     bind_op get_context (\<lambda>context.
       case bounded_stop_completion_error (sx_source_row_transaction_open context) of
         Inl error \<Rightarrow> bind_op (rollback_if_open env) (\<lambda>_. fail_op error)
       | Inr _ \<Rightarrow> flush_grouped_transaction env)"

definition finish_stream :: "'w stream_env \<Rightarrow> u64 option \<Rightarrow> ('w, unit) stream_op" where
  "finish_stream env stop_position =
     (case stop_position of
        Some stop_position \<Rightarrow>
          bind_op (rollback_if_open env) (\<lambda>_. fail_op (bounded_stop_not_reached_error stop_position))
      | None \<Rightarrow> bind_op (flush_grouped_transaction env) (\<lambda>_. fail_op stream_ended_error))"

definition source_error :: "string \<Rightarrow> apply_binlog_error" where
  "source_error error = SourceCommand (''mysql_cdc error: '' @ error)"

fun stream_events :: "'w stream_env \<Rightarrow> u64 option \<Rightarrow> (string + source_event) list \<Rightarrow> ('w, unit) stream_op" where
  "stream_events env stop_position [] = finish_stream env stop_position"
| "stream_events env stop_position (Inl error # received) =
     bind_op (rollback_if_open env) (\<lambda>_. fail_op (source_error error))"
| "stream_events env stop_position (Inr event # received) =
     bind_op (process_stream_event env stop_position event) (\<lambda>decision.
       if decision = DispatchAndStop then complete_bounded_stop env
       else stream_events env stop_position received)"

definition initial_context :: "apply_binlog_config \<Rightarrow> stream_context" where
  "initial_context config =
     \<lparr>sx_state = new_event_state (sb_database (ab_source config)), sx_registry = [],
      sx_transaction = closed_transaction, sx_current_file = sb_binlog_file (ab_source config),
      sx_source_row_transaction_open = False\<rparr>"

definition stream_once ::
  "(apply_binlog_config \<Rightarrow> ('w, apply_binlog_error, (string + event_header \<times> binlog_event) list) op)
    \<Rightarrow> 'w stream_env \<Rightarrow> apply_binlog_config \<Rightarrow> ('w, apply_binlog_error, unit) op"
where
  "stream_once initialize env config =
     bind_op (initialize config) (\<lambda>results w.
       case stream_events (env\<lparr>en_group := group_from_apply_config config\<rparr>) (sb_stop_position (ab_source config))
              (read_ahead (sb_start_position (ab_source config)) results) (initial_context config, w) of
         (r, (_, w')) \<Rightarrow> (r, w'))"

definition stream_with_checkpoint_store ::
  "nat \<Rightarrow> (apply_binlog_config \<Rightarrow> ('w, apply_binlog_error, (string + event_header \<times> binlog_event) list) op)
    \<Rightarrow> 'w stream_env \<Rightarrow> (nat \<Rightarrow> 'w \<Rightarrow> 'w) \<Rightarrow> apply_binlog_config \<Rightarrow> ('w, apply_binlog_error, unit) op"
where
  "stream_with_checkpoint_store fuel initialize env sleep config =
     run_stream_reconnect_loop fuel config (en_store env) (stream_once initialize env) sleep"

section \<open>Settings of the source\<close>

definition binlog_options_from_source_position :: "string \<Rightarrow> u64 \<Rightarrow> apply_binlog_error + string \<times> u32" where
  "binlog_options_from_source_position filename position =
     (if unat position < 2 ^ 32 then Inr (filename, ucast position)
      else Inl (ConfigError (''start position '' @ u64_text position @ '' exceeds mysql_cdc u32 position limit'')))"

definition same_text_ignoring_case :: "string \<Rightarrow> string \<Rightarrow> bool" where
  "same_text_ignoring_case a b \<longleftrightarrow> lower_text a = lower_text b"

definition validate_source_binlog_settings :: "string \<Rightarrow> string \<Rightarrow> apply_binlog_error + unit" where
  "validate_source_binlog_settings format row_image =
     (if same_text_ignoring_case format ''ROW'' \<and> same_text_ignoring_case row_image ''FULL'' then Inr ()
      else Inl (ConfigError
        (''stream-binlog requires source binlog_format=ROW and binlog_row_image=FULL; found format=''
          @ format @ '' row_image='' @ row_image)))"

end
