(* ===== verification/Stream_Atomic.thy ===== *)
theory Stream_Atomic
  imports Stream_Transaction
begin

text \<open>
  What a stream leaves on the target. The interface \<open>stream_target\<close> says what the stream relies on
  of the connection: a transaction is invisible until it commits, a committed transaction is kept
  whole, a row change has a fixed effect on the data, and the checkpoint row is written by
  \<open>tx_save_checkpoint\<close> or by the checkpoint store. Under it, what is durable after any run of the
  stream is the data of a prefix of the source events together with the checkpoint of exactly that
  prefix, provided no group of transactions is committed while a source transaction is incomplete.
\<close>

section \<open>The source's own history\<close>

text \<open>Handling the events one after the other on the data itself, without transactions.\<close>

definition plain_executor :: "(target_row_change \<Rightarrow> 'd \<Rightarrow> 'd) \<Rightarrow> 'd target_executor" where
  "plain_executor effect =
     \<lparr>tx_execute = (\<lambda>_ d. (Inr (), d)), tx_execute_row_change = (\<lambda>change d. (Inr (), effect change d)),
      tx_begin = ret_op (), tx_load_checkpoint = (\<lambda>_ _. ret_op None), tx_save_checkpoint = (\<lambda>_ _ _. ret_op ()),
      tx_commit = ret_op (), tx_rollback = ret_op ()\<rparr>"

definition plain_resolver ::
  "(string \<Rightarrow> string \<Rightarrow> nat \<Rightarrow> apply_binlog_error + resolved_table_schema) \<Rightarrow> 'd schema_resolver"
where
  "plain_resolver answer = \<lparr>sr_resolve = (\<lambda>schema table n. lift_op (answer schema table n)), sr_invalidate = (\<lambda>_ d. d)\<rparr>"

record 'd source_meaning =
  sm_uppercase :: "int \<Rightarrow> chars"
  sm_effect :: "target_row_change \<Rightarrow> 'd \<Rightarrow> 'd"
  sm_answer :: "string \<Rightarrow> string \<Rightarrow> nat \<Rightarrow> apply_binlog_error + resolved_table_schema"

definition plain_handle :: "'d source_meaning \<Rightarrow> event_header \<Rightarrow> binlog_event \<Rightarrow> ('d, structured_event_outcome) stream_op" where
  "plain_handle m = handle_structured_event (sm_uppercase m) (plain_executor (sm_effect m)) (plain_resolver (sm_answer m))"

definition advance_file :: "structured_event_outcome \<Rightarrow> ('d, unit) stream_op" where
  "advance_file outcome =
     (case eo_resume_coordinate outcome of None \<Rightarrow> ret_op () | Some coordinate \<Rightarrow> set_current_file coordinate)"

definition source_step :: "'d source_meaning \<Rightarrow> source_event \<Rightarrow> ('d, unit) stream_op" where
  "source_step m = (\<lambda>(header, event, position).
     bind_op (modify_state (record_event_position position)) (\<lambda>_.
     bind_op (plain_handle m header event) advance_file))"

fun source_run :: "'d source_meaning \<Rightarrow> source_event list \<Rightarrow> ('d, unit) stream_op" where
  "source_run m [] = ret_op ()"
| "source_run m (e # es) = bind_op (source_step m e) (\<lambda>_. source_run m es)"

definition checkpoint_at :: "stream_context \<Rightarrow> source_event \<Rightarrow> checkpoint option" where
  "checkpoint_at c = (\<lambda>(header, event, position).
     map_option (\<lambda>coordinate. coordinate_checkpoint coordinate (event_name event))
       (resume_coordinate (sx_current_file c) header event))"

text \<open>The data \<open>fst x\<close> and the checkpoint \<open>snd x\<close> belong to one prefix of the events: none of them, or
  those up to an event with a position to resume from.\<close>

definition source_consistent ::
  "'d source_meaning \<Rightarrow> stream_context \<times> 'd \<Rightarrow> checkpoint option \<Rightarrow> source_event list \<Rightarrow> 'd \<times> checkpoint option \<Rightarrow> bool"
where
  "source_consistent m start stored es x \<longleftrightarrow>
     (\<exists>n c. n \<le> length es \<and> source_run m (take n es) start = (Inr (), (c, fst x))
        \<and> (if n = 0 then snd x = stored
           else snd x \<noteq> None \<and> checkpoint_at c (es ! (n - 1)) = snd x))"

text \<open>A source writes whole transactions: rotation happens between them, and the position after a commit
  is known. Query events are left out.\<close>

fun framed :: "bool \<Rightarrow> source_event list \<Rightarrow> bool" where
  "framed is_open [] = True"
| "framed is_open ((header, event, position) # es) =
     (\<not> is_query event \<and> (is_rotate event \<longrightarrow> \<not> is_open)
      \<and> (case event of XidEvent _ \<Rightarrow> 0 < eh_next_event_position header | _ \<Rightarrow> True)
      \<and> framed (update_source_row_transaction_state is_open event) es)"

definition transaction_open_after :: "bool \<Rightarrow> source_event list \<Rightarrow> bool" where
  "transaction_open_after is_open es =
     foldl (\<lambda>b (header, event, position). update_source_row_transaction_state b event) is_open es"

lemma source_run_snoc:
  "source_run m (es @ [e]) s = bind_op (source_run m es) (\<lambda>_. source_step m e) s"
  by (induction es arbitrary: s) (auto simp: bind_op_def ret_op_def split: prod.splits sum.splits)

lemma source_consistent_more:
  assumes "source_consistent m start stored es x"
  shows "source_consistent m start stored (es @ es') x"
proof -
  obtain n c where n: "n \<le> length es" "source_run m (take n es) start = (Inr (), (c, fst x))"
      "if n = 0 then snd x = stored else snd x \<noteq> None \<and> checkpoint_at c (es ! (n - 1)) = snd x"
    using assms unfolding source_consistent_def by blast
  have "take n (es @ es') = take n es" "n \<noteq> 0 \<Longrightarrow> (es @ es') ! (n - 1) = es ! (n - 1)"
    using n(1) by (auto simp: nth_append)
  with n show ?thesis
    unfolding source_consistent_def by (intro exI [of _ n] exI [of _ c]) (cases "n = 0"; simp)
qed

lemma source_consistent_now:
  assumes "source_run m (es @ [e]) start = (Inr (), (c, d))" and "checkpoint_at c e = Some k"
  shows "source_consistent m start stored (es @ [e]) (d, Some k)"
  unfolding source_consistent_def using assms by (intro exI [of _ "Suc (length es)"] exI [of _ c]) auto

section \<open>Following the source\<close>

definition same_handler :: "stream_context \<Rightarrow> stream_context \<Rightarrow> bool" where
  "same_handler c c0 \<longleftrightarrow>
     sx_state c = sx_state c0 \<and> sx_registry c = sx_registry c0 \<and> sx_current_file c = sx_current_file c0"

definition same_group :: "stream_context \<Rightarrow> stream_context \<Rightarrow> bool" where
  "same_group c c' \<longleftrightarrow>
     sx_transaction c' = sx_transaction c \<and> sx_source_row_transaction_open c' = sx_source_row_transaction_open c"

definition follows ::
  "('w \<Rightarrow> bool) \<Rightarrow> ('w \<Rightarrow> 'd \<times> checkpoint option) \<Rightarrow> ('w \<Rightarrow> 'd \<times> checkpoint option) \<Rightarrow> bool
    \<Rightarrow> ('w, 'a) stream_op \<Rightarrow> ('d, 'a) stream_op \<Rightarrow> bool"
where
  "follows in_tx vis dur b m m' \<longleftrightarrow>
     (\<forall>c c0 w r c' w'. same_handler c c0 \<longrightarrow> in_tx w = b \<longrightarrow> m (c, w) = (r, (c', w')) \<longrightarrow>
        dur w' = dur w
        \<and> (\<forall>a. r = Inr a \<longrightarrow>
             in_tx w' = b \<and> snd (vis w') = snd (vis w) \<and> same_group c c'
             \<and> (\<exists>c0'. m' (c0, fst (vis w)) = (Inr a, (c0', fst (vis w'))) \<and> same_handler c' c0')))"

lemma followsD:
  assumes "follows in_tx vis dur b m m'" "same_handler c c0" "in_tx w = b" "m (c, w) = (r, (c', w'))"
  shows "dur w' = dur w"
    and "r = Inr a \<Longrightarrow> in_tx w' = b \<and> snd (vis w') = snd (vis w) \<and> same_group c c'
        \<and> (\<exists>c0'. m' (c0, fst (vis w)) = (Inr a, (c0', fst (vis w'))) \<and> same_handler c' c0')"
  using assms unfolding follows_def by blast+

lemma follows_bind:
  assumes "follows in_tx vis dur b m m'" and "\<And>a. follows in_tx vis dur b (f a) (f' a)"
  shows "follows in_tx vis dur b (bind_op m f) (bind_op m' f')"
  unfolding follows_def
proof (intro allI impI)
  fix c c0 w r c' w'
  assume same: "same_handler c c0" and b: "in_tx w = b" and run: "bind_op m f (c, w) = (r, (c', w'))"
  obtain r1 c1 w1 where m: "m (c, w) = (r1, (c1, w1))"
    by (metis prod.exhaust)
  note first = followsD [OF assms(1) same b m]
  show "dur w' = dur w \<and> (\<forall>a. r = Inr a \<longrightarrow>
      in_tx w' = b \<and> snd (vis w') = snd (vis w) \<and> same_group c c'
      \<and> (\<exists>c0'. bind_op m' f' (c0, fst (vis w)) = (Inr a, (c0', fst (vis w'))) \<and> same_handler c' c0'))"
  proof (cases r1)
    case (Inl e)
    with run m first(1) show ?thesis by (auto simp: bind_op_def)
  next
    case (Inr x)
    from first(2) [OF Inr] obtain c01 where c01: "in_tx w1 = b" "snd (vis w1) = snd (vis w)" "same_group c c1"
        "m' (c0, fst (vis w)) = (Inr x, (c01, fst (vis w1)))" "same_handler c1 c01"
      by blast
    have f: "f x (c1, w1) = (r, (c', w'))"
      using run m Inr by (simp add: bind_op_def)
    note second = followsD [OF assms(2) c01(5,1) f]
    show ?thesis
      using second first(1) c01 by (fastforce simp: bind_op_def same_group_def)
  qed
qed

lemma follows_pure:
  "follows in_tx vis dur b (ret_op a) (ret_op a)"
  "follows in_tx vis dur b (fail_op e) (fail_op e')"
  "follows in_tx vis dur b (lift_op x) (lift_op x)"
  by (auto simp: follows_def ret_op_def fail_op_def lift_op_def same_group_def)

lemma follows_modify_state: "follows in_tx vis dur b (modify_state f) (modify_state f)"
  by (auto simp: follows_def modify_state_def modify_context_def same_group_def same_handler_def)

lemma follows_registry:
  "follows in_tx vis dur b (modify_context (\<lambda>c. c\<lparr>sx_registry := f (sx_registry c)\<rparr>))
     (modify_context (\<lambda>c. c\<lparr>sx_registry := f (sx_registry c)\<rparr>))"
  by (auto simp: follows_def modify_context_def same_group_def same_handler_def)

lemma follows_get_context:
  assumes "\<And>c c0. same_handler c c0 \<Longrightarrow> follows in_tx vis dur b (f c) (f' c0)"
  shows "follows in_tx vis dur b (bind_op get_context f) (bind_op get_context f')"
  using assms unfolding follows_def by (simp add: bind_op_def get_context_def)

lemma follows_on_world:
  assumes "\<And>w r w'. in_tx w = b \<Longrightarrow> m w = (r, w') \<Longrightarrow>
      dur w' = dur w \<and> (\<forall>a. r = Inr a \<longrightarrow> in_tx w' = b \<and> snd (vis w') = snd (vis w) \<and> m' (fst (vis w)) = (Inr a, fst (vis w')))"
  shows "follows in_tx vis dur b (on_world m) (on_world m')"
  unfolding follows_def
proof (intro allI impI)
  fix c c0 w r c' w'
  assume same: "same_handler c c0" and b: "in_tx w = b" and run: "on_world m (c, w) = (r, (c', w'))"
  then have "m w = (r, w')" "c' = c"
    by (auto simp: on_world_def split: prod.splits)
  with assms [OF b this(1)] same
  show "dur w' = dur w \<and> (\<forall>a. r = Inr a \<longrightarrow>
      in_tx w' = b \<and> snd (vis w') = snd (vis w) \<and> same_group c c'
      \<and> (\<exists>c0'. on_world m' (c0, fst (vis w)) = (Inr a, (c0', fst (vis w'))) \<and> same_handler c' c0'))"
    by (auto simp: on_world_def same_group_def)
qed

lemma policy_of_event:
  assumes "apply_structured_event u executor resolver k event s = (Inr policy, s')" and "\<not> is_query event"
  shows "policy = CommitTransaction \<longleftrightarrow> (\<exists>xid. event = XidEvent xid)"
proof (cases event)
  case (TableMapEvent t)
  then show ?thesis
    using assms by (auto simp: apply_structured_event_def apply_table_map_event_def bind_op_eq_Inr ret_op_def
        split: if_splits option.splits)
next
  case (WriteRowsEvent rows)
  then show ?thesis
    using assms by (auto simp: apply_structured_event_def apply_write_rows_event_def on_rows_def bind_op_eq_Inr ret_op_def
        split: if_splits)
next
  case (UpdateRowsEvent rows)
  then show ?thesis
    using assms by (auto simp: apply_structured_event_def apply_update_rows_event_def on_rows_def bind_op_eq_Inr ret_op_def
        split: if_splits)
next
  case (DeleteRowsEvent rows)
  then show ?thesis
    using assms by (auto simp: apply_structured_event_def apply_delete_rows_event_def on_rows_def bind_op_eq_Inr ret_op_def
        split: if_splits)
qed (use assms in \<open>auto simp: apply_structured_event_def is_query_def bind_op_eq_Inr ret_op_def\<close>)

lemma handle_outcome:
  assumes "handle_structured_event u executor resolver header event (c, w) = (Inr outcome, s')" and "\<not> is_query event"
  shows "eo_policy outcome = CommitTransaction \<longleftrightarrow> (\<exists>xid. event = XidEvent xid)"
    and "eo_resume_coordinate outcome = resume_coordinate (sx_current_file c) header event"
  using assms policy_of_event [of u executor resolver _ event]
  by (auto simp: handle_structured_event_def bind_op_eq_Inr get_context_def ret_op_def)

lemma ignored_rows:
  assumes "is_row_event event" "\<not> event_can_write_target event (sx_state c)"
  shows "handle_structured_event u executor resolver header event (c, w)
     = (Inr \<lparr>eo_policy = Ignore, eo_resume_coordinate = None\<rparr>, (c, w))"
  using assms
  by (cases event) (simp_all add: is_row_event_def event_can_write_target_def handle_structured_event_def
      apply_structured_event_def apply_write_rows_event_def apply_update_rows_event_def apply_delete_rows_event_def
      bind_op_def get_context_def ret_op_def resume_coordinate_def)

lemmas follows_intros = follows_bind follows_pure follows_modify_state follows_registry

section \<open>Schema answers\<close>

text \<open>A resolver that always gives the same answers and moves the world only along \<open>keep\<close>.\<close>

definition steady :: "('w \<Rightarrow> 'w \<Rightarrow> bool) \<Rightarrow> ('w, 'e, 'a) op \<Rightarrow> 'e + 'a \<Rightarrow> bool" where
  "steady keep m x \<longleftrightarrow> (\<forall>w. \<exists>w'. m w = (x, w') \<and> keep w w')"

definition steady_resolver ::
  "('w \<Rightarrow> 'w \<Rightarrow> bool) \<Rightarrow> 'w schema_resolver
    \<Rightarrow> (string \<Rightarrow> string \<Rightarrow> nat \<Rightarrow> apply_binlog_error + resolved_table_schema) \<Rightarrow> bool"
where
  "steady_resolver keep resolver answer \<longleftrightarrow>
     (\<forall>w. keep w w) \<and> (\<forall>schema table n. steady keep (sr_resolve resolver schema table n) (answer schema table n))"

lemma plain_resolver_steady: "steady_resolver (=) (plain_resolver answer) answer"
  by (simp add: steady_resolver_def steady_def plain_resolver_def lift_op_def)

lemma resolve_steady:
  assumes "steady_resolver keep resolver answer"
  shows "steady keep (resolve_table_schema table_map resolver)
     (fst (resolve_table_schema table_map (plain_resolver answer) ()))"
  unfolding steady_def
proof
  fix w
  let ?n = "length (ct_column_types table_map)"
  let ?ask = "answer (ct_database_name table_map) (ct_table_name table_map) ?n"
  obtain w1 where w1: "sr_resolve resolver (ct_database_name table_map) (ct_table_name table_map) ?n w = (?ask, w1)" "keep w w1"
    using assms unfolding steady_resolver_def steady_def by blast
  have "keep w w"
    using assms by (simp add: steady_resolver_def)
  with w1 show "\<exists>w'. resolve_table_schema table_map resolver w
      = (fst (resolve_table_schema table_map (plain_resolver answer) ()), w') \<and> keep w w'"
    by (auto simp: resolve_table_schema_def fallback_table_schema_def fallback_schema_for_metadata_def Let_def
        plain_resolver_def bind_op_def lift_op_def ret_op_def split: option.splits sum.splits)
qed

lemma map_table_map_steady:
  assumes "steady_resolver keep resolver answer"
  shows "steady keep (map_table_map_event coordinate table_map resolver)
     (fst (map_table_map_event coordinate table_map (plain_resolver answer) ()))"
  unfolding steady_def
proof
  fix w
  obtain w1 where "resolve_table_schema table_map resolver w
      = (fst (resolve_table_schema table_map (plain_resolver answer) ()), w1)" "keep w w1"
    using resolve_steady [OF assms, of table_map] unfolding steady_def by blast
  then show "\<exists>w'. map_table_map_event coordinate table_map resolver w
      = (fst (map_table_map_event coordinate table_map (plain_resolver answer) ()), w') \<and> keep w w'"
    by (cases "resolve_table_schema table_map (plain_resolver answer) ()")
       (auto simp: map_table_map_event_def bind_op_def ret_op_def split: sum.splits)
qed

lemma apply_row_event_ok:
  assumes "resolve_table registry (ri_table_id input) (ri_coordinate input) = Inr t"
    and "ri_preflight input t (ri_rows input) (ri_coordinate input) = Inr u"
  shows "apply_row_event execute registry input
     = apply_rows execute t (ri_coordinate input) (ri_operation input) (ri_build_change input) (ri_rows input)"
  using assms by (simp add: apply_row_event_def fun_eq_iff bind_op_def lift_op_def)

section \<open>The invariant of a stream\<close>

definition group_inv ::
  "('w \<Rightarrow> bool) \<Rightarrow> ('w \<Rightarrow> 'd \<times> checkpoint option) \<Rightarrow> ('w \<Rightarrow> 'd \<times> checkpoint option) \<Rightarrow> nat
    \<Rightarrow> ('d \<times> checkpoint option \<Rightarrow> bool) \<Rightarrow> stream_context \<Rightarrow> 'w \<Rightarrow> bool"
where
  "group_inv in_tx vis dur limit ok c w \<longleftrightarrow>
     (let t = sx_transaction c in
      in_tx w = tt_open t \<and> ok (dur w) \<and> tt_pending_file_checkpoint t = None
      \<and> (tt_source_transactions t \<noteq> 0 \<longrightarrow> tt_open t \<and> tt_source_transactions t < limit)
      \<and> (tt_open t \<longrightarrow> \<not> sx_source_row_transaction_open c \<longrightarrow>
           0 < tt_source_transactions t
           \<and> (\<exists>k. tt_pending_transaction_checkpoint t = Some k \<and> ok (fst (vis w), Some k))))"

definition stream_inv ::
  "('w \<Rightarrow> bool) \<Rightarrow> ('w \<Rightarrow> 'd \<times> checkpoint option) \<Rightarrow> ('w \<Rightarrow> 'd \<times> checkpoint option) \<Rightarrow> nat \<Rightarrow> 'd source_meaning
    \<Rightarrow> stream_context \<times> 'd \<Rightarrow> checkpoint option \<Rightarrow> source_event list \<Rightarrow> stream_context \<Rightarrow> 'w \<Rightarrow> bool"
where
  "stream_inv in_tx vis dur limit m start stored es c w \<longleftrightarrow>
     (\<exists>c0. source_run m es start = (Inr (), (c0, fst (vis w))) \<and> same_handler c c0)
     \<and> group_inv in_tx vis dur limit (source_consistent m start stored es) c w"

definition after_begin :: "'w stream_env \<Rightarrow> event_header \<Rightarrow> binlog_event \<Rightarrow> ('w, structured_event_outcome) stream_op" where
  "after_begin env header event =
     bind_op (handle_or_rollback env header event) (\<lambda>outcome.
     bind_op (if eo_policy outcome = CommitTransaction
              then finish_source_transaction env event outcome (is_query event)
              else save_outcome_checkpoint env event outcome) (\<lambda>_. ret_op outcome))"

lemma transactionally_unfold:
  assumes "flush_is_due env False s = (Inr False, s)" and "\<not> is_rotate event"
  shows "apply_stream_event_transactionally env header event s
     = bind_op (if event_can_write_target event (sx_state (fst s)) then begin_if_needed env else ret_op ())
         (\<lambda>_. after_begin env header event) s"
  using assms by (simp add: apply_stream_event_transactionally_def after_begin_def bind_op_def ret_op_def get_context_def)

lemma no_position:
  assumes "\<not> is_query event" "\<not> is_rotate event" "\<not> (\<exists>xid. event = XidEvent xid)"
  shows "resume_coordinate file header event = None"
  using assms by (cases event) (auto simp: resume_coordinate_def is_query_def is_rotate_def)

lemma source_run_next:
  assumes "source_run m es start = (Inr (), (c0, d))"
    and "plain_handle m header event (c0\<lparr>sx_state := record_event_position position (sx_state c0)\<rparr>, d) = (Inr a, (c1, d'))"
  shows "source_run m (es @ [(header, event, position)]) start
     = (Inr (), (case eo_resume_coordinate a of None \<Rightarrow> c1 | Some k \<Rightarrow> c1\<lparr>sx_current_file := bc_file k\<rparr>, d'))"
  unfolding source_run_snoc using assms
  by (auto simp: bind_op_def source_step_def modify_state_def modify_context_def advance_file_def set_current_file_def
      ret_op_def split: option.split)

lemma plain_keeps_data:
  assumes "plain_handle m header event (c0, d) = (Inr a, (c1, d'))" and "\<not> is_query event" "\<not> is_row_event event"
  shows "d' = d"
proof (cases "\<exists>t. event = TableMapEvent t")
  case True
  have plain: "map_table_map_event k t (plain_resolver (sm_answer m)) d2 = (q, d3) \<Longrightarrow> d3 = d2" for k t d2 q d3
    using map_table_map_steady [OF plain_resolver_steady, of k t "sm_answer m"] unfolding steady_def by (metis prod.inject)
  show ?thesis
    using assms True
    by (auto dest!: plain simp: plain_handle_def handle_structured_event_def apply_structured_event_def apply_table_map_event_def
        bind_op_eq_Inr get_context_def ret_op_def modify_state_def modify_context_def on_world_def
        split: if_splits option.splits prod.splits)
next
  case False
  with assms show ?thesis
    by (cases event) (auto simp: plain_handle_def handle_structured_event_def apply_structured_event_def is_query_def
        is_row_event_def bind_op_eq_Inr get_context_def ret_op_def modify_state_def modify_context_def)
qed

section \<open>The connection to the target\<close>

locale stream_target =
  fixes env :: "'w stream_env" and in_tx :: "'w \<Rightarrow> bool" and vis dur :: "'w \<Rightarrow> 'd \<times> checkpoint option"
    and m :: "'d source_meaning" and store :: "'w stream_store" and table name :: string
  assumes uppercase: "en_uppercase env = sm_uppercase m"
    and configured: "en_table env = Some table" "en_name env = Some name" "en_store env = Some store"
    and idle: "\<not> in_tx w \<Longrightarrow> vis w = dur w"
    and begins: "\<not> in_tx w \<Longrightarrow> tx_begin (en_executor env) w = (r, w') \<Longrightarrow>
      dur w' = dur w \<and> (r = Inr () \<longrightarrow> in_tx w' \<and> vis w' = dur w)"
    and row_change: "in_tx w \<Longrightarrow> tx_execute_row_change (en_executor env) change w = (r, w') \<Longrightarrow>
      dur w' = dur w \<and> (r = Inr () \<longrightarrow> in_tx w' \<and> vis w' = (sm_effect m change (fst (vis w)), snd (vis w)))"
    and loads: "in_tx w \<Longrightarrow> tx_load_checkpoint (en_executor env) table name w = (l, w') \<Longrightarrow>
      dur w' = dur w \<and> (\<forall>v. l = Inr v \<longrightarrow> in_tx w' \<and> vis w' = vis w)"
    and saves: "in_tx w \<Longrightarrow> tx_save_checkpoint (en_executor env) table name k w = (r, w') \<Longrightarrow>
      dur w' = dur w \<and> (r = Inr () \<longrightarrow> in_tx w' \<and> vis w' = (fst (vis w), Some k))"
    and commits: "in_tx w \<Longrightarrow> tx_commit (en_executor env) w = (r, w') \<Longrightarrow>
      (dur w' = dur w \<or> dur w' = vis w) \<and> (r = Inr () \<longrightarrow> \<not> in_tx w' \<and> dur w' = vis w)"
    and rolls_back: "tx_rollback (en_executor env) w = (r, w') \<Longrightarrow> dur w' = dur w"
    and resolves: "steady_resolver (\<lambda>w w'. in_tx w' = in_tx w \<and> vis w' = vis w \<and> dur w' = dur w) (en_resolver env) (sm_answer m)"
    and store_reads: "\<not> in_tx w \<Longrightarrow> st_for_skip store w = (q, w') \<Longrightarrow> \<not> in_tx w' \<and> dur w' = dur w"
    and store_saves: "\<not> in_tx w \<Longrightarrow> st_save store k w = (s, w') \<Longrightarrow>
      \<not> in_tx w' \<and> (dur w' = dur w \<or> dur w' = (fst (dur w), Some k))"
begin

lemma follows_rows:
  "follows in_tx vis dur True (on_world (map_err_op g (apply_rows (tx_execute_row_change (en_executor env)) t k operation build rows)))
     (on_world (map_err_op g (apply_rows (tx_execute_row_change (plain_executor (sm_effect m))) t k operation build rows)))"
proof (rule follows_on_world)
  fix w r w'
  assume "in_tx w = True"
    and "map_err_op g (apply_rows (tx_execute_row_change (en_executor env)) t k operation build rows) w = (r, w')"
  then show "dur w' = dur w \<and> (\<forall>a. r = Inr a \<longrightarrow> in_tx w' = True \<and> snd (vis w') = snd (vis w)
      \<and> map_err_op g (apply_rows (tx_execute_row_change (plain_executor (sm_effect m))) t k operation build rows) (fst (vis w))
          = (Inr a, fst (vis w')))"
  proof (induction rows arbitrary: w r)
    case Nil
    then show ?case by (auto simp: map_err_op_def ret_op_def)
  next
    case (Cons row rows)
    show ?case
    proof (cases "build t row k")
      case (Inl e)
      with Cons.prems show ?thesis by (auto simp: map_err_op_def bind_op_def lift_op_def)
    next
      case (Inr change)
      show ?thesis
      proof (cases change)
        case None
        with Cons.prems Inr Cons.IH [of w r] show ?thesis
          by (simp add: map_err_op_def bind_op_def lift_op_def)
      next
        case (Some chg)
        obtain r1 w1 where x: "tx_execute_row_change (en_executor env) chg w = (r1, w1)"
          by (rule prod.exhaust)
        note law = row_change [of w chg r1 w1]
        show ?thesis
        proof (cases r1)
          case (Inl e)
          with Cons.prems Inr Some x law show ?thesis
            by (auto simp: map_err_op_def bind_op_def lift_op_def)
        next
          case ok: (Inr u)
          with Cons.prems Inr Some x
          have "map_err_op g (apply_rows (tx_execute_row_change (en_executor env)) t k operation build rows) w1 = (r, w')"
            by (simp add: map_err_op_def bind_op_def lift_op_def)
          from Cons.IH [OF _ this] law Cons.prems x ok Inr Some show ?thesis
            by (simp add: map_err_op_def bind_op_def lift_op_def plain_executor_def)
        qed
      qed
    qed
  qed
qed

lemma follows_row_event:
  "follows in_tx vis dur True (on_rows (apply_row_event (tx_execute_row_change (en_executor env)) registry input))
     (on_rows (apply_row_event (tx_execute_row_change (plain_executor (sm_effect m))) registry input))"
proof -
  have "follows in_tx vis dur True
      (on_world (map_err_op g (apply_row_event (tx_execute_row_change (en_executor env)) registry input)))
      (on_world (map_err_op g (apply_row_event (tx_execute_row_change (plain_executor (sm_effect m))) registry input)))" for g
  proof (cases "resolve_table registry (ri_table_id input) (ri_coordinate input)")
    case (Inl e)
    then show ?thesis
      by (intro follows_on_world) (auto simp: apply_row_event_def map_err_op_def bind_op_def lift_op_def)
  next
    case (Inr t)
    show ?thesis
    proof (cases "ri_preflight input t (ri_rows input) (ri_coordinate input)")
      case (Inl e)
      with Inr show ?thesis
        by (intro follows_on_world) (auto simp: apply_row_event_def map_err_op_def bind_op_def lift_op_def)
    next
      case ok: (Inr u)
      show ?thesis
        unfolding apply_row_event_ok [OF Inr ok] by (rule follows_rows)
    qed
  qed
  then show ?thesis
    unfolding on_rows_def by (intro follows_intros)
qed

lemma follows_table_map:
  "follows in_tx vis dur b (apply_table_map_event (en_resolver env) k table_map)
     (apply_table_map_event (plain_resolver (sm_answer m)) k table_map)"
proof -
  have "follows in_tx vis dur b (on_world (map_table_map_event k table_map (en_resolver env)))
      (on_world (map_table_map_event k table_map (plain_resolver (sm_answer m))))"
  proof (rule follows_on_world)
    fix w r w'
    assume w: "in_tx w = b" and run: "map_table_map_event k table_map (en_resolver env) w = (r, w')"
    have "r = fst (map_table_map_event k table_map (plain_resolver (sm_answer m)) ())"
        "in_tx w' = in_tx w" "vis w' = vis w" "dur w' = dur w"
      using map_table_map_steady [OF resolves, of k table_map] run unfolding steady_def
      by (metis prod.inject)+
    moreover have "map_table_map_event k table_map (plain_resolver (sm_answer m)) d
        = (fst (map_table_map_event k table_map (plain_resolver (sm_answer m)) ()), d)" for d :: 'd
      using map_table_map_steady [OF plain_resolver_steady, of k table_map "sm_answer m"] unfolding steady_def by metis
    ultimately show "dur w' = dur w \<and> (\<forall>a. r = Inr a \<longrightarrow> in_tx w' = b \<and> snd (vis w') = snd (vis w)
        \<and> map_table_map_event k table_map (plain_resolver (sm_answer m)) (fst (vis w)) = (Inr a, fst (vis w')))"
      using w by simp
  qed
  then show ?thesis
    unfolding apply_table_map_event_def
    by (intro follows_get_context) (auto simp: same_handler_def intro!: follows_intros split: option.split)
qed

lemma follows_apply:
  assumes "\<not> is_query event" and "is_row_event event \<longrightarrow> b"
  shows "follows in_tx vis dur b (apply_structured_event (en_uppercase env) (en_executor env) (en_resolver env) k event)
     (apply_structured_event (sm_uppercase m) (plain_executor (sm_effect m)) (plain_resolver (sm_answer m)) k event)"
proof (cases event)
  case (TableMapEvent t)
  then show ?thesis by (simp add: apply_structured_event_def follows_table_map)
next
  case (WriteRowsEvent rows)
  with assms have b: "b = True" by (simp add: is_row_event_def)
  show ?thesis
    unfolding WriteRowsEvent b apply_structured_event_def binlog_event.case apply_write_rows_event_def apply_write_rows_def
    by (intro follows_get_context) (auto simp: same_handler_def intro!: follows_intros follows_row_event)
next
  case (UpdateRowsEvent rows)
  with assms have b: "b = True" by (simp add: is_row_event_def)
  show ?thesis
    unfolding UpdateRowsEvent b apply_structured_event_def binlog_event.case apply_update_rows_event_def apply_update_rows_def
    by (intro follows_get_context) (auto simp: same_handler_def intro!: follows_intros follows_row_event)
next
  case (DeleteRowsEvent rows)
  with assms have b: "b = True" by (simp add: is_row_event_def)
  show ?thesis
    unfolding DeleteRowsEvent b apply_structured_event_def binlog_event.case apply_delete_rows_event_def apply_delete_rows_def
    by (intro follows_get_context) (auto simp: same_handler_def intro!: follows_intros follows_row_event)
qed (use assms in \<open>auto simp: apply_structured_event_def is_query_def intro!: follows_intros\<close>)

lemma follows_handle:
  assumes "\<not> is_query event" and "is_row_event event \<longrightarrow> b"
  shows "follows in_tx vis dur b (handle_structured_event (en_uppercase env) (en_executor env) (en_resolver env) header event)
     (plain_handle m header event)"
  unfolding handle_structured_event_def plain_handle_def
  by (intro follows_get_context)
     (auto simp: same_handler_def intro!: follows_intros follows_apply [OF assms])

lemma handle_step:
  assumes "\<not> is_query event" and "is_row_event event \<longrightarrow> event_can_write_target event (sx_state c) \<longrightarrow> in_tx w"
    and "same_handler c c0"
    and "handle_structured_event (en_uppercase env) (en_executor env) (en_resolver env) header event (c, w) = (r, (c', w'))"
  shows "dur w' = dur w"
    and "r = Inr a \<Longrightarrow> in_tx w' = in_tx w \<and> snd (vis w') = snd (vis w) \<and> same_group c c'
        \<and> (\<exists>c0'. plain_handle m header event (c0, fst (vis w)) = (Inr a, (c0', fst (vis w'))) \<and> same_handler c' c0')"
proof -
  have "dur w' = dur w \<and> (\<forall>a. r = Inr a \<longrightarrow> in_tx w' = in_tx w \<and> snd (vis w') = snd (vis w) \<and> same_group c c'
        \<and> (\<exists>c0'. plain_handle m header event (c0, fst (vis w)) = (Inr a, (c0', fst (vis w'))) \<and> same_handler c' c0'))"
  proof (cases "is_row_event event \<and> \<not> event_can_write_target event (sx_state c)")
    case True
    then have off: "is_row_event event" "\<not> event_can_write_target event (sx_state c)"
        "\<not> event_can_write_target event (sx_state c0)"
      using assms(3) by (simp_all add: same_handler_def)
    have "r = Inr \<lparr>eo_policy = Ignore, eo_resume_coordinate = None\<rparr>" "c' = c" "w' = w"
      using assms(4) by (simp_all add: ignored_rows [OF off(1,2)])
    then show ?thesis
      using assms(3) by (simp add: plain_handle_def same_group_def ignored_rows [OF off(1,3)])
  next
    case False
    with assms(2) have b: "is_row_event event \<longrightarrow> in_tx w" by blast
    show ?thesis
      using followsD [OF follows_handle [OF assms(1) b] assms(3) refl assms(4)] by blast
  qed
  then show "dur w' = dur w"
    and "r = Inr a \<Longrightarrow> in_tx w' = in_tx w \<and> snd (vis w') = snd (vis w) \<and> same_group c c'
        \<and> (\<exists>c0'. plain_handle m header event (c0, fst (vis w)) = (Inr a, (c0', fst (vis w'))) \<and> same_handler c' c0')"
    by blast+
qed

text \<open>Committing a group whose pending checkpoint belongs to the data it holds.\<close>

lemma commit_group:
  assumes "in_tx w" "tt_open (sx_transaction c)" "tt_pending_transaction_checkpoint (sx_transaction c) = Some k"
    and "commit_target_group env (c, w) = (r, (c', w'))"
  shows "(dur w' = dur w \<or> dur w' = (fst (vis w), Some k))
     \<and> (r = Inr () \<longrightarrow> \<not> in_tx w' \<and> dur w' = (fst (vis w), Some k) \<and> c' = c\<lparr>sx_transaction := closed_transaction\<rparr>)"
proof -
  let ?c = "c\<lparr>sx_transaction := (sx_transaction c)\<lparr>tt_pending_transaction_checkpoint := None\<rparr>\<rparr>"
  obtain r1 w1 where load: "tx_load_checkpoint (en_executor env) table name w = (r1, w1)"
    by (rule prod.exhaust)
  note w1 = loads [OF assms(1) load]
  show ?thesis
  proof (cases "\<exists>current. r1 = Inr (Some current) \<and> ensure_coordinate_advances (Some current) (checkpoint_coordinate k) = Inr ()")
    case False
    then consider e where "r1 = Inl e" | "r1 = Inr None"
      | current e where "r1 = Inr (Some current)" "ensure_coordinate_advances (Some current) (checkpoint_coordinate k) = Inl e"
      by (cases r1; cases "projr r1"; cases "ensure_coordinate_advances (Some (the (projr r1))) (checkpoint_coordinate k)") auto
    then have "\<exists>e. lock_validate_and_save_checkpoint (en_executor env) table name k (?c, w) = (Inl e, (?c, w1))"
      using load by cases (simp_all add: lock_validate_and_save_checkpoint_def bind_op_def on_target_def on_world_def
          map_err_op_def lift_op_def ok_or_def)
    then obtain e where "lock_validate_and_save_checkpoint (en_executor env) table name k (?c, w) = (Inl e, (?c, w1))"
      by blast
    with assms w1 show ?thesis
      by (auto simp: commit_target_group_def bind_op_def get_context_def modify_transaction_def modify_context_def configured)
  next
    case True
    then obtain current where current: "r1 = Inr (Some current)"
        "ensure_coordinate_advances (Some current) (checkpoint_coordinate k) = Inr ()"
      by blast
    obtain r2 w2 where save: "tx_save_checkpoint (en_executor env) table name k w1 = (r2, w2)"
      by (rule prod.exhaust)
    have w1': "in_tx w1" "vis w1 = vis w" "dur w1 = dur w"
      using w1 current by auto
    note w2 = saves [OF w1'(1) save]
    have lock: "lock_validate_and_save_checkpoint (en_executor env) table name k (?c, w)
        = (map_err (TargetError \<circ> ExecuteFailure) r2, (?c, w2))"
      using load current save by (simp add: lock_validate_and_save_checkpoint_def bind_op_def on_target_def on_world_def
          map_err_op_def lift_op_def ok_or_def)
    show ?thesis
    proof (cases r2)
      case (Inl e)
      with assms lock w2 w1' show ?thesis
        by (auto simp: commit_target_group_def bind_op_def get_context_def modify_transaction_def modify_context_def configured)
    next
      case (Inr u)
      obtain r3 w3 where commit: "tx_commit (en_executor env) w2 = (r3, w3)"
        by (rule prod.exhaust)
      have w2': "in_tx w2" "vis w2 = (fst (vis w), Some k)" "dur w2 = dur w"
        using w2 Inr w1' by auto
      note w3 = commits [OF w2'(1) commit]
      have "commit_target_group env (c, w)
          = (case r3 of Inl e \<Rightarrow> (Inl (TargetError (ExecuteFailure e)), (?c, w3))
             | Inr u \<Rightarrow> (Inr (), (c\<lparr>sx_transaction := closed_transaction\<rparr>, w3)))"
        using assms(2,3) lock Inr commit
        by (auto simp: commit_target_group_def bind_op_def get_context_def modify_transaction_def modify_context_def
            configured commit_if_open_def finish_if_open_def on_target_def on_world_def map_err_op_def split: sum.split)
      with assms(4) w3 w2' show ?thesis
        by (cases r3) auto
    qed
  qed
qed

lemma rollback_keeps:
  assumes "bind_op (rollback_if_open env) (\<lambda>_. fail_op e) (c, w) = (r, (c', w'))"
  shows "dur w' = dur w \<and> (\<exists>e. r = Inl e)"
proof -
  obtain r1 w1 where undo: "tx_rollback (en_executor env) w = (r1, w1)"
    by (rule prod.exhaust)
  with rolls_back [OF undo] assms show ?thesis
    by (cases r1)
       (auto simp: rollback_if_open_def finish_if_open_def bind_op_def get_context_def ret_op_def fail_op_def on_target_def
          on_world_def map_err_op_def modify_transaction_def modify_context_def split: if_splits)
qed

lemma store_save_keeps:
  assumes "\<not> in_tx w" and "save_coordinate_checkpoint (en_store env) coordinate event_type w = (r, w')"
  shows "\<not> in_tx w' \<and> (dur w' = dur w \<or> dur w' = (fst (dur w), Some (coordinate_checkpoint coordinate event_type)))"
proof -
  let ?k = "coordinate_checkpoint coordinate event_type"
  obtain q w1 where read: "st_for_skip store w = (q, w1)"
    by (rule prod.exhaust)
  note w1 = store_reads [OF assms(1) read]
  obtain r2 w2 where save: "st_save store ?k w1 = (r2, w2)"
    by (rule prod.exhaust)
  have w2: "\<not> in_tx w2 \<and> (dur w2 = dur w \<or> dur w2 = (fst (dur w), Some ?k))"
    using store_saves [of w1 ?k r2 w2] w1 save by auto
  have "w' = w \<or> w' = w1 \<or> w' = w2"
    using assms(2) read save
    by (auto simp: save_coordinate_checkpoint_def save_checkpoint_if_advanced_def should_skip_checkpoint_def configured
        bind_op_def ret_op_def split: sum.splits option.splits if_splits)
  with w1 w2 assms(1) show ?thesis by auto
qed

lemma not_due:
  assumes "group_inv in_tx vis dur (max (gc_size (en_group env)) 1) ok c w"
    and "gc_size (en_group env) \<le> 1 \<or> gc_timeout (en_group env) = 0"
  shows "flush_is_due env False (c, w) = (Inr False, (c, w))"
  using assms by (auto simp: flush_is_due_def should_flush_def group_inv_def Let_def has_completed_source_transactions_def
      group_timed_out_def)

lemma flush_step:
  assumes inv: "group_inv in_tx vis dur limit ok c w"
    and complete: "\<not> sx_source_row_transaction_open c \<or> tt_source_transactions (sx_transaction c) = 0"
    and run: "flush_grouped_transaction env (c, w) = (r, (c', w'))"
  shows "ok (dur w') \<and> (r = Inr () \<longrightarrow>
      group_inv in_tx vis dur limit ok c' w' \<and> same_handler c' c \<and> fst (vis w') = fst (vis w)
      \<and> sx_source_row_transaction_open c' = sx_source_row_transaction_open c
      \<and> (\<not> sx_source_row_transaction_open c \<longrightarrow> \<not> tt_open (sx_transaction c')))"
proof (cases "tt_source_transactions (sx_transaction c) = 0")
  case True
  with run inv show ?thesis
    by (auto simp: flush_grouped_transaction_def bind_op_def get_context_def has_completed_source_transactions_def
        ret_op_def group_inv_def Let_def same_handler_def)
next
  case False
  with inv complete obtain k where k: "in_tx w" "tt_open (sx_transaction c)"
      "tt_pending_transaction_checkpoint (sx_transaction c) = Some k" "ok (fst (vis w), Some k)" "ok (dur w)"
      "tt_pending_file_checkpoint (sx_transaction c) = None"
    by (auto simp: group_inv_def Let_def)
  then have "(sx_transaction c)\<lparr>tt_pending_file_checkpoint := None\<rparr> = sx_transaction c"
    by (cases "sx_transaction c") simp
  then have c: "c\<lparr>sx_transaction := (sx_transaction c)\<lparr>tt_pending_file_checkpoint := None\<rparr>\<rparr> = c"
    by (cases c) simp
  obtain r1 c1 w1 where commit: "commit_target_group env (c, w) = (r1, (c1, w1))"
    by (metis prod.exhaust)
  have same: "r = r1" "c' = c1" "w' = w1"
    using run False k commit
    by (auto simp: flush_grouped_transaction_def bind_op_def get_context_def has_completed_source_transactions_def Let_def
        modify_transaction_def modify_context_def c split: sum.splits)
  note outcome = commit_group [OF k(1-3) commit]
  show ?thesis
  proof (cases "r = Inr ()")
    case True
    then have fin: "\<not> in_tx w'" "dur w' = (fst (vis w), Some k)" "c' = c\<lparr>sx_transaction := closed_transaction\<rparr>"
      using outcome same by auto
    with idle [OF fin(1)] fin k show ?thesis
      by (simp add: group_inv_def Let_def closed_transaction_def same_handler_def)
  next
    case False
    with outcome same k show ?thesis by auto
  qed
qed

lemma handle_or_rollback_step:
  assumes "\<not> is_query event" and "is_row_event event \<longrightarrow> event_can_write_target event (sx_state c) \<longrightarrow> in_tx w"
    and "same_handler c c0" and "handle_or_rollback env header event (c, w) = (r, (c', w'))"
  shows "dur w' = dur w \<and> (\<forall>a. r = Inr a \<longrightarrow>
      in_tx w' = in_tx w \<and> snd (vis w') = snd (vis w) \<and> same_group c c'
      \<and> (eo_policy a = CommitTransaction \<longleftrightarrow> (\<exists>xid. event = XidEvent xid))
      \<and> eo_resume_coordinate a = resume_coordinate (sx_current_file c) header event
      \<and> (\<exists>c0'. plain_handle m header event (c0, fst (vis w)) = (Inr a, (c0', fst (vis w'))) \<and> same_handler c' c0'))"
proof -
  obtain r1 c1 w1 where run: "handle_structured_event (en_uppercase env) (en_executor env) (en_resolver env) header event (c, w)
      = (r1, (c1, w1))"
    by (metis prod.exhaust)
  note step = handle_step [OF assms(1-3) run]
  show ?thesis
  proof (cases r1)
    case (Inr a)
    with assms(4) run have "r = Inr a" "c' = c1" "w' = w1"
      by (auto simp: handle_or_rollback_def)
    with step handle_outcome [OF run [unfolded Inr] assms(1)] Inr show ?thesis by simp
  next
    case (Inl e)
    have "dur w' = dur w \<and> (\<exists>e. r = Inl e)"
    proof (cases "\<exists>message. e = Panicked message")
      case True
      with assms(4) run Inl step(1) show ?thesis by (auto simp: handle_or_rollback_def)
    next
      case False
      with assms(4) run Inl have "bind_op (rollback_if_open env) (\<lambda>_. fail_op e) (c1, w1) = (r, (c', w'))"
        by (cases e) (auto simp: handle_or_rollback_def)
      from rollback_keeps [OF this] step(1) show ?thesis by simp
    qed
    then show ?thesis by auto
  qed
qed

lemma begin_step:
  assumes "in_tx w = tt_open (sx_transaction c)"
    and "(if writes then begin_if_needed env else ret_op ()) (c, w) = (r, (c', w'))"
  shows "dur w' = dur w \<and> (r = Inr () \<longrightarrow>
      vis w' = vis w \<and> in_tx w' = tt_open (sx_transaction c') \<and> (writes \<longrightarrow> in_tx w') \<and> (\<not> writes \<longrightarrow> c' = c)
      \<and> same_handler c' c \<and> sx_source_row_transaction_open c' = sx_source_row_transaction_open c
      \<and> tt_pending_file_checkpoint (sx_transaction c') = tt_pending_file_checkpoint (sx_transaction c)
      \<and> tt_source_transactions (sx_transaction c') = tt_source_transactions (sx_transaction c))"
proof (cases "writes \<and> \<not> tt_open (sx_transaction c)")
  case False
  with assms show ?thesis
    by (auto simp: begin_if_needed_def bind_op_def get_context_def ret_op_def same_handler_def split: if_splits)
next
  case True
  then have out: "\<not> in_tx w"
    using assms(1) by simp
  obtain r1 w1 where b: "tx_begin (en_executor env) w = (r1, w1)"
    by (rule prod.exhaust)
  note law = begins [OF out b] idle [OF out]
  show ?thesis
    using assms(2) True b law
    by (cases r1) (auto simp: begin_if_needed_def bind_op_def get_context_def on_target_def on_world_def map_err_op_def
        modify_transaction_def modify_context_def same_handler_def)
qed

text \<open>Events without a position: row events, table maps and the events the stream ignores.\<close>

lemma inner_event_step:
  assumes size: "gc_size (en_group env) \<le> 1 \<or> gc_timeout (en_group env) = 0"
    and kind: "\<not> is_query event" "\<not> is_rotate event" "\<not> (\<exists>xid. event = XidEvent xid)"
    and past: "source_run m es start = (Inr (), (c0, fst (vis w)))"
    and same: "same_handler c (c0\<lparr>sx_state := record_event_position position (sx_state c0)\<rparr>)"
    and inv: "group_inv in_tx vis dur (max (gc_size (en_group env)) 1) (source_consistent m start stored es) c w"
    and run: "apply_stream_event_transactionally env header event (c, w) = (r, (c', w'))"
  shows "source_consistent m start stored (es @ [(header, event, position)]) (dur w')
     \<and> (\<forall>a. r = Inr a \<longrightarrow> sx_source_row_transaction_open c' = sx_source_row_transaction_open c
        \<and> stream_inv in_tx vis dur (max (gc_size (en_group env)) 1) m start stored (es @ [(header, event, position)])
          (c'\<lparr>sx_source_row_transaction_open :=
              update_source_row_transaction_state (sx_source_row_transaction_open c') event\<rparr>) w')"
proof -
  let ?es = "es @ [(header, event, position)]"
  let ?c0 = "c0\<lparr>sx_state := record_event_position position (sx_state c0)\<rparr>"
  let ?writes = "event_can_write_target event (sx_state c)"
  have tx: "in_tx w = tt_open (sx_transaction c)" and ok: "source_consistent m start stored es (dur w)"
    using inv by (simp_all add: group_inv_def Let_def)
  obtain rb cb wb where b: "(if ?writes then begin_if_needed env else ret_op ()) (c, w) = (rb, (cb, wb))"
    by (metis prod.exhaust)
  note begun = begin_step [OF tx b]
  note more = source_consistent_more [of m start stored es _ "[(header, event, position)]"]
  have whole: "apply_stream_event_transactionally env header event (c, w)
      = bind_op (if ?writes then begin_if_needed env else ret_op ()) (\<lambda>_. after_begin env header event) (c, w)"
    using transactionally_unfold [OF not_due [OF inv size] kind(2)] by simp
  show ?thesis
  proof (cases rb)
    case (Inl error)
    with whole run b begun more [OF ok] show ?thesis by (simp add: bind_op_def)
  next
    case (Inr u)
    with begun have begun: "dur wb = dur w" "vis wb = vis w" "in_tx wb = tt_open (sx_transaction cb)"
        "?writes \<Longrightarrow> in_tx wb" "\<not> ?writes \<Longrightarrow> cb = c" "same_handler cb c"
        "sx_source_row_transaction_open cb = sx_source_row_transaction_open c"
        "tt_pending_file_checkpoint (sx_transaction cb) = tt_pending_file_checkpoint (sx_transaction c)"
        "tt_source_transactions (sx_transaction cb) = tt_source_transactions (sx_transaction c)"
      by auto
    have same_b: "same_handler cb ?c0"
      using begun(6) same by (simp add: same_handler_def)
    have writes_b: "is_row_event event \<longrightarrow> event_can_write_target event (sx_state cb) \<longrightarrow> in_tx wb"
      using begun(4,6) by (simp add: same_handler_def)
    obtain r1 c1 w1 where h: "handle_or_rollback env header event (cb, wb) = (r1, (c1, w1))"
      by (metis prod.exhaust)
    note handled = handle_or_rollback_step [OF kind(1) writes_b same_b h]
    have all: "apply_stream_event_transactionally env header event (c, w) = after_begin env header event (cb, wb)"
      using whole b Inr by (simp add: bind_op_def)
    show ?thesis
    proof (cases r1)
      case error: (Inl error)
      with all run h handled begun(1) more [OF ok] show ?thesis
        by (simp add: after_begin_def bind_op_def)
    next
      case outcome: (Inr a)
      have facts: "in_tx w1 = in_tx wb" "same_group cb c1" "eo_policy a \<noteq> CommitTransaction" "eo_resume_coordinate a = None"
          "dur w1 = dur w"
        using handled outcome kind begun(1) by (auto simp: no_position)
      obtain c0' where plain: "plain_handle m header event (?c0, fst (vis w)) = (Inr a, (c0', fst (vis w1)))"
          "same_handler c1 c0'"
        using handled outcome begun(2) by auto
      have result: "r = Inr a" "c' = c1" "w' = w1"
        using all run h outcome facts(3,4)
        by (simp_all add: after_begin_def bind_op_def save_outcome_checkpoint_def ret_op_def)
      have next_run: "source_run m ?es start = (Inr (), (c0', fst (vis w1)))"
        using source_run_next [OF past plain(1)] facts(4) by simp
      have quiet: "\<not> ?writes \<and> fst (vis w1) = fst (vis w)" if "\<not> is_row_event event"
        using that kind plain_keeps_data [OF plain(1) kind(1)]
        by (cases event) (auto simp: event_can_write_target_def is_query_def is_row_event_def)
      have group: "group_inv in_tx vis dur (max (gc_size (en_group env)) 1) (source_consistent m start stored ?es)
          (c1\<lparr>sx_source_row_transaction_open :=
              update_source_row_transaction_state (sx_source_row_transaction_open c1) event\<rparr>) w1"
      proof (cases "is_row_event event")
        case True
        with inv facts begun more show ?thesis
          by (auto simp: group_inv_def Let_def same_group_def update_source_row_transaction_state_def)
      next
        case False
        moreover have "update_source_row_transaction_state x event = x" for x
          using False kind by (cases event) (auto simp: update_source_row_transaction_state_def)
        ultimately show ?thesis
          using inv facts begun more quiet by (auto simp: group_inv_def Let_def same_group_def)
      qed
      show ?thesis
        using next_run plain(2) group more [OF ok] facts(2,5) begun(7) result
        by (auto simp: stream_inv_def same_handler_def same_group_def)
    qed
  qed
qed

text \<open>Saving a position through the checkpoint store when no transaction is open.\<close>

lemma store_position_step:
  assumes closed: "\<not> in_tx w" "\<not> tt_open (sx_transaction c)"
    and coordinate: "eo_resume_coordinate outcome = Some k"
    and run: "save_outcome_checkpoint env event outcome (c, w) = (r, (c', w'))"
    and ok: "ok (dur w)" "ok (fst (vis w), Some (coordinate_checkpoint k (event_name event)))"
  shows "ok (dur w') \<and> (r = Inr () \<longrightarrow>
      \<not> in_tx w' \<and> fst (vis w') = fst (vis w) \<and> c' = c\<lparr>sx_current_file := bc_file k\<rparr>)"
proof -
  obtain r1 w1 where save: "save_coordinate_checkpoint (en_store env) k (event_name event) w = (r1, w1)"
    by (rule prod.exhaust)
  note kept = store_save_keeps [OF closed(1) save]
  have "w' = w1" "r = Inr () \<longrightarrow> c' = c\<lparr>sx_current_file := bc_file k\<rparr>"
    using run closed(2) coordinate save
    by (auto simp: save_outcome_checkpoint_def bind_op_def get_context_def on_world_def set_current_file_def
        modify_context_def split: sum.splits)
  moreover have "vis w = dur w" "vis w1 = dur w1"
    using idle closed(1) kept by blast+
  ultimately show ?thesis
    using kept ok by auto
qed

lemma commit_event_step:
  assumes size: "gc_size (en_group env) \<le> 1 \<or> gc_timeout (en_group env) = 0"
    and event: "event = XidEvent xid" and position: "0 < eh_next_event_position header"
    and past: "source_run m es start = (Inr (), (c0, fst (vis w)))"
    and same: "same_handler c (c0\<lparr>sx_state := record_event_position position (sx_state c0)\<rparr>)"
    and inv: "group_inv in_tx vis dur (max (gc_size (en_group env)) 1) (source_consistent m start stored es) c w"
    and run: "apply_stream_event_transactionally env header event (c, w) = (r, (c', w'))"
  shows "source_consistent m start stored (es @ [(header, event, position)]) (dur w')
     \<and> (\<forall>a. r = Inr a \<longrightarrow> stream_inv in_tx vis dur (max (gc_size (en_group env)) 1) m start stored (es @ [(header, event, position)])
          (c'\<lparr>sx_source_row_transaction_open := False\<rparr>) w')"
proof -
  let ?es = "es @ [(header, event, position)]"
  let ?c0 = "c0\<lparr>sx_state := record_event_position position (sx_state c0)\<rparr>"
  let ?ok = "source_consistent m start stored ?es"
  let ?at = "\<lparr>bc_file = sx_current_file c, bc_position = ucast (eh_next_event_position header)\<rparr> :: binlog_coordinate"
  let ?out = "\<lparr>eo_policy = CommitTransaction, eo_resume_coordinate = Some ?at\<rparr>"
  let ?k = "coordinate_checkpoint ?at (event_name event)"
  have current: "sx_current_file ?c0 = sx_current_file c"
    using same by (simp add: same_handler_def)
  have "plain_handle m header event (?c0, fst (vis w)) = (Inr ?out, (?c0, fst (vis w)))"
    using position current by (simp add: plain_handle_def event handle_structured_event_def apply_structured_event_def
        bind_op_def get_context_def ret_op_def resume_coordinate_def)
  from source_run_next [OF past this]
  have next_run: "source_run m ?es start = (Inr (), (?c0\<lparr>sx_current_file := sx_current_file c\<rparr>, fst (vis w)))"
    by simp
  have now: "?ok (fst (vis w), Some ?k)"
    by (rule source_consistent_now [OF next_run])
       (simp add: checkpoint_at_def resume_coordinate_def event position)
  have ok: "?ok (dur w)"
    using inv by (auto simp: group_inv_def Let_def intro: source_consistent_more)
  have "after_begin env header event (c, w) = bind_op (finish_source_transaction env event ?out False) (\<lambda>_. ret_op ?out) (c, w)"
    using position by (simp add: after_begin_def handle_or_rollback_def event handle_structured_event_def
        apply_structured_event_def bind_op_def get_context_def ret_op_def resume_coordinate_def is_query_def)
  then have run': "bind_op (finish_source_transaction env event ?out False) (\<lambda>_. ret_op ?out) (c, w) = (r, (c', w'))"
    using run transactionally_unfold [OF not_due [OF inv size], of event header]
    by (simp add: event is_rotate_def event_can_write_target_def bind_op_def ret_op_def)
  show ?thesis
  proof (cases "tt_open (sx_transaction c)")
    case False
    then have closed: "\<not> in_tx w" "tt_source_transactions (sx_transaction c) = 0" "tt_pending_file_checkpoint (sx_transaction c) = None"
      using inv by (auto simp: group_inv_def Let_def)
    have c: "c\<lparr>sx_transaction := sx_transaction c\<rparr> = c"
      by (cases c) simp
    obtain r1 c1 w1 where save: "save_outcome_checkpoint env event ?out (c, w) = (r1, (c1, w1))"
      by (metis prod.exhaust)
    note saved = store_position_step [OF closed(1) False _ save, of ?at ?ok, simplified, OF ok now]
    have result: "w' = w1" "r = Inr a \<Longrightarrow> r1 = Inr () \<and> c' = c1" for a
      using run' False closed save saved
      by (auto simp: finish_source_transaction_def bind_op_def modify_transaction_def modify_context_def
          record_source_transaction_def configured c flush_is_due_def should_flush_def has_completed_source_transactions_def
          ret_op_def split: sum.splits)
    show ?thesis
      using result saved False closed next_run same
      by (auto simp: stream_inv_def group_inv_def Let_def same_handler_def)
  next
    case True
    let ?t = "(sx_transaction c)\<lparr>tt_source_transactions := tt_source_transactions (sx_transaction c) + 1,
        tt_pending_transaction_checkpoint := Some ?k\<rparr>"
    let ?c = "c\<lparr>sx_transaction := ?t, sx_current_file := sx_current_file c\<rparr>"
    have tx: "in_tx w"
      using inv True by (simp add: group_inv_def Let_def)
    have finish: "finish_source_transaction env event ?out False (c, w)
        = (if should_flush ?t (en_group env) False (en_clock env w) then commit_target_group env (?c, w) else (Inr (), (?c, w)))"
      using True by (simp add: finish_source_transaction_def bind_op_def modify_transaction_def modify_context_def
          record_source_transaction_def configured save_outcome_checkpoint_def get_context_def set_current_file_def
          flush_is_due_def ret_op_def)
    show ?thesis
    proof (cases "should_flush ?t (en_group env) False (en_clock env w)")
      case False
      then have result: "c' = ?c" "w' = w"
        using run' finish by (auto simp: bind_op_def ret_op_def)
      have "tt_source_transactions (sx_transaction c) + 1 < max (gc_size (en_group env)) 1"
        using False by (auto simp: should_flush_def has_completed_source_transactions_def)
      then show ?thesis
        using result ok now next_run inv True same
        by (auto simp: stream_inv_def group_inv_def Let_def same_handler_def)
    next
      case due: True
      obtain r1 c1 w1 where commit: "commit_target_group env (?c, w) = (r1, (c1, w1))"
        by (metis prod.exhaust)
      have done_commit: "(dur w1 = dur w \<or> dur w1 = (fst (vis w), Some ?k))
          \<and> (r1 = Inr () \<longrightarrow> \<not> in_tx w1 \<and> dur w1 = (fst (vis w), Some ?k) \<and> c1 = ?c\<lparr>sx_transaction := closed_transaction\<rparr>)"
        by (rule commit_group [OF tx _ _ commit]) (simp_all add: True)
      have result: "w' = w1" "r = Inr a \<Longrightarrow> r1 = Inr () \<and> c' = c1" for a
        using run' finish due commit by (auto simp: bind_op_def ret_op_def split: sum.splits)
      have "?ok (dur w')"
        using done_commit ok now result(1) by auto
      moreover have "stream_inv in_tx vis dur (max (gc_size (en_group env)) 1) m start stored ?es
          (c'\<lparr>sx_source_row_transaction_open := False\<rparr>) w'" if "r = Inr a" for a
        using result(2) [OF that] result(1) done_commit idle [of w1] now next_run same
        by (auto simp: stream_inv_def group_inv_def Let_def same_handler_def closed_transaction_def)
      ultimately show ?thesis by blast
    qed
  qed
qed

lemma rotate_event_step:
  assumes size: "gc_size (en_group env) \<le> 1 \<or> gc_timeout (en_group env) = 0"
    and event: "event = RotateEvent ro" and between: "\<not> sx_source_row_transaction_open c"
    and past: "source_run m es start = (Inr (), (c0, fst (vis w)))"
    and same: "same_handler c (c0\<lparr>sx_state := record_event_position position (sx_state c0)\<rparr>)"
    and inv: "group_inv in_tx vis dur (max (gc_size (en_group env)) 1) (source_consistent m start stored es) c w"
    and run: "apply_stream_event_transactionally env header event (c, w) = (r, (c', w'))"
  shows "source_consistent m start stored (es @ [(header, event, position)]) (dur w')
     \<and> (\<forall>a. r = Inr a \<longrightarrow> sx_source_row_transaction_open c' = sx_source_row_transaction_open c
        \<and> stream_inv in_tx vis dur (max (gc_size (en_group env)) 1) m start stored (es @ [(header, event, position)]) c' w')"
proof -
  let ?es = "es @ [(header, event, position)]"
  let ?c0 = "c0\<lparr>sx_state := record_event_position position (sx_state c0)\<rparr>"
  let ?ok = "source_consistent m start stored ?es"
  let ?at = "\<lparr>bc_file = ro_binlog_filename ro, bc_position = ro_binlog_position ro\<rparr> :: binlog_coordinate"
  let ?out = "\<lparr>eo_policy = Ignore, eo_resume_coordinate = Some ?at\<rparr>"
  have "plain_handle m header event (?c0, fst (vis w)) = (Inr ?out, (?c0, fst (vis w)))"
    by (simp add: plain_handle_def event handle_structured_event_def apply_structured_event_def
        bind_op_def get_context_def ret_op_def resume_coordinate_def)
  from source_run_next [OF past this]
  have next_run: "source_run m ?es start = (Inr (), (?c0\<lparr>sx_current_file := ro_binlog_filename ro\<rparr>, fst (vis w)))"
    by simp
  have now: "?ok (fst (vis w), Some (coordinate_checkpoint ?at (event_name event)))"
    by (rule source_consistent_now [OF next_run]) (simp add: checkpoint_at_def resume_coordinate_def event)
  obtain r1 c1 w1 where flush: "flush_grouped_transaction env (c, w) = (r1, (c1, w1))"
    by (metis prod.exhaust)
  note flushed = flush_step [OF inv disjI1 [OF between] flush]
  have more: "source_consistent m start stored es x \<Longrightarrow> ?ok x" for x
    by (rule source_consistent_more)
  show ?thesis
  proof (cases r1)
    case (Inl e)
    with run flush flushed more show ?thesis
      by (auto simp: apply_stream_event_transactionally_def not_due [OF inv size] bind_op_def event is_rotate_def)
  next
    case (Inr u)
    then have f: "group_inv in_tx vis dur (max (gc_size (en_group env)) 1) (source_consistent m start stored es) c1 w1"
        "same_handler c1 c" "fst (vis w1) = fst (vis w)" "\<not> sx_source_row_transaction_open c1" "\<not> tt_open (sx_transaction c1)"
      using flushed between by auto
    then have closed: "\<not> in_tx w1" "?ok (dur w1)" "tt_source_transactions (sx_transaction c1) = 0"
        "tt_pending_file_checkpoint (sx_transaction c1) = None"
      using more by (auto simp: group_inv_def Let_def)
    obtain r2 c2 w2 where save: "save_outcome_checkpoint env event ?out (c1, w1) = (r2, (c2, w2))"
      by (metis prod.exhaust)
    note saved = store_position_step [OF closed(1) f(5) _ save, of ?at ?ok, simplified, OF closed(2) now [folded f(3)]]
    have result: "w' = w2" "r = Inr a \<Longrightarrow> r2 = Inr () \<and> c' = c2" for a
      using run flush Inr save
      by (auto simp: apply_stream_event_transactionally_def not_due [OF inv size] bind_op_def event is_rotate_def
          get_context_def event_can_write_target_def ret_op_def handle_or_rollback_def handle_structured_event_def
          apply_structured_event_def resume_coordinate_def split: sum.splits)
    show ?thesis
      using result saved f closed next_run same between
      by (auto simp: stream_inv_def group_inv_def Let_def same_handler_def)
  qed
qed

lemma transactional_step:
  assumes size: "gc_size (en_group env) \<le> 1 \<or> gc_timeout (en_group env) = 0"
    and framed: "framed (sx_source_row_transaction_open c) ((header, event, position) # rest)"
    and past: "source_run m es start = (Inr (), (c0, fst (vis w)))"
    and same: "same_handler c (c0\<lparr>sx_state := record_event_position position (sx_state c0)\<rparr>)"
    and inv: "group_inv in_tx vis dur (max (gc_size (en_group env)) 1) (source_consistent m start stored es) c w"
    and run: "apply_stream_event_transactionally env header event (c, w) = (r, (c', w'))"
  shows "source_consistent m start stored (es @ [(header, event, position)]) (dur w')
     \<and> (\<forall>a. r = Inr a \<longrightarrow>
          update_source_row_transaction_state (sx_source_row_transaction_open c') event
            = update_source_row_transaction_state (sx_source_row_transaction_open c) event
          \<and> stream_inv in_tx vis dur (max (gc_size (en_group env)) 1) m start stored (es @ [(header, event, position)])
          (c'\<lparr>sx_source_row_transaction_open :=
              update_source_row_transaction_state (sx_source_row_transaction_open c') event\<rparr>) w')"
proof -
  consider (xid) xid where "event = XidEvent xid" | (ro) ro where "event = RotateEvent ro"
    | (inner) "\<not> is_rotate event" "\<not> (\<exists>xid. event = XidEvent xid)"
    by (cases event) (auto simp: is_rotate_def)
  then show ?thesis
  proof cases
    case xid
    then have position: "0 < eh_next_event_position header"
      using framed by simp
    from commit_event_step [OF size xid position past same inv run] xid show ?thesis
      by (simp add: update_source_row_transaction_state_def is_row_event_def)
  next
    case ro
    then have between: "\<not> sx_source_row_transaction_open c"
      using framed by (simp add: is_rotate_def)
    have keep: "c'\<lparr>sx_source_row_transaction_open := sx_source_row_transaction_open c'\<rparr> = c'"
      by (cases c') simp
    have "update_source_row_transaction_state b event = b" for b
      by (simp add: ro update_source_row_transaction_state_def is_row_event_def)
    with rotate_event_step [OF size ro between past same inv run] show ?thesis
      by (simp only: keep) (auto simp: update_source_row_transaction_state_def is_row_event_def)
  next
    case inner
    have "\<not> is_query event"
      using framed by simp
    from inner_event_step [OF size this inner past same inv run] show ?thesis
      by auto
  qed
qed

lemma process_step:
  assumes size: "gc_size (en_group env) \<le> 1 \<or> gc_timeout (en_group env) = 0"
    and framed: "framed (sx_source_row_transaction_open c) ((header, event, position) # rest)"
    and inv: "stream_inv in_tx vis dur (max (gc_size (en_group env)) 1) m start stored es c w"
    and run: "process_stream_event env stop (header, event, position) (c, w) = (r, (c', w'))"
  shows "source_consistent m start stored (es @ [(header, event, position)]) (dur w')
     \<and> (\<forall>a. r = Inr a \<longrightarrow>
          sx_source_row_transaction_open c' = update_source_row_transaction_state (sx_source_row_transaction_open c) event
          \<and> stream_inv in_tx vis dur (max (gc_size (en_group env)) 1) m start stored (es @ [(header, event, position)]) c' w')"
proof -
  let ?c = "c\<lparr>sx_state := record_event_position position (sx_state c)\<rparr>"
  obtain c0 where past: "source_run m es start = (Inr (), (c0, fst (vis w)))" and same: "same_handler c c0"
      and group: "group_inv in_tx vis dur (max (gc_size (en_group env)) 1) (source_consistent m start stored es) c w"
    using inv by (auto simp: stream_inv_def)
  have same': "same_handler ?c (c0\<lparr>sx_state := record_event_position position (sx_state c0)\<rparr>)"
      and group': "group_inv in_tx vis dur (max (gc_size (en_group env)) 1) (source_consistent m start stored es) ?c w"
      and framed': "framed (sx_source_row_transaction_open ?c) ((header, event, position) # rest)"
    using same group framed by (simp_all add: same_handler_def group_inv_def)
  show ?thesis
  proof (cases "stop_position_decision stop header (sx_source_row_transaction_open c)")
    case (Inl e)
    with run have "bind_op (rollback_if_open env) (\<lambda>_. fail_op e) (c, w) = (r, (c', w'))"
      by (simp add: process_stream_event_def bind_op_def get_context_def)
    from rollback_keeps [OF this] group show ?thesis
      by (auto simp: group_inv_def Let_def intro: source_consistent_more)
  next
    case (Inr d)
    obtain r1 c1 w1 where applied: "apply_stream_event_transactionally env header event (?c, w) = (r1, (c1, w1))"
      by (metis prod.exhaust)
    have "handle_query_ddl env header event = ret_op None"
      using framed by (cases event) (auto simp: handle_query_ddl_def is_query_def)
    then have result: "w' = w1" "r = Inr a \<Longrightarrow> (\<exists>b. r1 = Inr b) \<and> c' = c1\<lparr>sx_source_row_transaction_open :=
        update_source_row_transaction_state (sx_source_row_transaction_open c1) event\<rparr>" for a
      using run Inr applied
      by (auto simp: process_stream_event_def bind_op_def get_context_def modify_state_def modify_context_def
          dispatch_stream_event_def ret_op_def split: sum.splits)
    show ?thesis
      using transactional_step [OF size framed' past same' group' applied] result by auto
  qed
qed

lemma ending_flush:
  assumes "stream_inv in_tx vis dur (max (gc_size (en_group env)) 1) m start stored es c w"
    and "gc_size (en_group env) \<le> 1 \<or> \<not> sx_source_row_transaction_open c"
    and "bind_op (flush_grouped_transaction env) f (c, w) = (r, (c', w'))" "\<And>s. snd (f () s) = s"
  shows "source_consistent m start stored es (dur w')"
proof -
  have inv: "group_inv in_tx vis dur (max (gc_size (en_group env)) 1) (source_consistent m start stored es) c w"
    using assms(1) by (simp add: stream_inv_def)
  have complete: "\<not> sx_source_row_transaction_open c \<or> tt_source_transactions (sx_transaction c) = 0"
    using assms(2) inv by (auto simp: group_inv_def Let_def)
  obtain r1 c1 w1 where flush: "flush_grouped_transaction env (c, w) = (r1, (c1, w1))"
    by (metis prod.exhaust)
  have "w' = w1"
    using assms(3) assms(4) [of "(c1, w1)"] flush by (cases r1) (auto simp: bind_op_def)
  with flush_step [OF inv complete flush] show ?thesis by simp
qed

lemma bounded_stop_keeps:
  assumes inv: "stream_inv in_tx vis dur (max (gc_size (en_group env)) 1) m start stored es c w"
    and run: "complete_bounded_stop env (c, w) = (r, (c', w'))"
  shows "source_consistent m start stored es (dur w')"
proof (cases "sx_source_row_transaction_open c")
  case True
  then obtain e where "bind_op (rollback_if_open env) (\<lambda>_. fail_op e) (c, w) = (r, (c', w'))"
    using run by (auto simp: complete_bounded_stop_def bind_op_def get_context_def bounded_stop_completion_error_def)
  from rollback_keeps [OF this] inv show ?thesis
    by (simp add: stream_inv_def group_inv_def Let_def)
next
  case False
  then have "bind_op (flush_grouped_transaction env) ret_op (c, w) = (r, (c', w'))"
    using run by (simp add: complete_bounded_stop_def bind_op_def get_context_def bounded_stop_completion_error_def ret_op_def
        split: prod.splits sum.splits)
  from ending_flush [OF inv _ this] False show ?thesis by (simp add: ret_op_def)
qed

lemma stream_end_keeps:
  assumes inv: "stream_inv in_tx vis dur (max (gc_size (en_group env)) 1) m start stored es c w"
    and complete: "gc_size (en_group env) \<le> 1 \<or> failures \<noteq> [] \<or> \<not> sx_source_row_transaction_open c"
    and run: "stream_events env stop (map Inl failures) (c, w) = (r, (c', w'))"
  shows "source_consistent m start stored es (dur w')"
proof -
  have keeps: ?thesis if "bind_op (rollback_if_open env) (\<lambda>_. fail_op e) (c, w) = (r, (c', w'))" for e
    using rollback_keeps [OF that] inv by (simp add: stream_inv_def group_inv_def Let_def)
  show ?thesis
  proof (cases "failures = [] \<and> stop = None")
    case True
    then have "bind_op (flush_grouped_transaction env) (\<lambda>_. fail_op stream_ended_error) (c, w) = (r, (c', w'))"
      using run by (simp add: finish_stream_def)
    from ending_flush [OF inv _ this] complete True show ?thesis by (auto simp: fail_op_def)
  next
    case False
    with run keeps show ?thesis
      by (cases failures; cases stop) (auto simp: finish_stream_def)
  qed
qed

lemma stream_keeps:
  assumes "gc_size (en_group env) \<le> 1
      \<or> gc_timeout (en_group env) = 0 \<and> (failures \<noteq> [] \<or> \<not> transaction_open_after (sx_source_row_transaction_open c) rest)"
    and "framed (sx_source_row_transaction_open c) rest"
    and "stream_inv in_tx vis dur (max (gc_size (en_group env)) 1) m start stored es c w"
    and "stream_events env stop (map Inr rest @ map Inl failures) (c, w) = (r, (c', w'))"
  shows "source_consistent m start stored (es @ rest) (dur w')"
  using assms
proof (induction rest arbitrary: es c w)
  case Nil
  then show ?case
    using stream_end_keeps [of start stored es c w failures stop] by (auto simp: transaction_open_after_def)
next
  case (Cons e rest)
  obtain header event position where e: "e = (header, event, position)"
    by (metis prod.exhaust)
  obtain r1 c1 w1 where p: "process_stream_event env stop e (c, w) = (r1, (c1, w1))"
    by (metis prod.exhaust)
  have size: "gc_size (en_group env) \<le> 1 \<or> gc_timeout (en_group env) = 0"
    using Cons.prems(1) by (elim disjE conjE) simp_all
  note step = process_step [OF size Cons.prems(2) [unfolded e] Cons.prems(3) p [unfolded e]]
  have more: "source_consistent m start stored (es @ [e]) x \<Longrightarrow> source_consistent m start stored (es @ e # rest) x" for x
    using source_consistent_more [of m start stored "es @ [e]" x rest] by simp
  show ?case
  proof (cases r1)
    case (Inl error)
    with Cons.prems(4) p step e more show ?thesis by (auto simp: bind_op_def)
  next
    case (Inr d)
    then have c1: "sx_source_row_transaction_open c1 = update_source_row_transaction_state (sx_source_row_transaction_open c) event"
        "stream_inv in_tx vis dur (max (gc_size (en_group env)) 1) m start stored (es @ [e]) c1 w1"
      using step e by auto
    show ?thesis
    proof (cases "d = DispatchAndStop")
      case True
      with Cons.prems(4) p Inr have "complete_bounded_stop env (c1, w1) = (r, (c', w'))"
        by (simp add: bind_op_def)
      from bounded_stop_keeps [OF c1(2) this] more show ?thesis by blast
    next
      case False
      with Cons.prems(4) p Inr
      have run: "stream_events env stop (map Inr rest @ map Inl failures) (c1, w1) = (r, (c', w'))"
        by (simp add: bind_op_def)
      have "source_consistent m start stored ((es @ [e]) @ rest) (dur w')"
        by (rule Cons.IH [OF _ _ c1(2) run])
           (use Cons.prems(1,2) e c1(1) in \<open>simp_all add: transaction_open_after_def\<close>)
      then show ?thesis by simp
    qed
  qed
qed

end

end
