(* ===== verification/Stream_Durable.thy ===== *)
theory Stream_Durable
  imports Stream_Atomic
begin

text \<open>
  The stream on a target kept in memory, and the properties of the stream that rest on the interface
  \<open>stream_target\<close>: what is durable belongs to one position of the source, and the case in which
  the code commits part of a source transaction.
\<close>

section \<open>A target in memory\<close>

text \<open>The data is the list of row changes that were applied; a transaction works on a copy.\<close>

type_synonym change_log = "target_row_change list"

record memory_target =
  mt_committed :: "change_log \<times> checkpoint option"
  mt_working :: "(change_log \<times> checkpoint option) option"
  mt_clock :: nat

definition memory_view :: "memory_target \<Rightarrow> change_log \<times> checkpoint option" where
  "memory_view w = (case mt_working w of None \<Rightarrow> mt_committed w | Some x \<Rightarrow> x)"

definition memory_in_tx :: "memory_target \<Rightarrow> bool" where
  "memory_in_tx w \<longleftrightarrow> mt_working w \<noteq> None"

definition memory_write ::
  "(change_log \<times> checkpoint option \<Rightarrow> change_log \<times> checkpoint option) \<Rightarrow> memory_target \<Rightarrow> memory_target"
where
  "memory_write f w =
     (case mt_working w of
        None \<Rightarrow> w\<lparr>mt_committed := f (mt_committed w)\<rparr>
      | Some x \<Rightarrow> w\<lparr>mt_working := Some (f x)\<rparr>)"

definition log_change :: "target_row_change \<Rightarrow> change_log \<Rightarrow> change_log" where
  "log_change change changes = changes @ [change]"

definition memory_executor :: "memory_target target_executor" where
  "memory_executor =
     \<lparr>tx_execute = (\<lambda>_ w. (Inr (), w)),
      tx_execute_row_change = (\<lambda>change w. (Inr (), memory_write (\<lambda>x. (log_change change (fst x), snd x)) w)),
      tx_begin = (\<lambda>w. (Inr (), w\<lparr>mt_working := Some (memory_view w)\<rparr>)),
      tx_load_checkpoint = (\<lambda>_ _ w. (Inr (snd (memory_view w)), w)),
      tx_save_checkpoint = (\<lambda>_ _ k w. (Inr (), memory_write (\<lambda>x. (fst x, Some k)) w)),
      tx_commit = (\<lambda>w. (Inr (), w\<lparr>mt_committed := memory_view w, mt_working := None\<rparr>)),
      tx_rollback = (\<lambda>w. (Inr (), w\<lparr>mt_working := None\<rparr>))\<rparr>"

definition memory_store :: "memory_target stream_store" where
  "memory_store =
     \<lparr>st_load = (\<lambda>w. (Inr (snd (mt_committed w)), w)),
      st_save = (\<lambda>k w. (Inr (), w\<lparr>mt_committed := (fst (mt_committed w), Some k)\<rparr>)),
      st_for_skip = (\<lambda>w. (Inr (snd (mt_committed w)), w))\<rparr>"

definition users_schema :: resolved_table_schema where
  "users_schema =
     \<lparr>rs_columns = [''id''], rs_primary_key = [''id''], rs_generated_columns = [], rs_signed_columns = [],
      rs_enum_columns = [], rs_set_columns = []\<rparr>"

definition users_answer :: "string \<Rightarrow> string \<Rightarrow> nat \<Rightarrow> apply_binlog_error + resolved_table_schema" where
  "users_answer schema table n =
     (if table = ''users'' then Inr users_schema else Inl (MappingFailed (TableNotFound schema table)))"

definition memory_env :: "nat \<Rightarrow> nat \<Rightarrow> memory_target stream_env" where
  "memory_env group_size timeout =
     \<lparr>en_uppercase = (\<lambda>c. [c]), en_executor = memory_executor, en_resolver = plain_resolver users_answer,
      en_clock = mt_clock, en_store = Some memory_store, en_table = Some default_stream_checkpoint_table,
      en_name = Some (stream_checkpoint_name ''production''), en_group = \<lparr>gc_size = group_size, gc_timeout = timeout\<rparr>,
      en_ddl = (\<lambda>_ _. ret_op None)\<rparr>"

definition users_meaning :: "change_log source_meaning" where
  "users_meaning = \<lparr>sm_uppercase = (\<lambda>c. [c]), sm_effect = log_change, sm_answer = users_answer\<rparr>"

lemma memory_stream_target:
  "stream_target (memory_env group_size timeout) memory_in_tx memory_view mt_committed users_meaning memory_store
     default_stream_checkpoint_table (stream_checkpoint_name ''production'')"
proof unfold_locales
  show "steady_resolver (\<lambda>w w'. memory_in_tx w' = memory_in_tx w \<and> memory_view w' = memory_view w \<and> mt_committed w' = mt_committed w)
      (en_resolver (memory_env group_size timeout)) (sm_answer users_meaning)"
    by (simp add: steady_resolver_def steady_def memory_env_def plain_resolver_def lift_op_def users_meaning_def)
qed (auto simp: memory_env_def users_meaning_def memory_in_tx_def memory_view_def memory_executor_def memory_store_def
    memory_write_def log_change_def split: option.splits)

interpretation users_stream: stream_target "memory_env 1 0" memory_in_tx memory_view mt_committed users_meaning memory_store
  default_stream_checkpoint_table "stream_checkpoint_name ''production''"
  by (rule memory_stream_target)

section \<open>An example stream\<close>

definition event_at :: "u32 \<Rightarrow> u32 \<Rightarrow> binlog_event \<Rightarrow> source_event" where
  "event_at event_start event_end event =
     (\<lparr>eh_server_id = 1, eh_event_length = event_end - event_start, eh_next_event_position = event_end\<rparr>, event, ucast event_start)"

definition users_map :: binlog_event where
  "users_map =
     TableMapEvent \<lparr>ct_table_id = 7, ct_database_name = ''app'', ct_table_name = ''users'', ct_column_types = [3],
                    ct_column_metadata = [0], ct_table_metadata = None\<rparr>"

definition insert_user :: "u32 \<Rightarrow> binlog_event" where
  "insert_user user = WriteRowsEvent \<lparr>re_table_id = 7, re_columns_present = [True], re_rows = [[Some (MInt user)]]\<rparr>"

text \<open>A transaction that inserts user 1 and commits at 300, and the first half of another one.\<close>

definition first_transaction :: "source_event list" where
  "first_transaction = [event_at 100 150 users_map, event_at 150 200 (insert_user 1), event_at 200 300 (XidEvent 1)]"

definition half_transaction :: "source_event list" where
  "half_transaction = [event_at 300 350 users_map, event_at 350 400 (insert_user 2)]"

definition app_config :: apply_binlog_config where
  "app_config = default_apply_binlog_config\<lparr>ab_source :=
     default_source_binlog_config\<lparr>sb_database := Some ''app'', sb_binlog_file := ''bin.7'', sb_start_position := 100\<rparr>\<rparr>"

definition app_start :: checkpoint where
  "app_start = coordinate_checkpoint \<lparr>bc_file = ''bin.7'', bc_position = 100\<rparr> ''XidEvent''"

definition app_target :: memory_target where
  "app_target = \<lparr>mt_committed = ([], Some app_start), mt_working = None, mt_clock = 0\<rparr>"

definition run_users :: "nat \<Rightarrow> source_event list \<Rightarrow> memory_target" where
  "run_users group_size es = snd (snd (stream_events (memory_env group_size 0) None (map Inr es) (initial_context app_config, app_target)))"

section \<open>Bounded streams\<close>

definition event_end :: "source_event \<Rightarrow> u64" where
  "event_end e = ucast (eh_next_event_position (fst e))"

lemma process_decides:
  assumes "process_stream_event env (Some stop) e (c, w) = (Inr decision, s')"
  shows "if decision = DispatchAndStop then event_end e = stop \<and> stop \<noteq> 0 else event_end e = 0 \<or> event_end e < stop"
proof -
  obtain header event position where e: "e = (header, event, position)"
    by (metis prod.exhaust)
  have d: "stop_position_decision (Some stop) header (sx_source_row_transaction_open c) = Inr decision"
    using assms by (auto simp: e process_stream_event_def bind_op_eq_Inr get_context_def fail_op_def ret_op_def split: sum.splits)
  define x where "x = (ucast (eh_next_event_position header) :: u64)"
  have "if decision = DispatchAndStop then x = stop \<and> stop \<noteq> 0 else x = 0 \<or> x < stop"
    using d unfolding stop_position_decision_def option.case Let_def x_def [symmetric]
    by (auto split: if_splits)
  then show ?thesis
    unfolding e event_end_def fst_conv x_def .
qed

lemma bounded_stream:
  "stream_events env (Some stop) (map Inr es) s = (Inr (), s') \<Longrightarrow>
     \<exists>before last later. es = before @ last # later \<and> event_end last = stop \<and> stop \<noteq> 0
        \<and> (\<forall>e \<in> set before. event_end e = 0 \<or> event_end e < stop)
        \<and> stream_events env (Some stop) (map Inr (before @ [last])) s = (Inr (), s')"
proof (induction es arbitrary: s)
  case Nil
  then show ?case by (auto simp: finish_stream_def bind_op_eq_Inr fail_op_def)
next
  case (Cons e es)
  then obtain decision s1 where p: "process_stream_event env (Some stop) e s = (Inr decision, s1)"
      and rest: "(if decision = DispatchAndStop then complete_bounded_stop env
        else stream_events env (Some stop) (map Inr es)) s1 = (Inr (), s')"
    by (auto simp: bind_op_eq_Inr)
  note ends = process_decides [of env stop e "fst s" "snd s" decision s1, simplified, OF p]
  show ?case
  proof (cases "decision = DispatchAndStop")
    case True
    with p rest ends have "event_end e = stop" "stop \<noteq> 0"
        "stream_events env (Some stop) (map Inr ([] @ [e])) s = (Inr (), s')"
      by (simp_all add: bind_op_def)
    then show ?thesis
      by (intro exI [of _ "[]"] exI [of _ e] exI [of _ es]) simp
  next
    case False
    with rest have "stream_events env (Some stop) (map Inr es) s1 = (Inr (), s')" by simp
    from Cons.IH [OF this] obtain before last later where ih: "es = before @ last # later" "event_end last = stop" "stop \<noteq> 0"
        "\<forall>e \<in> set before. event_end e = 0 \<or> event_end e < stop"
        "stream_events env (Some stop) (map Inr (before @ [last])) s1 = (Inr (), s')"
      by blast
    have "stream_events env (Some stop) (map Inr ((e # before) @ [last])) s = (Inr (), s')"
      using p False ih(5) by (simp add: bind_op_def)
    with ih ends False show ?thesis
      by (intro exI [of _ "e # before"] exI [of _ last] exI [of _ later]) simp
  qed
qed

section \<open>Properties\<close>



text \<open>C40. A group of two can be committed in the middle of a source transaction: when the stream ends after
  a whole transaction and half of the next one, both inserted rows are durable with the checkpoint of
  the first transaction, a state that belongs to no position of the source.
\<close>

theorem partial_transaction_committed:
  "map rc_values (fst (mt_committed (run_users 2 (first_transaction @ half_transaction))))
     = [[(''id'', SqlUInt 1)], [(''id'', SqlUInt 2)]]
   \<and> map_option ck_source_position (snd (mt_committed (run_users 2 (first_transaction @ half_transaction)))) = Some 300
   \<and> \<not> source_consistent users_meaning (initial_context app_config, []) (Some app_start) (first_transaction @ half_transaction)
         (mt_committed (run_users 2 (first_transaction @ half_transaction)))"
proof -
  let ?es = "first_transaction @ half_transaction"
  let ?x = "mt_committed (run_users 2 ?es)"
  let ?run = "\<lambda>n. source_run users_meaning (take n ?es) (initial_context app_config, [])"
  have rows: "map rc_values (fst ?x) = [[(''id'', SqlUInt 1)], [(''id'', SqlUInt 2)]]"
    by code_simp
  have at: "map_option ck_source_position (snd ?x) = Some 300"
    by code_simp
  have "list_all (\<lambda>n. length (snd (snd (?run n))) \<le> 1) [0..<5]" "length ?es = 5"
    by code_simp+
  then have short: "length (snd (snd (?run n))) \<le> 1" if "n < 5" for n
    using that by (simp add: list_all_iff)
  have row_event: "checkpoint_at c (?es ! 4) = None" for c
    by (simp add: first_transaction_def half_transaction_def event_at_def insert_user_def checkpoint_at_def
        resume_coordinate_def)
  have two: "length (fst ?x) = 2"
    using rows by (metis length_map length_Cons list.size(3) numeral_2_eq_2)
  have "\<not> source_consistent users_meaning (initial_context app_config, []) (Some app_start) ?es ?x"
  proof
    assume "source_consistent users_meaning (initial_context app_config, []) (Some app_start) ?es ?x"
    then obtain n c where n: "n \<le> 5" "?run n = (Inr (), (c, fst ?x))"
        "if n = 0 then snd ?x = Some app_start else snd ?x \<noteq> None \<and> checkpoint_at c (?es ! (n - 1)) = snd ?x"
      using \<open>length ?es = 5\<close> unfolding source_consistent_def by auto
    have "n = 5"
      using short [of n] n(1,2) two by (cases "n = 5") auto
    with n(3) row_event show False by auto
  qed
  with rows at show ?thesis by blast
qed

text \<open>C36. A bounded stream stops exactly: when a stream with a stop position returns successfully, it has
  applied the events up to one that ends at that position, every earlier event ends before it or
  carries no position, and the events behind it were never looked at. A stream without such an event
  never returns successfully.
\<close>

theorem bounded_stop_exact:
  assumes "stream_events env (Some stop) (map Inr es) s = (Inr (), s')"
  shows "\<exists>before last later. es = before @ last # later \<and> event_end last = stop \<and> stop \<noteq> 0
     \<and> (\<forall>e \<in> set before. event_end e = 0 \<or> event_end e < stop)
     \<and> stream_events env (Some stop) (map Inr (before @ [last])) s = (Inr (), s')"
  using assms by (rule bounded_stream)

theorem bounded_stop_exact_witness:
  "\<exists>before last later. first_transaction @ half_transaction = before @ last # later \<and> event_end last = 300"
proof -
  let ?run = "stream_events (memory_env 2 0) (Some 300) (map Inr (first_transaction @ half_transaction))
      (initial_context app_config, app_target)"
  have "(case fst ?run of Inr _ \<Rightarrow> True | Inl _ \<Rightarrow> False)"
    by code_simp
  then have "?run = (Inr (), snd ?run)"
    by (cases ?run) (auto split: sum.splits)
  from bounded_stop_exact [OF this] show ?thesis by blast
qed

end
