(* ===== verification/Ddl_Journal.thy ===== *)
theory Ddl_Journal
  imports Stream_Config
begin

text \<open>
  The journal of schema changes (\<open>src/src/live/ddl_event.rs\<close>, \<open>src/src/live/ddl_replay_journal.rs\<close>,
  \<open>src/src/live/ddl_replay_journal/store.rs\<close>): the identity of a schema change, its status, the
  statements on the journal table and the journal over a connection. The connection is a record of
  operations; a write reports the number of affected rows.
\<close>

section \<open>Events, evidence and status\<close>

record ddl_event =
  de_source_identity :: string
  de_source_server_id :: u32
  de_binlog_file :: string
  de_event_start_position :: u64
  de_event_end_position :: u64
  de_schema_name :: string
  de_raw_sql :: string

record ddl_evidence =
  ev_transformation_version :: string
  ev_generated_sql :: "string option"
  ev_canonical_ast :: string
  ev_pre_state :: string
  ev_expected_post_state :: string

datatype ddl_replay_status = TranslationPending | Prepared | Applied | Checkpointed | Blocked

datatype ddl_replay_action = PrepareAndExecute | CheckpointOnly | AlreadyCheckpointed

datatype ddl_family = TableF | IndexF | ViewF | ProcedureF | FunctionF | EventF | TriggerF | RenameF | TruncateF | DropF

datatype prepared_reconciliation = ProvenApplied | ReconcileBlocked

definition status_str :: "ddl_replay_status \<Rightarrow> string" where
  "status_str status =
     (case status of
        TranslationPending \<Rightarrow> ''translation_pending''
      | Prepared \<Rightarrow> ''prepared''
      | Applied \<Rightarrow> ''applied''
      | Checkpointed \<Rightarrow> ''checkpointed''
      | Blocked \<Rightarrow> ''blocked'')"

definition family_str :: "ddl_family \<Rightarrow> string" where
  "family_str family =
     (case family of
        TableF \<Rightarrow> ''table'' | IndexF \<Rightarrow> ''index'' | ViewF \<Rightarrow> ''view'' | ProcedureF \<Rightarrow> ''procedure''
      | FunctionF \<Rightarrow> ''function'' | EventF \<Rightarrow> ''event'' | TriggerF \<Rightarrow> ''trigger'' | RenameF \<Rightarrow> ''rename''
      | TruncateF \<Rightarrow> ''truncate'' | DropF \<Rightarrow> ''drop'')"

definition parse_status :: "string \<Rightarrow> string + ddl_replay_status" where
  "parse_status status =
     (if status = ''translation_pending'' then Inr TranslationPending
      else if status = ''prepared'' then Inr Prepared
      else if status = ''applied'' then Inr Applied
      else if status = ''checkpointed'' then Inr Checkpointed
      else if status = ''blocked'' then Inr Blocked
      else Inl (''unknown automatic DDL journal status `'' @ status @ ''`''))"

definition reconcile_prepared :: "ddl_evidence \<Rightarrow> string \<Rightarrow> prepared_reconciliation" where
  "reconcile_prepared evidence observed_state =
     (if ev_pre_state evidence \<noteq> ev_expected_post_state evidence \<and> observed_state = ev_expected_post_state evidence
      then ProvenApplied else ReconcileBlocked)"

definition prepared_reconciliation_block_reason :: "ddl_evidence \<Rightarrow> string \<Rightarrow> string" where
  "prepared_reconciliation_block_reason evidence observed_state =
     (if ev_pre_state evidence = ev_expected_post_state evidence
      then ''immutable pre-state and expected post-state are identical''
      else if observed_state = ev_pre_state evidence then ''observed target still matches immutable pre-state''
      else if observed_state = ev_expected_post_state evidence then ''observed target matches expected post-state''
      else ''pre-state mismatch: observed target matches neither immutable pre-state nor expected post-state'')"

definition u64_str :: "u64 \<Rightarrow> string" where
  "u64_str x = nat_str (unat x)"

definition event_place :: "ddl_event \<Rightarrow> string" where
  "event_place event = de_binlog_file event @ '':'' @ u64_str (de_event_start_position event)"

definition replay_action :: "ddl_event \<Rightarrow> ddl_replay_status option \<Rightarrow> string + ddl_replay_action" where
  "replay_action event status =
     (case status of
        None \<Rightarrow> Inr PrepareAndExecute
      | Some TranslationPending \<Rightarrow> Inr PrepareAndExecute
      | Some Prepared \<Rightarrow>
          Inl (''ambiguous automatic DDL at '' @ event_place event
            @ ''; inspect target state before resolving journal entry'')
      | Some Blocked \<Rightarrow>
          Inl (''blocked automatic DDL at '' @ event_place event @ '' requires operator resolution'')
      | Some Applied \<Rightarrow> Inr CheckpointOnly
      | Some Checkpointed \<Rightarrow> Inr AlreadyCheckpointed)"

section \<open>The barrier\<close>

record journal_barrier =
  jb_binlog_file :: string
  jb_event_start_position :: u64
  jb_status :: ddl_replay_status

definition enforce_no_overtake :: "journal_barrier option \<Rightarrow> string \<Rightarrow> u64 \<Rightarrow> string + unit" where
  "enforce_no_overtake unresolved next_file next_position =
     (case unresolved of
        None \<Rightarrow> Inr ()
      | Some barrier \<Rightarrow>
          (if jb_binlog_file barrier < next_file
              \<or> jb_binlog_file barrier = next_file \<and> jb_event_start_position barrier < next_position
           then Inl (''automatic DDL barrier at '' @ jb_binlog_file barrier @ '':'' @ u64_str (jb_event_start_position barrier)
             @ '' ('' @ status_str (jb_status barrier) @ '') blocks later event '' @ next_file @ '':'' @ u64_str next_position)
           else Inr ()))"

section \<open>Statements\<close>

definition quoted :: "string \<Rightarrow> string" where
  "quoted s = [apostrophe] @ s @ [apostrophe]"

definition optional_literal :: "string option \<Rightarrow> string" where
  "optional_literal s = (case s of None \<Rightarrow> ''NULL'' | Some text \<Rightarrow> quote_sql_literal text)"

definition u32_str :: "u32 \<Rightarrow> string" where
  "u32_str x = nat_str (unat x)"

definition journal_columns_text :: string where
  "journal_columns_text =
     '' (source_identity,source_server_id,binlog_file,event_start_position,event_end_position,schema_name,raw_sql,transformation_version,generated_sql,canonical_ast,pre_state,expected_post_state,status) VALUES (''"

definition event_values :: "ddl_event \<Rightarrow> string" where
  "event_values event =
     quote_sql_literal (de_source_identity event) @ '','' @ u32_str (de_source_server_id event) @ '',''
       @ quote_sql_literal (de_binlog_file event) @ '','' @ u64_str (de_event_start_position event) @ '',''
       @ u64_str (de_event_end_position event) @ '','' @ quote_sql_literal (de_schema_name event) @ '',''
       @ quote_sql_literal (de_raw_sql event)"

definition event_filter :: "ddl_event \<Rightarrow> string" where
  "event_filter event =
     '' WHERE source_identity='' @ quote_sql_literal (de_source_identity event)
       @ '' AND source_server_id='' @ u32_str (de_source_server_id event)
       @ '' AND binlog_file='' @ quote_sql_literal (de_binlog_file event)
       @ '' AND event_start_position='' @ u64_str (de_event_start_position event)
       @ '' AND event_end_position='' @ u64_str (de_event_end_position event)
       @ '' AND schema_name='' @ quote_sql_literal (de_schema_name event)
       @ '' AND raw_sql='' @ quote_sql_literal (de_raw_sql event)"

definition evidence_assignments :: "ddl_evidence \<Rightarrow> string" where
  "evidence_assignments evidence =
     '' SET transformation_version='' @ quote_sql_literal (ev_transformation_version evidence)
       @ '',generated_sql='' @ optional_literal (ev_generated_sql evidence)
       @ '',canonical_ast='' @ quote_sql_literal (ev_canonical_ast evidence)
       @ '',pre_state='' @ quote_sql_literal (ev_pre_state evidence)
       @ '',expected_post_state='' @ quote_sql_literal (ev_expected_post_state evidence)"

definition build_translation_pending_sql :: "string \<Rightarrow> ddl_event \<Rightarrow> string" where
  "build_translation_pending_sql table event =
     ''INSERT INTO '' @ quote_identifier_path table @ journal_columns_text @ event_values event
       @ '','' @ quoted ''translator-unavailable'' @ '',NULL,'' @ quoted [] @ '','' @ quoted [] @ '','' @ quoted []
       @ '','' @ quoted ''translation_pending'' @ '')''"

definition build_promote_translation_sql :: "string \<Rightarrow> ddl_event \<Rightarrow> ddl_evidence \<Rightarrow> string" where
  "build_promote_translation_sql table event evidence =
     ''UPDATE '' @ quote_identifier_path table @ evidence_assignments evidence @ '',status='' @ quoted ''prepared''
       @ event_filter event @ '' AND status='' @ quoted ''translation_pending''"

definition build_prepare_sql :: "string \<Rightarrow> ddl_event \<Rightarrow> ddl_evidence \<Rightarrow> string" where
  "build_prepare_sql table event evidence =
     ''INSERT INTO '' @ quote_identifier_path table @ journal_columns_text @ event_values event
       @ '','' @ quote_sql_literal (ev_transformation_version evidence)
       @ '','' @ optional_literal (ev_generated_sql evidence)
       @ '','' @ quote_sql_literal (ev_canonical_ast evidence)
       @ '','' @ quote_sql_literal (ev_pre_state evidence)
       @ '','' @ quote_sql_literal (ev_expected_post_state evidence) @ '','' @ quoted ''prepared'' @ '')''"

definition escape_like :: "string \<Rightarrow> string" where
  "escape_like s = concat (map (\<lambda>c. if c \<in> {CHR ''='', CHR ''%'', CHR ''_''} then [CHR ''='', c] else [c]) s)"

definition build_barrier_select_sql :: "string \<Rightarrow> string \<Rightarrow> string \<Rightarrow> string" where
  "build_barrier_select_sql journal_table recovery_table source_identity =
     ''SELECT journal.binlog_file,journal.event_start_position,journal.status FROM '' @ quote_identifier_path journal_table
       @ '' journal WHERE journal.source_identity LIKE ''
       @ quote_sql_literal (escape_like source_identity @ ''#server-id==%'') @ '' ESCAPE '' @ quoted ''=''
       @ '' AND journal.status IN ('' @ quoted ''translation_pending'' @ '','' @ quoted ''prepared'' @ '','' @ quoted ''blocked''
       @ '') AND NOT EXISTS (SELECT 1 FROM '' @ quote_identifier_path recovery_table
       @ '' recovery WHERE recovery.status IN ('' @ quoted ''committed'' @ '','' @ quoted ''verified''
       @ '') AND recovery.old_barrier_source_identity = journal.source_identity AND recovery.old_barrier_file = journal.binlog_file AND recovery.old_barrier_start_position = journal.event_start_position AND recovery.old_barrier_end_position = journal.event_end_position AND recovery.old_barrier_raw_sql_sha256 = SHA2(journal.raw_sql, 256)) ORDER BY journal.binlog_file,journal.event_start_position LIMIT 1''"

definition build_status_select_sql :: "string \<Rightarrow> ddl_event \<Rightarrow> string" where
  "build_status_select_sql table event =
     ''SELECT source_server_id,status,raw_sql,event_end_position,schema_name,transformation_version,generated_sql,canonical_ast,pre_state,expected_post_state FROM ''
       @ quote_identifier_path table @ '' WHERE source_identity='' @ quote_sql_literal (de_source_identity event)
       @ '' AND binlog_file='' @ quote_sql_literal (de_binlog_file event)
       @ '' AND event_start_position='' @ u64_str (de_event_start_position event) @ '' LIMIT 1''"

definition build_transition_sql :: "string \<Rightarrow> ddl_event \<Rightarrow> ddl_replay_status \<Rightarrow> ddl_replay_status \<Rightarrow> string" where
  "build_transition_sql table event from_status to_status =
     ''UPDATE '' @ quote_identifier_path table @ '' SET status='' @ quoted (status_str to_status) @ event_filter event
       @ '' AND status='' @ quoted (status_str from_status)"

definition build_recover_blocked_sql :: "string \<Rightarrow> ddl_event \<Rightarrow> ddl_evidence \<Rightarrow> string" where
  "build_recover_blocked_sql table event evidence =
     ''UPDATE '' @ quote_identifier_path table @ evidence_assignments evidence @ '',status='' @ quoted ''applied''
       @ event_filter event @ '' AND status='' @ quoted ''blocked''"

section \<open>The journal over a connection\<close>

record journal_row =
  jr_source_server_id :: u32
  jr_status :: string
  jr_raw_sql :: string
  jr_event_end_position :: u64
  jr_schema_name :: string
  jr_evidence :: ddl_evidence

record 'w journal_conn =
  jc_row :: "string \<Rightarrow> ('w, string, journal_row option) op"
  jc_barrier_row :: "string \<Rightarrow> ('w, string, (string \<times> u64 \<times> string) option) op"
  jc_write :: "string \<Rightarrow> ('w, string, nat) op"

definition mysql_error :: "string \<Rightarrow> string" where
  "mysql_error error = ''automatic DDL journal mysql error: '' @ error"

definition recovery_table :: string where
  "recovery_table = ''cdc.stream_recovery_records''"

definition identity_mismatches :: "ddl_event \<Rightarrow> journal_row \<Rightarrow> string list" where
  "identity_mismatches event row =
     (if jr_source_server_id row \<noteq> de_source_server_id event then [''source_server_id''] else [])
     @ (if jr_schema_name row \<noteq> de_schema_name event then [''schema_name''] else [])
     @ (if jr_raw_sql row \<noteq> de_raw_sql event then [''raw_sql''] else [])
     @ (if jr_event_end_position row \<noteq> de_event_end_position event then [''event_end_position''] else [])"

definition validate_journal_event_identity :: "ddl_event \<Rightarrow> journal_row \<Rightarrow> string \<Rightarrow> string + unit" where
  "validate_journal_event_identity event row evidence_kind =
     (let mismatches = identity_mismatches event row in
      if mismatches = [] then Inr ()
      else Inl (''automatic DDL journal '' @ evidence_kind @ '' identity mismatch at '' @ event_place event @ '': ''
        @ join_str '', '' mismatches))"

definition parse_barrier :: "string \<times> u64 \<times> string \<Rightarrow> string + journal_barrier" where
  "parse_barrier = (\<lambda>(binlog_file, event_start_position, status).
     bind_res (parse_status status) (\<lambda>status.
       Inr \<lparr>jb_binlog_file = binlog_file, jb_event_start_position = event_start_position, jb_status = status\<rparr>))"

definition allowed_journal_transition :: "ddl_replay_status \<Rightarrow> ddl_replay_status \<Rightarrow> string + unit" where
  "allowed_journal_transition from_status to_status =
     (if (from_status, to_status) \<in> {(Prepared, Applied), (Prepared, Blocked), (Applied, Checkpointed)} then Inr ()
      else Inl (''invalid DDL replay journal transition '' @ status_str from_status @ ''->'' @ status_str to_status))"

definition ensure_one_write :: "nat \<Rightarrow> ddl_event \<Rightarrow> string \<Rightarrow> string + unit" where
  "ensure_one_write affected event operation =
     (if affected = 1 then Inr ()
      else Inl (operation @ '' did not update exactly one row at '' @ event_place event))"

definition ensure_one_transition :: "nat \<Rightarrow> ddl_event \<Rightarrow> ddl_replay_status \<Rightarrow> ddl_replay_status \<Rightarrow> string + unit" where
  "ensure_one_transition affected event from_status to_status =
     (if affected = 1 then Inr ()
      else Inl (''automatic DDL journal transition '' @ status_str from_status @ '' -> '' @ status_str to_status
        @ '' did not update exactly one row at '' @ event_place event))"

text \<open>The trait \<open>DdlReplayJournal\<close>.\<close>

record 'w ddl_journal =
  dj_earliest_barrier :: "string \<Rightarrow> ('w, string, journal_barrier option) op"
  dj_read_status :: "ddl_event \<Rightarrow> ('w, string, ddl_replay_status option) op"
  dj_read_evidence :: "ddl_event \<Rightarrow> ('w, string, ddl_evidence option) op"
  dj_record_translation_pending :: "ddl_event \<Rightarrow> ('w, string, unit) op"
  dj_prepare :: "ddl_event \<Rightarrow> ddl_evidence \<Rightarrow> ('w, string, unit) op"
  dj_mark_applied :: "ddl_event \<Rightarrow> ('w, string, unit) op"
  dj_recover_blocked :: "ddl_event \<Rightarrow> ddl_evidence \<Rightarrow> ('w, string, unit) op"
  dj_mark_blocked :: "ddl_event \<Rightarrow> ('w, string, unit) op"
  dj_checkpoint_transition_statement :: "ddl_event \<Rightarrow> string + sql_statement"

definition journal_write :: "'w journal_conn \<Rightarrow> string \<Rightarrow> (nat \<Rightarrow> string + unit) \<Rightarrow> ('w, string, unit) op" where
  "journal_write conn sql check =
     bind_op (map_err_op mysql_error (jc_write conn sql)) (\<lambda>affected. lift_op (check affected))"

definition journal_transition ::
  "'w journal_conn \<Rightarrow> string \<Rightarrow> ddl_event \<Rightarrow> ddl_replay_status \<Rightarrow> ddl_replay_status \<Rightarrow> ('w, string, unit) op"
where
  "journal_transition conn table event from_status to_status =
     bind_op (lift_op (allowed_journal_transition from_status to_status)) (\<lambda>_.
       journal_write conn (build_transition_sql table event from_status to_status)
         (\<lambda>affected. ensure_one_transition affected event from_status to_status))"

definition journal_read_status :: "'w journal_conn \<Rightarrow> string \<Rightarrow> ddl_event \<Rightarrow> ('w, string, ddl_replay_status option) op" where
  "journal_read_status conn table event =
     bind_op (map_err_op mysql_error (jc_row conn (build_status_select_sql table event))) (\<lambda>row.
       case row of
         None \<Rightarrow> ret_op None
       | Some row \<Rightarrow>
           bind_op (lift_op (validate_journal_event_identity event row ''status'')) (\<lambda>_.
           bind_op (lift_op (parse_status (jr_status row))) (\<lambda>status. ret_op (Some status))))"

definition journal_read_evidence :: "'w journal_conn \<Rightarrow> string \<Rightarrow> ddl_event \<Rightarrow> ('w, string, ddl_evidence option) op" where
  "journal_read_evidence conn table event =
     bind_op (map_err_op mysql_error (jc_row conn (build_status_select_sql table event))) (\<lambda>row.
       case row of
         None \<Rightarrow> ret_op None
       | Some row \<Rightarrow>
           bind_op (lift_op (validate_journal_event_identity event row ''evidence'')) (\<lambda>_. ret_op (Some (jr_evidence row))))"

definition journal_prepare :: "'w journal_conn \<Rightarrow> string \<Rightarrow> ddl_event \<Rightarrow> ddl_evidence \<Rightarrow> ('w, string, unit) op" where
  "journal_prepare conn table event evidence =
     bind_op (journal_read_status conn table event) (\<lambda>status.
       journal_write conn
         (if status = Some TranslationPending then build_promote_translation_sql table event evidence
          else build_prepare_sql table event evidence)
         (\<lambda>affected. ensure_one_write affected event ''automatic DDL journal prepare''))"

definition mysql_ddl_journal :: "'w journal_conn \<Rightarrow> string \<Rightarrow> 'w ddl_journal" where
  "mysql_ddl_journal conn table =
     \<lparr>dj_earliest_barrier = (\<lambda>source_identity.
        bind_op (map_err_op mysql_error
          (jc_barrier_row conn (build_barrier_select_sql table recovery_table source_identity))) (\<lambda>row.
          case row of None \<Rightarrow> ret_op None | Some row \<Rightarrow> bind_op (lift_op (parse_barrier row)) (\<lambda>b. ret_op (Some b)))),
      dj_read_status = journal_read_status conn table,
      dj_read_evidence = journal_read_evidence conn table,
      dj_record_translation_pending = (\<lambda>event.
        journal_write conn (build_translation_pending_sql table event)
          (\<lambda>affected. ensure_one_write affected event ''translation-pending DDL journal insert'')),
      dj_prepare = journal_prepare conn table,
      dj_mark_applied = (\<lambda>event. journal_transition conn table event Prepared Applied),
      dj_recover_blocked = (\<lambda>event evidence.
        journal_write conn (build_recover_blocked_sql table event evidence)
          (\<lambda>affected. ensure_one_write affected event ''blocked automatic DDL recovery'')),
      dj_mark_blocked = (\<lambda>event. journal_transition conn table event Prepared Blocked),
      dj_checkpoint_transition_statement = (\<lambda>event.
        Inr \<lparr>ss_sql = build_transition_sql table event Applied Checkpointed, ss_params = []\<rparr>)\<rparr>"

end
