(* ===== verification/Query_Context.thy ===== *)
theory Query_Context
  imports Target_Sql
begin

text \<open>
  The status variables of a query event (\<open>src/src/live/query_charset_context.rs\<close>): a cursor over the
  bytes, the fields that are kept (SQL mode, character set, database collation, collation map), the
  fields that are skipped, and the errors. A cursor is its offset and the bytes that remain.
\<close>

unbundle bit_operations_syntax

section \<open>Decoding\<close>

record query_charset_ids =
  qi_client :: u16
  qi_connection :: u16
  qi_server :: u16

record query_charset_context =
  qc_charset :: "query_charset_ids option"
  qc_database_collation :: "u16 option"
  qc_character_set_collations :: "(u16 \<times> u16) list option"
  qc_sql_mode :: "u64 option"

definition default_query_context :: query_charset_context where
  "default_query_context =
     \<lparr>qc_charset = None, qc_database_collation = None, qc_character_set_collations = None, qc_sql_mode = None\<rparr>"

text \<open>\<open>SourceSqlMode\<close> is the optional mode; bit 20 is \<open>NO_BACKSLASH_ESCAPES\<close>, an absent mode is an error.\<close>

definition no_backslash_escapes :: "u64 option \<Rightarrow> bool option" where
  "no_backslash_escapes mode = map_option (\<lambda>bits. bits AND push_bit 20 1 \<noteq> 0) mode"

datatype decode_error =
    UnknownTag u8 nat
  | Truncated nat nat
  | DuplicateTag u8 nat
  | DuplicateCharset u16
  | InvalidCatalogTerminator nat

type_synonym cursor = "nat \<times> string"
type_synonym 'a decoder = "cursor \<Rightarrow> decode_error + 'a \<times> cursor"

definition bind_dec :: "'a decoder \<Rightarrow> ('a \<Rightarrow> 'b decoder) \<Rightarrow> 'b decoder" where
  "bind_dec d f c = bind_res (d c) (\<lambda>(a, c'). f a c')"

definition ret_dec :: "'a \<Rightarrow> 'a decoder" where
  "ret_dec a c = Inr (a, c)"

definition byte_word :: "char \<Rightarrow> u8" where
  "byte_word c = of_nat (of_char c)"

definition take_bytes :: "nat \<Rightarrow> string decoder" where
  "take_bytes n c =
     (if n \<le> length (snd c) then Inr (take n (snd c), (fst c + n, drop n (snd c))) else Inl (Truncated (fst c) n))"

definition read_byte :: "u8 decoder" where
  "read_byte = bind_dec (take_bytes 1) (\<lambda>bytes. ret_dec (byte_word (hd bytes)))"

definition from_le_bytes :: "string \<Rightarrow> nat" where
  "from_le_bytes bytes = foldr (\<lambda>c value. of_char c + 256 * value) bytes 0"

definition read_u16 :: "u16 decoder" where
  "read_u16 = bind_dec (take_bytes 2) (\<lambda>bytes. ret_dec (of_nat (from_le_bytes bytes)))"

definition skip_bytes :: "nat \<Rightarrow> unit decoder" where
  "skip_bytes n = bind_dec (take_bytes n) (\<lambda>_. ret_dec ())"

definition skip_string :: "unit decoder" where
  "skip_string = bind_dec read_byte (\<lambda>length. skip_bytes (unat length))"

fun read_entries :: "nat \<Rightarrow> (u16 \<times> u16) list \<Rightarrow> (u16 \<times> u16) list decoder" where
  "read_entries 0 mapping = ret_dec mapping"
| "read_entries (Suc count) mapping =
     bind_dec read_u16 (\<lambda>source.
     bind_dec read_u16 (\<lambda>collation c.
       if map_of mapping source \<noteq> None then Inl (DuplicateCharset source)
       else read_entries count (btm_insert source collation mapping) c))"

definition read_mapping :: "(u16 \<times> u16) list decoder" where
  "read_mapping =
     bind_dec read_byte (\<lambda>count.
     bind_dec (take_bytes (unat count * 4)) (\<lambda>payload c.
       bind_res (read_entries (unat count) [] (0, payload)) (\<lambda>(mapping, _). Inr (mapping, c))))"

definition skip_catalog :: "unit decoder" where
  "skip_catalog =
     bind_dec skip_string (\<lambda>_ c.
       bind_dec read_byte (\<lambda>terminator c'.
         if terminator \<noteq> 0 then Inl (InvalidCatalogTerminator (fst c)) else Inr ((), c')) c)"

definition skip_known_variable :: "u8 \<Rightarrow> nat \<Rightarrow> unit decoder" where
  "skip_known_variable tag offset =
     (if tag \<in> {0, 3, 10} then skip_bytes 4
      else if tag \<in> {9, 129} then skip_bytes 8
      else if tag = 7 then skip_bytes 2
      else if tag = 128 then skip_bytes 3
      else if tag \<in> {5, 6} then skip_string
      else if tag = 2 then skip_catalog
      else if tag = 11 then bind_dec skip_string (\<lambda>_. skip_string)
      else if tag = 130 then bind_dec read_byte (\<lambda>flags. if flags AND 12 \<noteq> 0 then skip_bytes 8 else ret_dec ())
      else (\<lambda>c. Inl (UnknownTag tag offset)))"

definition decode_field :: "u8 \<Rightarrow> nat \<Rightarrow> query_charset_context \<Rightarrow> query_charset_context decoder" where
  "decode_field tag offset context =
     (if tag = 1 then
        bind_dec (take_bytes 8) (\<lambda>bytes. ret_dec (context\<lparr>qc_sql_mode := Some (of_nat (from_le_bytes bytes))\<rparr>))
      else if tag = 4 then
        bind_dec read_u16 (\<lambda>client. bind_dec read_u16 (\<lambda>connection. bind_dec read_u16 (\<lambda>server.
          ret_dec (context\<lparr>qc_charset :=
            Some \<lparr>qi_client = client, qi_connection = connection, qi_server = server\<rparr>\<rparr>))))
      else if tag = 8 then
        bind_dec read_u16 (\<lambda>collation. ret_dec (context\<lparr>qc_database_collation := Some collation\<rparr>))
      else if tag = 131 then
        bind_dec read_mapping (\<lambda>mapping. ret_dec (context\<lparr>qc_character_set_collations := Some mapping\<rparr>))
      else bind_dec (skip_known_variable tag offset) (\<lambda>_. ret_dec context))"

definition advances :: "'a decoder \<Rightarrow> bool" where
  "advances d \<longleftrightarrow> (\<forall>c a c'. d c = Inr (a, c') \<longrightarrow> length (snd c') \<le> length (snd c))"

lemma advances_intros:
  "advances (ret_dec a)" "advances (\<lambda>c. Inl e)" "advances (take_bytes n)"
  "advances d \<Longrightarrow> (\<And>a. advances (f a)) \<Longrightarrow> advances (bind_dec d f)"
     apply (auto simp: advances_def ret_dec_def take_bytes_def bind_dec_def split: if_splits)
  by (meson le_trans)

lemma advances_reads: "advances read_byte" "advances read_u16" "advances (skip_bytes n)" "advances skip_string"
  unfolding read_byte_def read_u16_def skip_bytes_def skip_string_def by (auto intro!: advances_intros)

lemma advances_read_mapping: "advances read_mapping"
proof -
  have "advances (\<lambda>c. bind_res (read_entries n [] (0, payload)) (\<lambda>(mapping, _). Inr (mapping, c)))" for n payload
    by (auto simp: advances_def split: prod.splits)
  then show ?thesis
    unfolding read_mapping_def by (auto intro!: advances_intros advances_reads)
qed

lemma advances_catalog: "advances skip_catalog"
proof -
  have "advances (\<lambda>c. bind_dec read_byte (\<lambda>terminator c'.
      if terminator \<noteq> 0 then Inl (InvalidCatalogTerminator (fst c)) else Inr ((), c')) c)"
    using advances_reads(1) by (auto simp: advances_def bind_dec_def split: if_splits)
  then show ?thesis
    unfolding skip_catalog_def by (auto intro!: advances_intros advances_reads)
qed

lemma decode_field_advances: "advances (decode_field tag offset context)"
  unfolding decode_field_def skip_known_variable_def
  by (auto intro!: advances_intros advances_reads advances_read_mapping advances_catalog)

function decode_fields :: "u8 list \<Rightarrow> query_charset_context \<Rightarrow> cursor \<Rightarrow> decode_error + query_charset_context" where
  "decode_fields seen context (offset, []) = Inr context"
| "decode_fields seen context (offset, tag_byte # rest) =
     (let tag = byte_word tag_byte in
      if tag \<in> set seen then Inl (DuplicateTag tag offset)
      else if tag = 255 then Inr context
      else
        (case decode_field tag offset context (offset + 1, rest) of
           Inl e \<Rightarrow> Inl e
         | Inr (context', c') \<Rightarrow> decode_fields (tag # seen) context' c'))"
  by pat_completeness auto
termination
proof (relation "measure (\<lambda>(_, _, c). length (snd c))")
  fix seen ctx offset tag_byte rest x b xa y
  assume "decode_field x offset ctx (offset + 1, rest) = Inr b" "(xa, y) = b"
  then have "length (snd y) \<le> length rest"
    using decode_field_advances [of x offset ctx] unfolding advances_def by (metis snd_conv)
  then show "((x # seen, xa, y), seen, ctx, offset, tag_byte # rest) \<in> measure (\<lambda>(_, _, c). length (snd c))"
    by simp
qed simp

definition decode_query_charset_context :: "string \<Rightarrow> decode_error + query_charset_context" where
  "decode_query_charset_context bytes = decode_fields [] default_query_context (0, bytes)"

section \<open>Writing the status variables\<close>

text \<open>The bytes of a value, low byte first, and the fields as the server writes them.\<close>

definition byte_of :: "nat \<Rightarrow> char" where
  "byte_of n = char_of (n mod 256)"

definition le16 :: "u16 \<Rightarrow> string" where
  "le16 x = [byte_of (unat x), byte_of (unat x div 256)]"

definition le64 :: "u64 \<Rightarrow> string" where
  "le64 x = map (\<lambda>i. byte_of (unat x div 256 ^ i)) [0..<8]"

definition entry_bytes :: "(u16 \<times> u16) list \<Rightarrow> string" where
  "entry_bytes mapping = concat (map (\<lambda>(source, collation). le16 source @ le16 collation) mapping)"

definition field_bytes :: "nat \<Rightarrow> ('a \<Rightarrow> string) \<Rightarrow> 'a option \<Rightarrow> string" where
  "field_bytes tag write value = (case value of None \<Rightarrow> [] | Some x \<Rightarrow> byte_of tag # write x)"

definition status_variables :: "query_charset_context \<Rightarrow> string" where
  "status_variables context =
     field_bytes 1 le64 (qc_sql_mode context)
     @ field_bytes 4 (\<lambda>ids. le16 (qi_client ids) @ le16 (qi_connection ids) @ le16 (qi_server ids)) (qc_charset context)
     @ field_bytes 8 le16 (qc_database_collation context)
     @ field_bytes 131 (\<lambda>mapping. byte_of (length mapping) # entry_bytes mapping) (qc_character_set_collations context)"

definition mapping_ok :: "query_charset_context \<Rightarrow> bool" where
  "mapping_ok context =
     (case qc_character_set_collations context of
        None \<Rightarrow> True
      | Some mapping \<Rightarrow> length mapping < 256 \<and> btm_wf mapping)"

lemma of_char_byte_of: "of_char (byte_of n) = n mod 256"
  by (simp add: byte_of_def)

lemma byte_word_byte_of: "byte_word (byte_of n) = of_nat n"
  by (simp add: byte_word_def of_char_byte_of word_of_nat_eq_iff take_bit_eq_mod)

lemma take_bytes_append: "n = length bytes \<Longrightarrow> take_bytes n (i, bytes @ rest) = Inr (bytes, (i + n, rest))"
  by (simp add: take_bytes_def)

lemma take_byte_cons: "read_byte (i, c # rest) = Inr (byte_word c, (i + 1, rest))"
  using take_bytes_append [of 1 "[c]" i rest] by (simp add: read_byte_def bind_dec_def ret_dec_def)

lemma from_le_digits: "from_le_bytes (map (\<lambda>i. byte_of (n div 256 ^ i)) [0..<k]) = n mod 256 ^ k"
proof (induction k arbitrary: n)
  case 0
  then show ?case by (simp add: from_le_bytes_def)
next
  case (Suc k)
  have "map (\<lambda>i. byte_of (n div 256 ^ i)) [0..<Suc k] = byte_of n # map (\<lambda>i. byte_of (n div 256 div 256 ^ i)) [0..<k]"
    by (simp add: upt_conv_Cons div_mult2_eq del: upt_Suc flip: map_Suc_upt)
  then show ?case
    using Suc [of "n div 256"] by (simp add: from_le_bytes_def of_char_byte_of mod_mult2_eq)
qed

lemma read_le16: "read_u16 (i, le16 x @ rest) = Inr (x, (i + 2, rest))"
proof -
  have "le16 x = map (\<lambda>i. byte_of (unat x div 256 ^ i)) [0..<2]"
    by (simp add: le16_def upt_conv_Cons)
  then have "from_le_bytes (le16 x) = unat x mod 65536"
    by (simp only: from_le_digits) simp
  moreover have "unat x < 65536"
    by (rule order.strict_trans2 [OF unsigned_less]) simp
  moreover have "length (le16 x) = 2"
    by (simp add: le16_def)
  ultimately show ?thesis
    using take_bytes_append [of 2 "le16 x" i rest] by (simp add: read_u16_def bind_dec_def ret_dec_def)
qed

lemma read_le64: "take_bytes 8 (i, le64 x @ rest) = Inr (le64 x, (i + 8, rest))" "of_nat (from_le_bytes (le64 x)) = x"
proof -
  show "take_bytes 8 (i, le64 x @ rest) = Inr (le64 x, (i + 8, rest))"
    by (rule take_bytes_append) (simp add: le64_def)
  have "unat x < 256 ^ 8"
    by (rule order.strict_trans2 [OF unsigned_less]) simp
  then show "of_nat (from_le_bytes (le64 x)) = x"
    unfolding le64_def from_le_digits by simp
qed

lemma btm_insert_last: "(\<And>e. e \<in> set m \<Longrightarrow> fst e < k) \<Longrightarrow> btm_insert k v m = m @ [(k, v)]"
proof (induction m)
  case (Cons e m)
  have "fst e < k" using Cons.prems by simp
  with Cons show ?case by (cases e) auto
qed simp

lemma read_entries_written:
  "btm_wf (m @ es) \<Longrightarrow> read_entries (length es) m (i, entry_bytes es) = Inr (m @ es, (i + 4 * length es, []))"
proof (induction es arbitrary: m i)
  case Nil
  then show ?case by (simp add: ret_dec_def entry_bytes_def)
next
  case (Cons e es)
  obtain k v where e: "e = (k, v)" by (rule prod.exhaust)
  have before: "fst x < k" if "x \<in> set m" for x
    using Cons.prems that by (auto simp: btm_wf_def e sorted_wrt_append)
  then have new: "map_of m k = None"
    by (force simp: map_of_eq_None_iff)
  have insert: "btm_insert k v m = m @ [(k, v)]"
    by (rule btm_insert_last) (rule before)
  have step: "entry_bytes ((k, v) # es) = le16 k @ le16 v @ entry_bytes es"
    by (simp add: entry_bytes_def)
  have "btm_wf ((m @ [(k, v)]) @ es)"
    using Cons.prems by (simp add: e)
  from Cons.IH [OF this, of "i + 4"] show ?case
    unfolding e step by (simp add: bind_dec_def read_le16 new insert numeral_eq_Suc)
qed

lemma length_entry_bytes: "length (entry_bytes es) = length es * 4"
  by (induction es) (auto simp: entry_bytes_def le16_def)

lemma read_mapping_written:
  assumes "length es < 256" "btm_wf es"
  shows "read_mapping (i, byte_of (length es) # entry_bytes es @ rest) = Inr (es, (i + 1 + length es * 4, rest))"
proof -
  have "unat (of_nat (length es) :: u8) = length es"
    using assms(1) by (simp add: unsigned_of_nat take_bit_eq_mod)
  with assms read_entries_written [of "[]" es 0] show ?thesis
    by (simp add: read_mapping_def bind_dec_def take_byte_cons byte_word_byte_of take_bytes_append length_entry_bytes)
qed

text \<open>One optional field in front of the rest.\<close>

lemma decode_optional:
  assumes "set seen \<subseteq> tags" "of_nat tag \<notin> tags" "of_nat tag \<noteq> (255 :: u8)"
    and "\<And>x i. field = Some x \<Longrightarrow> \<exists>j. decode_field (of_nat tag) i ctx (i + 1, write x @ rest) = Inr (ctx', (j, rest))"
    and "field = None \<Longrightarrow> ctx' = ctx"
  obtains seen' j where "set seen' \<subseteq> insert (of_nat tag) tags"
    "decode_fields seen ctx (i, field_bytes tag write field @ rest) = decode_fields seen' ctx' (j, rest)"
proof (cases field)
  case None
  with assms(1,5) show thesis
    by (intro that [of seen i]) (auto simp: field_bytes_def)
next
  case (Some x)
  from assms(4) [OF this, of i] obtain j where j: "decode_field (of_nat tag) i ctx (i + 1, write x @ rest) = Inr (ctx', (j, rest))"
    by blast
  have "of_nat tag \<notin> set seen"
    using assms(1,2) by blast
  with assms(1,3) j show thesis
    by (intro that [of "of_nat tag # seen" j]) (auto simp: Some field_bytes_def byte_word_byte_of Let_def)
qed

section \<open>Properties\<close>



end
