(* ===== verification/Ddl_Replay.thy ===== *)
theory Ddl_Replay
  imports Stream_Transaction Ddl_Journal Query_Context
begin

text \<open>
  Schema changes in the stream (\<open>src/src/live/structured_stream/ddl.rs\<close>): which query events are
  schema changes, replay through the journal, reconciliation of a prepared or blocked change, and the
  checkpoint that ends it. The parser and the translator of \<open>src/src/live/ddl_semantics\<close> are the record
  \<open>ddl_support\<close> of questions the code asks of them and the record \<open>semantic_inventory\<close> of its trait;
  the text of \<open>src/fixtures/ddl/create-home-feed-contributor-cards.sql\<close> is a field of \<open>ddl_support\<close>.
\<close>

unbundle bit_operations_syntax

section \<open>Dependencies\<close>

record ddl_transformation =
  tr_version :: string
  tr_target_sql :: "string option"

record ddl_operation =
  op_family :: ddl_family
  op_create_table_ast :: bool
  op_table_operation_ast :: bool

type_synonym source_sql_mode = "u64 option"

record ddl_support =
  ds_source_only_release_move_procedure_create :: "string \<Rightarrow> bool"
  ds_assistant_reply_reports_create :: "string \<Rightarrow> bool"
  ds_parse_fixture_create_table :: "string \<Rightarrow> source_sql_mode \<Rightarrow> bool"
  ds_production_alter_table :: "string \<Rightarrow> source_sql_mode \<Rightarrow> bool"
  ds_drop_procedure :: "string \<Rightarrow> bool"
  ds_drop_trigger_if_exists :: "string \<Rightarrow> bool"
  ds_drop_columns_if_exists :: "string \<Rightarrow> bool"
  ds_rename_columns_if_exists :: "string \<Rightarrow> bool"
  ds_parse_ddl_operation :: "string \<Rightarrow> source_sql_mode \<Rightarrow> ddl_operation option"
  ds_automatic_index_ddl :: "string \<Rightarrow> bool"
  ds_automatic_semantic_recovery :: "ddl_operation \<Rightarrow> bool"
  ds_validate_replayed_source_mode :: "ddl_evidence \<Rightarrow> string \<Rightarrow> string + unit"
  ds_transformation_version :: string
  ds_contributor_cards_text :: string

record 'w semantic_inventory =
  si_transform_sql :: "string \<Rightarrow> ('w, string, ddl_transformation) op"
  si_transform_sql_with_query_context :: "string \<Rightarrow> string \<Rightarrow> ('w, string, ddl_transformation) op"
  si_capture_evidence :: "string \<Rightarrow> string \<Rightarrow> u64 \<Rightarrow> ('w, string, ddl_evidence) op"
  si_capture_evidence_with_query_context :: "string \<Rightarrow> string \<Rightarrow> u64 \<Rightarrow> string \<Rightarrow> ('w, string, ddl_evidence) op"
  si_observe_target_state :: "string \<Rightarrow> ('w, string, string) op"
  si_observe_target_state_with_evidence :: "string \<Rightarrow> ddl_evidence \<Rightarrow> ('w, string, string) op"
  si_expected_target_state_with_evidence :: "string \<Rightarrow> ddl_evidence \<Rightarrow> ('w, string, string) op"

record 'w ddl_env =
  dd_stream :: "'w stream_env"
  dd_journal :: "'w ddl_journal"
  dd_semantics :: "'w semantic_inventory"
  dd_support :: ddl_support
  dd_source_identity :: string
  dd_decode_error :: "decode_error \<Rightarrow> string"

definition on_journal :: "('w, string, 'a) op \<Rightarrow> ('w, 'a) stream_op" where
  "on_journal m = on_world (map_err_op StatementError m)"

definition statement_result :: "string + 'a \<Rightarrow> ('w, 'a) stream_op" where
  "statement_result r = lift_op (map_err StatementError r)"

section \<open>Recognising schema changes\<close>

definition ddl_event_of :: "string \<Rightarrow> string \<Rightarrow> event_header \<Rightarrow> query_event \<Rightarrow> ddl_event" where
  "ddl_event_of source_identity current_file header query =
     (let event_end = ucast (eh_next_event_position header) :: u64;
          event_length = ucast (eh_event_length header) :: u64;
          event_start = (if event_end < event_length then 0 else event_end - event_length) in
      \<lparr>de_source_identity = source_identity @ ''#server-id='' @ u32_str (eh_server_id header),
       de_source_server_id = eh_server_id header, de_binlog_file = current_file,
       de_event_start_position = event_start, de_event_end_position = event_end,
       de_schema_name = qe_database_name query, de_raw_sql = qe_sql_statement query\<rparr>)"

definition source_mode_of :: "query_event \<Rightarrow> source_sql_mode option" where
  "source_mode_of query =
     (case decode_query_charset_context (qe_status_variables query) of
        Inl _ \<Rightarrow> None
      | Inr ctx \<Rightarrow> Some (qc_sql_mode ctx))"

definition supports_ddl_transformation :: "ddl_support \<Rightarrow> string \<Rightarrow> bool \<Rightarrow> source_sql_mode \<Rightarrow> bool" where
  "supports_ddl_transformation ds source_sql supports_source_only_procedure mode \<longleftrightarrow>
     ds_assistant_reply_reports_create ds source_sql
     \<or> ds_parse_fixture_create_table ds source_sql mode
     \<or> ds_production_alter_table ds source_sql mode
     \<or> supports_source_only_procedure
     \<or> ds_drop_procedure ds source_sql
     \<or> ds_drop_trigger_if_exists ds source_sql
     \<or> ds_drop_columns_if_exists ds source_sql
     \<or> ds_rename_columns_if_exists ds source_sql
     \<or> (case ds_parse_ddl_operation ds source_sql mode of None \<Rightarrow> False | Some operation \<Rightarrow> op_table_operation_ast operation)"

definition supports_automatic_ddl_operation :: "ddl_support \<Rightarrow> string \<Rightarrow> source_sql_mode \<Rightarrow> bool" where
  "supports_automatic_ddl_operation ds source_sql mode =
     (case ds_parse_ddl_operation ds source_sql mode of
        None \<Rightarrow> False
      | Some operation \<Rightarrow>
          (if op_family operation = IndexF then ds_automatic_index_ddl ds source_sql
           else ds_automatic_semantic_recovery ds operation))"

definition automatically_handled_with_source_only_support ::
  "(int \<Rightarrow> chars) \<Rightarrow> ddl_support \<Rightarrow> structured_event_state \<Rightarrow> bool \<Rightarrow> query_event \<Rightarrow> bool"
where
  "automatically_handled_with_source_only_support u ds state supports_source_only_procedure query =
     (let sql = qe_sql_statement query;
          source_mode = source_mode_of query;
          supports_transformation = (case source_mode of None \<Rightarrow> False
            | Some mode \<Rightarrow> supports_ddl_transformation ds sql supports_source_only_procedure mode);
          supported_by_runtime = (supports_transformation
            \<or> is_automatically_handled_schema_change u (utf8_chars sql)
              \<and> (case source_mode of None \<Rightarrow> False | Some mode \<Rightarrow> supports_automatic_ddl_operation ds sql mode));
          contains_disallowed_qualification = (\<not> supports_source_only_procedure
            \<and> (case Option.bind source_mode no_backslash_escapes of
                 None \<Rightarrow> backslash \<in> set sql \<or> query_contains_qualified_identifier (utf8_chars sql)
               | Some no_escapes \<Rightarrow> query_contains_qualified_identifier_with_mode (utf8_chars sql) no_escapes)) in
      should_apply_schema state (qe_database_name query)
      \<and> \<not> contains_disallowed_qualification \<and> supported_by_runtime)"

definition automatically_handled_ddl_event ::
  "(int \<Rightarrow> chars) \<Rightarrow> ddl_support \<Rightarrow> structured_event_state \<Rightarrow> query_event \<Rightarrow> bool"
where
  "automatically_handled_ddl_event u ds state query =
     automatically_handled_with_source_only_support u ds state
       (ds_source_only_release_move_procedure_create ds (qe_sql_statement query)) query"

definition manual_ddl_event :: "(int \<Rightarrow> chars) \<Rightarrow> ddl_support \<Rightarrow> structured_event_state \<Rightarrow> query_event \<Rightarrow> bool" where
  "manual_ddl_event u ds state query =
     (let sql = qe_sql_statement query;
          no_escapes = Option.bind (source_mode_of query) no_backslash_escapes;
          may_target_source_schema = (should_apply_schema state (qe_database_name query)
            \<or> qe_database_name query = []
            \<or> (no_escapes = None \<and> backslash \<in> set sql)
            \<or> (case es_source_database state of
                 None \<Rightarrow> False
               | Some schema \<Rightarrow>
                   query_references_schema_with_mode (utf8_chars sql) (utf8_chars schema)
                     (case no_escapes of None \<Rightarrow> False | Some b \<Rightarrow> b))) in
      is_schema_changing_statement (utf8_chars sql) \<and> may_target_source_schema
      \<and> \<not> automatically_handled_ddl_event u ds state query)"

section \<open>The checkpoint of a schema change\<close>

definition resolved_ddl_outcome :: "ddl_event \<Rightarrow> structured_event_outcome" where
  "resolved_ddl_outcome event =
     \<lparr>eo_policy = CommitTransaction,
      eo_resume_coordinate = Some \<lparr>bc_file = de_binlog_file event, bc_position = de_event_end_position event\<rparr>\<rparr>"

definition ensure_resolved_ddl_checkpoint_advances ::
  "'w stream_store option \<Rightarrow> binlog_coordinate \<Rightarrow> ('w, apply_binlog_error, unit) op"
where
  "ensure_resolved_ddl_checkpoint_advances store next =
     (case store of
        None \<Rightarrow> ret_op ()
      | Some store \<Rightarrow> bind_op (st_load store) (\<lambda>current. lift_op (ensure_coordinate_advances current next)))"

definition ensure_automatic_ddl_checkpoint_predecessor :: "checkpoint option \<Rightarrow> ddl_event \<Rightarrow> apply_binlog_error + unit" where
  "ensure_automatic_ddl_checkpoint_predecessor current event =
     (case current of
        None \<Rightarrow>
          Inl (CheckpointError (''automatic DDL checkpoint predecessor mismatch at '' @ event_place event
            @ '': checkpoint row is missing''))
      | Some current \<Rightarrow>
          (if ck_source_file current < de_binlog_file event
              \<or> ck_source_file current = de_binlog_file event \<and> ck_source_position current \<le> de_event_start_position event
           then Inr ()
           else Inl (CheckpointError (''automatic DDL checkpoint predecessor mismatch: expected at or before ''
             @ event_place event @ '' but locked '' @ coordinate_text (checkpoint_coordinate current)))))"

definition checkpoint_ddl_in_transaction :: "'w ddl_env \<Rightarrow> string \<Rightarrow> string \<Rightarrow> ddl_event \<Rightarrow> checkpoint \<Rightarrow> ('w, unit) stream_op" where
  "checkpoint_ddl_in_transaction env table name event checkpoint =
     (let executor = en_executor (dd_stream env) in
      bind_op (on_target (tx_load_checkpoint executor table name)) (\<lambda>current.
      bind_op (lift_op (ensure_automatic_ddl_checkpoint_predecessor current event)) (\<lambda>_.
      bind_op (statement_result (dj_checkpoint_transition_statement (dd_journal env) event)) (\<lambda>transition.
      bind_op (on_target (tx_execute executor transition)) (\<lambda>_.
      bind_op (on_target (tx_save_checkpoint executor table name checkpoint)) (\<lambda>_.
        on_target (tx_commit executor)))))))"

definition finalize_automatic_ddl_checkpoint :: "'w ddl_env \<Rightarrow> ddl_event \<Rightarrow> ('w, unit) stream_op" where
  "finalize_automatic_ddl_checkpoint env event =
     (let stream = dd_stream env;
          coordinate = \<lparr>bc_file = de_binlog_file event, bc_position = de_event_end_position event\<rparr> in
      bind_op (on_world (ensure_resolved_ddl_checkpoint_advances (en_store stream) coordinate)) (\<lambda>_.
        case (en_table stream, en_name stream) of
          (Some table, Some name) \<Rightarrow>
            bind_op (on_target (tx_begin (en_executor stream))) (\<lambda>_ s.
              case checkpoint_ddl_in_transaction env table name event (coordinate_checkpoint coordinate ''QueryEvent'') s of
                (Inl error, s') \<Rightarrow> bind_op (on_target (tx_rollback (en_executor stream))) (\<lambda>_. fail_op error) s'
              | (Inr _, s') \<Rightarrow> set_current_file coordinate s')
        | _ \<Rightarrow> fail_op (CheckpointError ''automatic DDL requires target-transaction checkpoint storage'')))"

section \<open>Journal steps\<close>

definition ensure_translation_pending :: "'w ddl_env \<Rightarrow> ddl_event \<Rightarrow> ('w, unit) stream_op" where
  "ensure_translation_pending env event =
     bind_op (on_journal (dj_read_status (dd_journal env) event)) (\<lambda>status.
       case status of
         None \<Rightarrow> on_journal (dj_record_translation_pending (dd_journal env) event)
       | Some TranslationPending \<Rightarrow> ret_op ()
       | Some status \<Rightarrow>
           fail_op (StatementError (''cannot replace automatic DDL journal status '' @ status_str status
             @ '' with translation_pending at '' @ event_place event)))"

definition blocked_error :: "string \<Rightarrow> ddl_event \<Rightarrow> string \<Rightarrow> apply_binlog_error" where
  "blocked_error what event detail = DdlBlocked (what @ event_place event @ detail)"

definition handle_untranslated_ddl_event ::
  "'w ddl_env \<Rightarrow> event_header \<Rightarrow> query_event \<Rightarrow> ('w, structured_event_outcome option) stream_op"
where
  "handle_untranslated_ddl_event env header query =
     bind_op get_context (\<lambda>context.
       if \<not> manual_ddl_event (en_uppercase (dd_stream env)) (dd_support env) (sx_state context) query then ret_op None
       else
         (let event = ddl_event_of (dd_source_identity env) (sx_current_file context) header query in
          bind_op (flush_grouped_transaction (dd_stream env)) (\<lambda>_.
          bind_op (ensure_translation_pending env event) (\<lambda>_.
            fail_op (blocked_error ''DDL translator unavailable at '' event ''; checkpoint remains blocked'')))))"

definition suppress_target_sql_for_converged_state :: "ddl_transformation \<Rightarrow> ddl_evidence \<Rightarrow> ddl_transformation" where
  "suppress_target_sql_for_converged_state transformation evidence =
     (if ev_pre_state evidence = ev_expected_post_state evidence then transformation\<lparr>tr_target_sql := None\<rparr>
      else transformation)"

definition target_failure_text :: "target_execute_error \<Rightarrow> string" where
  "target_failure_text error = te_message error"

definition execute_transformed_ddl :: "'w ddl_env \<Rightarrow> ddl_event \<Rightarrow> ddl_transformation \<Rightarrow> ('w, structured_event_outcome) stream_op" where
  "execute_transformed_ddl env event transformation =
     bind_op (case tr_target_sql transformation of
         None \<Rightarrow> ret_op ()
       | Some target_sql \<Rightarrow>
           on_world (map_err_op (\<lambda>error. StatementError (''failed transformed DDL at '' @ event_place event
               @ '' version='' @ tr_version transformation @ '' target_sql='' @ target_sql @ '': '' @ target_failure_text error))
             (tx_execute (en_executor (dd_stream env)) \<lparr>ss_sql = target_sql, ss_params = []\<rparr>)))
       (\<lambda>_. ret_op (resolved_ddl_outcome event))"

definition capture_automatic_ddl_evidence :: "'w ddl_env \<Rightarrow> ddl_event \<Rightarrow> query_event \<Rightarrow> ('w, ddl_evidence) stream_op" where
  "capture_automatic_ddl_evidence env event query s =
     (case on_world (map_err_op StatementError (si_capture_evidence_with_query_context (dd_semantics env) (de_raw_sql event)
             (de_binlog_file event) (de_event_end_position event) (qe_status_variables query))) s of
        (Inr evidence, s') \<Rightarrow> (Inr evidence, s')
      | (Inl (StatementError error), s') \<Rightarrow>
          bind_op (ensure_translation_pending env event) (\<lambda>_.
            fail_op (blocked_error ''DDL transformation evidence unavailable at '' event ('': '' @ error))) s'
      | (Inl error, s') \<Rightarrow> (Inl error, s'))"

definition verify_automatic_ddl_postcondition :: "'w ddl_env \<Rightarrow> ddl_event \<Rightarrow> ddl_evidence \<Rightarrow> ('w, unit) stream_op" where
  "verify_automatic_ddl_postcondition env event evidence =
     bind_op (on_journal (si_observe_target_state_with_evidence (dd_semantics env) (de_raw_sql event) evidence)) (\<lambda>observed.
       if observed = ev_expected_post_state evidence then ret_op ()
       else
         bind_op (on_journal (dj_mark_blocked (dd_journal env) event)) (\<lambda>_.
           fail_op (blocked_error ''automatic DDL postcondition mismatch at '' event [])))"

definition transform_or_block :: "'w ddl_env \<Rightarrow> ddl_event \<Rightarrow> query_event \<Rightarrow> ('w, ddl_transformation) stream_op" where
  "transform_or_block env event query s =
     (case on_world (map_err_op StatementError (si_transform_sql_with_query_context (dd_semantics env) (de_raw_sql event)
             (qe_status_variables query))) s of
        (Inr transformation, s') \<Rightarrow> (Inr transformation, s')
      | (Inl (StatementError error), s') \<Rightarrow>
          bind_op (ensure_translation_pending env event) (\<lambda>_. fail_op (DdlBlocked error)) s'
      | (Inl error, s') \<Rightarrow> (Inl error, s'))"

definition transformation_and_evidence ::
  "'w ddl_env \<Rightarrow> ddl_event \<Rightarrow> query_event \<Rightarrow> source_sql_mode \<Rightarrow> ('w, ddl_transformation \<times> ddl_evidence) stream_op"
where
  "transformation_and_evidence env event query mode =
     (if (case ds_parse_ddl_operation (dd_support env) (de_raw_sql event) mode of
            None \<Rightarrow> False | Some operation \<Rightarrow> op_create_table_ast operation)
      then
        bind_op (capture_automatic_ddl_evidence env event query) (\<lambda>evidence.
        bind_op (statement_result (ok_or ''CREATE TABLE evidence is missing deterministic generated SQL'' (ev_generated_sql evidence)))
          (\<lambda>target_sql.
            ret_op (\<lparr>tr_version = ds_transformation_version (dd_support env), tr_target_sql = Some target_sql\<rparr>, evidence)))
      else
        bind_op (transform_or_block env event query) (\<lambda>transformation.
        bind_op (capture_automatic_ddl_evidence env event query) (\<lambda>evidence.
          ret_op (transformation, evidence))))"

definition prepare_and_execute_automatic_ddl ::
  "'w ddl_env \<Rightarrow> ddl_event \<Rightarrow> query_event \<Rightarrow> ('w, structured_event_outcome) stream_op"
where
  "prepare_and_execute_automatic_ddl env event query =
     (case decode_query_charset_context (qe_status_variables query) of
        Inl error \<Rightarrow> fail_op (DdlBlocked (''DDL SQL mode context: '' @ dd_decode_error env error))
      | Inr ctx \<Rightarrow>
          bind_op (transformation_and_evidence env event query (qc_sql_mode ctx)) (\<lambda>(transformation, captured).
            let transformation = suppress_target_sql_for_converged_state transformation captured;
                evidence = captured\<lparr>ev_transformation_version := tr_version transformation,
                                    ev_generated_sql := tr_target_sql transformation\<rparr> in
            bind_op (on_journal (dj_prepare (dd_journal env) event evidence)) (\<lambda>_.
            bind_op (execute_transformed_ddl env event transformation) (\<lambda>outcome.
            bind_op (verify_automatic_ddl_postcondition env event evidence) (\<lambda>_.
            bind_op (on_journal (dj_mark_applied (dd_journal env) event)) (\<lambda>_.
            bind_op (finalize_automatic_ddl_checkpoint env event) (\<lambda>_.
              ret_op outcome)))))))"

definition checkpoint_only_automatic_ddl :: "'w ddl_env \<Rightarrow> ddl_event \<Rightarrow> ('w, structured_event_outcome) stream_op" where
  "checkpoint_only_automatic_ddl env event =
     bind_op (finalize_automatic_ddl_checkpoint env event) (\<lambda>_. ret_op (resolved_ddl_outcome event))"

definition validate_source_mode_on_replay :: "'w ddl_env \<Rightarrow> ddl_evidence \<Rightarrow> query_event \<Rightarrow> apply_binlog_error + unit" where
  "validate_source_mode_on_replay env evidence query =
     map_err DdlBlocked (ds_validate_replayed_source_mode (dd_support env) evidence (qe_status_variables query))"

definition read_blocked_evidence :: "'w ddl_env \<Rightarrow> ddl_event \<Rightarrow> string \<Rightarrow> ('w, ddl_evidence) stream_op" where
  "read_blocked_evidence env event what =
     bind_op (on_journal (dj_read_evidence (dd_journal env) event)) (\<lambda>evidence.
       lift_op (ok_or (StatementError (what @ event_place event)) evidence))"

definition reconcile_prepared_automatic_ddl :: "'w ddl_env \<Rightarrow> ddl_event \<Rightarrow> query_event \<Rightarrow> ('w, unit) stream_op" where
  "reconcile_prepared_automatic_ddl env event query =
     bind_op (read_blocked_evidence env event ''prepared automatic DDL lacks immutable evidence at '') (\<lambda>evidence.
     bind_op (lift_op (validate_source_mode_on_replay env evidence query)) (\<lambda>_.
     bind_op (on_journal (si_observe_target_state_with_evidence (dd_semantics env) (de_raw_sql event) evidence)) (\<lambda>observed.
     bind_op (case reconcile_prepared evidence observed of
         ProvenApplied \<Rightarrow> on_journal (dj_mark_applied (dd_journal env) event)
       | ReconcileBlocked \<Rightarrow>
           bind_op (on_journal (dj_mark_blocked (dd_journal env) event)) (\<lambda>_.
             fail_op (blocked_error ''automatic DDL semantic reconciliation blocked at '' event
               ('': '' @ prepared_reconciliation_block_reason evidence observed)))) (\<lambda>_.
       finalize_automatic_ddl_checkpoint env event))))"

definition verified_blocked_recovery_evidence :: "'w ddl_env \<Rightarrow> ddl_event \<Rightarrow> query_event \<Rightarrow> ('w, ddl_evidence) stream_op" where
  "verified_blocked_recovery_evidence env event query =
     bind_op (read_blocked_evidence env event ''blocked automatic DDL lacks evidence at '') (\<lambda>evidence.
     bind_op (lift_op (validate_source_mode_on_replay env evidence query)) (\<lambda>_.
     bind_op (on_journal (si_expected_target_state_with_evidence (dd_semantics env) (de_raw_sql event) evidence)) (\<lambda>expected.
     bind_op (on_journal (si_observe_target_state_with_evidence (dd_semantics env) (de_raw_sql event) evidence)) (\<lambda>observed.
       if observed \<noteq> expected then fail_op (blocked_error ''blocked automatic DDL remains divergent at '' event [])
       else ret_op (evidence\<lparr>ev_expected_post_state := expected\<rparr>)))))"

definition recover_blocked_automatic_ddl :: "'w ddl_env \<Rightarrow> ddl_event \<Rightarrow> query_event \<Rightarrow> ('w, unit) stream_op" where
  "recover_blocked_automatic_ddl env event query =
     bind_op (verified_blocked_recovery_evidence env event query) (\<lambda>evidence.
     bind_op (on_journal (dj_recover_blocked (dd_journal env) event evidence)) (\<lambda>_.
       finalize_automatic_ddl_checkpoint env event))"

section \<open>Recovery of the legacy JSON translation\<close>

definition in_backquotes :: "string \<Rightarrow> string" where
  "in_backquotes s = [backtick] @ s @ [backtick]"

definition alter_releases_pages_text :: string where
  "alter_releases_pages_text =
     ''ALTER TABLE '' @ in_backquotes ''releases_pages'' @ [CHR 0x0A] @ ''  ADD COLUMN IF NOT EXISTS ''
       @ in_backquotes ''source_layout'' @ '' JSON DEFAULT NULL AFTER '' @ in_backquotes ''comic_asset_id''"

definition is_legacy_json_check_collision_event :: "ddl_support \<Rightarrow> string \<Rightarrow> bool" where
  "is_legacy_json_check_collision_event ds sql =
     (let original = trim (utf8_chars alter_releases_pages_text);
          history = utf8_chars (replace_text (in_backquotes ''releases_pages'') (in_backquotes ''releases_pages_history'')
            alter_releases_pages_text);
          contributor_cards = trim (utf8_chars (ds_contributor_cards_text ds)) in
      trim (utf8_chars sql) = history \<or> trim (utf8_chars sql) = contributor_cards)"

definition json_check_marker :: string where
  "json_check_marker = ''CHECK (JSON_VALID('' @ [backtick]"

definition json_check_close :: string where
  "json_check_close = [backtick] @ ''))''"

definition names_a_check :: "string \<Rightarrow> bool" where
  "names_a_check head \<longleftrightarrow> text_ends_with head '', '' \<or> text_ends_with head '', ADD ''"

function name_json_alias_checks :: "string \<Rightarrow> string" where
  "name_json_alias_checks rest =
     (case find_text json_check_marker rest of
        None \<Rightarrow> rest
      | Some start \<Rightarrow>
          (let head = take start rest;
               tail = drop start rest;
               inner = drop (length json_check_marker) tail in
           case find_text json_check_close inner of
             None \<Rightarrow> rest
           | Some column_end \<Rightarrow>
               (let column = take column_end inner;
                    clause_end = length json_check_marker + column_end + length json_check_close in
                head @ (if names_a_check head then ''CONSTRAINT '' @ in_backquotes column @ '' '' else [])
                  @ take clause_end tail @ name_json_alias_checks (drop clause_end tail))))"
  by pat_completeness auto

termination name_json_alias_checks
proof (relation "measure length")
  fix rest head tail inner column :: string and start column_end clause_end :: nat
  assume found: "find_text json_check_marker rest = Some start"
    and parts: "head = take start rest" "tail = drop start rest"
      "clause_end = length json_check_marker + column_end + length json_check_close"
  have "start + length json_check_marker \<le> length rest"
    using find_text_within [OF found] by blast
  moreover have "0 < length json_check_marker"
    by (simp add: json_check_marker_def)
  ultimately show "(drop clause_end tail, rest) \<in> measure length"
    by (simp add: parts del: length_greater_0_conv)
qed simp

declare name_json_alias_checks.simps [simp del]

definition corrected_json_alias_sql :: "ddl_support \<Rightarrow> string \<Rightarrow> ddl_evidence \<Rightarrow> ddl_evidence \<Rightarrow> ddl_transformation \<Rightarrow> string + string" where
  "corrected_json_alias_sql ds raw_sql recorded fresh replacement =
     (if \<not> is_legacy_json_check_collision_event ds raw_sql
         \<or> ev_transformation_version recorded \<noteq> tr_version replacement
         \<or> ev_pre_state recorded = ev_expected_post_state recorded
         \<or> ev_pre_state recorded \<noteq> ev_pre_state fresh
         \<or> ev_expected_post_state recorded \<noteq> ev_expected_post_state fresh
         \<or> ev_canonical_ast recorded \<noteq> ev_canonical_ast fresh
      then Inl ''JSON alias recovery requires exact event and unchanged semantic evidence''
      else
        bind_res (ok_or ''JSON alias recovery lacks corrected SQL'' (tr_target_sql replacement)) (\<lambda>corrected.
          let old = name_json_alias_checks corrected in
          if old = corrected \<or> ev_generated_sql recorded \<noteq> Some old
          then Inl ''JSON alias recovery requires exact legacy named CHECK collision''
          else Inr corrected))"

definition corrected_json_alias_evidence ::
  "ddl_support \<Rightarrow> string \<Rightarrow> ddl_evidence \<Rightarrow> ddl_evidence \<Rightarrow> ddl_transformation \<Rightarrow> string + ddl_evidence"
where
  "corrected_json_alias_evidence ds raw_sql recorded fresh replacement =
     bind_res (corrected_json_alias_sql ds raw_sql recorded fresh replacement) (\<lambda>corrected.
       Inr (recorded\<lparr>ev_transformation_version := tr_version replacement, ev_generated_sql := Some corrected\<rparr>))"

definition plan_legacy_json_alias_recovery ::
  "'w ddl_env \<Rightarrow> ddl_event \<Rightarrow> ddl_evidence \<Rightarrow> ddl_transformation \<Rightarrow> string \<Rightarrow> ('w, ddl_evidence \<times> bool) stream_op"
where
  "plan_legacy_json_alias_recovery env event recorded replacement observed =
     (if observed = ev_expected_post_state recorded then
        bind_op (statement_result (corrected_json_alias_evidence (dd_support env) (de_raw_sql event) recorded recorded replacement))
          (\<lambda>updated. ret_op (updated, False))
      else if observed \<noteq> ev_pre_state recorded then
        fail_op (blocked_error ''legacy JSON alias replay target diverged at '' event [])
      else
        bind_op (on_journal (si_capture_evidence (dd_semantics env) (de_raw_sql event) (de_binlog_file event)
          (de_event_end_position event))) (\<lambda>fresh.
        bind_op (statement_result (corrected_json_alias_evidence (dd_support env) (de_raw_sql event) recorded fresh replacement))
          (\<lambda>updated. ret_op (updated, True))))"

definition verify_corrected_json_alias_postcondition :: "'w ddl_env \<Rightarrow> ddl_event \<Rightarrow> ddl_evidence \<Rightarrow> ('w, unit) stream_op" where
  "verify_corrected_json_alias_postcondition env event evidence =
     bind_op (on_journal (si_observe_target_state (dd_semantics env) (de_raw_sql event))) (\<lambda>post.
       if post \<noteq> ev_expected_post_state evidence
       then fail_op (blocked_error ''corrected JSON alias postcondition differs at '' event [])
       else ret_op ())"

definition execute_corrected_json_alias :: "'w ddl_env \<Rightarrow> ddl_event \<Rightarrow> ddl_evidence \<Rightarrow> ('w, unit) stream_op" where
  "execute_corrected_json_alias env event evidence =
     bind_op (lift_op (ok_or (StatementError ''corrected JSON alias evidence lacks SQL'') (ev_generated_sql evidence))) (\<lambda>corrected.
     bind_op (on_world (map_err_op (\<lambda>error. StatementError (''corrected JSON alias DDL failed at '' @ event_place event
         @ '' target_sql='' @ corrected @ '': '' @ target_failure_text error))
       (tx_execute (en_executor (dd_stream env)) \<lparr>ss_sql = corrected, ss_params = []\<rparr>))) (\<lambda>_.
       verify_corrected_json_alias_postcondition env event evidence))"

definition load_legacy_json_alias_recovery_plan :: "'w ddl_env \<Rightarrow> ddl_event \<Rightarrow> ('w, ddl_evidence \<times> bool) stream_op" where
  "load_legacy_json_alias_recovery_plan env event =
     bind_op (read_blocked_evidence env event ''blocked automatic DDL lacks evidence at '') (\<lambda>recorded.
     bind_op (on_journal (si_transform_sql (dd_semantics env) (de_raw_sql event))) (\<lambda>replacement.
     bind_op (on_journal (si_observe_target_state (dd_semantics env) (de_raw_sql event))) (\<lambda>observed.
       plan_legacy_json_alias_recovery env event recorded replacement observed)))"

definition recover_legacy_json_alias :: "'w ddl_env \<Rightarrow> ddl_event \<Rightarrow> ddl_replay_status \<Rightarrow> ('w, bool) stream_op" where
  "recover_legacy_json_alias env event status =
     (if \<not> is_legacy_json_check_collision_event (dd_support env) (de_raw_sql event) then ret_op False
      else
        bind_op (load_legacy_json_alias_recovery_plan env event) (\<lambda>(updated, execute).
          if \<not> execute \<and> status = Prepared then ret_op False
          else
            bind_op (if status = Prepared then on_journal (dj_mark_blocked (dd_journal env) event) else ret_op ()) (\<lambda>_.
            bind_op (if execute then execute_corrected_json_alias env event updated else ret_op ()) (\<lambda>_.
            bind_op (on_journal (dj_recover_blocked (dd_journal env) event updated)) (\<lambda>_.
            bind_op (finalize_automatic_ddl_checkpoint env event) (\<lambda>_.
              ret_op True))))))"

section \<open>Handling a query event\<close>

definition replay_by_status ::
  "'w ddl_env \<Rightarrow> ddl_event \<Rightarrow> query_event \<Rightarrow> ddl_replay_status option \<Rightarrow> ('w, structured_event_outcome) stream_op"
where
  "replay_by_status env event query status =
     (case status of
        Some Prepared \<Rightarrow>
          bind_op (recover_legacy_json_alias env event Prepared) (\<lambda>recovered.
            if recovered then ret_op (resolved_ddl_outcome event)
            else bind_op (reconcile_prepared_automatic_ddl env event query) (\<lambda>_. ret_op (resolved_ddl_outcome event)))
      | Some Blocked \<Rightarrow>
          bind_op (recover_legacy_json_alias env event Blocked) (\<lambda>recovered.
            if recovered then ret_op (resolved_ddl_outcome event)
            else bind_op (recover_blocked_automatic_ddl env event query) (\<lambda>_. ret_op (resolved_ddl_outcome event)))
      | _ \<Rightarrow>
          bind_op (statement_result (replay_action event status)) (\<lambda>action.
            case action of
              PrepareAndExecute \<Rightarrow> prepare_and_execute_automatic_ddl env event query
            | CheckpointOnly \<Rightarrow> checkpoint_only_automatic_ddl env event
            | AlreadyCheckpointed \<Rightarrow> ret_op (resolved_ddl_outcome event)))"

definition replay_automatic_ddl :: "'w ddl_env \<Rightarrow> ddl_event \<Rightarrow> query_event \<Rightarrow> ('w, structured_event_outcome) stream_op" where
  "replay_automatic_ddl env event query =
     bind_op (on_journal (dj_read_status (dd_journal env) event)) (replay_by_status env event query)"

definition handle_automatic_ddl_event ::
  "'w ddl_env \<Rightarrow> event_header \<Rightarrow> query_event \<Rightarrow> ('w, structured_event_outcome option) stream_op"
where
  "handle_automatic_ddl_event env header query =
     bind_op get_context (\<lambda>context.
       if \<not> automatically_handled_ddl_event (en_uppercase (dd_stream env)) (dd_support env) (sx_state context) query
       then ret_op None
       else
         (let event = ddl_event_of (dd_source_identity env) (sx_current_file context) header query in
          bind_op (flush_grouped_transaction (dd_stream env)) (\<lambda>_.
          bind_op (replay_automatic_ddl env event query) (\<lambda>outcome.
          (\<lambda>s. (Inr (Some outcome), (fst s, sr_invalidate (en_resolver (dd_stream env)) (qe_database_name query) (snd s))))))))"

definition handle_ddl_event ::
  "'w ddl_env \<Rightarrow> event_header \<Rightarrow> query_event \<Rightarrow> ('w, structured_event_outcome option) stream_op"
where
  "handle_ddl_event env header query =
     bind_op (handle_automatic_ddl_event env header query) (\<lambda>handled.
       case handled of
         Some outcome \<Rightarrow> ret_op (Some outcome)
       | None \<Rightarrow> handle_untranslated_ddl_event env header query)"

text \<open>The stream with its handler of schema changes.\<close>

definition stream_with_ddl :: "'w ddl_env \<Rightarrow> 'w stream_env" where
  "stream_with_ddl env = (dd_stream env)\<lparr>en_ddl := handle_ddl_event env\<rparr>"

end
