(* ===== verification/Ddl_Once.thy ===== *)
theory Ddl_Once
  imports Ddl_Replay
begin

text \<open>
  Schema changes run at most once. The interface \<open>ddl_target\<close> states what the handler of schema
  changes needs of the journal's connection, of the target connection and of the semantic inventory:
  a journal row that has left \<open>translation_pending\<close> never goes back, and only executed statements
  extend the log of schema changes. The client lemmas follow the relations \<open>quiet\<close> (no schema
  change ran), \<open>grow\<close> (at most one ran, and the row has left \<open>translation_pending\<close> if one did)
  and \<open>attempt\<close> through the operations.
\<close>

section \<open>Moves of the world\<close>

definition row_engaged :: "string option \<Rightarrow> bool" where
  "row_engaged status \<longleftrightarrow> status \<noteq> None \<and> status \<noteq> Some ''translation_pending''"

definition quiet :: "('w \<Rightarrow> string option) \<Rightarrow> ('w \<Rightarrow> string list) \<Rightarrow> 'w \<Rightarrow> 'w \<Rightarrow> bool" where
  "quiet row executed w w' \<longleftrightarrow> executed w' = executed w \<and> (row_engaged (row w) \<longrightarrow> row_engaged (row w'))"

definition grow :: "('w \<Rightarrow> string option) \<Rightarrow> ('w \<Rightarrow> string list) \<Rightarrow> 'w \<Rightarrow> 'w \<Rightarrow> bool" where
  "grow row executed w w' \<longleftrightarrow>
     (row_engaged (row w) \<longrightarrow> row_engaged (row w'))
     \<and> (\<exists>statements. executed w' = executed w @ statements \<and> length statements \<le> 1 \<and> (statements \<noteq> [] \<longrightarrow> row_engaged (row w')))"

definition attempt :: "('w \<Rightarrow> string option) \<Rightarrow> ('w \<Rightarrow> string list) \<Rightarrow> 'w \<Rightarrow> 'w \<Rightarrow> bool" where
  "attempt row executed w w' \<longleftrightarrow> grow row executed w w' \<and> (row_engaged (row w) \<longrightarrow> executed w' = executed w)"

definition moves :: "('w \<Rightarrow> bool) \<Rightarrow> ('w \<Rightarrow> 'w \<Rightarrow> bool) \<Rightarrow> ('w, 'a) stream_op \<Rightarrow> bool" where
  "moves P R m \<longleftrightarrow> (\<forall>c w r c' w'. P w \<longrightarrow> m (c, w) = (r, (c', w')) \<longrightarrow> R w w')"

definition moves_world :: "('w \<Rightarrow> 'w \<Rightarrow> bool) \<Rightarrow> ('w, 'e, 'a) op \<Rightarrow> bool" where
  "moves_world R m \<longleftrightarrow> (\<forall>w r w'. m w = (r, w') \<longrightarrow> R w w')"

lemma quiet_refl [simp, intro]: "quiet row executed w w"
  by (simp add: quiet_def)

lemma quiet_trans [trans]: "quiet row executed w w' \<Longrightarrow> quiet row executed w' w'' \<Longrightarrow> quiet row executed w w''"
  by (simp add: quiet_def)

lemma quiet_grow: "quiet row executed w w' \<Longrightarrow> grow row executed w' w'' \<Longrightarrow> grow row executed w w''"
  by (auto simp: quiet_def grow_def)

lemma grow_quiet: "grow row executed w w' \<Longrightarrow> quiet row executed w' w'' \<Longrightarrow> grow row executed w w''"
  by (auto simp: quiet_def grow_def)

lemma quiet_is_grow: "quiet row executed w w' \<Longrightarrow> grow row executed w w'"
  by (auto simp: quiet_def grow_def)

lemma attempt_quiet: "quiet row executed w w' \<Longrightarrow> attempt row executed w w'"
  by (auto simp: quiet_def grow_def attempt_def)

lemma attempt_trans: "attempt row executed w w' \<Longrightarrow> attempt row executed w' w'' \<Longrightarrow> attempt row executed w w''"
  unfolding attempt_def grow_def by (metis append.assoc append_Nil2 list.size(3))

lemma movesD: "moves P R m \<Longrightarrow> P w \<Longrightarrow> m (c, w) = (r, (c', w')) \<Longrightarrow> R w w'"
  unfolding moves_def by blast

lemma moves_bind_rel:
  assumes "moves P R m" and "\<And>c w a c' w'. P w \<Longrightarrow> m (c, w) = (Inr a, (c', w')) \<Longrightarrow> Q w'"
    and "\<And>a. moves Q R' (f a)"
    and "\<And>w w'. R w w' \<Longrightarrow> T w w'" and "\<And>w w' w''. R w w' \<Longrightarrow> R' w' w'' \<Longrightarrow> T w w''"
  shows "moves P T (bind_op m f)"
  unfolding moves_def
proof (intro allI impI)
  fix c w r c' w'
  assume p: "P w" and run: "bind_op m f (c, w) = (r, (c', w'))"
  obtain r1 c1 w1 where m: "m (c, w) = (r1, (c1, w1))"
    by (metis prod.exhaust)
  have first: "R w w1"
    using movesD [OF assms(1) p m] .
  show "T w w'"
  proof (cases r1)
    case (Inl e)
    with run m first assms(4) show ?thesis by (simp add: bind_op_def)
  next
    case (Inr a)
    with m run have "f a (c1, w1) = (r, (c', w'))" by (simp add: bind_op_def)
    with movesD [OF assms(3)] assms(2) [OF p, of c a c1 w1] m Inr first assms(5) show ?thesis by blast
  qed
qed

lemma moves_weaken: "moves P R m \<Longrightarrow> (\<And>w w'. P' w \<Longrightarrow> P w) \<Longrightarrow> (\<And>w w'. R w w' \<Longrightarrow> R' w w') \<Longrightarrow> moves P' R' m"
  unfolding moves_def by blast

lemma moves_pure [simp]:
  "moves P (quiet row executed) (ret_op a)" "moves P (quiet row executed) (fail_op e)" "moves P (quiet row executed) (lift_op x)"
  "moves P (quiet row executed) (statement_result y)" "moves P (quiet row executed) get_context"
  "moves P (quiet row executed) (modify_context g)" "moves P (quiet row executed) (modify_transaction h)"
  "moves P (quiet row executed) (set_current_file k)"
  by (auto simp: moves_def ret_op_def fail_op_def lift_op_def statement_result_def get_context_def modify_context_def
      modify_transaction_def set_current_file_def)

lemma moves_on_world: "moves_world R m \<Longrightarrow> moves P R (on_world m)"
  by (auto simp: moves_def moves_world_def on_world_def split: prod.splits)

lemma moves_world_map_err [simp]: "moves_world R (map_err_op g m) = moves_world R m"
  by (auto simp: moves_world_def map_err_op_def split: prod.splits)

lemma moves_world_bind:
  assumes "moves_world (quiet row executed) m" and "\<And>a. moves_world (quiet row executed) (f a)"
  shows "moves_world (quiet row executed) (bind_op m f)"
  using assms unfolding moves_world_def bind_op_def
  by (auto split: prod.splits sum.splits) (blast intro: quiet_trans)

lemma moves_world_pure [simp]:
  "moves_world (quiet row executed) (ret_op a)" "moves_world (quiet row executed) (lift_op x)"
  by (auto simp: moves_world_def ret_op_def lift_op_def)

lemma bind_statement_result: "bind_op (statement_result (Inr x)) f = f x"
  by (simp add: fun_eq_iff bind_op_def statement_result_def lift_op_def map_err_def)

lemma bind_ret_op: "bind_op (ret_op a) f = f a"
  by (simp add: fun_eq_iff bind_op_def ret_op_def)

lemma moves_on_target: "moves_world R m \<Longrightarrow> moves P R (on_target m)"
  by (simp add: on_target_def moves_on_world)

lemma moves_on_journal: "moves_world R m \<Longrightarrow> moves P R (on_journal m)"
  by (simp add: on_journal_def moves_on_world)

lemma moves_bind:
  assumes "moves (\<lambda>_. True) (quiet row executed) m" and "\<And>a. moves (\<lambda>_. True) (quiet row executed) (f a)"
  shows "moves (\<lambda>_. True) (quiet row executed) (bind_op m f)"
  by (rule moves_bind_rel [OF assms(1) TrueI assms(2)]) (auto intro: quiet_trans)

lemma moves_bind_grow:
  assumes "moves (\<lambda>_. True) (quiet row executed) m" and "\<And>a. moves (\<lambda>_. True) (grow row executed) (f a)"
  shows "moves (\<lambda>_. True) (grow row executed) (bind_op m f)"
  by (rule moves_bind_rel [OF assms(1) TrueI assms(2)]) (auto intro: quiet_grow quiet_is_grow)

lemma moves_if [intro]: "(b \<Longrightarrow> moves P R m) \<Longrightarrow> (\<not> b \<Longrightarrow> moves P R m') \<Longrightarrow> moves P R (if b then m else m')"
  by simp

lemma moves_get_context:
  "(\<And>c. moves P R (f c)) \<Longrightarrow> moves P R (bind_op get_context f)"
  by (auto simp: moves_def bind_op_def get_context_def)

text \<open>A handler that turns a failure into further steps.\<close>

lemma moves_catch:
  assumes "moves (\<lambda>_. True) (quiet row executed) m" and "\<And>e. moves (\<lambda>_. True) (quiet row executed) (g e)"
    and "\<And>a. moves (\<lambda>_. True) (quiet row executed) (f a)"
  shows "moves (\<lambda>_. True) (quiet row executed) (\<lambda>s. case m s of (Inl e, s') \<Rightarrow> g e s' | (Inr a, s') \<Rightarrow> f a s')"
  unfolding moves_def
proof (intro allI impI)
  fix c w r c' w'
  assume run: "(case m (c, w) of (Inl e, s') \<Rightarrow> g e s' | (Inr a, s') \<Rightarrow> f a s') = (r, (c', w'))"
  obtain r1 c1 w1 where m: "m (c, w) = (r1, (c1, w1))"
    by (metis prod.exhaust)
  have "quiet row executed w w1"
    using movesD [OF assms(1) TrueI m] .
  moreover have "quiet row executed w1 w'"
    using run m assms(2,3) by (cases r1) (auto dest: movesD)
  ultimately show "quiet row executed w w'" by (rule quiet_trans)
qed

lemma moves_match:
  assumes "moves (\<lambda>_. True) (quiet row executed) m" and "\<And>e. moves (\<lambda>_. True) (quiet row executed) (g e)"
  shows "moves (\<lambda>_. True) (quiet row executed) (\<lambda>s. case m s of
       (Inr a, s') \<Rightarrow> (Inr a, s') | (Inl (StatementError e), s') \<Rightarrow> g e s' | (Inl e, s') \<Rightarrow> (Inl e, s'))"
proof -
  let ?g = "\<lambda>error. case error of StatementError e \<Rightarrow> g e | _ \<Rightarrow> fail_op error"
  have "(\<lambda>s. case m s of (Inr a, s') \<Rightarrow> (Inr a, s') | (Inl (StatementError e), s') \<Rightarrow> g e s' | (Inl e, s') \<Rightarrow> (Inl e, s'))
      = (\<lambda>s. case m s of (Inl e, s') \<Rightarrow> ?g e s' | (Inr a, s') \<Rightarrow> ret_op a s')"
    by (auto simp: fun_eq_iff ret_op_def fail_op_def split: prod.splits sum.splits apply_binlog_error.splits)
  moreover have "moves (\<lambda>_. True) (quiet row executed) \<dots>"
    by (rule moves_catch [OF assms(1)]) (auto simp: assms(2) split: apply_binlog_error.splits)
  ultimately show ?thesis by simp
qed

section \<open>What the handler relies on\<close>

definition journal_writes :: "string \<Rightarrow> ddl_event \<Rightarrow> string set" where
  "journal_writes table event =
     {build_translation_pending_sql table event, build_transition_sql table event Prepared Applied,
      build_transition_sql table event Prepared Blocked}
     \<union> range (build_promote_translation_sql table event) \<union> range (build_prepare_sql table event)
     \<union> range (build_recover_blocked_sql table event)"

definition quiet_semantics :: "('w \<Rightarrow> 'w \<Rightarrow> bool) \<Rightarrow> 'w semantic_inventory \<Rightarrow> bool" where
  "quiet_semantics R si \<longleftrightarrow>
     (\<forall>sql. moves_world R (si_transform_sql si sql))
     \<and> (\<forall>sql status. moves_world R (si_transform_sql_with_query_context si sql status))
     \<and> (\<forall>sql log_file position. moves_world R (si_capture_evidence si sql log_file position))
     \<and> (\<forall>sql log_file position status. moves_world R (si_capture_evidence_with_query_context si sql log_file position status))
     \<and> (\<forall>sql. moves_world R (si_observe_target_state si sql))
     \<and> (\<forall>sql evidence. moves_world R (si_observe_target_state_with_evidence si sql evidence))
     \<and> (\<forall>sql evidence. moves_world R (si_expected_target_state_with_evidence si sql evidence))"

definition quiet_transactions :: "('w \<Rightarrow> 'w \<Rightarrow> bool) \<Rightarrow> 'w target_executor \<Rightarrow> bool" where
  "quiet_transactions R executor \<longleftrightarrow>
     moves_world R (tx_begin executor) \<and> moves_world R (tx_commit executor) \<and> moves_world R (tx_rollback executor)
     \<and> (\<forall>table name. moves_world R (tx_load_checkpoint executor table name))
     \<and> (\<forall>table name checkpoint. moves_world R (tx_save_checkpoint executor table name checkpoint))"

definition quiet_store :: "('w \<Rightarrow> 'w \<Rightarrow> bool) \<Rightarrow> 'w stream_store \<Rightarrow> bool" where
  "quiet_store R store \<longleftrightarrow> moves_world R (st_load store) \<and> (\<forall>checkpoint. moves_world R (st_save store checkpoint))"

text \<open>The row of the event in the journal is \<open>row\<close>, the statements the target ran for schema changes
  are \<open>executed\<close>. A write of the journal is conditional on the status it starts from and an insert of
  an existing key fails, so that no write takes an engaged row back; any operation may fail, with or
  without its effect.\<close>

locale ddl_target =
  fixes env :: "'w ddl_env" and conn :: "'w journal_conn" and table :: string and event :: ddl_event
    and row :: "'w \<Rightarrow> string option" and executed :: "'w \<Rightarrow> string list"
  assumes journal: "dd_journal env = mysql_ddl_journal conn table"
    and status_row: "jc_row conn (build_status_select_sql table event) w = (Inr found, w') \<Longrightarrow>
      map_option jr_status found = row w \<and> row w' = row w"
    and reads: "moves_world (quiet row executed) (jc_row conn sql)"
    and writes: "sql \<in> journal_writes table event \<Longrightarrow> moves_world (quiet row executed) (jc_write conn sql)"
    and prepares: "sql \<in> range (build_promote_translation_sql table event) \<union> range (build_prepare_sql table event) \<Longrightarrow>
      jc_write conn sql w = (Inr 1, w') \<Longrightarrow> row_engaged (row w')"
    and semantics: "quiet_semantics (quiet row executed) (dd_semantics env)"
    and transactions: "quiet_transactions (quiet row executed) (en_executor (dd_stream env))"
    and store: "en_store (dd_stream env) = Some the_store \<Longrightarrow> quiet_store (quiet row executed) the_store"
    and invalidate: "quiet row executed w (sr_invalidate (en_resolver (dd_stream env)) schema w)"
    and transition: "moves_world (quiet row executed) (tx_execute (en_executor (dd_stream env))
      \<lparr>ss_sql = build_transition_sql table event Applied Checkpointed, ss_params = []\<rparr>)"
    and executes: "tx_execute (en_executor (dd_stream env)) \<lparr>ss_sql = sql, ss_params = []\<rparr> w = (r, w') \<Longrightarrow>
      (executed w' = executed w \<or> executed w' = executed w @ [sql]) \<and> (row_engaged (row w) \<longrightarrow> row_engaged (row w'))"
begin

lemma semantic_moves:
  "moves_world (quiet row executed) (si_transform_sql (dd_semantics env) sql)"
  "moves_world (quiet row executed) (si_transform_sql_with_query_context (dd_semantics env) sql status)"
  "moves_world (quiet row executed) (si_capture_evidence (dd_semantics env) sql log_file position)"
  "moves_world (quiet row executed) (si_capture_evidence_with_query_context (dd_semantics env) sql log_file position status)"
  "moves_world (quiet row executed) (si_observe_target_state (dd_semantics env) sql)"
  "moves_world (quiet row executed) (si_observe_target_state_with_evidence (dd_semantics env) sql evidence)"
  "moves_world (quiet row executed) (si_expected_target_state_with_evidence (dd_semantics env) sql evidence)"
  using semantics by (simp_all add: quiet_semantics_def)

lemma journal_write_moves:
  "sql \<in> journal_writes table event \<Longrightarrow> moves_world (quiet row executed) (journal_write conn sql check)"
  unfolding journal_write_def by (intro moves_world_bind) (simp_all add: writes)

lemma read_status_moves: "moves_world (quiet row executed) (journal_read_status conn table event)"
  unfolding journal_read_status_def by (auto intro!: moves_world_bind simp: reads split: option.splits)

lemma journal_moves:
  "moves_world (quiet row executed) (dj_read_status (dd_journal env) event)"
  "moves_world (quiet row executed) (dj_read_evidence (dd_journal env) event)"
  "moves_world (quiet row executed) (dj_record_translation_pending (dd_journal env) event)"
  "moves_world (quiet row executed) (dj_prepare (dd_journal env) event evidence)"
  "moves_world (quiet row executed) (dj_mark_applied (dd_journal env) event)"
  "moves_world (quiet row executed) (dj_recover_blocked (dd_journal env) event evidence)"
  "moves_world (quiet row executed) (dj_mark_blocked (dd_journal env) event)"
proof -
  show "moves_world (quiet row executed) (dj_read_status (dd_journal env) event)"
    by (simp add: journal mysql_ddl_journal_def read_status_moves)
  show "moves_world (quiet row executed) (dj_read_evidence (dd_journal env) event)"
    unfolding journal mysql_ddl_journal_def ddl_journal.simps journal_read_evidence_def
    by (auto intro!: moves_world_bind simp: reads split: option.splits)
  show "moves_world (quiet row executed) (dj_prepare (dd_journal env) event evidence)"
    unfolding journal mysql_ddl_journal_def ddl_journal.simps journal_prepare_def
    by (auto intro!: moves_world_bind read_status_moves journal_write_moves simp: journal_writes_def)
qed (simp_all add: journal mysql_ddl_journal_def journal_write_moves journal_writes_def journal_transition_def
    moves_world_bind)

lemma read_status_tells:
  assumes "dj_read_status (dd_journal env) event w = (Inr status, w')"
  shows "row_engaged (row w) \<longleftrightarrow> status \<noteq> None \<and> status \<noteq> Some TranslationPending"
    and "row w' = row w"
proof -
  obtain found w1 where q: "jc_row conn (build_status_select_sql table event) w = (Inr found, w1)"
      and rest: "(case found of None \<Rightarrow> ret_op None | Some found \<Rightarrow>
           bind_op (lift_op (validate_journal_event_identity event found ''status'')) (\<lambda>_.
           bind_op (lift_op (parse_status (jr_status found))) (\<lambda>status. ret_op (Some status)))) w1 = (Inr status, w')"
    using assms
    by (auto simp: journal mysql_ddl_journal_def journal_read_status_def bind_op_eq_Inr map_err_op_eq_Inr)
  note st = status_row [OF q, THEN conjunct1, symmetric] status_row [OF q, THEN conjunct2]
  show "row_engaged (row w) \<longleftrightarrow> status \<noteq> None \<and> status \<noteq> Some TranslationPending"
    using rest st
    by (auto simp: row_engaged_def bind_op_eq_Inr lift_op_def ret_op_def parse_status_def split: option.splits if_splits)
  show "row w' = row w"
    using rest st by (auto simp: bind_op_eq_Inr lift_op_def ret_op_def split: option.splits)
qed

lemma prepare_engages:
  assumes "dj_prepare (dd_journal env) event evidence w = (Inr u, w')"
  shows "row_engaged (row w')"
proof -
  have written: "row_engaged (row w2)"
    if "jc_write conn sql w1 = (Inr (Suc 0), w2)"
      "sql = build_promote_translation_sql table event evidence \<or> sql = build_prepare_sql table event evidence" for sql w1 w2
    using that by (auto intro!: prepares [of sql w1 w2])
  show ?thesis
    using assms
    by (auto simp: journal mysql_ddl_journal_def journal_prepare_def journal_write_def bind_op_eq_Inr
        lift_op_def ensure_one_write_def dest: written split: if_splits)
qed

text \<open>The operations that never run a schema change.\<close>

lemmas step_moves = moves_bind moves_pure moves_on_journal moves_on_target moves_on_world moves_if semantic_moves journal_moves

lemma ensure_translation_pending_moves:
  "moves (\<lambda>_. True) (quiet row executed) (ensure_translation_pending env event)"
  unfolding ensure_translation_pending_def
  by (intro step_moves) (auto intro!: step_moves split: option.splits ddl_replay_status.splits)

lemma transaction_moves:
  "moves_world (quiet row executed) (tx_begin (en_executor (dd_stream env)))"
  "moves_world (quiet row executed) (tx_commit (en_executor (dd_stream env)))"
  "moves_world (quiet row executed) (tx_rollback (en_executor (dd_stream env)))"
  "moves_world (quiet row executed) (tx_load_checkpoint (en_executor (dd_stream env)) t name)"
  "moves_world (quiet row executed) (tx_save_checkpoint (en_executor (dd_stream env)) t name checkpoint)"
  using transactions by (simp_all add: quiet_transactions_def)

lemma commit_if_open_moves: "moves (\<lambda>_. True) (quiet row executed) (commit_if_open (dd_stream env))"
  unfolding commit_if_open_def finish_if_open_def by (intro moves_get_context step_moves transaction_moves)

lemma lock_validate_moves:
  "moves (\<lambda>_. True) (quiet row executed)
     (lock_validate_and_save_checkpoint (en_executor (dd_stream env)) t name checkpoint)"
  unfolding lock_validate_and_save_checkpoint_def by (intro step_moves transaction_moves)

lemma commit_target_group_moves: "moves (\<lambda>_. True) (quiet row executed) (commit_target_group (dd_stream env))"
proof -
  have restore: "moves (\<lambda>_. True) (quiet row executed)
      (\<lambda>s. case lock_validate_and_save_checkpoint (en_executor (dd_stream env)) t name checkpoint s of
          (Inl error, s') \<Rightarrow> (Inl error, snd (modify_transaction f s'))
        | (Inr _, s') \<Rightarrow> commit_if_open (dd_stream env) s')" for t name checkpoint f
    by (rule moves_catch [OF lock_validate_moves _ commit_if_open_moves])
       (auto simp: moves_def modify_transaction_def modify_context_def)
  show ?thesis
    unfolding commit_target_group_def
    by (intro moves_get_context step_moves) (auto intro: restore commit_if_open_moves split: option.splits)
qed

lemma store_moves:
  assumes "en_store (dd_stream env) = Some the_store"
  shows "moves_world (quiet row executed) (st_load the_store)" "moves_world (quiet row executed) (st_save the_store checkpoint)"
  using store [OF assms] by (simp_all add: quiet_store_def)

lemma flush_moves: "moves (\<lambda>_. True) (quiet row executed) (flush_grouped_transaction (dd_stream env))"
proof -
  have save: "moves (\<lambda>_. True) (quiet row executed)
      (\<lambda>s. case commit_target_group (dd_stream env) s of
          (Inl error, s') \<Rightarrow> (Inl error, (if k = None then s'
             else snd (modify_transaction (\<lambda>t. t\<lparr>tt_pending_file_checkpoint := k\<rparr>) s')))
        | (Inr _, s') \<Rightarrow> (case (k, en_store (dd_stream env)) of
             (Some checkpoint, Some store) \<Rightarrow> on_world (st_save store checkpoint) s'
           | _ \<Rightarrow> (Inr (), s')))" for k
    by (rule moves_catch [OF commit_target_group_moves])
       (auto simp: moves_def modify_transaction_def modify_context_def split: option.splits
         dest: movesD [OF moves_on_world [OF store_moves(2)] TrueI])
  show ?thesis
    unfolding flush_grouped_transaction_def Let_def
    by (intro moves_get_context step_moves save)
qed

lemma finalize_moves: "moves (\<lambda>_. True) (quiet row executed) (finalize_automatic_ddl_checkpoint env event)"
proof -
  have within: "moves (\<lambda>_. True) (quiet row executed) (checkpoint_ddl_in_transaction env t name event k)" for t name k
    unfolding checkpoint_ddl_in_transaction_def Let_def journal mysql_ddl_journal_def ddl_journal.simps bind_statement_result
    by (intro step_moves transaction_moves transition)
  have advances: "moves_world (quiet row executed) (ensure_resolved_ddl_checkpoint_advances (en_store (dd_stream env)) k)" for k
    unfolding ensure_resolved_ddl_checkpoint_advances_def
    by (auto intro!: moves_world_bind store_moves split: option.splits)
  show ?thesis
    unfolding finalize_automatic_ddl_checkpoint_def Let_def
    by (intro step_moves advances) (auto intro!: step_moves transaction_moves moves_catch within split: option.splits)
qed

lemma block_moves:
  "moves (\<lambda>_. True) (quiet row executed) (bind_op (ensure_translation_pending env event) (\<lambda>_. fail_op e))"
  by (intro step_moves ensure_translation_pending_moves)

lemma capture_moves: "moves (\<lambda>_. True) (quiet row executed) (capture_automatic_ddl_evidence env event query)"
  unfolding capture_automatic_ddl_evidence_def [abs_def]
  by (rule moves_match [OF moves_on_world]) (simp_all add: semantic_moves block_moves)

lemma transform_moves: "moves (\<lambda>_. True) (quiet row executed) (transform_or_block env event query)"
  unfolding transform_or_block_def [abs_def]
  by (rule moves_match [OF moves_on_world]) (simp_all add: semantic_moves block_moves)

lemma transformation_and_evidence_moves:
  "moves (\<lambda>_. True) (quiet row executed) (transformation_and_evidence env event query mode)"
  unfolding transformation_and_evidence_def by (intro step_moves capture_moves transform_moves)

lemma verify_moves: "moves (\<lambda>_. True) (quiet row executed) (verify_automatic_ddl_postcondition env event evidence)"
  unfolding verify_automatic_ddl_postcondition_def by (intro step_moves)

lemma read_blocked_evidence_moves: "moves (\<lambda>_. True) (quiet row executed) (read_blocked_evidence env event what)"
  unfolding read_blocked_evidence_def by (intro step_moves)

lemma reconcile_moves: "moves (\<lambda>_. True) (quiet row executed) (reconcile_prepared_automatic_ddl env event query)"
  unfolding reconcile_prepared_automatic_ddl_def
  by (intro step_moves read_blocked_evidence_moves finalize_moves)
     (auto intro!: step_moves split: prepared_reconciliation.splits)

lemma recover_blocked_moves: "moves (\<lambda>_. True) (quiet row executed) (recover_blocked_automatic_ddl env event query)"
  unfolding recover_blocked_automatic_ddl_def verified_blocked_recovery_evidence_def
  by (intro step_moves read_blocked_evidence_moves finalize_moves)

lemma execute_grows:
  "moves (\<lambda>w. row_engaged (row w)) (grow row executed) (execute_transformed_ddl env event transformation)"
proof (cases "tr_target_sql transformation")
  case None
  then show ?thesis
    by (simp add: execute_transformed_ddl_def moves_def bind_op_def ret_op_def quiet_is_grow)
next
  case (Some sql)
  show ?thesis
    unfolding moves_def
  proof (intro allI impI)
    fix c w r c' w'
    assume engaged: "row_engaged (row w)" and run: "execute_transformed_ddl env event transformation (c, w) = (r, (c', w'))"
    obtain r' where "tx_execute (en_executor (dd_stream env)) \<lparr>ss_sql = sql, ss_params = []\<rparr> w = (r', w')"
      using run by (auto simp: execute_transformed_ddl_def Some bind_op_def on_world_def map_err_op_def ret_op_def
          split: prod.splits sum.splits)
    from executes [OF this] engaged show "grow row executed w w'"
      by (auto simp: grow_def)
  qed
qed

lemma prepare_and_execute_grows:
  "moves (\<lambda>_. True) (grow row executed) (prepare_and_execute_automatic_ddl env event query)"
proof -
  have rest: "moves (\<lambda>_. True) (quiet row executed)
      (bind_op (verify_automatic_ddl_postcondition env event evidence) (\<lambda>_.
       bind_op (on_journal (dj_mark_applied (dd_journal env) event)) (\<lambda>_.
       bind_op (finalize_automatic_ddl_checkpoint env event) (\<lambda>_. ret_op outcome))))" for evidence outcome
    by (intro step_moves verify_moves finalize_moves)
  have execute: "moves (\<lambda>w. row_engaged (row w)) (grow row executed)
      (bind_op (execute_transformed_ddl env event transformation) (\<lambda>outcome.
       bind_op (verify_automatic_ddl_postcondition env event evidence) (\<lambda>_.
       bind_op (on_journal (dj_mark_applied (dd_journal env) event)) (\<lambda>_.
       bind_op (finalize_automatic_ddl_checkpoint env event) (\<lambda>_. ret_op outcome)))))" for transformation evidence
    by (rule moves_bind_rel [OF execute_grows TrueI rest]) (auto intro: grow_quiet)
  have prepare: "moves (\<lambda>_. True) (grow row executed)
      (bind_op (on_journal (dj_prepare (dd_journal env) event evidence)) (\<lambda>_.
       bind_op (execute_transformed_ddl env event transformation) (\<lambda>outcome.
       bind_op (verify_automatic_ddl_postcondition env event evidence) (\<lambda>_.
       bind_op (on_journal (dj_mark_applied (dd_journal env) event)) (\<lambda>_.
       bind_op (finalize_automatic_ddl_checkpoint env event) (\<lambda>_. ret_op outcome))))))" for transformation evidence
    by (rule moves_bind_rel [OF moves_on_journal [OF journal_moves(4)] _ execute])
       (auto simp: on_journal_def on_world_def intro: quiet_grow quiet_is_grow dest: prepare_engages split: prod.splits)
  show ?thesis
    unfolding prepare_and_execute_automatic_ddl_def Let_def
    by (auto intro!: moves_bind_grow transformation_and_evidence_moves prepare
        moves_weaken [OF moves_pure(2) _ quiet_is_grow] split: sum.splits)
qed

lemma replay_engaged_quiet:
  assumes "\<not> is_legacy_json_check_collision_event (dd_support env) (de_raw_sql event)"
    and "status \<noteq> None" "status \<noteq> Some TranslationPending"
  shows "moves (\<lambda>_. True) (quiet row executed) (replay_by_status env event query status)"
proof -
  have plain: "recover_legacy_json_alias env event s = ret_op False" for s
    using assms(1) by (simp add: recover_legacy_json_alias_def)
  from assms(2,3) consider "status = Some Prepared" | "status = Some Blocked" | "status = Some Applied" | "status = Some Checkpointed"
    by (metis ddl_replay_status.exhaust option.exhaust)
  then show ?thesis
  proof cases
    case 1
    then show ?thesis
      by (simp add: replay_by_status_def plain bind_ret_op) (intro step_moves reconcile_moves)
  next
    case 2
    then show ?thesis
      by (simp add: replay_by_status_def plain bind_ret_op) (intro step_moves recover_blocked_moves)
  next
    case 3
    then show ?thesis
      by (simp add: replay_by_status_def replay_action_def bind_statement_result checkpoint_only_automatic_ddl_def)
         (intro step_moves finalize_moves)
  next
    case 4
    then show ?thesis
      by (simp add: replay_by_status_def replay_action_def bind_statement_result)
  qed
qed

lemma replay_attempts:
  assumes "\<not> is_legacy_json_check_collision_event (dd_support env) (de_raw_sql event)"
  shows "moves (\<lambda>_. True) (attempt row executed) (replay_automatic_ddl env event query)"
  unfolding moves_def
proof (intro allI impI)
  fix c w r c' w'
  assume run: "replay_automatic_ddl env event query (c, w) = (r, (c', w'))"
  obtain rs w1 where read: "dj_read_status (dd_journal env) event w = (rs, w1)"
    by (metis prod.exhaust)
  have first: "quiet row executed w w1"
    using read journal_moves(1) unfolding moves_world_def by blast
  show "attempt row executed w w'"
  proof (cases rs)
    case (Inl e)
    with run read first show ?thesis
      by (auto simp: replay_automatic_ddl_def bind_op_def on_journal_def on_world_def map_err_op_def map_err_def attempt_quiet)
  next
    case (Inr status)
    note tells = read_status_tells [OF read [unfolded Inr]]
    have go: "replay_by_status env event query status (c, w1) = (r, (c', w'))"
      using run read Inr by (simp add: replay_automatic_ddl_def bind_op_def on_journal_def on_world_def map_err_op_def map_err_def)
    show ?thesis
    proof (cases "status = None \<or> status = Some TranslationPending")
      case True
      then have "replay_by_status env event query status = prepare_and_execute_automatic_ddl env event query"
        by (auto simp: replay_by_status_def replay_action_def bind_statement_result)
      from movesD [OF prepare_and_execute_grows TrueI go [unfolded this]] first tells True show ?thesis
        by (auto simp: attempt_def intro: quiet_grow)
    next
      case False
      then have "moves (\<lambda>_. True) (quiet row executed) (replay_by_status env event query status)"
        using replay_engaged_quiet [OF assms] by blast
      from movesD [OF this TrueI go] first show ?thesis
        by (blast intro: attempt_quiet quiet_trans)
    qed
  qed
qed

lemma handle_attempts:
  assumes "\<not> is_legacy_json_check_collision_event (dd_support env) (de_raw_sql event)"
    and "ddl_event_of (dd_source_identity env) (sx_current_file c) header query = event"
    and "handle_ddl_event env header query (c, w) = (r, (c', w'))"
  shows "attempt row executed w w'"
proof -
  let ?auto = "automatically_handled_ddl_event (en_uppercase (dd_stream env)) (dd_support env) (sx_state c) query"
  show ?thesis
  proof (cases ?auto)
    case True
    let ?rest = "bind_op (flush_grouped_transaction (dd_stream env)) (\<lambda>_.
          bind_op (replay_automatic_ddl env event query) (\<lambda>outcome.
          (\<lambda>s. (Inr (Some outcome), (fst s, sr_invalidate (en_resolver (dd_stream env)) (qe_database_name query) (snd s))))))"
    have finish: "moves (\<lambda>_. True) (quiet row executed)
        (\<lambda>s. (Inr (Some outcome), (fst s, sr_invalidate (en_resolver (dd_stream env)) (qe_database_name query) (snd s))))" for outcome
      by (auto simp: moves_def invalidate)
    have "moves (\<lambda>_. True) (attempt row executed) (bind_op (replay_automatic_ddl env event query) (\<lambda>outcome.
          (\<lambda>s. (Inr (Some outcome), (fst s, sr_invalidate (en_resolver (dd_stream env)) (qe_database_name query) (snd s))))))"
      by (rule moves_bind_rel [OF replay_attempts [OF assms(1)] TrueI finish])
         (auto intro: attempt_trans attempt_quiet)
    then have all: "moves (\<lambda>_. True) (attempt row executed) ?rest"
      by (rule moves_bind_rel [OF flush_moves TrueI]) (auto intro: attempt_trans attempt_quiet)
    obtain r0 c0 where "?rest (c, w) = (r0, (c0, w'))"
    proof -
      obtain r0 s0 where rest: "?rest (c, w) = (r0, s0)"
        by (rule prod.exhaust)
      have "handle_automatic_ddl_event env header query (c, w) = (r0, s0)"
        using True assms(2) rest by (simp add: handle_automatic_ddl_event_def bind_op_def [of get_context] get_context_def)
      moreover have "x \<noteq> None" if "r0 = Inr x" for x
        using rest that by (auto simp: bind_op_eq_Inr)
      ultimately have "s0 = (c', w')"
        using assms(3) by (auto simp: handle_ddl_event_def bind_op_def ret_op_def split: sum.splits option.splits)
      with rest show ?thesis using that by blast
    qed
    from movesD [OF all TrueI this] show ?thesis .
  next
    case False
    let ?e = "blocked_error ''DDL translator unavailable at '' event ''; checkpoint remains blocked''"
    let ?block = "bind_op (flush_grouped_transaction (dd_stream env)) (\<lambda>_.
        bind_op (ensure_translation_pending env event) (\<lambda>_. fail_op ?e))"
    have block: "moves (\<lambda>_. True) (quiet row executed) ?block"
      by (intro step_moves flush_moves ensure_translation_pending_moves)
    have "handle_ddl_event env header query (c, w) = handle_untranslated_ddl_event env header query (c, w)"
      using False by (simp add: handle_ddl_event_def handle_automatic_ddl_event_def bind_op_def get_context_def ret_op_def)
    then consider "(r, (c', w')) = (Inr None, (c, w))" | "?block (c, w) = (r, (c', w'))"
      using assms(2,3)
      by (cases "manual_ddl_event (en_uppercase (dd_stream env)) (dd_support env) (sx_state c) query")
         (simp_all add: handle_untranslated_ddl_event_def bind_op_def [of get_context] get_context_def ret_op_def)
    then show ?thesis
    proof cases
      case 1
      then show ?thesis by (simp add: attempt_quiet)
    next
      case 2
      then show ?thesis by (rule attempt_quiet [OF movesD [OF block TrueI]])
    qed
  qed
qed

end

section \<open>Repeated attempts\<close>

text \<open>The same event is handled again and again, with a new context after every restart.\<close>

primrec attempts ::
  "'w ddl_env \<Rightarrow> event_header \<Rightarrow> query_event \<Rightarrow> stream_context list \<Rightarrow> 'w \<Rightarrow> 'w"
where
  "attempts env header query [] w = w"
| "attempts env header query (c # cs) w = attempts env header query cs (snd (snd (handle_ddl_event env header query (c, w))))"

context ddl_target
begin

lemma attempts_move:
  assumes "\<not> is_legacy_json_check_collision_event (dd_support env) (de_raw_sql event)"
    and "\<forall>c \<in> set cs. ddl_event_of (dd_source_identity env) (sx_current_file c) header query = event"
  shows "attempt row executed w (attempts env header query cs w)"
  using assms(2)
proof (induction cs arbitrary: w)
  case Nil
  then show ?case by (simp add: attempt_quiet)
next
  case (Cons c cs)
  obtain r c' w' where run: "handle_ddl_event env header query (c, w) = (r, (c', w'))"
    by (metis prod.exhaust)
  then have "attempt row executed w w'"
    using handle_attempts [OF assms(1) _ run] Cons.prems by simp
  with Cons run show ?case
    by (auto intro: attempt_trans)
qed

end

section \<open>A target in memory\<close>

text \<open>The journal has the row of one event; a transaction collects the transition to
  \<open>checkpointed\<close> and the checkpoint until it commits. The next \<open>dm_faults\<close> observations of the target
  schema fail.\<close>

record ddl_memory =
  dm_row :: "string option"
  dm_executed :: "string list"
  dm_checkpoint :: "checkpoint option"
  dm_transition :: bool
  dm_unsaved :: "checkpoint option"
  dm_schema :: string
  dm_faults :: nat

definition users_sql :: string where
  "users_sql = ''ALTER TABLE users ADD COLUMN age INT''"

definition users_ddl_query :: query_event where
  "users_ddl_query = \<lparr>qe_database_name = ''app'', qe_sql_statement = users_sql, qe_status_variables = []\<rparr>"

definition users_ddl_header :: event_header where
  "users_ddl_header = \<lparr>eh_server_id = 1, eh_event_length = 50, eh_next_event_position = 350\<rparr>"

definition users_ddl_event :: ddl_event where
  "users_ddl_event = ddl_event_of ''production'' ''bin.7'' users_ddl_header users_ddl_query"

definition users_evidence :: ddl_evidence where
  "users_evidence =
     \<lparr>ev_transformation_version = ''v1'', ev_generated_sql = Some users_sql, ev_canonical_ast = ''alter'',
      ev_pre_state = ''before'', ev_expected_post_state = ''after''\<rparr>"

definition journal_next_status :: "string \<Rightarrow> string \<Rightarrow> string" where
  "journal_next_status sql status =
     (if status = ''translation_pending'' then ''prepared''
      else if status = ''prepared'' then
        (if find_text ('' SET status='' @ quoted ''blocked'') sql = None then ''applied'' else ''blocked'')
      else if status = ''blocked'' then ''applied''
      else ''checkpointed'')"

definition memory_journal_write :: "string \<Rightarrow> (ddl_memory, string, nat) op" where
  "memory_journal_write sql w =
     (case dm_row w of
        None \<Rightarrow>
          (if take 6 sql = ''INSERT''
           then (Inr 1, w\<lparr>dm_row := Some (if text_ends_with sql (quoted ''translation_pending'' @ '')'')
                                          then ''translation_pending'' else ''prepared'')\<rparr>)
           else (Inr 0, w))
      | Some status \<Rightarrow>
          (if take 6 sql = ''INSERT'' then (Inl ''Duplicate entry'', w)
           else if text_ends_with sql ('' AND status='' @ quoted status)
             then (Inr 1, w\<lparr>dm_row := Some (journal_next_status sql status)\<rparr>)
           else (Inr 0, w)))"

definition memory_journal_conn :: "ddl_memory journal_conn" where
  "memory_journal_conn =
     \<lparr>jc_row = (\<lambda>_ w. (Inr (map_option (\<lambda>status.
        \<lparr>jr_source_server_id = 1, jr_status = status, jr_raw_sql = users_sql, jr_event_end_position = 350,
         jr_schema_name = ''app'', jr_evidence = users_evidence\<rparr>) (dm_row w)), w)),
      jc_barrier_row = (\<lambda>_ w. (Inr None, w)),
      jc_write = memory_journal_write\<rparr>"

definition memory_ddl_executor :: "ddl_memory target_executor" where
  "memory_ddl_executor =
     \<lparr>tx_execute = (\<lambda>statement w.
        (Inr (), if take 6 (ss_sql statement) = ''UPDATE'' then w\<lparr>dm_transition := True\<rparr>
                 else w\<lparr>dm_executed := dm_executed w @ [ss_sql statement], dm_schema := ''after''\<rparr>)),
      tx_execute_row_change = (\<lambda>_ w. (Inr (), w)),
      tx_begin = (\<lambda>w. (Inr (), w\<lparr>dm_transition := False, dm_unsaved := dm_checkpoint w\<rparr>)),
      tx_load_checkpoint = (\<lambda>_ _ w. (Inr (dm_unsaved w), w)),
      tx_save_checkpoint = (\<lambda>_ _ k w. (Inr (), w\<lparr>dm_unsaved := Some k\<rparr>)),
      tx_commit = (\<lambda>w. (Inr (),
        w\<lparr>dm_row := (if dm_transition w \<and> dm_row w = Some ''applied'' then Some ''checkpointed'' else dm_row w),
          dm_checkpoint := dm_unsaved w, dm_transition := False\<rparr>)),
      tx_rollback = (\<lambda>w. (Inr (), w\<lparr>dm_transition := False, dm_unsaved := dm_checkpoint w\<rparr>))\<rparr>"

definition memory_ddl_store :: "ddl_memory stream_store" where
  "memory_ddl_store =
     \<lparr>st_load = (\<lambda>w. (Inr (dm_checkpoint w), w)), st_save = (\<lambda>k w. (Inr (), w\<lparr>dm_checkpoint := Some k\<rparr>)),
      st_for_skip = (\<lambda>w. (Inr (dm_checkpoint w), w))\<rparr>"

definition memory_observe :: "(ddl_memory, string, string) op" where
  "memory_observe w =
     (if dm_faults w = 0 then (Inr (dm_schema w), w) else (Inl ''connection lost'', w\<lparr>dm_faults := dm_faults w - 1\<rparr>))"

definition memory_semantics :: "ddl_memory semantic_inventory" where
  "memory_semantics =
     \<lparr>si_transform_sql = (\<lambda>sql. ret_op \<lparr>tr_version = ''v1'', tr_target_sql = Some sql\<rparr>),
      si_transform_sql_with_query_context = (\<lambda>sql _. ret_op \<lparr>tr_version = ''v1'', tr_target_sql = Some sql\<rparr>),
      si_capture_evidence = (\<lambda>_ _ _. ret_op users_evidence),
      si_capture_evidence_with_query_context = (\<lambda>_ _ _ _. ret_op users_evidence),
      si_observe_target_state = (\<lambda>_. memory_observe),
      si_observe_target_state_with_evidence = (\<lambda>_ _. memory_observe),
      si_expected_target_state_with_evidence = (\<lambda>_ evidence. ret_op (ev_expected_post_state evidence))\<rparr>"

definition alter_only_support :: ddl_support where
  "alter_only_support =
     \<lparr>ds_source_only_release_move_procedure_create = (\<lambda>_. False), ds_assistant_reply_reports_create = (\<lambda>_. False),
      ds_parse_fixture_create_table = (\<lambda>_ _. False), ds_production_alter_table = (\<lambda>_ _. True),
      ds_drop_procedure = (\<lambda>_. False), ds_drop_trigger_if_exists = (\<lambda>_. False),
      ds_drop_columns_if_exists = (\<lambda>_. False), ds_rename_columns_if_exists = (\<lambda>_. False),
      ds_parse_ddl_operation = (\<lambda>_ _. None), ds_automatic_index_ddl = (\<lambda>_. False),
      ds_automatic_semantic_recovery = (\<lambda>_. False), ds_validate_replayed_source_mode = (\<lambda>_ _. Inr ()),
      ds_transformation_version = ''v1'', ds_contributor_cards_text = ''CREATE TABLE cards (id INT)''\<rparr>"

definition memory_ddl_env :: "ddl_memory ddl_env" where
  "memory_ddl_env =
     \<lparr>dd_stream =
        \<lparr>en_uppercase = (\<lambda>c. [c]), en_executor = memory_ddl_executor,
         en_resolver = \<lparr>sr_resolve = (\<lambda>schema table _. fail_op (MappingFailed (TableNotFound schema table))), sr_invalidate = (\<lambda>_ w. w)\<rparr>,
         en_clock = (\<lambda>_. 0), en_store = Some memory_ddl_store, en_table = Some default_stream_checkpoint_table,
         en_name = Some (stream_checkpoint_name ''production''), en_group = \<lparr>gc_size = 1, gc_timeout = 0\<rparr>,
         en_ddl = (\<lambda>_ _. ret_op None)\<rparr>,
      dd_journal = mysql_ddl_journal memory_journal_conn ''cdc.ddl_journal'', dd_semantics = memory_semantics,
      dd_support = alter_only_support, dd_source_identity = ''production'', dd_decode_error = (\<lambda>_. [])\<rparr>"

lemma ends_with_more:
  "text_ends_with t t" "text_ends_with t y \<Longrightarrow> text_ends_with (x @ t) y" "text_ends_with t y \<Longrightarrow> text_ends_with (c # t) y"
  by (auto simp: text_ends_with_def Suc_diff_le)

lemma ends_with_same:
  assumes "text_ends_with s a" "text_ends_with s b" "length b \<le> length a"
  shows "drop (length a - length b) a = b"
proof -
  have "drop (length a - length b) a = drop (length s - length b) s"
    using assms by (auto simp: text_ends_with_def) (metis add.commute diff_add drop_drop Nat.add_diff_assoc2)
  with assms(2) show ?thesis by (simp add: text_ends_with_def)
qed

lemma prepare_text_end:
  "\<not> text_ends_with (build_prepare_sql table event evidence) (quoted ''translation_pending'' @ '')'')"
proof
  assume "text_ends_with (build_prepare_sql table event evidence) (quoted ''translation_pending'' @ '')'')"
  moreover have "text_ends_with (build_prepare_sql table event evidence) (quoted ''prepared'' @ '')'')"
    by (simp add: build_prepare_sql_def ends_with_more)
  ultimately have "drop 11 (quoted ''translation_pending'' @ '')'') = quoted ''prepared'' @ '')''"
    using ends_with_same by (fastforce simp: quoted_def)
  then show False by (simp add: quoted_def)
qed

lemma next_status_engaged: "row_engaged (Some (journal_next_status sql status))"
  by (simp add: row_engaged_def journal_next_status_def)

lemma memory_write_quiet: "moves_world (quiet dm_row dm_executed) (memory_journal_write sql)"
  using next_status_engaged
  by (auto simp: moves_world_def memory_journal_write_def quiet_def row_engaged_def split: option.splits if_splits)

interpretation users_ddl: ddl_target memory_ddl_env memory_journal_conn "''cdc.ddl_journal''" users_ddl_event dm_row dm_executed
proof unfold_locales
  fix sql w w'
  assume "sql \<in> range (build_promote_translation_sql ''cdc.ddl_journal'' users_ddl_event)
      \<union> range (build_prepare_sql ''cdc.ddl_journal'' users_ddl_event)"
    and "jc_write memory_journal_conn sql w = (Inr 1, w')"
  then show "row_engaged (dm_row w')"
    using next_status_engaged prepare_text_end
    by (auto simp: memory_journal_conn_def memory_journal_write_def build_promote_translation_sql_def row_engaged_def
        split: option.splits if_splits)
next
  show "quiet_semantics (quiet dm_row dm_executed) (dd_semantics memory_ddl_env)"
    by (auto simp: quiet_semantics_def memory_ddl_env_def memory_semantics_def moves_world_def ret_op_def memory_observe_def
        quiet_def split: if_splits)
next
  show "quiet_transactions (quiet dm_row dm_executed) (en_executor (dd_stream memory_ddl_env))"
    by (auto simp: quiet_transactions_def memory_ddl_env_def memory_ddl_executor_def moves_world_def quiet_def row_engaged_def)
next
  show "moves_world (quiet dm_row dm_executed) (jc_write memory_journal_conn sql)" for sql
    by (simp add: memory_journal_conn_def memory_write_quiet)
qed (auto simp: memory_ddl_env_def memory_journal_conn_def memory_ddl_store_def quiet_store_def moves_world_def
    memory_ddl_executor_def build_transition_sql_def quiet_def option.map_comp comp_def option.map_ident split: if_splits)

definition users_memory :: "nat \<Rightarrow> ddl_memory" where
  "users_memory faults =
     \<lparr>dm_row = None, dm_executed = [],
      dm_checkpoint = Some (coordinate_checkpoint \<lparr>bc_file = ''bin.7'', bc_position = 300\<rparr> ''XidEvent''),
      dm_transition = False, dm_unsaved = None, dm_schema = ''before'', dm_faults = faults\<rparr>"

definition users_context :: stream_context where
  "users_context =
     \<lparr>sx_state = new_event_state (Some ''app''), sx_registry = [], sx_transaction = closed_transaction,
      sx_current_file = ''bin.7'', sx_source_row_transaction_open = False\<rparr>"

section \<open>Properties\<close>

definition returns :: "'a \<Rightarrow> ('w, 'a) stream_op \<Rightarrow> bool" where
  "returns a m \<longleftrightarrow> (\<forall>s b s'. m s = (Inr b, s') \<longrightarrow> b = a)"

lemma returns_intros:
  "returns a (ret_op a)" "returns a (fail_op e)" "(\<And>x. returns a (f x)) \<Longrightarrow> returns a (bind_op m f)"
  "(b \<Longrightarrow> returns a m') \<Longrightarrow> (\<not> b \<Longrightarrow> returns a m'') \<Longrightarrow> returns a (if b then m' else m'')"
  unfolding returns_def ret_op_def fail_op_def bind_op_eq_Inr by (blast, blast, blast, presburger)

lemma returns_bind_known: "returns a m \<Longrightarrow> (\<And>x. returns x (f x)) \<Longrightarrow> returns a (bind_op m f)"
  by (fastforce simp: returns_def bind_op_eq_Inr)

lemma prepare_and_execute_returns:
  "returns (resolved_ddl_outcome event) (prepare_and_execute_automatic_ddl env event query)"
proof -
  have execute: "returns (resolved_ddl_outcome event) (execute_transformed_ddl env event transformation)" for transformation
    unfolding execute_transformed_ddl_def by (intro returns_intros)
  have rest: "returns outcome (bind_op (verify_automatic_ddl_postcondition env event evidence) (\<lambda>_.
       bind_op (on_journal (dj_mark_applied (dd_journal env) event)) (\<lambda>_.
       bind_op (finalize_automatic_ddl_checkpoint env event) (\<lambda>_. ret_op outcome))))" for evidence outcome
    by (intro returns_intros)
  show ?thesis
    unfolding prepare_and_execute_automatic_ddl_def Let_def
    by (auto intro!: returns_intros(2,3) returns_bind_known [OF execute rest] split: sum.splits)
qed

lemma resolves_to_event:
  assumes "replay_automatic_ddl env event query s = (Inr outcome, s')"
  shows "outcome = resolved_ddl_outcome event"
proof -
  have legacy: "returns (resolved_ddl_outcome event) (bind_op (recover_legacy_json_alias env event status) (\<lambda>recovered.
      if recovered then ret_op (resolved_ddl_outcome event) else bind_op m (\<lambda>_. ret_op (resolved_ddl_outcome event))))" for status m
    by (intro returns_intros)
  have action: "returns (resolved_ddl_outcome event) (case action of
      PrepareAndExecute \<Rightarrow> prepare_and_execute_automatic_ddl env event query
    | CheckpointOnly \<Rightarrow> checkpoint_only_automatic_ddl env event
    | AlreadyCheckpointed \<Rightarrow> ret_op (resolved_ddl_outcome event))" for action
    unfolding checkpoint_only_automatic_ddl_def
    by (cases action) (auto intro!: returns_intros prepare_and_execute_returns)
  have "returns (resolved_ddl_outcome event) (replay_by_status env event query status)" for status
    unfolding replay_by_status_def
    by (auto intro: legacy returns_intros(3) [OF action] split: option.split ddl_replay_status.split)
  then have "returns (resolved_ddl_outcome event) (replay_automatic_ddl env event query)"
    unfolding replay_automatic_ddl_def by (intro returns_intros)
  with assms show ?thesis unfolding returns_def by blast
qed

lemma automatic_handled:
  assumes "handle_automatic_ddl_event env header query (c, w) = (Inr handled, s')"
  shows "handled = Some (resolved_ddl_outcome (ddl_event_of (dd_source_identity env) (sx_current_file c) header query))
     \<or> handled = None \<and> s' = (c, w)
         \<and> \<not> automatically_handled_ddl_event (en_uppercase (dd_stream env)) (dd_support env) (sx_state c) query"
  using assms
  by (auto simp: handle_automatic_ddl_event_def bind_op_eq_Inr get_context_def ret_op_def Let_def
      dest: resolves_to_event split: if_splits)



text \<open>C32. A recognised schema change never takes the path of plain statements: for a query event of the
  applied schema that the statement policy calls schema changing, the stream either stops with an error
  or returns the outcome of a resolved schema change, whose resume coordinate is the end of the event; the
  statement itself is never handed to the transactional apply path.
\<close>

theorem schema_change_never_plain:
  assumes "is_schema_changing_statement (utf8_chars (qe_sql_statement query))"
    and "should_apply_schema (sx_state c) (qe_database_name query)"
    and "dispatch_stream_event (stream_with_ddl env) header (QueryEvent query) (c, w) = (Inr outcome, s')"
  shows "outcome = resolved_ddl_outcome (ddl_event_of (dd_source_identity env) (sx_current_file c) header query)
     \<and> handle_automatic_ddl_event env header query (c, w) = (Inr (Some outcome), s')"
proof -
  obtain handled s1 where auto: "handle_automatic_ddl_event env header query (c, w) = (Inr handled, s1)"
    using assms(3)
    by (auto simp: dispatch_stream_event_def handle_query_ddl_def stream_with_ddl_def handle_ddl_event_def bind_op_eq_Inr)
  from automatic_handled [OF this] show ?thesis
  proof (elim disjE conjE)
    assume "handled = Some (resolved_ddl_outcome (ddl_event_of (dd_source_identity env) (sx_current_file c) header query))"
    with auto assms(3) show ?thesis
      by (auto simp: dispatch_stream_event_def handle_query_ddl_def stream_with_ddl_def handle_ddl_event_def bind_op_eq_Inr ret_op_def)
  next
    assume none: "handled = None" "s1 = (c, w)"
      "\<not> automatically_handled_ddl_event (en_uppercase (dd_stream env)) (dd_support env) (sx_state c) query"
    have "manual_ddl_event (en_uppercase (dd_stream env)) (dd_support env) (sx_state c) query"
      using assms(1,2) none(3) by (simp add: manual_ddl_event_def Let_def)
    with auto none assms(3) show ?thesis
      by (auto simp: dispatch_stream_event_def handle_query_ddl_def stream_with_ddl_def handle_ddl_event_def
          handle_untranslated_ddl_event_def bind_op_eq_Inr get_context_def fail_op_def Let_def)
  qed
qed

theorem schema_change_never_plain_witness:
  "eo_resume_coordinate (resolved_ddl_outcome users_ddl_event) = Some \<lparr>bc_file = ''bin.7'', bc_position = 350\<rparr>
   \<and> fst (dispatch_stream_event (stream_with_ddl memory_ddl_env) users_ddl_header (QueryEvent users_ddl_query)
        (users_context, users_memory 0)) = Inr (resolved_ddl_outcome users_ddl_event)"
proof -
  let ?run = "dispatch_stream_event (stream_with_ddl memory_ddl_env) users_ddl_header (QueryEvent users_ddl_query)
        (users_context, users_memory 0)"
  have "(case fst ?run of Inr _ \<Rightarrow> True | Inl _ \<Rightarrow> False)"
    by code_simp
  then obtain outcome where run: "?run = (Inr outcome, snd ?run)"
    by (cases ?run) (auto split: sum.splits)
  have "is_schema_changing_statement (utf8_chars (qe_sql_statement users_ddl_query))"
      "should_apply_schema (sx_state users_context) (qe_database_name users_ddl_query)"
      "ddl_event_of (dd_source_identity memory_ddl_env) (sx_current_file users_context) users_ddl_header users_ddl_query = users_ddl_event"
      "eo_resume_coordinate (resolved_ddl_outcome users_ddl_event) = Some \<lparr>bc_file = ''bin.7'', bc_position = 350\<rparr>"
    by code_simp+
  with schema_change_never_plain [OF _ _ run] run show ?thesis
    by (metis fst_conv)
qed

end
