(* ===== verification/Validation.thy ===== *)
theory Validation
  imports Sync_Model Inventory_Model
begin

text \<open>
  Comparison of source and target (\<open>src/src/validation.rs\<close>): row counts, sampled checksums and
  row differences. The two readers are records of operations over one world. The main fact is that
  the difference report of two reads names exactly the keys on which they differ, each once and in
  key order.
\<close>

section \<open>Tables, requests and reports\<close>

record validation_table =
  vt_name :: string
  vt_primary_key :: "string list"
  vt_columns :: "string list"

definition validation_table_of :: "table_inventory \<Rightarrow> validation_table" where
  "validation_table_of table =
     \<lparr>vt_name = ti_name table, vt_primary_key = ti_primary_key table,
      vt_columns = map ci_name (filter (\<lambda>column. ci_generated column = None) (ti_columns table))\<rparr>"

record count_comparison =
  cc_table :: string
  cc_source_count :: u64
  cc_target_count :: u64

record checksum_request =
  vq_table :: string
  vq_primary_key :: "string list"
  vq_columns :: "string list"
  vq_sample_size :: nat

record checksum_sample =
  cs_sample_key :: "string list"
  cs_row_count :: u64
  cs_checksum :: string

record checksum_comparison =
  cx_table :: string
  cx_sample_key :: "string list"
  cx_source :: "checksum_sample option"
  cx_target :: "checksum_sample option"

record divergence_request =
  dq_table :: string
  dq_primary_key :: "string list"
  dq_columns :: "string list"
  dq_start_after :: "string list option"
  dq_limit :: nat

datatype row_divergence_kind = MissingSource | MissingTarget | ValueMismatch "string list" row_values row_values

record row_divergence =
  rd_primary_key :: row_key
  rd_kind :: row_divergence_kind

record divergence_report =
  dp_table :: string
  dp_divergences :: "row_divergence list"

datatype validation_error = InvalidTable string | ReaderFailed string string

record 'w validation_reader =
  vr_count_rows :: "string \<Rightarrow> ('w, validation_error, u64) op"
  vr_sampled_checksums :: "checksum_request \<Rightarrow> ('w, validation_error, checksum_sample list) op"
  vr_read_rows :: "divergence_request \<Rightarrow> ('w, validation_error, database_row list) op"

primrec collect_op :: "('a \<Rightarrow> ('w, 'e, 'b) op) \<Rightarrow> 'a list \<Rightarrow> ('w, 'e, 'b list) op" where
  "collect_op f [] = ret_op []"
| "collect_op f (x # xs) = bind_op (f x) (\<lambda>y. bind_op (collect_op f xs) (\<lambda>ys. ret_op (y # ys)))"

definition validate_table :: "validation_table \<Rightarrow> validation_error + unit" where
  "validate_table table =
     (if vt_name table = [] then Inl (InvalidTable ''validation table needs a name'')
      else if vt_primary_key table = [] then Inl (InvalidTable (vt_name table @ '' needs a primary key for validation''))
      else if vt_columns table = [] then Inl (InvalidTable (vt_name table @ '' needs selected columns for validation''))
      else Inr ())"

section \<open>Counts\<close>

definition count_matches :: "count_comparison \<Rightarrow> bool" where
  "count_matches c \<longleftrightarrow> cc_source_count c = cc_target_count c"

definition compare_table_count ::
  "'w validation_reader \<Rightarrow> 'w validation_reader \<Rightarrow> validation_table \<Rightarrow> ('w, validation_error, count_comparison) op"
where
  "compare_table_count source target table =
     bind_op (lift_op (validate_table table)) (\<lambda>_.
     bind_op (vr_count_rows source (vt_name table)) (\<lambda>source_count.
     bind_op (vr_count_rows target (vt_name table)) (\<lambda>target_count.
       ret_op \<lparr>cc_table = vt_name table, cc_source_count = source_count, cc_target_count = target_count\<rparr>)))"

definition validate_table_counts ::
  "validation_table list \<Rightarrow> 'w validation_reader \<Rightarrow> 'w validation_reader \<Rightarrow> ('w, validation_error, count_comparison list) op"
where
  "validate_table_counts tables source target = collect_op (compare_table_count source target) tables"

section \<open>Checksums\<close>

definition checksum_matches :: "checksum_comparison \<Rightarrow> bool" where
  "checksum_matches c =
     (case (cx_source c, cx_target c) of
        (Some source, Some target) \<Rightarrow> cs_row_count source = cs_row_count target \<and> cs_checksum source = cs_checksum target
      | _ \<Rightarrow> False)"

definition checksum_request_of :: "validation_table \<Rightarrow> nat \<Rightarrow> validation_error + checksum_request" where
  "checksum_request_of table sample_size =
     bind_res (validate_table table) (\<lambda>_.
       Inr \<lparr>vq_table = vt_name table, vq_primary_key = vt_primary_key table, vq_columns = vt_columns table,
            vq_sample_size = sample_size\<rparr>)"

definition samples_by_key :: "checksum_sample list \<Rightarrow> (string list \<times> checksum_sample) list" where
  "samples_by_key samples = btm_collect (map (\<lambda>sample. (cs_sample_key sample, sample)) samples)"

definition chained_keys :: "('k::linorder \<times> 'v) list \<Rightarrow> ('k \<times> 'v) list \<Rightarrow> 'k list" where
  "chained_keys source target = bts_collect (map fst source @ map fst target)"

definition build_checksum_difference ::
  "string \<Rightarrow> string list \<Rightarrow> (string list \<times> checksum_sample) list \<Rightarrow> (string list \<times> checksum_sample) list
    \<Rightarrow> checksum_comparison option"
where
  "build_checksum_difference table sample_key source_by_key target_by_key =
     (let comparison = \<lparr>cx_table = table, cx_sample_key = sample_key, cx_source = map_of source_by_key sample_key,
                        cx_target = map_of target_by_key sample_key\<rparr> in
      if checksum_matches comparison then None else Some comparison)"

definition compare_checksum_samples ::
  "validation_table \<Rightarrow> checksum_sample list \<Rightarrow> checksum_sample list \<Rightarrow> checksum_comparison list"
where
  "compare_checksum_samples table source_samples target_samples =
     (let source_by_key = samples_by_key source_samples; target_by_key = samples_by_key target_samples in
      List.map_filter (\<lambda>sample_key. build_checksum_difference (vt_name table) sample_key source_by_key target_by_key)
        (chained_keys source_by_key target_by_key))"

fun validate_sampled_checksums ::
  "validation_table list \<Rightarrow> nat \<Rightarrow> 'w validation_reader \<Rightarrow> 'w validation_reader
    \<Rightarrow> ('w, validation_error, checksum_comparison list) op"
where
  "validate_sampled_checksums [] sample_size source target = ret_op []"
| "validate_sampled_checksums (table # tables) sample_size source target =
     bind_op (lift_op (checksum_request_of table sample_size)) (\<lambda>request.
     bind_op (vr_sampled_checksums source request) (\<lambda>source_samples.
     bind_op (vr_sampled_checksums target request) (\<lambda>target_samples.
     bind_op (validate_sampled_checksums tables sample_size source target) (\<lambda>comparisons.
       ret_op (compare_checksum_samples table source_samples target_samples @ comparisons)))))"

section \<open>Rows\<close>

definition rows_by_key :: "database_row list \<Rightarrow> (row_key \<times> database_row) list" where
  "rows_by_key rows = btm_collect (map (\<lambda>row. (dr_primary_key row, row)) rows)"

definition differing_columns :: "row_values \<Rightarrow> row_values \<Rightarrow> string list" where
  "differing_columns source target =
     filter (\<lambda>column. map_of source column \<noteq> map_of target column) (chained_keys source target)"

definition value_mismatch :: "row_key \<Rightarrow> database_row \<Rightarrow> database_row \<Rightarrow> row_divergence option" where
  "value_mismatch primary_key source target =
     (let columns = differing_columns (dr_values source) (dr_values target) in
      if columns = [] then None
      else Some \<lparr>rd_primary_key = primary_key, rd_kind = ValueMismatch columns (dr_values source) (dr_values target)\<rparr>)"

definition build_row_divergence ::
  "row_key \<Rightarrow> (row_key \<times> database_row) list \<Rightarrow> (row_key \<times> database_row) list \<Rightarrow> row_divergence option"
where
  "build_row_divergence primary_key source_by_key target_by_key =
     (case (map_of source_by_key primary_key, map_of target_by_key primary_key) of
        (Some source, Some target) \<Rightarrow> value_mismatch primary_key source target
      | (Some _, None) \<Rightarrow> Some \<lparr>rd_primary_key = primary_key, rd_kind = MissingTarget\<rparr>
      | (None, Some _) \<Rightarrow> Some \<lparr>rd_primary_key = primary_key, rd_kind = MissingSource\<rparr>
      | (None, None) \<Rightarrow> None)"

definition compare_rows :: "database_row list \<Rightarrow> database_row list \<Rightarrow> row_divergence list" where
  "compare_rows source_rows target_rows =
     (let source_by_key = rows_by_key source_rows; target_by_key = rows_by_key target_rows in
      List.map_filter (\<lambda>key. build_row_divergence key source_by_key target_by_key) (chained_keys source_by_key target_by_key))"

definition report_matches :: "divergence_report \<Rightarrow> bool" where
  "report_matches report \<longleftrightarrow> dp_divergences report = []"

definition report_row_divergence ::
  "validation_table \<Rightarrow> string list option \<Rightarrow> nat \<Rightarrow> 'w validation_reader \<Rightarrow> 'w validation_reader
    \<Rightarrow> ('w, validation_error, divergence_report) op"
where
  "report_row_divergence table start_after limit source target =
     bind_op (lift_op (validate_table table)) (\<lambda>_.
       let request = \<lparr>dq_table = vt_name table, dq_primary_key = vt_primary_key table, dq_columns = vt_columns table,
                      dq_start_after = start_after, dq_limit = limit\<rparr> in
       bind_op (vr_read_rows source request) (\<lambda>source_rows.
       bind_op (vr_read_rows target request) (\<lambda>target_rows.
         ret_op \<lparr>dp_table = vt_name table, dp_divergences = compare_rows source_rows target_rows\<rparr>)))"

section \<open>What a comparison of rows says\<close>

text \<open>The rows of a read as a map from keys to column maps; a later row of the same key counts.\<close>

definition row_map :: "database_row list \<Rightarrow> row_key \<Rightarrow> (string \<Rightarrow> string option option) option" where
  "row_map rows key = map_option (\<lambda>row. map_of (dr_values row)) (map_of (rev (map (\<lambda>row. (dr_primary_key row, row)) rows)) key)"

lemma row_map_rows_by_key: "row_map rows key = map_option (\<lambda>row. map_of (dr_values row)) (map_of (rows_by_key rows) key)"
  by (simp add: row_map_def rows_by_key_def map_of_btm_collect)

lemma set_chained_keys [simp]: "set (chained_keys a b) = fst ` set a \<union> fst ` set b"
  by (simp add: chained_keys_def)

lemma bts_wf_chained_keys [simp]: "bts_wf (chained_keys a b)"
  by (simp add: chained_keys_def)

lemma chained_keys_none: "k \<notin> set (chained_keys a b) \<longleftrightarrow> map_of a k = None \<and> map_of b k = None"
  by (simp add: map_of_eq_None_iff)

lemma differing_columns_empty: "differing_columns source target = [] \<longleftrightarrow> map_of source = map_of target"
proof
  assume *: "differing_columns source target = []"
  show "map_of source = map_of target"
  proof
    fix column
    show "map_of source column = map_of target column"
      using * chained_keys_none [of column source target]
      by (cases "column \<in> set (chained_keys source target)") (auto simp: differing_columns_def filter_empty_conv)
  qed
qed (simp add: differing_columns_def)

lemma build_row_divergence_none:
  "build_row_divergence key (rows_by_key source) (rows_by_key target) = None \<longleftrightarrow> row_map source key = row_map target key"
  by (auto simp: build_row_divergence_def value_mismatch_def Let_def differing_columns_empty row_map_rows_by_key
      split: option.splits if_splits)

lemma build_row_divergence_key: "build_row_divergence key a b = Some d \<Longrightarrow> rd_primary_key d = key"
  by (auto simp: build_row_divergence_def value_mismatch_def Let_def split: option.splits if_splits)

definition divergence_tells :: "(string \<Rightarrow> string option option) option \<Rightarrow> (string \<Rightarrow> string option option) option \<Rightarrow> row_divergence_kind \<Rightarrow> bool" where
  "divergence_tells source target kind =
     (case kind of
        MissingSource \<Rightarrow> source = None
      | MissingTarget \<Rightarrow> target = None
      | ValueMismatch columns source_values target_values \<Rightarrow>
          source = Some (map_of source_values) \<and> target = Some (map_of target_values)
          \<and> set columns = {column. map_of source_values column \<noteq> map_of target_values column})"

lemma differing_columns_set:
  "set (differing_columns source target) = {column. map_of source column \<noteq> map_of target column}"
proof -
  have "column \<in> set (chained_keys source target)" if "map_of source column \<noteq> map_of target column" for column
    using that chained_keys_none [of column source target] by auto
  then show ?thesis by (auto simp: differing_columns_def)
qed

lemma build_row_divergence_tells:
  assumes "build_row_divergence key (rows_by_key source) (rows_by_key target) = Some d"
  shows "divergence_tells (row_map source key) (row_map target key) (rd_kind d)"
  using assms
  by (auto simp: build_row_divergence_def value_mismatch_def Let_def row_map_rows_by_key divergence_tells_def differing_columns_set
      split: option.splits if_splits)

lemma map_filter_keys:
  assumes "\<And>k d. f k = Some d \<Longrightarrow> g d = k"
  shows "map g (List.map_filter f ks) = filter (\<lambda>k. f k \<noteq> None) ks"
  using assms by (induction ks) (auto simp: map_filter_simps split: option.splits)

text \<open>C14. The difference report is exact: the keys of the reported differences are, in strictly increasing
  key order, exactly the keys on which the two reads disagree, and every entry tells what the
  disagreement is: a row only one side has, or the columns whose values differ with both rows. In
  particular a report is empty exactly when both reads hold the same rows.
\<close>

theorem compare_rows_exact:
  "let divergences = compare_rows source target in
     bts_wf (map rd_primary_key divergences)
     \<and> set (map rd_primary_key divergences) = {key. row_map source key \<noteq> row_map target key}
     \<and> list_all (\<lambda>d. divergence_tells (row_map source (rd_primary_key d)) (row_map target (rd_primary_key d)) (rd_kind d)) divergences
     \<and> (divergences = [] \<longleftrightarrow> row_map source = row_map target)"
proof -
  let ?f = "\<lambda>key. build_row_divergence key (rows_by_key source) (rows_by_key target)"
  let ?keys = "chained_keys (rows_by_key source) (rows_by_key target)"
  let ?ds = "compare_rows source target"
  have keys: "map rd_primary_key ?ds = filter (\<lambda>k. ?f k \<noteq> None) ?keys"
    unfolding compare_rows_def Let_def by (rule map_filter_keys) (rule build_row_divergence_key)
  have differ: "set (map rd_primary_key ?ds) = {key. row_map source key \<noteq> row_map target key}"
  proof -
    have "key \<in> set ?keys" if "row_map source key \<noteq> row_map target key" for key
      using that chained_keys_none [of key "rows_by_key source" "rows_by_key target"] by (auto simp: row_map_rows_by_key)
    then show ?thesis
      unfolding keys by (auto simp: build_row_divergence_none)
  qed
  have "divergence_tells (row_map source (rd_primary_key d)) (row_map target (rd_primary_key d)) (rd_kind d)"
    if "d \<in> set ?ds" for d
  proof -
    obtain key where "?f key = Some d"
      using \<open>d \<in> set ?ds\<close> by (auto simp: compare_rows_def Let_def List.map_filter_def)
    with build_row_divergence_key [OF this] build_row_divergence_tells [OF this] show ?thesis by simp
  qed
  moreover have "bts_wf (map rd_primary_key ?ds)"
    unfolding keys by (intro sorted_wrt_filter) simp
  moreover have "?ds = [] \<longleftrightarrow> row_map source = row_map target"
  proof -
    have "?ds = [] \<longleftrightarrow> set (map rd_primary_key ?ds) = {}" by simp
    then show ?thesis unfolding differ by (auto simp: fun_eq_iff)
  qed
  ultimately show ?thesis
    using differ by (simp add: Let_def list_all_iff)
qed

end
