(* ===== verification/Cutover.thy ===== *)
theory Cutover
  imports Validation
begin

text \<open>
  The cutover (\<open>src/src/cutover.rs\<close>): stop the writes, drain the stream, validate, switch the endpoint
  and resume the writes, with the writes resumed on every failure. The write controller, the drainer
  and the endpoint switcher are operations. The interface \<open>cutover_site\<close> states what they do to the
  observers: whether writes are stopped, whether the endpoint is switched, and whether it was switched
  while writes were running.
\<close>

section \<open>Plan, reports and errors\<close>

record cutover_plan =
  pl_tables :: "validation_table list"
  pl_checksum_sample_size :: nat
  pl_divergence_limit :: nat
  pl_max_allowed_lag_events :: u64

record cdc_drain_summary =
  ds_applied_events :: u64
  ds_remaining_lag_events :: u64
  ds_quarantined_events :: u64

record cutover_validation_report =
  vp_count_comparisons :: "count_comparison list"
  vp_checksum_differences :: "checksum_comparison list"
  vp_divergence_reports :: "divergence_report list"

definition validation_passed :: "cutover_validation_report \<Rightarrow> bool" where
  "validation_passed report \<longleftrightarrow>
     list_all count_matches (vp_count_comparisons report) \<and> vp_checksum_differences report = []
     \<and> list_all report_matches (vp_divergence_reports report)"

record cutover_report =
  cr_drain_summary :: cdc_drain_summary
  cr_validation :: cutover_validation_report
  cr_endpoint_switched :: bool
  cr_writes_resumed :: bool

definition cutover_passed :: "cutover_report \<Rightarrow> bool" where
  "cutover_passed report \<longleftrightarrow>
     ds_remaining_lag_events (cr_drain_summary report) = 0 \<and> ds_quarantined_events (cr_drain_summary report) = 0
     \<and> validation_passed (cr_validation report) \<and> cr_endpoint_switched report \<and> cr_writes_resumed report"

datatype cutover_error =
    InvalidPlan string
  | StopWrites string
  | DrainLag string
  | LagNotDrained cdc_drain_summary
  | ValidationFailed validation_error
  | ValidationGate cutover_validation_report
  | SwitchEndpoint string
  | ResumeWrites string
  | ResumeAfterFailure cutover_error string

record 'w cutover_inputs =
  cu_validation_source :: "'w validation_reader"
  cu_validation_target :: "'w validation_reader"
  cu_stop_writes :: "('w, string, unit) op"
  cu_resume_writes :: "('w, string, unit) op"
  cu_drain_lag :: "('w, string, cdc_drain_summary) op"
  cu_switch_to_target :: "('w, string, unit) op"

section \<open>Steps\<close>

definition validate_plan :: "cutover_plan \<Rightarrow> cutover_error + unit" where
  "validate_plan plan =
     (if pl_tables plan = [] then Inl (InvalidPlan ''cutover needs at least one table'')
      else if pl_checksum_sample_size plan = 0
        then Inl (InvalidPlan ''cutover checksum sample size must be greater than zero'')
      else if pl_divergence_limit plan = 0
        then Inl (InvalidPlan ''cutover divergence limit must be greater than zero'')
      else Inr ())"

definition drain_lag :: "cutover_plan \<Rightarrow> 'w cutover_inputs \<Rightarrow> ('w, cutover_error, cdc_drain_summary) op" where
  "drain_lag plan inputs =
     bind_op (map_err_op DrainLag (cu_drain_lag inputs)) (\<lambda>summary.
       if ds_remaining_lag_events summary \<le> pl_max_allowed_lag_events plan \<and> ds_quarantined_events summary = 0
       then ret_op summary else fail_op (LagNotDrained summary))"

definition divergence_reports :: "cutover_plan \<Rightarrow> 'w cutover_inputs \<Rightarrow> ('w, validation_error, divergence_report list) op" where
  "divergence_reports plan inputs =
     collect_op (\<lambda>table. report_row_divergence table None (pl_divergence_limit plan)
       (cu_validation_source inputs) (cu_validation_target inputs)) (pl_tables plan)"

definition validate_cutover :: "cutover_plan \<Rightarrow> 'w cutover_inputs \<Rightarrow> ('w, cutover_error, cutover_validation_report) op" where
  "validate_cutover plan inputs =
     bind_op (map_err_op ValidationFailed
       (validate_table_counts (pl_tables plan) (cu_validation_source inputs) (cu_validation_target inputs))) (\<lambda>counts.
     bind_op (map_err_op ValidationFailed (validate_sampled_checksums (pl_tables plan) (pl_checksum_sample_size plan)
       (cu_validation_source inputs) (cu_validation_target inputs))) (\<lambda>checksums.
     bind_op (map_err_op ValidationFailed (divergence_reports plan inputs)) (\<lambda>divergences.
       let report = \<lparr>vp_count_comparisons = counts, vp_checksum_differences = checksums,
                     vp_divergence_reports = divergences\<rparr> in
       if validation_passed report then ret_op report else fail_op (ValidationGate report))))"

definition run_stopped_cutover :: "cutover_plan \<Rightarrow> 'w cutover_inputs \<Rightarrow> ('w, cutover_error, cutover_report) op" where
  "run_stopped_cutover plan inputs =
     bind_op (drain_lag plan inputs) (\<lambda>drain_summary.
     bind_op (validate_cutover plan inputs) (\<lambda>validation.
     bind_op (map_err_op SwitchEndpoint (cu_switch_to_target inputs)) (\<lambda>_.
     bind_op (map_err_op ResumeWrites (cu_resume_writes inputs)) (\<lambda>_.
       ret_op \<lparr>cr_drain_summary = drain_summary, cr_validation = validation, cr_endpoint_switched = True,
               cr_writes_resumed = True\<rparr>))))"

definition resume_after_failure :: "'w cutover_inputs \<Rightarrow> cutover_error \<Rightarrow> ('w, cutover_error, cutover_report) op" where
  "resume_after_failure inputs error w =
     (case cu_resume_writes inputs w of
        (Inr _, w') \<Rightarrow> (Inl error, w')
      | (Inl resume, w') \<Rightarrow> (Inl (ResumeAfterFailure error resume), w'))"

definition run_cutover :: "cutover_plan \<Rightarrow> 'w cutover_inputs \<Rightarrow> ('w, cutover_error, cutover_report) op" where
  "run_cutover plan inputs =
     bind_op (lift_op (validate_plan plan)) (\<lambda>_.
     bind_op (map_err_op StopWrites (cu_stop_writes inputs)) (\<lambda>_ w.
       case run_stopped_cutover plan inputs w of
         (Inr report, w') \<Rightarrow> (Inr report, w')
       | (Inl error, w') \<Rightarrow> resume_after_failure inputs error w'))"

section \<open>The site\<close>

definition frames :: "('w \<Rightarrow> 'o) \<Rightarrow> ('w, 'e, 'a) op \<Rightarrow> bool" where
  "frames view m \<longleftrightarrow> (\<forall>w r w'. m w = (r, w') \<longrightarrow> view w' = view w)"

lemma framesD: "frames view m \<Longrightarrow> m w = (r, w') \<Longrightarrow> view w' = view w"
  by (simp add: frames_def)

lemma frames_basic [simp]:
  "frames view (ret_op a)" "frames view (fail_op e)" "frames view (lift_op x)" "frames view (map_err_op g m) = frames view m"
  by (auto simp: frames_def ret_op_def fail_op_def lift_op_def map_err_op_def split: prod.splits)

lemma frames_bind:
  assumes "frames view m" and "\<And>a. frames view (f a)"
  shows "frames view (bind_op m f)"
  using assms unfolding frames_def bind_op_def by (auto split: prod.splits sum.splits)

lemma frames_if: "(b \<Longrightarrow> frames view m) \<Longrightarrow> (\<not> b \<Longrightarrow> frames view m') \<Longrightarrow> frames view (if b then m else m')"
  by simp

lemma frames_collect: "(\<And>x. frames view (f x)) \<Longrightarrow> frames view (collect_op f xs)"
  by (induction xs) (auto intro!: frames_bind)

definition reader_frames :: "('w \<Rightarrow> 'o) \<Rightarrow> 'w validation_reader \<Rightarrow> bool" where
  "reader_frames view reader \<longleftrightarrow>
     (\<forall>table. frames view (vr_count_rows reader table)) \<and> (\<forall>request. frames view (vr_sampled_checksums reader request))
     \<and> (\<forall>request. frames view (vr_read_rows reader request))"

lemma validation_frames:
  assumes "reader_frames view (cu_validation_source inputs)" "reader_frames view (cu_validation_target inputs)"
  shows "frames view (validate_cutover plan inputs)"
proof -
  have counts: "frames view (validate_table_counts tables (cu_validation_source inputs) (cu_validation_target inputs))" for tables
    unfolding validate_table_counts_def compare_table_count_def
    using assms by (intro frames_collect frames_bind) (simp_all add: reader_frames_def)
  have checksums: "frames view (validate_sampled_checksums tables n (cu_validation_source inputs) (cu_validation_target inputs))" for tables n
    using assms by (induction tables) (auto simp: reader_frames_def intro!: frames_bind)
  have divergences: "frames view (divergence_reports plan inputs)"
    unfolding divergence_reports_def report_row_divergence_def Let_def
    using assms by (intro frames_collect frames_bind) (simp_all add: reader_frames_def)
  show ?thesis
    unfolding validate_cutover_def Let_def
    by (intro frames_bind frames_if) (simp_all add: counts checksums divergences)
qed

locale cutover_site =
  fixes inputs :: "'w cutover_inputs" and stopped :: "'w \<Rightarrow> bool" and switched :: "'w \<Rightarrow> bool" and torn :: "'w \<Rightarrow> bool"
  assumes readers: "reader_frames (\<lambda>w. (stopped w, switched w, torn w)) (cu_validation_source inputs)"
      "reader_frames (\<lambda>w. (stopped w, switched w, torn w)) (cu_validation_target inputs)"
    and drains: "frames (\<lambda>w. (stopped w, switched w, torn w)) (cu_drain_lag inputs)"
    and stops: "cu_stop_writes inputs w = (r, w') \<Longrightarrow> switched w' = switched w \<and> torn w' = torn w \<and> (r = Inr () \<longrightarrow> stopped w')"
    and resumes: "cu_resume_writes inputs w = (r, w') \<Longrightarrow> switched w' = switched w \<and> torn w' = torn w \<and> (r = Inr () \<longrightarrow> \<not> stopped w')"
    and switches: "cu_switch_to_target inputs w = (r, w') \<Longrightarrow>
      (r = Inr () \<longrightarrow> switched w') \<and> (torn w' \<longrightarrow> torn w \<or> \<not> stopped w)"
begin

lemma gate_frames:
  "frames (\<lambda>w. (stopped w, switched w, torn w)) (drain_lag plan inputs)"
  "frames (\<lambda>w. (stopped w, switched w, torn w)) (validate_cutover plan inputs)"
  unfolding drain_lag_def using validation_frames [OF readers] drains by (auto intro!: frames_bind frames_if)

lemma stopped_cutover:
  assumes "run_stopped_cutover plan inputs w = (r, w')" and "stopped w" "\<not> switched w" "\<not> torn w"
  shows "\<not> torn w'
     \<and> (case r of
          Inr report \<Rightarrow> switched w' \<and> \<not> stopped w' \<and> validation_passed (cr_validation report)
            \<and> ds_remaining_lag_events (cr_drain_summary report) \<le> pl_max_allowed_lag_events plan
            \<and> ds_quarantined_events (cr_drain_summary report) = 0
        | Inl e \<Rightarrow> switched w' \<longrightarrow> (\<exists>message. e = SwitchEndpoint message \<or> e = ResumeWrites message))"
proof -
  obtain r1 w1 where drain: "drain_lag plan inputs w = (r1, w1)" by (metis prod.exhaust)
  note s1 = framesD [OF gate_frames(1) drain]
  show ?thesis
  proof (cases r1)
    case (Inl e)
    with assms drain s1 show ?thesis by (auto simp: run_stopped_cutover_def bind_op_def)
  next
    case summary: (Inr summary)
    then have lag: "ds_remaining_lag_events summary \<le> pl_max_allowed_lag_events plan" "ds_quarantined_events summary = 0"
      using drain by (auto simp: drain_lag_def bind_op_eq_Inr ret_op_def fail_op_def split: if_splits)
    obtain r2 w2 where validate: "validate_cutover plan inputs w1 = (r2, w2)" by (metis prod.exhaust)
    note s2 = framesD [OF gate_frames(2) validate]
    show ?thesis
    proof (cases r2)
      case (Inl e)
      with assms drain summary validate s1 s2 show ?thesis by (auto simp: run_stopped_cutover_def bind_op_def)
    next
      case report: (Inr report)
      then have passed: "validation_passed report"
        using validate by (auto simp: validate_cutover_def Let_def bind_op_eq_Inr ret_op_def fail_op_def split: if_splits)
      obtain r3 w3 where switch: "cu_switch_to_target inputs w2 = (r3, w3)" by (metis prod.exhaust)
      obtain r4 w4 where resume: "cu_resume_writes inputs w3 = (r4, w4)" by (metis prod.exhaust)
      show ?thesis
        using assms drain summary validate report switch resume s1 s2 switches [OF switch] resumes [OF resume] lag passed
        by (cases r3; cases r4) (auto simp: run_stopped_cutover_def bind_op_def map_err_op_def ret_op_def)
    qed
  qed
qed

end

section \<open>A site in memory\<close>

record memory_site =
  ms_stopped :: bool
  ms_switched :: bool
  ms_torn :: bool
  ms_source :: "database_row list"
  ms_target :: "database_row list"

definition memory_reader :: "(memory_site \<Rightarrow> database_row list) \<Rightarrow> memory_site validation_reader" where
  "memory_reader rows =
     \<lparr>vr_count_rows = (\<lambda>_ w. (Inr (of_nat (length (rows w))), w)),
      vr_sampled_checksums = (\<lambda>_ w. (Inr (map (\<lambda>row.
        \<lparr>cs_sample_key = dr_primary_key row, cs_row_count = 1, cs_checksum = concat (dr_primary_key row)\<rparr>) (rows w)), w)),
      vr_read_rows = (\<lambda>request w. (Inr (take (dq_limit request) (rows w)), w))\<rparr>"

definition memory_cutover :: "memory_site cutover_inputs" where
  "memory_cutover =
     \<lparr>cu_validation_source = memory_reader ms_source, cu_validation_target = memory_reader ms_target,
      cu_stop_writes = (\<lambda>w. (Inr (), w\<lparr>ms_stopped := True\<rparr>)), cu_resume_writes = (\<lambda>w. (Inr (), w\<lparr>ms_stopped := False\<rparr>)),
      cu_drain_lag = (\<lambda>w. (Inr \<lparr>ds_applied_events = 5, ds_remaining_lag_events = 0, ds_quarantined_events = 0\<rparr>,
        w\<lparr>ms_target := ms_source w\<rparr>)),
      cu_switch_to_target = (\<lambda>w. (Inr (), w\<lparr>ms_switched := True, ms_torn := ms_torn w \<or> \<not> ms_stopped w\<rparr>))\<rparr>"

interpretation memory_cutover: cutover_site memory_cutover ms_stopped ms_switched ms_torn
  by unfold_locales (auto simp: memory_cutover_def memory_reader_def reader_frames_def frames_def)

definition users_site :: "database_row list \<Rightarrow> memory_site" where
  "users_site target =
     \<lparr>ms_stopped = False, ms_switched = False, ms_torn = False,
      ms_source = [\<lparr>dr_primary_key = [''1''], dr_values = [(''id'', Some ''1'')]\<rparr>], ms_target = target\<rparr>"

definition users_plan :: cutover_plan where
  "users_plan =
     \<lparr>pl_tables = [\<lparr>vt_name = ''users'', vt_primary_key = [''id''], vt_columns = [''id'']\<rparr>], pl_checksum_sample_size = 10,
      pl_divergence_limit = 10, pl_max_allowed_lag_events = 0\<rparr>"

section \<open>Properties\<close>

text \<open>C11. The cutover is gated: the endpoint is never switched while writes are accepted. A cutover that
  succeeds has drained the lag to the allowed bound with nothing quarantined, passed every validation,
  switched the endpoint and resumed the writes. A cutover that fails has not switched the endpoint,
  unless the switch or the following resumption itself reported the error, and leaves the writes stopped
  only when stopping or resuming them reported an error.
\<close>

theorem cutover_gated:
  assumes "cutover_site inputs stopped switched torn"
    and "\<not> stopped w" "\<not> switched w" "\<not> torn w"
    and "run_cutover plan inputs w = (r, w')"
  shows "\<not> torn w'
     \<and> (case r of
          Inr report \<Rightarrow> switched w' \<and> \<not> stopped w' \<and> validation_passed (cr_validation report)
            \<and> ds_remaining_lag_events (cr_drain_summary report) \<le> pl_max_allowed_lag_events plan
            \<and> ds_quarantined_events (cr_drain_summary report) = 0
        | Inl e \<Rightarrow>
            (stopped w' \<longrightarrow> (\<exists>message. e = StopWrites message) \<or> (\<exists>e' resume. e = ResumeAfterFailure e' resume))
            \<and> (switched w' \<longrightarrow> (\<exists>message e'. (e' = SwitchEndpoint message \<or> e' = ResumeWrites message)
                 \<and> (e = e' \<or> (\<exists>resume. e = ResumeAfterFailure e' resume)))))"
proof (cases "validate_plan plan")
  case (Inl e)
  then show ?thesis
    using assms(2-5) by (auto simp: run_cutover_def bind_op_def lift_op_def)
next
  case plan: (Inr u)
  obtain r1 w1 where stop: "cu_stop_writes inputs w = (r1, w1)" by (metis prod.exhaust)
  note s1 = cutover_site.stops [OF assms(1) stop]
  show ?thesis
  proof (cases r1)
    case (Inl e)
    then show ?thesis
      using assms(2-5) plan stop s1 by (auto simp: run_cutover_def bind_op_def lift_op_def map_err_op_def)
  next
    case ok: (Inr u1)
    obtain r2 w2 where run: "run_stopped_cutover plan inputs w1 = (r2, w2)" by (metis prod.exhaust)
    have gate: "\<not> torn w2 \<and> (case r2 of
          Inr report \<Rightarrow> switched w2 \<and> \<not> stopped w2 \<and> validation_passed (cr_validation report)
            \<and> ds_remaining_lag_events (cr_drain_summary report) \<le> pl_max_allowed_lag_events plan
            \<and> ds_quarantined_events (cr_drain_summary report) = 0
        | Inl e \<Rightarrow> switched w2 \<longrightarrow> (\<exists>message. e = SwitchEndpoint message \<or> e = ResumeWrites message))"
      by (rule cutover_site.stopped_cutover [OF assms(1) run]) (use s1 ok assms(3,4) in auto)
    have done_run: "run_cutover plan inputs w = (case r2 of Inr report \<Rightarrow> (Inr report, w2) | Inl e \<Rightarrow> resume_after_failure inputs e w2)"
      using plan stop ok run by (simp add: run_cutover_def bind_op_def lift_op_def map_err_op_def split: sum.splits)
    show ?thesis
    proof (cases r2)
      case (Inr report)
      with gate done_run assms(5) show ?thesis by simp
    next
      case (Inl e)
      obtain r3 w3 where resume: "cu_resume_writes inputs w2 = (r3, w3)" by (metis prod.exhaust)
      from gate done_run assms(5) Inl cutover_site.resumes [OF assms(1) resume] resume show ?thesis
        by (cases r3) (auto simp: resume_after_failure_def)
    qed
  qed
qed

theorem cutover_gated_witness:
  "ms_switched (snd (run_cutover users_plan memory_cutover (users_site []))) \<and> \<not> ms_torn (snd (run_cutover users_plan memory_cutover (users_site [])))
   \<and> \<not> ms_stopped (snd (run_cutover users_plan memory_cutover (users_site [])))"
proof -
  let ?run = "run_cutover users_plan memory_cutover (users_site [])"
  have start: "\<not> ms_stopped (users_site [])" "\<not> ms_switched (users_site [])" "\<not> ms_torn (users_site [])"
    by (simp_all add: users_site_def)
  have "(case fst ?run of Inr _ \<Rightarrow> True | Inl _ \<Rightarrow> False)"
    by code_simp
  then show ?thesis
    using cutover_gated [OF memory_cutover.cutover_site_axioms start, of users_plan "fst ?run" "snd ?run"]
    by (auto split: sum.splits)
qed

end
