(* ===== verification/Guest_Range.thy ===== *)
theory Guest_Range
  imports Sync_Config Stream_Config
begin

text \<open>
  Repair of a range of guest rows (\<open>src/src/sync/guest_range_repair.rs\<close>) and the options it shares with
  the sync command (\<open>src/src/sync_cli.rs\<close>). The backend trait is a record of operations, the environment
  of the process the parameter \<open>getenv\<close>. The interface \<open>guest_store\<close> states what a backend does to the
  committed and the visible target rows; the client lemmas follow a batch and the loop over the pages,
  whose fuel is the number of expected rows.
\<close>

section \<open>Options\<close>

definition default_mysql_connection_config :: mysql_connection_config where
  "default_mysql_connection_config =
     \<lparr>mc_host = [], mc_port = 3306, mc_user = [], mc_password = [], mc_database = []\<rparr>"

definition parse_u16 :: "string \<Rightarrow> string \<Rightarrow> string + u16" where
  "parse_u16 flag value_text =
     (case parse_u64 value_text of
        Some n \<Rightarrow> (if n < 0x10000 then Inr (ucast n) else Inl (flag @ '' must be an integer''))
      | None \<Rightarrow> Inl (flag @ '' must be an integer''))"

definition read_env_password :: "(string \<Rightarrow> string option) \<Rightarrow> string \<Rightarrow> string + string" where
  "read_env_password getenv name = ok_or (name @ '' is not set'') (getenv name)"

definition apply_source_option ::
  "(string \<Rightarrow> string option) \<Rightarrow> mysql_connection_config \<Rightarrow> string \<Rightarrow> string \<Rightarrow> string + mysql_connection_config option"
where
  "apply_source_option getenv source flag value_text =
     (if flag = ''--source-host'' then Inr (Some (source\<lparr>mc_host := value_text\<rparr>))
      else if flag = ''--source-port'' then bind_res (parse_u16 flag value_text) (\<lambda>port. Inr (Some (source\<lparr>mc_port := port\<rparr>)))
      else if flag = ''--source-user'' then Inr (Some (source\<lparr>mc_user := value_text\<rparr>))
      else if flag = ''--source-password-env'' then
        bind_res (read_env_password getenv value_text) (\<lambda>password. Inr (Some (source\<lparr>mc_password := password\<rparr>)))
      else if flag = ''--source-database'' then Inr (Some (source\<lparr>mc_database := value_text\<rparr>))
      else Inr None)"

definition apply_target_option ::
  "(string \<Rightarrow> string option) \<Rightarrow> target_mysql_config \<Rightarrow> string \<Rightarrow> string \<Rightarrow> string + target_mysql_config option"
where
  "apply_target_option getenv target flag value_text =
     (if flag = ''--target-host'' then Inr (Some (target\<lparr>tc_host := value_text\<rparr>))
      else if flag = ''--target-port'' then bind_res (parse_u16 flag value_text) (\<lambda>port. Inr (Some (target\<lparr>tc_port := port\<rparr>)))
      else if flag = ''--target-user'' then Inr (Some (target\<lparr>tc_user := value_text\<rparr>))
      else if flag = ''--target-password-env'' then
        bind_res (read_env_password getenv value_text) (\<lambda>password. Inr (Some (target\<lparr>tc_password := password\<rparr>)))
      else if flag = ''--target-database'' then Inr (Some (target\<lparr>tc_database := value_text\<rparr>))
      else if flag = ''--target-tls-ca-file'' then Inr (Some (target\<lparr>tc_tls_ca_file := value_text\<rparr>))
      else Inr None)"

section \<open>Configuration of a repair\<close>

definition max_batch_size :: nat where
  "max_batch_size = 1000"

record guest_range_config =
  gr_source :: mysql_connection_config
  gr_target :: target_mysql_config
  gr_start :: u64
  gr_end :: u64
  gr_expected_rows :: u64
  gr_batch_size :: nat

definition parse_range_option :: "string \<Rightarrow> string \<Rightarrow> string + u64" where
  "parse_range_option flag value_text =
     (if flag \<notin> {''--start-guest-id'', ''--end-guest-id'', ''--expected-rows'', ''--batch-size''}
      then Inl (''unknown repair-guest-range option: '' @ flag)
      else ok_or (''invalid '' @ flag @ '': '' @ value_text) (parse_u64 value_text))"

type_synonym parsed_options = "mysql_connection_config \<times> target_mysql_config \<times> (string \<times> u64) list"

fun parse_option_pairs :: "(string \<Rightarrow> string option) \<Rightarrow> string list \<Rightarrow> parsed_options \<Rightarrow> string + parsed_options" where
  "parse_option_pairs getenv (flag # value_text # args) (source, target, options) =
     bind_res (apply_source_option getenv source flag value_text) (\<lambda>applied.
       case applied of
         Some source \<Rightarrow> parse_option_pairs getenv args (source, target, options)
       | None \<Rightarrow>
           bind_res (apply_target_option getenv target flag value_text) (\<lambda>applied.
             case applied of
               Some target \<Rightarrow> parse_option_pairs getenv args (source, target, options)
             | None \<Rightarrow>
                 bind_res (parse_range_option flag value_text) (\<lambda>number.
                   if map_of options flag \<noteq> None then Inl (flag @ '' may be specified only once'')
                   else parse_option_pairs getenv args (source, target, btm_insert flag number options))))"
| "parse_option_pairs getenv [flag] parsed = Inl (flag @ '' needs a value'')"
| "parse_option_pairs getenv [] parsed = Inr parsed"

definition validate_bounds :: "guest_range_config \<Rightarrow> string + unit" where
  "validate_bounds config =
     (let count = (if gr_end config < gr_start config then None
                   else if gr_end config - gr_start config = - 1 then None
                   else Some (gr_end config - gr_start config + 1)) in
      if count \<noteq> Some (gr_expected_rows config) \<or> gr_expected_rows config = 0
      then Inl ''expected rows must equal the nonempty inclusive guest range width''
      else if gr_batch_size config = 0 \<or> max_batch_size < gr_batch_size config
      then Inl ''batch size must be between 1 and 1000''
      else Inr ())"

definition validate_guest_config :: "guest_range_config \<Rightarrow> string + unit" where
  "validate_guest_config config =
     bind_res (validate_bounds config) (\<lambda>_.
       case find (is_blank \<circ> snd)
           [(''source host'', mc_host (gr_source config)), (''source user'', mc_user (gr_source config)),
            (''source password'', mc_password (gr_source config)), (''source database'', mc_database (gr_source config)),
            (''target host'', tc_host (gr_target config)), (''target user'', tc_user (gr_target config)),
            (''target password'', tc_password (gr_target config)), (''target database'', tc_database (gr_target config)),
            (''target TLS CA file'', tc_tls_ca_file (gr_target config))] of
         Some (name, _) \<Rightarrow> Inl (name @ '' is required'')
       | None \<Rightarrow> Inr ())"

definition guest_config_from_args :: "(string \<Rightarrow> string option) \<Rightarrow> string list \<Rightarrow> string + guest_range_config" where
  "guest_config_from_args getenv args =
     bind_res (parse_option_pairs getenv args (default_mysql_connection_config, default_target_mysql_config, []))
       (\<lambda>(source, target, options).
         let required = (\<lambda>flag. ok_or (flag @ '' is required'') (map_of options flag)) in
         bind_res (required ''--start-guest-id'') (\<lambda>start.
         bind_res (required ''--end-guest-id'') (\<lambda>last_id.
         bind_res (required ''--expected-rows'') (\<lambda>expected.
           let config = \<lparr>gr_source = source, gr_target = target, gr_start = start, gr_end = last_id,
                         gr_expected_rows = expected,
                         gr_batch_size = (case map_of options ''--batch-size'' of None \<Rightarrow> 100 | Some n \<Rightarrow> unat n)\<rparr> in
           bind_res (validate_guest_config config) (\<lambda>_. Inr config)))))"

section \<open>The repair\<close>

record guest_range_report =
  gp_scanned :: u64
  gp_inserted :: u64
  gp_unchanged :: u64
  gp_batches :: u64

datatype guest_error =
    GuestBackend string
  | GuestBounds string
  | RangeMismatch u64 u64 u64
  | PageSize
  | PageNotContiguous
  | GuestKeyCount
  | GuestKeyDiffers
  | GuestKeyNotNumber
  | TargetGuestDiffers row_key
  | TargetReadbackDiffers row_key
  | CoverageDiffers
  | CleanupFailed string string
  | FailedWithCleanup guest_error string string
  | GuestOutOfFuel

record 'w guest_backend =
  gb_preflight :: "('w, string, u64 \<times> u64 \<times> u64) op"
  gb_read_page :: "u64 option \<Rightarrow> ('w, string, database_row list) op"
  gb_begin_batch :: "('w, string, unit) op"
  gb_require_parent :: "database_row \<Rightarrow> ('w, string, unit) op"
  gb_read_target :: "database_row \<Rightarrow> ('w, string, database_row option) op"
  gb_insert :: "database_row \<Rightarrow> ('w, string, unit) op"
  gb_commit :: "('w, string, unit) op"
  gb_rollback :: "('w, string, unit) op"
  gb_finish_source :: "('w, string, unit) op"

definition on_guest :: "('w, string, 'a) op \<Rightarrow> ('w, guest_error, 'a) op" where
  "on_guest m = map_err_op GuestBackend m"

definition combine_cleanup :: "guest_error + 'a \<Rightarrow> string + unit \<Rightarrow> string \<Rightarrow> guest_error + 'a" where
  "combine_cleanup result cleanup operation =
     (case (result, cleanup) of
        (result, Inr _) \<Rightarrow> result
      | (Inr _, Inl error) \<Rightarrow> Inl (CleanupFailed operation error)
      | (Inl error, Inl cleanup) \<Rightarrow> Inl (FailedWithCleanup error operation cleanup))"

definition with_cleanup :: "('w, guest_error, 'a) op \<Rightarrow> ('w, string, unit) op \<Rightarrow> string \<Rightarrow> ('w, guest_error, 'a) op" where
  "with_cleanup m cleanup operation w =
     (case m w of (result, w') \<Rightarrow> (case cleanup w' of (c, w'') \<Rightarrow> (combine_cleanup result c operation, w'')))"

definition guest_id :: "database_row \<Rightarrow> guest_error + u64" where
  "guest_id row =
     (case dr_primary_key row of
        [id_text] \<Rightarrow>
          (if map_of (dr_values row) ''guest_id'' \<noteq> Some (Some id_text) then Inl GuestKeyDiffers
           else ok_or GuestKeyNotNumber (parse_u64 id_text))
      | _ \<Rightarrow> Inl GuestKeyCount)"

definition checked_next :: "u64 \<Rightarrow> u64 option" where
  "checked_next n = (if n = - 1 then None else Some (n + 1))"

fun check_page_rows :: "guest_range_config \<Rightarrow> u64 option \<Rightarrow> u64 \<Rightarrow> database_row list \<Rightarrow> guest_error + u64" where
  "check_page_rows config expected last_id [] = Inr last_id"
| "check_page_rows config expected last_id (row # rows) =
     bind_res (guest_id row) (\<lambda>id.
       if Some id \<noteq> expected \<or> gr_end config < id then Inl PageNotContiguous
       else check_page_rows config (checked_next id) id rows)"

definition validate_page :: "guest_range_config \<Rightarrow> u64 option \<Rightarrow> database_row list \<Rightarrow> guest_error + u64" where
  "validate_page config after rows =
     (if rows = [] \<or> gr_batch_size config < length rows then Inl PageSize
      else check_page_rows config (case after of None \<Rightarrow> Some (gr_start config) | Some last_seen \<Rightarrow> checked_next last_seen) (gr_start config) rows)"

definition empty_report :: guest_range_report where
  "empty_report = \<lparr>gp_scanned = 0, gp_inserted = 0, gp_unchanged = 0, gp_batches = 0\<rparr>"

fun insert_rows :: "'w guest_backend \<Rightarrow> guest_range_report \<Rightarrow> database_row list \<Rightarrow> ('w, guest_error, guest_range_report) op" where
  "insert_rows backend report [] = ret_op report"
| "insert_rows backend report (row # rows) =
     bind_op (on_guest (gb_require_parent backend row)) (\<lambda>_.
     bind_op (on_guest (gb_read_target backend row)) (\<lambda>existing.
       case existing of
         Some existing \<Rightarrow>
           (if existing = row then insert_rows backend (report\<lparr>gp_unchanged := gp_unchanged report + 1\<rparr>) rows
            else fail_op (TargetGuestDiffers (dr_primary_key row)))
       | None \<Rightarrow>
           bind_op (on_guest (gb_insert backend row)) (\<lambda>_.
             insert_rows backend (report\<lparr>gp_inserted := gp_inserted report + 1\<rparr>) rows)))"

fun read_back :: "'w guest_backend \<Rightarrow> database_row list \<Rightarrow> ('w, guest_error, unit) op" where
  "read_back backend [] = ret_op ()"
| "read_back backend (row # rows) =
     bind_op (on_guest (gb_read_target backend row)) (\<lambda>found.
       if found \<noteq> Some row then fail_op (TargetReadbackDiffers (dr_primary_key row)) else read_back backend rows)"

definition insert_batch :: "'w guest_backend \<Rightarrow> database_row list \<Rightarrow> ('w, guest_error, guest_range_report) op" where
  "insert_batch backend rows =
     bind_op (insert_rows backend empty_report rows) (\<lambda>report.
     bind_op (read_back backend rows) (\<lambda>_. ret_op report))"

definition repair_batch :: "'w guest_backend \<Rightarrow> database_row list \<Rightarrow> ('w, guest_error, guest_range_report) op" where
  "repair_batch backend rows w =
     (case bind_op (on_guest (gb_begin_batch backend)) (\<lambda>_.
             bind_op (insert_batch backend rows) (\<lambda>report.
             bind_op (on_guest (gb_commit backend)) (\<lambda>_. ret_op report))) w of
        (Inr report, w') \<Rightarrow> (Inr report, w')
      | (Inl error, w') \<Rightarrow> with_cleanup (fail_op error) (gb_rollback backend) ''rollback target batch'' w')"

fun repair_pages ::
  "nat \<Rightarrow> guest_range_config \<Rightarrow> 'w guest_backend \<Rightarrow> guest_range_report \<Rightarrow> u64 option
    \<Rightarrow> ('w, guest_error, guest_range_report \<times> u64 option) op"
where
  "repair_pages fuel config backend report after =
     (if \<not> gp_scanned report < gr_expected_rows config then ret_op (report, after)
      else case fuel of
        0 \<Rightarrow> fail_op GuestOutOfFuel
      | Suc fuel \<Rightarrow>
          bind_op (on_guest (gb_read_page backend after)) (\<lambda>rows.
          bind_op (lift_op (validate_page config after rows)) (\<lambda>last_id.
          bind_op (repair_batch backend rows) (\<lambda>batch.
            repair_pages fuel config backend
              \<lparr>gp_scanned = gp_scanned report + of_nat (length rows), gp_inserted = gp_inserted report + gp_inserted batch,
               gp_unchanged = gp_unchanged report + gp_unchanged batch, gp_batches = gp_batches report + 1\<rparr> (Some last_id)))))"

declare repair_pages.simps [simp del]

definition repair_range :: "nat \<Rightarrow> guest_range_config \<Rightarrow> 'w guest_backend \<Rightarrow> ('w, guest_error, guest_range_report) op" where
  "repair_range fuel config backend =
     bind_op (on_guest (gb_preflight backend)) (\<lambda>(count, lowest, highest).
       if (count, lowest, highest) \<noteq> (gr_expected_rows config, gr_start config, gr_end config)
       then fail_op (RangeMismatch count lowest highest)
       else
         bind_op (repair_pages fuel config backend empty_report None) (\<lambda>(report, after).
           if gp_scanned report \<noteq> gr_expected_rows config \<or> after \<noteq> Some (gr_end config) then fail_op CoverageDiffers
           else ret_op report))"

definition repair_with_backend :: "nat \<Rightarrow> guest_range_config \<Rightarrow> 'w guest_backend \<Rightarrow> ('w, guest_error, guest_range_report) op" where
  "repair_with_backend fuel config backend =
     bind_op (lift_op (map_err GuestBounds (validate_bounds config))) (\<lambda>_.
       with_cleanup (repair_range fuel config backend) (gb_finish_source backend) ''close source snapshot'')"

section \<open>Pages\<close>

definition id_at :: "u64 \<Rightarrow> nat \<Rightarrow> u64 option" where
  "id_at start n = (if unat start + n < 2 ^ 64 then Some (start + of_nat n) else None)"

lemma u64_bound: "unat (x :: u64) < 2 ^ 64"
  using unsigned_less [of x] by simp

lemma unat_id_at: "id_at start n = Some g \<Longrightarrow> unat g = unat start + n"
  by (auto simp: id_at_def unat_word_ariths unat_of_nat split: if_splits)

lemma checked_next_id_at: "id_at start n = Some g \<Longrightarrow> checked_next g = id_at start (Suc n)"
proof -
  assume g: "id_at start n = Some g"
  have "unat (- 1 :: u64) = 2 ^ 64 - 1"
    by (simp add: unsigned_minus_1_eq_mask mask_eq_exp_minus_1)
  then have "g = - 1 \<longleftrightarrow> unat g = 2 ^ 64 - 1"
    by (metis word_unat_eq_iff)
  then show ?thesis
    using g unat_id_at [OF g] by (auto simp: checked_next_def id_at_def add.assoc split: if_splits)
qed

lemma check_page_rows_Cons:
  "check_page_rows config (id_at start n) last_id (row # rows) = Inr final \<longleftrightarrow>
     (\<exists>g. guest_id row = Inr g \<and> id_at start n = Some g \<and> g \<le> gr_end config
        \<and> check_page_rows config (id_at start (Suc n)) g rows = Inr final)"
  by (cases "id_at start n") (auto simp: checked_next_id_at not_less split: if_splits)

lemma check_page_rows_contiguous:
  assumes "check_page_rows config (id_at start n) last_id rows = Inr final" and "rows \<noteq> []"
  shows "\<forall>i < length rows. \<exists>g. id_at start (n + i) = Some g \<and> guest_id (rows ! i) = Inr g \<and> g \<le> gr_end config"
    and "id_at start (n + length rows - 1) = Some final"
  using assms
proof (induction rows arbitrary: n last_id)
  case (Cons row rows)
  {
    case 1
    then obtain g where g: "guest_id row = Inr g" "id_at start n = Some g" "g \<le> gr_end config"
        "check_page_rows config (id_at start (Suc n)) g rows = Inr final"
      unfolding check_page_rows_Cons by blast
    show ?case
    proof (cases "rows = []")
      case True
      with g show ?thesis by simp
    next
      case False
      with Cons.IH(1) [OF g(4)] g show ?thesis
        by (auto simp: less_Suc_eq_0_disj)
    qed
  next
    case 2
    then obtain g where g: "id_at start n = Some g" "check_page_rows config (id_at start (Suc n)) g rows = Inr final"
      unfolding check_page_rows_Cons by blast
    show ?case
    proof (cases "rows = []")
      case True
      with g show ?thesis by simp
    next
      case False
      with Cons.IH(2) [OF g(2)] show ?thesis by simp
    qed
  }
qed simp_all

section \<open>What a repair does to the target\<close>

type_synonym guest_table = "row_key \<Rightarrow> database_row option"

text \<open>Rows of \<open>S\<close> were added at free keys; nothing else changed.\<close>

definition extends :: "database_row set \<Rightarrow> guest_table \<Rightarrow> guest_table \<Rightarrow> bool" where
  "extends S d d' \<longleftrightarrow> (\<forall>k. d' k = d k \<or> d k = None \<and> (\<exists>row \<in> S. dr_primary_key row = k \<and> d' k = Some row))"

lemma extends_refl [simp, intro]: "extends S d d"
  by (simp add: extends_def)

lemma extends_trans: "extends S d d' \<Longrightarrow> extends S d' d'' \<Longrightarrow> extends S d d''"
  unfolding extends_def by (metis option.distinct(1))

lemma extends_keeps: "extends S d d' \<Longrightarrow> d k = Some row \<Longrightarrow> d' k = Some row"
  unfolding extends_def by (metis option.distinct(1))

lemma extends_add: "d (dr_primary_key row) = None \<Longrightarrow> row \<in> S \<Longrightarrow> extends S d (d(dr_primary_key row \<mapsto> row))"
  by (auto simp: extends_def)

definition ran_out :: "guest_error \<Rightarrow> bool" where
  "ran_out e = (case e of GuestOutOfFuel \<Rightarrow> True | FailedWithCleanup e' _ _ \<Rightarrow> e' = GuestOutOfFuel | _ \<Rightarrow> False)"

text \<open>The rows of the first \<open>n\<close> ids of the range are in the table.\<close>

definition ids_durable :: "database_row set \<Rightarrow> guest_table \<Rightarrow> guest_range_config \<Rightarrow> nat \<Rightarrow> bool" where
  "ids_durable S d config n \<longleftrightarrow>
     (\<forall>i < n. \<exists>row \<in> S. \<exists>g. id_at (gr_start config) i = Some g \<and> guest_id row = Inr g \<and> d (dr_primary_key row) = Some row)"

lemma ids_durable_append:
  assumes "ids_durable S d config n" and "set rows \<subseteq> S" and "\<forall>row \<in> set rows. d (dr_primary_key row) = Some row"
    and "\<forall>i < length rows. \<exists>g. id_at (gr_start config) (n + i) = Some g \<and> guest_id (rows ! i) = Inr g"
  shows "ids_durable S d config (n + length rows)"
  unfolding ids_durable_def
proof (intro allI impI)
  fix i assume i: "i < n + length rows"
  show "\<exists>row \<in> S. \<exists>g. id_at (gr_start config) i = Some g \<and> guest_id row = Inr g \<and> d (dr_primary_key row) = Some row"
  proof (cases "i < n")
    case True
    with assms(1) show ?thesis by (simp add: ids_durable_def)
  next
    case False
    then obtain j where j: "i = n + j" "j < length rows"
      using i by (metis add_diff_inverse_nat nat_add_left_cancel_less)
    with assms(4) obtain g where "id_at (gr_start config) i = Some g" "guest_id (rows ! j) = Inr g" by blast
    with j assms(2,3) nth_mem [OF j(2)] show ?thesis by blast
  qed
qed

lemma bounds_width:
  assumes "validate_bounds config = Inr ()"
  shows "unat (gr_end config) + 1 = unat (gr_start config) + unat (gr_expected_rows config)"
proof -
  have ordered: "gr_start config \<le> gr_end config" and width: "gr_end config - gr_start config \<noteq> - 1"
      "gr_expected_rows config = gr_end config - gr_start config + 1"
    using assms by (auto simp: validate_bounds_def Let_def not_less split: if_splits)
  have "unat (gr_expected_rows config) = unat (gr_end config - gr_start config) + 1"
    unfolding width(2) using width(1) by (metis add.commute add_eq_0_iff2 unatSuc Suc_eq_plus1)
  then show ?thesis
    using unat_sub [OF ordered] ordered by (simp add: word_le_nat_alt)
qed

lemma guest_id_error: "guest_id row = Inl e \<Longrightarrow> \<not> ran_out e"
  by (auto simp: guest_id_def ran_out_def ok_or_def split: list.splits if_splits option.splits)

lemma page_error: "\<not> ran_out PageNotContiguous" "\<not> ran_out PageSize"
  by (simp_all add: ran_out_def)

lemma check_page_rows_error: "check_page_rows config expected last_id rows = Inl e \<Longrightarrow> \<not> ran_out e"
  by (induction config expected last_id rows rule: check_page_rows.induct)
     (auto simp: bind_res_eq_Inl page_error dest: guest_id_error split: if_splits)

lemma validate_page_error: "validate_page config after rows = Inl e \<Longrightarrow> \<not> ran_out e"
  by (auto simp: validate_page_def page_error dest: check_page_rows_error split: if_splits)

lemma validate_page_contiguous:
  assumes "validate_bounds config = Inr ()" and "validate_page config after rows = Inr final"
    and "unat scanned \<le> unat (gr_expected_rows config)"
    and "after = (if scanned = 0 then None else id_at (gr_start config) (unat scanned - 1))"
  shows "\<forall>i < length rows. \<exists>g. id_at (gr_start config) (unat scanned + i) = Some g \<and> guest_id (rows ! i) = Inr g"
    and "unat scanned + length rows \<le> unat (gr_expected_rows config)"
    and "rows \<noteq> []"
    and "id_at (gr_start config) (unat scanned + length rows - 1) = Some final"
proof -
  show ne: "rows \<noteq> []"
    using assms(2) by (auto simp: validate_page_def)
  have expected: "(case after of None \<Rightarrow> Some (gr_start config) | Some last_seen \<Rightarrow> checked_next last_seen)
      = id_at (gr_start config) (unat scanned)"
  proof (cases "scanned = 0")
    case True
    then show ?thesis using u64_bound [of "gr_start config"] by (simp add: assms(4) id_at_def)
  next
    case False
    then have pos: "0 < unat scanned" by (simp add: unat_gt_0)
    have "unat (gr_start config) + (unat scanned - 1) < 2 ^ 64"
      using bounds_width [OF assms(1)] assms(3) pos u64_bound [of "gr_end config"] by simp
    then obtain g where g: "id_at (gr_start config) (unat scanned - 1) = Some g"
      by (simp add: id_at_def)
    with False pos checked_next_id_at [OF g] show ?thesis
      by (simp add: assms(4))
  qed
  have page: "check_page_rows config (id_at (gr_start config) (unat scanned)) (gr_start config) rows = Inr final"
    using assms(2) ne by (simp add: validate_page_def expected split: if_splits)
  note rows = check_page_rows_contiguous [OF page ne]
  show "\<forall>i < length rows. \<exists>g. id_at (gr_start config) (unat scanned + i) = Some g \<and> guest_id (rows ! i) = Inr g"
    using rows(1) by blast
  show last_row: "id_at (gr_start config) (unat scanned + length rows - 1) = Some final"
    by (rule rows(2))
  have "length rows - 1 < length rows"
    using ne by simp
  with rows(1) obtain g where "id_at (gr_start config) (unat scanned + (length rows - 1)) = Some g" "g \<le> gr_end config"
    by blast
  then have "unat (gr_start config) + (unat scanned + (length rows - 1)) \<le> unat (gr_end config)"
    using unat_id_at by (metis word_le_nat_alt)
  with bounds_width [OF assms(1)] ne show "unat scanned + length rows \<le> unat (gr_expected_rows config)"
    by (cases rows) auto
qed

locale guest_store =
  fixes backend :: "'w guest_backend" and S :: "database_row set" and dur :: "'w \<Rightarrow> guest_table" and vis :: "'w \<Rightarrow> guest_table"
  assumes preflights: "gb_preflight backend w = (r0, w') \<Longrightarrow> dur w' = dur w"
    and pages: "gb_read_page backend after w = (r1, w') \<Longrightarrow> dur w' = dur w \<and> (\<forall>rows. r1 = Inr rows \<longrightarrow> set rows \<subseteq> S)"
    and begins: "gb_begin_batch backend w = (r, w') \<Longrightarrow> dur w' = dur w \<and> (r = Inr () \<longrightarrow> vis w' = dur w)"
    and parents: "gb_require_parent backend row w = (r, w') \<Longrightarrow> dur w' = dur w \<and> vis w' = vis w"
    and reads: "gb_read_target backend row w = (r2, w') \<Longrightarrow>
      dur w' = dur w \<and> vis w' = vis w \<and> (\<forall>found. r2 = Inr found \<longrightarrow> found = vis w (dr_primary_key row))"
    and inserts: "gb_insert backend row w = (r, w') \<Longrightarrow>
      dur w' = dur w \<and> (r = Inr () \<longrightarrow> vis w' = (vis w)(dr_primary_key row \<mapsto> row))"
    and commits: "gb_commit backend w = (r, w') \<Longrightarrow> (dur w' = dur w \<or> dur w' = vis w) \<and> (r = Inr () \<longrightarrow> dur w' = vis w)"
    and rollbacks: "gb_rollback backend w = (r, w') \<Longrightarrow> dur w' = dur w"
    and finishes: "gb_finish_source backend w = (r, w') \<Longrightarrow> dur w' = dur w"
begin

lemma insert_rows_extend:
  assumes "insert_rows backend report rows w = (r, w')" and "set rows \<subseteq> S"
  shows "dur w' = dur w \<and> (\<forall>e. r = Inl e \<longrightarrow> \<not> ran_out e)
     \<and> (\<forall>report'. r = Inr report' \<longrightarrow> extends S (vis w) (vis w') \<and> (\<forall>row \<in> set rows. vis w' (dr_primary_key row) = Some row)
          \<and> gp_inserted report' + gp_unchanged report' = gp_inserted report + gp_unchanged report + of_nat (length rows))"
  using assms
proof (induction rows arbitrary: report w)
  case Nil
  then show ?case by (auto simp: ret_op_def)
next
  case (Cons row rows)
  obtain r1 w1 where parent: "gb_require_parent backend row w = (r1, w1)" by (metis prod.exhaust)
  note p = parents [OF parent]
  show ?case
  proof (cases r1)
    case (Inl e)
    with Cons.prems parent p show ?thesis
      by (auto simp: bind_op_def on_guest_def map_err_op_def ran_out_def)
  next
    case ok1: (Inr u)
    obtain r2 w2 where read: "gb_read_target backend row w1 = (r2, w2)" by (metis prod.exhaust)
    note q = reads [OF read]
    show ?thesis
    proof (cases r2)
      case (Inl e)
      with Cons.prems parent ok1 read p q show ?thesis
        by (auto simp: bind_op_def on_guest_def map_err_op_def ran_out_def)
    next
      case found: (Inr found)
      show ?thesis
      proof (cases found)
        case (Some existing)
        show ?thesis
        proof (cases "existing = row")
          case True
          have next_rows: "insert_rows backend (report\<lparr>gp_unchanged := gp_unchanged report + 1\<rparr>) rows w2 = (r, w')"
            using Cons.prems(1) parent ok1 read found Some True by (simp add: bind_op_def on_guest_def map_err_op_def)
          have "vis w2 (dr_primary_key row) = Some row"
            using p q found Some True by simp
          with Cons.IH [OF next_rows] Cons.prems(2) p q show ?thesis
            by (auto dest: extends_keeps simp: algebra_simps)
        next
          case False
          with Cons.prems parent ok1 read found Some p q show ?thesis
            by (auto simp: bind_op_def on_guest_def map_err_op_def fail_op_def ran_out_def)
        qed
      next
        case None
        obtain r3 w3 where add: "gb_insert backend row w2 = (r3, w3)" by (metis prod.exhaust)
        note i = inserts [OF add]
        show ?thesis
        proof (cases r3)
          case (Inl e)
          with Cons.prems parent ok1 read found None add p q i show ?thesis
            by (auto simp: bind_op_def on_guest_def map_err_op_def ran_out_def)
        next
          case ok3: (Inr u3)
          have next_rows: "insert_rows backend (report\<lparr>gp_inserted := gp_inserted report + 1\<rparr>) rows w3 = (r, w')"
            using Cons.prems(1) parent ok1 read found None add ok3 by (simp add: bind_op_def on_guest_def map_err_op_def)
          have step: "extends S (vis w) (vis w3)" "vis w3 (dr_primary_key row) = Some row" "dur w3 = dur w"
            using p q i ok3 found None Cons.prems(2) extends_add [of "vis w" row S] by auto
          with Cons.IH [OF next_rows] Cons.prems(2) show ?thesis
            by (auto dest: extends_keeps extends_trans [OF step(1)] simp: algebra_simps)
        qed
      qed
    qed
  qed
qed

lemma read_back_frames:
  assumes "read_back backend rows w = (r, w')"
  shows "dur w' = dur w \<and> vis w' = vis w \<and> (\<forall>e. r = Inl e \<longrightarrow> \<not> ran_out e)"
  using assms
proof (induction rows arbitrary: w)
  case Nil
  then show ?case by (auto simp: ret_op_def)
next
  case (Cons row rows)
  obtain r1 w1 where read: "gb_read_target backend row w = (r1, w1)" by (metis prod.exhaust)
  from Cons.prems read reads [OF read] Cons.IH [of w1] show ?case
    by (cases r1) (auto simp: bind_op_def on_guest_def map_err_op_def fail_op_def ran_out_def split: if_splits)
qed

lemma insert_batch_extends:
  assumes "insert_batch backend rows w = (r, w')" and "set rows \<subseteq> S"
  shows "dur w' = dur w \<and> (\<forall>e. r = Inl e \<longrightarrow> \<not> ran_out e)
     \<and> (\<forall>report. r = Inr report \<longrightarrow> extends S (vis w) (vis w') \<and> (\<forall>row \<in> set rows. vis w' (dr_primary_key row) = Some row)
          \<and> gp_inserted report + gp_unchanged report = of_nat (length rows))"
proof -
  obtain r1 w1 where first: "insert_rows backend empty_report rows w = (r1, w1)" by (metis prod.exhaust)
  obtain r2 w2 where second: "read_back backend rows w1 = (r2, w2)" by (metis prod.exhaust)
  show ?thesis
    using assms(1) insert_rows_extend [OF first assms(2)] read_back_frames [OF second] first second
    by (cases r1; cases r2) (auto simp: insert_batch_def bind_op_def ret_op_def empty_report_def)
qed

lemma repair_batch_extends:
  assumes "repair_batch backend rows w = (r, w')" and "set rows \<subseteq> S"
  shows "extends S (dur w) (dur w') \<and> (\<forall>e. r = Inl e \<longrightarrow> \<not> ran_out e)
     \<and> (\<forall>report. r = Inr report \<longrightarrow> (\<forall>row \<in> set rows. dur w' (dr_primary_key row) = Some row)
          \<and> gp_inserted report + gp_unchanged report = of_nat (length rows))"
proof -
  let ?m = "bind_op (on_guest (gb_begin_batch backend)) (\<lambda>_. bind_op (insert_batch backend rows) (\<lambda>report.
      bind_op (on_guest (gb_commit backend)) (\<lambda>_. ret_op report)))"
  obtain rm wm where m: "?m w = (rm, wm)" by (rule prod.exhaust)
  have inner: "extends S (dur w) (dur wm) \<and> (\<forall>e. rm = Inl e \<longrightarrow> \<not> ran_out e \<and> e \<noteq> GuestOutOfFuel)
     \<and> (\<forall>report. rm = Inr report \<longrightarrow> (\<forall>row \<in> set rows. dur wm (dr_primary_key row) = Some row)
          \<and> gp_inserted report + gp_unchanged report = of_nat (length rows))"
  proof -
    obtain r1 w1 where 1: "gb_begin_batch backend w = (r1, w1)" by (metis prod.exhaust)
    obtain r2 w2 where 2: "insert_batch backend rows w1 = (r2, w2)" by (metis prod.exhaust)
    obtain r3 w3 where 3: "gb_commit backend w2 = (r3, w3)" by (metis prod.exhaust)
    show ?thesis
      using m 1 2 3 begins [OF 1] insert_batch_extends [OF 2 assms(2)] commits [OF 3]
      by (cases r1; cases r2; cases r3)
         (auto simp: bind_op_def on_guest_def map_err_op_def ret_op_def ran_out_def split: guest_error.splits)
  qed
  obtain rb wb where b: "gb_rollback backend wm = (rb, wb)" by (metis prod.exhaust)
  show ?thesis
    using assms(1) inner m rollbacks [OF b] b
    by (cases rm; cases rb)
       (auto simp: repair_batch_def with_cleanup_def fail_op_def combine_cleanup_def ran_out_def split: guest_error.splits)
qed

lemma ids_durable_keeps:
  "ids_durable S (dur w) config n \<Longrightarrow> extends S (dur w) (dur w') \<Longrightarrow> ids_durable S (dur w') config n"
  unfolding ids_durable_def using extends_keeps by blast

lemma repair_pages_covers:
  assumes "validate_bounds config = Inr ()"
    and "repair_pages fuel config backend report after w = (r, w')"
    and "unat (gp_scanned report) \<le> unat (gr_expected_rows config)"
    and "after = (if gp_scanned report = 0 then None else id_at (gr_start config) (unat (gp_scanned report) - 1))"
    and "gp_inserted report + gp_unchanged report = gp_scanned report"
    and "ids_durable S (dur w) config (unat (gp_scanned report))"
    and "unat (gr_expected_rows config) - unat (gp_scanned report) \<le> fuel"
  shows "extends S (dur w) (dur w') \<and> (\<forall>e. r = Inl e \<longrightarrow> \<not> ran_out e)
     \<and> (\<forall>report' after'. r = Inr (report', after') \<longrightarrow>
          ids_durable S (dur w') config (unat (gr_expected_rows config)) \<and> gp_scanned report' = gr_expected_rows config
          \<and> gp_inserted report' + gp_unchanged report' = gr_expected_rows config)"
  using assms(2-7)
proof (induction fuel arbitrary: report after w)
  case 0
  then have "gp_scanned report = gr_expected_rows config"
    by (simp add: word_unat_eq_iff)
  with 0 show ?case
    by (auto simp: repair_pages.simps [of 0] ret_op_def)
next
  case (Suc fuel)
  let ?n = "unat (gp_scanned report)" and ?N = "unat (gr_expected_rows config)"
  show ?case
  proof (cases "gp_scanned report < gr_expected_rows config")
    case False
    then have "gp_scanned report = gr_expected_rows config"
      using Suc.prems(2) by (simp add: word_unat_eq_iff word_less_nat_alt)
    with Suc.prems show ?thesis
      by (auto simp: repair_pages.simps [of "Suc fuel"] ret_op_def)
  next
    case more: True
    obtain r1 w1 where page: "gb_read_page backend after w = (r1, w1)" by (metis prod.exhaust)
    note s1 = pages [OF page]
    show ?thesis
    proof (cases r1)
      case (Inl e)
      with Suc.prems(1) more page s1 show ?thesis
        by (auto simp: repair_pages.simps [of "Suc fuel"] bind_op_def on_guest_def map_err_op_def ran_out_def)
    next
      case rows: (Inr rows)
      show ?thesis
      proof (cases "validate_page config after rows")
        case (Inl e)
        with Suc.prems(1) more page rows s1 validate_page_error [OF Inl] show ?thesis
          by (auto simp: repair_pages.simps [of "Suc fuel"] bind_op_def on_guest_def map_err_op_def lift_op_def)
      next
        case final: (Inr final)
        note contiguous = validate_page_contiguous [OF assms(1) final Suc.prems(2,3)]
        obtain r2 w2 where batch: "repair_batch backend rows w1 = (r2, w2)" by (metis prod.exhaust)
        have s2: "set rows \<subseteq> S" "extends S (dur w) (dur w2)"
          using s1 rows repair_batch_extends [OF batch] by auto
        show ?thesis
        proof (cases r2)
          case (Inl e)
          with Suc.prems(1) more page rows final batch s2 repair_batch_extends [OF batch] show ?thesis
            by (auto simp: repair_pages.simps [of "Suc fuel"] bind_op_def on_guest_def map_err_op_def lift_op_def)
        next
          case counted: (Inr counted)
          let ?report = "\<lparr>gp_scanned = gp_scanned report + of_nat (length rows),
              gp_inserted = gp_inserted report + gp_inserted counted,
              gp_unchanged = gp_unchanged report + gp_unchanged counted, gp_batches = gp_batches report + 1\<rparr>"
          have rest: "repair_pages fuel config backend ?report (Some final) w2 = (r, w')"
            using Suc.prems(1) more page rows final batch counted
            by (simp add: repair_pages.simps [of "Suc fuel"] bind_op_def on_guest_def map_err_op_def lift_op_def)
          have scanned: "unat (gp_scanned ?report) = ?n + length rows"
            using contiguous(2) u64_bound [of "gr_expected_rows config"] by (simp add: unat_word_ariths unat_of_nat)
          have durable: "ids_durable S (dur w2) config (?n + length rows)"
          proof -
            have "ids_durable S (dur w2) config ?n"
              using Suc.prems(5) s2(2) by (rule ids_durable_keeps)
            moreover have "\<forall>row \<in> set rows. dur w2 (dr_primary_key row) = Some row"
              using repair_batch_extends [OF batch s2(1)] counted by blast
            ultimately show ?thesis
              using contiguous(1) s2(1) by (auto simp: ids_durable_append)
          qed
          have "extends S (dur w2) (dur w') \<and> (\<forall>e. r = Inl e \<longrightarrow> \<not> ran_out e)
             \<and> (\<forall>report' after'. r = Inr (report', after') \<longrightarrow>
                  ids_durable S (dur w') config ?N \<and> gp_scanned report' = gr_expected_rows config
                  \<and> gp_inserted report' + gp_unchanged report' = gr_expected_rows config)"
          proof (rule Suc.IH [OF rest])
            show "gp_inserted ?report + gp_unchanged ?report = gp_scanned ?report"
              using Suc.prems(4) repair_batch_extends [OF batch s2(1)] counted by (auto simp: algebra_simps)
            show "?N - unat (gp_scanned ?report) \<le> fuel"
              using Suc.prems(6) contiguous(3) scanned by (cases rows) auto
            show "Some final = (if gp_scanned ?report = 0 then None else id_at (gr_start config) (unat (gp_scanned ?report) - 1))"
              using contiguous(3,4) scanned by (cases rows) (auto simp: unat_eq_0 [symmetric] simp del: unat_eq_0)
          qed (use scanned contiguous(2) durable in simp_all)
          with s2(2) show ?thesis by (blast intro: extends_trans)
        qed
      qed
    qed
  qed
qed

end

lemma repair_range_result:
  assumes "guest_store backend S dur vis" and "validate_bounds config = Inr ()" and "unat (gr_expected_rows config) \<le> fuel"
    and "repair_range fuel config backend w = (r, w')"
  shows "extends S (dur w) (dur w')
     \<and> (case r of
          Inl e \<Rightarrow> \<not> ran_out e \<and> e \<noteq> GuestOutOfFuel
        | Inr report \<Rightarrow>
            gp_scanned report = gr_expected_rows config
            \<and> gp_inserted report + gp_unchanged report = gr_expected_rows config
            \<and> (\<forall>g. gr_start config \<le> g \<and> g \<le> gr_end config \<longrightarrow>
                 (\<exists>row \<in> S. guest_id row = Inr g \<and> dur w' (dr_primary_key row) = Some row)))"
proof -
  obtain r1 w1 where pre: "gb_preflight backend w = (r1, w1)" by (metis prod.exhaust)
  have s1: "dur w1 = dur w"
    by (rule guest_store.preflights [OF assms(1) pre])
  obtain r2 w2 where pages: "repair_pages fuel config backend empty_report None w1 = (r2, w2)" by (metis prod.exhaust)
  note loop = guest_store.repair_pages_covers [OF assms(1,2) pages, simplified empty_report_def, simplified]
  have ids: "\<exists>row \<in> S. guest_id row = Inr g \<and> d (dr_primary_key row) = Some row"
    if "ids_durable S d config (unat (gr_expected_rows config))" "gr_start config \<le> g" "g \<le> gr_end config" for d g
  proof -
    let ?i = "unat g - unat (gr_start config)"
    have order: "unat (gr_start config) \<le> unat g" "unat g \<le> unat (gr_end config)"
      using that(2,3) by (simp_all add: word_le_nat_alt)
    then have "?i < unat (gr_expected_rows config)"
      using bounds_width [OF assms(2)] by linarith
    with that(1) obtain row g' where row: "row \<in> S" "id_at (gr_start config) ?i = Some g'" "guest_id row = Inr g'"
        "d (dr_primary_key row) = Some row"
      unfolding ids_durable_def by blast
    have "g' = g"
      using unat_id_at [OF row(2)] order(1) by (simp add: word_unat_eq_iff)
    with row show ?thesis by blast
  qed
  show ?thesis
    using assms(3,4) pre s1 pages loop ids
    by (cases r1; cases r2)
       (auto simp: repair_range_def bind_op_def on_guest_def map_err_op_def fail_op_def ret_op_def ran_out_def ids_durable_def
         split: if_splits guest_error.splits)
qed

section \<open>A backend in memory\<close>

text \<open>The source snapshot is a list of rows with their ids, read in pages of at most \<open>page\<close> rows.\<close>

record guest_memory =
  gm_committed :: "(row_key \<times> database_row) list"
  gm_working :: "(row_key \<times> database_row) list"

definition guest_memory_backend :: "(u64 \<times> database_row) list \<Rightarrow> nat \<Rightarrow> guest_memory guest_backend" where
  "guest_memory_backend source page =
     \<lparr>gb_preflight = (\<lambda>w. (Inr (of_nat (length source), fst (hd source), fst (last source)), w)),
      gb_read_page = (\<lambda>after w.
        (Inr (take page (map snd (filter (\<lambda>(g, _). case after of None \<Rightarrow> True | Some a \<Rightarrow> a < g) source))), w)),
      gb_begin_batch = (\<lambda>w. (Inr (), w\<lparr>gm_working := gm_committed w\<rparr>)),
      gb_require_parent = (\<lambda>_ w. (Inr (), w)),
      gb_read_target = (\<lambda>row w. (Inr (map_of (gm_working w) (dr_primary_key row)), w)),
      gb_insert = (\<lambda>row w.
        if map_of (gm_working w) (dr_primary_key row) = None
        then (Inr (), w\<lparr>gm_working := (dr_primary_key row, row) # gm_working w\<rparr>)
        else (Inl ''Duplicate entry'', w)),
      gb_commit = (\<lambda>w. (Inr (), w\<lparr>gm_committed := gm_working w\<rparr>)),
      gb_rollback = (\<lambda>w. (Inr (), w\<lparr>gm_working := gm_committed w\<rparr>)),
      gb_finish_source = (\<lambda>w. (Inr (), w))\<rparr>"

definition guest_row :: "nat \<Rightarrow> database_row" where
  "guest_row n = \<lparr>dr_primary_key = [nat_str n], dr_values = [(''guest_id'', Some (nat_str n)), (''name'', Some ''guest'')]\<rparr>"

definition guest_source :: "(u64 \<times> database_row) list" where
  "guest_source = [(10, guest_row 10), (11, guest_row 11), (12, guest_row 12)]"

interpretation guest_memory: guest_store "guest_memory_backend guest_source 2" "snd ` set guest_source"
  "\<lambda>w. map_of (gm_committed w)" "\<lambda>w. map_of (gm_working w)"
  by unfold_locales (auto simp: guest_memory_backend_def fun_eq_iff split: if_splits dest!: in_set_takeD)

definition guest_world :: guest_memory where
  "guest_world = \<lparr>gm_committed = [([nat_str 11], guest_row 11)], gm_working = []\<rparr>"

definition guest_config :: guest_range_config where
  "guest_config =
     \<lparr>gr_source = default_mysql_connection_config, gr_target = default_target_mysql_config, gr_start = 10, gr_end = 12,
      gr_expected_rows = 3, gr_batch_size = 2\<rparr>"

section \<open>Properties\<close>

text \<open>C12. A guest range repair is exact. On every outcome the committed target rows are the earlier ones plus
  source rows added at free keys: nothing is overwritten or deleted, whichever operation fails. The loop
  always ends, within as many pages as rows are expected. When the repair succeeds, every id of the
  inclusive range has a source row with that id which the target holds unchanged, and the report counts
  each row once, as inserted or as already present.
\<close>

theorem guest_range_repaired:
  assumes "guest_store backend S dur vis" and "unat (gr_expected_rows config) \<le> fuel"
    and "repair_with_backend fuel config backend w = (r, w')"
  shows "extends S (dur w) (dur w')
     \<and> (case r of
          Inl e \<Rightarrow> \<not> ran_out e
        | Inr report \<Rightarrow>
            gp_scanned report = gr_expected_rows config
            \<and> gp_inserted report + gp_unchanged report = gr_expected_rows config
            \<and> (\<forall>g. gr_start config \<le> g \<and> g \<le> gr_end config \<longrightarrow>
                 (\<exists>row \<in> S. guest_id row = Inr g \<and> dur w' (dr_primary_key row) = Some row)))"
proof (cases "validate_bounds config")
  case (Inl e)
  with assms(3) show ?thesis
    by (auto simp: repair_with_backend_def bind_op_def lift_op_def ran_out_def)
next
  case bounds: (Inr u)
  then have valid: "validate_bounds config = Inr ()" by simp
  obtain r1 w1 where range: "repair_range fuel config backend w = (r1, w1)" by (metis prod.exhaust)
  note inner = repair_range_result [OF assms(1) valid assms(2) range]
  obtain r2 w2 where finish: "gb_finish_source backend w1 = (r2, w2)" by (metis prod.exhaust)
  have run: "repair_with_backend fuel config backend w = (combine_cleanup r1 r2 ''close source snapshot'', w2)"
    using valid range finish by (simp add: repair_with_backend_def bind_op_def lift_op_def with_cleanup_def)
  have "dur w2 = dur w1"
    by (rule guest_store.finishes [OF assms(1) finish])
  with inner run assms(3) show ?thesis
    by (cases r1; cases r2) (auto simp: combine_cleanup_def ran_out_def split: guest_error.splits)
qed

theorem guest_range_repaired_witness:
  "extends (snd ` set guest_source) (map_of (gm_committed guest_world))
     (map_of (gm_committed (snd (repair_with_backend 3 guest_config (guest_memory_backend guest_source 2) guest_world))))
   \<and> fst (repair_with_backend 3 guest_config (guest_memory_backend guest_source 2) guest_world)
     = Inr \<lparr>gp_scanned = 3, gp_inserted = 2, gp_unchanged = 1, gp_batches = 2\<rparr>"
proof -
  let ?run = "repair_with_backend 3 guest_config (guest_memory_backend guest_source 2) guest_world"
  have "unat (gr_expected_rows guest_config) \<le> 3"
    by (simp add: guest_config_def)
  with guest_range_repaired [OF guest_memory.guest_store_axioms, of guest_config 3 guest_world "fst ?run" "snd ?run"]
  have "extends (snd ` set guest_source) (map_of (gm_committed guest_world)) (map_of (gm_committed (snd ?run)))"
    by simp
  moreover have "fst ?run = Inr \<lparr>gp_scanned = 3, gp_inserted = 2, gp_unchanged = 1, gp_batches = 2\<rparr>"
    by code_simp
  ultimately show ?thesis by blast
qed

end
