(* ===== verification/Fk_Transition.thy ===== *)
theory Fk_Transition
  imports Sync_Model
begin

text \<open>
  Coordinated changes of rows under restricting foreign keys (\<open>src/src/sync/fk_transition.rs\<close>): the
  dependent rows are discovered through the relations, deleted children first, the root row is
  changed, and the deleted rows are restored from the source parents first. The backend trait is a
  record of operations; a stack is a list with its top in front. The depth of the schema and the loops
  over pages and pending rows carry fuel; the loops need no more than the configured number of keys.
\<close>

section \<open>Data\<close>

type_synonym fk_row = row_values
type_synonym fk_row_key = "string \<times> row_key"

record fk_relation =
  rl_child_table :: string
  rl_child_columns :: "string list"
  rl_parent_columns :: "string list"

record parent_reference =
  pr_table :: string
  pr_columns :: "string list"
  pr_values :: row_key

datatype 'e fk_error =
    FkBackend 'e
  | FkCycle string
  | WorkLimit
  | InvalidPage
  | InvalidRelation
  | MissingColumn string
  | MissingTargetRow fk_row_key
  | MissingParent fk_row_key parent_reference
  | FkPanic
  | FkOutOfFuel

record ('w, 'e) fk_backend =
  fb_incoming :: "string \<Rightarrow> ('w, 'e, fk_relation list) op"
  fb_dependent_page :: "fk_relation \<Rightarrow> fk_row \<Rightarrow> row_key option \<Rightarrow> nat \<Rightarrow> int \<Rightarrow> ('w, 'e, row_key list) op"
  fb_target_row :: "fk_row_key \<Rightarrow> ('w, 'e, fk_row option) op"
  fb_source_row :: "fk_row_key \<Rightarrow> ('w, 'e, fk_row option) op"
  fb_ensure_parents :: "string \<Rightarrow> fk_row \<Rightarrow> ('w, 'e, parent_reference list) op"
  fb_delete :: "fk_row_key \<Rightarrow> ('w, 'e, unit) op"
  fb_update :: "fk_row_key \<Rightarrow> fk_row \<Rightarrow> ('w, 'e, unit) op"
  fb_insert :: "fk_row_key \<Rightarrow> fk_row \<Rightarrow> ('w, 'e, unit) op"

record fk_limits =
  li_page_rows :: nat
  li_max_keys :: nat

text \<open>Byte counts are integers: the limit is a large number and the sums do not overflow a \<open>usize\<close>.\<close>

definition page_bytes :: int where
  "page_bytes = 64 * 1024 * 1024"

type_synonym ('w, 'e, 'a) fk_op = "('w, 'e fk_error, 'a) op"
type_synonym fk_schema = "(string \<times> fk_relation list) list"

definition on_backend :: "('w, 'e, 'a) op \<Rightarrow> ('w, 'e, 'a) fk_op" where
  "on_backend m = map_err_op FkBackend m"

primrec each_op :: "('a \<Rightarrow> 's \<Rightarrow> ('w, 'e, 's) op) \<Rightarrow> 'a list \<Rightarrow> 's \<Rightarrow> ('w, 'e, 's) op" where
  "each_op f [] s = ret_op s"
| "each_op f (x # xs) s = bind_op (f x s) (each_op f xs)"

section \<open>The order of the tables\<close>

type_synonym schema_state = "fk_schema \<times> string list \<times> string list"

definition valid_relation :: "fk_relation \<Rightarrow> bool" where
  "valid_relation relation \<longleftrightarrow>
     rl_child_columns relation \<noteq> [] \<and> length (rl_child_columns relation) = length (rl_parent_columns relation)"

text \<open>The state is the schema, the tables being visited and the order.\<close>

primrec load_schema :: "nat \<Rightarrow> ('w, 'e) fk_backend \<Rightarrow> string \<Rightarrow> schema_state \<Rightarrow> ('w, 'e, schema_state) fk_op" where
  "load_schema 0 backend table st = fail_op FkOutOfFuel"
| "load_schema (Suc fuel) backend table st =
     (case st of (schema, visiting, order) \<Rightarrow>
        if table \<in> set visiting then fail_op (FkCycle table)
        else if map_of schema table \<noteq> None then ret_op st
        else
          bind_op (on_backend (fb_incoming backend table)) (\<lambda>relations.
          bind_op (each_op (\<lambda>relation s.
              if \<not> valid_relation relation then fail_op InvalidRelation
              else load_schema fuel backend (rl_child_table relation) s)
            relations (schema, bts_insert table visiting, order)) (\<lambda>(schema, visiting, order).
            ret_op (btm_insert table relations schema, bts_remove table visiting, order @ [table]))))"

section \<open>Dependent rows\<close>

definition column_of :: "fk_row \<Rightarrow> string \<Rightarrow> 'e fk_error + string option" where
  "column_of row column = ok_or (MissingColumn column) (map_of row column)"

fun changed_parent_columns :: "string list \<Rightarrow> fk_row \<Rightarrow> fk_row \<Rightarrow> bool \<Rightarrow> 'e fk_error + bool" where
  "changed_parent_columns [] current old differs = Inr differs"
| "changed_parent_columns (column # columns) current old differs =
     bind_res (column_of old column) (\<lambda>before.
     bind_res (column_of current column) (\<lambda>after.
       changed_parent_columns columns current old (differs \<or> before \<noteq> after)))"

definition changed :: "fk_relation \<Rightarrow> fk_row \<Rightarrow> fk_row \<Rightarrow> 'e fk_error + bool" where
  "changed relation current old = changed_parent_columns (rl_parent_columns relation) current old False"

type_synonym found_keys = "fk_row_key list \<times> fk_row_key list"

text \<open>One page: every key is new to this relation; a key that was not known yet is added and pushed.\<close>

fun collect_page_keys ::
  "string \<Rightarrow> nat \<Rightarrow> row_key list \<Rightarrow> row_key list \<Rightarrow> found_keys \<Rightarrow> 'e fk_error + row_key list \<times> found_keys"
where
  "collect_page_keys table max_keys [] seen found = Inr (seen, found)"
| "collect_page_keys table max_keys (pk # page) seen (keys, pending) =
     (if pk = [] \<or> pk \<in> set seen then Inl InvalidPage
      else
        let seen = bts_insert pk seen; key = (table, pk) in
        if key \<in> set keys then collect_page_keys table max_keys page seen (keys, pending)
        else
          let keys = bts_insert key keys in
          if max_keys < length keys then Inl WorkLimit
          else collect_page_keys table max_keys page seen (keys, key # pending))"

definition page_allowed :: "fk_limits \<Rightarrow> row_key list \<Rightarrow> bool" where
  "page_allowed limits page \<longleftrightarrow>
     \<not> (li_page_rows limits < length page \<or> 1 < length page \<and> page_bytes < int (sum_list (map length (concat page))))"

primrec read_keys_loop ::
  "nat \<Rightarrow> ('w, 'e) fk_backend \<Rightarrow> fk_relation \<Rightarrow> fk_row \<Rightarrow> fk_limits \<Rightarrow> row_key option \<Rightarrow> row_key list \<Rightarrow> found_keys
    \<Rightarrow> ('w, 'e, found_keys) fk_op"
where
  "read_keys_loop 0 backend relation old limits after seen found = fail_op FkOutOfFuel"
| "read_keys_loop (Suc fuel) backend relation old limits after seen found =
     bind_op (on_backend (fb_dependent_page backend relation old after (li_page_rows limits) page_bytes)) (\<lambda>page.
       if page = [] then ret_op found
       else if \<not> page_allowed limits page then fail_op InvalidPage
       else
         bind_op (lift_op (collect_page_keys (rl_child_table relation) (li_max_keys limits) page seen found)) (\<lambda>(seen, found).
           read_keys_loop fuel backend relation old limits (Some (last page)) seen found))"

definition read_keys ::
  "nat \<Rightarrow> ('w, 'e) fk_backend \<Rightarrow> fk_relation \<Rightarrow> fk_row \<Rightarrow> fk_limits \<Rightarrow> found_keys \<Rightarrow> ('w, 'e, found_keys) fk_op"
where
  "read_keys fuel backend relation old limits found = read_keys_loop fuel backend relation old limits None [] found"

definition schema_at :: "fk_schema \<Rightarrow> string \<Rightarrow> 'e fk_error + fk_relation list" where
  "schema_at schema table = ok_or FkPanic (map_of schema table)"

primrec drain_pending ::
  "nat \<Rightarrow> nat \<Rightarrow> ('w, 'e) fk_backend \<Rightarrow> fk_limits \<Rightarrow> fk_schema \<Rightarrow> found_keys \<Rightarrow> ('w, 'e, fk_row_key list) fk_op"
where
  "drain_pending 0 page_fuel backend limits schema found = fail_op FkOutOfFuel"
| "drain_pending (Suc fuel) page_fuel backend limits schema found =
     (case found of
        (keys, []) \<Rightarrow> ret_op keys
      | (keys, key # pending) \<Rightarrow>
          bind_op (on_backend (fb_target_row backend key)) (\<lambda>row.
          bind_op (lift_op (ok_or (MissingTargetRow key) row)) (\<lambda>row.
          bind_op (lift_op (schema_at schema (fst key))) (\<lambda>relations.
          bind_op (each_op (\<lambda>relation. read_keys page_fuel backend relation row limits) relations (keys, pending)) (\<lambda>found.
            drain_pending fuel page_fuel backend limits schema found)))))"

definition discover ::
  "nat \<Rightarrow> ('w, 'e) fk_backend \<Rightarrow> fk_row_key \<Rightarrow> fk_row option \<Rightarrow> fk_row \<Rightarrow> fk_limits \<Rightarrow> fk_schema \<Rightarrow> fk_row_key list
    \<Rightarrow> ('w, 'e, fk_row_key list) fk_op"
where
  "discover fuel backend root current old limits schema keys =
     bind_op (lift_op (schema_at schema (fst root))) (\<lambda>relations.
     bind_op (each_op (\<lambda>relation found.
         bind_op (lift_op (case current of Some current \<Rightarrow> changed relation current old | None \<Rightarrow> Inr True)) (\<lambda>detach_relation.
           if detach_relation then read_keys fuel backend relation old limits found else ret_op found))
       relations (keys, [])) (\<lambda>found.
       drain_pending fuel fuel backend limits schema found))"

record transition_plan =
  tp_order :: "string list"
  tp_keys :: "fk_row_key list"
  tp_schema :: fk_schema

definition discover_transition ::
  "nat \<Rightarrow> nat \<Rightarrow> ('w, 'e) fk_backend \<Rightarrow> fk_row_key \<Rightarrow> fk_row option \<Rightarrow> fk_row \<Rightarrow> fk_limits \<Rightarrow> ('w, 'e, transition_plan) fk_op"
where
  "discover_transition depth fuel backend root current old limits =
     (if li_page_rows limits = 0 \<or> li_max_keys limits = 0 then fail_op WorkLimit
      else
        bind_op (load_schema depth backend (fst root) ([], [], [])) (\<lambda>(schema, _, order).
        bind_op (discover fuel backend root current old limits schema []) (\<lambda>keys.
          ret_op \<lparr>tp_order = order, tp_keys = keys, tp_schema = schema\<rparr>)))"

section \<open>Changing the rows\<close>

definition keys_of_table :: "fk_row_key list \<Rightarrow> string \<Rightarrow> fk_row_key list" where
  "keys_of_table keys table = filter (\<lambda>key. fst key = table) keys"

definition each_unit :: "('a \<Rightarrow> ('w, 'e, unit) op) \<Rightarrow> 'a list \<Rightarrow> ('w, 'e, unit) op" where
  "each_unit f xs = each_op (\<lambda>x _. f x) xs ()"

definition detach :: "('w, 'e) fk_backend \<Rightarrow> string list \<Rightarrow> fk_row_key list \<Rightarrow> ('w, 'e, unit) fk_op" where
  "detach backend order keys =
     each_unit (\<lambda>table. each_unit (\<lambda>key. on_backend (fb_delete backend key)) (keys_of_table keys table)) order"

definition ensure_parent_rows :: "('w, 'e) fk_backend \<Rightarrow> fk_row_key \<Rightarrow> fk_row \<Rightarrow> ('w, 'e, unit) fk_op" where
  "ensure_parent_rows backend child desired =
     bind_op (on_backend (fb_ensure_parents backend (fst child) desired)) (\<lambda>missing.
       case missing of
         [] \<Rightarrow> ret_op ()
       | parent # _ \<Rightarrow> fail_op (MissingParent child parent))"

definition restore_row :: "('w, 'e) fk_backend \<Rightarrow> fk_row_key \<Rightarrow> ('w, 'e, unit) fk_op" where
  "restore_row backend key =
     bind_op (on_backend (fb_source_row backend key)) (\<lambda>desired.
       case desired of
         None \<Rightarrow> ret_op ()
       | Some desired \<Rightarrow>
           bind_op (ensure_parent_rows backend key desired) (\<lambda>_. on_backend (fb_insert backend key desired)))"

definition restore :: "('w, 'e) fk_backend \<Rightarrow> string list \<Rightarrow> fk_row_key list \<Rightarrow> ('w, 'e, unit) fk_op" where
  "restore backend order keys =
     each_unit (\<lambda>table. each_unit (restore_row backend) (keys_of_table keys table)) (rev order)"

definition transition ::
  "nat \<Rightarrow> nat \<Rightarrow> ('w, 'e) fk_backend \<Rightarrow> fk_row_key \<Rightarrow> fk_row \<Rightarrow> fk_row \<Rightarrow> fk_limits \<Rightarrow> ('w, 'e, unit) fk_op"
where
  "transition depth fuel backend root current old limits =
     bind_op (discover_transition depth fuel backend root (Some current) old limits) (\<lambda>plan.
     bind_op (detach backend (tp_order plan) (tp_keys plan)) (\<lambda>_.
     bind_op (ensure_parent_rows backend root current) (\<lambda>_.
     bind_op (on_backend (fb_update backend root current)) (\<lambda>_.
       restore backend (tp_order plan) (tp_keys plan)))))"

definition replace_source_absent_owner ::
  "nat \<Rightarrow> nat \<Rightarrow> ('w, 'e) fk_backend \<Rightarrow> fk_row_key \<times> fk_row \<Rightarrow> fk_row_key \<times> fk_row \<Rightarrow> bool \<Rightarrow> fk_limits \<Rightarrow> ('w, 'e, unit) fk_op"
where
  "replace_source_absent_owner depth fuel backend old_owner intended intended_exists limits =
     (case (old_owner, intended) of ((old_key, old_row), (intended_key, desired)) \<Rightarrow>
        bind_op (discover_transition depth fuel backend old_key None old_row limits) (\<lambda>plan.
        bind_op (if intended_exists then
            bind_op (on_backend (fb_target_row backend intended_key)) (\<lambda>row.
            bind_op (lift_op (ok_or (MissingTargetRow intended_key) row)) (\<lambda>intended_old.
              discover fuel backend intended_key (Some desired) intended_old limits (tp_schema plan) (tp_keys plan)))
          else ret_op (tp_keys plan)) (\<lambda>keys.
        bind_op (detach backend (tp_order plan) keys) (\<lambda>_.
        bind_op (on_backend (fb_delete backend old_key)) (\<lambda>_.
        bind_op (ensure_parent_rows backend intended_key desired) (\<lambda>_.
        bind_op (if intended_exists then on_backend (fb_update backend intended_key desired)
                 else on_backend (fb_insert backend intended_key desired)) (\<lambda>_.
          restore backend (tp_order plan) keys)))))))"

end
