(* ===== verification/Fk_Transition_Correct.thy ===== *)
theory Fk_Transition_Correct
  imports Fk_Transition
begin

text \<open>
  Correctness of the coordinated row changes: the order of the tables is topological, the discovery ends
  within its fuel, never indexes a missing table and finds every dependent row, and a successful
  transition leaves source values behind. The interface \<open>fk_target\<close> states what a backend does to the
  target rows.
\<close>

section \<open>The order of the tables\<close>

definition schema_ordered :: "fk_schema \<Rightarrow> string list \<Rightarrow> bool" where
  "schema_ordered schema order \<longleftrightarrow>
     distinct order \<and> set order = dom (map_of schema)
     \<and> (\<forall>i < length order. \<forall>relation \<in> set (the (map_of schema (order ! i))).
          valid_relation relation \<and> rl_child_table relation \<in> set (take i order))"

definition loading :: "schema_state \<Rightarrow> bool" where
  "loading st = (case st of (schema, visiting, order) \<Rightarrow>
     schema_ordered schema order \<and> bts_wf visiting \<and> set visiting \<inter> set order = {})"

definition loaded_more :: "schema_state \<Rightarrow> schema_state \<Rightarrow> bool" where
  "loaded_more st st' = (case (st, st') of ((schema, visiting, order), (schema', visiting', order')) \<Rightarrow>
     visiting' = visiting \<and> set order \<subseteq> set order' \<and> map_of schema \<subseteq>\<^sub>m map_of schema')"

lemma loaded_more_refl [simp]: "loaded_more st st"
  by (cases st) (simp add: loaded_more_def)

lemma loaded_more_trans: "loaded_more a b \<Longrightarrow> loaded_more b c \<Longrightarrow> loaded_more a c"
  by (auto simp: loaded_more_def map_le_trans split: prod.splits)

lemma bts_remove_insert: "bts_wf v \<Longrightarrow> x \<notin> set v \<Longrightarrow> bts_remove x (bts_insert x v) = v"
  by (rule bts_wf_unique) auto

lemma schema_ordered_snoc:
  assumes "schema_ordered schema order" and "table \<notin> set order"
    and "\<forall>relation \<in> set relations. valid_relation relation \<and> rl_child_table relation \<in> set order"
  shows "schema_ordered (btm_insert table relations schema) (order @ [table])"
  unfolding schema_ordered_def
proof (intro conjI allI impI ballI)
  show "distinct (order @ [table])" "set (order @ [table]) = dom (map_of (btm_insert table relations schema))"
    using assms(1,2) by (auto simp: schema_ordered_def)
  fix i relation
  assume i: "i < length (order @ [table])" and r: "relation \<in> set (the (map_of (btm_insert table relations schema) ((order @ [table]) ! i)))"
  show "valid_relation relation" "rl_child_table relation \<in> set (take i (order @ [table]))"
  proof (atomize (full), cases "i < length order")
    case True
    moreover from this have "order ! i \<noteq> table"
      using assms(2) nth_mem by fastforce
    ultimately show "valid_relation relation \<and> rl_child_table relation \<in> set (take i (order @ [table]))"
      using r assms(1) by (auto simp: schema_ordered_def nth_append)
  next
    case False
    with i have "i = length order" by simp
    with r assms(3) show "valid_relation relation \<and> rl_child_table relation \<in> set (take i (order @ [table]))"
      by (simp add: nth_append)
  qed
qed

text \<open>A run of \<open>each_op\<close> on every outcome: the view of the world is kept, no excluded error arises, and on
  success the invariant, the step relation and what each element established hold.\<close>

definition outcome :: "('e \<Rightarrow> bool) \<Rightarrow> ('a \<Rightarrow> bool) \<Rightarrow> 'e + 'a \<Rightarrow> bool" where
  "outcome excluded ok r = (case r of Inl e \<Rightarrow> \<not> excluded e | Inr a \<Rightarrow> ok a)"

lemma outcome_simps [simp]:
  "outcome excluded ok (Inl e) \<longleftrightarrow> \<not> excluded e" "outcome excluded ok (Inr a) \<longleftrightarrow> ok a"
  by (simp_all add: outcome_def)

lemma outcome_mono: "outcome excluded ok r \<Longrightarrow> (\<And>a. ok a \<Longrightarrow> ok' a) \<Longrightarrow> outcome excluded ok' r"
  by (cases r) auto

lemma each_op_outcome:
  assumes "each_op f xs s w = (r, w')" and "I s" and "view w = v"
    and "\<And>x s w r w'. x \<in> set xs \<Longrightarrow> I s \<Longrightarrow> view w = v \<Longrightarrow> f x s w = (r, w') \<Longrightarrow>
      view w' = v \<and> outcome excluded (\<lambda>s'. I s' \<and> R s s' \<and> Q x s') r"
    and "\<And>s. R s s" and "\<And>a b c. R a b \<Longrightarrow> R b c \<Longrightarrow> R a c" and "\<And>x a b. Q x a \<Longrightarrow> R a b \<Longrightarrow> Q x b"
  shows "view w' = v \<and> outcome excluded (\<lambda>s'. I s' \<and> R s s' \<and> (\<forall>x \<in> set xs. Q x s')) r"
  using assms(1-4)
proof (induction xs arbitrary: s w)
  case Nil
  then show ?case using assms(5) by (auto simp: ret_op_def)
next
  case (Cons x xs)
  obtain r1 w1 where first: "f x s w = (r1, w1)" by (rule prod.exhaust)
  have step: "view w1 = v \<and> outcome excluded (\<lambda>s'. I s' \<and> R s s' \<and> Q x s') r1"
    using Cons.prems(4) [of x, OF _ Cons.prems(2,3) first] by simp
  show ?case
  proof (cases r1)
    case (Inl e)
    with step first Cons.prems(1) show ?thesis by (auto simp: bind_op_def)
  next
    case (Inr s1)
    have rest: "each_op f xs s1 w1 = (r, w')"
      using Cons.prems(1) first Inr by (simp add: bind_op_def)
    have "view w' = v \<and> outcome excluded (\<lambda>s'. I s' \<and> R s1 s' \<and> (\<forall>x \<in> set xs. Q x s')) r"
      by (rule Cons.IH [OF rest]) (use step Inr in simp, use step in simp, rule Cons.prems(4), auto)
    then show ?thesis
      using step Inr assms(6,7) by (auto elim!: outcome_mono)
  qed
qed

lemma load_schema_orders:
  fixes backend :: "('w, 'e) fk_backend"
  shows "load_schema fuel backend table st w = (Inr st', w') \<Longrightarrow> loading st \<Longrightarrow>
     loading st' \<and> loaded_more st st' \<and> table \<in> set (snd (snd st'))
     \<and> (map_of (fst st) table = None \<longrightarrow> last (snd (snd st')) = table)"
proof (induction fuel arbitrary: table st w st' w')
  case 0
  then show ?case by (simp add: fail_op_def)
next
  case (Suc fuel)
  obtain schema visiting order where st: "st = (schema, visiting, order)"
    by (metis prod.exhaust)
  have ok: "table \<notin> set visiting"
    using Suc.prems(1) by (auto simp: st fail_op_def split: if_splits)
  show ?case
  proof (cases "map_of schema table = None")
    case False
    then have "st' = st"
      using Suc.prems(1) ok by (auto simp: st ret_op_def split: if_splits)
    moreover have "table \<in> set order"
      using False Suc.prems(2) by (auto simp: st loading_def schema_ordered_def)
    ultimately show ?thesis using False Suc.prems(2) by (auto simp: st)
  next
    case True
    let ?f = "\<lambda>relation s. if \<not> valid_relation relation then fail_op InvalidRelation
      else load_schema fuel backend (rl_child_table relation) s"
    let ?s0 = "(schema, bts_insert table visiting, order)"
    obtain relations w1 schema1 visiting1 order1 w2 where
      children: "each_op ?f relations ?s0 w1 = (Inr (schema1, visiting1, order1), w2)"
      and st': "st' = (btm_insert table relations schema1, bts_remove table visiting1, order1 @ [table])"
      using Suc.prems(1) ok True by (auto simp: st bind_op_eq_Inr ret_op_def split: prod.splits)
    have "table \<notin> set order"
      using True Suc.prems(2) by (auto simp: st loading_def schema_ordered_def)
    then have start: "loading ?s0"
      using Suc.prems(2) by (auto simp: st loading_def)
    have "loading (schema1, visiting1, order1) \<and> loaded_more ?s0 (schema1, visiting1, order1)
        \<and> (\<forall>relation \<in> set relations. valid_relation relation \<and> rl_child_table relation \<in> set (snd (snd (schema1, visiting1, order1))))"
    proof -
      have "() = () \<and> outcome (\<lambda>_ :: 'e fk_error. False) (\<lambda>s'. loading s' \<and> loaded_more ?s0 s'
          \<and> (\<forall>relation \<in> set relations. valid_relation relation \<and> rl_child_table relation \<in> set (snd (snd s'))))
          (Inr (schema1, visiting1, order1))"
      proof (rule each_op_outcome [where view = "\<lambda>_. ()" and v = "()" and I = loading and R = loaded_more
            and Q = "\<lambda>relation s. valid_relation relation \<and> rl_child_table relation \<in> set (snd (snd s))", OF children start])
        fix relation s w r w'
        assume "loading s" "?f relation s w = (r, w')"
        with Suc.IH show "() = () \<and> outcome (\<lambda>_. False) (\<lambda>s'. loading s' \<and> loaded_more s s'
            \<and> (valid_relation relation \<and> rl_child_table relation \<in> set (snd (snd s')))) r"
          by (cases r) (auto simp: fail_op_def split: if_splits)
      next
        show "valid_relation x \<and> rl_child_table x \<in> set (snd (snd b))"
          if "valid_relation x \<and> rl_child_table x \<in> set (snd (snd a))" "loaded_more a b" for x a b
          using that by (auto simp: loaded_more_def split: prod.splits)
      qed (auto intro: loaded_more_trans)
      then show ?thesis by simp
    qed
    then have kids: "schema_ordered schema1 order1" "visiting1 = bts_insert table visiting" "bts_wf visiting1"
        "set visiting1 \<inter> set order1 = {}" "set order \<subseteq> set order1" "map_of schema \<subseteq>\<^sub>m map_of schema1"
        "\<forall>relation \<in> set relations. valid_relation relation \<and> rl_child_table relation \<in> set order1"
      by (auto simp: loading_def loaded_more_def)
    then have fresh: "table \<notin> set order1" by auto
    have "map_of schema \<subseteq>\<^sub>m map_of (btm_insert table relations schema1)"
      using kids(6) True by (auto simp: map_le_def)
    moreover have "bts_wf visiting" "set visiting \<inter> set order1 = {}"
      using Suc.prems(2) kids(2,4) by (auto simp: st loading_def)
    ultimately show ?thesis
      using schema_ordered_snoc [OF kids(1) fresh kids(7)] kids(5) ok bts_remove_insert [of visiting table]
      by (auto simp: st st' loading_def loaded_more_def kids(2))
  qed
qed

section \<open>Pages of keys\<close>

definition keys_after :: "row_key option \<Rightarrow> row_key list \<Rightarrow> row_key list" where
  "keys_after after all_keys = (case after of None \<Rightarrow> all_keys | Some k \<Rightarrow> tl (dropWhile (\<lambda>x. x \<noteq> k) all_keys))"

lemma keys_after_page:
  assumes "distinct all_keys" and "keys_after after all_keys = page @ rest" and "page \<noteq> []"
  shows "keys_after (Some (last page)) all_keys = rest"
proof -
  have "\<exists>before. all_keys = before @ page @ rest"
  proof (cases after)
    case None
    with assms(2) show ?thesis by (intro exI [of _ "[]"]) (simp add: keys_after_def)
  next
    case (Some k)
    define tail where "tail = dropWhile (\<lambda>x. x \<noteq> k) all_keys"
    have tl_tail: "tl tail = page @ rest"
      using assms(2) by (simp add: keys_after_def Some tail_def)
    then have "tail \<noteq> []"
      using assms(3) by (cases tail) auto
    then have "tail = hd tail # page @ rest"
      using tl_tail by (metis list.collapse)
    moreover have "all_keys = takeWhile (\<lambda>x. x \<noteq> k) all_keys @ tail"
      by (simp add: tail_def)
    ultimately show ?thesis
      by (metis append.assoc append_Cons append_Nil)
  qed
  then obtain before where all: "all_keys = (before @ butlast page) @ last page # rest"
    using assms(3) by (metis append.assoc append_butlast_last_id append_Cons append_Nil)
  have "last page \<notin> set (before @ butlast page)"
    using assms(1) all by auto
  then have "dropWhile (\<lambda>x. x \<noteq> last page) ((before @ butlast page) @ last page # rest) = last page # rest"
    by (subst dropWhile_append2) auto
  then show ?thesis
    by (simp only: keys_after_def option.case all) simp
qed

definition found_ok :: "nat \<Rightarrow> found_keys \<Rightarrow> bool" where
  "found_ok max_keys found \<longleftrightarrow> bts_wf (fst found) \<and> length (fst found) \<le> max_keys"

definition found_more :: "string set \<Rightarrow> found_keys \<Rightarrow> found_keys \<Rightarrow> bool" where
  "found_more tables found found' \<longleftrightarrow>
     (\<exists>more. snd found' = more @ snd found \<and> set (fst found') = set (fst found) \<union> set more
        \<and> length (fst found') = length (fst found) + length more \<and> fst ` set more \<subseteq> tables)"

lemma found_more_refl [simp]: "found_more tables found found"
  unfolding found_more_def by (intro exI [of _ "[]"]) simp

lemma found_more_trans: "found_more tables a b \<Longrightarrow> found_more tables b c \<Longrightarrow> found_more tables a c"
  unfolding found_more_def by (elim exE, rename_tac p q, rule_tac x = "q @ p" in exI) auto

lemma found_more_mono: "found_more tables a b \<Longrightarrow> tables \<subseteq> tables' \<Longrightarrow> found_more tables' a b"
  unfolding found_more_def by blast

lemma found_more_keys: "found_more tables a b \<Longrightarrow> set (fst a) \<subseteq> set (fst b)"
  by (auto simp: found_more_def)

lemma found_more_in: "found_more tables (keys, p) (keys', p') \<Longrightarrow> k \<in> set keys \<Longrightarrow> k \<in> set keys'"
  using found_more_keys by fastforce

lemma collect_page_outcome:
  assumes "found_ok max_keys found" and "bts_wf seen"
  shows "outcome (\<lambda>e. e = FkOutOfFuel \<or> e = FkPanic) (\<lambda>(seen', found'). found_ok max_keys found' \<and> found_more {table} found found'
     \<and> bts_wf seen' \<and> length seen' = length seen + length page \<and> set seen' = set seen \<union> set page
     \<and> Pair table ` set page \<subseteq> set (fst found')) (collect_page_keys table max_keys page seen found)"
  using assms
proof (induction table max_keys page seen found rule: collect_page_keys.induct)
  case (1 table max_keys seen found)
  then show ?case by simp
next
  case (2 table max_keys pk page seen keys pending)
  let ?seen = "bts_insert pk seen" and ?key = "(table, pk)"
  let ?keys = "bts_insert ?key keys"
  show ?case
  proof (cases "pk = [] \<or> pk \<in> set seen")
    case True
    then show ?thesis by simp
  next
    case fresh: False
    then have seen: "bts_wf ?seen" "length ?seen = Suc (length seen)"
      using 2(4) by (auto simp: length_bts_insert)
    show ?thesis
    proof (cases "?key \<in> set keys")
      case True
      with fresh 2(1) [OF fresh refl refl True 2(3) seen(1)] seen show ?thesis
        by (auto simp: Let_def elim!: outcome_mono intro: found_more_in)
    next
      case False
      have push: "found_more {table} (keys, pending) (?keys, ?key # pending)"
        using False by (auto simp: found_more_def length_bts_insert intro!: exI [of _ "[?key]"])
      show ?thesis
      proof (cases "max_keys < length ?keys")
        case True
        with fresh False show ?thesis by (simp add: Let_def)
      next
        case small: False
        have "found_ok max_keys (?keys, ?key # pending)"
          using 2(3) small by (simp add: found_ok_def)
        from 2(2) [OF fresh refl refl False refl small this seen(1)] fresh False small seen push show ?thesis
          by (auto simp: Let_def elim!: outcome_mono intro: found_more_trans found_more_in [of "{table}" ?keys])
      qed
    qed
  qed
qed

section \<open>What a backend does\<close>

type_synonym fk_rows = "fk_row_key \<Rightarrow> fk_row option"

type_synonym fk_dependents = "fk_rows \<Rightarrow> fk_relation \<Rightarrow> fk_row \<Rightarrow> row_key list"

text \<open>A relation is detached when a referenced column changes or the row goes away.\<close>

definition detaches :: "fk_row option \<Rightarrow> fk_row \<Rightarrow> fk_relation \<Rightarrow> bool" where
  "detaches current old relation =
     (case current of
        None \<Rightarrow> True
      | Some current \<Rightarrow> \<exists>column \<in> set (rl_parent_columns relation). map_of old column \<noteq> map_of current column)"

lemma changed_columns_tells:
  "changed_parent_columns columns current old differs = Inr d \<Longrightarrow>
     d \<longleftrightarrow> differs \<or> (\<exists>column \<in> set columns. map_of old column \<noteq> map_of current column)"
  by (induction columns current old differs rule: changed_parent_columns.induct)
     (auto simp: column_of_def ok_or_def split: option.splits)

text \<open>All dependents of a row through the relations of its table are among the keys, and this for every key
  that is not pending.\<close>

definition dependents_found :: "fk_dependents \<Rightarrow> fk_rows \<Rightarrow> fk_relation list \<Rightarrow> fk_row \<Rightarrow> fk_row_key list \<Rightarrow> bool" where
  "dependents_found deps rows relations row keys \<longleftrightarrow>
     (\<forall>relation \<in> set relations. Pair (rl_child_table relation) ` set (deps rows relation row) \<subseteq> set keys)"

definition closed_except :: "fk_dependents \<Rightarrow> fk_rows \<Rightarrow> fk_schema \<Rightarrow> fk_row_key list \<Rightarrow> fk_row_key list \<Rightarrow> bool" where
  "closed_except deps rows schema keys pending \<longleftrightarrow>
     (\<forall>key \<in> set keys - set pending. \<forall>relations row. map_of schema (fst key) = Some relations \<longrightarrow> rows key = Some row
        \<longrightarrow> dependents_found deps rows relations row keys)"

definition schema_children :: "fk_schema \<Rightarrow> string set" where
  "schema_children schema = {rl_child_table relation | table relations relation.
     map_of schema table = Some relations \<and> relation \<in> set relations}"

definition schema_closed :: "fk_schema \<Rightarrow> bool" where
  "schema_closed schema \<longleftrightarrow>
     (\<forall>table relations. map_of schema table = Some relations \<longrightarrow> rl_child_table ` set relations \<subseteq> dom (map_of schema))"

lemma dependents_found_mono: "dependents_found deps rows relations row keys \<Longrightarrow> set keys \<subseteq> set keys' \<Longrightarrow> dependents_found deps rows relations row keys'"
  by (fastforce simp: dependents_found_def)

lemma closed_except_more:
  assumes "closed_except deps rows schema keys pending" and "set keys' = set keys \<union> set added"
  shows "closed_except deps rows schema keys' (added @ pending)"
  unfolding closed_except_def
proof (intro ballI allI impI)
  fix key relations row
  assume "key \<in> set keys' - set (added @ pending)" "map_of schema (fst key) = Some relations" "rows key = Some row"
  with assms have "dependents_found deps rows relations row keys"
    unfolding closed_except_def by auto
  then show "dependents_found deps rows relations row keys'"
    by (rule dependents_found_mono) (simp add: assms(2))
qed

lemma schema_ordered_closed:
  assumes "schema_ordered schema order"
  shows "schema_closed schema"
  unfolding schema_closed_def
proof (intro allI impI)
  fix table relations
  assume table: "map_of schema table = Some relations"
  then obtain i where "i < length order" "order ! i = table"
    using assms by (metis schema_ordered_def domI in_set_conv_nth)
  with assms table show "rl_child_table ` set relations \<subseteq> dom (map_of schema)"
    using set_take_subset [of i order] by (fastforce simp: schema_ordered_def)
qed

lemma relation_children: "map_of schema table = Some relations \<Longrightarrow> rl_child_table ` set relations \<subseteq> schema_children schema"
  by (auto simp: schema_children_def)

lemma schema_children_dom: "schema_closed schema \<Longrightarrow> schema_children schema \<subseteq> dom (map_of schema)"
  unfolding schema_closed_def schema_children_def by blast

lemma last_table_no_child:
  assumes "schema_ordered schema order" and "order \<noteq> []"
  shows "last order \<notin> schema_children schema"
proof
  assume "last order \<in> schema_children schema"
  then obtain table relations relation where rel: "map_of schema table = Some relations" "relation \<in> set relations"
      "rl_child_table relation = last order"
    unfolding schema_children_def by auto
  then obtain i where i: "i < length order" "order ! i = table"
    using assms(1) by (metis schema_ordered_def domI in_set_conv_nth)
  with assms(1) rel have "last order \<in> set (take i order)"
    unfolding schema_ordered_def by (metis option.sel)
  then obtain j where j: "j < i" "order ! j = order ! (length order - 1)"
    using assms(2) by (auto simp: in_set_conv_nth last_conv_nth)
  then have "j = length order - 1"
    using assms i(1) by (subst nth_eq_iff_index_eq [symmetric]) (auto simp: schema_ordered_def)
  with j(1) i(1) show False by simp
qed

text \<open>\<open>deps\<close> are the keys of the rows that reference a row through a relation, in the order the
  backend pages them; \<open>tables\<close> is a finite set of tables closed under the relations.\<close>

locale fk_target =
  fixes backend :: "('w, 'e) fk_backend" and src :: fk_rows and tgt :: "'w \<Rightarrow> fk_rows"
    and deps :: fk_dependents and tables :: "string set"
  assumes finite_tables: "finite tables"
    and incoming: "fb_incoming backend table w = (r1, w') \<Longrightarrow>
      tgt w' = tgt w \<and> (\<forall>relations. r1 = Inr relations \<longrightarrow> table \<in> tables \<longrightarrow> rl_child_table ` set relations \<subseteq> tables)"
    and distinct_deps: "distinct (deps rows relation old)"
    and pages: "fb_dependent_page backend relation old after n b w = (r2, w') \<Longrightarrow>
      tgt w' = tgt w \<and> (\<forall>page. r2 = Inr page \<longrightarrow>
        (\<exists>m. page = take m (keys_after after (deps (tgt w) relation old)))
        \<and> (page = [] \<longrightarrow> keys_after after (deps (tgt w) relation old) = []))"
    and target_rows: "fb_target_row backend key w = (r3, w') \<Longrightarrow> tgt w' = tgt w \<and> (\<forall>row. r3 = Inr row \<longrightarrow> row = tgt w key)"
    and source_rows: "fb_source_row backend key w = (r3, w') \<Longrightarrow> tgt w' = tgt w \<and> (\<forall>row. r3 = Inr row \<longrightarrow> row = src key)"
    and parents: "fb_ensure_parents backend table desired w = (r4, w') \<Longrightarrow> tgt w' k = tgt w k \<or> tgt w' k = src k"
    and deletes: "fb_delete backend key w = (Inr u, w') \<Longrightarrow> tgt w' = (tgt w)(key := None)"
    and updates: "fb_update backend key desired w = (Inr u, w') \<Longrightarrow> tgt w' = (tgt w)(key \<mapsto> desired)"
    and inserts: "fb_insert backend key desired w = (Inr u, w') \<Longrightarrow> tgt w' = (tgt w)(key \<mapsto> desired)"
begin

lemma read_keys_loop_outcome:
  assumes "read_keys_loop fuel backend relation old limits after seen found w = (r, w')"
    and "found_ok (li_max_keys limits) found" and "bts_wf seen" and "Pair (rl_child_table relation) ` set seen \<subseteq> set (fst found)"
    and "li_max_keys limits < fuel + length seen"
  shows "tgt w' = tgt w \<and> outcome (\<lambda>e. e = FkOutOfFuel \<or> e = FkPanic) (\<lambda>found'. found_ok (li_max_keys limits) found'
     \<and> found_more {rl_child_table relation} found found'
     \<and> Pair (rl_child_table relation) ` set (keys_after after (deps (tgt w) relation old)) \<subseteq> set (fst found')) r"
  using assms
proof (induction fuel arbitrary: after seen found w)
  case 0
  have "length seen = card (Pair (rl_child_table relation) ` set seen)"
    using 0(3) by (subst card_image) (auto simp: inj_on_def bts_wf_distinct distinct_card)
  also have "\<dots> \<le> card (set (fst found))"
    using 0(4) by (intro card_mono) auto
  also have "\<dots> \<le> li_max_keys limits"
    using 0(2) card_length [of "fst found"] by (simp add: found_ok_def)
  finally show ?case using 0(5) by simp
next
  case (Suc fuel)
  let ?table = "rl_child_table relation"
  let ?queue = "keys_after after (deps (tgt w) relation old)"
  obtain r1 w1 where page: "fb_dependent_page backend relation old after (li_page_rows limits) page_bytes w = (r1, w1)"
    by (rule prod.exhaust)
  note p = pages [OF page]
  show ?case
  proof (cases r1)
    case (Inl e)
    with Suc.prems(1) page p show ?thesis by (auto simp: bind_op_def on_backend_def map_err_op_def)
  next
    case rows: (Inr rows)
    show ?thesis
    proof (cases "rows = [] \<or> \<not> page_allowed limits rows")
      case True
      have "rows = [] \<Longrightarrow> ?queue = []" "tgt w1 = tgt w"
        using p rows by blast+
      moreover have "(r, w') = (if rows = [] then (Inr found, w1) else (Inl InvalidPage, w1))"
        using True Suc.prems(1) page rows by (simp add: bind_op_def on_backend_def map_err_op_def ret_op_def fail_op_def split: if_splits)
      ultimately show ?thesis
        using Suc.prems(2) by (cases "rows = []") auto
    next
      case more: False
      obtain rest where split: "?queue = rows @ rest"
        using p rows by (metis append_take_drop_id)
      then have tail: "keys_after (Some (last rows)) (deps (tgt w) relation old) = rest"
        using keys_after_page [OF distinct_deps split] more by blast
      note collected = collect_page_outcome [OF Suc.prems(2,3), of ?table rows]
      show ?thesis
      proof (cases "collect_page_keys ?table (li_max_keys limits) rows seen found :: 'e fk_error + row_key list \<times> found_keys")
        case (Inl e)
        with Suc.prems(1) page p rows more collected [where 'a = 'e] show ?thesis
          by (auto simp: bind_op_def on_backend_def map_err_op_def lift_op_def)
      next
        case (Inr both)
        obtain seen1 found1 where both: "both = (seen1, found1)" by (metis prod.exhaust)
        have ok: "found_ok (li_max_keys limits) found1" "found_more {?table} found found1" "bts_wf seen1"
            "length seen1 = length seen + length rows" "set seen1 = set seen \<union> set rows" "Pair ?table ` set rows \<subseteq> set (fst found1)"
          using collected [where 'a = 'e] Inr both by simp_all
        have next_page: "read_keys_loop fuel backend relation old limits (Some (last rows)) seen1 found1 w1 = (r, w')"
          using Suc.prems(1) page rows more Inr both by (simp add: bind_op_def on_backend_def map_err_op_def lift_op_def)
        have "Pair ?table ` set seen1 \<subseteq> set (fst found1)"
          using ok(5,6) Suc.prems(4) found_more_keys [OF ok(2)] by auto
        moreover have "li_max_keys limits < fuel + length seen1"
          using Suc.prems(5) ok(4) more by (cases rows) auto
        ultimately have "tgt w' = tgt w1 \<and> outcome (\<lambda>e. e = FkOutOfFuel \<or> e = FkPanic) (\<lambda>found'. found_ok (li_max_keys limits) found'
            \<and> found_more {?table} found1 found' \<and> Pair ?table ` set rest \<subseteq> set (fst found')) r"
          using Suc.IH [OF next_page ok(1,3)] p tail by simp
        moreover have "Pair ?table ` set rows \<subseteq> set (fst found')" if "found_more {?table} found1 found'" for found'
          using ok(6) found_more_keys [OF that] by blast
        moreover have "tgt w1 = tgt w"
          using p by blast
        ultimately show ?thesis
          using found_more_trans [OF ok(2)] split by (simp add: image_Un) (elim conjE outcome_mono, simp)
      qed
    qed
  qed
qed

lemma read_keys_outcome:
  assumes "read_keys fuel backend relation old limits found w = (r, w')"
    and "found_ok (li_max_keys limits) found" and "li_max_keys limits < fuel"
  shows "tgt w' = tgt w \<and> outcome (\<lambda>e. e = FkOutOfFuel \<or> e = FkPanic) (\<lambda>found'. found_ok (li_max_keys limits) found'
     \<and> found_more {rl_child_table relation} found found'
     \<and> Pair (rl_child_table relation) ` set (deps (tgt w) relation old) \<subseteq> set (fst found')) r"
  using read_keys_loop_outcome [OF assms(1) [unfolded read_keys_def] assms(2)] assms(3)
  by (simp add: keys_after_def)

lemma read_all_outcome:
  assumes "each_op (\<lambda>relation. read_keys fuel backend relation row limits) relations found w = (r, w')"
    and "found_ok (li_max_keys limits) found" and "li_max_keys limits < fuel"
  shows "tgt w' = tgt w \<and> outcome (\<lambda>e. e = FkOutOfFuel \<or> e = FkPanic) (\<lambda>found'. found_ok (li_max_keys limits) found'
     \<and> found_more (rl_child_table ` set relations) found found' \<and> dependents_found deps (tgt w) relations row (fst found')) r"
proof -
  have "tgt w' = tgt w \<and> outcome (\<lambda>e. e = FkOutOfFuel \<or> e = FkPanic) (\<lambda>found'. found_ok (li_max_keys limits) found'
     \<and> found_more (rl_child_table ` set relations) found found'
     \<and> (\<forall>relation \<in> set relations. Pair (rl_child_table relation) ` set (deps (tgt w) relation row) \<subseteq> set (fst found'))) r"
  proof (rule each_op_outcome [where view = tgt and v = "tgt w" and I = "found_ok (li_max_keys limits)"
        and R = "found_more (rl_child_table ` set relations)"
        and Q = "\<lambda>relation found'. Pair (rl_child_table relation) ` set (deps (tgt w) relation row) \<subseteq> set (fst found')",
        OF assms(1,2) refl])
    fix relation s w1 r1 w2
    assume step: "relation \<in> set relations" "found_ok (li_max_keys limits) s" "tgt w1 = tgt w"
      "read_keys fuel backend relation row limits s w1 = (r1, w2)"
    then have "{rl_child_table relation} \<subseteq> rl_child_table ` set relations" by simp
    with read_keys_outcome [OF step(4,2) assms(3)] step(3)
    show "tgt w2 = tgt w \<and> outcome (\<lambda>e. e = FkOutOfFuel \<or> e = FkPanic) (\<lambda>s'. found_ok (li_max_keys limits) s'
        \<and> found_more (rl_child_table ` set relations) s s'
        \<and> Pair (rl_child_table relation) ` set (deps (tgt w) relation row) \<subseteq> set (fst s')) r1"
      by (auto elim!: outcome_mono intro: found_more_mono)
  next
    show "Pair (rl_child_table x) ` set (deps (tgt w) x row) \<subseteq> set (fst b)"
      if "Pair (rl_child_table x) ` set (deps (tgt w) x row) \<subseteq> set (fst a)" "found_more (rl_child_table ` set relations) a b" for x a b
      using that(1) found_more_keys [OF that(2)] by blast
  qed (auto intro: found_more_trans)
  then show ?thesis
    unfolding dependents_found_def by blast
qed

lemma drain_outcome:
  assumes "drain_pending fuel page_fuel backend limits schema found w = (r, w')"
    and "found_ok (li_max_keys limits) found" and "li_max_keys limits < page_fuel"
    and "li_max_keys limits - length (fst found) + length (snd found) < fuel"
    and "schema_closed schema" and "fst ` set (snd found) \<subseteq> dom (map_of schema)"
    and "closed_except deps (tgt w) schema (fst found) (snd found)"
  shows "tgt w' = tgt w \<and> outcome (\<lambda>e. e = FkOutOfFuel \<or> e = FkPanic) (\<lambda>keys. bts_wf keys \<and> length keys \<le> li_max_keys limits
     \<and> set (fst found) \<subseteq> set keys \<and> fst ` set keys \<subseteq> fst ` set (fst found) \<union> schema_children schema
     \<and> closed_except deps (tgt w) schema keys []) r"
  using assms
proof (induction fuel arbitrary: found w)
  case 0
  then show ?case by simp
next
  case (Suc fuel)
  obtain keys pending where found: "found = (keys, pending)" by (metis prod.exhaust)
  show ?case
  proof (cases pending)
    case Nil
    with Suc.prems show ?thesis by (auto simp: found ret_op_def found_ok_def)
  next
    case (Cons key pending')
    obtain relations where relations: "map_of schema (fst key) = Some relations"
      using Suc.prems(6) by (auto simp: found Cons)
    obtain r1 w1 where read: "fb_target_row backend key w = (r1, w1)" by (rule prod.exhaust)
    note t = target_rows [OF read]
    show ?thesis
    proof (cases "r1 = Inr None \<or> (\<exists>e. r1 = Inl e)")
      case True
      with Suc.prems(1) read t show ?thesis
        by (auto simp: found Cons bind_op_def on_backend_def map_err_op_def lift_op_def)
    next
      case False
      then obtain row where row: "r1 = Inr (Some row)"
        by (metis option.exhaust sum.exhaust)
      have key_row: "tgt w key = Some row" and same: "tgt w1 = tgt w"
        using t row by auto
      let ?read = "each_op (\<lambda>relation. read_keys page_fuel backend relation row limits) relations (keys, pending')"
      obtain r2 w2 where all: "?read w1 = (r2, w2)" by (rule prod.exhaust)
      have "found_ok (li_max_keys limits) (keys, pending')"
        using Suc.prems(2) by (simp add: found found_ok_def)
      note a = read_all_outcome [OF all this Suc.prems(3)]
      have start: "drain_pending (Suc fuel) page_fuel backend limits schema found w
          = bind_op ?read (drain_pending fuel page_fuel backend limits schema) w1"
        using read row relations
        by (simp add: found Cons bind_op_def on_backend_def map_err_op_def lift_op_def schema_at_def)
      show ?thesis
      proof (cases r2)
        case (Inl e)
        with Suc.prems(1) start all a same show ?thesis by (auto simp: bind_op_def)
      next
        case (Inr found2)
        have ok: "found_ok (li_max_keys limits) found2" "found_more (rl_child_table ` set relations) (keys, pending') found2"
            "dependents_found deps (tgt w) relations row (fst found2)" "tgt w2 = tgt w"
          using a Inr same by auto
        from ok(2) obtain more where more: "snd found2 = more @ pending'" "set (fst found2) = set keys \<union> set more"
            "length (fst found2) = length keys + length more" "fst ` set more \<subseteq> rl_child_table ` set relations"
          unfolding found_more_def by auto
        have rest: "drain_pending fuel page_fuel backend limits schema found2 w2 = (r, w')"
          using Suc.prems(1) start all Inr by (simp add: bind_op_def)
        have child_tables: "rl_child_table ` set relations \<subseteq> dom (map_of schema)"
          using Suc.prems(5) relations by (auto simp: schema_closed_def)
        have "tgt w' = tgt w2 \<and> outcome (\<lambda>e. e = FkOutOfFuel \<or> e = FkPanic) (\<lambda>keys. bts_wf keys \<and> length keys \<le> li_max_keys limits
           \<and> set (fst found2) \<subseteq> set keys \<and> fst ` set keys \<subseteq> fst ` set (fst found2) \<union> schema_children schema
           \<and> closed_except deps (tgt w2) schema keys []) r"
        proof (rule Suc.IH [OF rest ok(1) Suc.prems(3) _ Suc.prems(5)])
          show "li_max_keys limits - length (fst found2) + length (snd found2) < fuel"
            using Suc.prems(4) ok(1) more(1,3) by (simp add: found Cons found_ok_def)
          show "fst ` set (snd found2) \<subseteq> dom (map_of schema)"
            using Suc.prems(6) more(1,4) child_tables by (auto simp: found Cons)
          show "closed_except deps (tgt w2) schema (fst found2) (snd found2)"
            unfolding closed_except_def
          proof (intro ballI allI impI)
            fix k relations' row'
            assume k: "k \<in> set (fst found2) - set (snd found2)" "map_of schema (fst k) = Some relations'" "tgt w2 k = Some row'"
            show "dependents_found deps (tgt w2) relations' row' (fst found2)"
            proof (cases "k = key")
              case True
              with k ok(3,4) relations key_row show ?thesis by simp
            next
              case False
              then have "k \<in> set keys - set pending"
                using k(1) more(1,2) by (auto simp: Cons)
              then have "dependents_found deps (tgt w) relations' row' keys"
                using Suc.prems(7) k(2,3) ok(4) by (auto simp: found closed_except_def)
              then show ?thesis
                using more(2) ok(4) by (auto intro: dependents_found_mono)
            qed
          qed
        qed
        moreover have "set keys \<subseteq> set (fst found2)" "fst ` set (fst found2) \<subseteq> fst ` set keys \<union> schema_children schema"
          using subset_trans [OF more(4) relation_children [OF relations]] unfolding more(2) image_Un by blast+
        ultimately show ?thesis
          unfolding found fst_conv ok(4) by (elim conjE) (intro conjI, simp, elim outcome_mono, blast)
      qed
    qed
  qed
qed

lemma load_schema_outcome:
  assumes "load_schema depth backend table st w = (r, w')" and "loading st" and "table \<in> tables"
    and "set (fst (snd st)) \<subseteq> tables" and "card (tables - set (fst (snd st))) < depth"
  shows "tgt w' = tgt w \<and> outcome (\<lambda>e. e = FkOutOfFuel \<or> e = FkPanic) (\<lambda>_. True) r"
  using assms
proof (induction depth arbitrary: table st w r w')
  case 0
  then show ?case by simp
next
  case (Suc depth)
  obtain schema visiting order where st: "st = (schema, visiting, order)"
    by (metis prod.exhaust)
  show ?case
  proof (cases "table \<in> set visiting \<or> map_of schema table \<noteq> None")
    case True
    with Suc.prems(1) show ?thesis
      by (auto simp: st ret_op_def fail_op_def split: if_splits)
  next
    case visit: False
    let ?f = "\<lambda>relation s. if \<not> valid_relation relation then fail_op InvalidRelation
      else load_schema depth backend (rl_child_table relation) s"
    let ?s0 = "(schema, bts_insert table visiting, order)"
    have "table \<notin> set order"
      using visit Suc.prems(2) by (auto simp: st loading_def schema_ordered_def)
    then have start: "loading ?s0 \<and> set (fst (snd ?s0)) = insert table (set visiting)"
      using Suc.prems(2) by (auto simp: st loading_def)
    have small: "card (tables - insert table (set visiting)) < depth"
    proof -
      have "table \<in> tables - set visiting"
        using Suc.prems(3) visit by blast
      moreover have "tables - insert table (set visiting) = (tables - set visiting) - {table}" by blast
      ultimately have "Suc (card (tables - insert table (set visiting))) = card (tables - set visiting)"
        using finite_tables card_Suc_Diff1 [of "tables - set visiting" table] by simp
      with Suc.prems(5) show ?thesis by (simp add: st)
    qed
    obtain r1 w1 where inc: "fb_incoming backend table w = (r1, w1)" by (rule prod.exhaust)
    note n = incoming [OF inc]
    show ?thesis
    proof (cases r1)
      case (Inl e)
      with Suc.prems(1) visit inc n show ?thesis
        by (auto simp: st bind_op_def on_backend_def map_err_op_def)
    next
      case relations: (Inr relations)
      have children: "rl_child_table ` set relations \<subseteq> tables" and same: "tgt w1 = tgt w"
        using n relations Suc.prems(3) by auto
      obtain r2 w2 where each: "each_op ?f relations ?s0 w1 = (r2, w2)" by (rule prod.exhaust)
      have "tgt w2 = tgt w \<and> outcome (\<lambda>e. e = FkOutOfFuel \<or> e = FkPanic) (\<lambda>s'. (loading s' \<and> set (fst (snd s')) = insert table (set visiting))
          \<and> True \<and> (\<forall>relation \<in> set relations. True)) r2"
      proof (rule each_op_outcome [where view = tgt and v = "tgt w" and R = "\<lambda>_ _. True" and Q = "\<lambda>_ _. True"
            and I = "\<lambda>s. loading s \<and> set (fst (snd s)) = insert table (set visiting)", OF each start same])
        fix relation s wa ra wb
        assume step: "relation \<in> set relations" "loading s \<and> set (fst (snd s)) = insert table (set visiting)" "tgt wa = tgt w"
          "?f relation s wa = (ra, wb)"
        show "tgt wb = tgt w \<and> outcome (\<lambda>e. e = FkOutOfFuel \<or> e = FkPanic)
            (\<lambda>s'. (loading s' \<and> set (fst (snd s')) = insert table (set visiting)) \<and> True \<and> True) ra"
        proof (cases "valid_relation relation")
          case False
          with step(3,4) show ?thesis by (auto simp: fail_op_def)
        next
          case True
          then have load: "load_schema depth backend (rl_child_table relation) s wa = (ra, wb)"
            using step(4) by simp
          have "tgt wb = tgt wa \<and> outcome (\<lambda>e. e = FkOutOfFuel \<or> e = FkPanic) (\<lambda>_. True) ra"
            by (rule Suc.IH [OF load]) (use step(1,2) children small Suc.prems(3,4) in \<open>auto simp: st\<close>)
          moreover have "loading s' \<and> set (fst (snd s')) = insert table (set visiting)" if "ra = Inr s'" for s'
            using load_schema_orders [OF load [unfolded that]] step(2) by (auto simp: loaded_more_def split: prod.splits)
          ultimately show ?thesis
            using step(3) by (cases ra) auto
        qed
      qed auto
      moreover have "(r, w') = (case r2 of Inl e \<Rightarrow> (Inl e, w2) | Inr (schema, visiting, order) \<Rightarrow>
          (Inr (btm_insert table relations schema, bts_remove table visiting, order @ [table]), w2))"
        using Suc.prems(1) visit inc relations each
        by (cases r2) (auto simp: st bind_op_def on_backend_def map_err_op_def ret_op_def split: prod.splits)
      ultimately show ?thesis
        by (auto split: sum.splits prod.splits)
    qed
  qed
qed

lemma discover_outcome:
  assumes "discover fuel backend root current old limits schema keys w = (r, w')"
    and "map_of schema (fst root) = Some relations" and "schema_closed schema"
    and "bts_wf keys" "length keys \<le> li_max_keys limits" "closed_except deps (tgt w) schema keys []" and "li_max_keys limits < fuel"
  shows "tgt w' = tgt w \<and> outcome (\<lambda>e. e = FkOutOfFuel \<or> e = FkPanic) (\<lambda>keys'. bts_wf keys' \<and> length keys' \<le> li_max_keys limits
     \<and> set keys \<subseteq> set keys' \<and> fst ` set keys' \<subseteq> fst ` set keys \<union> schema_children schema
     \<and> closed_except deps (tgt w) schema keys' []
     \<and> dependents_found deps (tgt w) (filter (detaches current old) relations) old keys') r"
proof -
  let ?detach = "\<lambda>relation. case current of Some current \<Rightarrow> changed relation current old | None \<Rightarrow> (Inr True :: 'e fk_error + bool)"
  let ?f = "\<lambda>relation found. bind_op (lift_op (?detach relation)) (\<lambda>detach_relation.
      if detach_relation then read_keys fuel backend relation old limits found else ret_op found)"
  let ?Q = "\<lambda>relation found. detaches current old relation \<longrightarrow>
      Pair (rl_child_table relation) ` set (deps (tgt w) relation old) \<subseteq> set (fst found)"
  let ?T = "rl_child_table ` set relations"
  have no_panic: "changed_parent_columns columns a b d = Inl e \<Longrightarrow> \<not> (e = FkOutOfFuel \<or> e = FkPanic)" for columns a b d and e :: "'e fk_error"
    by (induction columns a b d rule: changed_parent_columns.induct) (auto simp: bind_res_eq_Inl column_of_def ok_or_def split: option.splits)
  obtain r1 w1 where each: "each_op ?f relations (keys, []) w = (r1, w1)" by (rule prod.exhaust)
  have start: "found_ok (li_max_keys limits) (keys, [])"
    using assms(4,5) by (simp add: found_ok_def)
  have first: "tgt w1 = tgt w \<and> outcome (\<lambda>e. e = FkOutOfFuel \<or> e = FkPanic) (\<lambda>found. found_ok (li_max_keys limits) found
      \<and> found_more ?T (keys, []) found \<and> (\<forall>relation \<in> set relations. ?Q relation found)) r1"
  proof (rule each_op_outcome [where view = tgt and v = "tgt w" and I = "found_ok (li_max_keys limits)" and R = "found_more ?T"
        and Q = ?Q, OF each start refl])
    fix relation s wa ra wb
    assume step: "relation \<in> set relations" "found_ok (li_max_keys limits) s" "tgt wa = tgt w" "?f relation s wa = (ra, wb)"
    show "tgt wb = tgt w \<and> outcome (\<lambda>e. e = FkOutOfFuel \<or> e = FkPanic) (\<lambda>s'. found_ok (li_max_keys limits) s' \<and> found_more ?T s s' \<and> ?Q relation s') ra"
    proof (cases "?detach relation")
      case (Inl e)
      with step(3,4) no_panic show ?thesis
        by (auto simp: bind_op_def lift_op_def changed_def split: option.splits)
    next
      case (Inr d)
      then have d: "d \<longleftrightarrow> detaches current old relation"
        by (auto simp: detaches_def changed_def dest: changed_columns_tells split: option.splits)
      have sub: "{rl_child_table relation} \<subseteq> ?T" using step(1) by simp
      show ?thesis
      proof (cases d)
        case True
        then have read: "read_keys fuel backend relation old limits s wa = (ra, wb)"
          using step(4) Inr by (simp add: bind_op_def lift_op_def)
        from read_keys_outcome [OF read step(2) assms(7)] step(3) show ?thesis
          by (auto elim!: outcome_mono intro: found_more_mono [OF _ sub])
      next
        case False
        with step Inr d show ?thesis by (auto simp: bind_op_def lift_op_def ret_op_def)
      qed
    qed
  next
    show "?Q x b" if "?Q x a" "found_more ?T a b" for x a b
      using that(1) found_more_keys [OF that(2)] by blast
  qed (auto intro: found_more_trans)
  have run: "discover fuel backend root current old limits schema keys w
      = bind_op (each_op ?f relations (keys, [])) (drain_pending fuel fuel backend limits schema) w"
    using assms(2) by (simp add: discover_def schema_at_def bind_op_def lift_op_def)
  show ?thesis
  proof (cases r1)
    case (Inl e)
    with first run each assms(1) show ?thesis by (auto simp: bind_op_def)
  next
    case (Inr found)
    then have ok: "found_ok (li_max_keys limits) found" "found_more ?T (keys, []) found" "\<forall>relation \<in> set relations. ?Q relation found"
        "tgt w1 = tgt w"
      using first by auto
    from ok(2) obtain more where more: "snd found = more" "set (fst found) = set keys \<union> set more"
        "length (fst found) = length keys + length more" "fst ` set more \<subseteq> ?T"
      unfolding found_more_def by auto
    have drain: "drain_pending fuel fuel backend limits schema found w1 = (r, w')"
      using assms(1) run each Inr by (simp add: bind_op_def)
    have child_tables: "?T \<subseteq> dom (map_of schema)"
      using assms(2,3) by (auto simp: schema_closed_def)
    have closed: "closed_except deps (tgt w1) schema (fst found) (snd found)"
      using closed_except_more [OF assms(6) more(2)] by (simp add: more(1) ok(4))
    have "tgt w' = tgt w1 \<and> outcome (\<lambda>e. e = FkOutOfFuel \<or> e = FkPanic) (\<lambda>keys'. bts_wf keys' \<and> length keys' \<le> li_max_keys limits
       \<and> set (fst found) \<subseteq> set keys' \<and> fst ` set keys' \<subseteq> fst ` set (fst found) \<union> schema_children schema
       \<and> closed_except deps (tgt w1) schema keys' []) r"
      by (rule drain_outcome [OF drain ok(1) assms(7) _ assms(3) _ closed])
         (use ok(1) more child_tables assms(7) in \<open>auto simp: found_ok_def\<close>)
    moreover have "set keys \<subseteq> set (fst found)" "fst ` set (fst found) \<subseteq> fst ` set keys \<union> schema_children schema"
      using subset_trans [OF more(4) relation_children [OF assms(2)]] unfolding more(2) image_Un by blast+
    moreover have "dependents_found deps (tgt w) (filter (detaches current old) relations) old (fst found)"
      using ok(3) by (auto simp: dependents_found_def)
    ultimately show ?thesis
      unfolding ok(4) by (elim conjE) (intro conjI, simp, elim outcome_mono, blast intro: dependents_found_mono)
  qed
qed

lemma discover_transition_outcome:
  assumes "discover_transition depth fuel backend root current old limits w = (r, w')" and "fst root \<in> tables"
    and "card tables < depth" and "li_max_keys limits < fuel"
  shows "tgt w' = tgt w \<and> outcome (\<lambda>e. e = FkOutOfFuel \<or> e = FkPanic) (\<lambda>plan.
     schema_ordered (tp_schema plan) (tp_order plan) \<and> fst root \<in> set (tp_order plan)
     \<and> bts_wf (tp_keys plan) \<and> length (tp_keys plan) \<le> li_max_keys limits \<and> fst ` set (tp_keys plan) \<subseteq> set (tp_order plan) - {fst root}
     \<and> closed_except deps (tgt w) (tp_schema plan) (tp_keys plan) []
     \<and> dependents_found deps (tgt w) (filter (detaches current old) (the (map_of (tp_schema plan) (fst root)))) old (tp_keys plan)) r"
proof (cases "li_page_rows limits = 0 \<or> li_max_keys limits = 0")
  case True
  with assms(1) show ?thesis by (auto simp: discover_transition_def fail_op_def)
next
  case positive: False
  have start: "loading ([], [], [])"
    by (simp add: loading_def schema_ordered_def)
  obtain r1 w1 where load: "load_schema depth backend (fst root) ([], [], []) w = (r1, w1)" by (rule prod.exhaust)
  have l: "tgt w1 = tgt w \<and> outcome (\<lambda>e. e = FkOutOfFuel \<or> e = FkPanic) (\<lambda>_. True) r1"
    by (rule load_schema_outcome [OF load start assms(2)]) (use assms(3) in simp_all)
  show ?thesis
  proof (cases r1)
    case (Inl e)
    with assms(1) positive load l show ?thesis
      by (auto simp: discover_transition_def bind_op_def)
  next
    case (Inr st)
    obtain schema visiting order where st: "st = (schema, visiting, order)" by (metis prod.exhaust)
    have ordered: "schema_ordered schema order" "fst root \<in> set order" "last order = fst root"
      using load_schema_orders [OF load [unfolded Inr st] start] by (simp_all add: loading_def)
    then have children: "schema_children schema \<subseteq> set order - {fst root}"
    proof -
      have "order \<noteq> []"
        using ordered(2) by auto
      then have "fst root \<notin> schema_children schema"
        using last_table_no_child [OF ordered(1)] ordered(3) by simp
      moreover have "schema_children schema \<subseteq> set order"
        using schema_children_dom [OF schema_ordered_closed [OF ordered(1)]] ordered(1) by (simp add: schema_ordered_def)
      ultimately show ?thesis by blast
    qed
    from ordered obtain relations where relations: "map_of schema (fst root) = Some relations"
      by (auto simp: schema_ordered_def)
    obtain r2 w2 where disc: "discover fuel backend root current old limits schema [] w1 = (r2, w2)" by (rule prod.exhaust)
    have "tgt w2 = tgt w1 \<and> outcome (\<lambda>e. e = FkOutOfFuel \<or> e = FkPanic) (\<lambda>keys'. bts_wf keys' \<and> length keys' \<le> li_max_keys limits
       \<and> set ([] :: fk_row_key list) \<subseteq> set keys' \<and> fst ` set keys' \<subseteq> fst ` set ([] :: fk_row_key list) \<union> schema_children schema
       \<and> closed_except deps (tgt w1) schema keys' []
       \<and> dependents_found deps (tgt w1) (filter (detaches current old) relations) old keys') r2"
      by (rule discover_outcome [OF disc relations schema_ordered_closed [OF ordered(1)]])
         (use assms(4) in \<open>simp_all add: closed_except_def\<close>)
    moreover have "(r, w') = (case r2 of Inl e \<Rightarrow> (Inl e, w2) | Inr keys \<Rightarrow>
        (Inr \<lparr>tp_order = order, tp_keys = keys, tp_schema = schema\<rparr>, w2))"
      using assms(1) positive load Inr st disc
      by (cases r2) (auto simp: discover_transition_def bind_op_def ret_op_def)
    ultimately show ?thesis
      using l ordered relations children by (auto split: sum.splits)
  qed
qed

end

section \<open>Effect on the rows\<close>

lemma each_unit_simps:
  "each_unit f [] = ret_op ()"
  "each_unit f (x # xs) = bind_op (f x) (\<lambda>_. each_unit f xs)"
  by (simp_all add: each_unit_def)

lemma each_unit_append: "each_unit f (xs @ ys) = bind_op (each_unit f xs) (\<lambda>_. each_unit f ys)"
  by (induction xs) (auto simp: each_unit_simps fun_eq_iff bind_op_def ret_op_def split: prod.splits sum.splits)

lemma each_unit_concat: "each_unit (\<lambda>t. each_unit f (g t)) ts = each_unit f (concat (map g ts))"
  by (induction ts) (auto simp: each_unit_simps each_unit_append)

lemma set_keys_of_tables: "set (concat (map (keys_of_table keys) ts)) = {key \<in> set keys. fst key \<in> set ts}"
  by (auto simp: keys_of_table_def)

context fk_target
begin

lemma delete_all:
  "each_unit (\<lambda>key. on_backend (fb_delete backend key)) keys w = (Inr u, w') \<Longrightarrow>
     tgt w' = (\<lambda>k. if k \<in> set keys then None else tgt w k)"
proof (induction keys arbitrary: w)
  case Nil
  then show ?case by (simp add: each_unit_simps ret_op_def)
next
  case (Cons key keys)
  then obtain w1 where "fb_delete backend key w = (Inr (), w1)" "each_unit (\<lambda>key. on_backend (fb_delete backend key)) keys w1 = (Inr u, w')"
    by (auto simp: each_unit_simps bind_op_eq_Inr on_backend_def)
  with Cons.IH deletes show ?case
    by (fastforce simp: fun_eq_iff)
qed

lemma ensure_parent_rows_moves:
  assumes "ensure_parent_rows backend child desired w = (r, w')"
  shows "tgt w' k = tgt w k \<or> tgt w' k = src k"
proof -
  obtain r1 w1 where p: "fb_ensure_parents backend (fst child) desired w = (r1, w1)" by (rule prod.exhaust)
  have "w' = w1"
    using assms p by (auto simp: ensure_parent_rows_def bind_op_def on_backend_def map_err_op_def ret_op_def fail_op_def
        split: sum.splits list.splits)
  with parents [OF p] show ?thesis by simp
qed

lemma restore_row_moves:
  assumes "restore_row backend key w = (Inr u, w')" and "tgt w key = None \<or> tgt w key = src key"
  shows "tgt w' key = src key" and "tgt w' k = tgt w k \<or> tgt w' k = src k"
proof -
  obtain row w1 where read: "fb_source_row backend key w = (Inr row, w1)"
    using assms(1) by (auto simp: restore_row_def bind_op_eq_Inr on_backend_def)
  note s = source_rows [OF read]
  have "tgt w' key = src key \<and> (\<forall>k. tgt w' k = tgt w k \<or> tgt w' k = src k)"
  proof (cases "src key")
    case None
    then have "w' = w1"
      using assms(1) read s by (auto simp: restore_row_def bind_op_eq_Inr on_backend_def ret_op_def)
    with s None assms(2) show ?thesis by auto
  next
    case (Some desired)
    then obtain w2 where e: "ensure_parent_rows backend key desired w1 = (Inr (), w2)"
        and i: "fb_insert backend key desired w2 = (Inr u, w')"
      using assms(1) read s by (auto simp: restore_row_def bind_op_eq_Inr on_backend_def)
    show ?thesis
      using ensure_parent_rows_moves [OF e] inserts [OF i] s Some by (auto simp: fun_upd_def)
  qed
  then show "tgt w' key = src key" "tgt w' k = tgt w k \<or> tgt w' k = src k" by blast+
qed

lemma restore_all:
  assumes "each_unit (restore_row backend) keys w = (Inr u, w')"
    and "\<forall>key \<in> set keys. key \<noteq> root \<longrightarrow> tgt w key = None \<or> tgt w key = src key"
    and "root \<notin> set keys"
  shows "(\<forall>key \<in> set keys. tgt w' key = src key) \<and> (\<forall>k. tgt w' k = tgt w k \<or> tgt w' k = src k)"
  using assms
proof (induction keys arbitrary: w)
  case Nil
  then show ?case by (simp add: each_unit_simps ret_op_def)
next
  case (Cons key keys)
  obtain w1 where first: "restore_row backend key w = (Inr (), w1)" and rest: "each_unit (restore_row backend) keys w1 = (Inr u, w')"
    using Cons.prems(1) by (auto simp: each_unit_simps bind_op_eq_Inr)
  have moved: "tgt w1 key = src key" "\<And>k. tgt w1 k = tgt w k \<or> tgt w1 k = src k"
    using restore_row_moves [OF first] Cons.prems(2,3) by auto
  have ih: "(\<forall>key \<in> set keys. tgt w' key = src key) \<and> (\<forall>k. tgt w' k = tgt w1 k \<or> tgt w' k = src k)"
  proof (rule Cons.IH [OF rest])
    show "\<forall>key \<in> set keys. key \<noteq> root \<longrightarrow> tgt w1 key = None \<or> tgt w1 key = src key"
      using Cons.prems(2) moved(2) by (metis list.set_intros(2))
    show "root \<notin> set keys"
      using Cons.prems(3) by simp
  qed
  with moved show ?case
    by (metis set_ConsD)
qed

end

text \<open>A successful transition on the rows: the discovered rows hold what the source holds, every other row is
  kept or set to its source value, and the root row is the new one or, where restoring a parent touched it, the
  source row.\<close>

context fk_target
begin

lemma transition_rows:
  assumes "transition depth fuel backend root current old limits w = (Inr u, w')" and "fst root \<in> tables"
    and "card tables < depth" and "li_max_keys limits < fuel"
  shows "\<exists>plan. fst (discover_transition depth fuel backend root (Some current) old limits w) = Inr plan
     \<and> (\<forall>key \<in> set (tp_keys plan). tgt w' key = src key)
     \<and> (\<forall>k. k \<noteq> root \<longrightarrow> k \<notin> set (tp_keys plan) \<longrightarrow> tgt w' k = tgt w k \<or> tgt w' k = src k)
     \<and> (tgt w' root = Some current \<or> tgt w' root = src root)"
proof -
  obtain plan w1 w2 w3 w4 where
      discover: "discover_transition depth fuel backend root (Some current) old limits w = (Inr plan, w1)"
    and detached: "detach backend (tp_order plan) (tp_keys plan) w1 = (Inr (), w2)"
    and ensured: "ensure_parent_rows backend root current w2 = (Inr (), w3)"
    and updated: "fb_update backend root current w3 = (Inr (), w4)"
    and restored: "restore backend (tp_order plan) (tp_keys plan) w4 = (Inr u, w')"
    using assms(1) by (auto simp: transition_def bind_op_eq_Inr on_backend_def)
  have found: "tgt w1 = tgt w" "fst ` set (tp_keys plan) \<subseteq> set (tp_order plan) - {fst root}"
    using discover_transition_outcome [OF discover assms(2-4)] by auto
  let ?all = "\<lambda>ts. concat (map (keys_of_table (tp_keys plan)) ts)"
  have sets: "set (?all (tp_order plan)) = set (tp_keys plan)" "set (?all (rev (tp_order plan))) = set (tp_keys plan)"
    using found(2) unfolding set_keys_of_tables by auto
  have outside: "root \<notin> set (tp_keys plan)"
    using found(2) by blast
  have gone: "tgt w2 = (\<lambda>k. if k \<in> set (tp_keys plan) then None else tgt w k)"
    using delete_all [OF detached [unfolded detach_def each_unit_concat]] unfolding sets found(1) .
  have ready: "tgt w4 k = (if k = root then Some current else tgt w3 k)" for k
    using updates [OF updated] by auto
  have kept: "tgt w3 k = tgt w2 k \<or> tgt w3 k = src k" for k
    using ensure_parent_rows_moves [OF ensured] .
  have "(\<forall>key \<in> set (tp_keys plan). tgt w' key = src key) \<and> (\<forall>k. tgt w' k = tgt w4 k \<or> tgt w' k = src k)"
    using restore_all [OF restored [unfolded restore_def each_unit_concat], of root] outside gone ready kept
    unfolding sets by (metis (no_types, lifting))
  moreover have "tgt w4 k = tgt w k \<or> tgt w4 k = src k" if "k \<noteq> root" "k \<notin> set (tp_keys plan)" for k
    using that gone ready kept [of k] by auto
  ultimately show ?thesis
    using discover ready [of root] by (intro exI [of _ plan]) (metis fst_conv)
qed

end

end
