(* ===== verification/Fk_Rows.thy ===== *)
theory Fk_Rows
  imports Fk_Transition_Correct
begin

text \<open>
  A target with a parent and a child table in memory, and the properties of coordinated row changes: the
  discovery is complete and always ends, and a successful transition leaves source values behind.
\<close>

section \<open>A target in memory\<close>

definition album_relation :: fk_relation where
  "album_relation = \<lparr>rl_child_table = ''tracks'', rl_child_columns = [''album''], rl_parent_columns = [''code'']\<rparr>"

definition album_key :: fk_row_key where
  "album_key = (''albums'', [''1''])"

definition album_row :: "string \<Rightarrow> fk_row" where
  "album_row code = [(''code'', Some code), (''id'', Some ''1'')]"

definition track_row :: "string \<Rightarrow> string \<Rightarrow> fk_row" where
  "track_row track code = [(''album'', Some code), (''id'', Some track)]"

definition album_source :: "(fk_row_key \<times> fk_row) list" where
  "album_source = [(album_key, album_row ''new''), ((''tracks'', [''7'']), track_row ''7'' ''new'')]"

type_synonym memory_rows = "(fk_row_key \<times> fk_row) list"

text \<open>The keys of the example, in key order; a child references its parent when the referenced columns hold
  the same values and none of them is \<open>NULL\<close>.\<close>

definition track_keys :: "row_key list" where
  "track_keys = [[''7''], [''8''], [''9'']]"

definition references :: "fk_relation \<Rightarrow> fk_row \<Rightarrow> fk_row \<Rightarrow> bool" where
  "references relation child parent \<longleftrightarrow>
     list_all (\<lambda>(c, p). map_of child c \<noteq> Some None \<and> map_of child c \<noteq> None \<and> map_of child c = map_of parent p)
       (zip (rl_child_columns relation) (rl_parent_columns relation))"

definition memory_deps :: fk_dependents where
  "memory_deps rows relation old =
     filter (\<lambda>pk. case rows (rl_child_table relation, pk) of None \<Rightarrow> False | Some child \<Rightarrow> references relation child old) track_keys"

definition memory_fk :: "(memory_rows, string) fk_backend" where
  "memory_fk =
     \<lparr>fb_incoming = (\<lambda>table w. (Inr (if table = ''albums'' then [album_relation] else []), w)),
      fb_dependent_page = (\<lambda>relation old after n _ w.
        (Inr (take (max 1 n) (keys_after after (memory_deps (map_of w) relation old))), w)),
      fb_target_row = (\<lambda>key w. (Inr (map_of w key), w)),
      fb_source_row = (\<lambda>key w. (Inr (map_of album_source key), w)),
      fb_ensure_parents = (\<lambda>_ _ w. (Inr [], w)),
      fb_delete = (\<lambda>key w. if map_of w key = None then (Inl ''absent'', w) else (Inr (), btm_remove key w)),
      fb_update = (\<lambda>key desired w. if map_of w key = None then (Inl ''absent'', w) else (Inr (), (key, desired) # btm_remove key w)),
      fb_insert = (\<lambda>key desired w. if map_of w key = None then (Inr (), (key, desired) # w) else (Inl ''duplicate'', w))\<rparr>"

interpretation album_fk: fk_target memory_fk "map_of album_source" map_of memory_deps "{''albums'', ''tracks''}"
proof unfold_locales
  show "distinct (memory_deps rows relation old)" for rows relation old
    by (simp add: memory_deps_def track_keys_def)
qed (auto simp: memory_fk_def album_relation_def fun_eq_iff max_def intro: exI [of _ "max 1 _"] split: if_splits)

definition album_target :: memory_rows where
  "album_target =
     [(album_key, album_row ''old''), ((''tracks'', [''7'']), track_row ''7'' ''old''), ((''tracks'', [''8'']), track_row ''8'' ''old''),
      ((''tracks'', [''9'']), track_row ''9'' ''other'')]"

definition small_limits :: fk_limits where
  "small_limits = \<lparr>li_page_rows = 1, li_max_keys = 10\<rparr>"

section \<open>Properties\<close>

text \<open>C6. The discovery of a row change is complete and always ends. With fuel beyond the number of tables and
  the configured number of keys it neither runs out of fuel nor indexes a missing table, on any outcome, and
  leaves the target as it is. When it succeeds, the tables are ordered with every referencing table before
  the table it references, every key belongs to a table of the order other than the root's, every row that
  references a changed column of the root is found, and so is every row that references a found row, within
  the limit on keys.
\<close>

theorem fk_discovery_complete:
  assumes "fk_target backend src tgt deps tables" and "fst root \<in> tables"
    and "card tables < depth" and "li_max_keys limits < fuel"
    and "discover_transition depth fuel backend root current old limits w = (r, w')"
  shows "tgt w' = tgt w
     \<and> (case r of
          Inl e \<Rightarrow> e \<noteq> FkOutOfFuel \<and> e \<noteq> FkPanic
        | Inr plan \<Rightarrow>
            schema_ordered (tp_schema plan) (tp_order plan) \<and> fst root \<in> set (tp_order plan)
            \<and> length (tp_keys plan) \<le> li_max_keys limits \<and> fst ` set (tp_keys plan) \<subseteq> set (tp_order plan) - {fst root}
            \<and> dependents_found deps (tgt w) (filter (detaches current old) (the (map_of (tp_schema plan) (fst root)))) old (tp_keys plan)
            \<and> closed_except deps (tgt w) (tp_schema plan) (tp_keys plan) [])"
  using fk_target.discover_transition_outcome [OF assms(1,5,2-4)] by (cases r) auto

theorem fk_discovery_complete_witness:
  "dependents_found memory_deps (map_of album_target) [album_relation] (album_row ''old'') [(''tracks'', [''7'']), (''tracks'', [''8''])]
   \<and> map_option tp_order (case fst (discover_transition 3 11 memory_fk album_key (Some (album_row ''new'')) (album_row ''old'') small_limits album_target)
       of Inr plan \<Rightarrow> Some plan | Inl _ \<Rightarrow> None) = Some [''tracks'', ''albums'']"
proof -
  let ?run = "discover_transition 3 11 memory_fk album_key (Some (album_row ''new'')) (album_row ''old'') small_limits album_target"
  have "(case fst ?run of Inr plan \<Rightarrow> tp_keys plan = [(''tracks'', [''7'']), (''tracks'', [''8''])] \<and> tp_order plan = [''tracks'', ''albums'']
      \<and> tp_schema plan = [(''albums'', [album_relation]), (''tracks'', [])] | Inl _ \<Rightarrow> False)"
    by code_simp
  then obtain plan where plan: "?run = (Inr plan, snd ?run)" "tp_keys plan = [(''tracks'', [''7'']), (''tracks'', [''8''])]"
      "tp_order plan = [''tracks'', ''albums'']" "tp_schema plan = [(''albums'', [album_relation]), (''tracks'', [])]"
    by (cases ?run) (auto split: sum.splits)
  have "detaches (Some (album_row ''new'')) (album_row ''old'') album_relation"
    by code_simp
  moreover have "fst album_key = ''albums''" "card {''albums'', ''tracks''} < 3" "li_max_keys small_limits < 11"
    by (simp_all add: album_key_def small_limits_def card_insert_if)
  ultimately show ?thesis
    using fk_discovery_complete [OF album_fk.fk_target_axioms _ _ _ plan(1)] plan by (simp add: small_limits_def) (metis fst_conv sum.case(2) option.map(2))
qed

text \<open>C5. A successful row change only moves the target towards the source. Every discovered dependent row
  holds exactly what the source holds, absent where the source has no such row; every other row keeps its
  value or takes its source value; and the root row is the requested one, or the source row where restoring
  a parent touched it.
\<close>

theorem fk_transition_restores:
  assumes "fk_target backend src tgt deps tables" and "fst root \<in> tables"
    and "card tables < depth" and "li_max_keys limits < fuel"
    and "transition depth fuel backend root current old limits w = (Inr u, w')"
  shows "\<exists>plan. fst (discover_transition depth fuel backend root (Some current) old limits w) = Inr plan
     \<and> (\<forall>key \<in> set (tp_keys plan). tgt w' key = src key)
     \<and> (\<forall>k. k \<noteq> root \<longrightarrow> k \<notin> set (tp_keys plan) \<longrightarrow> tgt w' k = tgt w k \<or> tgt w' k = src k)
     \<and> (tgt w' root = Some current \<or> tgt w' root = src root)"
  using fk_target.transition_rows [OF assms(1,5,2-4)] .

theorem fk_transition_restores_witness:
  "map_of (snd (transition 3 11 memory_fk album_key (album_row ''new'') (album_row ''old'') small_limits album_target)) album_key
     = Some (album_row ''new'')
   \<and> map_of (snd (transition 3 11 memory_fk album_key (album_row ''new'') (album_row ''old'') small_limits album_target)) (''tracks'', [''8'']) = None"
proof -
  let ?run = "transition 3 11 memory_fk album_key (album_row ''new'') (album_row ''old'') small_limits album_target"
  have "(case fst ?run of Inr _ \<Rightarrow> True | Inl _ \<Rightarrow> False)"
    by code_simp
  then have run: "?run = (Inr (), snd ?run)"
    by (cases ?run) (auto split: sum.splits)
  have "fst album_key = ''albums''" "card {''albums'', ''tracks''} < 3" "li_max_keys small_limits < 11"
      "map_of album_source album_key = Some (album_row ''new'')"
    by (simp_all add: album_key_def small_limits_def card_insert_if album_source_def)
  with fk_transition_restores [OF album_fk.fk_target_axioms _ _ _ run]
  have "map_of (snd ?run) album_key = Some (album_row ''new'')"
    by auto
  moreover have "map_of (snd ?run) (''tracks'', [''8'']) = None"
    by code_simp
  ultimately show ?thesis by blast
qed

end
