(* ===== verification/Fk_Orphan.thy ===== *)
theory Fk_Orphan
  imports Guest_Range Sync_Adapter
begin

text \<open>
  Repair of rows whose parent is missing (\<open>src/src/sync/fk_orphan_repair.rs\<close>): the fixed list of foreign
  keys, the command options, and the repair of the orphans in batches: an orphan whose source row is
  gone is deleted, any other gets the source row after its parent was checked or restored. The backend
  trait is a record of operations. \<open>serde_json\<close> enters as the two texts of keys that are printed
  (\<open>json_key\<close>, \<open>json_keys\<close>); printing itself is left out.
\<close>

section \<open>The repairable foreign keys\<close>

datatype fk_orphan_repair_case =
    ArtistsFavorites
  | Comics
  | PhrasesSuggestions
  | ForumsReplies
  | ComicsLangsCategory
  | ComicsLangsType
  | ReleasesName
  | ReleasesType
  | ReleasesCategory
  | ReleasesVisibility
  | ReleasesId
  | ReleasesSlug
  | ReleasesShowInList
  | ReleasesFormat

record repair_case_spec =
  rs_name :: string
  rs_constraint_name :: string
  rs_child_table :: string
  rs_child_primary_key :: "string list"
  rs_child_foreign_key :: "string list"
  rs_parent_table :: string
  rs_parent_primary_key :: "string list"
  rs_parent_key :: "string list"
  rs_update_rule :: string
  rs_delete_rule :: string

definition restores_comics_parent :: "repair_case_spec \<Rightarrow> bool" where
  "restores_comics_parent spec \<longleftrightarrow>
     rs_name spec \<in> {''comics-langs-category'', ''comics-langs-type'', ''releases-name'', ''releases-type'',
       ''releases-category'', ''releases-visibility'', ''releases-id'', ''releases-slug'',
       ''releases-show-in-list'', ''releases-format''}"

definition parse_repair_case :: "string \<Rightarrow> string + fk_orphan_repair_case" where
  "parse_repair_case value_text =
     ok_or (''unknown FK orphan repair case: '' @ value_text) (map_of
       [(''artists-favorites'', ArtistsFavorites), (''comics'', Comics),
        (''phrases-suggestions'', PhrasesSuggestions), (''forums-replies'', ForumsReplies),
        (''comics-langs-category'', ComicsLangsCategory), (''comics-langs-type'', ComicsLangsType),
        (''releases-name'', ReleasesName), (''releases-type'', ReleasesType),
        (''releases-category'', ReleasesCategory), (''releases-visibility'', ReleasesVisibility),
        (''releases-id'', ReleasesId), (''releases-slug'', ReleasesSlug),
        (''releases-show-in-list'', ReleasesShowInList), (''releases-format'', ReleasesFormat)] value_text)"

fun repair_spec :: "fk_orphan_repair_case \<Rightarrow> repair_case_spec" where
  "repair_spec ArtistsFavorites =
     \<lparr>rs_name = ''artists-favorites'', rs_constraint_name = ''artists_favorites_ibfk_2'', rs_child_table = ''artists_favorites'',
      rs_child_primary_key = [''id''], rs_child_foreign_key = [''user_id'', ''user_username''], rs_parent_table = ''users'',
      rs_parent_primary_key = [''id''], rs_parent_key = [''id'', ''name''], rs_update_rule = ''CASCADE'', rs_delete_rule = ''RESTRICT''\<rparr>"
| "repair_spec Comics =
     \<lparr>rs_name = ''comics'', rs_constraint_name = ''comics_ibfk_5'', rs_child_table = ''comics'',
      rs_child_primary_key = [''id''], rs_child_foreign_key = [''artist_id'', ''artist_name''], rs_parent_table = ''artists'',
      rs_parent_primary_key = [''id''], rs_parent_key = [''id'', ''name''], rs_update_rule = ''CASCADE'', rs_delete_rule = ''RESTRICT''\<rparr>"
| "repair_spec PhrasesSuggestions =
     \<lparr>rs_name = ''phrases-suggestions'', rs_constraint_name = ''phrases_suggestions_ibfk_1'', rs_child_table = ''phrases_suggestions'',
      rs_child_primary_key = [''id'', ''lang'', ''author_id''], rs_child_foreign_key = [''author_id'', ''author_username''], rs_parent_table = ''users'',
      rs_parent_primary_key = [''id''], rs_parent_key = [''id'', ''name''], rs_update_rule = ''CASCADE'', rs_delete_rule = ''CASCADE''\<rparr>"
| "repair_spec ForumsReplies =
     \<lparr>rs_name = ''forums-replies'', rs_constraint_name = ''forums_replies_ibfk_2'', rs_child_table = ''forums_replies'',
      rs_child_primary_key = [''id''], rs_child_foreign_key = [''author_id'', ''author_username''], rs_parent_table = ''users'',
      rs_parent_primary_key = [''id''], rs_parent_key = [''id'', ''name''], rs_update_rule = ''CASCADE'', rs_delete_rule = ''RESTRICT''\<rparr>"
| "repair_spec ComicsLangsCategory =
     \<lparr>rs_name = ''comics-langs-category'', rs_constraint_name = ''ibfk_accl_category'', rs_child_table = ''comics_langs'',
      rs_child_primary_key = [''id''], rs_child_foreign_key = [''comic_id'', ''comic_category_id''], rs_parent_table = ''comics'',
      rs_parent_primary_key = [''id''], rs_parent_key = [''id'', ''section_id''], rs_update_rule = ''CASCADE'', rs_delete_rule = ''RESTRICT''\<rparr>"
| "repair_spec ComicsLangsType =
     \<lparr>rs_name = ''comics-langs-type'', rs_constraint_name = ''ibfk_accl_type'', rs_child_table = ''comics_langs'',
      rs_child_primary_key = [''id''], rs_child_foreign_key = [''comic_id'', ''comic_type_id''], rs_parent_table = ''comics'',
      rs_parent_primary_key = [''id''], rs_parent_key = [''id'', ''comic_type_id''], rs_update_rule = ''CASCADE'', rs_delete_rule = ''RESTRICT''\<rparr>"
| "repair_spec ReleasesName =
     \<lparr>rs_name = ''releases-name'', rs_constraint_name = ''releases_ibfk_1'', rs_child_table = ''releases'',
      rs_child_primary_key = [''id''], rs_child_foreign_key = [''comic_id'', ''comic_name''], rs_parent_table = ''comics'',
      rs_parent_primary_key = [''id''], rs_parent_key = [''id'', ''name''], rs_update_rule = ''CASCADE'', rs_delete_rule = ''RESTRICT''\<rparr>"
| "repair_spec ReleasesType =
     \<lparr>rs_name = ''releases-type'', rs_constraint_name = ''releases_ibfk_10'', rs_child_table = ''releases'',
      rs_child_primary_key = [''id''], rs_child_foreign_key = [''comic_id'', ''comic_type_id''], rs_parent_table = ''comics'',
      rs_parent_primary_key = [''id''], rs_parent_key = [''id'', ''comic_type_id''], rs_update_rule = ''CASCADE'', rs_delete_rule = ''RESTRICT''\<rparr>"
| "repair_spec ReleasesCategory =
     \<lparr>rs_name = ''releases-category'', rs_constraint_name = ''releases_ibfk_2'', rs_child_table = ''releases'',
      rs_child_primary_key = [''id''], rs_child_foreign_key = [''comic_id'', ''comic_category_id''], rs_parent_table = ''comics'',
      rs_parent_primary_key = [''id''], rs_parent_key = [''id'', ''section_id''], rs_update_rule = ''CASCADE'', rs_delete_rule = ''RESTRICT''\<rparr>"
| "repair_spec ReleasesVisibility =
     \<lparr>rs_name = ''releases-visibility'', rs_constraint_name = ''releases_ibfk_3'', rs_child_table = ''releases'',
      rs_child_primary_key = [''id''], rs_child_foreign_key = [''comic_id'', ''comic_is_visible''], rs_parent_table = ''comics'',
      rs_parent_primary_key = [''id''], rs_parent_key = [''id'', ''is_visible''], rs_update_rule = ''CASCADE'', rs_delete_rule = ''RESTRICT''\<rparr>"
| "repair_spec ReleasesId =
     \<lparr>rs_name = ''releases-id'', rs_constraint_name = ''releases_ibfk_6'', rs_child_table = ''releases'',
      rs_child_primary_key = [''id''], rs_child_foreign_key = [''comic_id''], rs_parent_table = ''comics'',
      rs_parent_primary_key = [''id''], rs_parent_key = [''id''], rs_update_rule = ''CASCADE'', rs_delete_rule = ''RESTRICT''\<rparr>"
| "repair_spec ReleasesSlug =
     \<lparr>rs_name = ''releases-slug'', rs_constraint_name = ''releases_ibfk_7'', rs_child_table = ''releases'',
      rs_child_primary_key = [''id''], rs_child_foreign_key = [''comic_slug''], rs_parent_table = ''comics'',
      rs_parent_primary_key = [''id''], rs_parent_key = [''slug''], rs_update_rule = ''CASCADE'', rs_delete_rule = ''RESTRICT''\<rparr>"
| "repair_spec ReleasesShowInList =
     \<lparr>rs_name = ''releases-show-in-list'', rs_constraint_name = ''releases_ibfk_9'', rs_child_table = ''releases'',
      rs_child_primary_key = [''id''], rs_child_foreign_key = [''comic_id'', ''comic_show_in_list''], rs_parent_table = ''comics'',
      rs_parent_primary_key = [''id''], rs_parent_key = [''id'', ''show_in_list''], rs_update_rule = ''CASCADE'', rs_delete_rule = ''RESTRICT''\<rparr>"
| "repair_spec ReleasesFormat =
     \<lparr>rs_name = ''releases-format'', rs_constraint_name = ''releases_ibfk_format'', rs_child_table = ''releases'',
      rs_child_primary_key = [''id''], rs_child_foreign_key = [''comic_id'', ''comic_format_id''], rs_parent_table = ''comics'',
      rs_parent_primary_key = [''id''], rs_parent_key = [''id'', ''comic_format_id''], rs_update_rule = ''CASCADE'', rs_delete_rule = ''RESTRICT''\<rparr>"

section \<open>Configuration\<close>

record fk_orphan_repair_config =
  oc_source :: mysql_connection_config
  oc_target :: target_mysql_config
  oc_case :: fk_orphan_repair_case
  oc_expected_orphans :: nat
  oc_batch_size :: nat
  oc_limit :: nat

record orphan_config_builder =
  bu_source :: mysql_connection_config
  bu_target :: target_mysql_config
  bu_case :: "fk_orphan_repair_case option"
  bu_expected_orphans :: "nat option"
  bu_batch_size :: nat
  bu_limit :: nat

definition default_orphan_builder :: orphan_config_builder where
  "default_orphan_builder =
     \<lparr>bu_source = default_mysql_connection_config, bu_target = default_target_mysql_config, bu_case = None,
      bu_expected_orphans = None, bu_batch_size = 50, bu_limit = 1000\<rparr>"

definition parse_usize :: "string \<Rightarrow> string \<Rightarrow> string + nat" where
  "parse_usize flag value_text =
     bind_res (ok_or (flag @ '' must be an integer'') (parse_u64 value_text)) (\<lambda>n. Inr (unat n))"

definition set_once :: "'a option \<Rightarrow> 'a \<Rightarrow> string \<Rightarrow> string + 'a option" where
  "set_once slot new_value flag =
     (if slot \<noteq> None then Inl (flag @ '' may be specified only once'') else Inr (Some new_value))"

definition apply_orphan_option ::
  "(string \<Rightarrow> string option) \<Rightarrow> orphan_config_builder \<Rightarrow> string \<Rightarrow> string \<Rightarrow> string + orphan_config_builder"
where
  "apply_orphan_option getenv builder flag value_text =
     bind_res (apply_source_option getenv (bu_source builder) flag value_text) (\<lambda>source.
       case source of
         Some source \<Rightarrow> Inr (builder\<lparr>bu_source := source\<rparr>)
       | None \<Rightarrow>
     bind_res (apply_target_option getenv (bu_target builder) flag value_text) (\<lambda>target.
       case target of
         Some target \<Rightarrow> Inr (builder\<lparr>bu_target := target\<rparr>)
       | None \<Rightarrow>
         if flag = ''--case'' then
           bind_res (parse_repair_case value_text) (\<lambda>repair.
           bind_res (set_once (bu_case builder) repair flag) (\<lambda>slot. Inr (builder\<lparr>bu_case := slot\<rparr>)))
         else if flag = ''--expected-orphans'' then
           bind_res (parse_usize flag value_text) (\<lambda>n.
           bind_res (set_once (bu_expected_orphans builder) n flag) (\<lambda>slot. Inr (builder\<lparr>bu_expected_orphans := slot\<rparr>)))
         else if flag = ''--batch-size'' then
           bind_res (parse_usize flag value_text) (\<lambda>n. Inr (builder\<lparr>bu_batch_size := n\<rparr>))
         else if flag = ''--limit'' then
           bind_res (parse_usize flag value_text) (\<lambda>n. Inr (builder\<lparr>bu_limit := n\<rparr>))
         else Inl (''unknown repair-fk-orphans option: '' @ flag)))"

definition require_value :: "string \<Rightarrow> string \<Rightarrow> string + unit" where
  "require_value value_text message = (if is_blank value_text then Inl message else Inr ())"

definition validate_fk_orphan_repair_config :: "fk_orphan_repair_config \<Rightarrow> string + unit" where
  "validate_fk_orphan_repair_config config =
     bind_res (require_value (mc_host (oc_source config)) ''source host is required'') (\<lambda>_.
     bind_res (require_value (mc_user (oc_source config)) ''source user is required'') (\<lambda>_.
     bind_res (require_value (mc_password (oc_source config)) ''source password is required'') (\<lambda>_.
     bind_res (require_value (mc_database (oc_source config)) ''source database is required'') (\<lambda>_.
     bind_res (require_value (tc_host (oc_target config)) ''target host is required'') (\<lambda>_.
     bind_res (require_value (tc_user (oc_target config)) ''target user is required'') (\<lambda>_.
     bind_res (require_value (tc_password (oc_target config)) ''target password is required'') (\<lambda>_.
     bind_res (require_value (tc_database (oc_target config)) ''target database is required'') (\<lambda>_.
     bind_res (require_value (tc_tls_ca_file (oc_target config)) ''target TLS CA file is required'') (\<lambda>_.
       if oc_batch_size config = 0 \<or> 100 < oc_batch_size config then Inl ''batch size must be between 1 and 100''
       else if oc_limit config = 0 \<or> 1000 < oc_limit config then Inl ''limit must be between 1 and 1000''
       else if oc_limit config < oc_expected_orphans config then
         Inl (''expected orphan count '' @ nat_str (oc_expected_orphans config) @ '' exceeds limit '' @ nat_str (oc_limit config))
       else Inr ())))))))))"

definition finish_orphan_config :: "orphan_config_builder \<Rightarrow> string + fk_orphan_repair_config" where
  "finish_orphan_config builder =
     bind_res (ok_or ''--case is required'' (bu_case builder)) (\<lambda>repair.
     bind_res (ok_or ''--expected-orphans is required'' (bu_expected_orphans builder)) (\<lambda>expected.
       let config = \<lparr>oc_source = bu_source builder, oc_target = bu_target builder, oc_case = repair,
                     oc_expected_orphans = expected, oc_batch_size = bu_batch_size builder, oc_limit = bu_limit builder\<rparr> in
       bind_res (validate_fk_orphan_repair_config config) (\<lambda>_. Inr config)))"

fun apply_orphan_options ::
  "(string \<Rightarrow> string option) \<Rightarrow> orphan_config_builder \<Rightarrow> string list \<Rightarrow> string + orphan_config_builder"
where
  "apply_orphan_options getenv builder (flag # value_text # args) =
     bind_res (apply_orphan_option getenv builder flag value_text) (\<lambda>builder. apply_orphan_options getenv builder args)"
| "apply_orphan_options getenv builder [flag] = Inl (flag @ '' needs a value'')"
| "apply_orphan_options getenv builder [] = Inr builder"

definition parse_fk_orphan_repair_config :: "(string \<Rightarrow> string option) \<Rightarrow> string list \<Rightarrow> string + fk_orphan_repair_config" where
  "parse_fk_orphan_repair_config getenv args =
     bind_res (apply_orphan_options getenv default_orphan_builder args) finish_orphan_config"

section \<open>The backend\<close>

record artist_metadata =
  am_source :: sync_table
  am_target :: sync_table

record repair_metadata =
  rm_source_child :: sync_table
  rm_target_child :: sync_table
  rm_source_parent :: sync_table
  rm_target_parent :: sync_table
  rm_artists :: "artist_metadata option"

record repaired_artist =
  ra_source :: database_row
  ra_inserted :: bool

record fk_orphan_repair_report =
  or_planned :: nat
  or_examined :: nat
  or_updated :: nat
  or_deleted :: nat
  or_unchanged :: nat
  or_skipped :: nat
  or_remaining :: nat

record 'w fk_orphan_repair_backend =
  ob_validate_case :: "repair_case_spec \<Rightarrow> ('w, string, repair_metadata) op"
  ob_orphan_keys :: "repair_case_spec \<Rightarrow> repair_metadata \<Rightarrow> nat \<Rightarrow> ('w, string, row_key list) op"
  ob_begin_batch :: "repair_case_spec \<Rightarrow> repair_metadata \<Rightarrow> ('w, string, unit) op"
  ob_is_target_orphan :: "repair_case_spec \<Rightarrow> repair_metadata \<Rightarrow> row_key \<Rightarrow> ('w, string, bool) op"
  ob_read_source_child :: "repair_metadata \<Rightarrow> row_key \<Rightarrow> ('w, string, database_row option) op"
  ob_read_source_parent :: "repair_case_spec \<Rightarrow> repair_metadata \<Rightarrow> database_row \<Rightarrow> ('w, string, database_row option) op"
  ob_read_target_child :: "repair_metadata \<Rightarrow> row_key \<Rightarrow> ('w, string, database_row option) op"
  ob_read_target_parent :: "repair_case_spec \<Rightarrow> repair_metadata \<Rightarrow> database_row \<Rightarrow> ('w, string, database_row option) op"
  ob_read_source_artist :: "artist_metadata \<Rightarrow> row_key \<Rightarrow> ('w, string, database_row option) op"
  ob_read_target_artist :: "artist_metadata \<Rightarrow> row_key \<Rightarrow> ('w, string, database_row option) op"
  ob_insert_target_artist :: "artist_metadata \<Rightarrow> database_row \<Rightarrow> ('w, string, unit) op"
  ob_restore_target_parent :: "repair_metadata \<Rightarrow> database_row \<Rightarrow> bool \<Rightarrow> ('w, string, unit) op"
  ob_update_target_child :: "repair_metadata \<Rightarrow> database_row \<Rightarrow> ('w, string, unit) op"
  ob_delete_target_child :: "repair_metadata \<Rightarrow> row_key \<Rightarrow> ('w, string, unit) op"
  ob_commit_batch :: "('w, string, unit) op"
  ob_rollback_batch :: "('w, string, unit) op"
  ob_unlock_batch :: "('w, string, unit) op"

datatype orphan_error =
    OrphanBackend string
  | OrphanCountChanged string nat nat
  | EncodeRepairKey string
  | EncodeRemainingKeys string
  | UnlockCommitted string fk_orphan_repair_report
  | OrphansRemain fk_orphan_repair_report string
  | OrphanDisappeared row_key
  | SourceChildAppeared row_key
  | TargetChildRemains row_key
  | ChildDisappeared row_key
  | SourceChildChanged row_key
  | TargetVerification row_key
  | SourceParentMissing row_key
  | SourceParentDisappeared row_key
  | SourceParentChanged row_key
  | TargetParentMissing row_key
  | TargetParentDisappeared row_key
  | TargetParentVerification row_key
  | ParentDiffers row_key string
  | RelationshipInvalid string string string
  | ArtistMetadataMissing
  | SourceArtistMissing row_key
  | SourceArtistChanged row_key
  | TargetArtistDisappeared row_key
  | InsertedArtistVerification row_key
  | RowColumnMissing string string
  | RowColumnNull string string
  | WithBatchCleanup orphan_error "string option" "string option"
  | OrphanPanic string

definition on_orphan :: "('w, string, 'a) op \<Rightarrow> ('w, orphan_error, 'a) op" where
  "on_orphan m = map_err_op OrphanBackend m"

section \<open>Checks on rows\<close>

definition required_row_value :: "database_row \<Rightarrow> string \<Rightarrow> string \<Rightarrow> orphan_error + string" where
  "required_row_value row column endpoint =
     bind_res (ok_or (RowColumnMissing endpoint column) (map_of (dr_values row) column)) (\<lambda>found.
       ok_or (RowColumnNull endpoint column) found)"

fun check_relationship ::
  "(string \<times> string) list \<Rightarrow> database_row \<Rightarrow> database_row \<Rightarrow> string \<Rightarrow> orphan_error + unit"
where
  "check_relationship [] child parent endpoint = Inr ()"
| "check_relationship ((child_column, parent_column) # columns) child parent endpoint =
     bind_res (required_row_value child child_column endpoint) (\<lambda>child_value.
     bind_res (required_row_value parent parent_column endpoint) (\<lambda>parent_value.
       if child_value \<noteq> parent_value then Inl (RelationshipInvalid endpoint child_column parent_column)
       else check_relationship columns child parent endpoint))"

definition validate_child_parent_relationship ::
  "repair_case_spec \<Rightarrow> database_row \<Rightarrow> database_row \<Rightarrow> string \<Rightarrow> orphan_error + unit"
where
  "validate_child_parent_relationship spec child parent endpoint =
     check_relationship (zip (rs_child_foreign_key spec) (rs_parent_key spec)) child parent endpoint"

fun check_parent_columns ::
  "string list \<Rightarrow> database_row \<Rightarrow> database_row \<Rightarrow> row_key \<Rightarrow> orphan_error + unit"
where
  "check_parent_columns [] source target child_primary_key = Inr ()"
| "check_parent_columns (column # columns) source target child_primary_key =
     bind_res (required_row_value source column ''source parent'') (\<lambda>source_value.
     bind_res (required_row_value target column ''target parent'') (\<lambda>target_value.
       if source_value \<noteq> target_value then Inl (ParentDiffers child_primary_key column)
       else check_parent_columns columns source target child_primary_key))"

definition validate_parent_identity ::
  "repair_case_spec \<Rightarrow> database_row \<Rightarrow> database_row \<Rightarrow> row_key \<Rightarrow> orphan_error + unit"
where
  "validate_parent_identity spec source target child_primary_key =
     check_parent_columns (rs_parent_key spec) source target child_primary_key"

section \<open>Parents and artists\<close>

definition require_artist_metadata :: "repair_metadata \<Rightarrow> orphan_error + artist_metadata" where
  "require_artist_metadata metadata = ok_or ArtistMetadataMissing (rm_artists metadata)"

definition verify_repaired_artist ::
  "artist_metadata \<Rightarrow> repaired_artist \<Rightarrow> 'w fk_orphan_repair_backend \<Rightarrow> ('w, orphan_error, unit) op"
where
  "verify_repaired_artist metadata artist backend =
     (let key = dr_primary_key (ra_source artist) in
      bind_op (on_orphan (ob_read_source_artist backend metadata key)) (\<lambda>source.
        if source \<noteq> Some (ra_source artist) then fail_op (SourceArtistChanged key)
        else
      bind_op (on_orphan (ob_read_target_artist backend metadata key)) (\<lambda>found.
      bind_op (lift_op (ok_or (TargetArtistDisappeared key) found)) (\<lambda>target.
        if ra_inserted artist \<and> target \<noteq> ra_source artist then fail_op (InsertedArtistVerification key)
        else lift_op (validate_parent_identity (repair_spec Comics) (ra_source artist) target key)))))"

definition restore_missing_artist ::
  "artist_metadata \<Rightarrow> database_row \<Rightarrow> 'w fk_orphan_repair_backend \<Rightarrow> ('w, orphan_error, repaired_artist) op"
where
  "restore_missing_artist metadata comic backend =
     bind_op (lift_op (required_row_value comic ''artist_id'' ''source comic'')) (\<lambda>artist_id.
     let key = [artist_id]; spec = repair_spec Comics in
     bind_op (on_orphan (ob_read_source_artist backend metadata key)) (\<lambda>found.
     bind_op (lift_op (ok_or (SourceArtistMissing key) found)) (\<lambda>source.
     bind_op (lift_op (validate_child_parent_relationship spec comic source ''source comic artist'')) (\<lambda>_.
     bind_op (on_orphan (ob_read_target_artist backend metadata key)) (\<lambda>target.
     bind_op (case target of
         Some target \<Rightarrow> lift_op (validate_parent_identity spec source target (dr_primary_key comic))
       | None \<Rightarrow> on_orphan (ob_insert_target_artist backend metadata source)) (\<lambda>_.
     let artist = \<lparr>ra_source = source, ra_inserted = (target = None)\<rparr> in
     bind_op (verify_repaired_artist metadata artist backend) (\<lambda>_. ret_op artist)))))))"

definition reconcile_repair_parent ::
  "repair_case_spec \<Rightarrow> repair_metadata \<Rightarrow> row_key \<Rightarrow> database_row \<Rightarrow> 'w fk_orphan_repair_backend
    \<Rightarrow> ('w, orphan_error, database_row \<times> repaired_artist option) op"
where
  "reconcile_repair_parent spec metadata primary_key source_child backend =
     bind_op (on_orphan (ob_read_source_parent backend spec metadata source_child)) (\<lambda>found.
     bind_op (lift_op (ok_or (SourceParentMissing primary_key) found)) (\<lambda>source_parent.
     bind_op (lift_op (validate_child_parent_relationship spec source_child source_parent ''source'')) (\<lambda>_.
     bind_op (if restores_comics_parent spec then
         bind_op (lift_op (require_artist_metadata metadata)) (\<lambda>artists.
         bind_op (restore_missing_artist artists source_parent backend) (\<lambda>artist. ret_op (Some artist)))
       else ret_op None) (\<lambda>artist.
     bind_op (on_orphan (ob_read_target_parent backend spec metadata source_child)) (\<lambda>target_parent.
     bind_op (if restores_comics_parent spec then
         bind_op (if target_parent \<noteq> Some source_parent
             then on_orphan (ob_restore_target_parent backend metadata source_parent (target_parent \<noteq> None))
             else ret_op ()) (\<lambda>_.
         bind_op (on_orphan (ob_read_target_parent backend spec metadata source_child)) (\<lambda>restored.
           if restored \<noteq> Some source_parent then fail_op (TargetParentVerification primary_key) else ret_op ()))
       else
         bind_op (lift_op (ok_or (TargetParentMissing primary_key) target_parent)) (\<lambda>target_parent.
           lift_op (validate_parent_identity spec source_parent target_parent primary_key))) (\<lambda>_.
       ret_op (source_parent, artist)))))))"

section \<open>One orphan\<close>

definition repair_source_absent ::
  "repair_metadata \<Rightarrow> row_key \<Rightarrow> 'w fk_orphan_repair_backend \<Rightarrow> fk_orphan_repair_report
    \<Rightarrow> ('w, orphan_error, fk_orphan_repair_report) op"
where
  "repair_source_absent metadata primary_key backend report =
     bind_op (on_orphan (ob_delete_target_child backend metadata primary_key)) (\<lambda>_.
     bind_op (on_orphan (ob_read_source_child backend metadata primary_key)) (\<lambda>source.
       if source \<noteq> None then fail_op (SourceChildAppeared primary_key)
       else
     bind_op (on_orphan (ob_read_target_child backend metadata primary_key)) (\<lambda>target.
       if target \<noteq> None then fail_op (TargetChildRemains primary_key)
       else ret_op (report\<lparr>or_deleted := or_deleted report + 1\<rparr>))))"

definition apply_source_child ::
  "repair_metadata \<Rightarrow> database_row \<Rightarrow> database_row \<Rightarrow> 'w fk_orphan_repair_backend \<Rightarrow> fk_orphan_repair_report
    \<Rightarrow> ('w, orphan_error, fk_orphan_repair_report) op"
where
  "apply_source_child metadata target_before source_child backend report =
     (if target_before = source_child then ret_op (report\<lparr>or_unchanged := or_unchanged report + 1\<rparr>)
      else bind_op (on_orphan (ob_update_target_child backend metadata source_child)) (\<lambda>_.
             ret_op (report\<lparr>or_updated := or_updated report + 1\<rparr>)))"

definition verify_repaired_relationship ::
  "repair_case_spec \<Rightarrow> repair_metadata \<Rightarrow> row_key \<Rightarrow> database_row \<Rightarrow> database_row \<Rightarrow> 'w fk_orphan_repair_backend
    \<Rightarrow> ('w, orphan_error, unit) op"
where
  "verify_repaired_relationship spec metadata primary_key source_child source_parent backend =
     bind_op (on_orphan (ob_read_source_child backend metadata primary_key)) (\<lambda>source_after.
       if source_after \<noteq> Some source_child then fail_op (SourceChildChanged primary_key)
       else
     bind_op (on_orphan (ob_read_source_parent backend spec metadata source_child)) (\<lambda>found.
     bind_op (lift_op (ok_or (SourceParentDisappeared primary_key) found)) (\<lambda>source_parent_after.
       if source_parent_after \<noteq> source_parent then fail_op (SourceParentChanged primary_key)
       else
     bind_op (on_orphan (ob_read_target_child backend metadata primary_key)) (\<lambda>target_after.
       if target_after \<noteq> Some source_child then fail_op (TargetVerification primary_key)
       else
     bind_op (on_orphan (ob_read_target_parent backend spec metadata source_child)) (\<lambda>found.
     bind_op (lift_op (ok_or (TargetParentDisappeared primary_key) found)) (\<lambda>target_parent_after.
       if restores_comics_parent spec \<and> target_parent_after \<noteq> source_parent
       then fail_op (TargetParentVerification primary_key)
       else
     bind_op (lift_op (validate_parent_identity spec source_parent target_parent_after primary_key)) (\<lambda>_.
       lift_op (validate_child_parent_relationship spec source_child target_parent_after ''target''))))))))"

definition repair_source_present ::
  "repair_case_spec \<Rightarrow> repair_metadata \<Rightarrow> row_key \<Rightarrow> database_row \<Rightarrow> database_row \<Rightarrow> 'w fk_orphan_repair_backend
    \<Rightarrow> fk_orphan_repair_report \<Rightarrow> ('w, orphan_error, fk_orphan_repair_report) op"
where
  "repair_source_present spec metadata primary_key target_before source_child backend report =
     bind_op (reconcile_repair_parent spec metadata primary_key source_child backend) (\<lambda>(source_parent, artist).
     bind_op (if restores_comics_parent spec then
         bind_op (on_orphan (ob_read_target_child backend metadata primary_key)) (\<lambda>found.
           lift_op (ok_or (ChildDisappeared primary_key) found))
       else ret_op target_before) (\<lambda>target_before.
     bind_op (apply_source_child metadata target_before source_child backend report) (\<lambda>report.
     bind_op (verify_repaired_relationship spec metadata primary_key source_child source_parent backend) (\<lambda>_.
     bind_op (case artist of
         Some artist \<Rightarrow>
           bind_op (lift_op (require_artist_metadata metadata)) (\<lambda>artists. verify_repaired_artist artists artist backend)
       | None \<Rightarrow> ret_op ()) (\<lambda>_. ret_op report)))))"

section \<open>Batches\<close>

definition repair_orphan ::
  "repair_case_spec \<Rightarrow> repair_metadata \<Rightarrow> row_key \<Rightarrow> 'w fk_orphan_repair_backend \<Rightarrow> fk_orphan_repair_report
    \<Rightarrow> ('w, orphan_error, fk_orphan_repair_report) op"
where
  "repair_orphan spec metadata primary_key backend report =
     (let report = report\<lparr>or_examined := or_examined report + 1\<rparr> in
      bind_op (on_orphan (ob_is_target_orphan backend spec metadata primary_key)) (\<lambda>orphan.
        if \<not> orphan then ret_op (report\<lparr>or_skipped := or_skipped report + 1\<rparr>)
        else
      bind_op (on_orphan (ob_read_target_child backend metadata primary_key)) (\<lambda>found.
      bind_op (lift_op (ok_or (OrphanDisappeared primary_key) found)) (\<lambda>target_before.
      bind_op (on_orphan (ob_read_source_child backend metadata primary_key)) (\<lambda>source_before.
        case source_before of
          None \<Rightarrow> repair_source_absent metadata primary_key backend report
        | Some source_child \<Rightarrow>
            repair_source_present spec metadata primary_key target_before source_child backend report)))))"

fun repair_orphan_batch ::
  "repair_case_spec \<Rightarrow> repair_metadata \<Rightarrow> row_key list \<Rightarrow> 'w fk_orphan_repair_backend \<Rightarrow> fk_orphan_repair_report
    \<Rightarrow> ('w, orphan_error, fk_orphan_repair_report) op"
where
  "repair_orphan_batch spec metadata [] backend report = ret_op report"
| "repair_orphan_batch spec metadata (primary_key # primary_keys) backend report =
     bind_op (repair_orphan spec metadata primary_key backend report)
       (\<lambda>report. repair_orphan_batch spec metadata primary_keys backend report)"

definition batch_cleanup_error ::
  "orphan_error \<Rightarrow> 'w fk_orphan_repair_backend \<Rightarrow> ('w, orphan_error, 'a) op"
where
  "batch_cleanup_error primary_error backend w =
     (case ob_rollback_batch backend w of (rolled, w1) \<Rightarrow>
      case ob_unlock_batch backend w1 of (unlocked, w2) \<Rightarrow>
        let rollback_error = (case rolled of Inl e \<Rightarrow> Some e | Inr _ \<Rightarrow> None);
            unlock_error = (case unlocked of Inl e \<Rightarrow> Some e | Inr _ \<Rightarrow> None) in
        (Inl (if rollback_error = None \<and> unlock_error = None then primary_error
              else WithBatchCleanup primary_error rollback_error unlock_error), w2))"

definition repair_locked_batch ::
  "repair_case_spec \<Rightarrow> repair_metadata \<Rightarrow> row_key list \<Rightarrow> 'w fk_orphan_repair_backend \<Rightarrow> fk_orphan_repair_report
    \<Rightarrow> ('w, orphan_error, fk_orphan_repair_report) op"
where
  "repair_locked_batch spec metadata batch backend report w =
     (case bind_op (on_orphan (ob_begin_batch backend spec metadata)) (\<lambda>_.
             bind_op (repair_orphan_batch spec metadata batch backend report) (\<lambda>report.
             bind_op (on_orphan (ob_commit_batch backend)) (\<lambda>_. ret_op report))) w of
        (Inl error, w1) \<Rightarrow> batch_cleanup_error error backend w1
      | (Inr report, w1) \<Rightarrow>
          bind_op (map_err_op (\<lambda>error. UnlockCommitted error report) (ob_unlock_batch backend)) (\<lambda>_. ret_op report) w1)"

fun repair_orphan_batches ::
  "repair_case_spec \<Rightarrow> repair_metadata \<Rightarrow> row_key list list \<Rightarrow> 'w fk_orphan_repair_backend \<Rightarrow> fk_orphan_repair_report
    \<Rightarrow> ('w, orphan_error, fk_orphan_repair_report) op"
where
  "repair_orphan_batches spec metadata [] backend report = ret_op report"
| "repair_orphan_batches spec metadata (batch # batches) backend report =
     bind_op (repair_locked_batch spec metadata batch backend report)
       (\<lambda>report. repair_orphan_batches spec metadata batches backend report)"

definition repair_orphans_with_backend ::
  "(row_key \<Rightarrow> string + string) \<Rightarrow> (row_key list \<Rightarrow> string + string) \<Rightarrow> fk_orphan_repair_config
    \<Rightarrow> 'w fk_orphan_repair_backend \<Rightarrow> ('w, orphan_error, fk_orphan_repair_report) op"
where
  "repair_orphans_with_backend json_key json_keys config backend =
     (let spec = repair_spec (oc_case config) in
      bind_op (on_orphan (ob_validate_case backend spec)) (\<lambda>metadata.
      bind_op (on_orphan (ob_orphan_keys backend spec metadata (oc_limit config))) (\<lambda>planned_keys.
        if length planned_keys \<noteq> oc_expected_orphans config
        then fail_op (OrphanCountChanged (rs_name spec) (oc_expected_orphans config) (length planned_keys))
        else
      bind_op (lift_op (map_err EncodeRepairKey (collect_res json_key planned_keys))) (\<lambda>_.
        if oc_batch_size config = 0 then fail_op (OrphanPanic ''chunk size must be non-zero'')
        else
      bind_op (repair_orphan_batches spec metadata (chunks_of (oc_batch_size config) planned_keys) backend
          \<lparr>or_planned = length planned_keys, or_examined = 0, or_updated = 0, or_deleted = 0, or_unchanged = 0,
           or_skipped = 0, or_remaining = 0\<rparr>) (\<lambda>report.
      bind_op (on_orphan (ob_orphan_keys backend spec metadata (oc_limit config))) (\<lambda>remaining_keys.
        let report = report\<lparr>or_remaining := length remaining_keys\<rparr> in
        if remaining_keys \<noteq> [] then
          bind_op (lift_op (map_err EncodeRemainingKeys (json_keys remaining_keys))) (\<lambda>shown.
            fail_op (OrphansRemain report shown))
        else ret_op report))))))"

end
