(* ===== verification/Fk_Orphan_Correct.thy ===== *)
theory Fk_Orphan_Correct
  imports Fk_Orphan Chunk_Frame "HOL-Library.Sublist" "HOL-Library.AList"
begin

text \<open>
  Correctness of the orphan repair. The operations are followed with a triple that speaks of both
  outcomes. The interface \<open>orphan_store\<close> states what a backend does to the child rows of the target; a
  target in memory meets it.
\<close>

section \<open>Triples\<close>

text \<open>From \<open>P\<close>, a success with \<open>a\<close> establishes \<open>Q a\<close> and an error establishes \<open>E\<close>.\<close>

definition ensures ::
  "('w \<Rightarrow> bool) \<Rightarrow> ('w, 'e, 'a) op \<Rightarrow> ('a \<Rightarrow> 'w \<Rightarrow> bool) \<Rightarrow> ('w \<Rightarrow> bool) \<Rightarrow> bool"
where
  "ensures P m Q E \<longleftrightarrow>
     (\<forall>w r w'. P w \<longrightarrow> m w = (r, w') \<longrightarrow> (case r of Inl _ \<Rightarrow> E w' | Inr a \<Rightarrow> Q a w'))"

lemma ensuresI:
  "(\<And>w r w'. P w \<Longrightarrow> m w = (r, w') \<Longrightarrow> case r of Inl _ \<Rightarrow> E w' | Inr a \<Rightarrow> Q a w') \<Longrightarrow> ensures P m Q E"
  by (simp add: ensures_def)

lemma ensuresD: "ensures P m Q E \<Longrightarrow> P w \<Longrightarrow> m w = (r, w') \<Longrightarrow> (case r of Inl _ \<Rightarrow> E w' | Inr a \<Rightarrow> Q a w')"
  by (simp add: ensures_def)

lemma ensures_bind: "ensures P m R E \<Longrightarrow> (\<And>a. ensures (R a) (f a) Q E) \<Longrightarrow> ensures P (bind_op m f) Q E"
  unfolding ensures_def bind_op_def by (fastforce split: prod.splits sum.splits)

lemma ensures_map_err: "ensures P m Q E \<Longrightarrow> ensures P (map_err_op g m) Q E"
  unfolding ensures_def map_err_op_def map_err_def by (fastforce split: prod.splits sum.splits)

lemma ensures_on_orphan: "ensures P m Q E \<Longrightarrow> ensures P (on_orphan m) Q E"
  unfolding on_orphan_def by (rule ensures_map_err)

lemma ensures_ret: "(\<And>w. P w \<Longrightarrow> Q a w) \<Longrightarrow> ensures P (ret_op a) Q E"
  by (simp add: ensures_def ret_op_def)

lemma ensures_fail: "(\<And>w. P w \<Longrightarrow> E w) \<Longrightarrow> ensures P (fail_op e) Q E"
  by (simp add: ensures_def fail_op_def)

lemma ensures_lift:
  "(\<And>w. P w \<Longrightarrow> E w) \<Longrightarrow> (\<And>a w. r = Inr a \<Longrightarrow> P w \<Longrightarrow> Q a w) \<Longrightarrow> ensures P (lift_op r) Q E"
  by (auto simp: ensures_def lift_op_def split: sum.splits)

lemma ensures_if: "(b \<Longrightarrow> ensures P m Q E) \<Longrightarrow> (\<not> b \<Longrightarrow> ensures P n Q E) \<Longrightarrow> ensures P (if b then m else n) Q E"
  by simp

lemma ensures_weaken:
  "ensures P m Q E \<Longrightarrow> (\<And>w. P' w \<Longrightarrow> P w) \<Longrightarrow> (\<And>a w. Q a w \<Longrightarrow> Q' a w) \<Longrightarrow> (\<And>w. E w \<Longrightarrow> E' w) \<Longrightarrow> ensures P' m Q' E'"
  unfolding ensures_def by (fastforce split: sum.splits)

lemma keeps_on_orphan [keep_rules]: "keeps I m \<Longrightarrow> keeps I (on_orphan m)"
  unfolding on_orphan_def by (rule keeps_map_err)

lemma keeps_ensures: "keeps I m \<Longrightarrow> ensures I m (\<lambda>_. I) I"
  by (auto simp: keeps_def split: sum.splits intro!: ensuresI)

section \<open>What a repair does to the child rows\<close>

type_synonym child_table = "row_key \<Rightarrow> database_row option"

text \<open>A repair adds no row, removes only rows of \<open>K\<close> the source does not have, and, unless it restores
  parents, changes rows of \<open>K\<close> only, and to what the source has.\<close>

definition settled :: "bool \<Rightarrow> child_table \<Rightarrow> row_key set \<Rightarrow> child_table \<Rightarrow> child_table \<Rightarrow> bool" where
  "settled restores S K c c' \<longleftrightarrow> (\<forall>k.
     (c k = None \<longrightarrow> c' k = None) \<and>
     (c' k = None \<longrightarrow> c k = None \<or> k \<in> K \<and> S k = None) \<and>
     (\<not> restores \<longrightarrow> c' k = c k \<or> k \<in> K \<and> c' k = S k))"

lemma settled_refl [simp, intro]: "settled restores S K c c"
  by (simp add: settled_def)

lemma settled_trans: "settled restores S K c c' \<Longrightarrow> settled restores S K c' c'' \<Longrightarrow> settled restores S K c c''"
  unfolding settled_def by metis

lemma settled_keeps:
  "settled False S K c c' \<Longrightarrow> c k = S k \<Longrightarrow> c' k = S k"
  unfolding settled_def by metis

lemma settled_update:
  "c k \<noteq> None \<Longrightarrow> k \<in> K \<Longrightarrow> S k = Some row \<Longrightarrow> settled restores S K c (c(k \<mapsto> row))"
  by (auto simp: settled_def)

lemma settled_delete: "k \<in> K \<Longrightarrow> S k = None \<Longrightarrow> settled restores S K c (c(k := None))"
  by (auto simp: settled_def)

text \<open>The counters after some keys were worked off: each key was examined and either skipped or
  \<open>fixed\<close>; a fixed key has its source row.\<close>

definition worked_off ::
  "bool \<Rightarrow> child_table \<Rightarrow> row_key list \<Rightarrow> fk_orphan_repair_report \<Rightarrow> fk_orphan_repair_report \<Rightarrow> child_table \<Rightarrow> bool"
where
  "worked_off restores S keys report report' c \<longleftrightarrow>
     (\<exists>fixed. subseq fixed keys \<and> (\<not> restores \<longrightarrow> (\<forall>k \<in> set fixed. c k = S k)) \<and>
        or_planned report' = or_planned report \<and> or_remaining report' = or_remaining report \<and>
        or_examined report' = or_examined report + length keys \<and>
        or_updated report' + or_deleted report' + or_unchanged report'
          = or_updated report + or_deleted report + or_unchanged report + length fixed \<and>
        or_skipped report' + length fixed = or_skipped report + length keys)"

lemma worked_off_Nil: "worked_off restores S [] report report c"
  unfolding worked_off_def by (intro exI [of _ "[]"]) simp

lemma worked_off_append:
  assumes "worked_off restores S xs report report' c" "worked_off restores S ys report' report'' c'"
    and "settled restores S K c c'"
  shows "worked_off restores S (xs @ ys) report report'' c'"
proof -
  from assms(1) obtain f where f: "subseq f xs" "\<not> restores \<longrightarrow> (\<forall>k \<in> set f. c k = S k)"
      "or_planned report' = or_planned report" "or_remaining report' = or_remaining report"
      "or_examined report' = or_examined report + length xs"
      "or_updated report' + or_deleted report' + or_unchanged report'
         = or_updated report + or_deleted report + or_unchanged report + length f"
      "or_skipped report' + length f = or_skipped report + length xs"
    unfolding worked_off_def by blast
  from assms(2) obtain g where g: "subseq g ys" "\<not> restores \<longrightarrow> (\<forall>k \<in> set g. c' k = S k)"
      "or_planned report'' = or_planned report'" "or_remaining report'' = or_remaining report'"
      "or_examined report'' = or_examined report' + length ys"
      "or_updated report'' + or_deleted report'' + or_unchanged report''
         = or_updated report' + or_deleted report' + or_unchanged report' + length g"
      "or_skipped report'' + length g = or_skipped report' + length ys"
    unfolding worked_off_def by blast
  have "\<not> restores \<longrightarrow> (\<forall>k \<in> set (f @ g). c' k = S k)"
    using f(2) g(2) assms(3) settled_keeps [of S K c c'] by (cases restores) auto
  moreover have "subseq (f @ g) (xs @ ys)" using f(1) g(1) by (rule list_emb_append_mono)
  ultimately show ?thesis
    unfolding worked_off_def using f g by (intro exI [of _ "f @ g"]) simp
qed

section \<open>The backend contract\<close>

text \<open>
  \<open>vis\<close> are the child rows the target session sees, \<open>dur\<close> the committed ones, \<open>S\<close> the child rows of the
  source, \<open>orphan\<close> the rows without a parent. Restoring a parent may change child rows through a
  cascade, but adds and removes none. A failed commit may have taken effect, and \<open>UNLOCK TABLES\<close> may
  commit.
\<close>

locale orphan_store =
  fixes backend :: "'w fk_orphan_repair_backend" and spec :: repair_case_spec and S :: child_table
    and vis :: "'w \<Rightarrow> child_table" and dur :: "'w \<Rightarrow> child_table" and orphan :: "'w \<Rightarrow> row_key \<Rightarrow> bool"
  assumes validates: "ob_validate_case backend spec w = (r0, w') \<Longrightarrow> vis w' = vis w \<and> dur w' = dur w \<and> orphan w' = orphan w"
    and lists: "ob_orphan_keys backend spec md limit w = (r1, w') \<Longrightarrow> vis w' = vis w \<and> dur w' = dur w \<and> orphan w' = orphan w
      \<and> (\<forall>keys. r1 = Inr keys \<longrightarrow> set keys \<subseteq> {k. orphan w k} \<and> (keys = [] \<longrightarrow> 0 < limit \<longrightarrow> (\<forall>k. \<not> orphan w k)))"
    and begins: "ob_begin_batch backend spec md w = (r, w') \<Longrightarrow> dur w' = dur w \<and> (vis w' = dur w \<or> r \<noteq> Inr () \<and> vis w' = vis w)"
    and examines: "ob_is_target_orphan backend spec md k w = (r2, w') \<Longrightarrow> vis w' = vis w \<and> dur w' = dur w"
    and reads_source: "ob_read_source_child backend md k w = (r3, w') \<Longrightarrow> vis w' = vis w \<and> dur w' = dur w
      \<and> (\<forall>found. r3 = Inr found \<longrightarrow> found = S k \<and> (\<forall>row. found = Some row \<longrightarrow> dr_primary_key row = k))"
    and reads_target: "ob_read_target_child backend md k w = (r3, w') \<Longrightarrow> vis w' = vis w \<and> dur w' = dur w
      \<and> (\<forall>found. r3 = Inr found \<longrightarrow> found = vis w k)"
    and reads_parents: "ob_read_source_parent backend spec md row w = (r3, w') \<Longrightarrow> vis w' = vis w \<and> dur w' = dur w"
      "ob_read_target_parent backend spec md row w = (r3, w') \<Longrightarrow> vis w' = vis w \<and> dur w' = dur w"
    and artists: "ob_read_source_artist backend am k w = (r3, w') \<Longrightarrow> vis w' = vis w \<and> dur w' = dur w"
      "ob_read_target_artist backend am k w = (r3, w') \<Longrightarrow> vis w' = vis w \<and> dur w' = dur w"
      "ob_insert_target_artist backend am row w = (r, w') \<Longrightarrow> vis w' = vis w \<and> dur w' = dur w"
    and restores: "ob_restore_target_parent backend md row exists w = (r, w') \<Longrightarrow>
      dur w' = dur w \<and> (\<forall>k. vis w' k = None \<longleftrightarrow> vis w k = None)"
    and updates: "ob_update_target_child backend md row w = (r, w') \<Longrightarrow>
      dur w' = dur w \<and> (vis w' = vis w \<or> vis w (dr_primary_key row) \<noteq> None \<and> vis w' = (vis w)(dr_primary_key row \<mapsto> row))"
    and deletes: "ob_delete_target_child backend md k w = (r, w') \<Longrightarrow>
      dur w' = dur w \<and> (vis w' = vis w \<or> vis w' = (vis w)(k := None))"
    and commits: "ob_commit_batch backend w = (r, w') \<Longrightarrow> vis w' = vis w \<and> (dur w' = vis w \<or> r \<noteq> Inr () \<and> dur w' = dur w)"
    and rollbacks: "ob_rollback_batch backend w = (r, w') \<Longrightarrow> dur w' = dur w \<and> (vis w' = dur w \<or> vis w' = vis w)"
    and unlocks: "ob_unlock_batch backend w = (r, w') \<Longrightarrow> vis w' = vis w \<and> (dur w' = dur w \<or> dur w' = vis w)"
begin

abbreviation rst :: bool where "rst \<equiv> restores_comics_parent spec"

text \<open>Between \<open>c\<close> and the rows the session sees only settled changes were made; nothing is committed.\<close>

definition within :: "row_key set \<Rightarrow> child_table \<Rightarrow> child_table \<Rightarrow> 'w \<Rightarrow> bool" where
  "within K d c w \<longleftrightarrow> dur w = d \<and> settled rst S K c (vis w)"

abbreviation rows_are :: "child_table \<Rightarrow> child_table \<Rightarrow> 'w \<Rightarrow> bool" where
  "rows_are v d \<equiv> \<lambda>w. vis w = v \<and> dur w = d"

lemma reads_keep [keep_rules]:
  "keeps (rows_are v d) (ob_is_target_orphan backend spec md k)" "keeps (rows_are v d) (ob_read_source_child backend md k)"
  "keeps (rows_are v d) (ob_read_target_child backend md k)" "keeps (rows_are v d) (ob_read_source_parent backend spec md row)"
  "keeps (rows_are v d) (ob_read_target_parent backend spec md row)" "keeps (rows_are v d) (ob_read_source_artist backend am k)"
  "keeps (rows_are v d) (ob_read_target_artist backend am k)" "keeps (rows_are v d) (ob_insert_target_artist backend am row)"
  unfolding keeps_def
  by (auto dest: examines reads_source reads_target reads_parents artists)

lemma artist_keeps [keep_rules]:
  "keeps (rows_are v d) (verify_repaired_artist am artist backend)" "keeps (rows_are v d) (restore_missing_artist am comic backend)"
proof -
  show verify: "keeps (rows_are v d) (verify_repaired_artist am artist backend)" for artist
    unfolding verify_repaired_artist_def Let_def by (intro keep_rules)
  show "keeps (rows_are v d) (restore_missing_artist am comic backend)"
    unfolding restore_missing_artist_def Let_def by (intro keep_rules verify)
qed

lemma keeps_within: "(\<And>v. keeps (rows_are v d) m) \<Longrightarrow> keeps (within K d c) m"
  unfolding keeps_def within_def by metis

lemma restore_within:
  assumes rst
  shows "keeps (within K d c) (ob_restore_target_parent backend md row exists)"
  unfolding keeps_def
proof (intro allI impI)
  fix w r w'
  assume run: "ob_restore_target_parent backend md row exists w = (r, w')" and w: "within K d c w"
  show "within K d c w'"
    using w restores [OF run] assms unfolding within_def settled_def by simp
qed

lemma parent_within: "keeps (within K d c) (reconcile_repair_parent spec md k child backend)"
proof -
  have reads: "keeps (within K d c) (ob_read_source_parent backend spec md child)"
    "keeps (within K d c) (ob_read_target_parent backend spec md child)"
    "keeps (within K d c) (restore_missing_artist am comic backend)" for am comic
    by (rule keeps_within, rule keep_rules)+
  show ?thesis
  proof (cases rst)
    case True
    then show ?thesis
      unfolding reconcile_repair_parent_def by (simp only: if_True) (intro keep_rules reads restore_within)
  next
    case False
    then show ?thesis
      unfolding reconcile_repair_parent_def by (simp only: if_False) (intro keep_rules reads)
  qed
qed

lemma child_present: "within K d c w \<Longrightarrow> c k \<noteq> None \<Longrightarrow> S k \<noteq> None \<Longrightarrow> vis w k \<noteq> None"
  unfolding within_def settled_def by metis

text \<open>One orphan: on success its counters are right and, if it was not skipped, it has its source row.\<close>

lemma absent_repaired:
  assumes "S k = None" "k \<in> K"
  shows "ensures (within K d c) (repair_source_absent md k backend report)
     (\<lambda>report' w. within K d c w \<and> vis w k = S k \<and> report' = report\<lparr>or_deleted := or_deleted report + 1\<rparr>) (within K d c)"
  unfolding repair_source_absent_def
proof (intro ensures_bind ensures_if ensures_on_orphan)
  show "ensures (within K d c) (ob_delete_target_child backend md k) (\<lambda>_. within K d c) (within K d c)"
  proof (rule ensuresI)
    fix w r w'
    assume w: "within K d c w" and run: "ob_delete_target_child backend md k w = (r, w')"
    have "within K d c w'"
      using w deletes [OF run] settled_trans [OF _ settled_delete [where c = "vis w" and k = k and K = K and S = S, OF assms(2,1)]] by (auto simp: within_def)
    then show "case r of Inl _ \<Rightarrow> within K d c w' | Inr _ \<Rightarrow> within K d c w'" by (simp split: sum.split)
  qed
  show "ensures (within K d c) (ob_read_source_child backend md k) (\<lambda>_. within K d c) (within K d c)"
    by (intro keeps_ensures keeps_within keep_rules)
  show "ensures (within K d c) (ob_read_target_child backend md k) (\<lambda>found w. within K d c w \<and> vis w k = found) (within K d c)"
    using reads_target by (fastforce simp: within_def split: sum.splits intro!: ensuresI)
qed (auto intro!: ensures_fail ensures_ret simp: assms)

lemma child_applied:
  assumes "S k = Some child" "dr_primary_key child = k" "k \<in> K" "c k \<noteq> None"
  shows "ensures (within K d c) (apply_source_child md before child backend report)
     (\<lambda>report' w. within K d c w \<and> (report' = report\<lparr>or_unchanged := or_unchanged report + 1\<rparr>
        \<or> report' = report\<lparr>or_updated := or_updated report + 1\<rparr>)) (within K d c)"
  unfolding apply_source_child_def
proof (intro ensures_bind ensures_if ensures_on_orphan)
  show "ensures (within K d c) (ob_update_target_child backend md child) (\<lambda>_. within K d c) (within K d c)"
  proof (rule ensuresI)
    fix w r w'
    assume w: "within K d c w" and run: "ob_update_target_child backend md child w = (r, w')"
    have "vis w k \<noteq> None" using child_present [OF w assms(4)] assms(1) by simp
    then have "settled rst S K (vis w) ((vis w)(k \<mapsto> child))" using assms(1,3) by (simp add: settled_update)
    then have "within K d c w'"
      using w updates [OF run] settled_trans assms(2) unfolding within_def by metis
    then show "case r of Inl _ \<Rightarrow> within K d c w' | Inr _ \<Rightarrow> within K d c w'" by (simp split: sum.split)
  qed
qed (auto intro!: ensures_ret)

lemma relationship_verified:
  assumes "S k = Some child"
  shows "ensures (within K d c) (verify_repaired_relationship spec md k child parent backend)
     (\<lambda>_ w. within K d c w \<and> vis w k = S k) (within K d c)"
proof (rule ensuresI)
  fix w r w'
  assume w: "within K d c w" and run: "verify_repaired_relationship spec md k child parent backend w = (r, w')"
  have "keeps (rows_are v d) (verify_repaired_relationship spec md k child parent backend)" for v
    unfolding verify_repaired_relationship_def by (intro keep_rules)
  then have "keeps (within K d c) (verify_repaired_relationship spec md k child parent backend)" by (rule keeps_within)
  from keepsD [OF this run w] have within: "within K d c w'" .
  have "vis w' k = Some child" if "r = Inr ()"
    using run that unfolding verify_repaired_relationship_def
    by (auto simp: bind_op_def on_orphan_def map_err_op_def map_err_def lift_op_def fail_op_def
        split: prod.splits sum.splits if_splits dest!: reads_source reads_target reads_parents)
  then show "case r of Inl _ \<Rightarrow> within K d c w' | Inr _ \<Rightarrow> within K d c w' \<and> vis w' k = S k"
    using within assms by (simp split: sum.split)
qed

lemma artist_checked:
  "ensures (\<lambda>w. within K d c w \<and> vis w k = S k)
     (case artist of
        Some artist \<Rightarrow> bind_op (lift_op (require_artist_metadata md)) (\<lambda>artists. verify_repaired_artist artists artist backend)
      | None \<Rightarrow> ret_op ())
     (\<lambda>_ w. within K d c w \<and> vis w k = S k) (within K d c)"
proof -
  have "keeps (rows_are v d) (case artist of
        Some artist \<Rightarrow> bind_op (lift_op (require_artist_metadata md)) (\<lambda>artists. verify_repaired_artist artists artist backend)
      | None \<Rightarrow> ret_op ())" for v
    by (cases artist) (auto intro!: keep_rules)
  then have "keeps (\<lambda>w. within K d c w \<and> vis w k = S k) (case artist of
        Some artist \<Rightarrow> bind_op (lift_op (require_artist_metadata md)) (\<lambda>artists. verify_repaired_artist artists artist backend)
      | None \<Rightarrow> ret_op ())"
    unfolding keeps_def within_def by metis
  from keeps_ensures [OF this] show ?thesis by (rule ensures_weaken) auto
qed

lemma ensures_conj_pure: "(p \<Longrightarrow> ensures P m Q E) \<Longrightarrow> ensures (\<lambda>w. P w \<and> p) m Q E"
  unfolding ensures_def by blast

lemma present_repaired:
  assumes "S k = Some child" "dr_primary_key child = k" "k \<in> K" "c k \<noteq> None"
  shows "ensures (within K d c) (repair_source_present spec md k before child backend report)
     (\<lambda>report' w. within K d c w \<and> vis w k = S k \<and> (report' = report\<lparr>or_unchanged := or_unchanged report + 1\<rparr>
        \<or> report' = report\<lparr>or_updated := or_updated report + 1\<rparr>)) (within K d c)"
  unfolding repair_source_present_def
proof (rule ensures_bind [OF keeps_ensures [OF parent_within]], unfold split_def, rule ensures_bind, rule keeps_ensures)
  show "keeps (within K d c) (if rst then bind_op (on_orphan (ob_read_target_child backend md k))
      (\<lambda>found. lift_op (ok_or (ChildDisappeared k) found)) else ret_op before)"
    by (intro keeps_within keep_rules)
qed (intro ensures_bind [OF child_applied [where c = c, OF assms]] ensures_conj_pure
    ensures_bind [OF relationship_verified [OF assms(1)]] ensures_bind [OF artist_checked] ensures_ret, blast)

text \<open>One key and one batch.\<close>

lemma worked_off_one:
  "worked_off rst S [k] report (report\<lparr>or_examined := or_examined report + 1, or_skipped := or_skipped report + 1\<rparr>) v"
  "v k = S k \<Longrightarrow> worked_off rst S [k] report (report\<lparr>or_examined := or_examined report + 1, or_deleted := or_deleted report + 1\<rparr>) v"
  "v k = S k \<Longrightarrow> worked_off rst S [k] report (report\<lparr>or_examined := or_examined report + 1, or_unchanged := or_unchanged report + 1\<rparr>) v"
  "v k = S k \<Longrightarrow> worked_off rst S [k] report (report\<lparr>or_examined := or_examined report + 1, or_updated := or_updated report + 1\<rparr>) v"
  unfolding worked_off_def
  by (rule exI [of _ "[]"], simp) (rule exI [of _ "[k]"], simp)+

lemma orphan_repaired:
  assumes "k \<in> K"
  shows "ensures (within K d c) (repair_orphan spec md k backend report)
     (\<lambda>report' w. within K d c w \<and> worked_off rst S [k] report report' (vis w)) (within K d c)"
  unfolding repair_orphan_def Let_def
proof (intro ensures_bind ensures_if ensures_on_orphan)
  let ?report = "report\<lparr>or_examined := or_examined report + 1\<rparr>"
  show "ensures (within K d c) (ob_is_target_orphan backend spec md k) (\<lambda>_. within K d c) (within K d c)"
    by (intro keeps_ensures keeps_within keep_rules)
  show "ensures (within K d c) (ret_op (?report\<lparr>or_skipped := or_skipped ?report + 1\<rparr>))
     (\<lambda>report' w. within K d c w \<and> worked_off rst S [k] report report' (vis w)) (within K d c)"
    using worked_off_one(1) by (intro ensures_ret) simp
  show "ensures (within K d c) (ob_read_target_child backend md k) (\<lambda>found w. within K d c w \<and> (found \<noteq> None \<longrightarrow> c k \<noteq> None)) (within K d c)"
  proof (rule ensuresI)
    fix w r w'
    assume w: "within K d c w" and run: "ob_read_target_child backend md k w = (r, w')"
    show "case r of Inl _ \<Rightarrow> within K d c w' | Inr found \<Rightarrow> within K d c w' \<and> (found \<noteq> None \<longrightarrow> c k \<noteq> None)"
      using w reads_target [OF run] unfolding within_def settled_def by (auto split: sum.split)
  qed
  show "ensures (\<lambda>w. within K d c w \<and> (found \<noteq> None \<longrightarrow> c k \<noteq> None)) (lift_op (ok_or (OrphanDisappeared k) found))
      (\<lambda>_ w. within K d c w \<and> c k \<noteq> None) (within K d c)" for found
    by (cases found) (auto simp: ok_or_def intro!: ensures_lift)
  show "ensures (\<lambda>w. within K d c w \<and> c k \<noteq> None) (ob_read_source_child backend md k)
      (\<lambda>found w. within K d c w \<and> c k \<noteq> None \<and> found = S k \<and> (\<forall>row. found = Some row \<longrightarrow> dr_primary_key row = k)) (within K d c)"
  proof (rule ensuresI)
    fix w r w'
    assume w: "within K d c w \<and> c k \<noteq> None" and run: "ob_read_source_child backend md k w = (r, w')"
    show "case r of Inl _ \<Rightarrow> within K d c w' | Inr found \<Rightarrow> within K d c w' \<and> c k \<noteq> None \<and> found = S k
        \<and> (\<forall>row. found = Some row \<longrightarrow> dr_primary_key row = k)"
      using w reads_source [OF run] by (auto simp: within_def split: sum.split)
  qed
  fix before source
  let ?post = "\<lambda>report' w. within K d c w \<and> worked_off rst S [k] report report' (vis w)"
  show "ensures (\<lambda>w. within K d c w \<and> c k \<noteq> None \<and> source = S k \<and> (\<forall>row. source = Some row \<longrightarrow> dr_primary_key row = k))
      (case source of None \<Rightarrow> repair_source_absent md k backend ?report
       | Some child \<Rightarrow> repair_source_present spec md k before child backend ?report) ?post (within K d c)"
  proof (cases "c k \<noteq> None \<and> source = S k \<and> (\<forall>row. source = Some row \<longrightarrow> dr_primary_key row = k)")
    case False
    then show ?thesis unfolding ensures_def by blast
  next
    case True
    show ?thesis
    proof (cases source)
      case None
      have "ensures (within K d c) (repair_source_absent md k backend ?report) ?post (within K d c)"
        by (rule ensures_weaken [OF absent_repaired [where K = K and k = k]])
          (use assms True None worked_off_one(2) in auto)
      then show ?thesis unfolding None option.case by (rule ensures_weaken) auto
    next
      case (Some child)
      have "ensures (within K d c) (repair_source_present spec md k before child backend ?report) ?post (within K d c)"
        by (rule ensures_weaken [OF present_repaired [where c = c and K = K and k = k]])
          (use assms True Some worked_off_one(3,4) in auto)
      then show ?thesis unfolding Some option.case by (rule ensures_weaken) auto
    qed
  qed
qed

lemma batch_repaired:
  assumes "set keys \<subseteq> K"
  shows "ensures (within K d c) (repair_orphan_batch spec md keys backend report)
     (\<lambda>report' w. within K d c w \<and> worked_off rst S keys report report' (vis w)) (within K d c)"
  using assms
proof (induction keys arbitrary: c report)
  case Nil
  then show ?case by (auto intro: ensures_ret worked_off_Nil)
next
  case (Cons k keys)
  show ?case
  proof (rule ensuresI)
    fix w r w'
    assume w: "within K d c w" and run: "repair_orphan_batch spec md (k # keys) backend report w = (r, w')"
    obtain r1 w1 where one: "repair_orphan spec md k backend report w = (r1, w1)" by (rule prod.exhaust)
    have k: "k \<in> K" using Cons.prems by simp
    note O = ensuresD [OF orphan_repaired [OF k] w one]
    show "case r of Inl _ \<Rightarrow> within K d c w' | Inr report' \<Rightarrow> within K d c w' \<and> worked_off rst S (k # keys) report report' (vis w')"
    proof (cases r1)
      case (Inl e)
      then show ?thesis using run one O by (auto simp: bind_op_def)
    next
      case (Inr report1)
      then have rest: "repair_orphan_batch spec md keys backend report1 w1 = (r, w')"
        using run one by (simp add: bind_op_def)
      have w1: "within K d (vis w1) w1" "settled rst S K c (vis w1)" "worked_off rst S [k] report report1 (vis w1)"
        using O Inr by (auto simp: within_def)
      have "set keys \<subseteq> K" using Cons.prems by simp
      from ensuresD [OF Cons.IH [OF this] w1(1) rest]
      show ?thesis
        using settled_trans [OF w1(2)] worked_off_append [OF w1(3), where ys = keys and K = K]
        by (auto simp: within_def split: sum.splits)
    qed
  qed
qed

text \<open>A whole batch. Until the repair ends, committed and visible rows are both settled with respect to
  the rows \<open>D\<close> at its start.\<close>

definition safe :: "row_key set \<Rightarrow> child_table \<Rightarrow> 'w \<Rightarrow> bool" where
  "safe K D w \<longleftrightarrow> settled rst S K D (dur w) \<and> settled rst S K D (vis w)"

lemma within_safe: "within K d c w \<Longrightarrow> settled rst S K D d \<Longrightarrow> settled rst S K D c \<Longrightarrow> safe K D w"
  unfolding within_def safe_def using settled_trans by blast

lemma cleanup_safe:
  assumes "batch_cleanup_error e backend w = (r, w')" "safe K D w"
  shows "(\<exists>e'. r = Inl e') \<and> safe K D w'"
proof -
  obtain a w1 where rolled: "ob_rollback_batch backend w = (a, w1)" by (rule prod.exhaust)
  obtain b w2 where unlocked: "ob_unlock_batch backend w1 = (b, w2)" by (rule prod.exhaust)
  have "(\<exists>e'. r = Inl e') \<and> w' = w2" using assms(1) rolled unlocked by (auto simp: batch_cleanup_error_def Let_def)
  then show ?thesis using assms(2) rollbacks [OF rolled] unlocks [OF unlocked] by (auto simp: safe_def)
qed

lemma batch_body:
  assumes "set keys \<subseteq> K"
  shows "ensures (\<lambda>w. safe K D w \<and> dur w = d)
     (bind_op (on_orphan (ob_begin_batch backend spec md)) (\<lambda>_.
        bind_op (repair_orphan_batch spec md keys backend report) (\<lambda>report.
        bind_op (on_orphan (ob_commit_batch backend)) (\<lambda>_. ret_op report))))
     (\<lambda>report' w. safe K D w \<and> dur w = vis w \<and> settled rst S K d (dur w) \<and> worked_off rst S keys report report' (dur w)) (safe K D)"
proof (intro ensures_bind ensures_on_orphan)
  show "ensures (\<lambda>w. safe K D w \<and> dur w = d) (ob_begin_batch backend spec md)
      (\<lambda>_ w. within K d d w \<and> settled rst S K D d) (safe K D)"
  proof (rule ensuresI)
    fix w r w'
    assume w: "safe K D w \<and> dur w = d" and run: "ob_begin_batch backend spec md w = (r, w')"
    show "case r of Inl _ \<Rightarrow> safe K D w' | Inr _ \<Rightarrow> within K d d w' \<and> settled rst S K D d"
      using w begins [OF run] by (auto simp: safe_def within_def split: sum.split)
  qed
  show "ensures (\<lambda>w. within K d d w \<and> settled rst S K D d) (repair_orphan_batch spec md keys backend report)
      (\<lambda>report' w. within K d d w \<and> settled rst S K D d \<and> worked_off rst S keys report report' (vis w)) (safe K D)"
    using batch_repaired [OF assms, of d d md report] within_safe unfolding ensures_def by (fastforce split: sum.splits)
  fix report'
  show "ensures (\<lambda>w. within K d d w \<and> settled rst S K D d \<and> worked_off rst S keys report report' (vis w)) (ob_commit_batch backend)
      (\<lambda>_ w. safe K D w \<and> dur w = vis w \<and> settled rst S K d (dur w) \<and> worked_off rst S keys report report' (dur w)) (safe K D)"
  proof (rule ensuresI)
    fix w r w'
    assume w: "within K d d w \<and> settled rst S K D d \<and> worked_off rst S keys report report' (vis w)"
      and run: "ob_commit_batch backend w = (r, w')"
    have "safe K D w" using w within_safe by blast
    then show "case r of Inl _ \<Rightarrow> safe K D w' | Inr _ \<Rightarrow> safe K D w' \<and> dur w' = vis w' \<and> settled rst S K d (dur w')
        \<and> worked_off rst S keys report report' (dur w')"
      using w commits [OF run] by (auto simp: safe_def within_def split: sum.split)
  qed
qed (auto intro: ensures_ret)

lemma locked_batch_repaired:
  assumes "set keys \<subseteq> K"
  shows "ensures (\<lambda>w. safe K D w \<and> dur w = d) (repair_locked_batch spec md keys backend report)
     (\<lambda>report' w. safe K D w \<and> settled rst S K d (dur w) \<and> worked_off rst S keys report report' (dur w)) (safe K D)"
proof (rule ensuresI)
  fix w r w'
  assume w: "safe K D w \<and> dur w = d" and run: "repair_locked_batch spec md keys backend report w = (r, w')"
  let ?body = "bind_op (on_orphan (ob_begin_batch backend spec md)) (\<lambda>_.
      bind_op (repair_orphan_batch spec md keys backend report) (\<lambda>report.
      bind_op (on_orphan (ob_commit_batch backend)) (\<lambda>_. ret_op report)))"
  obtain q w1 where body: "?body w = (q, w1)" by (rule prod.exhaust)
  note B = ensuresD [OF batch_body [OF assms] w body]
  show "case r of Inl _ \<Rightarrow> safe K D w' | Inr report' \<Rightarrow> safe K D w' \<and> settled rst S K d (dur w')
      \<and> worked_off rst S keys report report' (dur w')"
  proof (cases q)
    case (Inl e)
    then have "batch_cleanup_error e backend w1 = (r, w')" "safe K D w1"
      using run body B by (simp_all add: repair_locked_batch_def)
    from cleanup_safe [OF this] show ?thesis by auto
  next
    case (Inr report')
    obtain u w2 where unlocked: "ob_unlock_batch backend w1 = (u, w2)" by (rule prod.exhaust)
    have "w' = w2 \<and> (\<forall>x. r = Inr x \<longrightarrow> x = report')"
      using run body Inr unlocked by (cases u) (auto simp: repair_locked_batch_def bind_op_def map_err_op_def ret_op_def)
    then show ?thesis using B Inr unlocks [OF unlocked] by (auto simp: safe_def split: sum.split)
  qed
qed

lemma batches_repaired:
  assumes "\<forall>keys \<in> set batches. set keys \<subseteq> K"
  shows "ensures (\<lambda>w. safe K D w \<and> dur w = d) (repair_orphan_batches spec md batches backend report)
     (\<lambda>report' w. safe K D w \<and> settled rst S K d (dur w) \<and> worked_off rst S (concat batches) report report' (dur w)) (safe K D)"
  using assms
proof (induction batches arbitrary: d report)
  case Nil
  then show ?case by (auto intro: ensures_ret worked_off_Nil)
next
  case (Cons keys batches)
  show ?case
  proof (rule ensuresI)
    fix w r w'
    assume w: "safe K D w \<and> dur w = d" and run: "repair_orphan_batches spec md (keys # batches) backend report w = (r, w')"
    obtain r1 w1 where one: "repair_locked_batch spec md keys backend report w = (r1, w1)" by (rule prod.exhaust)
    have keys: "set keys \<subseteq> K" using Cons.prems by simp
    note O = ensuresD [OF locked_batch_repaired [OF keys] w one]
    show "case r of Inl _ \<Rightarrow> safe K D w' | Inr report' \<Rightarrow> safe K D w' \<and> settled rst S K d (dur w')
        \<and> worked_off rst S (concat (keys # batches)) report report' (dur w')"
    proof (cases r1)
      case (Inl e)
      then show ?thesis using run one O by (auto simp: bind_op_def)
    next
      case (Inr report1)
      then have rest: "repair_orphan_batches spec md batches backend report1 w1 = (r, w')"
        using run one by (simp add: bind_op_def)
      have w1: "safe K D w1 \<and> dur w1 = dur w1" "settled rst S K d (dur w1)" "worked_off rst S keys report report1 (dur w1)"
        using O Inr by auto
      have "\<forall>keys \<in> set batches. set keys \<subseteq> K" using Cons.prems by simp
      from ensuresD [OF Cons.IH [OF this] w1(1) rest]
      show ?thesis
        using settled_trans [OF w1(2)] worked_off_append [OF w1(3), where ys = "concat batches" and K = K]
        by (auto split: sum.splits)
    qed
  qed
qed

lemma repair_run:
  assumes run: "repair_orphans_with_backend json_key json_keys config backend w = (r, w')"
    and spec: "spec = repair_spec (oc_case config)" and start: "vis w = dur w" and limit: "0 < oc_limit config"
  shows "settled rst S {k. orphan w k} (dur w) (dur w') \<and>
     (\<forall>report. r = Inr report \<longrightarrow> (\<forall>k. \<not> orphan w' k) \<and> or_remaining report = 0 \<and>
        or_planned report = oc_expected_orphans config \<and>
        (\<exists>keys. set keys \<subseteq> {k. orphan w k} \<and> length keys = oc_expected_orphans config \<and>
           worked_off rst S keys \<lparr>or_planned = length keys, or_examined = 0, or_updated = 0, or_deleted = 0, or_unchanged = 0,
             or_skipped = 0, or_remaining = 0\<rparr> report (dur w')))"
proof -
  let ?K = "{k. orphan w k}" and ?limit = "oc_limit config"
  obtain a w1 where val: "ob_validate_case backend spec w = (a, w1)" by (rule prod.exhaust)
  note V = validates [OF val]
  show ?thesis
  proof (cases a)
    case (Inl e)
    then show ?thesis using run val V
      by (auto simp: repair_orphans_with_backend_def Let_def spec [symmetric] bind_op_def on_orphan_def map_err_op_def)
  next
    case md: (Inr md)
    obtain b w2 where list1: "ob_orphan_keys backend spec md ?limit w1 = (b, w2)" by (rule prod.exhaust)
    note L = lists [OF list1]
    show ?thesis
    proof (cases "\<exists>keys. b = Inr keys \<and> length keys = oc_expected_orphans config \<and> (\<exists>shown. collect_res json_key keys = Inr shown)
        \<and> oc_batch_size config \<noteq> 0")
      case False
      then show ?thesis using run val md list1 V L
        by (cases b) (auto simp: repair_orphans_with_backend_def Let_def spec [symmetric] bind_op_def on_orphan_def map_err_op_def
            map_err_def lift_op_def fail_op_def split: sum.splits if_splits)
    next
      case True
      then obtain keys shown where keys: "b = Inr keys" "length keys = oc_expected_orphans config"
          "collect_res json_key keys = Inr shown" and size: "0 < oc_batch_size config" by auto
      let ?empty = "\<lparr>or_planned = length keys, or_examined = 0, or_updated = 0, or_deleted = 0, or_unchanged = 0,
          or_skipped = 0, or_remaining = 0\<rparr>"
      have K: "set keys \<subseteq> ?K" using L V keys(1) by auto
      then have batches: "\<forall>batch \<in> set (chunks_of (oc_batch_size config) keys). set batch \<subseteq> ?K"
        using concat_chunks_of [OF size, of keys] by (metis Sup_upper UN_subset_iff set_concat)
      have start2: "safe ?K (dur w) w2 \<and> dur w2 = dur w" using L V start by (simp add: safe_def)
      obtain q w3 where work: "repair_orphan_batches spec md (chunks_of (oc_batch_size config) keys) backend ?empty w2 = (q, w3)"
        by (rule prod.exhaust)
      note B = ensuresD [OF batches_repaired [OF batches] start2 work, unfolded concat_chunks_of [OF size]]
      show ?thesis
      proof (cases q)
        case (Inl e)
        then have "r = Inl e" "w' = w3"
          using run val md list1 keys size work
          by (auto simp: repair_orphans_with_backend_def Let_def spec [symmetric] bind_op_def on_orphan_def map_err_op_def lift_op_def)
        then show ?thesis using B Inl by (simp add: safe_def)
      next
        case (Inr report)
        obtain c w4 where list2: "ob_orphan_keys backend spec md ?limit w3 = (c, w4)" by (rule prod.exhaust)
        note L2 = lists [OF list2]
        have "w' = w4 \<and> (\<forall>x. r = Inr x \<longrightarrow> c = Inr [] \<and> x = report\<lparr>or_remaining := 0\<rparr>)"
          using run val md list1 keys size work Inr list2
          by (cases c) (auto simp: repair_orphans_with_backend_def Let_def spec [symmetric] bind_op_def on_orphan_def map_err_op_def
              map_err_def lift_op_def fail_op_def ret_op_def split: sum.splits if_splits)
        moreover have "worked_off rst S keys ?empty report (dur w3)" "settled rst S ?K (dur w) (dur w3)"
          using B Inr by auto
        moreover have "report\<lparr>or_remaining := 0\<rparr> = report" "or_planned report = length keys" "or_remaining report = 0"
          using calculation(2) unfolding worked_off_def by auto
        ultimately show ?thesis using L2 limit K keys(2) by auto
      qed
    qed
  qed
qed

end

section \<open>A target in memory\<close>

text \<open>The favourites of users: committed and visible child rows, and parents that are equal on both sides.\<close>

record favourites =
  fv_vis :: "(row_key \<times> database_row) list"
  fv_dur :: "(row_key \<times> database_row) list"

definition favourite :: "string \<Rightarrow> string \<Rightarrow> string \<Rightarrow> row_key \<times> database_row" where
  "favourite key user name =
     ([key], \<lparr>dr_primary_key = [key], dr_values = [(''id'', Some key), (''user_id'', Some user), (''user_username'', Some name)]\<rparr>)"

definition user_parent :: "string \<Rightarrow> string \<Rightarrow> database_row" where
  "user_parent user name = \<lparr>dr_primary_key = [user], dr_values = [(''id'', Some user), (''name'', Some name)]\<rparr>"

definition parent_of :: "database_row list \<Rightarrow> database_row \<Rightarrow> database_row option" where
  "parent_of users row = find (\<lambda>user. map_of (dr_values user) ''id'' = map_of (dr_values row) ''user_id''
     \<and> map_of (dr_values user) ''name'' = map_of (dr_values row) ''user_username'') users"

definition favourite_orphan :: "database_row list \<Rightarrow> (row_key \<times> database_row) list \<Rightarrow> row_key \<Rightarrow> bool" where
  "favourite_orphan users rows k = (case map_of rows k of None \<Rightarrow> False | Some row \<Rightarrow> parent_of users row = None)"

definition no_metadata :: repair_metadata where
  "no_metadata =
     (let t = \<lparr>st_name = [], st_primary_key = [], st_primary_key_ordering = [], st_columns = [], st_bit_columns = [],
               st_enum_columns = [], st_mediumblob_columns = []\<rparr> in
      \<lparr>rm_source_child = t, rm_target_child = t, rm_source_parent = t, rm_target_parent = t, rm_artists = None\<rparr>)"

definition favourites_backend ::
  "database_row list \<Rightarrow> (row_key \<times> database_row) list \<Rightarrow> favourites fk_orphan_repair_backend"
where
  "favourites_backend users source =
     \<lparr>ob_validate_case = (\<lambda>spec. ret_op no_metadata),
      ob_orphan_keys = (\<lambda>spec md limit w.
        (Inr (take limit (filter (favourite_orphan users (fv_vis w)) (remdups (map fst (fv_vis w))))), w)),
      ob_begin_batch = (\<lambda>spec md w. (Inr (), w\<lparr>fv_vis := fv_dur w\<rparr>)),
      ob_is_target_orphan = (\<lambda>spec md k w. (Inr (favourite_orphan users (fv_vis w) k), w)),
      ob_read_source_child = (\<lambda>md k w. (Inr (map_of source k), w)),
      ob_read_source_parent = (\<lambda>spec md row w. (Inr (parent_of users row), w)),
      ob_read_target_child = (\<lambda>md k w. (Inr (map_of (fv_vis w) k), w)),
      ob_read_target_parent = (\<lambda>spec md row w. (Inr (parent_of users row), w)),
      ob_read_source_artist = (\<lambda>am k. ret_op None),
      ob_read_target_artist = (\<lambda>am k. ret_op None),
      ob_insert_target_artist = (\<lambda>am row. fail_op ''no artists''),
      ob_restore_target_parent = (\<lambda>md row exists. fail_op ''no parents''),
      ob_update_target_child = (\<lambda>md row w.
        if map_of (fv_vis w) (dr_primary_key row) = None then (Inl ''row not found'', w)
        else (Inr (), w\<lparr>fv_vis := AList.update (dr_primary_key row) row (fv_vis w)\<rparr>)),
      ob_delete_target_child = (\<lambda>md k w. (Inr (), w\<lparr>fv_vis := AList.delete k (fv_vis w)\<rparr>)),
      ob_commit_batch = (\<lambda>w. (Inr (), w\<lparr>fv_dur := fv_vis w\<rparr>)),
      ob_rollback_batch = (\<lambda>w. (Inr (), w\<lparr>fv_vis := fv_dur w\<rparr>)),
      ob_unlock_batch = ret_op ()\<rparr>"

definition ann :: database_row where
  "ann = user_parent ''7'' ''ann''"

definition source_favourites :: "(row_key \<times> database_row) list" where
  "source_favourites = [favourite ''1'' ''7'' ''ann'', favourite ''4'' ''7'' ''ann'']"

definition target_favourites :: "(row_key \<times> database_row) list" where
  "target_favourites = [favourite ''1'' ''7'' ''old'', favourite ''2'' ''9'' ''bob'', favourite ''4'' ''7'' ''ann'']"

lemma source_keyed: "map_of source_favourites k = Some row \<Longrightarrow> dr_primary_key row = k"
  by (auto simp: source_favourites_def favourite_def split: if_splits)

interpretation favourites: orphan_store "favourites_backend users source_favourites" spec "map_of source_favourites"
    "map_of \<circ> fv_vis" "map_of \<circ> fv_dur" "favourite_orphan users \<circ> fv_vis"
  for users spec
proof (unfold_locales, goal_cases)
  case (2 md limit w r1 w')
  then have r1: "r1 = Inr (take limit (filter (favourite_orphan users (fv_vis w)) (remdups (map fst (fv_vis w)))))" "w' = w"
    by (auto simp: favourites_backend_def)
  have "k \<in> set (map fst (fv_vis w))" if "favourite_orphan users (fv_vis w) k" for k
    using that by (force simp: favourite_orphan_def split: option.splits dest: map_of_SomeD)
  then show ?case using r1 by (auto simp: filter_empty_conv dest: in_set_takeD)
qed (auto simp: favourites_backend_def ret_op_def fail_op_def fun_eq_iff update_conv delete_conv dest: source_keyed split: if_splits)

section \<open>Properties\<close>


definition favourites_config :: fk_orphan_repair_config where
  "favourites_config = \<lparr>oc_source = default_mysql_connection_config, oc_target = default_target_mysql_config,
     oc_case = ArtistsFavorites, oc_expected_orphans = 2, oc_batch_size = 1, oc_limit = 10\<rparr>"

definition favourites_run :: "(orphan_error + fk_orphan_repair_report) \<times> favourites" where
  "favourites_run = repair_orphans_with_backend (\<lambda>_. Inr []) (\<lambda>_. Inr []) favourites_config
     (favourites_backend [ann] source_favourites) \<lparr>fv_vis = target_favourites, fv_dur = target_favourites\<rparr>"


end
